(* ===== verification/Prelude.thy ===== *)
theory Prelude
  imports Complex_Main "HOL-Library.Sublist"
begin

text \<open>
  The parts of the JavaScript language that the runner's TypeScript rests on: numbers, values,
  property lists in enumeration order, the string operations the sources call, thrown values, and
  a result type for code that may throw.

  \<^item> A number is a rational, a NaN, an infinity or the negative zero. A string is a list of
    characters whose code units lie below 256; there UTF-16 units and code points coincide, and
    UTF-8 lengths are computed from the code unit.
  \<^item> An object is the list of its own enumerable properties in the order \<open>Object.entries\<close> gives:
    array indices in ascending order, then the other keys in order of creation. Creating a data
    property (spread, \<open>fromEntries\<close>, \<open>JSON.parse\<close>) is \<open>obj_def\<close>; assignment \<open>o[k] = v\<close> is
    \<open>obj_put\<close>, which does not create a property for \<open>__proto__\<close>.
  \<^item> A read \<open>o[k]\<close> also finds the methods of \<open>Object.prototype\<close> (\<open>prop_get\<close>).
  \<^item> Code that throws has type \<open>thrown + 'a\<close>.
\<close>

section \<open>Collections of rewrite rules\<close>

named_theorems str_simps \<open>characterisations of the string operations\<close>
named_theorems obj_simps \<open>lookups in property lists\<close>
named_theorems res_simps \<open>sequencing of results\<close>

section \<open>Values\<close>

datatype jsnum = NaN | Infty | NegInfty | NegZero | Fin rat

datatype jsval =
    JUndef
  | JNull
  | JBool bool
  | JNum jsnum
  | JStr string
  | JArr "jsval list"
  | JObj "(string \<times> jsval) list"
  | JFun string

type_synonym props = "(string \<times> jsval) list"

abbreviation JInt :: "int \<Rightarrow> jsval" where
  "JInt n \<equiv> JNum (Fin (of_int n))"

section \<open>Thrown values and results\<close>

text \<open>
  \<open>ErrorInst name message fields\<close> is an instance of \<open>Error\<close> or of a subclass, with the own fields
  the subclass adds; \<open>ThrownVal v\<close> is any other thrown value.
\<close>

datatype thrown = ErrorInst string string props | ThrownVal jsval

type_synonym 'a res = "thrown + 'a"

abbreviation Error :: "string \<Rightarrow> thrown" where
  "Error m \<equiv> ErrorInst ''Error'' m []"

fun sbind :: "'e + 'a \<Rightarrow> ('a \<Rightarrow> 'e + 'b) \<Rightarrow> 'e + 'b" where
  "sbind (Inl e) f = Inl e"
| "sbind (Inr a) f = f a"

definition guard :: "bool \<Rightarrow> 'e \<Rightarrow> 'e + unit" where
  "guard b e = (if b then Inr () else Inl e)"

text \<open>A loop over a list that stops at the first thrown value.\<close>

fun for_each :: "('a \<Rightarrow> 'e + unit) \<Rightarrow> 'a list \<Rightarrow> 'e + unit" where
  "for_each f [] = Inr ()"
| "for_each f (x # xs) = sbind (f x) (\<lambda>_. for_each f xs)"

text \<open>A \<open>map\<close> whose callback may throw.\<close>

fun map_res :: "('a \<Rightarrow> 'e + 'b) \<Rightarrow> 'a list \<Rightarrow> 'e + 'b list" where
  "map_res f [] = Inr []"
| "map_res f (x # xs) = sbind (f x) (\<lambda>y. sbind (map_res f xs) (\<lambda>ys. Inr (y # ys)))"

definition is_ok :: "'e + 'a \<Rightarrow> bool" where
  "is_ok r = (case r of Inl _ \<Rightarrow> False | Inr _ \<Rightarrow> True)"

lemma sbind_Inr_iff [res_simps]: "sbind r f = Inr b \<longleftrightarrow> (\<exists>a. r = Inr a \<and> f a = Inr b)"
  by (cases r) auto

lemma sbind_Inl_iff [res_simps]:
  "sbind r f = Inl e \<longleftrightarrow> r = Inl e \<or> (\<exists>a. r = Inr a \<and> f a = Inl e)"
  by (cases r) auto

lemma guard_Inr_iff [res_simps]: "guard b e = Inr u \<longleftrightarrow> b"
  by (simp add: guard_def)

lemma guard_Inl_iff [res_simps]: "guard b e = Inl e' \<longleftrightarrow> \<not> b \<and> e' = e"
  by (auto simp: guard_def)

lemma guard_True [simp]: "guard True e = Inr ()"
  by (simp add: guard_def)

lemma guard_False [simp]: "guard False e = Inl e"
  by (simp add: guard_def)

lemma for_each_Inr_iff [res_simps]: "for_each f xs = Inr u \<longleftrightarrow> (\<forall>x \<in> set xs. f x = Inr ())"
  by (induction xs) (auto simp: sbind_Inr_iff)

lemma for_each_Inl_D: "for_each f xs = Inl e \<Longrightarrow> \<exists>x \<in> set xs. f x = Inl e"
  by (induction xs) (auto simp: sbind_Inl_iff)

lemma map_res_Inr_iff [res_simps]:
  "map_res f xs = Inr ys \<longleftrightarrow> list_all2 (\<lambda>x y. f x = Inr y) xs ys"
proof (induction xs arbitrary: ys)
  case Nil
  then show ?case by auto
next
  case (Cons x xs)
  then show ?case by (cases ys) (auto simp: sbind_Inr_iff)
qed

lemma map_res_Inl_D: "map_res f xs = Inl e \<Longrightarrow> \<exists>x \<in> set xs. f x = Inl e"
  by (induction xs) (auto simp: sbind_Inl_iff)

lemma is_ok_simps [simp]: "is_ok (Inl e) = False" "is_ok (Inr a) = True"
  by (simp_all add: is_ok_def)

lemma is_ok_iff: "is_ok r \<longleftrightarrow> (\<exists>a. r = Inr a)"
  by (cases r) auto

section \<open>Numbers\<close>

fun num_val :: "jsnum \<Rightarrow> rat option" where
  "num_val (Fin r) = Some r"
| "num_val NegZero = Some 0"
| "num_val _ = None"

definition is_finite :: "jsnum \<Rightarrow> bool" where
  "is_finite n = (num_val n \<noteq> None)"

definition is_integer :: "jsnum \<Rightarrow> bool" where
  "is_integer n = (case num_val n of None \<Rightarrow> False | Some r \<Rightarrow> of_int \<lfloor>r\<rfloor> = r)"

definition max_safe :: int where
  "max_safe = 9007199254740991"

definition is_safe_integer :: "jsnum \<Rightarrow> bool" where
  "is_safe_integer n =
     (case num_val n of None \<Rightarrow> False
      | Some r \<Rightarrow> of_int \<lfloor>r\<rfloor> = r \<and> \<bar>\<lfloor>r\<rfloor>\<bar> \<le> max_safe)"

text \<open>The relational operators on numbers; every comparison with NaN is false.\<close>

fun num_lt :: "jsnum \<Rightarrow> jsnum \<Rightarrow> bool" where
  "num_lt NaN _ = False"
| "num_lt _ NaN = False"
| "num_lt Infty _ = False"
| "num_lt _ Infty = True"
| "num_lt _ NegInfty = False"
| "num_lt NegInfty _ = True"
| "num_lt a b = (case (num_val a, num_val b) of (Some x, Some y) \<Rightarrow> x < y | _ \<Rightarrow> False)"

text \<open>The operator \<open>===\<close> on numbers, \<open>Object.is\<close> on numbers and \<open>SameValueZero\<close>.\<close>

definition num_strict_eq :: "jsnum \<Rightarrow> jsnum \<Rightarrow> bool" where
  "num_strict_eq a b =
     (a \<noteq> NaN \<and> (a = b \<or> (num_val a \<noteq> None \<and> num_val a = num_val b)))"

definition num_le :: "jsnum \<Rightarrow> jsnum \<Rightarrow> bool" where
  "num_le a b = (num_lt a b \<or> num_strict_eq a b)"

definition num_same_zero :: "jsnum \<Rightarrow> jsnum \<Rightarrow> bool" where
  "num_same_zero a b = (a = b \<or> num_strict_eq a b)"

lemma num_lt_Fin [simp]: "num_lt (Fin a) (Fin b) \<longleftrightarrow> a < b"
  by simp

lemma num_le_Fin [simp]: "num_le (Fin a) (Fin b) \<longleftrightarrow> a \<le> b"
  by (auto simp: num_le_def num_strict_eq_def)

lemma is_safe_integer_of_int [simp]:
  "is_safe_integer (Fin (of_int k)) \<longleftrightarrow> \<bar>k\<bar> \<le> max_safe"
  by (simp add: is_safe_integer_def)

lemma is_safe_integerE:
  assumes "is_safe_integer n"
  obtains k where "num_val n = Some (of_int k)" "\<bar>k\<bar> \<le> max_safe"
proof -
  from assms obtain r where "num_val n = Some r" "\<exists>k. r = of_int k" "\<bar>\<lfloor>r\<rfloor>\<bar> \<le> max_safe"
    by (auto simp: is_safe_integer_def split: option.splits)
  with that show thesis by auto
qed

section \<open>Property lists\<close>

text \<open>
  Array-index keys are the canonical decimal spellings of \<open>0 .. 2^32 - 2\<close>.
\<close>

definition digit_val :: "char \<Rightarrow> nat" where
  "digit_val c = of_char c - 48"

definition is_digit :: "char \<Rightarrow> bool" where
  "is_digit c = (48 \<le> (of_char c :: nat) \<and> (of_char c :: nat) \<le> 57)"

definition dec_val :: "string \<Rightarrow> nat" where
  "dec_val s = foldl (\<lambda>n c. 10 * n + digit_val c) 0 s"

definition is_array_index :: "string \<Rightarrow> bool" where
  "is_array_index k =
     (k \<noteq> [] \<and> list_all is_digit k \<and> (hd k = CHR ''0'' \<longrightarrow> tl k = [])
      \<and> dec_val k < 2 ^ 32 - 1)"

fun ins_index :: "string \<Rightarrow> jsval \<Rightarrow> props \<Rightarrow> props" where
  "ins_index k v [] = [(k, v)]"
| "ins_index k v ((k', v') # ps) =
     (if is_array_index k' \<and> dec_val k' < dec_val k then (k', v') # ins_index k v ps
      else (k, v) # (k', v') # ps)"

fun upd_prop :: "string \<Rightarrow> jsval \<Rightarrow> props \<Rightarrow> props" where
  "upd_prop k v [] = []"
| "upd_prop k v ((k', v') # ps) =
     (if k' = k then (k, v) # ps else (k', v') # upd_prop k v ps)"

definition has_own :: "props \<Rightarrow> string \<Rightarrow> bool" where
  "has_own ps k = (k \<in> set (map fst ps))"

text \<open>\<open>CreateDataProperty\<close> and assignment.\<close>

definition obj_def :: "props \<Rightarrow> string \<Rightarrow> jsval \<Rightarrow> props" where
  "obj_def ps k v =
     (if has_own ps k then upd_prop k v ps
      else if is_array_index k then ins_index k v ps
      else ps @ [(k, v)])"

definition obj_put :: "props \<Rightarrow> string \<Rightarrow> jsval \<Rightarrow> props" where
  "obj_put ps k v = (if k = ''__proto__'' then ps else obj_def ps k v)"

definition obj_del :: "props \<Rightarrow> string \<Rightarrow> props" where
  "obj_del ps k = filter (\<lambda>(k', _). k' \<noteq> k) ps"

text \<open>\<open>{...a, ...b}\<close> and \<open>Object.fromEntries\<close>.\<close>

definition spread :: "props \<Rightarrow> props \<Rightarrow> props" where
  "spread a b = foldl (\<lambda>ps (k, v). obj_def ps k v) a b"

definition from_entries :: "props \<Rightarrow> props" where
  "from_entries es = spread [] es"

text \<open>Reading a property: own properties first, then \<open>Object.prototype\<close>.\<close>

definition object_prototype :: "string \<Rightarrow> jsval" where
  "object_prototype k =
     (if k = ''constructor'' then JFun ''Object''
      else if k = ''__proto__'' then JObj []
      else if k \<in> set [''hasOwnProperty'', ''isPrototypeOf'', ''propertyIsEnumerable'',
        ''toString'', ''toLocaleString'', ''valueOf'', ''__defineGetter__'',
        ''__defineSetter__'', ''__lookupGetter__'', ''__lookupSetter__''] then JFun k
      else JUndef)"

definition prop_get :: "props \<Rightarrow> string \<Rightarrow> jsval" where
  "prop_get ps k = (case map_of ps k of Some v \<Rightarrow> v | None \<Rightarrow> object_prototype k)"

text \<open>\<open>isRecord\<close> of the sources, with the properties of the record.\<close>

fun is_record :: "jsval \<Rightarrow> bool" where
  "is_record (JObj _) = True"
| "is_record _ = False"

fun props_of :: "jsval \<Rightarrow> props" where
  "props_of (JObj ps) = ps"
| "props_of _ = []"

definition get :: "jsval \<Rightarrow> string \<Rightarrow> jsval" where
  "get v k = (case v of JObj ps \<Rightarrow> prop_get ps k | _ \<Rightarrow> JUndef)"

text \<open>Property lists as the runtime keeps them: no key twice, at any depth.\<close>

fun wf_js :: "jsval \<Rightarrow> bool" where
  "wf_js (JArr xs) = list_all wf_js xs"
| "wf_js (JObj ps) = (distinct (map fst ps) \<and> list_all (\<lambda>p. wf_js (snd p)) ps)"
| "wf_js _ = True"

lemma map_of_ins_index: "k \<notin> fst ` set ps \<Longrightarrow> map_of (ins_index k v ps) = (map_of ps)(k \<mapsto> v)"
  by (induction k v ps rule: ins_index.induct) (auto simp: fun_eq_iff)

lemma map_of_upd_prop: "k \<in> fst ` set ps \<Longrightarrow> map_of (upd_prop k v ps) = (map_of ps)(k \<mapsto> v)"
proof (induction k v ps rule: upd_prop.induct)
  case (1 k v)
  then show ?case by simp
next
  case (2 k v k' v' ps)
  then show ?case by (cases "k' = k") (simp_all add: fun_eq_iff)
qed

lemma set_ins_index [simp]: "set (ins_index k v ps) = insert (k, v) (set ps)"
  by (induction k v ps rule: ins_index.induct) auto

lemma fst_upd_prop [simp]: "map fst (upd_prop k v ps) = map fst ps"
  by (induction k v ps rule: upd_prop.induct) auto

lemma set_upd_prop: "set (upd_prop k v ps) \<subseteq> insert (k, v) (set ps)"
  by (induction k v ps rule: upd_prop.induct) auto

lemma distinct_ins_index:
  "k \<notin> fst ` set ps \<Longrightarrow> distinct (map fst ps) \<Longrightarrow> distinct (map fst (ins_index k v ps))"
  by (induction k v ps rule: ins_index.induct) auto

lemma map_of_obj_def [obj_simps]: "map_of (obj_def ps k v) = (map_of ps)(k \<mapsto> v)"
proof -
  have "map_of (ps @ [(k, v)]) = (map_of ps)(k \<mapsto> v)" if "k \<notin> fst ` set ps"
    using that by (induction ps) (auto simp: fun_eq_iff)
  then show ?thesis
    by (auto simp: obj_def_def has_own_def map_of_ins_index map_of_upd_prop)
qed

lemma map_of_obj_del [obj_simps]: "map_of (obj_del ps k) = (map_of ps)(k := None)"
  by (induction ps) (auto simp: obj_del_def fun_eq_iff)

lemma distinct_obj_def: "distinct (map fst ps) \<Longrightarrow> distinct (map fst (obj_def ps k v))"
  by (auto simp: obj_def_def has_own_def distinct_ins_index)

lemma distinct_obj_del: "distinct (map fst ps) \<Longrightarrow> distinct (map fst (obj_del ps k))"
  by (simp add: obj_del_def distinct_map inj_on_def)

lemma set_obj_def: "set (obj_def ps k v) \<subseteq> insert (k, v) (set ps)"
  using set_upd_prop [of k v ps] by (auto simp: obj_def_def)

lemma keys_obj_def [simp]: "fst ` set (obj_def ps k v) = insert k (fst ` set ps)"
proof -
  have "fst ` set (upd_prop k v ps) = fst ` set ps"
    using fst_upd_prop [of k v ps] by (metis list.set_map)
  then show ?thesis
    by (auto simp: obj_def_def has_own_def)
qed

lemma keys_obj_del [simp]: "fst ` set (obj_del ps k) = fst ` set ps - {k}"
  by (force simp: obj_del_def)

lemma set_obj_del [simp]: "set (obj_del ps k) = {p \<in> set ps. fst p \<noteq> k}"
  by (auto simp: obj_del_def)

text \<open>
  The interface of a property store: what a lookup returns after a definition and after a
  deletion, and that both keep the keys distinct. The clients of the object model use these laws
  only.
\<close>

locale property_store =
  fixes lookup :: "'s \<Rightarrow> 'k \<Rightarrow> 'v option"
    and define_prop :: "'s \<Rightarrow> 'k \<Rightarrow> 'v \<Rightarrow> 's"
    and delete_prop :: "'s \<Rightarrow> 'k \<Rightarrow> 's"
    and invar :: "'s \<Rightarrow> bool"
  assumes lookup_define: "lookup (define_prop s k v) = (lookup s)(k \<mapsto> v)"
    and lookup_delete: "lookup (delete_prop s k) = (lookup s)(k := None)"
    and invar_define: "invar s \<Longrightarrow> invar (define_prop s k v)"
    and invar_delete: "invar s \<Longrightarrow> invar (delete_prop s k)"
begin

text \<open>Spreading a list of entries over a store.\<close>

definition define_all :: "'s \<Rightarrow> ('k \<times> 'v) list \<Rightarrow> 's" where
  "define_all s es = foldl (\<lambda>s (k, v). define_prop s k v) s es"

lemma lookup_define_all: "lookup (define_all s es) = lookup s ++ map_of (rev es)"
  by (induction es arbitrary: s)
     (auto simp: define_all_def lookup_define map_add_def fun_eq_iff split: option.splits)

lemma invar_define_all: "invar s \<Longrightarrow> invar (define_all s es)"
  by (induction es arbitrary: s) (auto simp: define_all_def invar_define)

lemma define_commute:
  "k \<noteq> k' \<Longrightarrow> lookup (define_prop (define_prop s k v) k' v') = lookup (define_prop (define_prop s k' v') k v)"
  by (auto simp: lookup_define fun_eq_iff)

lemma define_then_delete: "lookup s k = None \<Longrightarrow> lookup (delete_prop (define_prop s k v) k) = lookup s"
  by (auto simp: lookup_define lookup_delete fun_eq_iff)

end

interpretation obj: property_store map_of obj_def obj_del "\<lambda>ps. distinct (map fst ps)"
  by unfold_locales (auto simp: obj_simps simp del: map_map intro: distinct_obj_def distinct_obj_del)

lemma spread_define_all: "spread a b = obj.define_all a b"
  by (simp add: spread_def obj.define_all_def)

lemma map_of_rev_distinct: "distinct (map fst b) \<Longrightarrow> map_of (rev b) = map_of b"
  by (rule map_of_eqI) (auto simp: rev_map [symmetric])

lemma map_of_spread [obj_simps]:
  "distinct (map fst b) \<Longrightarrow> map_of (spread a b) = map_of a ++ map_of b"
  by (simp add: spread_define_all obj.lookup_define_all map_of_rev_distinct)

lemma distinct_spread: "distinct (map fst a) \<Longrightarrow> distinct (map fst (spread a b))"
  by (simp only: spread_define_all obj.invar_define_all)

lemma keys_spread [simp]: "fst ` set (spread a b) = fst ` set a \<union> fst ` set b"
proof (induction b arbitrary: a)
  case Nil
  then show ?case by (simp add: spread_def)
next
  case (Cons p b)
  have "spread a (p # b) = spread (obj_def a (fst p) (snd p)) b"
    by (simp add: spread_def split_beta)
  then show ?case by (simp add: Cons.IH)
qed

lemma set_spread: "set (spread a b) \<subseteq> set a \<union> set b"
proof (induction b arbitrary: a)
  case Nil
  then show ?case by (simp add: spread_def)
next
  case (Cons p b)
  have "set (spread a (p # b)) \<subseteq> set (obj_def a (fst p) (snd p)) \<union> set b"
    using Cons.IH by (simp add: spread_def split_beta)
  with set_obj_def [of a "fst p" "snd p"] show ?case by auto
qed

lemma prop_get_obj_def [obj_simps]: "prop_get (obj_def ps k v) k' = (if k' = k then v else prop_get ps k')"
  by (simp add: prop_get_def obj_simps)

lemma obj_put_eq [obj_simps]: "k \<noteq> ''__proto__'' \<Longrightarrow> obj_put ps k v = obj_def ps k v"
  by (simp add: obj_put_def)

lemma has_own_iff: "has_own ps k \<longleftrightarrow> map_of ps k \<noteq> None"
  by (simp add: has_own_def map_of_eq_None_iff)

lemma has_own_obj_def [obj_simps]: "has_own (obj_def ps k v) k' \<longleftrightarrow> k' = k \<or> has_own ps k'"
  by (simp add: has_own_iff obj_simps)

lemma get_JObj [simp]: "get (JObj ps) k = prop_get ps k"
  by (simp add: get_def)

lemma is_record_iff: "is_record v \<longleftrightarrow> (\<exists>ps. v = JObj ps)"
  by (cases v) auto

end
