(* ===== verification/JsText.thy ===== *)
theory JsText
  imports Prelude
begin

text \<open>
  The string side of the JavaScript library as the runner uses it: splitting, trimming, case
  mapping and replacing; \<open>Number(s)\<close>, \<open>String(v)\<close>, \<open>JSON.stringify\<close> and \<open>JSON.parse\<close>;
  \<open>encodeURIComponent\<close> and \<open>decodeURIComponent\<close>, the form encoding of \<open>URLSearchParams\<close>, UTF-8
  and Base64. The lemmas give the alphabets of the encoders (no separator survives encoding), the
  decoding round trip, and what replacing every occurrence of a text leaves behind.
\<close>

section \<open>Characters and strings\<close>

definition code :: "char \<Rightarrow> nat" where
  "code c = of_char c"

definition is_ws :: "char \<Rightarrow> bool" where
  "is_ws c = (code c \<in> set [9, 10, 11, 12, 13, 32, 160])"

definition is_upper :: "char \<Rightarrow> bool" where
  "is_upper c = (65 \<le> code c \<and> code c \<le> 90)"

definition is_lower :: "char \<Rightarrow> bool" where
  "is_lower c = (97 \<le> code c \<and> code c \<le> 122)"

definition is_alpha :: "char \<Rightarrow> bool" where
  "is_alpha c = (is_upper c \<or> is_lower c)"

definition is_alnum :: "char \<Rightarrow> bool" where
  "is_alnum c = (is_alpha c \<or> is_digit c)"

text \<open>
  Case mapping on Latin-1. The two letters whose capitals lie outside the alphabet keep their code.
\<close>

definition lower_char :: "char \<Rightarrow> char" where
  "lower_char c =
     (if is_upper c \<or> (192 \<le> code c \<and> code c \<le> 222 \<and> code c \<noteq> 215)
      then char_of (code c + 32) else c)"

definition upper_char :: "char \<Rightarrow> char" where
  "upper_char c =
     (if is_lower c \<or> (224 \<le> code c \<and> code c \<le> 254 \<and> code c \<noteq> 247)
      then char_of (code c - 32) else c)"

definition to_lower :: "string \<Rightarrow> string" where
  "to_lower s = map lower_char s"

definition to_upper :: "string \<Rightarrow> string" where
  "to_upper s = concat (map (\<lambda>c. if code c = 223 then ''SS'' else [upper_char c]) s)"

definition starts_with :: "string \<Rightarrow> string \<Rightarrow> bool" where
  "starts_with p s = (take (length p) s = p)"

definition ends_with :: "string \<Rightarrow> string \<Rightarrow> bool" where
  "ends_with p s = starts_with (rev p) (rev s)"

fun contains :: "string \<Rightarrow> string \<Rightarrow> bool" where
  "contains p [] = (p = [])"
| "contains p (c # cs) = (starts_with p (c # cs) \<or> contains p cs)"

definition trim_start :: "string \<Rightarrow> string" where
  "trim_start s = dropWhile is_ws s"

definition trim :: "string \<Rightarrow> string" where
  "trim s = rev (dropWhile is_ws (rev (dropWhile is_ws s)))"

text \<open>\<open>s.split(c)\<close> for a one-character separator.\<close>

fun split_on :: "char \<Rightarrow> string \<Rightarrow> string list" where
  "split_on c [] = [[]]"
| "split_on c (x # xs) =
     (if x = c then [] # split_on c xs
      else (case split_on c xs of [] \<Rightarrow> [[x]] | w # ws \<Rightarrow> (x # w) # ws))"

fun join :: "string \<Rightarrow> string list \<Rightarrow> string" where
  "join sep [] = []"
| "join sep [w] = w"
| "join sep (w # ws) = w @ sep @ join sep ws"

text \<open>
  Replacing every match of a pattern from left to right. The pattern gets the character before the
  current position (for word boundaries) and the rest of the text, and answers the length of its
  match there, 0 for none. \<open>s.replaceAll(old, new)\<close> is the instance whose pattern is a text.
\<close>

function replace_by :: "(char option \<Rightarrow> string \<Rightarrow> nat) \<Rightarrow> string \<Rightarrow> char option \<Rightarrow> string \<Rightarrow> string" where
  "replace_by m new prev s =
     (case s of [] \<Rightarrow> []
      | c # cs \<Rightarrow>
          (let n = m prev s in
           if 0 < n \<and> n \<le> length s
           then new @ replace_by m new (Some (s ! (n - 1))) (drop n s)
           else c # replace_by m new (Some c) cs))"
  by pat_completeness auto
termination
  by (relation "measure (\<lambda>(m, new, prev, s). length s)") auto

declare replace_by.simps [simp del]

definition text_match :: "string \<Rightarrow> char option \<Rightarrow> string \<Rightarrow> nat" where
  "text_match old prev s = (if starts_with old s then length old else 0)"

definition replace_all :: "string \<Rightarrow> string \<Rightarrow> string \<Rightarrow> string" where
  "replace_all old new s = replace_by (text_match old) new None s"

section \<open>Numbers and text\<close>

definition dig :: "nat \<Rightarrow> char" where
  "dig n = char_of (48 + n)"

fun show_nat :: "nat \<Rightarrow> string" where
  "show_nat n = (if n < 10 then [dig n] else show_nat (n div 10) @ [dig (n mod 10)])"

declare show_nat.simps [simp del]

definition show_int :: "int \<Rightarrow> string" where
  "show_int i = (if i < 0 then CHR ''-'' # show_nat (nat (- i)) else show_nat (nat i))"

fun bit_len :: "nat \<Rightarrow> nat" where
  "bit_len n = (if n = 0 then 0 else Suc (bit_len (n div 2)))"

declare bit_len.simps [simp del]

definition rat_pow :: "nat \<Rightarrow> int \<Rightarrow> rat" where
  "rat_pow b e = (if 0 \<le> e then of_nat b ^ nat e else 1 / of_nat b ^ nat (- e))"

definition round_half_even :: "rat \<Rightarrow> int" where
  "round_half_even q =
     (let f = \<lfloor>q\<rfloor>; d = q - of_int f in
      if d < 1 / 2 then f else if 1 / 2 < d then f + 1 else if even f then f else f + 1)"

definition flog2 :: "rat \<Rightarrow> int" where
  "flog2 r =
     (let (p, q) = quotient_of r;
          e = int (bit_len (nat p)) - int (bit_len (nat q))
      in if rat_pow 2 e \<le> r then e else e - 1)"

text \<open>Rounding a non-negative rational to the nearest IEEE double.\<close>

definition round_double :: "rat \<Rightarrow> jsnum" where
  "round_double r =
     (if r = 0 then Fin 0
      else let u = max (flog2 r - 52) (- 1074);
               x = of_int (round_half_even (r / rat_pow 2 u)) * rat_pow 2 u
           in if rat_pow 2 1024 \<le> x then Infty else Fin x)"

definition signed_double :: "bool \<Rightarrow> rat \<Rightarrow> jsnum" where
  "signed_double neg r =
     (case round_double r of
        Fin x \<Rightarrow> if neg then (if x = 0 then NegZero else Fin (- x)) else Fin x
      | Infty \<Rightarrow> if neg then NegInfty else Infty
      | n \<Rightarrow> n)"

definition dec_len :: "rat \<Rightarrow> int" where
  "dec_len r =
     (let (p, q) = quotient_of r;
          d = int (length (show_nat (nat p))) - int (length (show_nat (nat q)))
      in if rat_pow 10 d \<le> r then d + 1 else d)"

text \<open>
  The digits of \<open>Number::toString\<close>: the shortest decimal that rounds back to the number, the
  nearer of two candidates first.
\<close>

fun shortest :: "nat \<Rightarrow> nat \<Rightarrow> rat \<Rightarrow> int \<Rightarrow> nat \<times> int" where
  "shortest 0 k r n = (nat \<lfloor>r / rat_pow 10 (n - int k)\<rfloor>, n)"
| "shortest (Suc fuel) k r n =
     (let sc = rat_pow 10 (n - int k); x = r / sc; near = round_half_even x;
          other = (if near = \<lfloor>x\<rfloor> then \<lceil>x\<rceil> else \<lfloor>x\<rfloor>);
          ok = (\<lambda>s. round_double (of_int s * sc) = Fin r);
          fin = (\<lambda>s. if nat s = 10 ^ k then (10 ^ (k - 1), n + 1) else (nat s, n))
      in if ok near then fin near else if ok other then fin other
         else shortest fuel (Suc k) r n)"

definition zeros :: "nat \<Rightarrow> string" where
  "zeros n = replicate n (CHR ''0'')"

definition pos_to_string :: "rat \<Rightarrow> string" where
  "pos_to_string r =
     (let (s, n) = shortest 17 1 r (dec_len r); ds = show_nat s; k = int (length ds);
          ex = (\<lambda>e. CHR ''e'' # (if e < 0 then CHR ''-'' else CHR ''+'') # show_nat (nat \<bar>e\<bar>))
      in if k \<le> n \<and> n \<le> 21 then ds @ zeros (nat (n - k))
         else if 0 < n \<and> n \<le> 21 then take (nat n) ds @ ''.'' @ drop (nat n) ds
         else if - 6 < n \<and> n \<le> 0 then ''0.'' @ zeros (nat (- n)) @ ds
         else if k = 1 then ds @ ex (n - 1)
         else take 1 ds @ ''.'' @ drop 1 ds @ ex (n - 1))"

fun num_to_string :: "jsnum \<Rightarrow> string" where
  "num_to_string NaN = ''NaN''"
| "num_to_string Infty = ''Infinity''"
| "num_to_string NegInfty = ''-Infinity''"
| "num_to_string NegZero = ''0''"
| "num_to_string (Fin r) =
     (if of_int \<lfloor>r\<rfloor> = r \<and> \<bar>\<lfloor>r\<rfloor>\<bar> \<le> max_safe then show_int \<lfloor>r\<rfloor>
      else if r < 0 then CHR ''-'' # pos_to_string (- r) else pos_to_string r)"

text \<open>\<open>String(v)\<close>.\<close>

fun to_str :: "jsval \<Rightarrow> string" where
  "to_str JUndef = ''undefined''"
| "to_str JNull = ''null''"
| "to_str (JBool b) = (if b then ''true'' else ''false'')"
| "to_str (JNum n) = num_to_string n"
| "to_str (JStr s) = s"
| "to_str (JArr xs) = join '','' (map (\<lambda>x. if x = JUndef \<or> x = JNull then [] else to_str x) xs)"
| "to_str (JObj ps) = ''[object Object]''"
| "to_str (JFun f) = ''function '' @ f @ ''() { [native code] }''"

text \<open>A decimal literal: digits, an optional fraction and an optional exponent.\<close>

definition parse_exp :: "string \<Rightarrow> (int \<times> string) option" where
  "parse_exp s =
     (case s of
        [] \<Rightarrow> Some (0, [])
      | c # cs \<Rightarrow>
          if c = CHR ''e'' \<or> c = CHR ''E'' then
            (let neg = (cs \<noteq> [] \<and> hd cs = CHR ''-'');
                 ds = (if cs \<noteq> [] \<and> (hd cs = CHR ''-'' \<or> hd cs = CHR ''+'') then tl cs else cs);
                 e = takeWhile is_digit ds; rest = dropWhile is_digit ds
             in if e = [] then None
                else Some (if neg then - int (dec_val e) else int (dec_val e), rest))
          else Some (0, s))"

definition parse_decimal :: "string \<Rightarrow> (rat \<times> string) option" where
  "parse_decimal s =
     (let ip = takeWhile is_digit s; r1 = dropWhile is_digit s;
          has_dot = (r1 \<noteq> [] \<and> hd r1 = CHR ''.'');
          fp = (if has_dot then takeWhile is_digit (tl r1) else []);
          r2 = (if has_dot then dropWhile is_digit (tl r1) else r1)
      in if ip = [] \<and> fp = [] then None
         else (case parse_exp r2 of None \<Rightarrow> None
           | Some (e, rest) \<Rightarrow>
               Some (of_nat (dec_val (ip @ fp)) * rat_pow 10 (e - int (length fp)), rest)))"

definition hex_val :: "char \<Rightarrow> nat option" where
  "hex_val c =
     (if is_digit c then Some (code c - 48)
      else if 97 \<le> code c \<and> code c \<le> 102 then Some (code c - 87)
      else if 65 \<le> code c \<and> code c \<le> 70 then Some (code c - 55)
      else None)"

definition radix_val :: "nat \<Rightarrow> string \<Rightarrow> nat option" where
  "radix_val b s =
     (if s = [] then None
      else foldl (\<lambda>acc c. case (acc, hex_val c) of
                   (Some n, Some d) \<Rightarrow> if d < b then Some (b * n + d) else None
                 | _ \<Rightarrow> None) (Some 0) s)"

text \<open>\<open>Number(s)\<close> on strings and on any value the sources pass.\<close>

definition str_to_num :: "string \<Rightarrow> jsnum" where
  "str_to_num s0 =
     (let s = trim s0;
          radix = (\<lambda>b. case radix_val b (drop 2 s) of None \<Rightarrow> NaN
                       | Some n \<Rightarrow> round_double (of_nat n));
          neg = (s \<noteq> [] \<and> hd s = CHR ''-'');
          body = (if s \<noteq> [] \<and> (hd s = CHR ''-'' \<or> hd s = CHR ''+'') then tl s else s)
      in if s = [] then Fin 0
         else if starts_with ''0x'' s \<or> starts_with ''0X'' s then radix 16
         else if starts_with ''0o'' s \<or> starts_with ''0O'' s then radix 8
         else if starts_with ''0b'' s \<or> starts_with ''0B'' s then radix 2
         else if body = ''Infinity'' then (if neg then NegInfty else Infty)
         else (case parse_decimal body of
                Some (r, []) \<Rightarrow> signed_double neg r
              | _ \<Rightarrow> NaN))"

fun to_num :: "jsval \<Rightarrow> jsnum" where
  "to_num JUndef = NaN"
| "to_num JNull = Fin 0"
| "to_num (JBool b) = (if b then Fin 1 else Fin 0)"
| "to_num (JNum n) = n"
| "to_num (JStr s) = str_to_num s"
| "to_num (JArr xs) = str_to_num (to_str (JArr xs))"
| "to_num (JObj _) = NaN"
| "to_num (JFun _) = NaN"

section \<open>UTF-8, URI components, forms and Base64\<close>

fun utf8_char :: "char \<Rightarrow> nat list" where
  "utf8_char c = (if code c < 128 then [code c] else [192 + code c div 64, 128 + code c mod 64])"

definition utf8 :: "string \<Rightarrow> nat list" where
  "utf8 s = concat (map utf8_char s)"

definition byte_length :: "string \<Rightarrow> nat" where
  "byte_length s = length (utf8 s)"

definition hex_digit :: "nat \<Rightarrow> char" where
  "hex_digit n = (if n < 10 then char_of (48 + n) else char_of (55 + n))"

definition pct :: "nat \<Rightarrow> string" where
  "pct b = [CHR ''%'', hex_digit (b div 16), hex_digit (b mod 16)]"

definition is_uri_unreserved :: "char \<Rightarrow> bool" where
  "is_uri_unreserved c = (is_alnum c \<or> c \<in> set ''-_.!~*'' \<or> code c \<in> set [39, 40, 41])"

definition enc_char :: "char \<Rightarrow> string" where
  "enc_char c = (if is_uri_unreserved c then [c] else concat (map pct (utf8_char c)))"

definition encode_uri :: "string \<Rightarrow> string" where
  "encode_uri s = concat (map enc_char s)"

text \<open>
  \<open>decodeURIComponent\<close>: \<open>None\<close> where it throws, and where the decoded text leaves the alphabet.
\<close>

definition pct_byte :: "string \<Rightarrow> (nat \<times> string) option" where
  "pct_byte s =
     (case s of
        c # h # l # rest \<Rightarrow>
          (case (hex_val h, hex_val l) of
             (Some a, Some b) \<Rightarrow> if c = CHR ''%'' then Some (16 * a + b, rest) else None
           | _ \<Rightarrow> None)
      | _ \<Rightarrow> None)"

function decode_uri :: "string \<Rightarrow> string option" where
  "decode_uri s =
     (case s of [] \<Rightarrow> Some []
      | c # cs \<Rightarrow>
          if c \<noteq> CHR ''%'' then map_option ((#) c) (decode_uri cs)
          else (case pct_byte s of None \<Rightarrow> None
            | Some (x, r1) \<Rightarrow>
                if x < 128 then map_option ((#) (char_of x)) (decode_uri r1)
                else if x \<noteq> 194 \<and> x \<noteq> 195 then None
                else (case pct_byte r1 of None \<Rightarrow> None
                  | Some (y, r2) \<Rightarrow>
                      if 128 \<le> y \<and> y < 192
                      then map_option ((#) (char_of ((x - 192) * 64 + (y - 128)))) (decode_uri r2)
                      else None)))"
  by pat_completeness auto
termination
  by (relation "measure length") (auto simp: pct_byte_def split: list.splits option.splits if_splits)

declare decode_uri.simps [simp del]

text \<open>The serializer of \<open>URLSearchParams\<close> and one key-value pair of it.\<close>

definition form_char :: "char \<Rightarrow> string" where
  "form_char c =
     (if is_alnum c \<or> c \<in> set ''*-._'' then [c]
      else if c = CHR '' '' then ''+''
      else concat (map pct (utf8_char c)))"

definition form_encode :: "string \<Rightarrow> string" where
  "form_encode s = concat (map form_char s)"

definition form_serialize :: "(string \<times> string) list \<Rightarrow> string" where
  "form_serialize kvs = join ''&'' (map (\<lambda>(k, v). form_encode k @ ''='' @ form_encode v) kvs)"

definition b64_char :: "nat \<Rightarrow> char" where
  "b64_char n =
     ''ABCDEFGHIJKLMNOPQRSTUVWXYZabcdefghijklmnopqrstuvwxyz0123456789+/'' ! (n mod 64)"

fun base64_bytes :: "nat list \<Rightarrow> string" where
  "base64_bytes [] = []"
| "base64_bytes [a] = [b64_char (a div 4), b64_char ((a mod 4) * 16), CHR ''='', CHR ''='']"
| "base64_bytes [a, b] =
     [b64_char (a div 4), b64_char ((a mod 4) * 16 + b div 16), b64_char ((b mod 16) * 4), CHR ''='']"
| "base64_bytes (a # b # c # rest) =
     b64_char (a div 4) # b64_char ((a mod 4) * 16 + b div 16)
     # b64_char ((b mod 16) * 4 + c div 64) # b64_char (c mod 64) # base64_bytes rest"

definition base64 :: "string \<Rightarrow> string" where
  "base64 s = base64_bytes (utf8 s)"

section \<open>JSON\<close>

definition quote_char :: "char \<Rightarrow> string" where
  "quote_char c =
     (let q = code c in
      if q = 34 then [CHR 0x5C, c] else if q = 92 then [c, c]
      else if q = 8 then [CHR 0x5C, CHR ''b''] else if q = 9 then [CHR 0x5C, CHR ''t'']
      else if q = 10 then [CHR 0x5C, CHR ''n''] else if q = 12 then [CHR 0x5C, CHR ''f'']
      else if q = 13 then [CHR 0x5C, CHR ''r'']
      else if q < 32 then CHR 0x5C # ''u00'' @ [dig (q div 16), lower_char (hex_digit (q mod 16))]
      else [c])"

definition quote_json :: "string \<Rightarrow> string" where
  "quote_json s = CHR 0x22 # concat (map quote_char s) @ [CHR 0x22]"

fun json_text :: "jsval \<Rightarrow> string option" where
  "json_text JUndef = None"
| "json_text JNull = Some ''null''"
| "json_text (JBool b) = Some (if b then ''true'' else ''false'')"
| "json_text (JNum n) = Some (if is_finite n then num_to_string n else ''null'')"
| "json_text (JStr s) = Some (quote_json s)"
| "json_text (JArr xs) =
     Some (''['' @ join '','' (map (\<lambda>x. case json_text x of None \<Rightarrow> ''null'' | Some t \<Rightarrow> t) xs) @ '']'')"
| "json_text (JObj ps) =
     Some (''{'' @ join '','' (concat (map (\<lambda>p. case json_text (snd p) of None \<Rightarrow> []
                                   | Some t \<Rightarrow> [quote_json (fst p) @ '':'' @ t]) ps)) @ ''}'')"
| "json_text (JFun f) = None"

text \<open>
  \<open>JSON.parse\<close>; \<open>None\<close> where it throws, and where an escape leaves the alphabet. The fuel bounds
  the nesting; \<open>json_parse\<close> gives one unit per character, which no text can exceed.
\<close>

definition json_ws :: "string \<Rightarrow> string" where
  "json_ws s = dropWhile (\<lambda>c. code c \<in> set [9, 10, 13, 32]) s"

fun json_str_body :: "string \<Rightarrow> (string \<times> string) option" where
  "json_str_body [] = None"
| "json_str_body (c # cs) =
     (if code c = 34 then Some ([], cs)
      else if code c < 32 then None
      else if code c \<noteq> 92 then map_option (\<lambda>(t, r). (c # t, r)) (json_str_body cs)
      else (case cs of [] \<Rightarrow> None
        | e # es \<Rightarrow>
            (let add = (\<lambda>ch. map_option (\<lambda>(t, r). (ch # t, r)) (json_str_body es)) in
             if code e = 34 \<or> code e = 92 \<or> code e = 47 then add e
             else if e = CHR ''b'' then add (char_of (8 :: nat))
             else if e = CHR ''t'' then add (char_of (9 :: nat))
             else if e = CHR ''n'' then add (char_of (10 :: nat))
             else if e = CHR ''f'' then add (char_of (12 :: nat))
             else if e = CHR ''r'' then add (char_of (13 :: nat))
             else if e = CHR ''u'' then
               (case es of h1 # h2 # h3 # h4 # r0 \<Rightarrow>
                  (case radix_val 16 [h1, h2, h3, h4] of
                     Some n \<Rightarrow> if n < 256 then map_option (\<lambda>(t, r). (char_of n # t, r)) (json_str_body r0)
                               else None
                   | None \<Rightarrow> None)
                | _ \<Rightarrow> None)
             else None)))"

definition json_number :: "string \<Rightarrow> (jsnum \<times> string) option" where
  "json_number s =
     (let neg = (s \<noteq> [] \<and> hd s = CHR ''-''); t = (if neg then tl s else s);
          ip = takeWhile is_digit t; r1 = dropWhile is_digit t;
          dot = (r1 \<noteq> [] \<and> hd r1 = CHR ''.'')
      in if ip = [] \<or> (hd ip = CHR ''0'' \<and> tl ip \<noteq> [])
            \<or> (dot \<and> takeWhile is_digit (tl r1) = []) then None
         else map_option (\<lambda>(r, rest). (signed_double neg r, rest)) (parse_decimal t))"

fun json_value :: "nat \<Rightarrow> string \<Rightarrow> (jsval \<times> string) option"
  and json_items :: "nat \<Rightarrow> string \<Rightarrow> (jsval list \<times> string) option"
  and json_members :: "nat \<Rightarrow> props \<Rightarrow> string \<Rightarrow> (props \<times> string) option" where
  "json_value 0 s = None"
| "json_value (Suc f) s0 =
     (let s = json_ws s0 in
      if starts_with ''null'' s then Some (JNull, drop 4 s)
      else if starts_with ''true'' s then Some (JBool True, drop 4 s)
      else if starts_with ''false'' s then Some (JBool False, drop 5 s)
      else (case s of [] \<Rightarrow> None
        | c # cs \<Rightarrow>
            if code c = 34 then map_option (\<lambda>(t, r). (JStr t, r)) (json_str_body cs)
            else if c = CHR ''['' then
              (if starts_with '']'' (json_ws cs) then Some (JArr [], drop 1 (json_ws cs))
               else map_option (\<lambda>(xs, r). (JArr xs, r)) (json_items f cs))
            else if c = CHR ''{'' then
              (if starts_with ''}'' (json_ws cs) then Some (JObj [], drop 1 (json_ws cs))
               else map_option (\<lambda>(ps, r). (JObj ps, r)) (json_members f [] cs))
            else map_option (\<lambda>(n, r). (JNum n, r)) (json_number s)))"
| "json_items 0 s = None"
| "json_items (Suc f) s =
     (case json_value f s of None \<Rightarrow> None
      | Some (v, r) \<Rightarrow>
          (case json_ws r of [] \<Rightarrow> None
           | c # cs \<Rightarrow>
               if c = CHR '']'' then Some ([v], cs)
               else if c = CHR '','' then map_option (\<lambda>(xs, r'). (v # xs, r')) (json_items f cs)
               else None))"
| "json_members 0 ps s = None"
| "json_members (Suc f) ps s =
     (case json_ws s of [] \<Rightarrow> None
      | q # qs \<Rightarrow>
          if code q \<noteq> 34 then None
          else (case json_str_body qs of None \<Rightarrow> None
            | Some (k, r1) \<Rightarrow>
                (case json_ws r1 of [] \<Rightarrow> None
                 | c # cs \<Rightarrow>
                     if c \<noteq> CHR '':'' then None
                     else (case json_value f cs of None \<Rightarrow> None
                       | Some (v, r2) \<Rightarrow>
                           (case json_ws r2 of [] \<Rightarrow> None
                            | d # ds \<Rightarrow>
                                if d = CHR ''}'' then Some (obj_def ps k v, ds)
                                else if d = CHR '','' then json_members f (obj_def ps k v) ds
                                else None)))))"

definition json_parse :: "string \<Rightarrow> jsval option" where
  "json_parse s =
     (case json_value (2 * length s + 2) s of
        Some (v, r) \<Rightarrow> if json_ws r = [] then Some v else None
      | None \<Rightarrow> None)"

text \<open>\<open>Buffer.byteLength(JSON.stringify(v) ?? "null")\<close> of \<open>budget.ts\<close>.\<close>

definition jsonByteLength :: "jsval \<Rightarrow> nat" where
  "jsonByteLength v = byte_length (case json_text v of None \<Rightarrow> ''null'' | Some t \<Rightarrow> t)"

section \<open>Facts about strings\<close>

lemma starts_with_prefix: "starts_with p s \<longleftrightarrow> prefix p s"
  by (metis append_eq_conv_conj append_take_drop_id prefix_def starts_with_def)

lemma contains_sublist: "contains p s \<longleftrightarrow> sublist p s"
  by (induction s) (auto simp: starts_with_prefix sublist_Cons_right)

lemma split_on_not_Nil [simp]: "split_on c s \<noteq> []"
  by (induction s) (auto split: list.splits)

lemma split_on_length: "length (split_on c s) = Suc (count_list s c)"
  by (induction s) (auto split: list.splits)

lemma join_split_on: "join [c] (split_on c s) = s"
proof (induction s)
  case Nil
  then show ?case by simp
next
  case (Cons x xs)
  obtain w ws where ws: "split_on c xs = w # ws"
    by (cases "split_on c xs") auto
  with Cons show ?case by (cases ws) auto
qed

lemma split_on_no_sep: "w \<in> set (split_on c s) \<Longrightarrow> c \<notin> set w"
  by (induction s arbitrary: w) (auto split: list.splits if_splits)

lemma split_on_append:
  "c \<notin> set a \<Longrightarrow> split_on c (a @ b) = (a @ hd (split_on c b)) # tl (split_on c b)"
  by (induction a) (auto split: list.splits)

lemma set_concat_map_subset: "(\<And>c. c \<in> set s \<Longrightarrow> set (f c) \<subseteq> A) \<Longrightarrow> set (concat (map f s)) \<subseteq> A"
  by auto

text \<open>An occurrence that avoids a character lies on one side of it.\<close>

lemma sublist_avoid_char:
  assumes "sublist v (x @ a # y)" and "a \<notin> set v"
  shows "sublist v x \<or> sublist v y"
proof -
  from assms(1) obtain p q where pq: "x @ a # y = p @ v @ q"
    by (auto simp: sublist_def)
  from this consider
      us where "x = p @ us" "us @ a # y = v @ q"
    | us where "x @ us = p" "a # y = us @ v @ q"
    by (auto simp: append_eq_append_conv2)
  then show ?thesis
  proof cases
    case 1
    from 1(2) consider ws where "us = v @ ws" | ws where "v = us @ ws" "ws @ q = a # y"
      by (auto simp: append_eq_append_conv2)
    then show ?thesis
    proof cases
      case 1
      with \<open>x = p @ us\<close> show ?thesis by (auto simp: sublist_def)
    next
      case 2
      with assms(2) have "ws = []" by (cases ws) auto
      with 2 \<open>x = p @ us\<close> have "x = p @ v @ []" by simp
      then show ?thesis unfolding sublist_def by blast
    qed
  next
    case 2
    then show ?thesis
      by (cases us; cases v) (use assms(2) in \<open>auto simp: sublist_def\<close>)
  qed
qed

text \<open>
  A mask \<open>[...]\<close> hides a text that contains neither bracket and does not occur between them: such
  a text occurs in the masked string only where it occurred before.
\<close>

definition hidden_by :: "string \<Rightarrow> string \<Rightarrow> bool" where
  "hidden_by v mk \<longleftrightarrow>
     v \<noteq> [] \<and> mk \<noteq> [] \<and> tl mk \<noteq> [] \<and> hd mk \<notin> set v \<and> last mk \<notin> set v
     \<and> \<not> contains v (butlast (tl mk))"

lemma hidden_by_mask_shape:
  assumes "hidden_by v mk"
  obtains a m b where "mk = a # m @ [b]" "a \<notin> set v" "b \<notin> set v" "\<not> sublist v m" "v \<noteq> []"
proof -
  from assms have "mk = hd mk # butlast (tl mk) @ [last mk]"
    by (auto simp: hidden_by_def) (metis append_butlast_last_id last_tl list.exhaust_sel)
  with assms that show thesis by (auto simp: hidden_by_def contains_sublist)
qed

lemma sublist_mask:
  assumes "hidden_by v mk" and "sublist v (x @ mk @ y)"
  shows "sublist v x \<or> sublist v y"
proof -
  from assms(1) obtain a m b where m: "mk = a # m @ [b]" "a \<notin> set v" "b \<notin> set v"
      "\<not> sublist v m" "v \<noteq> []"
    by (rule hidden_by_mask_shape)
  from assms(2) m have "sublist v x \<or> sublist v (m @ b # y)"
    using sublist_avoid_char [of v x a "m @ b # y"] by simp
  then show ?thesis
    using m sublist_avoid_char [of v m b y] by blast
qed

lemma sublist_mask_left: "hidden_by v mk \<Longrightarrow> sublist v (mk @ y) \<Longrightarrow> sublist v y"
  using sublist_mask [of v mk "[]" y] by (auto simp: hidden_by_def)

lemma replace_by_Nil [simp]: "replace_by m mk prev [] = []"
  by (simp add: replace_by.simps)

lemma replace_by_match:
  "0 < m prev s \<Longrightarrow> m prev s \<le> length s \<Longrightarrow>
   replace_by m mk prev s = mk @ replace_by m mk (Some (s ! (m prev s - 1))) (drop (m prev s) s)"
  by (cases s) (simp_all add: replace_by.simps [of m mk prev] Let_def)

lemma replace_by_skip:
  "\<not> (0 < m prev (c # cs) \<and> m prev (c # cs) \<le> length (c # cs)) \<Longrightarrow>
   replace_by m mk prev (c # cs) = c # replace_by m mk (Some c) cs"
  by (simp only: replace_by.simps [of m mk prev] Let_def list.case if_False)

text \<open>Induction over the positions at which a replacement looks for a match.\<close>

lemma replace_by_cases_induct [case_names Nil match skip]:
  assumes "\<And>prev. P prev []"
    and "\<And>prev s. \<lbrakk>s \<noteq> []; 0 < m prev s; m prev s \<le> length s;
           P (Some (s ! (m prev s - 1))) (drop (m prev s) s)\<rbrakk> \<Longrightarrow> P prev s"
    and "\<And>prev c cs. \<lbrakk>\<not> (0 < m prev (c # cs) \<and> m prev (c # cs) \<le> length (c # cs)); P (Some c) cs\<rbrakk>
           \<Longrightarrow> P prev (c # cs)"
  shows "P prev s"
proof (induction "length s" arbitrary: prev s rule: less_induct)
  case less
  show ?case
  proof (cases s)
    case Nil
    then show ?thesis by (simp add: assms(1))
  next
    case (Cons c cs)
    show ?thesis
    proof (cases "0 < m prev s \<and> m prev s \<le> length s")
      case True
      then have "length (drop (m prev s) s) < length s" unfolding length_drop by arith
      then have "P (Some (s ! (m prev s - 1))) (drop (m prev s) s)" by (rule less.hyps)
      moreover have "s \<noteq> []" using Cons by simp
      ultimately show ?thesis using True assms(2) by blast
    next
      case False
      have "length cs < length s" using Cons by simp
      then have "P (Some c) cs" by (rule less.hyps)
      with False show ?thesis unfolding Cons by (rule assms(3))
    qed
  qed
qed

lemma prefix_replace_by:
  assumes h: "hidden_by v mk"
  shows "prefix w (replace_by m mk prev s) \<Longrightarrow> set w \<subseteq> set v \<Longrightarrow> prefix w s"
proof (induction prev s arbitrary: w rule: replace_by_cases_induct [where m = m])
  case (Nil prev)
  then show ?case by simp
next
  case (match prev s)
  then have "prefix w (mk @ replace_by m mk (Some (s ! (m prev s - 1))) (drop (m prev s) s))"
    by (simp add: replace_by_match)
  with match.prems(2) h have "w = []"
    by (cases w; cases mk) (auto simp: hidden_by_def)
  then show ?case by simp
next
  case (skip prev c cs)
  from skip.prems(1) have "prefix w (c # replace_by m mk (Some c) cs)"
    unfolding replace_by_skip [of m prev c cs mk, OF skip.hyps] .
  with skip.IH skip.prems(2) show ?case by (cases w) auto
qed

lemma sublist_replace_by:
  assumes h: "hidden_by v mk"
  shows "sublist v (replace_by m mk prev s) \<Longrightarrow> sublist v s"
proof (induction prev s rule: replace_by_cases_induct [where m = m])
  case (Nil prev)
  then show ?case by simp
next
  case (match prev s)
  then have "sublist v (replace_by m mk (Some (s ! (m prev s - 1))) (drop (m prev s) s))"
    using sublist_mask_left [OF h] by (simp add: replace_by_match)
  with match.IH have "sublist v (drop (m prev s) s)" by blast
  then show ?case by (rule sublist_order.order_trans) (rule sublist_drop)
next
  case (skip prev c cs)
  from skip.prems have "prefix v (replace_by m mk prev (c # cs)) \<or> sublist v (replace_by m mk (Some c) cs)"
    unfolding replace_by_skip [of m prev c cs mk, OF skip.hyps] by (simp add: sublist_Cons_right)
  with skip.IH prefix_replace_by [OF h, of v m prev "c # cs"] show ?case
    by (auto simp: sublist_Cons_right)
qed

lemma not_sublist_replace_text:
  assumes h: "hidden_by v mk"
  shows "\<not> sublist v (replace_by (text_match v) mk prev s)"
proof (induction prev s rule: replace_by_cases_induct [where m = "text_match v"])
  case (Nil prev)
  from h show ?case by (simp add: hidden_by_def)
next
  case (match prev s)
  then show ?case using sublist_mask_left [OF h] by (simp add: replace_by_match) blast
next
  case (skip prev c cs)
  have "\<not> prefix v (c # cs)"
  proof
    assume "prefix v (c # cs)"
    then have "text_match v prev (c # cs) = length v" "length v \<le> length (c # cs)"
      using prefix_length_le [of v "c # cs"] by (auto simp: text_match_def starts_with_prefix)
    with skip.hyps h show False by (simp add: hidden_by_def)
  qed
  then have "\<not> prefix v (replace_by (text_match v) mk prev (c # cs))"
    using prefix_replace_by [OF h, of v "text_match v" prev "c # cs"] by blast
  with skip.IH show ?case
    unfolding replace_by_skip [of "text_match v" prev c cs mk, OF skip.hyps] by (simp add: sublist_Cons_right)
qed

lemma replace_all_hides: "hidden_by v mk \<Longrightarrow> \<not> sublist v (replace_all v mk s)"
  by (simp add: replace_all_def not_sublist_replace_text)

lemma replace_all_keeps_hidden:
  "hidden_by v mk \<Longrightarrow> sublist v (replace_all w mk s) \<Longrightarrow> sublist v s"
  unfolding replace_all_def by (rule sublist_replace_by)

lemma fold_replace_all_keeps_hidden:
  "hidden_by v mk \<Longrightarrow> sublist v (foldl (\<lambda>t w. replace_all w mk t) s ws) \<Longrightarrow> sublist v s"
  by (induction ws arbitrary: s) (auto dest: replace_all_keeps_hidden)

lemma fold_replace_all_hides:
  "hidden_by v mk \<Longrightarrow> v \<in> set ws \<Longrightarrow> \<not> sublist v (foldl (\<lambda>t w. replace_all w mk t) s ws)"
proof (induction ws arbitrary: s)
  case Nil
  then show ?case by simp
next
  case (Cons w ws)
  show ?case
  proof (cases "v = w")
    case True
    then show ?thesis
      using fold_replace_all_keeps_hidden [OF Cons.prems(1)] replace_all_hides [OF Cons.prems(1)]
      by auto
  next
    case False
    with Cons show ?thesis by simp
  qed
qed

section \<open>Facts about the encoders\<close>

lemma code_char_of [simp]: "n < 256 \<Longrightarrow> code (char_of n) = n"
  by (simp add: code_def of_char_mod_256)

lemma char_of_code [simp]: "char_of (code c) = c"
  by (simp add: code_def)

lemma code_less [simp]: "code c < 256"
  by (simp add: code_def)

lemma code_eq_iff: "code a = code b \<longleftrightarrow> a = b"
  by (metis char_of_code)

definition is_hex_upper :: "char \<Rightarrow> bool" where
  "is_hex_upper c = (is_digit c \<or> (65 \<le> code c \<and> code c \<le> 70))"

lemma hex_digit_upper: "n < 16 \<Longrightarrow> is_hex_upper (hex_digit n)"
  by (auto simp: hex_digit_def is_hex_upper_def is_digit_def code_def of_char_mod_256)

lemma hex_val_hex_digit [simp]: "n < 16 \<Longrightarrow> hex_val (hex_digit n) = Some n"
  by (auto simp: hex_digit_def hex_val_def is_digit_def code_def of_char_mod_256)

lemma pct_byte_pct [simp]: "b < 256 \<Longrightarrow> pct_byte (pct b @ rest) = Some (b, rest)"
  by (simp add: pct_byte_def pct_def)

lemma code_div_64: "code c div 64 < 4"
  using less_mult_imp_div_less [of "code c" 4 64] by simp

lemma utf8_char_less: "b \<in> set (utf8_char c) \<Longrightarrow> b < 256"
proof -
  have "192 + code c div 64 < 256" "128 + code c mod 64 < 256"
    using code_div_64 [of c] by auto
  then show "b \<in> set (utf8_char c) \<Longrightarrow> b < 256"
    by (auto split: if_splits)
qed

lemma set_pct: "b < 256 \<Longrightarrow> set (pct b) \<subseteq> {CHR ''%''} \<union> Collect is_hex_upper"
  by (auto simp: pct_def intro: hex_digit_upper)

lemma set_pct_utf8: "set (concat (map pct (utf8_char c))) \<subseteq> {CHR ''%''} \<union> Collect is_hex_upper"
  by (rule set_concat_map_subset) (rule set_pct, rule utf8_char_less)

lemma set_encode_uri:
  "set (encode_uri s) \<subseteq> {CHR ''%''} \<union> Collect is_hex_upper \<union> Collect is_uri_unreserved"
  unfolding encode_uri_def
proof (rule set_concat_map_subset)
  fix c
  show "set (enc_char c) \<subseteq> {CHR ''%''} \<union> Collect is_hex_upper \<union> Collect is_uri_unreserved"
    using set_pct_utf8 [of c] by (auto simp: enc_char_def simp del: utf8_char.simps)
qed

text \<open>No character with a meaning in a URL survives \<open>encodeURIComponent\<close>.\<close>

lemma encode_uri_no_delims:
  "c \<in> set ''/?#&=:@;,+$[]'' \<Longrightarrow> c \<notin> set (encode_uri s)"
proof
  assume c: "c \<in> set ''/?#&=:@;,+$[]''" and "c \<in> set (encode_uri s)"
  then have "c = CHR ''%'' \<or> is_hex_upper c \<or> is_uri_unreserved c"
    using set_encode_uri by blast
  with c show False
    by (auto simp: is_hex_upper_def is_uri_unreserved_def is_digit_def is_alnum_def is_alpha_def
        is_upper_def is_lower_def code_def)
qed

lemma decode_uri_Nil [simp]: "decode_uri [] = Some []"
  by (simp add: decode_uri.simps)

lemma decode_uri_plain: "c \<noteq> CHR ''%'' \<Longrightarrow> decode_uri (c # cs) = map_option ((#) c) (decode_uri cs)"
  by (simp add: decode_uri.simps [of "c # cs"])

lemma decode_uri_byte:
  assumes "pct_byte s = Some (x, r)"
  shows "decode_uri s =
     (if x < 128 then map_option ((#) (char_of x)) (decode_uri r)
      else if x \<noteq> 194 \<and> x \<noteq> 195 then None
      else (case pct_byte r of None \<Rightarrow> None
        | Some (y, r2) \<Rightarrow>
            if 128 \<le> y \<and> y < 192
            then map_option ((#) (char_of ((x - 192) * 64 + (y - 128)))) (decode_uri r2)
            else None))"
proof -
  from assms obtain cs where "s = CHR ''%'' # cs"
    by (auto simp: pct_byte_def split: list.splits option.splits if_splits)
  with assms show ?thesis by (subst decode_uri.simps) simp
qed

lemma decode_uri_pct1:
  "b < 128 \<Longrightarrow> decode_uri (pct b @ rest) = map_option ((#) (char_of b)) (decode_uri rest)"
  by (simp add: decode_uri_byte [OF pct_byte_pct])

lemma decode_uri_pct2:
  "x = 194 \<or> x = 195 \<Longrightarrow> 128 \<le> y \<Longrightarrow> y < 192 \<Longrightarrow> decode_uri (pct x @ pct y @ rest) =
     map_option ((#) (char_of ((x - 192) * 64 + (y - 128)))) (decode_uri rest)"
  by (auto simp: decode_uri_byte [OF pct_byte_pct])

lemma decode_enc_char: "decode_uri (enc_char c @ rest) = map_option ((#) c) (decode_uri rest)"
proof (cases "is_uri_unreserved c")
  case True
  then have "c \<noteq> CHR ''%''"
    by (auto simp: is_uri_unreserved_def is_alnum_def is_alpha_def is_upper_def is_lower_def
        is_digit_def code_def)
  with True show ?thesis by (simp add: enc_char_def decode_uri_plain)
next
  case False
  show ?thesis
  proof (cases "code c < 128")
    case True
    with False show ?thesis by (simp add: enc_char_def decode_uri_pct1)
  next
    case hi: False
    have "2 \<le> code c div 64" "code c div 64 < 4"
      using hi code_div_64 [of c] by auto
    then have x: "192 + code c div 64 = 194 \<or> 192 + code c div 64 = 195" by arith
    have y: "128 \<le> 128 + code c mod 64" "128 + code c mod 64 < 192" by auto
    have "(192 + code c div 64 - 192) * 64 + (128 + code c mod 64 - 128) = code c" by simp
    then have "decode_uri (pct (192 + code c div 64) @ pct (128 + code c mod 64) @ rest)
        = map_option ((#) c) (decode_uri rest)"
      unfolding decode_uri_pct2 [OF x y, of rest] by (simp only: char_of_code)
    with False hi show ?thesis by (simp add: enc_char_def)
  qed
qed

text \<open>The interface of a text codec, and its instance for URI components.\<close>

locale text_codec =
  fixes enc :: "string \<Rightarrow> string" and dec :: "string \<Rightarrow> string option"
  assumes dec_enc: "dec (enc s) = Some s"
begin

lemma enc_inj: "enc s = enc t \<Longrightarrow> s = t"
  by (metis dec_enc option.inject)

lemma enc_eq_fixpoint: "dec t = Some t \<Longrightarrow> enc s = t \<Longrightarrow> s = t"
  using dec_enc [of s] by auto

end

interpretation uri: text_codec encode_uri decode_uri
proof unfold_locales
  fix s
  show "decode_uri (encode_uri s) = Some s"
    by (induction s) (simp_all add: encode_uri_def decode_enc_char)
qed

lemma encode_uri_Nil_iff [simp]: "encode_uri s = [] \<longleftrightarrow> s = []"
  using uri.enc_inj [of s "[]"] by (auto simp: encode_uri_def)

lemma byte_length_ge: "length s \<le> byte_length s"
  by (induction s) (simp_all add: byte_length_def utf8_def)

lemma byte_length_append [simp]: "byte_length (s @ t) = byte_length s + byte_length t"
  by (simp add: byte_length_def utf8_def)

end
