(* ===== verification/Template.thy ===== *)
theory Template
  imports JsText
begin

text \<open>
  \<open>runner/bun/src/declarative/template.ts\<close>: placeholders \<open>{{path}}\<close> in manifest data and their
  rendering against a context. The two regular expressions of the source are the scanner \<open>scan\<close>,
  whose tokens are the characters between placeholders and the placeholders.

  The lemmas show how a rendered template depends on its context (only through the paths it names),
  that an unresolved key is dropped, and that substituting into a URL path neither adds a path
  separator nor leaves a dot segment.
\<close>

section \<open>Placeholders\<close>

definition is_name_char :: "char \<Rightarrow> bool" where
  "is_name_char c = (is_alnum c \<or> c \<in> set ''_.$-'')"

text \<open>A placeholder at the start of a text: its expression and the text after it.\<close>

definition match_placeholder :: "string \<Rightarrow> (string \<times> string) option" where
  "match_placeholder s =
     (if starts_with ''{{'' s then
        (let r1 = dropWhile is_ws (drop 2 s);
             e = takeWhile is_name_char r1;
             r3 = dropWhile is_ws (dropWhile is_name_char r1)
         in if e \<noteq> [] \<and> starts_with ''}}'' r3 then Some (e, drop 2 r3) else None)
      else None)"

lemma match_placeholder_shorter:
  assumes "match_placeholder s = Some (e, r)"
  shows "length r < length s"
proof -
  let ?r1 = "dropWhile is_ws (drop 2 s)"
  let ?r3 = "dropWhile is_ws (dropWhile is_name_char ?r1)"
  from assms have "2 \<le> length s" "r = drop 2 ?r3"
    using prefix_length_le [of "''{{''" s]
    by (auto simp: match_placeholder_def starts_with_prefix Let_def split: if_splits)
  moreover have "length ?r3 \<le> length s - 2"
    by (metis length_drop length_dropWhile_le order_trans)
  ultimately show ?thesis by auto
qed

datatype tok = Lit char | Hole string string

text \<open>The tokens of a text; a \<open>Hole\<close> keeps the matched text and its expression.\<close>

function scan :: "string \<Rightarrow> tok list" where
  "scan s =
     (case s of [] \<Rightarrow> []
      | c # cs \<Rightarrow>
          (case match_placeholder s of
             Some (e, r) \<Rightarrow> Hole (take (length s - length r) s) e # scan r
           | None \<Rightarrow> Lit c # scan cs))"
  by pat_completeness auto
termination
  by (relation "measure length") (auto dest: match_placeholder_shorter)

declare scan.simps [simp del]

fun hole_exprs :: "tok list \<Rightarrow> string list" where
  "hole_exprs [] = []"
| "hole_exprs (Lit c # ts) = hole_exprs ts"
| "hole_exprs (Hole m e # ts) = e # hole_exprs ts"

text \<open>\<open>wholeValuePattern\<close>: the text is exactly one placeholder.\<close>

definition whole_value :: "string \<Rightarrow> string option" where
  "whole_value s = (case match_placeholder s of Some (e, []) \<Rightarrow> Some e | _ \<Rightarrow> None)"

section \<open>Resolving paths\<close>

definition array_at :: "jsval list \<Rightarrow> string \<Rightarrow> jsval option" where
  "array_at xs seg =
     (case num_val (str_to_num seg) of None \<Rightarrow> None
      | Some r \<Rightarrow>
          if of_int \<lfloor>r\<rfloor> = r \<and> 0 \<le> r \<and> r < of_nat (length xs) then Some (xs ! nat \<lfloor>r\<rfloor>) else None)"

fun resolve_segs :: "jsval \<Rightarrow> string list \<Rightarrow> jsval" where
  "resolve_segs cur [] = cur"
| "resolve_segs cur (seg # segs) =
     (case cur of
        JArr xs \<Rightarrow> (case array_at xs seg of None \<Rightarrow> JUndef | Some v \<Rightarrow> resolve_segs v segs)
      | JObj ps \<Rightarrow> resolve_segs (prop_get ps seg) segs
      | _ \<Rightarrow> JUndef)"

definition resolvePath :: "string \<Rightarrow> jsval \<Rightarrow> jsval" where
  "resolvePath expression context = resolve_segs context (split_on (CHR ''.'') expression)"

definition lastSegment :: "string \<Rightarrow> string" where
  "lastSegment expression = last (split_on (CHR ''.'') expression)"

section \<open>Rendering values\<close>

text \<open>
  The interpolation of \<open>renderString\<close>: \<open>None\<close> once a placeholder is unresolved.
\<close>

fun interpolate :: "jsval \<Rightarrow> tok list \<Rightarrow> string option" where
  "interpolate context [] = Some []"
| "interpolate context (Lit c # ts) = map_option ((#) c) (interpolate context ts)"
| "interpolate context (Hole m e # ts) =
     (let v = resolvePath e context in
      if v = JUndef \<or> v = JNull then None
      else map_option ((@) (to_str v)) (interpolate context ts))"

definition renderString :: "string \<Rightarrow> jsval \<Rightarrow> jsval" where
  "renderString template context =
     (case whole_value template of
        Some e \<Rightarrow> (let v = resolvePath e context in if v = JNull then JUndef else v)
      | None \<Rightarrow>
          if hole_exprs (scan template) = [] then JStr template
          else (case interpolate context (scan template) of None \<Rightarrow> JUndef | Some t \<Rightarrow> JStr t))"

definition put_all :: "props \<Rightarrow> props \<Rightarrow> props" where
  "put_all ps es = foldl (\<lambda>acc (k, v). obj_put acc k v) ps es"

fun renderTemplate :: "jsval \<Rightarrow> jsval \<Rightarrow> jsval" where
  "renderTemplate (JStr s) context = renderString s context"
| "renderTemplate (JArr xs) context =
     JArr (filter (\<lambda>v. v \<noteq> JUndef) (map (\<lambda>x. renderTemplate x context) xs))"
| "renderTemplate (JObj ps) context =
     JObj (put_all [] (filter (\<lambda>p. snd p \<noteq> JUndef)
            (map (\<lambda>p. (fst p, renderTemplate (snd p) context)) ps)))"
| "renderTemplate v context = v"

fun hasPlaceholder :: "jsval \<Rightarrow> bool" where
  "hasPlaceholder (JStr s) = (whole_value s \<noteq> None \<or> hole_exprs (scan s) \<noteq> [])"
| "hasPlaceholder (JArr xs) = list_ex hasPlaceholder xs"
| "hasPlaceholder (JObj ps) = list_ex (\<lambda>p. hasPlaceholder (snd p)) ps"
| "hasPlaceholder _ = False"

section \<open>Rendering URL paths\<close>

abbreviation dot_error :: thrown where
  "dot_error \<equiv> Error ''dot path segment is not allowed''"

definition assertSafePathSegment :: "string \<Rightarrow> nat \<Rightarrow> nat \<Rightarrow> string \<Rightarrow> unit res" where
  "assertSafePathSegment path offset matchLength value =
     (let startsSegment = (offset = 0 \<or> path ! (offset - 1) = CHR ''/'');
          endsSegment = (offset + matchLength = length path
                         \<or> path ! (offset + matchLength) = CHR ''/'')
      in guard (\<not> (startsSegment \<and> endsSegment \<and> (value = ''.'' \<or> value = ''..''))) dot_error)"

definition is_dot_segment :: "string \<Rightarrow> bool" where
  "is_dot_segment segment =
     (let decoded = (case decode_uri segment of Some d \<Rightarrow> d | None \<Rightarrow> segment)
      in decoded = ''.'' \<or> decoded = ''..'')"

definition assertSafePathSegments :: "string \<Rightarrow> unit res" where
  "assertSafePathSegments path =
     guard (\<not> list_ex is_dot_segment (split_on (CHR ''/'') path)) dot_error"

text \<open>
  \<open>path.replace(pattern, callback)\<close> with a callback that renders an expression; \<open>offset\<close> is the
  position of the current token in the path.
\<close>

fun subst_path :: "string \<Rightarrow> (string \<Rightarrow> string res) \<Rightarrow> nat \<Rightarrow> tok list \<Rightarrow> string res" where
  "subst_path path f offset [] = Inr []"
| "subst_path path f offset (Lit c # ts) =
     sbind (subst_path path f (offset + 1) ts) (\<lambda>r. Inr (c # r))"
| "subst_path path f offset (Hole m e # ts) =
     sbind (f e) (\<lambda>v.
     sbind (assertSafePathSegment path offset (length m) v) (\<lambda>_.
     sbind (subst_path path f (offset + length m) ts) (\<lambda>r. Inr (v @ r))))"

definition is_absent :: "jsval \<Rightarrow> bool" where
  "is_absent v = (v = JUndef \<or> v = JNull \<or> v = JStr [])"

definition path_value :: "jsval \<Rightarrow> string \<Rightarrow> string res" where
  "path_value context expression =
     (let value = resolvePath expression context in
      if is_absent value then Inl (Error (lastSegment expression @ '' is required''))
      else Inr (encode_uri (to_str value)))"

definition renderPath :: "string \<Rightarrow> jsval \<Rightarrow> string res" where
  "renderPath path context =
     sbind (subst_path path (path_value context) 0 (scan path)) (\<lambda>renderedPath.
     sbind (assertSafePathSegments renderedPath) (\<lambda>_. Inr renderedPath))"

section \<open>The scanner\<close>

fun tok_text :: "tok \<Rightarrow> string" where
  "tok_text (Lit c) = [c]"
| "tok_text (Hole m e) = m"

lemma match_placeholder_suffix:
  assumes "match_placeholder s = Some (e, r)"
  shows "\<exists>m. s = m @ r"
proof -
  let ?r1 = "dropWhile is_ws (drop 2 s)"
  let ?r3 = "dropWhile is_ws (dropWhile is_name_char ?r1)"
  from assms have r: "r = drop 2 ?r3"
    by (auto simp: match_placeholder_def Let_def split: if_splits)
  have "suffix r s"
    unfolding r
    by (meson suffix_drop suffix_dropWhile suffix_order.order_trans)
  then show ?thesis by (auto simp: suffix_def)
qed

lemma match_placeholder_Nil [simp]: "match_placeholder [] = None"
  by (simp add: match_placeholder_def starts_with_def)

lemma scan_Nil [simp]: "scan [] = []"
  by (simp add: scan.simps)

lemma scan_Hole: "match_placeholder s = Some (e, r) \<Longrightarrow> scan s = Hole (take (length s - length r) s) e # scan r"
  by (cases s) (simp, subst scan.simps, simp)

lemma scan_Lit: "match_placeholder (c # cs) = None \<Longrightarrow> scan (c # cs) = Lit c # scan cs"
  by (simp add: scan.simps [of "c # cs"])

lemma scan_induct [case_names Nil Hole Lit]:
  assumes "P []"
    and "\<And>m r e. match_placeholder (m @ r) = Some (e, r) \<Longrightarrow> P r \<Longrightarrow> P (m @ r)"
    and "\<And>c cs. match_placeholder (c # cs) = None \<Longrightarrow> P cs \<Longrightarrow> P (c # cs)"
  shows "P s"
proof (induction "length s" arbitrary: s rule: less_induct)
  case less
  show ?case
  proof (cases "match_placeholder s")
    case None
    then show ?thesis using assms(1,3) less by (cases s) auto
  next
    case (Some er)
    then obtain e r where er: "match_placeholder s = Some (e, r)" by (cases er) auto
    then obtain m where "s = m @ r" using match_placeholder_suffix by blast
    with er less match_placeholder_shorter [OF er] show ?thesis using assms(2) by auto
  qed
qed

lemma concat_tok_text_scan: "concat (map tok_text (scan s)) = s"
proof (induction s rule: scan_induct)
  case Nil
  then show ?case by simp
next
  case (Hole m r e)
  then show ?case by (simp add: scan_Hole)
next
  case (Lit c cs)
  then show ?case by (simp add: scan_Lit)
qed

text \<open>The text of a placeholder has no character that is special in a URL.\<close>

lemma hole_text_chars:
  assumes "match_placeholder (m @ r) = Some (e, r)" and "c \<in> set m"
  shows "is_ws c \<or> is_name_char c \<or> c = CHR ''{'' \<or> c = CHR ''}''"
proof -
  let ?s = "m @ r"
  let ?w1 = "takeWhile is_ws (drop 2 ?s)" and ?r1 = "dropWhile is_ws (drop 2 ?s)"
  let ?n = "takeWhile is_name_char ?r1" and ?r2 = "dropWhile is_name_char ?r1"
  let ?w2 = "takeWhile is_ws ?r2" and ?r3 = "dropWhile is_ws ?r2"
  from assms(1) have st: "take 2 ?s = ''{{''" "take 2 ?r3 = ''}}''" "r = drop 2 ?r3"
    by (auto simp: match_placeholder_def starts_with_def Let_def numeral_2_eq_2 split: if_splits)
  have s1: "?s = take 2 ?s @ drop 2 ?s" and s2: "drop 2 ?s = ?w1 @ ?r1" and s3: "?r1 = ?n @ ?r2"
    and s4: "?r2 = ?w2 @ ?r3" and s5: "?r3 = take 2 ?r3 @ drop 2 ?r3"
    by (simp_all only: append_take_drop_id takeWhile_dropWhile_id)
  have "m @ r = take 2 ?s @ ?w1 @ ?n @ ?w2 @ take 2 ?r3 @ drop 2 ?r3"
    using s1 s2 s3 s4 s5 by metis
  then have "m @ r = (''{{'' @ ?w1 @ ?n @ ?w2 @ ''}}'') @ r"
    unfolding st(1,2) st(3) [symmetric] by simp
  then have m: "m = ''{{'' @ ?w1 @ ?n @ ?w2 @ ''}}''" by (rule append_same_eq [THEN iffD1])
  have "c \<in> set (''{{'' @ ?w1 @ ?n @ ?w2 @ ''}}'')"
    using assms(2) m by (rule subst [rotated])
  then show ?thesis by (auto dest: set_takeWhileD)
qed

lemma scan_hole_chars:
  "Hole m e \<in> set (scan s) \<Longrightarrow> c \<in> set m \<Longrightarrow> is_ws c \<or> is_name_char c \<or> c = CHR ''{'' \<or> c = CHR ''}''"
proof (induction s rule: scan_induct)
  case Nil
  then show ?case by simp
next
  case (Hole m' r e')
  then show ?case using hole_text_chars [OF Hole.hyps] by (auto simp: scan_Hole)
next
  case (Lit c' cs)
  then show ?case by (auto simp: scan_Lit)
qed

definition url_special :: "char set" where
  "url_special = set ''/?#&=:@''"

lemma hole_no_special: "Hole m e \<in> set (scan s) \<Longrightarrow> c \<in> url_special \<Longrightarrow> c \<notin> set m"
proof
  assume "Hole m e \<in> set (scan s)" "c \<in> set m" and c: "c \<in> url_special"
  then have "is_ws c \<or> is_name_char c \<or> c = CHR ''{'' \<or> c = CHR ''}''"
    using scan_hole_chars [of m e s c] by blast
  with c show False
    by (auto simp: url_special_def is_ws_def is_name_char_def is_alnum_def is_alpha_def is_upper_def
        is_lower_def is_digit_def code_def)
qed

section \<open>Rendering depends on the named paths only\<close>

text \<open>The expressions of all placeholders of a template.\<close>

fun placeholders :: "jsval \<Rightarrow> string list" where
  "placeholders (JStr s) = hole_exprs (scan s)"
| "placeholders (JArr xs) = concat (map placeholders xs)"
| "placeholders (JObj ps) = concat (map (\<lambda>p. placeholders (snd p)) ps)"
| "placeholders _ = []"

lemma whole_value_placeholder: "whole_value s = Some e \<Longrightarrow> e \<in> set (hole_exprs (scan s))"
  by (auto simp: whole_value_def scan_Hole split: option.splits list.splits)

lemma interpolate_cong:
  "\<forall>e \<in> set (hole_exprs ts). resolvePath e c1 = resolvePath e c2 \<Longrightarrow>
   interpolate c1 ts = interpolate c2 ts"
  by (induction ts rule: hole_exprs.induct) (auto simp: Let_def)

lemma renderString_cong:
  "\<forall>e \<in> set (hole_exprs (scan s)). resolvePath e c1 = resolvePath e c2 \<Longrightarrow>
   renderString s c1 = renderString s c2"
  using interpolate_cong [of "scan s" c1 c2] whole_value_placeholder [of s]
  by (auto simp: renderString_def Let_def split: option.splits)

lemma renderTemplate_cong:
  "\<forall>e \<in> set (placeholders t). resolvePath e c1 = resolvePath e c2 \<Longrightarrow>
   renderTemplate t c1 = renderTemplate t c2"
proof (induction t rule: placeholders.induct)
  case (2 xs)
  then have "map (\<lambda>x. renderTemplate x c1) xs = map (\<lambda>x. renderTemplate x c2) xs" by auto
  then show ?case by (simp only: renderTemplate.simps)
next
  case (3 ps)
  then have "map (\<lambda>p. (fst p, renderTemplate (snd p) c1)) ps = map (\<lambda>p. (fst p, renderTemplate (snd p) c2)) ps"
    by fastforce
  then show ?case by (simp only: renderTemplate.simps)
qed (simp_all add: renderString_cong)

lemma resolve_segs_append: "resolve_segs v (xs @ ys) = resolve_segs (resolve_segs v xs) ys"
proof (induction xs arbitrary: v)
  case Nil
  then show ?case by simp
next
  case (Cons x xs)
  have "resolve_segs JUndef ys = JUndef" by (cases ys) auto
  with Cons show ?case by (auto split: jsval.splits option.splits)
qed

text \<open>The first segment of a path decides which property of the context it reads.\<close>

definition root_of :: "string \<Rightarrow> string" where
  "root_of expression = hd (split_on (CHR ''.'') expression)"

lemma resolvePath_root_cong:
  assumes "prop_get ps (root_of e) = prop_get qs (root_of e)"
  shows "resolvePath e (JObj ps) = resolvePath e (JObj qs)"
proof -
  obtain w ws where "split_on (CHR ''.'') e = w # ws" by (cases "split_on (CHR ''.'') e") auto
  with assms show ?thesis by (simp add: resolvePath_def root_of_def)
qed

section \<open>Dropping unresolved entries\<close>

lemma put_all_Cons [simp]: "put_all ps ((k, v) # es) = put_all (obj_put ps k v) es"
  by (simp add: put_all_def)

lemma put_all_Nil [simp]: "put_all ps [] = ps"
  by (simp add: put_all_def)

lemma map_of_put_all:
  "distinct (map fst es) \<Longrightarrow> k \<noteq> ''__proto__'' \<Longrightarrow>
   map_of (put_all ps es) k = (case map_of es k of Some v \<Rightarrow> Some v | None \<Rightarrow> map_of ps k)"
proof (induction es arbitrary: ps)
  case Nil
  then show ?case by simp
next
  case (Cons e es)
  then show ?case
    by (cases e) (auto simp: obj_put_def obj_simps split: option.splits
        dest: map_of_SomeD intro: rev_image_eqI)
qed

lemma keys_put_all: "fst ` set (put_all ps es) \<subseteq> fst ` set ps \<union> fst ` set es"
proof (induction es arbitrary: ps)
  case Nil
  then show ?case by simp
next
  case (Cons e es)
  obtain k v where e: "e = (k, v)" by (cases e)
  have "fst ` set (obj_put ps k v) \<subseteq> insert k (fst ` set ps)"
    using keys_obj_def [of ps k v] by (auto simp: obj_put_def)
  with Cons.IH [of "obj_put ps k v"] show ?case unfolding e put_all_Cons by auto
qed

lemma distinct_filter_map_fst: "distinct (map fst ps) \<Longrightarrow> distinct (map fst (filter P (map (\<lambda>p. (fst p, f p)) ps)))"
  by (induction ps) (auto intro: rev_image_eqI)

lemma map_of_filter_map:
  "distinct (map fst ps) \<Longrightarrow>
   map_of (filter (\<lambda>p. snd p \<noteq> JUndef) (map (\<lambda>p. (fst p, f (snd p))) ps)) k =
     (case map_of ps k of Some v \<Rightarrow> if f v = JUndef then None else Some (f v) | None \<Rightarrow> None)"
  by (induction ps) (auto split: option.splits simp: map_of_eq_None_iff intro: rev_image_eqI)

lemma renderTemplate_lookup:
  assumes "distinct (map fst ps)" and "k \<noteq> ''__proto__''"
  shows "map_of (props_of (renderTemplate (JObj ps) c)) k =
    (case map_of ps k of
       Some v \<Rightarrow> if renderTemplate v c = JUndef then None else Some (renderTemplate v c)
     | None \<Rightarrow> None)"
  using assms map_of_filter_map [OF assms(1), of "\<lambda>v. renderTemplate v c" k]
  by (simp add: map_of_put_all distinct_filter_map_fst split: option.splits)

section \<open>Rendered paths\<close>

lemma encode_uri_no_special: "c \<in> url_special \<Longrightarrow> c \<notin> set (encode_uri s)"
  by (rule encode_uri_no_delims) (auto simp: url_special_def)

lemma subst_path_count:
  assumes "subst_path path f off ts = Inr r"
    and "\<And>e v. f e = Inr v \<Longrightarrow> c \<notin> set v"
    and "\<And>m e. Hole m e \<in> set ts \<Longrightarrow> c \<notin> set m"
  shows "count_list r c = count_list (concat (map tok_text ts)) c"
  using assms
proof (induction path f off ts arbitrary: r rule: subst_path.induct)
  case (1 path f off)
  then show ?case by simp
next
  case (2 path f off d ts)
  then show ?case by (auto simp: res_simps)
next
  case (3 path f off m e ts)
  from "3.prems"(1) obtain v r' where v: "f e = Inr v" and r': "r = v @ r'"
      "assertSafePathSegment path off (length m) v = Inr ()"
      "subst_path path f (off + length m) ts = Inr r'"
    by (auto simp: res_simps)
  have "count_list r' c = count_list (concat (map tok_text ts)) c"
    by (rule "3.IH" [OF r'(3)]) (use "3.prems"(2,3) in auto)
  moreover have "count_list v c = 0" "count_list m c = 0"
    using "3.prems"(2) [OF v] "3.prems"(3) [of m e] by (simp_all add: count_list_0_iff)
  ultimately show ?case using r'(1) by simp
qed

lemma path_value_no_special: "path_value context e = Inr v \<Longrightarrow> c \<in> url_special \<Longrightarrow> c \<notin> set v"
  by (auto simp: path_value_def Let_def encode_uri_no_special split: if_splits)

lemma subst_scan_count:
  assumes "subst_path path f 0 (scan path) = Inr r"
    and "\<And>e v. f e = Inr v \<Longrightarrow> c \<notin> set v" and "c \<in> url_special"
  shows "count_list r c = count_list path c"
  using subst_path_count [OF assms(1,2)] hole_no_special [OF _ assms(3)]
  by (simp add: concat_tok_text_scan)

lemma renderPath_Inr:
  "renderPath path context = Inr r \<longleftrightarrow>
     subst_path path (path_value context) 0 (scan path) = Inr r \<and>
     list_all (\<lambda>s. \<not> is_dot_segment s) (split_on (CHR ''/'') r)"
  by (auto simp: renderPath_def assertSafePathSegments_def res_simps list_ex_iff list_all_iff)

section \<open>Properties\<close>

text \<open>C6: substituting the input into a URL path cannot retarget the request. The rendered path has
  exactly as many path separators, query marks and fragment marks as the manifest's path, so no
  input adds or removes a segment or starts a query, and no segment of it decodes to a dot segment.\<close>

theorem renderPath_no_injection:
  assumes "renderPath path context = Inr r"
  shows "(\<forall>c \<in> {CHR ''/'', CHR ''?'', CHR ''#''}. count_list r c = count_list path c)
    \<and> length (split_on (CHR ''/'') r) = length (split_on (CHR ''/'') path)
    \<and> (\<forall>seg \<in> set (split_on (CHR ''/'') r).
          seg \<noteq> ''.'' \<and> seg \<noteq> ''..'' \<and> decode_uri seg \<noteq> Some ''.'' \<and> decode_uri seg \<noteq> Some ''..'')"
proof -
  from assms have sub: "subst_path path (path_value context) 0 (scan path) = Inr r"
    and safe: "\<forall>seg \<in> set (split_on (CHR ''/'') r). \<not> is_dot_segment seg"
    by (auto simp: renderPath_Inr list_all_iff)
  have cnt: "count_list r c = count_list path c" if "c \<in> url_special" for c
    using subst_scan_count [OF sub _ that] path_value_no_special that by blast
  have "seg \<noteq> ''.'' \<and> seg \<noteq> ''..'' \<and> decode_uri seg \<noteq> Some ''.'' \<and> decode_uri seg \<noteq> Some ''..''"
    if "\<not> is_dot_segment seg" for seg
    using that by (auto simp: is_dot_segment_def decode_uri_plain split: option.splits)
  with cnt safe show ?thesis by (auto simp: split_on_length url_special_def)
qed

theorem renderPath_no_injection_witness:
  "renderPath ''/users/{{ id }}/x'' (JObj [(''id'', JStr ''a/../b'')]) = Inr ''/users/a%2F..%2Fb/x''
   \<and> length (split_on (CHR ''/'') ''/users/a%2F..%2Fb/x'') = length (split_on (CHR ''/'') ''/users/{{ id }}/x'')"
proof -
  have h: "renderPath ''/users/{{ id }}/x'' (JObj [(''id'', JStr ''a/../b'')]) = Inr ''/users/a%2F..%2Fb/x''"
    by code_simp
  show ?thesis using h renderPath_no_injection [OF h] by blast
qed

text \<open>The placeholder rule for whole values. A template that is exactly one placeholder renders to
  the value its path resolves to, with its type; \<open>null\<close> counts as unresolved.\<close>

theorem renderTemplate_whole_value:
  assumes "list_all is_name_char e" and "e \<noteq> []"
  shows "renderTemplate (JStr (''{{'' @ e @ ''}}'')) context =
    (if resolvePath e context = JNull then JUndef else resolvePath e context)"
proof -
  have nb: "\<not> is_name_char (CHR ''}'')" "\<not> is_ws (CHR ''}'')"
    by (simp_all add: is_name_char_def is_alnum_def is_alpha_def is_upper_def is_lower_def
        is_digit_def code_def is_ws_def)
  have nw: "\<not> is_ws c" if "is_name_char c" for c
    using that by (auto simp: is_name_char_def is_alnum_def is_alpha_def is_upper_def is_lower_def
        is_digit_def code_def is_ws_def)
  have "dropWhile is_ws (e @ ''}}'') = e @ ''}}''"
    using assms nw by (cases e) auto
  moreover have "takeWhile is_name_char (e @ ''}}'') = e" "dropWhile is_name_char (e @ ''}}'') = ''}}''"
    using assms nb by (simp_all add: list_all_iff takeWhile_append2 dropWhile_append2)
  ultimately have "match_placeholder (''{{'' @ e @ ''}}'') = Some (e, [])"
    using assms(2) nb by (simp add: match_placeholder_def starts_with_def numeral_2_eq_2)
  then show ?thesis by (simp add: renderString_def whole_value_def Let_def)
qed

theorem renderTemplate_whole_value_witness:
  "list_all is_name_char ''a.1'' \<and> renderTemplate (JStr ''{{a.1}}'')
     (JObj [(''a'', JArr [JNull, JArr [JInt 7]])]) = JArr [JInt 7]"
proof -
  have h: "list_all is_name_char ''a.1''" by code_simp
  have "resolvePath ''a.1'' (JObj [(''a'', JArr [JNull, JArr [JInt 7]])]) = JArr [JInt 7]"
    by code_simp
  with h renderTemplate_whole_value [OF h, of "JObj [(''a'', JArr [JNull, JArr [JInt 7]])]"]
  show ?thesis by simp
qed

text \<open>An unresolved key is dropped and every other key is kept. Looking a key up in a rendered
  object gives the rendered child, and nothing where the child is unresolved or absent.\<close>

theorem renderTemplate_drops_unresolved:
  assumes "distinct (map fst ps)" and "k \<noteq> ''__proto__''"
  shows "map_of (props_of (renderTemplate (JObj ps) c)) k = Some v \<longleftrightarrow>
    (\<exists>t. map_of ps k = Some t \<and> renderTemplate t c = v \<and> v \<noteq> JUndef)"
  using renderTemplate_lookup [OF assms, of c] by (auto split: option.splits)

theorem renderTemplate_drops_unresolved_witness:
  "map_of (props_of (renderTemplate (JObj [(''a'', JStr ''{{x}}''), (''b'', JStr ''{{y}}'')])
      (JObj [(''x'', JInt 1)]))) ''a'' = Some (JInt 1)
   \<and> map_of (props_of (renderTemplate (JObj [(''a'', JStr ''{{x}}''), (''b'', JStr ''{{y}}'')])
      (JObj [(''x'', JInt 1)]))) ''b'' = None"
proof -
  let ?ps = "[(''a'', JStr ''{{x}}''), (''b'', JStr ''{{y}}'')]"
  let ?c = "JObj [(''x'', JInt 1)]"
  have "renderTemplate (JStr ''{{x}}'') ?c = JInt 1" and "renderTemplate (JStr ''{{y}}'') ?c = JUndef"
    by code_simp+
  then show ?thesis
    using renderTemplate_drops_unresolved [of ?ps "''a''" ?c "JInt 1"]
      renderTemplate_drops_unresolved [of ?ps "''b''" ?c]
    by (cases "map_of (props_of (renderTemplate (JObj ?ps) ?c)) ''b''") auto
qed

end
