(* ===== verification/Budget.thy ===== *)
theory Budget
  imports JsText
begin

text \<open>
  \<open>runner/bun/src/budget.ts\<close> and \<open>runner/budget-contract.json\<close>: the limits every operation is
  held to. The contract is read once; \<open>configured\<close> is its content, and the start-up loop over its
  values is \<open>contract_valid\<close>. Operation budgets come from manifests and are JSON values.
\<close>

definition configured :: props where
  "configured =
     [(''maxOperationTimeoutMs'', JInt 300000), (''maxOperationInputBytes'', JInt 26214400),
      (''maxOperationResponseBytes'', JInt 52428800), (''rpcEnvelopeOverheadBytes'', JInt 262144),
      (''connectionGraceMs'', JInt 5000)]"

text \<open>\<open>Number.isSafeInteger(v) && v > 0\<close> on an arbitrary value.\<close>

fun positive_safe :: "jsval \<Rightarrow> bool" where
  "positive_safe (JNum n) = (is_safe_integer n \<and> num_lt (Fin 0) n)"
| "positive_safe _ = False"

definition contract_valid :: "unit res" where
  "contract_valid = for_each (\<lambda>(_, v). guard (positive_safe v)
     (Error ''Runner budget contract must contain positive safe integers.'')) configured"

fun int_of :: "jsval \<Rightarrow> int" where
  "int_of (JNum n) = (case num_val n of Some r \<Rightarrow> \<lfloor>r\<rfloor> | None \<Rightarrow> 0)"
| "int_of _ = 0"

definition maxOperationTimeoutMs :: int where
  "maxOperationTimeoutMs = int_of (prop_get configured ''maxOperationTimeoutMs'')"

definition maxOperationInputBytes :: int where
  "maxOperationInputBytes = int_of (prop_get configured ''maxOperationInputBytes'')"

definition maxOperationResponseBytes :: int where
  "maxOperationResponseBytes = int_of (prop_get configured ''maxOperationResponseBytes'')"

definition rpcEnvelopeOverheadBytes :: int where
  "rpcEnvelopeOverheadBytes = int_of (prop_get configured ''rpcEnvelopeOverheadBytes'')"

definition connectionGraceMs :: int where
  "connectionGraceMs = int_of (prop_get configured ''connectionGraceMs'')"

definition rpcRequestLimitBytes :: int where
  "rpcRequestLimitBytes = maxOperationInputBytes + rpcEnvelopeOverheadBytes"

definition rpcResponseLimitBytes :: int where
  "rpcResponseLimitBytes = maxOperationResponseBytes + rpcEnvelopeOverheadBytes"

text \<open>\<open>Number.isSafeInteger(v) && v > 0 && v <= limit\<close>.\<close>

fun budget_within :: "int \<Rightarrow> jsval \<Rightarrow> bool" where
  "budget_within limit (JNum n) =
     (is_safe_integer n \<and> num_lt (Fin 0) n \<and> num_le n (Fin (of_int limit)))"
| "budget_within limit _ = False"

definition supportsOperationBudget :: "jsval \<Rightarrow> bool" where
  "supportsOperationBudget operation =
     (is_record operation
      \<and> budget_within maxOperationTimeoutMs (get operation ''timeoutMs'')
      \<and> budget_within maxOperationInputBytes (get operation ''maxInputBytes'')
      \<and> budget_within maxOperationResponseBytes (get operation ''maxResponseBytes''))"

definition operationWireResponseLimit :: "jsval \<Rightarrow> int res" where
  "operationWireResponseLimit maxResponseBytes =
     (let v = (if maxResponseBytes = JUndef then JInt maxOperationResponseBytes else maxResponseBytes) in
      if budget_within maxOperationResponseBytes v then Inr (int_of v + rpcEnvelopeOverheadBytes)
      else Inl (Error ''Operation response budget is outside the runner contract.''))"

lemma budget_values [simp]:
  "maxOperationTimeoutMs = 300000" "maxOperationInputBytes = 26214400"
  "maxOperationResponseBytes = 52428800" "rpcEnvelopeOverheadBytes = 262144"
  "connectionGraceMs = 5000" "rpcRequestLimitBytes = 26476544" "rpcResponseLimitBytes = 52690944"
  by (simp_all add: maxOperationTimeoutMs_def maxOperationInputBytes_def
      maxOperationResponseBytes_def rpcEnvelopeOverheadBytes_def connectionGraceMs_def
      rpcRequestLimitBytes_def rpcResponseLimitBytes_def configured_def prop_get_def)

lemma budget_withinE:
  assumes "budget_within limit v"
  obtains k where "v = JInt k" "0 < k" "k \<le> limit" "int_of v = k" "k \<le> max_safe"
proof -
  from assms obtain n where v: "v = JNum n" and n: "is_safe_integer n" "num_lt (Fin 0) n"
      "num_le n (Fin (of_int limit))"
    by (cases v) auto
  from n(1) obtain k where k: "num_val n = Some (of_int k)" "\<bar>k\<bar> \<le> max_safe"
    by (rule is_safe_integerE)
  with n(2) have "n = Fin (of_int k)" "0 < k" by (cases n; simp)+
  with that v k n(3) show thesis by simp
qed

lemma budget_within_JInt [simp]: "budget_within limit (JInt k) \<longleftrightarrow> 0 < k \<and> k \<le> limit \<and> k \<le> max_safe"
  by (auto simp: max_safe_def)

declare budget_within.simps [simp del]

lemma contract_valid_ok: "contract_valid = Inr ()"
  by (simp add: contract_valid_def configured_def res_simps is_safe_integer_def max_safe_def)

lemma supportsOperationBudgetE:
  assumes "supportsOperationBudget op"
  obtains t i r where "get op ''timeoutMs'' = JInt t" "0 < t" "t \<le> 300000"
    "get op ''maxInputBytes'' = JInt i" "0 < i" "i \<le> 26214400"
    "get op ''maxResponseBytes'' = JInt r" "0 < r" "r \<le> 52428800"
  using assms
  by (auto simp: supportsOperationBudget_def elim!: budget_withinE)

text \<open>A budget that the runner supports fits its transport. The wire limit of the operation's
  response is computed without an error, leaves room for the largest allowed output and its
  envelope, and does not exceed the limit the control plane reads with.\<close>

theorem supported_budget_fits_wire:
  assumes "supportsOperationBudget op"
  shows "\<exists>r limit. get op ''maxResponseBytes'' = JInt r
           \<and> operationWireResponseLimit (get op ''maxResponseBytes'') = Inr limit
           \<and> limit = r + rpcEnvelopeOverheadBytes \<and> r < limit \<and> limit \<le> rpcResponseLimitBytes"
  using assms
proof (rule supportsOperationBudgetE)
  fix r
  assume "get op ''maxResponseBytes'' = JInt r" "0 < r" "r \<le> 52428800"
  then show ?thesis by (simp add: operationWireResponseLimit_def max_safe_def)
qed

theorem supported_budget_fits_wire_witness:
  "\<exists>r limit. operationWireResponseLimit (JInt 52428800) = Inr limit
     \<and> JInt 52428800 = JInt r \<and> r < limit \<and> limit \<le> rpcResponseLimitBytes"
proof -
  let ?op = "JObj [(''timeoutMs'', JInt 30000), (''maxInputBytes'', JInt 1024),
                   (''maxResponseBytes'', JInt 52428800)]"
  have "supportsOperationBudget ?op"
    by (simp add: supportsOperationBudget_def prop_get_def max_safe_def del: of_int_numeral)
  from supported_budget_fits_wire [OF this] show ?thesis by (simp add: prop_get_def)
qed

end
