(* ===== verification/Execution.thy ===== *)
theory Execution
  imports Budget
begin

text \<open>
  \<open>runner/bun/src/execution.ts\<close>: deadlines and cancellation.

  \<^item> Time is in milliseconds. An abort signal is the time at which it aborts, \<open>None\<close> for one that
    never does. A promise is the time at which it settles and how, or \<open>Never\<close>.
  \<^item> A piece of work runs on a state \<open>'s\<close> (what it changes) and throws, returns a value or returns
    a promise. A promise that settles in the millisecond of the abort loses against it.
  \<^item> \<open>AsyncLocalStorage\<close> is the explicit argument \<open>parent\<close>. The three readings of \<open>Date.now()\<close> in
    \<open>runExecution\<close> are arguments.
\<close>

type_synonym time = int
type_synonym abort_signal = "time option"

datatype 'a promise = Settles time "thrown + 'a" | Never

datatype 'a returned = Value 'a | Pending "'a promise"

type_synonym ('s, 'a) work = "'s \<Rightarrow> 's \<times> (thrown + 'a returned)"

record ExecutionContext =
  ctx_signal :: abort_signal
  ctx_deadline :: time
  ctx_secrets :: "string list"

definition timeoutError :: jsval where
  "timeoutError = JObj [(''ok'', JBool False), (''code'', JStr ''OPERATION_TIMEOUT''),
     (''message'', JStr ''Operation exceeded the connector manifest timeout.'')]"

definition unsupportedTimeout :: jsval where
  "unsupportedTimeout = JObj [(''ok'', JBool False), (''code'', JStr ''UNSUPPORTED_OPERATION_BUDGET''),
     (''message'', JStr ''Operation timeout exceeds the runner budget contract.'')]"

definition aborted :: "time \<Rightarrow> abort_signal \<Rightarrow> bool" where
  "aborted now sig = (case sig of None \<Rightarrow> False | Some t \<Rightarrow> t \<le> now)"

fun earliest :: "abort_signal list \<Rightarrow> abort_signal" where
  "earliest [] = None"
| "earliest (None # sigs) = earliest sigs"
| "earliest (Some t # sigs) =
     (case earliest sigs of None \<Rightarrow> Some t | Some u \<Rightarrow> Some (min t u))"

text \<open>The promise that \<open>runExecution\<close> returns around the promise of the work.\<close>

definition race_abort :: "abort_signal \<Rightarrow> 'a promise \<Rightarrow> 'a promise" where
  "race_abort abort p =
     (case abort of
        None \<Rightarrow> p
      | Some a \<Rightarrow>
          (case p of
             Settles t r \<Rightarrow> if t < a then p else Settles a (Inl (ThrownVal timeoutError))
           | Never \<Rightarrow> Settles a (Inl (ThrownVal timeoutError))))"

definition operation_deadline ::
    "ExecutionContext option \<Rightarrow> time \<Rightarrow> int \<Rightarrow> time option \<Rightarrow> time" where
  "operation_deadline parent now timeoutMs deadline =
     (let own = now + timeoutMs;
          given = (case deadline of None \<Rightarrow> own | Some d \<Rightarrow> min own d)
      in case parent of None \<Rightarrow> given | Some p \<Rightarrow> min given (ctx_deadline p))"

definition runExecution ::
    "ExecutionContext option \<Rightarrow> time \<times> time \<times> time \<Rightarrow> (ExecutionContext \<Rightarrow> ('s, 'a) work)
     \<Rightarrow> jsval \<Rightarrow> abort_signal option \<Rightarrow> time option \<Rightarrow> string list option \<Rightarrow> ('s, 'a) work" where
  "runExecution parent clock fn timeoutMs sig deadline givenSecrets s =
     (let timeout = (if timeoutMs = JUndef then JInt maxOperationTimeoutMs else timeoutMs);
          (now0, now1, now2) = clock
      in if \<not> budget_within maxOperationTimeoutMs timeout then (s, Inl (ThrownVal unsupportedTimeout))
         else let
            limit = operation_deadline parent now0 (int_of timeout) deadline;
            sources = (case sig of None \<Rightarrow> [] | Some x \<Rightarrow> [x])
                      @ (case parent of None \<Rightarrow> [] | Some p \<Rightarrow> [ctx_signal p])
          in if list_ex (aborted now1) sources \<or> limit \<le> now1 then (s, Inl (ThrownVal timeoutError))
             else let
                timer = now2 + max 0 (limit - now2);
                abort = earliest (Some timer # sources);
                context = \<lparr>ctx_signal = abort, ctx_deadline = limit,
                           ctx_secrets = (case givenSecrets of
                              Some ss \<Rightarrow> ss
                            | None \<Rightarrow> (case parent of Some p \<Rightarrow> ctx_secrets p | None \<Rightarrow> []))\<rparr>
              in case fn context s of
                   (s', Inr (Pending p)) \<Rightarrow> (s', Inr (Pending (race_abort abort p)))
                 | outcome \<Rightarrow> outcome)"

text \<open>
  The replaced \<open>globalThis.fetch\<close>: inside an execution the request carries the execution's signal,
  joined with the caller's. \<open>nativeFetch\<close> gets the signal of the request.
\<close>

definition contextFetch ::
    "ExecutionContext option \<Rightarrow> time \<Rightarrow> (abort_signal \<Rightarrow> thrown + 'r) \<Rightarrow> abort_signal option \<Rightarrow> thrown + 'r" where
  "contextFetch context now nativeFetch callerSignal =
     (case context of
        None \<Rightarrow> nativeFetch (case callerSignal of None \<Rightarrow> None | Some c \<Rightarrow> c)
      | Some ctx \<Rightarrow>
          (let sig = (case callerSignal of None \<Rightarrow> ctx_signal ctx | Some c \<Rightarrow> earliest [ctx_signal ctx, c])
           in if aborted now sig then Inl (ThrownVal timeoutError) else nativeFetch sig))"

section \<open>Chaining of promises\<close>

text \<open>\<open>Promise.resolve(v).then(f)\<close>: \<open>f\<close> runs when \<open>v\<close> settles, on the state of that time.\<close>

definition settle_now :: "time \<Rightarrow> thrown + 'a returned \<Rightarrow> 'a promise" where
  "settle_now t r = (case r of
     Inl e \<Rightarrow> Settles t (Inl e) | Inr (Value v) \<Rightarrow> Settles t (Inr v) | Inr (Pending p) \<Rightarrow> p)"

definition promise_then ::
    "time \<Rightarrow> 'a returned \<Rightarrow> (time \<Rightarrow> 'a \<Rightarrow> ('s, 'b) work) \<Rightarrow> 's \<Rightarrow> 's \<times> 'b promise" where
  "promise_then now v f s =
     (case (case v of Value a \<Rightarrow> Settles now (Inr a) | Pending p \<Rightarrow> p) of
        Never \<Rightarrow> (s, Never)
      | Settles t (Inl e) \<Rightarrow> (s, Settles t (Inl e))
      | Settles t (Inr a) \<Rightarrow> (case f t a s of (s', r) \<Rightarrow> (s', settle_now t r)))"

text \<open>\<open>await\<close> of a returned value, \<open>None\<close> if it never settles.\<close>

definition await :: "'a returned \<Rightarrow> (thrown + 'a) option" where
  "await v = (case v of
     Value a \<Rightarrow> Some (Inr a) | Pending (Settles t r) \<Rightarrow> Some r | Pending Never \<Rightarrow> None)"

section \<open>Deadlines\<close>

definition no_later :: "abort_signal \<Rightarrow> abort_signal \<Rightarrow> bool" where
  "no_later a b = (case b of None \<Rightarrow> True | Some t \<Rightarrow> (case a of None \<Rightarrow> False | Some u \<Rightarrow> u \<le> t))"

lemma no_later_refl [simp]: "no_later a a"
  by (cases a) (simp_all add: no_later_def)

lemma no_later_trans: "no_later a b \<Longrightarrow> no_later b c \<Longrightarrow> no_later a c"
  by (auto simp: no_later_def split: option.splits)

lemma earliest_no_later: "sig \<in> set sigs \<Longrightarrow> no_later (earliest sigs) sig"
proof (induction sigs rule: earliest.induct)
  case (2 sigs)
  then show ?case by (cases sig) (auto simp: no_later_def)
next
  case (3 t sigs)
  then show ?case by (cases "earliest sigs") (auto simp: no_later_def split: option.splits)
qed simp

lemma earliest_Some: "Some t \<in> set sigs \<Longrightarrow> \<exists>u. earliest sigs = Some u \<and> u \<le> t"
  using earliest_no_later [of "Some t" sigs] by (cases "earliest sigs") (auto simp: no_later_def)

lemma race_abort_settles:
  "race_abort (Some a) p = q \<Longrightarrow> \<exists>t r. q = Settles t r \<and> t \<le> a
     \<and> (r = Inl (ThrownVal timeoutError) \<or> p = Settles t r)"
  by (auto simp: race_abort_def split: promise.splits if_splits)

text \<open>
  What a call of \<open>runExecution\<close> amounts to: it is refused and the work does not run, or the work
  runs in a context that is at most as permissive as every bound that applies to it.
\<close>

inductive refused :: "'s \<Rightarrow> 's \<times> (thrown + 'a returned) \<Rightarrow> bool" for s where
  budget: "refused s (s, Inl (ThrownVal unsupportedTimeout))"
| timeout: "refused s (s, Inl (ThrownVal timeoutError))"

definition context_bounded ::
    "ExecutionContext option \<Rightarrow> time \<Rightarrow> abort_signal option \<Rightarrow> time option \<Rightarrow> ExecutionContext \<Rightarrow> bool" where
  "context_bounded parent now sig deadline ctx =
     (ctx_deadline ctx \<le> now + maxOperationTimeoutMs
      \<and> (\<forall>d. deadline = Some d \<longrightarrow> ctx_deadline ctx \<le> d)
      \<and> (\<forall>p. parent = Some p \<longrightarrow> ctx_deadline ctx \<le> ctx_deadline p \<and> no_later (ctx_signal ctx) (ctx_signal p))
      \<and> (\<forall>x. sig = Some x \<longrightarrow> no_later (ctx_signal ctx) x))"

lemma operation_deadline_bounded:
  "operation_deadline parent now t deadline \<le> now + t"
  "deadline = Some d \<Longrightarrow> operation_deadline parent now t deadline \<le> d"
  "parent = Some p \<Longrightarrow> operation_deadline parent now t deadline \<le> ctx_deadline p"
  by (auto simp: operation_deadline_def Let_def split: option.splits)

lemma runExecution_cases:
  fixes outcome :: "'s \<times> (thrown + 'a returned)"
  assumes run: "runExecution parent (now0, now1, now2) fn timeoutMs sig deadline given s = outcome"
  obtains (refused) "refused s outcome"
    | (ran) ctx abort s' r where "fn ctx s = (s', r)"
        "context_bounded parent now0 sig deadline ctx" "ctx_signal ctx = Some abort"
        "abort \<le> max now2 (ctx_deadline ctx)" "now1 < ctx_deadline ctx"
        "ctx_secrets ctx = (case given of Some ss \<Rightarrow> ss | None \<Rightarrow> (case parent of Some p \<Rightarrow> ctx_secrets p | None \<Rightarrow> []))"
        "outcome = (s', case r of Inr (Pending p) \<Rightarrow> Inr (Pending (race_abort (Some abort) p)) | _ \<Rightarrow> r)"
proof -
  let ?t = "if timeoutMs = JUndef then JInt maxOperationTimeoutMs else timeoutMs"
  let ?limit = "operation_deadline parent now0 (int_of ?t) deadline"
  let ?sources = "(case sig of None \<Rightarrow> [] | Some x \<Rightarrow> [x]) @ (case parent of None \<Rightarrow> [] | Some p \<Rightarrow> [ctx_signal p])"
  let ?abort = "earliest (Some (now2 + max 0 (?limit - now2)) # ?sources)"
  let ?given = "case given of Some ss \<Rightarrow> ss | None \<Rightarrow> (case parent of Some p \<Rightarrow> ctx_secrets p | None \<Rightarrow> [])"
  let ?ctx = "\<lparr>ctx_signal = ?abort, ctx_deadline = ?limit, ctx_secrets = ?given\<rparr>"
  show thesis
  proof (cases "budget_within maxOperationTimeoutMs ?t \<and> \<not> (list_ex (aborted now1) ?sources \<or> ?limit \<le> now1)")
    case False
    then have "refused s outcome"
      using run by (auto simp: runExecution_def Let_def intro: refused.intros split: if_splits)
    then show thesis by (rule that(1))
  next
    case True
    then obtain k where k: "int_of ?t = k" "k \<le> maxOperationTimeoutMs"
      by (auto elim!: budget_withinE)
    obtain abort where a: "?abort = Some abort" "abort \<le> max now2 ?limit"
      using earliest_Some [of "now2 + max 0 (?limit - now2)" "Some (now2 + max 0 (?limit - now2)) # ?sources"]
      by auto
    have "context_bounded parent now0 sig deadline ?ctx"
      using operation_deadline_bounded [where parent = parent and now = now0 and t = k and deadline = deadline] k
        earliest_no_later [of _ "Some (now2 + max 0 (?limit - now2)) # ?sources"]
      unfolding context_bounded_def ExecutionContext.simps k(1)
      by (intro conjI allI impI) (force, force, force, simp, simp)
    moreover obtain s' r where "fn ?ctx s = (s', r)" by (cases "fn ?ctx s")
    moreover have "outcome = (s', case r of Inr (Pending p) \<Rightarrow> Inr (Pending (race_abort (Some abort) p)) | _ \<Rightarrow> r)"
      using run True a(1) \<open>fn ?ctx s = (s', r)\<close>
      by (auto simp: runExecution_def Let_def split: sum.splits returned.splits)
    ultimately show thesis
      using that(2) [of ?ctx s' r abort] a True by auto
  qed
qed



text \<open>Nested work cannot escape its bounds. A call is refused without running the work and
  without changing any state, or the work runs in a context whose deadline and abort signal are no
  later than those of the enclosing execution and of the caller, with the secrets of the enclosing
  execution unless others are given; any request it makes through \<open>fetch\<close> carries that signal.\<close>

theorem runExecution_inherits:
  shows "refused s (runExecution parent (now0, now1, now2) fn timeoutMs sig deadline given s)
    \<or> (\<exists>ctx. fst (runExecution parent (now0, now1, now2) fn timeoutMs sig deadline given s) = fst (fn ctx s)
         \<and> context_bounded parent now0 sig deadline ctx \<and> now1 < ctx_deadline ctx
         \<and> ctx_secrets ctx = (case given of Some ss \<Rightarrow> ss
                           | None \<Rightarrow> (case parent of Some p \<Rightarrow> ctx_secrets p | None \<Rightarrow> []))
         \<and> (\<forall>caller now nativeFetch. contextFetch (Some ctx) now nativeFetch caller = Inl (ThrownVal timeoutError)
              \<or> (\<exists>sent. no_later sent (ctx_signal ctx) \<and> contextFetch (Some ctx) now nativeFetch caller = nativeFetch sent)))"
    (is "_ \<or> (\<exists>ctx. ?ran ctx \<and> _ \<and> _ \<and> _ \<and> ?fetch ctx)")
proof (rule runExecution_cases [OF refl [of "runExecution parent (now0, now1, now2) fn timeoutMs sig deadline given s"]])
  fix ctx abort s' r
  assume f: "fn ctx s = (s', r)" "context_bounded parent now0 sig deadline ctx" "now1 < ctx_deadline ctx"
    "ctx_secrets ctx = (case given of Some ss \<Rightarrow> ss | None \<Rightarrow> (case parent of Some p \<Rightarrow> ctx_secrets p | None \<Rightarrow> []))"
    "runExecution parent (now0, now1, now2) fn timeoutMs sig deadline given s
       = (s', case r of Inr (Pending p) \<Rightarrow> Inr (Pending (race_abort (Some abort) p)) | _ \<Rightarrow> r)"
  have "no_later (case caller of None \<Rightarrow> ctx_signal ctx | Some c \<Rightarrow> earliest [ctx_signal ctx, c]) (ctx_signal ctx)" for caller
    using earliest_no_later [of "ctx_signal ctx"] by (cases caller) simp_all
  then have "?fetch ctx"
    unfolding contextFetch_def option.case Let_def by (metis (no_types))
  with f show ?thesis by force
qed simp

end
