(* ===== verification/Http.thy ===== *)
theory Http
  imports Execution
begin

text \<open>
  \<open>runner/bun/src/http.ts\<close>: the outbound HTTP boundary of the connectors. The URL parser, \<open>fetch\<close>
  and the text decoder belong to the platform and are parameters: \<open>p_parse\<close> turns a text into a URL,
  \<open>p_fetch\<close> answers a request with the time of the response and the response, and the body of a
  response is a list of timed read results. The state is the list of requests sent so far.
\<close>

section \<open>URLs and the allow list\<close>

record URL =
  protocol :: string
  username :: string
  password :: string
  hostname :: string
  port :: string
  pathname :: string
  search :: string
  hash :: string

definition url_origin :: "URL \<Rightarrow> string" where
  "url_origin u = protocol u @ ''//'' @ hostname u @ (if port u = [] then [] else '':'' @ port u)"

text \<open>\<open>url.toString()\<close> for the schemes with an authority.\<close>

definition url_href :: "URL \<Rightarrow> string" where
  "url_href u = protocol u @ ''//''
     @ (if username u = [] \<and> password u = [] then []
        else username u @ (if password u = [] then [] else '':'' @ password u) @ ''@'')
     @ hostname u @ (if port u = [] then [] else '':'' @ port u) @ pathname u @ search u @ hash u"

definition hostIsAllowed :: "string \<Rightarrow> string list \<Rightarrow> bool" where
  "hostIsAllowed host allowedHosts =
     (let h = to_lower host in
      list_ex (\<lambda>entry.
        (let allowed = to_lower entry in
         if starts_with ''*.'' allowed
         then (let suffix = drop 1 allowed in ends_with suffix h \<and> length suffix < length h)
         else h = allowed)) allowedHosts)"

definition connectorHttpError :: "string \<Rightarrow> string \<Rightarrow> thrown" where
  "connectorHttpError errcode message = ErrorInst ''ConnectorHttpError'' message [(''code'', JStr errcode)]"

definition is_http_error :: "thrown \<Rightarrow> bool" where
  "is_http_error e = (case e of ErrorInst cls _ _ \<Rightarrow> cls = ''ConnectorHttpError'' | _ \<Rightarrow> False)"

definition defaultOutboundTimeoutMs :: int where
  "defaultOutboundTimeoutMs = maxOperationTimeoutMs"

text \<open>The argument of \<open>fetchText\<close>: a text or a URL object.\<close>

datatype url_input = Text string | Parsed URL

definition parseOutboundURL :: "(string \<Rightarrow> URL option) \<Rightarrow> url_input \<Rightarrow> URL res" where
  "parseOutboundURL parse input =
     (case (case input of Parsed u \<Rightarrow> Some u | Text t \<Rightarrow> parse t) of
        Some u \<Rightarrow>
          (if protocol u \<noteq> ''https:'' \<or> username u \<noteq> [] \<or> password u \<noteq> []
           then Inl (connectorHttpError ''OUTBOUND_INVALID_URL'' ''Outbound URL is invalid.'')
           else Inr u)
      | None \<Rightarrow> Inl (connectorHttpError ''OUTBOUND_INVALID_URL'' ''Outbound URL is invalid.''))"

section \<open>Reading a body\<close>

type_synonym bytes = "nat list"

datatype read_event = Chunk bytes | Done | ReadError thrown

text \<open>A signal that knows why it aborts.\<close>

type_synonym abort_plan = "(time \<times> thrown) option"

definition plan_aborted :: "time \<Rightarrow> abort_plan \<Rightarrow> bool" where
  "plan_aborted now plan = (case plan of None \<Rightarrow> False | Some (t, _) \<Rightarrow> t \<le> now)"

definition abort_promise :: "time \<Rightarrow> abort_plan \<Rightarrow> 'a promise" where
  "abort_promise now plan = (case plan of None \<Rightarrow> Never | Some (t, e) \<Rightarrow> Settles (max now t) (Inl e))"

definition too_large :: thrown where
  "too_large = connectorHttpError ''OUTBOUND_RESPONSE_TOO_LARGE''
     ''Outbound response exceeded the configured byte limit.''"

text \<open>\<open>joined.set(chunk, offset)\<close> for each chunk in turn.\<close>

definition set_at :: "bytes \<Rightarrow> bytes \<Rightarrow> nat \<Rightarrow> bytes" where
  "set_at joined chunk offset = take offset joined @ chunk @ drop (offset + length chunk) joined"

fun join_from :: "bytes list \<Rightarrow> bytes \<Rightarrow> nat \<Rightarrow> bytes" where
  "join_from [] joined offset = joined"
| "join_from (c # cs) joined offset = join_from cs (set_at joined c offset) (offset + length c)"

definition joinChunks :: "bytes list \<Rightarrow> nat \<Rightarrow> bytes" where
  "joinChunks chunks totalBytes = join_from chunks (replicate totalBytes 0) 0"

text \<open>
  The loop over \<open>reader.read()\<close>. An abort cancels the reader, which ends a pending read; the check
  after the read then throws the reason. An exhausted list is a read that never returns.
\<close>

fun read_loop ::
    "int \<Rightarrow> abort_plan \<Rightarrow> (bytes \<Rightarrow> 'b) \<Rightarrow> time \<Rightarrow> (time \<times> read_event) list \<Rightarrow> bytes list \<Rightarrow> nat \<Rightarrow> 'b promise" where
  "read_loop maxBytes plan decode now [] chunks bytesRead = abort_promise now plan"
| "read_loop maxBytes plan decode now ((t, ev) # evs) chunks bytesRead =
     (if plan_aborted t plan then abort_promise now plan
      else case ev of
        ReadError e \<Rightarrow> Settles t (Inl e)
      | Done \<Rightarrow> Settles t (Inr (decode (joinChunks chunks bytesRead)))
      | Chunk value \<Rightarrow>
          (let bytesRead' = bytesRead + length value in
           if maxBytes < int bytesRead' then Settles t (Inl too_large)
           else read_loop maxBytes plan decode t evs (chunks @ [value]) bytesRead'))"

definition readBoundedText ::
    "time \<Rightarrow> (time \<times> read_event) list option \<Rightarrow> int \<Rightarrow> abort_plan \<Rightarrow> (bytes \<Rightarrow> string) \<Rightarrow> string promise" where
  "readBoundedText now body maxResponseBytes plan decode =
     (if maxResponseBytes < 0 then Settles now (Inl too_large)
      else case body of
        None \<Rightarrow> Settles now (Inr [])
      | Some events \<Rightarrow>
          (if plan_aborted now plan then abort_promise now plan
           else read_loop maxResponseBytes plan decode now events [] 0))"

section \<open>The client\<close>

record request_init =
  req_method :: string
  req_headers :: "(string \<times> string) list"
  req_body :: "string option"
  req_signal :: "abort_plan option"

record request =
  sent_url :: string
  sent_init :: request_init
  sent_redirect :: string

record fetch_response =
  res_status :: int
  res_headers :: "(string \<times> string) list"
  res_body :: "(time \<times> read_event) list option"

record ConnectorHttpResponse =
  rs_status :: int
  rs_headers :: "(string \<times> string) list"
  rs_body :: string

record http_platform =
  p_parse :: "string \<Rightarrow> URL option"
  p_fetch :: "time \<Rightarrow> request \<Rightarrow> fetch_response promise"
  p_decode :: "bytes \<Rightarrow> string"

record http_options =
  opt_hosts :: "string list"
  opt_max :: int
  opt_timeout :: int

definition isRedirectStatus :: "int \<Rightarrow> bool" where
  "isRedirectStatus s = (300 \<le> s \<and> s < 400)"

text \<open>\<open>createConnectorHttpClient\<close>: the checks of the options, with the default deadline.\<close>

definition createConnectorHttpClient :: "string list \<Rightarrow> jsval \<Rightarrow> jsval \<Rightarrow> http_options res" where
  "createConnectorHttpClient hosts maxBytes timeout =
     (let t = (if timeout = JUndef then JInt defaultOutboundTimeoutMs else timeout) in
      if \<not> budget_within maxOperationTimeoutMs t
      then Inl (connectorHttpError ''OUTBOUND_UNSUPPORTED_BUDGET''
                  ''Outbound timeout exceeds the runner budget contract.'')
      else if \<not> budget_within maxOperationResponseBytes maxBytes
      then Inl (connectorHttpError ''OUTBOUND_UNSUPPORTED_BUDGET''
                  ''Outbound response budget exceeds the runner budget contract.'')
      else Inr \<lparr>opt_hosts = hosts, opt_max = int_of maxBytes, opt_timeout = int_of t\<rparr>)"

definition outbound_timeout :: thrown where
  "outbound_timeout = connectorHttpError ''OUTBOUND_TIMEOUT''
     ''Outbound request exceeded the connector HTTP timeout.''"

fun first_plan :: "abort_plan list \<Rightarrow> abort_plan" where
  "first_plan [] = None"
| "first_plan (None # ps) = first_plan ps"
| "first_plan (Some (t, e) # ps) =
     (case first_plan ps of None \<Rightarrow> Some (t, e) | Some (u, f) \<Rightarrow> if u < t then Some (u, f) else Some (t, e))"

text \<open>The abort of the controller: the caller's signal, the execution's signal, the own timer.\<close>

definition controller_plan ::
    "ExecutionContext option \<Rightarrow> time \<Rightarrow> http_options \<Rightarrow> request_init \<Rightarrow> abort_plan" where
  "controller_plan context now opts init =
     first_plan ((case req_signal init of None \<Rightarrow> [] | Some p \<Rightarrow> [p])
       @ (case context of None \<Rightarrow> []
          | Some ctx \<Rightarrow> [map_option (\<lambda>t. (t, ThrownVal timeoutError)) (ctx_signal ctx)])
       @ [Some (now + opt_timeout opts, outbound_timeout)])"

text \<open>A promise of the platform under an abort: \<open>fetch\<close> rejects with the reason.\<close>

definition under_plan :: "time \<Rightarrow> abort_plan \<Rightarrow> 'a promise \<Rightarrow> 'a promise" where
  "under_plan now plan p =
     (case p of
        Never \<Rightarrow> abort_promise now plan
      | Settles t r \<Rightarrow> if plan_aborted t plan then abort_promise now plan else p)"

definition fetchText ::
    "http_platform \<Rightarrow> http_options \<Rightarrow> ExecutionContext option \<Rightarrow> time \<Rightarrow> url_input \<Rightarrow> request_init
     \<Rightarrow> request list \<Rightarrow> request list \<times> ConnectorHttpResponse promise" where
  "fetchText pf opts context now input init sent =
     (case parseOutboundURL (p_parse pf) input of
        Inl e \<Rightarrow> (sent, Settles now (Inl e))
      | Inr url \<Rightarrow>
          if \<not> hostIsAllowed (hostname url) (opt_hosts opts)
          then (sent, Settles now (Inl (connectorHttpError ''OUTBOUND_HOST_NOT_ALLOWED''
                  ''Outbound host is not allowed for this connector.'')))
          else let plan = controller_plan context now opts init in
            if plan_aborted now plan then (sent, abort_promise now plan)
            else let request = \<lparr>sent_url = url_href url, sent_init = init, sent_redirect = ''manual''\<rparr> in
              (sent @ [request],
               case under_plan now plan (p_fetch pf now request) of
                 Never \<Rightarrow> Never
               | Settles t (Inl e) \<Rightarrow> Settles t (Inl e)
               | Settles t (Inr response) \<Rightarrow>
                   if isRedirectStatus (res_status response)
                   then Settles t (Inl (connectorHttpError ''OUTBOUND_REDIRECT_BLOCKED''
                          ''Outbound redirects are blocked by the connector HTTP boundary.''))
                   else
                     (case readBoundedText t (res_body response) (opt_max opts) plan (p_decode pf) of
                        Never \<Rightarrow> Never
                      | Settles u (Inl e) \<Rightarrow> Settles u (Inl e)
                      | Settles u (Inr text) \<Rightarrow>
                          Settles u (Inr \<lparr>rs_status = res_status response,
                                          rs_headers = res_headers response, rs_body = text\<rparr>))))"

section \<open>Properties of the parts\<close>

lemma set_at_end: "length joined = offset + length rest \<Longrightarrow> length c \<le> length rest \<Longrightarrow>
  set_at (take offset joined @ rest) c offset = take offset joined @ c @ drop (length c) rest"
  by (simp add: set_at_def)

lemma join_from_concat:
  "length rest = sum_list (map length cs) \<Longrightarrow> join_from cs (pre @ rest) (length pre) = pre @ concat cs"
proof (induction cs arbitrary: pre rest)
  case Nil
  then show ?case by simp
next
  case (Cons c cs)
  have "set_at (pre @ rest) c (length pre) = (pre @ c) @ drop (length c) rest"
    by (simp add: set_at_def)
  with Cons.IH [of "drop (length c) rest" "pre @ c"] Cons.prems show ?case by simp
qed

lemma joinChunks_concat: "joinChunks cs (sum_list (map length cs)) = concat cs"
  using join_from_concat [of "replicate (sum_list (map length cs)) 0" cs "[]"] by (simp add: joinChunks_def)

lemma first_plan_earliest:
  "Some (t, e) \<in> set ps \<Longrightarrow> \<exists>u f. first_plan ps = Some (u, f) \<and> u \<le> t \<and> Some (u, f) \<in> set ps"
proof (induction ps rule: first_plan.induct)
  case (3 t' e' ps)
  show ?case
  proof (cases "first_plan ps")
    case None
    with 3 show ?thesis by auto
  next
    case (Some p)
    obtain u f where p: "p = (u, f)" by (cases p)
    have "(u, f) = (t', e') \<or> Some (u, f) \<in> set ps"
    proof (cases "Some (t, e) \<in> set ps")
      case True
      with 3 Some p show ?thesis by auto
    next
      case False
      have "first_plan qs = Some q \<Longrightarrow> Some q \<in> set qs" for qs q
        by (induction qs rule: first_plan.induct) (auto split: option.splits if_splits prod.splits)
      with Some p show ?thesis by blast
    qed
    with 3 Some p show ?thesis by auto
  qed
qed auto

lemma controller_plan_bounded:
  obtains u f where "controller_plan context now opts init = Some (u, f)" "u \<le> now + opt_timeout opts"
proof -
  have "\<exists>u f. controller_plan context now opts init = Some (u, f) \<and> u \<le> now + opt_timeout opts"
    using first_plan_earliest [of "now + opt_timeout opts" outbound_timeout
        "(case req_signal init of None \<Rightarrow> [] | Some p \<Rightarrow> [p])
         @ (case context of None \<Rightarrow> []
            | Some ctx \<Rightarrow> [map_option (\<lambda>t. (t, ThrownVal timeoutError)) (ctx_signal ctx)])
         @ [Some (now + opt_timeout opts, outbound_timeout)]"]
    by (auto simp: controller_plan_def)
  with that show thesis by blast
qed

text \<open>Reading ends by the abort, and a text that is returned was decoded from at most the allowed
  number of bytes.\<close>

lemma read_loop_result:
  assumes "read_loop maxBytes (Some (a, e)) decode now evs chunks n = p" and "now \<le> a"
    and "n = sum_list (map length chunks)" and "int n \<le> maxBytes"
  shows "\<exists>u r. p = Settles u r \<and> u \<le> a
     \<and> (\<forall>text. r = Inr text \<longrightarrow> (\<exists>bs. text = decode bs \<and> int (length bs) \<le> maxBytes))"
  using assms
proof (induction maxBytes "Some (a, e)" decode now evs chunks n rule: read_loop.induct)
  case (1 maxBytes decode now chunks n)
  then show ?case by (auto simp: abort_promise_def)
next
  case (2 maxBytes decode now t ev evs chunks n)
  show ?case
  proof (cases "plan_aborted t (Some (a, e))")
    case True
    with 2 show ?thesis by (auto simp: abort_promise_def)
  next
    case alive: False
    then have t: "t \<le> a" by (simp add: plan_aborted_def)
    show ?thesis
    proof (cases ev)
      case Done
      with 2 alive t joinChunks_concat [of chunks] show ?thesis
        by (auto simp: length_concat intro!: exI [of _ "joinChunks chunks n"])
    next
      case (Chunk bs)
      with 2 alive t show ?thesis by (cases "maxBytes < int (n + length bs)") auto
    next
      case (ReadError e')
      with 2 alive t show ?thesis by auto
    qed
  qed
qed

lemma fetchText_sent_cases:
  assumes "fetchText pf opts context now input init sent = (sent', p)"
  obtains "sent' = sent" "\<exists>t e. p = Settles t (Inl e)"
    | url where "sent' = sent @ [\<lparr>sent_url = url_href url, sent_init = init, sent_redirect = ''manual''\<rparr>]"
        "protocol url = ''https:''" "username url = []" "password url = []"
        "hostIsAllowed (hostname url) (opt_hosts opts)"
        "input = Parsed url \<or> (\<exists>t. input = Text t \<and> p_parse pf t = Some url)"
proof (cases "parseOutboundURL (p_parse pf) input")
  case (Inl e)
  with assms that(1) show thesis by (auto simp: fetchText_def)
next
  case (Inr url)
  then have url: "protocol url = ''https:''" "username url = []" "password url = []"
      "input = Parsed url \<or> (\<exists>t. input = Text t \<and> p_parse pf t = Some url)"
    by (auto simp: parseOutboundURL_def split: option.splits url_input.splits if_splits)
  obtain a e where plan: "controller_plan context now opts init = Some (a, e)"
    by (rule controller_plan_bounded)
  show thesis
  proof (cases "hostIsAllowed (hostname url) (opt_hosts opts) \<and> \<not> plan_aborted now (Some (a, e))")
    case True
    with assms Inr url plan that(2) show thesis by (auto simp: fetchText_def Let_def)
  next
    case False
    with assms Inr plan that(1) show thesis
      by (auto simp: fetchText_def Let_def abort_promise_def split: if_splits)
  qed
qed

text \<open>Every answer of the client is timely, small and no redirect.\<close>

lemma under_plan_settles:
  assumes "now \<le> a" and "under_plan now (Some (a, e)) p = q"
  obtains t r where "q = Settles t r" "t \<le> a" "r = Inl e \<or> t < a"
  using assms by (cases p) (auto simp: under_plan_def abort_promise_def plan_aborted_def split: if_splits)

lemma readBoundedText_result:
  assumes "readBoundedText now events maxBytes (Some (a, e)) decode = p" and "now < a" and "0 \<le> maxBytes"
    and "decode [] = []"
  shows "\<exists>u r. p = Settles u r \<and> u \<le> a
     \<and> (\<forall>text. r = Inr text \<longrightarrow> (\<exists>bs. text = decode bs \<and> int (length bs) \<le> maxBytes))"
proof (cases events)
  case None
  with assms show ?thesis by (auto simp: readBoundedText_def intro!: exI [of _ "[]"])
next
  case (Some evs)
  with assms have "read_loop maxBytes (Some (a, e)) decode now evs [] 0 = p"
    by (auto simp: readBoundedText_def plan_aborted_def)
  from read_loop_result [OF this] assms show ?thesis by auto
qed

lemma fetchText_answer:
  assumes "fetchText pf opts context now input init sent = (sent', p)"
    and "0 \<le> opt_max opts" and "0 \<le> opt_timeout opts" and "p_decode pf [] = []"
  shows "\<exists>t r. p = Settles t r \<and> t \<le> now + opt_timeout opts
     \<and> (\<forall>response. r = Inr response \<longrightarrow> \<not> isRedirectStatus (rs_status response)
          \<and> (\<exists>bs. rs_body response = p_decode pf bs \<and> int (length bs) \<le> opt_max opts))"
proof -
  obtain a e where plan: "controller_plan context now opts init = Some (a, e)" "a \<le> now + opt_timeout opts"
    by (rule controller_plan_bounded)
  show ?thesis
  proof (cases "\<exists>url. parseOutboundURL (p_parse pf) input = Inr url
                  \<and> hostIsAllowed (hostname url) (opt_hosts opts) \<and> now < a")
    case False
    with assms(1,3) plan show ?thesis
      by (auto simp: fetchText_def Let_def abort_promise_def plan_aborted_def split: sum.splits if_splits)
  next
    case True
    then obtain url where url: "parseOutboundURL (p_parse pf) input = Inr url"
        "hostIsAllowed (hostname url) (opt_hosts opts)" and now: "now < a"
      by blast
    let ?req = "\<lparr>sent_url = url_href url, sent_init = init, sent_redirect = ''manual''\<rparr>"
    obtain t r where q: "under_plan now (Some (a, e)) (p_fetch pf now ?req) = Settles t r" "t \<le> a"
        "r = Inl e \<or> t < a"
      by (rule under_plan_settles [OF less_imp_le [OF now] refl])
    have p: "p = (case r of Inl e \<Rightarrow> Settles t (Inl e)
      | Inr response \<Rightarrow>
         if isRedirectStatus (res_status response)
         then Settles t (Inl (connectorHttpError ''OUTBOUND_REDIRECT_BLOCKED''
                ''Outbound redirects are blocked by the connector HTTP boundary.''))
         else (case readBoundedText t (res_body response) (opt_max opts) (Some (a, e)) (p_decode pf) of
                 Never \<Rightarrow> Never
               | Settles u (Inl e) \<Rightarrow> Settles u (Inl e)
               | Settles u (Inr text) \<Rightarrow>
                   Settles u (Inr \<lparr>rs_status = res_status response,
                                   rs_headers = res_headers response, rs_body = text\<rparr>)))"
      using assms(1) url now plan(1) q(1)
      by (auto simp: fetchText_def Let_def plan_aborted_def split: sum.splits)
    show ?thesis
    proof (cases r)
      case (Inl f)
      with p q(2) plan(2) show ?thesis by simp
    next
      case (Inr response)
      with q(3) have "t < a" by simp
      from readBoundedText_result [where decode = "p_decode pf", OF refl this assms(2,4), of "res_body response" e]
      obtain u v where "readBoundedText t (res_body response) (opt_max opts) (Some (a, e)) (p_decode pf) = Settles u v"
          "u \<le> a" "\<forall>text. v = Inr text \<longrightarrow> (\<exists>bs. text = p_decode pf bs \<and> int (length bs) \<le> opt_max opts)"
        by blast
      with p Inr q(2) plan(2) show ?thesis by (auto split: sum.splits)
    qed
  qed
qed

section \<open>Theorems\<close>

text \<open>The allow list is a domain check. A host passes exactly if it equals an entry, up to case,
  or is a proper subdomain of the domain of a wildcard entry; the bare domain of a wildcard never
  passes by it, nor does a host that merely ends in the same letters.\<close>

theorem hostIsAllowed_iff:
  "hostIsAllowed host hosts \<longleftrightarrow>
     (\<exists>entry \<in> set hosts.
        (\<exists>domain sub. to_lower entry = ''*.'' @ domain \<and> sub \<noteq> [] \<and> to_lower host = sub @ ''.'' @ domain)
        \<or> \<not> starts_with ''*.'' (to_lower entry) \<and> to_lower host = to_lower entry)"
proof -
  have "(if starts_with ''*.'' allowed
         then (let suffix = drop 1 allowed in ends_with suffix h \<and> length suffix < length h)
         else h = allowed)
      \<longleftrightarrow> (\<exists>domain sub. allowed = ''*.'' @ domain \<and> sub \<noteq> [] \<and> h = sub @ ''.'' @ domain)
          \<or> \<not> starts_with ''*.'' allowed \<and> h = allowed" for allowed h
  proof (cases "starts_with ''*.'' allowed")
    case True
    then obtain domain where d: "allowed = ''*.'' @ domain"
      unfolding starts_with_prefix by (auto simp: prefix_def)
    have "ends_with (CHR ''.'' # domain) h \<longleftrightarrow> (\<exists>sub. h = sub @ ''.'' @ domain)"
      unfolding ends_with_def starts_with_prefix suffix_to_prefix [symmetric] suffix_def by simp
    with True d show ?thesis by (auto simp: starts_with_def)
  next
    case False
    then show ?thesis by (auto simp: starts_with_def)
  qed
  then show ?thesis unfolding hostIsAllowed_def Let_def list_ex_iff by simp
qed

text \<open>C7: the HTTP boundary confines every request. Whatever text or URL a connector passes, at most
  one request leaves, to an \<open>https\<close> URL without user information whose host the connector's allow list
  admits, with redirects left to the caller; and if anything is wrong nothing leaves.\<close>

theorem fetchText_confined:
  assumes "fetchText pf opts context now input init sent = (sent', p)"
  shows "sent' = sent \<and> (\<exists>t e. p = Settles t (Inl e))
    \<or> (\<exists>url. sent' = sent @ [\<lparr>sent_url = url_href url, sent_init = init, sent_redirect = ''manual''\<rparr>]
         \<and> protocol url = ''https:'' \<and> username url = [] \<and> password url = []
         \<and> hostIsAllowed (hostname url) (opt_hosts opts)
         \<and> (input = Parsed url \<or> (\<exists>t. input = Text t \<and> p_parse pf t = Some url)))"
  using assms by (rule fetchText_sent_cases) auto

definition example_url :: URL where
  "example_url = \<lparr>protocol = ''https:'', username = [], password = [], hostname = ''acme.recruitee.com'',
     port = [], pathname = ''/api'', search = [], hash = []\<rparr>"

definition example_platform :: http_platform where
  "example_platform = \<lparr>p_parse = (\<lambda>t. None),
     p_fetch = (\<lambda>t r. Settles (t + 5) (Inr \<lparr>res_status = 200, res_headers = [],
        res_body = Some [(t + 6, Chunk [104, 105]), (t + 7, Done)]\<rparr>)),
     p_decode = map char_of\<rparr>"

definition example_client :: http_options where
  "example_client = \<lparr>opt_hosts = [''*.recruitee.com''], opt_max = 10, opt_timeout = 1000\<rparr>"

abbreviation example_init :: request_init where
  "example_init \<equiv> \<lparr>req_method = ''GET'', req_headers = [], req_body = None, req_signal = None\<rparr>"

lemma example_fetch:
  "fetchText example_platform example_client None 0 (Parsed example_url) example_init []
     = ([\<lparr>sent_url = ''https://acme.recruitee.com/api'', sent_init = example_init, sent_redirect = ''manual''\<rparr>],
        Settles 7 (Inr \<lparr>rs_status = 200, rs_headers = [], rs_body = ''hi''\<rparr>))"
  by code_simp

theorem fetchText_confined_witness:
  "\<exists>url. sent_url \<lparr>sent_url = ''https://acme.recruitee.com/api'', sent_init = example_init,
            sent_redirect = ''manual''\<rparr> = url_href url
     \<and> protocol url = ''https:'' \<and> hostIsAllowed (hostname url) [''*.recruitee.com'']"
  using fetchText_confined [OF example_fetch] by (auto simp: example_client_def)

text \<open>Every answer of the HTTP client is timely and bounded. The call settles by its own timeout
  even if the provider stalls, a successful answer is not a redirect, and its body was decoded from
  at most the configured number of bytes.\<close>

theorem fetchText_bounded:
  assumes "createConnectorHttpClient hosts maxBytes timeout = Inr opts"
    and "fetchText pf opts context now input init sent = (sent', p)"
    and "p_decode pf [] = []"
  shows "\<exists>t r. p = Settles t r \<and> t \<le> now + maxOperationTimeoutMs
     \<and> (\<forall>response. r = Inr response \<longrightarrow> \<not> isRedirectStatus (rs_status response)
          \<and> (\<exists>bs. rs_body response = p_decode pf bs \<and> int (length bs) \<le> int_of maxBytes
                  \<and> int (length bs) \<le> maxOperationResponseBytes))"
proof -
  from assms(1) have b: "0 \<le> opt_max opts" "opt_max opts = int_of maxBytes"
      "opt_max opts \<le> maxOperationResponseBytes" "0 \<le> opt_timeout opts"
      "opt_timeout opts \<le> maxOperationTimeoutMs"
    by (auto simp: createConnectorHttpClient_def Let_def split: if_splits elim!: budget_withinE)
  from fetchText_answer [OF assms(2) b(1,4) assms(3)] b show ?thesis by fastforce
qed

theorem fetchText_bounded_witness:
  "\<exists>t r. Settles 7 (Inr \<lparr>rs_status = 200, rs_headers = [], rs_body = ''hi''\<rparr>) = Settles t r
     \<and> t \<le> 0 + maxOperationTimeoutMs
     \<and> (\<forall>response. r = Inr response \<longrightarrow> \<not> isRedirectStatus (rs_status response)
          \<and> (\<exists>bs. rs_body response = p_decode example_platform bs \<and> int (length bs) \<le> int_of (JInt 10)
                  \<and> int (length bs) \<le> maxOperationResponseBytes))"
proof -
  have c: "createConnectorHttpClient [''*.recruitee.com''] (JInt 10) (JInt 1000) = Inr example_client"
    by (simp add: createConnectorHttpClient_def example_client_def max_safe_def del: of_int_numeral)
  have d: "p_decode example_platform [] = []" by (simp add: example_platform_def)
  show ?thesis by (rule fetchText_bounded [OF c example_fetch d])
qed

end
