(* ===== verification/Request.thy ===== *)
theory Request
  imports Template Http
begin

text \<open>
  The request builder of \<open>runner/bun/src/declarative/compile.ts\<close>: URL, query, headers, body and the
  OpenAPI parameter styles. A manifest is JSON; its blocks \<open>http\<close> and \<open>request\<close> are values read with
  \<open>get\<close>, which is also optional chaining, and where the manifest types promise an array the model
  reads the elements of an array. Parsing of URLs and of query strings belongs to the platform.
\<close>

section \<open>Reading manifest values\<close>

definition nullish :: "jsval \<Rightarrow> jsval \<Rightarrow> jsval" where
  "nullish v d = (if v = JUndef \<or> v = JNull then d else v)"

definition truthy :: "jsval \<Rightarrow> bool" where
  "truthy v = (case v of
     JUndef \<Rightarrow> False | JNull \<Rightarrow> False | JBool b \<Rightarrow> b | JStr s \<Rightarrow> s \<noteq> []
   | JNum n \<Rightarrow> \<not> (n = NaN \<or> num_strict_eq n (Fin 0)) | _ \<Rightarrow> True)"

definition items_of :: "jsval \<Rightarrow> jsval list" where
  "items_of v = (case v of JArr xs \<Rightarrow> xs | _ \<Rightarrow> [])"

definition str_of :: "jsval \<Rightarrow> string" where
  "str_of v = (case v of JStr s \<Rightarrow> s | _ \<Rightarrow> [])"

definition stringify :: "jsval \<Rightarrow> string" where
  "stringify v = (case json_text v of Some t \<Rightarrow> t | None \<Rightarrow> ''undefined'')"

text \<open>\<open>typeof value === "object" ? JSON.stringify(value) : String(value)\<close>.\<close>

definition wire_text :: "jsval \<Rightarrow> string" where
  "wire_text v = (case v of
     JObj _ \<Rightarrow> stringify v | JArr _ \<Rightarrow> stringify v | JNull \<Rightarrow> stringify v | _ \<Rightarrow> to_str v)"

record DeclarativeParameter =
  wireName :: string
  inputName :: string
  p_location :: string
  p_style :: string
  explode :: bool
  allowReserved :: bool
  contentMediaType :: string

definition to_parameter :: "jsval \<Rightarrow> DeclarativeParameter" where
  "to_parameter v =
     \<lparr>wireName = str_of (get v ''wireName''), inputName = str_of (get v ''inputName''),
      p_location = str_of (get v ''in''), p_style = str_of (get v ''style''),
      explode = (get v ''explode'' = JBool True), allowReserved = (get v ''allowReserved'' = JBool True),
      contentMediaType = str_of (get v ''contentMediaType'')\<rparr>"

definition parameters_in :: "string \<Rightarrow> jsval \<Rightarrow> DeclarativeParameter list" where
  "parameters_in location request =
     filter (\<lambda>p. p_location p = location) (map to_parameter (items_of (get request ''parameters'')))"

section \<open>Parameter styles\<close>

definition parameterPart :: "jsval \<Rightarrow> string" where
  "parameterPart v = (if is_record v then stringify v else to_str v)"

definition serializeContentParameter :: "DeclarativeParameter \<Rightarrow> jsval \<Rightarrow> string" where
  "serializeContentParameter parameter v =
     (let mediaType = to_lower (trim (hd (split_on (CHR '';'') (contentMediaType parameter)))) in
      if mediaType = ''application/json'' \<or> ends_with ''+json'' mediaType
      then (case json_text v of Some t \<Rightarrow> t | None \<Rightarrow> to_str v)
      else parameterPart v)"

definition encode_part :: "jsval \<Rightarrow> string" where
  "encode_part v = encode_uri (parameterPart v)"

definition pair_text :: "string \<times> jsval \<Rightarrow> string" where
  "pair_text p = encode_uri (fst p) @ ''='' @ encode_part (snd p)"

definition flat_pairs :: "props \<Rightarrow> string list" where
  "flat_pairs ps = concat (map (\<lambda>(k, v). [encode_uri k, encode_part v]) ps)"

definition serializePathParameter :: "DeclarativeParameter \<Rightarrow> jsval \<Rightarrow> string" where
  "serializePathParameter parameter v =
     (if contentMediaType parameter \<noteq> [] then encode_uri (serializeContentParameter parameter v)
      else let name = encode_uri (wireName parameter);
               matrix = (p_style parameter = ''matrix'');
               label = (p_style parameter = ''label'')
        in case v of
          JArr xs \<Rightarrow>
            (let encodedItems = map encode_part xs in
             if matrix then
               (if explode parameter then concat (map (\<lambda>i. '';'' @ name @ ''='' @ i) encodedItems)
                else '';'' @ name @ ''='' @ join '','' encodedItems)
             else if label then ''.'' @ join ''.'' encodedItems
             else join '','' encodedItems)
        | JObj ps \<Rightarrow>
            (if matrix then
               (if explode parameter then concat (map (\<lambda>p. '';'' @ pair_text p) ps)
                else '';'' @ name @ ''='' @ join '','' (flat_pairs ps))
             else if label then
               (if explode parameter then ''.'' @ join ''.'' (map pair_text ps)
                else ''.'' @ join ''.'' (flat_pairs ps))
             else if explode parameter then join '','' (map pair_text ps)
             else join '','' (flat_pairs ps))
        | _ \<Rightarrow>
            (if matrix then '';'' @ name @ ''='' @ encode_part v
             else if label then ''.'' @ encode_part v
             else encode_part v))"

definition restore_escape :: "string \<Rightarrow> string \<Rightarrow> string \<Rightarrow> string" where
  "restore_escape escape plain s =
     replace_by (\<lambda>_ r. if to_lower (take 3 r) = escape then 3 else 0) plain None s"

definition RESERVED_ESCAPES :: "(string \<times> string) list" where
  "RESERVED_ESCAPES =
     [(''%3a'', '':''), (''%2f'', ''/''), (''%3f'', ''?''), (''%5b'', ''[''), (''%5d'', '']''),
      (''%40'', ''@''), (''%24'', ''$''), (''%26'', ''&''), (''%2b'', ''+''), (''%2c'', '',''),
      (''%3b'', '';''), (''%3d'', ''='')]"

definition encodeQueryComponent :: "string \<Rightarrow> bool \<Rightarrow> string" where
  "encodeQueryComponent v reserved =
     (let encoded = encode_uri v in
      if \<not> reserved then encoded
      else foldl (\<lambda>s (escape, plain). restore_escape escape plain s) encoded RESERVED_ESCAPES)"

record SerializedQuery =
  sq_key :: string
  sq_value :: string
  keyAlreadyEncoded :: bool

definition serializeQueryParameter :: "DeclarativeParameter \<Rightarrow> jsval \<Rightarrow> SerializedQuery list" where
  "serializeQueryParameter parameter v =
     (let encode = (\<lambda>part. encodeQueryComponent (parameterPart part) (allowReserved parameter));
          key = wireName parameter;
          plain = (\<lambda>k t. \<lparr>sq_key = k, sq_value = t, keyAlreadyEncoded = False\<rparr>)
      in if contentMediaType parameter \<noteq> []
         then [plain key (encodeQueryComponent (serializeContentParameter parameter v) (allowReserved parameter))]
         else case v of
           JArr xs \<Rightarrow>
             (let encodedItems = map encode xs in
              if p_style parameter = ''spaceDelimited'' then [plain key (join ''%20'' encodedItems)]
              else if p_style parameter = ''pipeDelimited'' then [plain key (join ''|'' encodedItems)]
              else if explode parameter then map (plain key) encodedItems
              else [plain key (join '','' encodedItems)])
         | JObj ps \<Rightarrow>
             (if p_style parameter = ''deepObject''
              then map (\<lambda>(property, item).
                     \<lparr>sq_key = encodeQueryComponent key False @ ''['' @ encodeQueryComponent property False @ '']'',
                      sq_value = encode item, keyAlreadyEncoded = True\<rparr>) ps
              else if explode parameter then map (\<lambda>(property, item). plain property (encode item)) ps
              else [plain key (join '','' (concat (map (\<lambda>(property, item).
                      [encode (JStr property), encode item]) ps)))])
         | _ \<Rightarrow> [plain key (encode v)])"

definition serializeHeaderParameter :: "DeclarativeParameter \<Rightarrow> jsval \<Rightarrow> string" where
  "serializeHeaderParameter parameter v =
     (if contentMediaType parameter \<noteq> [] then serializeContentParameter parameter v
      else case v of
        JArr xs \<Rightarrow> join '','' (map parameterPart xs)
      | JObj ps \<Rightarrow>
          (if explode parameter then join '','' (map (\<lambda>(k, i). k @ ''='' @ parameterPart i) ps)
           else join '','' (concat (map (\<lambda>(k, i). [k, parameterPart i]) ps)))
      | _ \<Rightarrow> parameterPart v)"

definition headerTemplateKeyMatches :: "string \<Rightarrow> DeclarativeParameter \<Rightarrow> bool" where
  "headerTemplateKeyMatches key parameter =
     (to_lower key = to_lower (inputName parameter) \<or> to_lower key = to_lower (wireName parameter))"

definition lastParameterSegment :: "string \<Rightarrow> string" where
  "lastParameterSegment expression = last (split_on (CHR ''.'') expression)"

definition parameterInput :: "DeclarativeParameter \<Rightarrow> props \<Rightarrow> jsval" where
  "parameterInput parameter input =
     (if has_own input (inputName parameter) then prop_get input (inputName parameter)
      else resolvePath (inputName parameter) (JObj input))"

section \<open>The URL\<close>

text \<open>What the builder needs of the platform beyond the HTTP client: the pairs of a query string
  and the percent-encoding done by the setter \<open>url.search\<close>.\<close>

record request_platform = http_platform +
  p_params :: "string \<Rightarrow> (string \<times> string) list"
  p_search :: "string \<Rightarrow> string"

definition param_set :: "string \<Rightarrow> string \<Rightarrow> (string \<times> string) list \<Rightarrow> (string \<times> string) list" where
  "param_set k v kvs =
     (if k \<in> set (map fst kvs)
      then takeWhile (\<lambda>p. fst p \<noteq> k) kvs @ (k, v)
             # filter (\<lambda>p. fst p \<noteq> k) (tl (dropWhile (\<lambda>p. fst p \<noteq> k) kvs))
      else kvs @ [(k, v)])"

definition with_params ::
    "request_platform \<Rightarrow> ((string \<times> string) list \<Rightarrow> (string \<times> string) list) \<Rightarrow> URL \<Rightarrow> URL" where
  "with_params pf f u =
     (let kvs = f (p_params pf (drop 1 (search u))) in
      u\<lparr>search := (if kvs = [] then [] else ''?'' @ form_serialize kvs)\<rparr>)"

definition appendQuery :: "request_platform \<Rightarrow> URL \<Rightarrow> jsval \<Rightarrow> props \<Rightarrow> string list \<Rightarrow> URL" where
  "appendQuery pf url template input skipKeys =
     (if \<not> truthy template then url
      else case renderTemplate template (JObj input) of
        JObj rendered \<Rightarrow>
          foldl (\<lambda>u (key, v).
            if key \<in> set skipKeys then u
            else case v of
              JArr items \<Rightarrow> foldl (\<lambda>u item. with_params pf (\<lambda>kvs. kvs @ [(key, to_str item)]) u) u items
            | _ \<Rightarrow> with_params pf (param_set key (wire_text v)) u) url rendered
      | _ \<Rightarrow> url)"

text \<open>The \<open>key=value\<close> texts of the structured query parameters.\<close>

definition entry_text :: "SerializedQuery \<Rightarrow> string" where
  "entry_text e = (if keyAlreadyEncoded e then sq_key e else encodeQueryComponent (sq_key e) False)
     @ ''='' @ sq_value e"

definition serialized_entries :: "DeclarativeParameter list \<Rightarrow> props \<Rightarrow> SerializedQuery list" where
  "serialized_entries parameters input = concat (map (\<lambda>parameter.
     (let v = parameterInput parameter input in
      if v = JUndef \<or> v = JNull then [] else serializeQueryParameter parameter v)) parameters)"

definition appendSerializedQueryParameters ::
    "request_platform \<Rightarrow> URL \<Rightarrow> DeclarativeParameter list \<Rightarrow> props \<Rightarrow> URL" where
  "appendSerializedQueryParameters pf url parameters input =
     (let serialized = serialized_entries parameters input;
          query = join ''&'' (map entry_text serialized)
      in if serialized = [] then url
         else url\<lparr>search := p_search pf (if search url \<noteq> [] then search url @ ''&'' @ query else ''?'' @ query)\<rparr>)"

definition trimTrailingSlash :: "string \<Rightarrow> string" where
  "trimTrailingSlash s = (if ends_with ''/'' s then butlast s else s)"

definition parameter_path_value ::
    "DeclarativeParameter list \<Rightarrow> props \<Rightarrow> string \<Rightarrow> string res" where
  "parameter_path_value pathParameters input expression =
     (let parameter = find (\<lambda>c. inputName c = expression \<or> wireName c = expression) pathParameters;
          v = (case parameter of Some p \<Rightarrow> parameterInput p input
               | None \<Rightarrow> resolvePath expression (JObj input))
      in if is_absent v
         then Inl (Error (lastParameterSegment (case parameter of Some p \<Rightarrow> inputName p | None \<Rightarrow> expression)
                @ '' is required''))
         else Inr (case parameter of Some p \<Rightarrow> serializePathParameter p v
                   | None \<Rightarrow> encode_uri (to_str v)))"

definition renderRequestPath :: "string \<Rightarrow> jsval \<Rightarrow> props \<Rightarrow> string res" where
  "renderRequestPath path request input =
     (let pathParameters = parameters_in ''path'' request in
      if pathParameters = [] then renderPath path (JObj input)
      else sbind (subst_path path (parameter_path_value pathParameters input) 0 (scan path)) (\<lambda>renderedPath.
           sbind (assertSafePathSegments renderedPath) (\<lambda>_. Inr renderedPath)))"

definition auth_template :: "jsval \<Rightarrow> jsval" where
  "auth_template auth = nullish (get auth ''value'') (JStr (''{{'' @ to_str (get auth ''field'') @ ''}}''))"

definition buildURL :: "request_platform \<Rightarrow> jsval \<Rightarrow> jsval \<Rightarrow> props \<Rightarrow> URL res" where
  "buildURL pf http request input =
     (let rendered = renderTemplate (nullish (get request ''baseUrl'') (nullish (get http ''baseUrl'') (JStr [])))
                       (JObj input);
          baseUrl = str_of rendered
      in if baseUrl = [] then Inl (Error ''baseUrl is required'')
         else sbind (renderRequestPath (str_of (nullish (get request ''path'') (JStr []))) request input) (\<lambda>path.
           case p_parse pf (trimTrailingSlash baseUrl @ path) of
             None \<Rightarrow> Inl (ErrorInst ''TypeError'' ''Invalid URL'' [])
           | Some url \<Rightarrow>
               (let queryParameters = parameters_in ''query'' request;
                    u1 = appendQuery pf url (get http ''query'') input [];
                    u2 = appendQuery pf u1 (get request ''query'') input
                           (concat (map (\<lambda>p. [wireName p, inputName p]) queryParameters));
                    auth = get http ''auth'';
                    u3 = (if get auth ''in'' = JStr ''query'' \<and> truthy (get auth ''name'')
                          then let v = renderTemplate (auth_template auth) (JObj input)
                               in if v = JUndef then u2
                                  else with_params pf (param_set (to_str (get auth ''name'')) (to_str v)) u2
                          else u2)
                in Inr (appendSerializedQueryParameters pf u3 queryParameters input))))"

section \<open>Headers and body\<close>

definition put_rendered :: "(string \<Rightarrow> bool) \<Rightarrow> props \<Rightarrow> jsval \<Rightarrow> props" where
  "put_rendered skip headers rendered =
     (case rendered of
        JObj ps \<Rightarrow> foldl (\<lambda>h (k, v). if skip k then h else obj_put h k (JStr (wire_text v))) headers ps
      | _ \<Rightarrow> headers)"

definition renderBasicCredential :: "jsval \<Rightarrow> props \<Rightarrow> string \<Rightarrow> bool \<Rightarrow> string res" where
  "renderBasicCredential template input label allowLiteralEmpty =
     (case renderTemplate template (JObj input) of
        JStr v \<Rightarrow>
          (if v = [] \<and> \<not> (allowLiteralEmpty \<and> template = JStr [])
           then Inl (Error (''basic auth '' @ label @ '' is required'')) else Inr v)
      | _ \<Rightarrow> Inl (Error (''basic auth '' @ label @ '' is required'')))"

definition buildHeaders :: "jsval \<Rightarrow> jsval \<Rightarrow> props \<Rightarrow> props res" where
  "buildHeaders http request input =
     (let headerParameters = parameters_in ''header'' request;
          h1 = put_rendered (\<lambda>_. False) [] (renderTemplate (nullish (get http ''headers'') (JObj [])) (JObj input));
          h2 = put_rendered (\<lambda>k. list_ex (headerTemplateKeyMatches k) headerParameters) h1
                 (renderTemplate (nullish (get request ''headers'') (JObj [])) (JObj input));
          h3 = foldl (\<lambda>h p. let v = parameterInput p input in
                 if v = JUndef \<or> v = JNull then h
                 else obj_put h (wireName p) (JStr (serializeHeaderParameter p v))) h2 headerParameters;
          auth = get http ''auth'';
          basic = get auth ''basic''
      in if truthy basic
         then sbind (renderBasicCredential (get basic ''username'') input ''username'' False) (\<lambda>username.
              sbind (renderBasicCredential (get basic ''password'') input ''password'' True) (\<lambda>password.
              if CHR '':'' \<in> set username then Inl (Error ''basic auth username must not contain a colon'')
              else Inr (obj_put h3 ''Authorization''
                     (JStr (''Basic '' @ base64 (username @ '':'' @ password))))))
         else if truthy auth \<and> nullish (get auth ''in'') (JStr ''header'') = JStr ''header'' \<and> truthy (get auth ''name'')
         then let v = renderTemplate (auth_template auth) (JObj input)
              in Inr (if v = JUndef then h3 else obj_put h3 (to_str (get auth ''name'')) (JStr (to_str v)))
         else Inr h3)"

definition form_error :: "string \<Rightarrow> thrown" where
  "form_error key = Error (''form body field '' @ key @ '' must be a string, boolean, or finite number'')"

definition assertFormScalar :: "string \<Rightarrow> jsval \<Rightarrow> unit res" where
  "assertFormScalar key v =
     (case v of
        JStr _ \<Rightarrow> Inr () | JBool _ \<Rightarrow> Inr ()
      | JNum n \<Rightarrow> guard (is_finite n) (form_error key)
      | _ \<Rightarrow> Inl (form_error key))"

definition form_template_check :: "props \<Rightarrow> string \<times> jsval \<Rightarrow> unit res" where
  "form_template_check input = (\<lambda>(key, template).
     (case template of
        JStr t \<Rightarrow>
          (case whole_value t of
             Some e \<Rightarrow> (let v = resolvePath e (JObj input) in
                        if v = JUndef then Inr () else assertFormScalar key v)
           | None \<Rightarrow> if contains ''{{'' t then Inl (form_error key) else assertFormScalar key template)
      | JObj _ \<Rightarrow> Inl (form_error key)
      | JArr _ \<Rightarrow> Inl (form_error key)
      | JNull \<Rightarrow> Inl (form_error key)
      | _ \<Rightarrow> assertFormScalar key template))"

definition buildBody :: "jsval \<Rightarrow> props \<Rightarrow> string option res" where
  "buildBody request input =
     (let template = get request ''body'';
          rendered = renderTemplate template (JObj input);
          encoding = get request ''bodyEncoding''
      in if template = JUndef then Inr None
         else if encoding = JStr ''raw'' then
           (case rendered of
              JUndef \<Rightarrow> Inr None | JNull \<Rightarrow> Inr None
            | JStr t \<Rightarrow> Inr (Some t)
            | _ \<Rightarrow> Inl (Error ''raw body must render to a string''))
         else if encoding = JStr ''form'' then
           (case rendered of
              JObj ps \<Rightarrow>
                sbind (for_each (form_template_check input) (props_of template)) (\<lambda>_.
                sbind (for_each (\<lambda>(key, v). if v = JUndef then Inr () else assertFormScalar key v) ps) (\<lambda>_.
                Inr (Some (form_serialize (foldl (\<lambda>kvs (key, v).
                  if v = JUndef then kvs else param_set key (to_str v) kvs) [] ps)))))
            | _ \<Rightarrow> Inl (Error ''form body must render to a plain object''))
         else if rendered = JUndef then Inr None
         else Inr (json_text rendered))"

text \<open>\<open>new Headers(headers).get("content-type")\<close>: names are compared without case and values of
  equal names are joined; an illegal name or value throws.\<close>

definition is_token_char :: "char \<Rightarrow> bool" where
  "is_token_char c = (is_alnum c \<or> c \<in> set (''!#$%&'' @ [CHR 0x27] @ ''*+-.^_`|~''))"

definition is_http_ws :: "char \<Rightarrow> bool" where
  "is_http_ws c = (code c \<in> set [9, 10, 13, 32])"

definition http_trim :: "string \<Rightarrow> string" where
  "http_trim s = rev (dropWhile is_http_ws (rev (dropWhile is_http_ws s)))"

definition valid_header :: "string \<times> jsval \<Rightarrow> bool" where
  "valid_header h = (fst h \<noteq> [] \<and> list_all is_token_char (fst h)
     \<and> list_all (\<lambda>c. code c \<notin> set [0, 10, 13]) (http_trim (to_str (snd h))))"

definition header_value :: "string \<Rightarrow> props \<Rightarrow> string option res" where
  "header_value name headers =
     (if list_all valid_header headers
      then Inr (case filter (\<lambda>h. to_lower (fst h) = name) headers of
             [] \<Rightarrow> None
           | hs \<Rightarrow> Some (join '', '' (map (\<lambda>h. http_trim (to_str (snd h))) hs)))
      else Inl (ErrorInst ''TypeError'' ''Invalid header'' []))"

definition assertBodyEncodingManifest :: "jsval \<Rightarrow> jsval \<Rightarrow> unit res" where
  "assertBodyEncodingManifest manifest request =
     (let encoding = get request ''bodyEncoding'';
          expected = (if encoding = JStr ''form'' then ''application/x-www-form-urlencoded''
                      else ''application/octet-stream'');
          effective = map_of (rev (map (\<lambda>(k, v). (to_lower k, v))
             (props_of (get (get manifest ''http'') ''headers'') @ props_of (get request ''headers''))))
      in if encoding \<noteq> JStr ''form'' \<and> encoding \<noteq> JStr ''raw'' then Inr ()
         else case effective ''content-type'' of
           Some (JStr t) \<Rightarrow>
             guard (to_lower t = expected) (Error (to_str (get manifest ''key'') @ '': ''
               @ to_str encoding @ '' body requires Content-Type '' @ expected))
         | _ \<Rightarrow> Inl (Error (to_str (get manifest ''key'') @ '': ''
               @ to_str encoding @ '' body requires Content-Type '' @ expected)))"

section \<open>No injection through parameters\<close>

lemma set_join: "set (join sep ws) \<subseteq> set sep \<union> (\<Union>w \<in> set ws. set w)"
  by (induction sep ws rule: join.induct) auto

lemma set_joinD: "c \<in> set (join sep ws) \<Longrightarrow> c \<in> set sep \<or> (\<exists>w \<in> set ws. c \<in> set w)"
  using set_join [of sep ws] by blast

lemma join_avoids: "c \<notin> set sep \<Longrightarrow> (\<And>w. w \<in> set ws \<Longrightarrow> c \<notin> set w) \<Longrightarrow> c \<notin> set (join sep ws)"
  using set_join [of sep ws] by blast

lemma encode_part_avoids: "c \<in> url_special \<Longrightarrow> c \<notin> set (encode_part v)"
  by (simp add: encode_part_def encode_uri_no_special)

lemma serializePathParameter_avoids:
  assumes "c \<in> {CHR ''/'', CHR ''?'', CHR ''#''}"
  shows "c \<notin> set (serializePathParameter parameter v)"
proof -
  have c: "c \<in> url_special" using assms by (auto simp: url_special_def)
  have sep: "c \<notin> set '';''" "c \<notin> set ''=''" "c \<notin> set '',''" "c \<notin> set ''.''"
    using assms by auto
  have pair: "c \<notin> set (pair_text p)" for p
    using c sep by (simp add: pair_text_def encode_part_avoids encode_uri_no_special)
  have flat: "w \<in> set (flat_pairs ps) \<Longrightarrow> c \<notin> set w" for w ps
    using c by (auto simp: flat_pairs_def encode_part_avoids encode_uri_no_special)
  have joined: "c \<notin> set (join sp (map encode_part xs))" "c \<notin> set (join sp (map pair_text ps))"
    "c \<notin> set (join sp (flat_pairs ps))" if "sp = '','' \<or> sp = ''.''" for sp xs ps
    using that sep pair flat encode_part_avoids [OF c] by (auto dest!: set_joinD)
  note avoid = encode_uri_no_special [OF c] encode_part_avoids [OF c] sep pair joined
  show ?thesis
    using avoid by (cases v) (auto simp: serializePathParameter_def Let_def)
qed

lemma parameter_path_value_avoids:
  assumes "parameter_path_value ps input e = Inr r" and "c \<in> {CHR ''/'', CHR ''?'', CHR ''#''}"
  shows "c \<notin> set r"
proof -
  have "c \<in> url_special" using assms(2) by (auto simp: url_special_def)
  with assms show ?thesis
    by (auto simp: parameter_path_value_def Let_def serializePathParameter_avoids encode_uri_no_special
        split: if_splits option.splits)
qed

lemma renderRequestPath_cases:
  assumes "renderRequestPath path request input = Inr r"
  obtains f where "subst_path path f 0 (scan path) = Inr r"
    "\<And>e v c. f e = Inr v \<Longrightarrow> c \<in> {CHR ''/'', CHR ''?'', CHR ''#''} \<Longrightarrow> c \<notin> set v"
    "list_all (\<lambda>s. \<not> is_dot_segment s) (split_on (CHR ''/'') r)"
proof (cases "parameters_in ''path'' request = []")
  case True
  with assms have "renderPath path (JObj input) = Inr r" by (simp add: renderRequestPath_def)
  then show thesis
    using that [of "path_value (JObj input)"] path_value_no_special
    by (auto simp: renderPath_Inr url_special_def)
next
  case False
  with assms show thesis
    using that [of "parameter_path_value (parameters_in ''path'' request) input"] parameter_path_value_avoids
    by (auto simp: renderRequestPath_def assertSafePathSegments_def res_simps list_ex_iff list_all_iff Let_def)
qed

text \<open>The entries of a query: neither a key nor a value can end its pair.\<close>

definition query_breaks :: "char set" where
  "query_breaks = {CHR ''&'', CHR ''='', CHR ''#''}"

lemma query_breaks_special: "c \<in> query_breaks \<Longrightarrow> c \<in> url_special"
  by (auto simp: query_breaks_def url_special_def)

lemma encodeQueryComponent_avoids:
  "c \<in> url_special \<Longrightarrow> \<not> reserved \<Longrightarrow> c \<notin> set (encodeQueryComponent v reserved)"
  by (simp add: encodeQueryComponent_def encode_uri_no_special)

lemma serializeQueryParameter_avoids:
  assumes "\<not> allowReserved parameter" and "e \<in> set (serializeQueryParameter parameter v)"
    and "c \<in> query_breaks"
  shows "c \<notin> set (sq_value e)" "keyAlreadyEncoded e \<Longrightarrow> c \<notin> set (sq_key e)"
proof -
  note c = query_breaks_special [OF assms(3)]
  have enc: "c \<notin> set (encodeQueryComponent t False)" for t
    by (rule encodeQueryComponent_avoids [OF c]) simp
  have sep: "c \<noteq> CHR ''%''" "c \<noteq> CHR ''2''" "c \<noteq> CHR ''0''" "c \<noteq> CHR ''|''" "c \<noteq> CHR '',''"
      "c \<noteq> CHR ''[''" "c \<noteq> CHR '']''"
    using assms(3) by (auto simp: query_breaks_def)
  show "c \<notin> set (sq_value e)"
    using assms(1,2) enc sep
    by (cases v) (auto simp: serializeQueryParameter_def Let_def split: if_splits dest!: set_joinD)
  show "keyAlreadyEncoded e \<Longrightarrow> c \<notin> set (sq_key e)"
    using assms(1,2) enc sep
    by (cases v) (auto simp: serializeQueryParameter_def Let_def split: if_splits)
qed

lemma entry_text_shape:
  assumes "\<forall>p \<in> set parameters. \<not> allowReserved p" and "e \<in> set (serialized_entries parameters input)"
  shows "CHR ''&'' \<notin> set (entry_text e)" "CHR ''#'' \<notin> set (entry_text e)"
    "count_list (entry_text e) (CHR ''='') = 1"
proof -
  from assms obtain p v where p: "\<not> allowReserved p" "e \<in> set (serializeQueryParameter p v)"
    by (auto simp: serialized_entries_def Let_def split: if_splits)
  let ?key = "if keyAlreadyEncoded e then sq_key e else encodeQueryComponent (sq_key e) False"
  have "c \<notin> set (sq_value e) \<and> c \<notin> set ?key" if "c \<in> query_breaks" for c
    using serializeQueryParameter_avoids [OF p that] query_breaks_special [OF that]
    by (simp add: encodeQueryComponent_avoids)
  then show "CHR ''&'' \<notin> set (entry_text e)" "CHR ''#'' \<notin> set (entry_text e)"
    "count_list (entry_text e) (CHR ''='') = 1"
    by (auto simp: entry_text_def query_breaks_def count_list_0_iff)
qed

lemma split_join:
  assumes "ws \<noteq> []" and "\<forall>w \<in> set ws. c \<notin> set w"
  shows "split_on c (join [c] ws) = ws"
proof -
  have one: "c \<notin> set w \<Longrightarrow> split_on c w = [w]" for w
    by (induction w) auto
  have more: "c \<notin> set w \<Longrightarrow> split_on c (w @ c # r) = w # split_on c r" for w r
    by (induction w) auto
  show ?thesis
    using assms by (induction "[c]" ws rule: join.induct) (auto simp: one more)
qed

section \<open>Theorems\<close>

text \<open>C40: OpenAPI path parameters cannot retarget a request either. Whatever the style, the explode
  flag and the shape of the input, the rendered path has exactly the separators, query marks and
  fragment marks of the manifest's path and no dot segment.\<close>

theorem renderRequestPath_no_injection:
  assumes "renderRequestPath path request input = Inr r"
  shows "(\<forall>c \<in> {CHR ''/'', CHR ''?'', CHR ''#''}. count_list r c = count_list path c)
    \<and> length (split_on (CHR ''/'') r) = length (split_on (CHR ''/'') path)
    \<and> list_all (\<lambda>segment. \<not> is_dot_segment segment) (split_on (CHR ''/'') r)"
proof -
  from assms obtain f where f: "subst_path path f 0 (scan path) = Inr r"
    "\<And>e v c. f e = Inr v \<Longrightarrow> c \<in> {CHR ''/'', CHR ''?'', CHR ''#''} \<Longrightarrow> c \<notin> set v"
    "list_all (\<lambda>s. \<not> is_dot_segment s) (split_on (CHR ''/'') r)"
    by (rule renderRequestPath_cases) blast
  have "count_list r c = count_list path c" if "c \<in> {CHR ''/'', CHR ''?'', CHR ''#''}" for c
    by (rule subst_scan_count [OF f(1)]) (use f(2) that in \<open>auto simp: url_special_def\<close>)
  with f(3) show ?thesis by (simp add: split_on_length)
qed

definition matrix_request :: jsval where
  "matrix_request = JObj [(''parameters'', JArr [JObj [(''wireName'', JStr ''id''), (''inputName'', JStr ''id''),
     (''in'', JStr ''path''), (''style'', JStr ''matrix''), (''explode'', JBool True)]])]"

theorem renderRequestPath_no_injection_witness:
  "renderRequestPath ''/files/{{id}}/raw'' matrix_request [(''id'', JArr [JStr ''a/b'', JStr ''../c''])]
     = Inr ''/files/;id=a%2Fb;id=..%2Fc/raw''
   \<and> length (split_on (CHR ''/'') ''/files/;id=a%2Fb;id=..%2Fc/raw'')
     = length (split_on (CHR ''/'') ''/files/{{id}}/raw'')"
proof -
  have h: "renderRequestPath ''/files/{{id}}/raw'' matrix_request [(''id'', JArr [JStr ''a/b'', JStr ''../c''])]
     = Inr ''/files/;id=a%2Fb;id=..%2Fc/raw''"
    by code_simp
  show ?thesis using h renderRequestPath_no_injection [OF h] by blast
qed

text \<open>a structured query parameter stays within its pair. Unless the manifest allows reserved
  characters, splitting the appended query at its ampersands gives back one text per serialized
  entry, each with exactly one equals sign and no fragment mark, for every style and every input.\<close>

theorem serialized_query_pairs:
  assumes "\<forall>p \<in> set parameters. \<not> allowReserved p" and "serialized_entries parameters input \<noteq> []"
  shows "split_on (CHR ''&'') (join ''&'' (map entry_text (serialized_entries parameters input)))
           = map entry_text (serialized_entries parameters input)
       \<and> (\<forall>e \<in> set (serialized_entries parameters input).
            count_list (entry_text e) (CHR ''='') = 1 \<and> CHR ''#'' \<notin> set (entry_text e))"
  using split_join [of "map entry_text (serialized_entries parameters input)" "CHR ''&''"]
    entry_text_shape [OF assms(1)] assms(2) by auto

theorem serialized_query_pairs_witness:
  "split_on (CHR ''&'') ''tag=a%26b%3D1&tag=c%23'' = [''tag=a%26b%3D1'', ''tag=c%23'']"
proof -
  let ?p = "to_parameter (JObj [(''wireName'', JStr ''tag''), (''inputName'', JStr ''tag''),
     (''in'', JStr ''query''), (''style'', JStr ''form''), (''explode'', JBool True)])"
  let ?i = "[(''tag'', JArr [JStr ''a&b=1'', JStr ''c#''])]"
  have e: "map entry_text (serialized_entries [?p] ?i) = [''tag=a%26b%3D1'', ''tag=c%23'']"
    by code_simp
  have "\<forall>p \<in> set [?p]. \<not> allowReserved p" by code_simp
  moreover have "serialized_entries [?p] ?i \<noteq> []" using e by (cases "serialized_entries [?p] ?i") auto
  ultimately show ?thesis using serialized_query_pairs [of "[?p]" ?i] by (simp add: e)
qed

end
