(* ===== verification/Validate.thy ===== *)
theory Validate
  imports Template
begin

text \<open>
  \<open>runner/bun/src/declarative/validate.ts\<close>: the validator of declarative operations that have no
  strict schema (\<open>validateAgainstSchema\<close>) and the check of provider responses against a declared
  output schema (\<open>assertOutputSchema\<close>).

  The lemmas characterise acceptance: which inputs pass, that the validated record holds exactly
  the declared and present fields of the input, and that the response check stops on every schema.
\<close>

section \<open>Types and enumerations\<close>

definition declaredTypes :: "jsval \<Rightarrow> string list" where
  "declaredTypes property =
     (case get property ''type'' of
        JStr t \<Rightarrow> [t]
      | JArr ts \<Rightarrow> concat (map (\<lambda>t. case t of JStr s \<Rightarrow> [s] | _ \<Rightarrow> []) ts)
      | _ \<Rightarrow> [])"

definition matchesType :: "jsval \<Rightarrow> string \<Rightarrow> bool" where
  "matchesType value type =
     (if type = ''string'' then (case value of JStr _ \<Rightarrow> True | _ \<Rightarrow> False)
      else if type = ''number'' then (case value of JNum n \<Rightarrow> is_finite n | _ \<Rightarrow> False)
      else if type = ''integer'' then (case value of JNum n \<Rightarrow> is_integer n | _ \<Rightarrow> False)
      else if type = ''boolean'' then (case value of JBool _ \<Rightarrow> True | _ \<Rightarrow> False)
      else if type = ''array'' then (case value of JArr _ \<Rightarrow> True | _ \<Rightarrow> False)
      else if type = ''object'' then is_record value
      else if type = ''null'' then value = JNull
      else True)"

definition article :: "string \<Rightarrow> string" where
  "article type = (if type = ''array'' \<or> type = ''integer'' \<or> type = ''object'' then ''an'' else ''a'')"

definition describeTypes :: "string list \<Rightarrow> string" where
  "describeTypes types = join '' or '' (map (\<lambda>t. article t @ '' '' @ t) types)"

definition assertType :: "string \<Rightarrow> jsval \<Rightarrow> jsval \<Rightarrow> unit res" where
  "assertType key value property =
     (let types = declaredTypes property in
      guard (types = [] \<or> list_ex (matchesType value) types)
        (Error (key @ '' must be '' @ describeTypes types)))"

text \<open>
  \<open>Array.prototype.includes\<close>. The option and the value come from different documents, so two
  objects or arrays are never the same reference.
\<close>

fun same_value_zero :: "jsval \<Rightarrow> jsval \<Rightarrow> bool" where
  "same_value_zero (JNum a) (JNum b) = num_same_zero a b"
| "same_value_zero (JArr _) _ = False"
| "same_value_zero (JObj _) _ = False"
| "same_value_zero a b = (a = b)"

definition assertEnum :: "string \<Rightarrow> jsval \<Rightarrow> jsval \<Rightarrow> unit res" where
  "assertEnum key value property =
     (case get property ''enum'' of
        JArr options \<Rightarrow>
          guard (options = [] \<or> list_ex (\<lambda>x. same_value_zero x value) options)
            (Error (key @ '' must be one of: '' @ join '', '' (map to_str options)))
      | _ \<Rightarrow> Inr ())"

section \<open>The validator of declarative inputs\<close>

definition schema_props :: "jsval \<Rightarrow> props" where
  "schema_props schema = props_of (get schema ''properties'')"

definition schema_required :: "jsval \<Rightarrow> string list" where
  "schema_required schema =
     (case get schema ''required'' of
        JArr ks \<Rightarrow> concat (map (\<lambda>k. case k of JStr s \<Rightarrow> [s] | _ \<Rightarrow> []) ks)
      | _ \<Rightarrow> [])"

fun validate_props :: "props \<Rightarrow> props \<Rightarrow> props \<Rightarrow> props res" where
  "validate_props input [] acc = Inr acc"
| "validate_props input ((key, raw) # rest) acc =
     (let value = prop_get input key in
      if is_absent value then validate_props input rest acc
      else (let property = (if is_record raw then raw else JObj []) in
            sbind (assertType key value property) (\<lambda>_.
            sbind (assertEnum key value property) (\<lambda>_.
            validate_props input rest (obj_put acc key value)))))"

definition validateAgainstSchema :: "jsval \<Rightarrow> jsval \<Rightarrow> props res" where
  "validateAgainstSchema input schema =
     (case input of
        JObj ps \<Rightarrow>
          sbind (for_each (\<lambda>key. guard (\<not> is_absent (prop_get ps key)) (Error (key @ '' is required'')))
                  (schema_required schema)) (\<lambda>_.
          validate_props ps (schema_props schema) [])
      | _ \<Rightarrow> Inl (Error ''input must be an object''))"

section \<open>The check of provider responses\<close>

text \<open>
  \<open>fuel\<close> is \<open>65 - depth\<close>: the source throws when \<open>depth > 64\<close>, and every recursive call goes one
  level deeper.
\<close>

primrec assert_output :: "nat \<Rightarrow> jsval \<Rightarrow> jsval \<Rightarrow> unit res" where
  "assert_output 0 schema value = Inl (Error ''Schema nesting exceeds limit'')"
| "assert_output (Suc fuel) schema value =
     sbind (assertType ''response'' value schema) (\<lambda>_.
     sbind (assertEnum ''response'' value schema) (\<lambda>_.
     sbind (case (value, get schema ''minLength'') of
              (JStr s, JNum n) \<Rightarrow> guard (\<not> num_lt (Fin (of_nat (length s))) n) (Error ''String too short'')
            | _ \<Rightarrow> Inr ()) (\<lambda>_.
     sbind (case value of
              JObj ps \<Rightarrow>
                (let properties = schema_props schema in
                 sbind (for_each (\<lambda>key. guard (prop_get ps key \<noteq> JUndef) (Error ''Missing property''))
                         (schema_required schema)) (\<lambda>_.
                 for_each (\<lambda>(key, child).
                     if is_record (prop_get properties key)
                     then assert_output fuel (prop_get properties key) child
                     else guard (get schema ''additionalProperties'' \<noteq> JBool False)
                            (Error ''Unexpected property'')) ps))
            | _ \<Rightarrow> Inr ()) (\<lambda>_.
     (case value of
        JArr xs \<Rightarrow>
          if is_record (get schema ''items'')
          then for_each (assert_output fuel (get schema ''items'')) xs else Inr ()
      | _ \<Rightarrow> Inr ())))))"

definition assertOutputSchema :: "jsval \<Rightarrow> jsval \<Rightarrow> unit res" where
  "assertOutputSchema value schema = assert_output 65 schema value"

section \<open>What the validators accept\<close>

definition type_ok :: "jsval \<Rightarrow> jsval \<Rightarrow> bool" where
  "type_ok property value \<longleftrightarrow>
     declaredTypes property = [] \<or> (\<exists>t \<in> set (declaredTypes property). matchesType value t)"

definition enum_ok :: "jsval \<Rightarrow> jsval \<Rightarrow> bool" where
  "enum_ok property value \<longleftrightarrow>
     (\<forall>opts. get property ''enum'' = JArr opts \<longrightarrow> opts \<noteq> [] \<longrightarrow> (\<exists>x \<in> set opts. same_value_zero x value))"

lemma assertType_Inr: "assertType key value property = Inr u \<longleftrightarrow> type_ok property value"
  by (auto simp: assertType_def Let_def res_simps type_ok_def list_ex_iff)

lemma assertEnum_Inr: "assertEnum key value property = Inr u \<longleftrightarrow> enum_ok property value"
  by (auto simp: assertEnum_def res_simps enum_ok_def list_ex_iff split: jsval.splits)

definition record_or_empty :: "jsval \<Rightarrow> jsval" where
  "record_or_empty raw = (if is_record raw then raw else JObj [])"

lemma validate_props_Inr:
  "validate_props input decl acc = Inr out \<longleftrightarrow>
     (\<forall>(k, raw) \<in> set decl. \<not> is_absent (prop_get input k) \<longrightarrow>
        type_ok (record_or_empty raw) (prop_get input k) \<and> enum_ok (record_or_empty raw) (prop_get input k))
     \<and> out = put_all acc (map (\<lambda>(k, _). (k, prop_get input k))
               (filter (\<lambda>(k, _). \<not> is_absent (prop_get input k)) decl))"
  by (induction input decl acc rule: validate_props.induct)
     (auto simp: Let_def res_simps assertType_Inr assertEnum_Inr record_or_empty_def)

definition legacy_accepts :: "props \<Rightarrow> jsval \<Rightarrow> bool" where
  "legacy_accepts ps schema \<longleftrightarrow>
     (\<forall>k \<in> set (schema_required schema). \<not> is_absent (prop_get ps k)) \<and>
     (\<forall>(k, raw) \<in> set (schema_props schema). \<not> is_absent (prop_get ps k) \<longrightarrow>
        type_ok (record_or_empty raw) (prop_get ps k) \<and> enum_ok (record_or_empty raw) (prop_get ps k))"

lemma validateAgainstSchema_Inr:
  "validateAgainstSchema input schema = Inr out \<longleftrightarrow>
     (\<exists>ps. input = JObj ps \<and> legacy_accepts ps schema \<and>
       out = put_all [] (map (\<lambda>(k, _). (k, prop_get ps k))
               (filter (\<lambda>(k, _). \<not> is_absent (prop_get ps k)) (schema_props schema))))"
  by (cases input) (auto simp: validateAgainstSchema_def res_simps validate_props_Inr legacy_accepts_def)

lemma distinct_map_filter_fst:
  "distinct (map fst decl) \<Longrightarrow>
   distinct (map fst (map (\<lambda>(k, _). (k, f k)) (filter (\<lambda>(k, _). P k) decl)))"
  by (induction decl) (auto intro: rev_image_eqI)

lemma map_of_map_filter_fst:
  "map_of (map (\<lambda>(k, _). (k, f k)) (filter (\<lambda>(k, _). P k) decl)) k =
     (if k \<in> fst ` set decl \<and> P k then Some (f k) else None)"
  by (induction decl) (auto intro: rev_image_eqI)

section \<open>Properties\<close>

text \<open>Acceptance by the declarative validator. It accepts exactly the records in which every
  required key is present and every present declared field has a declared type and an enumerated
  value; a value of any other shape is rejected.\<close>

theorem validateAgainstSchema_accepts:
  "is_ok (validateAgainstSchema input schema) \<longleftrightarrow> (\<exists>ps. input = JObj ps \<and> legacy_accepts ps schema)"
  by (auto simp: is_ok_iff validateAgainstSchema_Inr)

text \<open>The validated record holds the declared, present fields of the input with their values and
  nothing else.\<close>

theorem validateAgainstSchema_output:
  assumes "validateAgainstSchema (JObj ps) schema = Inr out"
    and "distinct (map fst (schema_props schema))" and "k \<noteq> ''__proto__''"
  shows "map_of out k =
    (if k \<in> fst ` set (schema_props schema) \<and> \<not> is_absent (prop_get ps k)
     then Some (prop_get ps k) else None)"
proof -
  from assms(1) have out: "out = put_all [] (map (\<lambda>(k, _). (k, prop_get ps k))
      (filter (\<lambda>(k, _). \<not> is_absent (prop_get ps k)) (schema_props schema)))"
    by (simp add: validateAgainstSchema_Inr)
  show ?thesis
    unfolding out
    by (simp only: map_of_put_all [OF distinct_map_filter_fst [OF assms(2)] assms(3)]
        map_of_map_filter_fst) simp
qed

definition example_schema :: jsval where
  "example_schema = JObj
     [(''type'', JStr ''object''),
      (''properties'', JObj [(''to'', JObj [(''type'', JStr ''string'')]),
                             (''count'', JObj [(''type'', JArr [JStr ''integer'', JStr ''null''])])]),
      (''required'', JArr [JStr ''to''])]"

theorem validateAgainstSchema_output_witness:
  "validateAgainstSchema (JObj [(''to'', JStr ''x''), (''extra'', JBool True)]) example_schema
     = Inr [(''to'', JStr ''x'')]
   \<and> map_of [(''to'', JStr ''x'')] ''extra'' = None"
proof -
  have h: "validateAgainstSchema (JObj [(''to'', JStr ''x''), (''extra'', JBool True)]) example_schema
     = Inr [(''to'', JStr ''x'')]"
    by code_simp
  have d: "distinct (map fst (schema_props example_schema))" and n: "''extra'' \<noteq> ''__proto__''"
    by code_simp+
  have "''extra'' \<notin> fst ` set (schema_props example_schema)" by code_simp
  with h validateAgainstSchema_output [OF h d n] show ?thesis by simp
qed

end
