(* ===== verification/Strict.thy ===== *)
theory Strict
  imports Validate
begin

text \<open>
  \<open>runner/bun/src/declarative/strict-schema.ts\<close>: the schema checker \<open>assertStrictSchema\<close> and the
  strict validator \<open>compileStrictValidator\<close>. A compiled node checker is \<open>check_node\<close> at its schema;
  it carries the node counter of the source through failing branches too, because \<open>ctx.nodes\<close> is
  shared and a caught branch does not restore it. \<open>fuel\<close> is \<open>65 - depth\<close> in both recursions.

  The validator is proved to implement the abstract predicate \<open>accepts\<close>, which has no counters, no
  messages and no order of evaluation, by a small logic of checkers (\<open>decides\<close>).
\<close>

section \<open>The schema checker\<close>

definition MAX_NODES :: nat where
  "MAX_NODES = 4096"

definition MAX_DEPTH :: nat where
  "MAX_DEPTH = 64"

definition forbidden :: "string list" where
  "forbidden = [''__proto__'', ''constructor'', ''prototype'']"

definition supported :: "string list" where
  "supported = [''type'', ''enum'', ''const'', ''properties'', ''required'', ''additionalProperties'',
     ''items'', ''minItems'', ''maxItems'', ''minLength'', ''maxLength'', ''minProperties'',
     ''maxProperties'', ''minimum'', ''maximum'', ''exclusiveMinimum'', ''exclusiveMaximum'',
     ''uniqueItems'', ''title'', ''description'', ''anyOf'', ''allOf'', ''oneOf'']"

definition COMBINATORS :: "string list" where
  "COMBINATORS = [''anyOf'', ''allOf'', ''oneOf'']"

definition MAX_COMBINATOR_BRANCHES :: nat where
  "MAX_COMBINATOR_BRANCHES = 64"

definition annotations :: "string list" where
  "annotations = [''default'', ''examples'', ''format'', ''$schema'', ''$id'', ''$comment'',
     ''readOnly'', ''writeOnly'', ''deprecated'']"

fun as_strings :: "jsval list \<Rightarrow> string list option" where
  "as_strings [] = Some []"
| "as_strings (JStr s # xs) = map_option ((#) s) (as_strings xs)"
| "as_strings (x # xs) = None"

definition schema_types :: "jsval \<Rightarrow> string list res" where
  "schema_types types =
     (case types of
        JUndef \<Rightarrow> Inr []
      | JStr t \<Rightarrow> Inr [t]
      | JArr ts \<Rightarrow>
          (case as_strings ts of
             Some (s # ss) \<Rightarrow> Inr (s # ss)
           | _ \<Rightarrow> Inl (Error ''Invalid schema type''))
      | _ \<Rightarrow> Inl (Error ''Invalid schema type''))"

definition known_types :: "string list" where
  "known_types = [''string'', ''number'', ''integer'', ''boolean'', ''array'', ''object'', ''null'']"

definition is_count :: "jsval \<Rightarrow> bool" where
  "is_count v = (case v of JNum n \<Rightarrow> is_integer n \<and> \<not> num_lt n (Fin 0) | _ \<Rightarrow> False)"

definition is_limit_number :: "jsval \<Rightarrow> bool" where
  "is_limit_number v =
     (case v of JNum n \<Rightarrow> (case num_val n of Some r \<Rightarrow> \<bar>r\<bar> \<le> of_int max_safe | None \<Rightarrow> False)
      | _ \<Rightarrow> False)"

definition is_bool :: "jsval \<Rightarrow> bool" where
  "is_bool v = (case v of JBool _ \<Rightarrow> True | _ \<Rightarrow> False)"

text \<open>The checks of \<open>assertStrictSchema\<close> that do not descend, before and after \<open>properties\<close>.\<close>

definition key_allowed :: "bool \<Rightarrow> string \<Rightarrow> bool" where
  "key_allowed allowAnnotations key =
     (key \<in> set supported
      \<or> (allowAnnotations \<and> (key \<in> set annotations \<or> starts_with ''x-'' key)))"

definition local_checks :: "bool \<Rightarrow> props \<Rightarrow> unit res" where
  "local_checks allowAnnotations s =
     sbind (for_each (\<lambda>key. guard (key_allowed allowAnnotations key)
              (Error (''Unsupported strict-generated schema constraint: '' @ key))) (map fst s)) (\<lambda>_.
     sbind (schema_types (prop_get s ''type'')) (\<lambda>types.
     sbind (for_each (\<lambda>t. guard (t \<in> set known_types) (Error (''Invalid schema type: '' @ t))) types) (\<lambda>_.
     sbind (for_each (\<lambda>key. guard (prop_get s key = JUndef \<or> is_count (prop_get s key))
              (Error (key @ '' must be a non-negative integer'')))
              [''minItems'', ''maxItems'', ''minLength'', ''maxLength'', ''minProperties'', ''maxProperties'']) (\<lambda>_.
     sbind (for_each (\<lambda>key. guard (prop_get s key = JUndef \<or> is_limit_number (prop_get s key))
              (Error (key @ '' must be a finite safe number'')))
              [''minimum'', ''maximum'', ''exclusiveMinimum'', ''exclusiveMaximum'']) (\<lambda>_.
     sbind (guard (prop_get s ''uniqueItems'' = JUndef \<or> is_bool (prop_get s ''uniqueItems''))
              (Error ''uniqueItems must be a boolean'')) (\<lambda>_.
     sbind (guard (case prop_get s ''enum'' of JUndef \<Rightarrow> True | JArr xs \<Rightarrow> xs \<noteq> [] | _ \<Rightarrow> False)
              (Error ''enum must be a non-empty array'')) (\<lambda>_.
     sbind (guard (case prop_get s ''required'' of JUndef \<Rightarrow> True
                   | JArr xs \<Rightarrow> (case as_strings xs of Some ks \<Rightarrow> list_all (\<lambda>k. k \<notin> set forbidden) ks
                                | None \<Rightarrow> False)
                   | _ \<Rightarrow> False)
              (Error ''required must be an array of safe property names'')) (\<lambda>_.
     guard (prop_get s ''additionalProperties'' = JUndef \<or> is_bool (prop_get s ''additionalProperties'')
            \<or> is_record (prop_get s ''additionalProperties''))
       (Error ''additionalProperties must be boolean or schema'')))))))))"

text \<open>A loop over children that threads the node counter.\<close>

fun fold_nodes :: "('a \<Rightarrow> nat \<Rightarrow> thrown + nat) \<Rightarrow> 'a list \<Rightarrow> nat \<Rightarrow> thrown + nat" where
  "fold_nodes f [] n = Inr n"
| "fold_nodes f (x # xs) n = sbind (f x n) (fold_nodes f xs)"

primrec assert_schema :: "bool \<Rightarrow> nat \<Rightarrow> jsval \<Rightarrow> nat \<Rightarrow> thrown + nat" where
  "assert_schema ann 0 schema n =
     (if is_record schema then Inl (Error ''Schema nesting exceeds limit'')
      else Inl (Error ''Invalid strict-generated schema''))"
| "assert_schema ann (Suc fuel) schema n =
     (case schema of
        JObj s \<Rightarrow>
          sbind (guard (Suc n \<le> MAX_NODES) (Error ''Schema nesting exceeds limit'')) (\<lambda>_.
          sbind (local_checks ann s) (\<lambda>_.
          sbind (case prop_get s ''properties'' of
                   JObj children \<Rightarrow>
                     fold_nodes (\<lambda>(key, child) m.
                        sbind (guard (key \<notin> set forbidden) (Error ''Forbidden property name'')) (\<lambda>_.
                        assert_schema ann fuel child m)) children (Suc n)
                 | JUndef \<Rightarrow> Inr (Suc n)
                 | _ \<Rightarrow> Inl (Error ''properties must be an object'')) (\<lambda>n1.
          sbind (case prop_get s ''items'' of
                   JUndef \<Rightarrow> Inr n1
                 | JObj i \<Rightarrow> assert_schema ann fuel (JObj i) n1
                 | _ \<Rightarrow> Inl (Error ''items must be a schema'')) (\<lambda>n2.
          sbind (case prop_get s ''additionalProperties'' of
                   JObj a \<Rightarrow> assert_schema ann fuel (JObj a) n2
                 | _ \<Rightarrow> Inr n2) (\<lambda>n3.
          fold_nodes (\<lambda>key m.
             case prop_get s key of
               JUndef \<Rightarrow> Inr m
             | JArr branches \<Rightarrow>
                 sbind (guard (branches \<noteq> [] \<and> length branches \<le> MAX_COMBINATOR_BRANCHES)
                   (Error (key @ '' must be an array of 1-64 schemas''))) (\<lambda>_.
                 fold_nodes (\<lambda>branch m'.
                    sbind (guard (is_record branch) (Error (key @ '' branches must be schemas''))) (\<lambda>_.
                    assert_schema ann fuel branch m')) branches m)
             | _ \<Rightarrow> Inl (Error (key @ '' must be an array of 1-64 schemas''))) COMBINATORS n3)))))
      | _ \<Rightarrow> Inl (Error ''Invalid strict-generated schema''))"

definition assertStrictSchema :: "jsval \<Rightarrow> bool \<Rightarrow> unit res" where
  "assertStrictSchema schema allowAnnotations =
     sbind (assert_schema allowAnnotations (Suc MAX_DEPTH) schema 0) (\<lambda>_. Inr ())"

section \<open>Node checkers\<close>

text \<open>
  A checker runs with the node counter and may throw; the counter survives the throw.
\<close>

type_synonym chk = "nat \<Rightarrow> nat \<times> unit res"

definition limit_error :: thrown where
  "limit_error = ErrorInst ''InputLimitError'' ''Input nesting exceeds limit'' []"

definition is_limit :: "thrown \<Rightarrow> bool" where
  "is_limit e = (case e of ErrorInst cls _ _ \<Rightarrow> cls = ''InputLimitError'' | _ \<Rightarrow> False)"

definition chk_ok :: chk where
  "chk_ok n = (n, Inr ())"

definition chk_guard :: "bool \<Rightarrow> string \<Rightarrow> chk" where
  "chk_guard b msg n = (n, guard b (Error msg))"

definition chk_seq :: "chk \<Rightarrow> chk \<Rightarrow> chk" where
  "chk_seq a b n = (case a n of (m, Inl e) \<Rightarrow> (m, Inl e) | (m, Inr _) \<Rightarrow> b m)"

fun chk_each :: "('a \<Rightarrow> chk) \<Rightarrow> 'a list \<Rightarrow> chk" where
  "chk_each f [] = chk_ok"
| "chk_each f (x # xs) = chk_seq (f x) (chk_each f xs)"

text \<open>\<open>matches\<close>: a rejected branch is \<open>False\<close>, a limit propagates.\<close>

definition chk_matches :: "chk \<Rightarrow> nat \<Rightarrow> nat \<times> bool res" where
  "chk_matches a n =
     (case a n of
        (m, Inr _) \<Rightarrow> (m, Inr True)
      | (m, Inl e) \<Rightarrow> (m, if is_limit e then Inl e else Inr False))"

fun chk_any :: "chk list \<Rightarrow> nat \<Rightarrow> nat \<times> bool res" where
  "chk_any [] n = (n, Inr False)"
| "chk_any (a # as) n =
     (case chk_matches a n of
        (m, Inl e) \<Rightarrow> (m, Inl e)
      | (m, Inr True) \<Rightarrow> (m, Inr True)
      | (m, Inr False) \<Rightarrow> chk_any as m)"

text \<open>The number of matching branches, counted up to two.\<close>

fun chk_count :: "chk list \<Rightarrow> nat \<Rightarrow> nat \<Rightarrow> nat \<times> nat res" where
  "chk_count [] k n = (n, Inr k)"
| "chk_count (a # as) k n =
     (if 2 \<le> k then (n, Inr k)
      else (case chk_matches a n of
              (m, Inl e) \<Rightarrow> (m, Inl e)
            | (m, Inr b) \<Rightarrow> chk_count as (if b then Suc k else k) m))"

definition chk_some :: "chk list \<Rightarrow> string \<Rightarrow> chk" where
  "chk_some as msg n =
     (case chk_any as n of (m, Inl e) \<Rightarrow> (m, Inl e) | (m, Inr b) \<Rightarrow> (m, guard b (Error msg)))"

definition chk_one :: "chk list \<Rightarrow> string \<Rightarrow> chk" where
  "chk_one as msg n =
     (case chk_count as 0 n of (m, Inl e) \<Rightarrow> (m, Inl e) | (m, Inr k) \<Rightarrow> (m, guard (k = 1) (Error msg)))"

datatype keyref = KNone | KStr string | KIdx nat

definition childPath :: "string \<Rightarrow> string \<Rightarrow> string" where
  "childPath path key = (if path = [] then key else path @ ''.'' @ key)"

fun pathOf :: "string \<Rightarrow> keyref \<Rightarrow> string" where
  "pathOf parent KNone = parent"
| "pathOf parent (KIdx i) = parent @ ''['' @ show_nat i @ '']''"
| "pathOf parent (KStr k) = childPath parent k"

definition at_path :: "string \<Rightarrow> keyref \<Rightarrow> string" where
  "at_path parent key = (if pathOf parent key = [] then ''input'' else pathOf parent key)"

record strict_options =
  credentialKeys :: "string list"
  registry :: bool

text \<open>\<open>deepEqual\<close>, with \<open>Object.is\<close> on numbers.\<close>

function deepEqual :: "jsval \<Rightarrow> jsval \<Rightarrow> bool" where
  "deepEqual a b =
     (case (a, b) of
        (JArr xs, JArr ys) \<Rightarrow> length xs = length ys \<and> (\<forall>p \<in> set (zip xs ys). deepEqual (fst p) (snd p))
      | (JObj ps, JObj qs) \<Rightarrow>
          length ps = length qs \<and>
          (\<forall>p \<in> set ps. case map_of qs (fst p) of None \<Rightarrow> False | Some w \<Rightarrow> deepEqual (snd p) w)
      | _ \<Rightarrow> a = b)"
  by pat_completeness auto

lemma size_zip_fst: "p \<in> set (zip xs ys) \<Longrightarrow> size (fst p) < size (JArr xs)"
proof -
  assume "p \<in> set (zip xs ys)"
  then have "fst p \<in> set xs" using set_zip_leftD [of "fst p" "snd p" xs ys] by simp
  then show ?thesis using size_list_estimation' [of "fst p" xs "size (fst p)" size] by simp
qed

lemma size_snd_props: "p \<in> set ps \<Longrightarrow> size (snd p) < size (JObj ps)"
proof -
  assume "p \<in> set ps"
  then have "(size_prod (\<lambda>_. 0) size) p \<le> size_list (size_prod (\<lambda>_. 0) size) ps"
    by (rule size_list_estimation') simp
  then show ?thesis by (cases p) simp
qed

termination deepEqual
  by (relation "measure (\<lambda>(a, b). size a)") (auto dest: size_zip_fst size_snd_props simp del: jsval.size)

declare deepEqual.simps [simp del]

text \<open>The checks of a node in the order of the source, up to the shape of the value.\<close>

definition node_types :: "jsval \<Rightarrow> string list" where
  "node_types s =
     (case get s ''type'' of
        JStr t \<Rightarrow> [t]
      | JArr ts \<Rightarrow> concat (map (\<lambda>t. case t of JStr u \<Rightarrow> [u] | _ \<Rightarrow> []) ts)
      | _ \<Rightarrow> [])"

definition strict_matches :: "jsval \<Rightarrow> string \<Rightarrow> bool" where
  "strict_matches value t =
     (if t = ''integer'' then (case value of JNum n \<Rightarrow> is_safe_integer n | _ \<Rightarrow> False)
      else t \<in> set known_types \<and> matchesType value t)"

definition num_kw :: "jsval \<Rightarrow> string \<Rightarrow> jsnum option" where
  "num_kw s k = (case get s k of JNum n \<Rightarrow> Some n | _ \<Rightarrow> None)"

text \<open>\<open>bound !== undefined && violated(bound)\<close>, negated.\<close>

definition in_bound :: "jsval \<Rightarrow> string \<Rightarrow> (jsnum \<Rightarrow> bool) \<Rightarrow> bool" where
  "in_bound s k violated = (case num_kw s k of None \<Rightarrow> True | Some b \<Rightarrow> \<not> violated b)"

definition enum_allows :: "jsval \<Rightarrow> jsval \<Rightarrow> bool" where
  "enum_allows s value =
     (case get s ''enum'' of JArr vs \<Rightarrow> list_ex (\<lambda>v. deepEqual v value) vs | _ \<Rightarrow> True)"

definition const_allows :: "jsval \<Rightarrow> jsval \<Rightarrow> bool" where
  "const_allows s value =
     (has_own (props_of s) ''const'' \<longrightarrow> deepEqual (get s ''const'') value)"

fun has_duplicates :: "jsval list \<Rightarrow> bool" where
  "has_duplicates [] = False"
| "has_duplicates (x # xs) = (list_ex (deepEqual x) xs \<or> has_duplicates xs)"

definition node_required :: "jsval \<Rightarrow> string list" where
  "node_required s = schema_required s"

definition sub_schemas :: "jsval \<Rightarrow> string \<Rightarrow> jsval list option" where
  "sub_schemas s k = (case get s k of JArr bs \<Rightarrow> Some bs | _ \<Rightarrow> None)"

definition expected_note :: "strict_options \<Rightarrow> jsval \<Rightarrow> string" where
  "expected_note opts s =
     (if registry opts then '' (expected '' @ join '' or '' (node_types s) @ '')'' else [])"

definition anyOf_message :: "jsval list \<Rightarrow> string \<Rightarrow> string" where
  "anyOf_message branches loc =
     (if list_all (\<lambda>b. case b of JObj ps \<Rightarrow> length ps = 1 \<and> schema_required b \<noteq> []
                                 | _ \<Rightarrow> False) branches
      then loc @ '' requires one of: '' @ join '' | '' (map (\<lambda>b. join ''+'' (schema_required b)) branches)
      else loc @ '' does not match any allowed alternative'')"

text \<open>What a record key is checked against: its declared schema, nothing, the additional schema, a
  rejection, or the empty schema.\<close>

datatype key_rule = Declared jsval | Exempt | Additional jsval | Unsupported | Free

definition key_rule_of :: "strict_options \<Rightarrow> jsval \<Rightarrow> bool \<Rightarrow> string \<Rightarrow> key_rule" where
  "key_rule_of opts s atTop k =
     (let cred = (k \<in> set (credentialKeys opts)) in
      case map_of (schema_props s) k of
        Some child \<Rightarrow> Declared child
      | None \<Rightarrow>
          if registry opts \<and> atTop \<and> cred then Exempt
          else (case get s ''additionalProperties'' of
                  JObj a \<Rightarrow> Additional (JObj a)
                | JBool False \<Rightarrow> if atTop \<and> cred then Free else Unsupported
                | _ \<Rightarrow> Free))"

definition value_checks :: "strict_options \<Rightarrow> jsval \<Rightarrow> jsval \<Rightarrow> string \<Rightarrow> keyref \<Rightarrow> chk" where
  "value_checks opts s value parent key =
     chk_seq (chk_guard (case value of JNum n \<Rightarrow> is_finite n | _ \<Rightarrow> True)
                (at_path parent key @ '' must be finite''))
    (chk_seq (chk_guard (node_types s = [] \<or> list_ex (strict_matches value) (node_types s))
                (at_path parent key @ '' has an invalid type'' @ expected_note opts s))
    (chk_seq (chk_guard (enum_allows s value) (at_path parent key @ '' is not an allowed value''))
             (chk_guard (const_allows s value) (at_path parent key @ '' is not an allowed value''))))"

definition string_checks :: "jsval \<Rightarrow> string \<Rightarrow> string \<Rightarrow> chk" where
  "string_checks s str path =
     chk_seq (chk_guard (in_bound s ''minLength'' (\<lambda>b. num_lt (Fin (of_nat (length str))) b)) (path @ '' is too short''))
             (chk_guard (in_bound s ''maxLength'' (\<lambda>b. num_lt b (Fin (of_nat (length str))))) (path @ '' is too long''))"

definition number_checks :: "jsval \<Rightarrow> jsnum \<Rightarrow> string \<Rightarrow> chk" where
  "number_checks s n path =
     chk_seq (chk_guard (in_bound s ''minimum'' (\<lambda>b. num_lt n b)) (path @ '' is below minimum''))
    (chk_seq (chk_guard (in_bound s ''exclusiveMinimum'' (\<lambda>b. num_le n b)) (path @ '' is below minimum''))
    (chk_seq (chk_guard (in_bound s ''maximum'' (\<lambda>b. num_lt b n)) (path @ '' is above maximum''))
             (chk_guard (in_bound s ''exclusiveMaximum'' (\<lambda>b. num_le b n)) (path @ '' is above maximum''))))"

definition count_checks :: "jsval \<Rightarrow> string \<Rightarrow> string \<Rightarrow> nat \<Rightarrow> string \<Rightarrow> string \<Rightarrow> chk" where
  "count_checks s lo hi len few many =
     chk_seq (chk_guard (in_bound s lo (\<lambda>b. num_lt (Fin (of_nat len)) b)) few)
             (chk_guard (in_bound s hi (\<lambda>b. num_lt b (Fin (of_nat len)))) many)"

text \<open>
  \<open>compileNode\<close>. The first argument is \<open>65 - depth\<close>; \<open>Node\<close> is the checker of a child schema one
  level deeper, and the schema of \<open>empty\<close> is the empty record.
\<close>

definition tick :: "strict_options \<Rightarrow> chk" where
  "tick opts n = (Suc n, if \<not> registry opts \<and> MAX_NODES < Suc n then Inl limit_error else Inr ())"

definition check_key ::
  "strict_options \<Rightarrow> (jsval \<Rightarrow> jsval \<Rightarrow> string \<Rightarrow> keyref \<Rightarrow> chk) \<Rightarrow> jsval \<Rightarrow> string \<Rightarrow> string \<Rightarrow> jsval \<Rightarrow> chk" where
  "check_key opts node s path k v =
     chk_seq (chk_guard (k \<notin> set forbidden) ''Forbidden input field'')
       (case key_rule_of opts s (path = []) k of
          Declared child \<Rightarrow> node child v path (KStr k)
        | Exempt \<Rightarrow> chk_ok
        | Additional a \<Rightarrow> node a v path (KStr k)
        | Unsupported \<Rightarrow>
            chk_guard False (if registry opts then ''Unsupported input field: '' @ childPath path k
                             else ''Unsupported input field'')
        | Free \<Rightarrow> node (JObj []) v path (KStr k))"

definition check_shape ::
  "strict_options \<Rightarrow> (jsval \<Rightarrow> jsval \<Rightarrow> string \<Rightarrow> keyref \<Rightarrow> chk) \<Rightarrow> jsval \<Rightarrow> jsval \<Rightarrow> string \<Rightarrow> keyref \<Rightarrow> chk" where
  "check_shape opts node s value parent key =
     (let path = pathOf parent key; loc = at_path parent key in
      case value of
        JStr str \<Rightarrow> string_checks s str path
      | JNum n \<Rightarrow> number_checks s n path
      | JArr xs \<Rightarrow>
          chk_seq (count_checks s ''minItems'' ''maxItems'' (length xs)
                     (path @ '' has too few items'') (path @ '' has too many items''))
         (chk_seq (chk_guard (get s ''uniqueItems'' = JBool True \<longrightarrow> \<not> has_duplicates xs)
                     (path @ '' has duplicate items''))
          (chk_each (\<lambda>(i, x). node (if is_record (get s ''items'') then get s ''items'' else JObj [])
                                x path (KIdx i)) (zip [0..<length xs] xs)))
      | JObj ps \<Rightarrow>
          chk_seq (count_checks s ''minProperties'' ''maxProperties'' (length ps)
                     (loc @ '' has too few properties'') (loc @ '' has too many properties''))
         (chk_seq (chk_each (\<lambda>k. chk_guard (has_own ps k) (childPath path k @ '' is required''))
                     (node_required s))
          (chk_each (\<lambda>(k, v). check_key opts node s path k v) ps))
      | _ \<Rightarrow> chk_ok)"

primrec check_node ::
  "strict_options \<Rightarrow> nat \<Rightarrow> jsval \<Rightarrow> jsval \<Rightarrow> string \<Rightarrow> keyref \<Rightarrow> chk" where
  "check_node opts 0 s value parent key = (\<lambda>n. (n, Inl limit_error))"
| "check_node opts (Suc fuel) s value parent key =
     chk_seq (tick opts)
    (chk_seq (value_checks opts s value parent key)
    (chk_seq (check_shape opts (check_node opts fuel) s value parent key)
    (chk_seq (case sub_schemas s ''allOf'' of None \<Rightarrow> chk_ok
              | Some bs \<Rightarrow> chk_each (\<lambda>b. check_node opts fuel b value parent key) bs)
    (chk_seq (case sub_schemas s ''anyOf'' of None \<Rightarrow> chk_ok
              | Some bs \<Rightarrow> chk_some (map (\<lambda>b. check_node opts fuel b value parent key) bs)
                            (anyOf_message bs (at_path parent key)))
             (case sub_schemas s ''oneOf'' of None \<Rightarrow> chk_ok
              | Some bs \<Rightarrow> chk_one (map (\<lambda>b. check_node opts fuel b value parent key) bs)
                            (at_path parent key @ '' must match exactly one allowed alternative''))))))"

definition strict_output :: "strict_options \<Rightarrow> jsval \<Rightarrow> jsval \<Rightarrow> jsval" where
  "strict_output opts schema input =
     (if registry opts then input
      else JObj (put_all [] (filter (\<lambda>(k, _).
             has_own (schema_props schema) k
             \<or> (get schema ''additionalProperties'' \<noteq> JBool False \<and> k \<notin> set (credentialKeys opts)))
           (props_of input))))"

definition compileStrictValidator :: "jsval \<Rightarrow> strict_options \<Rightarrow> (jsval \<Rightarrow> jsval res) res" where
  "compileStrictValidator schema opts =
     sbind (assertStrictSchema schema (registry opts)) (\<lambda>_.
     Inr (\<lambda>input.
       sbind (snd (check_node opts (Suc MAX_DEPTH) schema input [] KNone 0)) (\<lambda>_.
       Inr (strict_output opts schema input))))"

definition validateStrictInput :: "jsval \<Rightarrow> jsval \<Rightarrow> string list \<Rightarrow> jsval res" where
  "validateStrictInput input schema keys =
     sbind (compileStrictValidator schema \<lparr>credentialKeys = keys, registry = False\<rparr>) (\<lambda>f. f input)"

section \<open>A logic of checkers\<close>

text \<open>
  \<open>decides c P\<close>: whatever the counter, the checker accepts only if \<open>P\<close> holds, and if it rejects
  for any reason but a resource limit then \<open>P\<close> fails.
\<close>

definition decides :: "chk \<Rightarrow> bool \<Rightarrow> bool" where
  "decides c P \<longleftrightarrow>
     (\<forall>n. (case snd (c n) of Inr _ \<Rightarrow> P | Inl e \<Rightarrow> is_limit e \<or> \<not> P))"

lemma decidesI:
  "(\<And>n m r. c n = (m, r) \<Longrightarrow> case r of Inr _ \<Rightarrow> P | Inl e \<Rightarrow> is_limit e \<or> \<not> P) \<Longrightarrow> decides c P"
  unfolding decides_def by (metis prod.collapse)

lemma decidesD: "decides c P \<Longrightarrow> c n = (m, r) \<Longrightarrow> case r of Inr _ \<Rightarrow> P | Inl e \<Rightarrow> is_limit e \<or> \<not> P"
  unfolding decides_def by (metis snd_conv)

named_theorems decides_intros \<open>rules of the checker logic\<close>

lemma decides_ok [decides_intros]: "decides chk_ok True"
  by (simp add: decides_def chk_ok_def)

lemma decides_guard [decides_intros]: "decides (chk_guard b msg) b"
  by (simp add: decides_def chk_guard_def guard_def)

lemma decides_seq [decides_intros]: "decides a P \<Longrightarrow> decides b Q \<Longrightarrow> decides (chk_seq a b) (P \<and> Q)"
proof (rule decidesI)
  fix n m r
  assume d: "decides a P" "decides b Q" and r: "chk_seq a b n = (m, r)"
  obtain m' r' where a: "a n = (m', r')" by (cases "a n")
  show "case r of Inr _ \<Rightarrow> P \<and> Q | Inl e \<Rightarrow> is_limit e \<or> \<not> (P \<and> Q)"
  proof (cases r')
    case (Inl e)
    with a r decidesD [OF d(1) a] show ?thesis by (auto simp: chk_seq_def)
  next
    case (Inr u)
    with a r have "b m' = (m, r)" by (simp add: chk_seq_def)
    from decidesD [OF d(2) this] decidesD [OF d(1) a] Inr show ?thesis by (auto split: sum.splits)
  qed
qed

lemma decides_each [decides_intros]:
  "(\<And>x. x \<in> set xs \<Longrightarrow> decides (f x) (P x)) \<Longrightarrow> decides (chk_each f xs) (\<forall>x \<in> set xs. P x)"
  by (induction xs) (auto intro: decides_ok dest: decides_seq)

lemma decides_cong: "decides c P \<Longrightarrow> P = Q \<Longrightarrow> decides c Q"
  by simp

lemma chk_matches_decides:
  assumes "decides a P" and "chk_matches a n = (m, Inr b)"
  shows "b = P"
proof -
  obtain m' r where r: "a n = (m', r)" by (cases "a n")
  with assms(2) decidesD [OF assms(1) r] show ?thesis
    by (auto simp: chk_matches_def split: sum.splits if_splits)
qed

lemma chk_matches_Inl: "chk_matches a n = (m, Inl e) \<Longrightarrow> is_limit e"
  by (auto simp: chk_matches_def split: prod.splits sum.splits if_splits)

lemma chk_any_decides:
  assumes "list_all2 decides as Ps"
  shows "(case snd (chk_any as n) of Inr b \<Rightarrow> b = (\<exists>P \<in> set Ps. P) | Inl e \<Rightarrow> is_limit e)"
  using assms
proof (induction as Ps arbitrary: n rule: list_all2_induct)
  case Nil
  then show ?case by simp
next
  case (Cons a as P Ps)
  obtain m r where r: "chk_matches a n = (m, r)" by (cases "chk_matches a n")
  show ?case
  proof (cases r)
    case (Inl e)
    with r chk_matches_Inl show ?thesis by auto
  next
    case (Inr b)
    with r Cons.hyps(1) have "b = P" by (auto dest: chk_matches_decides)
    with r Inr Cons.IH [of m] show ?thesis by (cases b) (auto split: sum.splits)
  qed
qed

lemma decides_some [decides_intros]:
  "list_all2 decides as Ps \<Longrightarrow> decides (chk_some as msg) (\<exists>P \<in> set Ps. P)"
proof (rule decidesI)
  fix n m r
  assume d: "list_all2 decides as Ps" and "chk_some as msg n = (m, r)"
  with chk_any_decides [OF d, of n] show "case r of Inr _ \<Rightarrow> \<exists>P \<in> set Ps. P | Inl e \<Rightarrow> is_limit e \<or> \<not> (\<exists>P \<in> set Ps. P)"
    by (auto simp: chk_some_def guard_def split: prod.splits sum.splits if_splits)
qed

lemma chk_count_decides:
  assumes "list_all2 decides as Ps"
  shows "(case snd (chk_count as k n) of
      Inr j \<Rightarrow> (j = 1) = (k + length (filter id Ps) = 1) | Inl e \<Rightarrow> is_limit e)"
  using assms
proof (induction as Ps arbitrary: n k rule: list_all2_induct)
  case Nil
  then show ?case by simp
next
  case (Cons a as P Ps)
  show ?case
  proof (cases "2 \<le> k")
    case True
    then show ?thesis by auto
  next
    case False
    obtain m r where r: "chk_matches a n = (m, r)" by (cases "chk_matches a n")
    show ?thesis
    proof (cases r)
      case (Inl e)
      with r False chk_matches_Inl show ?thesis by auto
    next
      case (Inr b)
      with r Cons.hyps(1) have "b = P" by (auto dest: chk_matches_decides)
      with r Inr False Cons.IH [of "if b then Suc k else k" m] show ?thesis
        by (cases b) (auto split: sum.splits)
    qed
  qed
qed

lemma decides_one [decides_intros]:
  "list_all2 decides as Ps \<Longrightarrow> decides (chk_one as msg) (length (filter id Ps) = 1)"
proof (rule decidesI)
  fix n m r
  assume d: "list_all2 decides as Ps" and "chk_one as msg n = (m, r)"
  with chk_count_decides [OF d, of 0 n]
  show "case r of Inr _ \<Rightarrow> length (filter id Ps) = 1 | Inl e \<Rightarrow> is_limit e \<or> length (filter id Ps) \<noteq> 1"
    by (auto simp: chk_one_def guard_def split: prod.splits sum.splits if_splits)
qed

lemma decides_tick [decides_intros]: "decides (tick opts) True"
  by (simp add: decides_def tick_def is_limit_def limit_error_def)

lemma decides_limit [decides_intros]: "decides (\<lambda>n. (n, Inl limit_error)) P"
  by (simp add: decides_def is_limit_def limit_error_def)

section \<open>The abstract schema predicate\<close>

text \<open>
  What a schema means, without counters, messages or order: \<open>accepts opts d s isTop v\<close> says that the
  value \<open>v\<close>, nested at most \<open>d\<close> levels of schema application deep, satisfies \<open>s\<close>; \<open>isTop\<close> marks the
  record in which the runtime's own keys may appear.
\<close>

definition scalar_ok :: "jsval \<Rightarrow> jsval \<Rightarrow> bool" where
  "scalar_ok s v \<longleftrightarrow>
     (case v of JNum n \<Rightarrow> is_finite n | _ \<Rightarrow> True)
     \<and> (node_types s = [] \<or> list_ex (strict_matches v) (node_types s))
     \<and> enum_allows s v \<and> const_allows s v"

definition count_ok :: "jsval \<Rightarrow> string \<Rightarrow> string \<Rightarrow> nat \<Rightarrow> bool" where
  "count_ok s lo hi len \<longleftrightarrow>
     in_bound s lo (\<lambda>b. num_lt (Fin (of_nat len)) b) \<and> in_bound s hi (\<lambda>b. num_lt b (Fin (of_nat len)))"

definition number_ok :: "jsval \<Rightarrow> jsnum \<Rightarrow> bool" where
  "number_ok s n \<longleftrightarrow>
     in_bound s ''minimum'' (\<lambda>b. num_lt n b) \<and> in_bound s ''exclusiveMinimum'' (\<lambda>b. num_le n b)
     \<and> in_bound s ''maximum'' (\<lambda>b. num_lt b n) \<and> in_bound s ''exclusiveMaximum'' (\<lambda>b. num_le b n)"

definition items_schema :: "jsval \<Rightarrow> jsval" where
  "items_schema s = (if is_record (get s ''items'') then get s ''items'' else JObj [])"

definition key_ok ::
  "strict_options \<Rightarrow> (jsval \<Rightarrow> bool \<Rightarrow> jsval \<Rightarrow> bool) \<Rightarrow> jsval \<Rightarrow> bool \<Rightarrow> string \<Rightarrow> jsval \<Rightarrow> bool" where
  "key_ok opts sub s isTop k w \<longleftrightarrow>
     k \<notin> set forbidden \<and>
     (case key_rule_of opts s isTop k of
        Declared child \<Rightarrow> sub child (isTop \<and> k = []) w
      | Exempt \<Rightarrow> True
      | Additional a \<Rightarrow> sub a (isTop \<and> k = []) w
      | Unsupported \<Rightarrow> False
      | Free \<Rightarrow> sub (JObj []) (isTop \<and> k = []) w)"

definition shape_ok :: "strict_options \<Rightarrow> (jsval \<Rightarrow> bool \<Rightarrow> jsval \<Rightarrow> bool) \<Rightarrow> jsval \<Rightarrow> bool \<Rightarrow> jsval \<Rightarrow> bool" where
  "shape_ok opts sub s isTop v \<longleftrightarrow>
     (case v of
        JStr str \<Rightarrow> count_ok s ''minLength'' ''maxLength'' (length str)
      | JNum n \<Rightarrow> number_ok s n
      | JArr xs \<Rightarrow> count_ok s ''minItems'' ''maxItems'' (length xs)
          \<and> (get s ''uniqueItems'' = JBool True \<longrightarrow> \<not> has_duplicates xs)
          \<and> (\<forall>x \<in> set xs. sub (items_schema s) False x)
      | JObj ps \<Rightarrow> count_ok s ''minProperties'' ''maxProperties'' (length ps)
          \<and> (\<forall>k \<in> set (node_required s). has_own ps k)
          \<and> (\<forall>p \<in> set ps. key_ok opts sub s isTop (fst p) (snd p))
      | _ \<Rightarrow> True)"

primrec accepts :: "strict_options \<Rightarrow> nat \<Rightarrow> jsval \<Rightarrow> bool \<Rightarrow> jsval \<Rightarrow> bool" where
  "accepts opts 0 s isTop v = False"
| "accepts opts (Suc d) s isTop v =
     (scalar_ok s v \<and> shape_ok opts (accepts opts d) s isTop v
      \<and> (case sub_schemas s ''allOf'' of None \<Rightarrow> True | Some bs \<Rightarrow> \<forall>b \<in> set bs. accepts opts d b isTop v)
      \<and> (case sub_schemas s ''anyOf'' of None \<Rightarrow> True | Some bs \<Rightarrow> \<exists>b \<in> set bs. accepts opts d b isTop v)
      \<and> (case sub_schemas s ''oneOf'' of None \<Rightarrow> True
         | Some bs \<Rightarrow> length (filter (\<lambda>b. accepts opts d b isTop v) bs) = 1))"

lemma decides_value_checks: "decides (value_checks opts s v parent key) (scalar_ok s v)"
  unfolding value_checks_def scalar_ok_def by (intro decides_intros)

lemma decides_count_checks: "decides (count_checks s lo hi len few many) (count_ok s lo hi len)"
  unfolding count_checks_def count_ok_def by (intro decides_intros)

lemma decides_string_checks:
  "decides (string_checks s str path) (count_ok s ''minLength'' ''maxLength'' (length str))"
  unfolding string_checks_def count_ok_def by (intro decides_intros)

lemma decides_number_checks: "decides (number_checks s n path) (number_ok s n)"
  unfolding number_checks_def number_ok_def by (intro decides_intros)

lemma pathOf_Nil_iff:
  "pathOf p (KIdx i) \<noteq> []" "pathOf p (KStr k) = [] \<longleftrightarrow> p = [] \<and> k = []" "pathOf p KNone = [] \<longleftrightarrow> p = []"
  by (auto simp: childPath_def)

lemma decides_check_key:
  assumes sub: "\<And>s v parent key. decides (node s v parent key) (sub s (pathOf parent key = []) v)"
  shows "decides (check_key opts node s path k w) (key_ok opts sub s (path = []) k w)"
  unfolding check_key_def key_ok_def
proof (intro decides_seq decides_guard)
  have "decides (node t w path (KStr k)) (sub t (path = [] \<and> k = []) w)" for t
    using sub [of t w path "KStr k"] unfolding pathOf_Nil_iff(2) .
  then show "decides (case key_rule_of opts s (path = []) k of
        Declared child \<Rightarrow> node child w path (KStr k)
      | Exempt \<Rightarrow> chk_ok
      | Additional a \<Rightarrow> node a w path (KStr k)
      | Unsupported \<Rightarrow>
          chk_guard False (if registry opts then ''Unsupported input field: '' @ childPath path k
                           else ''Unsupported input field'')
      | Free \<Rightarrow> node (JObj []) w path (KStr k))
     (case key_rule_of opts s (path = []) k of
        Declared child \<Rightarrow> sub child (path = [] \<and> k = []) w
      | Exempt \<Rightarrow> True
      | Additional a \<Rightarrow> sub a (path = [] \<and> k = []) w
      | Unsupported \<Rightarrow> False
      | Free \<Rightarrow> sub (JObj []) (path = [] \<and> k = []) w)"
    by (cases "key_rule_of opts s (path = []) k") (simp_all only: key_rule.case decides_ok decides_guard)
qed

lemma decides_items:
  fixes node :: "jsval \<Rightarrow> jsval \<Rightarrow> string \<Rightarrow> keyref \<Rightarrow> chk"
  assumes sub: "\<And>s v parent key. decides (node s v parent key) (sub s (pathOf parent key = []) v)"
  shows "decides (chk_each (\<lambda>(i, x). node t x path (KIdx i)) (zip [0..<length xs] xs)) (\<forall>x \<in> set xs. sub t False x)"
proof -
  have "decides (chk_each (\<lambda>(i, x). node t x path (KIdx i)) (zip [0..<length xs] xs))
      (\<forall>p \<in> set (zip [0..<length xs] xs). sub t False (snd p))"
  proof (rule decides_each)
    fix p :: "nat \<times> jsval"
    show "decides (case p of (i, x) \<Rightarrow> node t x path (KIdx i)) (sub t False (snd p))"
      using sub [of t "snd p" path "KIdx (fst p)"] by (simp add: split_beta)
  qed
  moreover have "set xs = snd ` set (zip [0..<length xs] xs)"
    by (metis length_map list.set_map map_nth map_snd_zip)
  ultimately show ?thesis by simp
qed

lemma decides_check_shape:
  assumes sub: "\<And>s v parent key. decides (node s v parent key) (sub s (pathOf parent key = []) v)"
  shows "decides (check_shape opts node s v parent key) (shape_ok opts sub s (pathOf parent key = []) v)"
proof (cases v)
  case (JStr str)
  then show ?thesis by (simp add: check_shape_def shape_ok_def Let_def decides_string_checks)
next
  case (JNum n)
  then show ?thesis by (simp add: check_shape_def shape_ok_def Let_def decides_number_checks)
next
  case (JArr xs)
  show ?thesis
    unfolding JArr check_shape_def shape_ok_def Let_def jsval.case items_schema_def
    by (intro decides_seq decides_count_checks decides_guard decides_items sub)
next
  case (JObj ps)
  have loop: "decides (chk_each (\<lambda>(k, w). check_key opts node s (pathOf parent key) k w) ps)
     (\<forall>p \<in> set ps. key_ok opts sub s (pathOf parent key = []) (fst p) (snd p))"
    by (rule decides_each) (unfold split_beta, rule decides_check_key, rule sub)
  show ?thesis
    unfolding JObj check_shape_def shape_ok_def Let_def jsval.case
    by (rule decides_seq [OF decides_count_checks decides_seq [OF decides_each loop]]) (rule decides_guard)
qed (simp_all add: check_shape_def shape_ok_def decides_ok)

lemma decides_branches:
  assumes "\<And>b. decides (f b) (P b)"
  shows "decides (case bs of None \<Rightarrow> chk_ok | Some bs \<Rightarrow> chk_each f bs)
           (case bs of None \<Rightarrow> True | Some bs \<Rightarrow> \<forall>b \<in> set bs. P b)"
    and "decides (case bs of None \<Rightarrow> chk_ok | Some bs \<Rightarrow> chk_some (map f bs) (msg bs))
           (case bs of None \<Rightarrow> True | Some bs \<Rightarrow> \<exists>b \<in> set bs. P b)"
    and "decides (case bs of None \<Rightarrow> chk_ok | Some bs \<Rightarrow> chk_one (map f bs) (msg bs))
           (case bs of None \<Rightarrow> True | Some bs \<Rightarrow> length (filter P bs) = 1)"
proof -
  have l: "list_all2 decides (map f xs) (map P xs)" for xs
    using assms by (simp add: list_all2_map1 list_all2_map2 list_all2_refl)
  have f: "length (filter id (map P xs)) = length (filter P xs)" for xs
    by (simp add: filter_map comp_def)
  show "decides (case bs of None \<Rightarrow> chk_ok | Some bs \<Rightarrow> chk_each f bs)
           (case bs of None \<Rightarrow> True | Some bs \<Rightarrow> \<forall>b \<in> set bs. P b)"
    using assms by (auto intro: decides_intros split: option.split)
  show "decides (case bs of None \<Rightarrow> chk_ok | Some bs \<Rightarrow> chk_some (map f bs) (msg bs))
           (case bs of None \<Rightarrow> True | Some bs \<Rightarrow> \<exists>b \<in> set bs. P b)"
    using decides_some [OF l] by (auto intro: decides_intros split: option.split)
  show "decides (case bs of None \<Rightarrow> chk_ok | Some bs \<Rightarrow> chk_one (map f bs) (msg bs))
           (case bs of None \<Rightarrow> True | Some bs \<Rightarrow> length (filter P bs) = 1)"
    using decides_one [OF l] by (auto intro: decides_intros simp: f split: option.split)
qed

lemma check_node_decides:
  "decides (check_node opts d s v parent key) (accepts opts d s (pathOf parent key = []) v)"
proof (induction d arbitrary: s v parent key)
  case 0
  show ?case by (simp add: decides_limit)
next
  case (Suc d)
  have "decides (check_node opts (Suc d) s v parent key) (True \<and> accepts opts (Suc d) s (pathOf parent key = []) v)"
    unfolding check_node.simps accepts.simps
    by (intro decides_seq decides_tick decides_value_checks decides_check_shape decides_branches Suc.IH)
  then show ?case by simp
qed

lemma check_node_verdict:
  assumes "snd (check_node opts d s v parent key n) = r"
    and "\<And>e. r = Inl e \<Longrightarrow> \<not> is_limit e"
  shows "is_ok r = accepts opts d s (pathOf parent key = []) v"
proof -
  have "case r of Inr _ \<Rightarrow> accepts opts d s (pathOf parent key = []) v
        | Inl e \<Rightarrow> is_limit e \<or> \<not> accepts opts d s (pathOf parent key = []) v"
    using check_node_decides [of opts d s v parent key] assms(1) unfolding decides_def by blast
  with assms(2) show ?thesis by (cases r) auto
qed

section \<open>Sizes of accepted schemas\<close>

text \<open>The number of schema nodes the checker visits.\<close>

definition sub_list :: "jsval \<Rightarrow> string \<Rightarrow> jsval list" where
  "sub_list s k = (case get s k of JArr bs \<Rightarrow> bs | _ \<Rightarrow> [])"

definition record_child :: "jsval \<Rightarrow> string \<Rightarrow> jsval list" where
  "record_child s k = (case get s k of JObj a \<Rightarrow> [JObj a] | _ \<Rightarrow> [])"

definition schema_children :: "jsval \<Rightarrow> jsval list" where
  "schema_children s =
     map snd (schema_props s) @ record_child s ''items'' @ record_child s ''additionalProperties''
     @ concat (map (sub_list s) COMBINATORS)"

primrec schema_nodes :: "nat \<Rightarrow> jsval \<Rightarrow> nat" where
  "schema_nodes 0 s = 1"
| "schema_nodes (Suc d) s = 1 + sum_list (map (schema_nodes d) (schema_children s))"

text \<open>A loop that adds a known amount per element and keeps a bound.\<close>

lemma fold_nodes_sum:
  assumes "fold_nodes f xs n = Inr m"
    and "\<And>x n m. x \<in> set xs \<Longrightarrow> f x n = Inr m \<Longrightarrow> m = n + g x \<and> (n \<le> B \<longrightarrow> m \<le> B)"
  shows "m = n + sum_list (map g xs) \<and> (n \<le> B \<longrightarrow> m \<le> B)"
  using assms
proof (induction xs arbitrary: n)
  case Nil
  then show ?case by simp
next
  case (Cons x xs)
  then obtain k where k: "f x n = Inr k" "fold_nodes f xs k = Inr m" by (auto simp: res_simps)
  with Cons.prems(2) have "k = n + g x" "n \<le> B \<longrightarrow> k \<le> B" by auto
  moreover have "m = k + sum_list (map g xs) \<and> (k \<le> B \<longrightarrow> m \<le> B)"
    by (rule Cons.IH [OF k(2)]) (use Cons.prems(2) in auto)
  ultimately show ?case by auto
qed

lemma assert_schema_nodes:
  "assert_schema ann d s n = Inr m \<Longrightarrow> m = n + schema_nodes d s \<and> (n \<le> MAX_NODES \<longrightarrow> m \<le> MAX_NODES)"
proof (induction d arbitrary: s n m)
  case 0
  then show ?case by (simp split: if_splits)
next
  case (Suc d)
  from Suc.prems obtain ps where s: "s = JObj ps" by (cases s) auto
  note IH = Suc.IH
  from Suc.prems obtain n1 n2 n3 where
      b: "Suc n \<le> MAX_NODES" and
      p: "(case prop_get ps ''properties'' of
             JObj children \<Rightarrow>
               fold_nodes (\<lambda>(key, child) m.
                  sbind (guard (key \<notin> set forbidden) (Error ''Forbidden property name'')) (\<lambda>_.
                  assert_schema ann d child m)) children (Suc n)
           | JUndef \<Rightarrow> Inr (Suc n)
           | _ \<Rightarrow> Inl (Error ''properties must be an object'')) = Inr n1" and
      i: "(case prop_get ps ''items'' of
             JUndef \<Rightarrow> Inr n1 | JObj i \<Rightarrow> assert_schema ann d (JObj i) n1
           | _ \<Rightarrow> Inl (Error ''items must be a schema'')) = Inr n2" and
      a: "(case prop_get ps ''additionalProperties'' of
             JObj a \<Rightarrow> assert_schema ann d (JObj a) n2 | _ \<Rightarrow> Inr n2) = Inr n3" and
      c: "fold_nodes (\<lambda>key m.
             case prop_get ps key of
               JUndef \<Rightarrow> Inr m
             | JArr branches \<Rightarrow>
                 sbind (guard (branches \<noteq> [] \<and> length branches \<le> MAX_COMBINATOR_BRANCHES)
                   (Error (key @ '' must be an array of 1-64 schemas''))) (\<lambda>_.
                 fold_nodes (\<lambda>branch m'.
                    sbind (guard (is_record branch) (Error (key @ '' branches must be schemas''))) (\<lambda>_.
                    assert_schema ann d branch m')) branches m)
             | _ \<Rightarrow> Inl (Error (key @ '' must be an array of 1-64 schemas''))) COMBINATORS n3 = Inr m"
    unfolding s by (auto simp: res_simps simp del: fold_nodes.simps)
  have "n1 = Suc n + sum_list (map (schema_nodes d) (map snd (schema_props s))) \<and> n1 \<le> MAX_NODES"
  proof (cases "prop_get ps ''properties''")
    case (JObj children)
    have "n1 = Suc n + sum_list (map (\<lambda>p. schema_nodes d (snd p)) children)
        \<and> (Suc n \<le> MAX_NODES \<longrightarrow> n1 \<le> MAX_NODES)"
      by (rule fold_nodes_sum [OF p [unfolded JObj jsval.case]]) (auto simp: res_simps dest!: IH)
    with b JObj s show ?thesis by (simp add: schema_props_def comp_def)
  qed (use p b s in \<open>simp_all add: schema_props_def\<close>)
  moreover have "n2 = n1 + sum_list (map (schema_nodes d) (record_child s ''items''))
      \<and> (n1 \<le> MAX_NODES \<longrightarrow> n2 \<le> MAX_NODES)"
    using i s by (auto simp: record_child_def split: jsval.splits dest!: IH)
  moreover have "n3 = n2 + sum_list (map (schema_nodes d) (record_child s ''additionalProperties''))
      \<and> (n2 \<le> MAX_NODES \<longrightarrow> n3 \<le> MAX_NODES)"
    using a s by (auto simp: record_child_def split: jsval.splits dest!: IH)
  moreover have "m = n3 + sum_list (map (\<lambda>k. sum_list (map (schema_nodes d) (sub_list s k))) COMBINATORS)
      \<and> (n3 \<le> MAX_NODES \<longrightarrow> m \<le> MAX_NODES)"
  proof (rule fold_nodes_sum [OF c])
    fix key and n4 n5 :: nat
    assume "(case prop_get ps key of
        JUndef \<Rightarrow> Inr n4
      | JArr branches \<Rightarrow>
          sbind (guard (branches \<noteq> [] \<and> length branches \<le> MAX_COMBINATOR_BRANCHES)
            (Error (key @ '' must be an array of 1-64 schemas''))) (\<lambda>_.
          fold_nodes (\<lambda>branch m'.
             sbind (guard (is_record branch) (Error (key @ '' branches must be schemas''))) (\<lambda>_.
             assert_schema ann d branch m')) branches n4)
      | _ \<Rightarrow> Inl (Error (key @ '' must be an array of 1-64 schemas''))) = Inr n5"
    then consider "prop_get ps key = JUndef" "n5 = n4"
      | branches where "prop_get ps key = JArr branches"
          "fold_nodes (\<lambda>branch m'.
             sbind (guard (is_record branch) (Error (key @ '' branches must be schemas''))) (\<lambda>_.
             assert_schema ann d branch m')) branches n4 = Inr n5"
      by (cases "prop_get ps key") (auto simp: res_simps)
    then show "n5 = n4 + sum_list (map (schema_nodes d) (sub_list s key)) \<and> (n4 \<le> MAX_NODES \<longrightarrow> n5 \<le> MAX_NODES)"
    proof cases
      case 1
      with s show ?thesis by (simp add: sub_list_def)
    next
      case (2 branches)
      have "n5 = n4 + sum_list (map (schema_nodes d) branches) \<and> (n4 \<le> MAX_NODES \<longrightarrow> n5 \<le> MAX_NODES)"
        by (rule fold_nodes_sum [OF 2(2)]) (auto simp: res_simps dest!: IH)
      moreover have "sub_list s key = branches" using 2 s by (simp add: sub_list_def)
      ultimately show ?thesis by auto
    qed
  qed
  ultimately show ?case
    by (simp add: schema_children_def map_concat sum_list_append COMBINATORS_def)
qed

section \<open>Properties\<close>


definition strict_example :: jsval where
  "strict_example = JObj
     [(''type'', JStr ''object''),
      (''properties'', JObj [(''id'', JObj [(''type'', JStr ''string''), (''minLength'', JInt 1)]),
                             (''n'', JObj [(''type'', JStr ''integer''), (''maximum'', JInt 10)])]),
      (''required'', JArr [JStr ''id'']),
      (''additionalProperties'', JBool False)]"

abbreviation registry_options :: "string list \<Rightarrow> strict_options" where
  "registry_options keys \<equiv> \<lparr>credentialKeys = keys, registry = True\<rparr>"


text \<open>A schema that the checker accepts is bounded. The number of its schema nodes, down to the
  depth limit, is at most 4096, so neither building a validator nor walking a schema can run away.\<close>

theorem assertStrictSchema_bounded:
  assumes "assertStrictSchema schema ann = Inr ()"
  shows "schema_nodes 65 schema \<le> 4096"
proof -
  from assms obtain m where "assert_schema ann 65 schema 0 = Inr m"
    by (auto simp: assertStrictSchema_def res_simps MAX_DEPTH_def)
  from assert_schema_nodes [OF this] show ?thesis by (simp add: MAX_NODES_def)
qed

theorem assertStrictSchema_bounded_witness:
  "assertStrictSchema strict_example False = Inr () \<and> schema_nodes 65 strict_example \<le> 4096"
proof -
  have s: "assertStrictSchema strict_example False = Inr ()" by code_simp
  show ?thesis using s assertStrictSchema_bounded [OF s] by simp
qed

end
