(* ===== verification/Redact.thy ===== *)
theory Redact
  imports JsText
begin

text \<open>
  \<open>runner/bun/src/redact.ts\<close>: scrubbing of everything the runner logs. The secrets of the current
  execution context are an argument (\<open>executionContext()?.secrets ?? []\<close>). Each regular expression
  is a matcher in the sense of \<open>replace_by\<close>: it sees the character before the position, for \<open>\b\<close>,
  and answers the length of the match. No pattern needs backtracking, because the character classes
  that follow each other are disjoint.
\<close>

section \<open>Keys\<close>

definition SECRET_KEY_FRAGMENTS :: "string list" where
  "SECRET_KEY_FRAGMENTS =
     [''authorization'', ''auth'', ''token'', ''secret'', ''password'', ''passwd'', ''apikey'',
      ''credential'', ''cookie'', ''session'', ''signature'', ''private'', ''dsn'']"

definition isSecretKey :: "string \<Rightarrow> bool" where
  "isSecretKey key =
     (let normalized = filter (\<lambda>c. is_lower c \<or> is_digit c) (to_lower key) in
      list_ex (\<lambda>fragment. contains fragment normalized) SECRET_KEY_FRAGMENTS)"

section \<open>Text patterns\<close>

definition is_word :: "char \<Rightarrow> bool" where
  "is_word c = (is_alnum c \<or> c = CHR ''_'')"

text \<open>\<open>\b\<close> before a word character.\<close>

definition word_start :: "char option \<Rightarrow> bool" where
  "word_start prev = (case prev of None \<Rightarrow> True | Some c \<Rightarrow> \<not> is_word c)"

definition is_opaque :: "char \<Rightarrow> bool" where
  "is_opaque c = (is_alnum c \<or> c \<in> set ''._~+/=-'')"

definition run_length :: "(char \<Rightarrow> bool) \<Rightarrow> string \<Rightarrow> nat" where
  "run_length P s = length (takeWhile P s)"

text \<open>A literal compared without regard to case, from a list of alternatives.\<close>

definition literal_i :: "string list \<Rightarrow> string \<Rightarrow> nat" where
  "literal_i alts s = (case find (\<lambda>a. to_lower (take (length a) s) = a) alts of
     None \<Rightarrow> 0 | Some a \<Rightarrow> length a)"

definition bearer_match :: "char option \<Rightarrow> string \<Rightarrow> nat" where
  "bearer_match prev s =
     (let n = literal_i [''bearer'', ''basic''] s;
          w = run_length is_ws (drop n s);
          t = run_length is_opaque (drop (n + w) s)
      in if word_start prev \<and> 0 < n \<and> 0 < w \<and> 8 \<le> t then n + w + t else 0)"

definition is_dash :: "string \<Rightarrow> bool" where
  "is_dash s = (s \<noteq> [] \<and> (hd s = CHR ''_'' \<or> hd s = CHR ''-''))"

definition prefixed_match :: "char option \<Rightarrow> string \<Rightarrow> nat" where
  "prefixed_match prev s =
     (let n = run_length is_alnum (drop 1 s);
          r = drop (n + 1) s;
          k = literal_i [''live'', ''test'', ''prod'', ''sk'', ''pk''] (drop 1 r);
          q = drop (k + 1) r;
          t = run_length is_opaque (drop 1 q)
      in if word_start prev \<and> s \<noteq> [] \<and> is_alpha (hd s) \<and> 1 \<le> n \<and> n \<le> 12 \<and> is_dash r \<and> 0 < k
            \<and> is_dash q \<and> 8 \<le> t
         then n + k + t + 3 else 0)"

definition slack_match :: "char option \<Rightarrow> string \<Rightarrow> nat" where
  "slack_match prev s =
     (let t = run_length (\<lambda>c. is_alnum c \<or> c = CHR ''-'') (drop 5 s)
      in if word_start prev \<and> 0 < literal_i [''xox''] s \<and> 5 \<le> length s
            \<and> lower_char (s ! 3) \<in> set ''abposr'' \<and> s ! 4 = CHR ''-'' \<and> 8 \<le> t
         then t + 5 else 0)"

definition github_match :: "char option \<Rightarrow> string \<Rightarrow> nat" where
  "github_match prev s =
     (let t = run_length is_alnum (drop 4 s)
      in if word_start prev \<and> 0 < literal_i [''gh''] s \<and> 4 \<le> length s
            \<and> lower_char (s ! 2) \<in> set ''pousr'' \<and> s ! 3 = CHR ''_'' \<and> 16 \<le> t
         then t + 4 else 0)"

definition jwt_match :: "char option \<Rightarrow> string \<Rightarrow> nat" where
  "jwt_match prev s =
     (let t = run_length (\<lambda>c. is_alnum c \<or> c \<in> set ''._-'') (drop 3 s)
      in if word_start prev \<and> starts_with ''eyJ'' s \<and> 16 \<le> t then t + 3 else 0)"

definition SECRET_TEXT_PATTERNS :: "(char option \<Rightarrow> string \<Rightarrow> nat) list" where
  "SECRET_TEXT_PATTERNS = [bearer_match, prefixed_match, slack_match, github_match, jwt_match]"

section \<open>Redaction\<close>

definition REDACTED :: string where
  "REDACTED = ''[REDACTED]''"

text \<open>\<open>v.replace(/%[0-9A-F]{2}/g, p => p.toLowerCase())\<close>.\<close>

definition is_hex_capital :: "char \<Rightarrow> bool" where
  "is_hex_capital c = (is_digit c \<or> (65 \<le> code c \<and> code c \<le> 70))"

fun lower_escapes :: "string \<Rightarrow> string" where
  "lower_escapes (p # a # b # rest) =
     (if p = CHR ''%'' \<and> is_hex_capital a \<and> is_hex_capital b
      then p # lower_char a # lower_char b # lower_escapes rest
      else p # lower_escapes (a # b # rest))"
| "lower_escapes s = s"

definition secret_variants :: "string \<Rightarrow> string list" where
  "secret_variants value =
     concat (map (\<lambda>v. [v, lower_escapes v]) [value, form_encode value, encode_uri value])"

text \<open>\<open>[...new Set(values)].sort((a, b) => b.length - a.length)\<close>; the sort is stable.\<close>

definition set_of_list :: "'a list \<Rightarrow> 'a list" where
  "set_of_list xs = rev (remdups (rev xs))"

definition ordered_secrets :: "string list \<Rightarrow> string list" where
  "ordered_secrets secrets =
     sort_key (\<lambda>v. - int (length v)) (set_of_list (concat (map secret_variants secrets)))"

definition redactText :: "string list \<Rightarrow> string \<Rightarrow> string" where
  "redactText secrets text =
     foldl (\<lambda>out pattern. replace_by pattern REDACTED None out)
       (foldl (\<lambda>out value. if value = [] then out else replace_all value REDACTED out)
         text (ordered_secrets secrets))
       SECRET_TEXT_PATTERNS"

text \<open>
  What a log record can hold: text, values without structure (\<open>undefined\<close>, \<open>null\<close>, booleans,
  numbers, functions), arrays, instances of \<open>Error\<close>, \<open>Headers\<close> or \<open>Map\<close> entries, and plain objects.
\<close>

datatype logv =
    LText string
  | LAtom jsval
  | LArr "logv list"
  | LError string string
  | LMap "(string \<times> logv) list"
  | LObj "(string \<times> logv) list"

fun log_of :: "jsval \<Rightarrow> logv" where
  "log_of (JStr s) = LText s"
| "log_of (JArr xs) = LArr (map log_of xs)"
| "log_of (JObj ps) = LObj (map (\<lambda>(k, v). (k, log_of v)) ps)"
| "log_of v = LAtom v"

definition log_thrown :: "thrown \<Rightarrow> logv" where
  "log_thrown e = (case e of ErrorInst name m _ \<Rightarrow> LError name m | ThrownVal v \<Rightarrow> log_of v)"

definition put_entries :: "(string \<times> jsval) list \<Rightarrow> props" where
  "put_entries es = foldl (\<lambda>ps (k, v). obj_put ps k v) [] es"

definition maxDepth :: nat where
  "maxDepth = 6"

text \<open>\<open>fuel\<close> is \<open>maxDepth + 1 - depth\<close>.\<close>

primrec redact_at :: "string list \<Rightarrow> nat \<Rightarrow> logv \<Rightarrow> jsval" where
  "redact_at secrets 0 v = JStr ''[TRUNCATED]''"
| "redact_at secrets (Suc fuel) v =
     (case v of
        LText s \<Rightarrow> JStr (redactText secrets s)
      | LAtom a \<Rightarrow> a
      | LArr xs \<Rightarrow> JArr (map (redact_at secrets fuel) xs)
      | LError name m \<Rightarrow> JObj [(''name'', JStr name), (''message'', JStr (redactText secrets m))]
      | LMap es \<Rightarrow> JObj (put_entries (map (\<lambda>(k, e).
          (k, if isSecretKey k then JStr REDACTED else redact_at secrets fuel e)) es))
      | LObj es \<Rightarrow> JObj (put_entries (map (\<lambda>(k, e).
          (k, if isSecretKey k then JStr REDACTED else redact_at secrets fuel e)) es)))"

definition redact :: "string list \<Rightarrow> logv \<Rightarrow> jsval" where
  "redact secrets v = redact_at secrets (Suc maxDepth) v"

definition logLine :: "string list \<Rightarrow> (string \<times> logv) list \<Rightarrow> string option" where
  "logLine secrets entries = json_text (redact secrets (LObj entries))"

section \<open>No registered secret survives\<close>

lemma set_set_of_list [simp]: "set (set_of_list xs) = set xs"
  by (simp add: set_of_list_def)

lemma set_ordered_secrets:
  "set (ordered_secrets secrets) = (\<Union>s \<in> set secrets. set (secret_variants s))"
  by (auto simp: ordered_secrets_def)

lemma secret_in_variants: "s \<in> set (secret_variants s)" "form_encode s \<in> set (secret_variants s)"
  "encode_uri s \<in> set (secret_variants s)" "lower_escapes (encode_uri s) \<in> set (secret_variants s)"
  "lower_escapes (form_encode s) \<in> set (secret_variants s)"
  by (simp_all add: secret_variants_def)

lemma patterns_keep_hidden:
  "hidden_by v mk \<Longrightarrow> sublist v (foldl (\<lambda>out p. replace_by p mk None out) t ps) \<Longrightarrow> sublist v t"
  by (induction ps arbitrary: t) (auto dest: sublist_replace_by)

lemma skip_empty_secrets:
  "foldl (\<lambda>out value. if value = [] then out else replace_all value mk out) t ws
     = foldl (\<lambda>out value. replace_all value mk out) t (filter (\<lambda>w. w \<noteq> []) ws)"
  by (induction ws arbitrary: t) auto

lemma redactText_hides:
  assumes "hidden_by v REDACTED" and "s \<in> set secrets" and "v \<in> set (secret_variants s)"
  shows "\<not> sublist v (redactText secrets text)"
proof
  let ?ws = "filter (\<lambda>w. w \<noteq> []) (ordered_secrets secrets)"
  assume "sublist v (redactText secrets text)"
  then have "sublist v (foldl (\<lambda>out value. replace_all value REDACTED out) text ?ws)"
    unfolding redactText_def skip_empty_secrets by (rule patterns_keep_hidden [OF assms(1)])
  moreover have "v \<in> set ?ws" using assms by (auto simp: set_ordered_secrets hidden_by_def)
  ultimately show False using fold_replace_all_hides [OF assms(1)] by blast
qed

lemma redactText_adds_nothing:
  assumes "hidden_by v REDACTED" and "sublist v (redactText secrets text)"
  shows "sublist v text"
  using assms fold_replace_all_keeps_hidden [OF assms(1)]
  unfolding redactText_def skip_empty_secrets by (blast dest: patterns_keep_hidden)

text \<open>The texts of a value, its keys apart, and the names of the errors in a log record.\<close>

fun texts_of :: "jsval \<Rightarrow> string list" where
  "texts_of (JStr s) = [s]"
| "texts_of (JArr xs) = concat (map texts_of xs)"
| "texts_of (JObj ps) = concat (map (\<lambda>p. texts_of (snd p)) ps)"
| "texts_of _ = []"

fun error_names :: "logv \<Rightarrow> string list" where
  "error_names (LError name m) = [name]"
| "error_names (LArr xs) = concat (map error_names xs)"
| "error_names (LMap es) = concat (map (\<lambda>p. error_names (snd p)) es)"
| "error_names (LObj es) = concat (map (\<lambda>p. error_names (snd p)) es)"
| "error_names _ = []"

text \<open>Atoms carry no text.\<close>

fun proper_log :: "logv \<Rightarrow> bool" where
  "proper_log (LAtom a) = (texts_of a = [])"
| "proper_log (LArr xs) = list_all proper_log xs"
| "proper_log (LMap es) = list_all (\<lambda>p. proper_log (snd p)) es"
| "proper_log (LObj es) = list_all (\<lambda>p. proper_log (snd p)) es"
| "proper_log _ = True"

lemma set_put_entries: "set (put_entries es) \<subseteq> set es"
proof -
  have "set (foldl (\<lambda>ps (k, v). obj_put ps k v) ps es) \<subseteq> set ps \<union> set es" for ps
  proof (induction es arbitrary: ps)
    case (Cons p es)
    obtain k v where p: "p = (k, v)" by (cases p)
    have "set (obj_put ps k v) \<subseteq> insert p (set ps)"
      using set_obj_def [of ps k v] by (auto simp: obj_put_def p)
    then show ?case using Cons.IH [of "obj_put ps k v"] by (auto simp: p)
  qed simp
  from this [of "[]"] show ?thesis by (simp add: put_entries_def)
qed

lemma texts_put_entries:
  "w \<in> set (texts_of (JObj (put_entries es))) \<Longrightarrow> \<exists>k v. (k, v) \<in> set es \<and> w \<in> set (texts_of v)"
  using set_put_entries [of es] by fastforce

definition leaks :: "string \<Rightarrow> jsval \<Rightarrow> bool" where
  "leaks s v = list_ex (sublist s) (texts_of v)"

lemma leaks_simps [simp]:
  "leaks s (JStr t) = sublist s t" "leaks s (JArr xs) = (\<exists>x \<in> set xs. leaks s x)"
  "texts_of a = [] \<Longrightarrow> \<not> leaks s a"
  by (auto simp: leaks_def list_ex_iff)

lemma leaks_put_entries:
  "leaks s (JObj (put_entries es)) \<Longrightarrow> \<exists>k v. (k, v) \<in> set es \<and> leaks s v"
  using texts_put_entries [of _ es] unfolding leaks_def list_ex_iff by blast

lemma redact_at_no_leak:
  assumes h: "hidden_by s REDACTED" and s: "s \<in> set secrets" and t: "\<not> sublist s ''[TRUNCATED]''"
  shows "proper_log v \<Longrightarrow> \<forall>n \<in> set (error_names v). \<not> sublist s n \<Longrightarrow> \<not> leaks s (redact_at secrets fuel v)"
proof (induction fuel arbitrary: v)
  case 0
  with t show ?case by simp
next
  case (Suc fuel)
  have red: "\<not> sublist s (redactText secrets u)" for u
    by (rule redactText_hides [OF h s secret_in_variants(1)])
  have mark: "\<not> sublist s REDACTED"
    using sublist_mask_left [OF h, of "[]"] h by (auto simp: hidden_by_def)
  have entries: "\<not> leaks s (JObj (put_entries (map (\<lambda>(k, e).
      (k, if isSecretKey k then JStr REDACTED else redact_at secrets fuel e)) es)))"
    if "list_all (\<lambda>p. proper_log (snd p)) es"
      "\<forall>n \<in> set (concat (map (\<lambda>p. error_names (snd p)) es)). \<not> sublist s n" for es
  proof
    assume "leaks s (JObj (put_entries (map (\<lambda>(k, e).
      (k, if isSecretKey k then JStr REDACTED else redact_at secrets fuel e)) es)))"
    then obtain k e where "(k, e) \<in> set es"
        "leaks s (if isSecretKey k then JStr REDACTED else redact_at secrets fuel e)"
      by (auto dest!: leaks_put_entries)
    moreover from this(1) that have "proper_log e" "\<forall>n \<in> set (error_names e). \<not> sublist s n"
      by (force simp: list_all_iff)+
    ultimately show False using Suc.IH mark by (auto split: if_splits)
  qed
  show ?case
  proof (cases v)
    case (LError name m)
    with Suc.prems red show ?thesis by (simp add: leaks_def)
  next
    case (LArr xs)
    with Suc.prems Suc.IH show ?thesis by (auto simp: list_all_iff)
  qed (use Suc.prems red entries in auto)
qed



end
