(* ===== verification/Metadata.thy ===== *)
theory Metadata
  imports JsText
begin

text \<open>
  \<open>runner/bun/src/operation-metadata.ts\<close>. An operation output is a value together with the keys
  recorded under the non-enumerable symbol \<open>OPERATION_METADATA\<close>; a copy made by a spread has no
  recorded keys, because the symbol property is not enumerable.
\<close>

record marked =
  out_value :: jsval
  out_marks :: "string list"

abbreviation unmarked :: "jsval \<Rightarrow> marked" where
  "unmarked v \<equiv> \<lparr>out_value = v, out_marks = []\<rparr>"

definition markOperationMetadata :: "props \<Rightarrow> string list \<Rightarrow> marked" where
  "markOperationMetadata output injectedKeys = \<lparr>out_value = JObj output, out_marks = injectedKeys\<rparr>"

definition operationMetadataKeys :: "marked \<Rightarrow> string list" where
  "operationMetadataKeys output = (if is_record (out_value output) then out_marks output else [])"

fun move_keys :: "string list \<Rightarrow> props \<Rightarrow> props \<Rightarrow> props \<times> props" where
  "move_keys [] bare metadata = (bare, metadata)"
| "move_keys (key # keys) bare metadata =
     (if has_own bare key
      then move_keys keys (obj_del bare key) (obj_put metadata key (prop_get bare key))
      else move_keys keys bare metadata)"

definition splitOperationMetadata :: "marked \<Rightarrow> jsval \<times> props" where
  "splitOperationMetadata output =
     (case out_value output of
        JObj ps \<Rightarrow>
          (if out_marks output = [] then (JObj ps, [])
           else (case move_keys (out_marks output) ps [] of (bare, metadata) \<Rightarrow> (JObj bare, metadata)))
      | v \<Rightarrow> (v, []))"

lemma move_keys_lookup:
  assumes "move_keys keys bare metadata = (bare', metadata')" and "''__proto__'' \<notin> set keys"
  shows "map_of bare' k = (if k \<in> set keys then None else map_of bare k)"
    and "map_of metadata' k = (if k \<in> set keys \<and> has_own bare k then map_of bare k else map_of metadata k)"
proof -
  have "map_of bare' k = (if k \<in> set keys then None else map_of bare k)
        \<and> map_of metadata' k = (if k \<in> set keys \<and> has_own bare k then map_of bare k else map_of metadata k)"
    using assms
  proof (induction keys bare metadata rule: move_keys.induct)
    case (1 bare metadata)
    then show ?case by simp
  next
    case (2 key keys bare metadata)
    then show ?case
      by (cases "has_own bare key") (auto simp: obj_simps has_own_iff prop_get_def split: if_splits)
  qed
  then show "map_of bare' k = (if k \<in> set keys then None else map_of bare k)"
    and "map_of metadata' k = (if k \<in> set keys \<and> has_own bare k then map_of bare k else map_of metadata k)"
    by simp_all
qed

lemma set_move_keys: "move_keys keys bare metadata = (bare', metadata') \<Longrightarrow> set bare' \<subseteq> set bare"
  by (induction keys bare metadata rule: move_keys.induct) (auto split: if_splits)

text \<open>Splitting an output separates the injected keys from the handler's own keys and loses
  nothing. The bare output has exactly the properties that were not injected, the metadata exactly
  the injected ones, each with its value.\<close>

theorem splitOperationMetadata_partition:
  assumes "splitOperationMetadata (markOperationMetadata ps keys) = (JObj bare, metadata)"
    and "''__proto__'' \<notin> set keys"
  shows "map_of bare k = (if k \<in> set keys then None else map_of ps k)
       \<and> map_of metadata k = (if k \<in> set keys then map_of ps k else None)"
proof (cases "keys = []")
  case True
  with assms(1) show ?thesis by (auto simp: splitOperationMetadata_def markOperationMetadata_def)
next
  case False
  with assms(1) have "move_keys keys ps [] = (bare, metadata)"
    by (auto simp: splitOperationMetadata_def markOperationMetadata_def split: prod.splits)
  from move_keys_lookup [OF this assms(2), of k] show ?thesis by (auto simp: has_own_iff)
qed

theorem splitOperationMetadata_partition_witness:
  "map_of [(''data'', JInt 1)] ''data'' = Some (JInt 1)
   \<and> map_of [(''connector'', JStr ''crm''), (''source'', JStr ''provider'')] ''data'' = None"
proof -
  let ?ps = "[(''connector'', JStr ''crm''), (''source'', JStr ''provider''), (''data'', JInt 1)]"
  have "splitOperationMetadata (markOperationMetadata ?ps [''connector'', ''action'', ''source''])
      = (JObj [(''data'', JInt 1)], [(''connector'', JStr ''crm''), (''source'', JStr ''provider'')])"
    by code_simp
  from splitOperationMetadata_partition [OF this, of "''data''"] show ?thesis by simp
qed

end
