(* ===== verification/Compile.thy ===== *)
theory Compile
  imports Request Strict Redact Metadata
begin

text \<open>
  \<open>runner/bun/src/declarative/compile.ts\<close>: handlers compiled from a manifest. A compiled handler
  gets the execution context, the time and the input, works on the list of requests sent so far,
  and throws, returns a value (the fixture-safe echo) or a promise (the provider call).

  An input that is no record and still passes validation (a strict schema without a type) is
  treated as the empty record. One error message of the source holds a dash outside the character
  set of the model; it is written as a hyphen.
\<close>

section \<open>Checks of the manifest\<close>

definition isDeclarativeManifest :: "jsval \<Rightarrow> bool" where
  "isDeclarativeManifest manifest =
     (is_record (get manifest ''operations'')
      \<and> list_ex (\<lambda>(_, operation). is_record (get operation ''request''))
          (props_of (get manifest ''operations'')))"

definition assertBasicAuthConfiguration :: "jsval \<Rightarrow> unit res" where
  "assertBasicAuthConfiguration auth =
     (let basic = get auth ''basic'' in
      if \<not> truthy basic then Inr ()
      else if nullish (get auth ''in'') (JStr ''header'') \<noteq> JStr ''header'' \<or> get auth ''name'' \<noteq> JStr ''Authorization''
      then Inl (Error ''basic auth must use the Authorization header'')
      else if get auth ''value'' \<noteq> JUndef then Inl (Error ''basic auth cannot be combined with auth.value'')
      else case (get basic ''username'', get basic ''password'') of
          (JStr _, JStr _) \<Rightarrow> Inr ()
        | _ \<Rightarrow> Inl (Error ''basic auth credentials must be templates''))"

definition setup_of :: "jsval \<Rightarrow> jsval" where
  "setup_of manifest = get (get manifest ''auth'') ''setup''"

definition setup_fields :: "jsval \<Rightarrow> jsval list" where
  "setup_fields manifest =
     items_of (get (setup_of manifest) ''fields'')
     @ concat (map (\<lambda>route. items_of (get route ''fields'')) (items_of (get (setup_of manifest) ''routes'')))"

text \<open>The map \<open>required\<close>: the last declaration of a key decides.\<close>

definition required_fields :: "jsval \<Rightarrow> (string \<times> bool) list" where
  "required_fields manifest =
     rev (map (\<lambda>field. (str_of (get field ''key''), get field ''required'' = JBool True)) (setup_fields manifest))"

definition templated_hosts :: "jsval \<Rightarrow> jsval list" where
  "templated_hosts manifest =
     get (get manifest ''http'') ''baseUrl''
     # items_of (get (get manifest ''network'') ''allowedHosts'')
     @ map (\<lambda>(_, operation). get (get operation ''request'') ''baseUrl'') (props_of (get manifest ''operations''))"

definition check_placeholder :: "jsval \<Rightarrow> string \<Rightarrow> unit res" where
  "check_placeholder manifest name =
     (let prefix = to_str (get manifest ''key'') @ '': base URL or allowed host interpolates {{'' @ name @ ''}}, '' in
      case map_of (required_fields manifest) (root_of name) of
        None \<Rightarrow> Inl (Error (prefix @ ''which is not a declared setup field''))
      | Some False \<Rightarrow> Inl (Error (prefix @ ''which is an optional setup field - a blank optional field is absent from the credential bundle, leaving the host caller-controlled''))
      | Some True \<Rightarrow> Inr ())"

definition assertTemplatedHostsAreDeclared :: "jsval \<Rightarrow> unit res" where
  "assertTemplatedHostsAreDeclared manifest =
     for_each (\<lambda>v. case v of
         JStr t \<Rightarrow> for_each (check_placeholder manifest) (hole_exprs (scan t))
       | _ \<Rightarrow> Inr ()) (templated_hosts manifest)"

section \<open>Failures of the provider\<close>

definition defaultSuccessStatuses :: "jsval list" where
  "defaultSuccessStatuses = [JInt 200, JInt 201, JInt 202, JInt 204]"

definition defaultMessagePaths :: "jsval list" where
  "defaultMessagePaths = map JStr [''error.message'', ''error'', ''message'', ''detail'',
     ''errors.0.message'', ''errors.0.detail'']"

definition maxRetryAfterSeconds :: rat where
  "maxRetryAfterSeconds = 3600"

text \<open>\<open>xs ?? default\<close> for an array of the manifest.\<close>

definition items_or :: "jsval \<Rightarrow> jsval list \<Rightarrow> jsval list" where
  "items_or v d = (if v = JUndef \<or> v = JNull then d else items_of v)"

definition parseBody :: "string \<Rightarrow> jsval" where
  "parseBody raw = (if raw = [] then JNull else case json_parse raw of Some v \<Rightarrow> v | None \<Rightarrow> JStr raw)"

definition signals_error :: "jsval \<Rightarrow> bool" where
  "signals_error v = (case v of
     JUndef \<Rightarrow> False | JNull \<Rightarrow> False | JArr xs \<Rightarrow> xs \<noteq> [] | JStr s \<Rightarrow> trim s \<noteq> []
   | JBool b \<Rightarrow> b | JObj ps \<Rightarrow> ps \<noteq> [] | _ \<Rightarrow> True)"

definition hasBodyError :: "jsval \<Rightarrow> jsval \<Rightarrow> bool" where
  "hasBodyError parsed paths =
     (is_record parsed \<and> list_ex (\<lambda>path. signals_error (resolvePath (str_of path) parsed)) (items_of paths))"

definition error_code :: "jsval \<Rightarrow> jsval" where
  "error_code v = (case v of
     JStr s \<Rightarrow> JStr s | JNum n \<Rightarrow> if is_finite n then JStr (to_str v) else JUndef | _ \<Rightarrow> JUndef)"

definition isRateLimited :: "int \<Rightarrow> jsval \<Rightarrow> jsval \<Rightarrow> bool" where
  "isRateLimited responseStatus parsed errors =
     (JInt responseStatus \<in> set (items_or (get errors ''rateLimitStatuses'') [JInt 309])
      \<or> (truthy (get errors ''rateLimitCodePaths'') \<and> truthy (get errors ''rateLimitCodes'') \<and> is_record parsed
         \<and> list_ex (\<lambda>path. let c = error_code (resolvePath (str_of path) parsed)
                          in c \<noteq> JUndef \<and> c \<in> set (items_of (get errors ''rateLimitCodes'')))
             (items_of (get errors ''rateLimitCodePaths''))))"

definition positive_seconds :: "jsnum \<Rightarrow> rat option" where
  "positive_seconds n = (case num_val n of Some r \<Rightarrow> if 0 < r then Some r else None | None \<Rightarrow> None)"

fun body_delay :: "jsval \<Rightarrow> jsval list \<Rightarrow> jsval option" where
  "body_delay body [] = None"
| "body_delay body (path # paths) =
     (case positive_seconds (to_num (resolvePath (str_of path) body)) of
        Some r \<Rightarrow> if r \<le> maxRetryAfterSeconds then Some (JInt \<lceil>r\<rceil>) else body_delay body paths
      | None \<Rightarrow> body_delay body paths)"

definition header_number :: "(string \<times> string) list \<Rightarrow> string \<Rightarrow> jsnum" where
  "header_number headers name = (case map_of (rev headers) name of Some t \<Rightarrow> str_to_num t | None \<Rightarrow> NaN)"

text \<open>\<open>Math.ceil(parsed - Date.now() / 1000)\<close> in double precision.\<close>

definition round_signed :: "rat \<Rightarrow> jsnum" where
  "round_signed r = (if r < 0 then signed_double True (- r) else round_double r)"

definition seconds_until :: "rat \<Rightarrow> time \<Rightarrow> int option" where
  "seconds_until r now =
     (case num_val (round_double (of_int now / 1000)) of
        Some n \<Rightarrow> map_option ceiling (num_val (round_signed (r - n)))
      | None \<Rightarrow> None)"

definition parseRetryAfter ::
    "(string \<times> string) list \<Rightarrow> jsval \<Rightarrow> jsval \<Rightarrow> time \<Rightarrow> jsval" where
  "parseRetryAfter headers body errors now =
     (let fallback = nullish (get errors ''defaultRetryAfterSeconds'') (JInt 10);
          headerName = to_lower (to_str (nullish (get errors ''retryAfterHeader'') (JStr ''retry-after'')))
      in case (if is_record body then body_delay body (items_of (get errors ''retryAfterPaths'')) else None) of
           Some v \<Rightarrow> v
         | None \<Rightarrow>
             (case positive_seconds (header_number headers headerName) of
                None \<Rightarrow> fallback
              | Some r \<Rightarrow>
                  if get errors ''retryAfterKind'' \<noteq> JStr ''unix'' then JNum (header_number headers headerName)
                  else (case seconds_until r now of
                      Some k \<Rightarrow> if 0 < k \<and> of_int k \<le> maxRetryAfterSeconds then JInt k else fallback
                    | None \<Rightarrow> fallback)))"

fun first_message :: "jsval \<Rightarrow> jsval list \<Rightarrow> string option" where
  "first_message parsed [] = None"
| "first_message parsed (path # paths) =
     (case resolvePath (str_of path) parsed of
        JStr s \<Rightarrow> if trim s \<noteq> [] then Some s else first_message parsed paths
      | _ \<Rightarrow> first_message parsed paths)"

definition extractMessage :: "jsval \<Rightarrow> jsval list \<Rightarrow> string option" where
  "extractMessage parsed paths =
     (case parsed of
        JStr s \<Rightarrow>
          (let trimmed = trim s in
           if trimmed \<noteq> [] \<and> length trimmed \<le> 400 \<and> \<not> starts_with ''<'' trimmed then Some trimmed else None)
      | JObj _ \<Rightarrow> first_message parsed paths
      | _ \<Rightarrow> None)"

fun redact_keys :: "string list \<Rightarrow> jsval \<Rightarrow> jsval" where
  "redact_keys drop_keys (JArr xs) = JArr (map (redact_keys drop_keys) xs)"
| "redact_keys drop_keys (JObj ps) =
     JObj (put_all [] (map (\<lambda>p. (fst p, redact_keys drop_keys (snd p)))
            (filter (\<lambda>p. fst p \<notin> set drop_keys) ps)))"
| "redact_keys drop_keys v = v"

definition redactResponseKeys :: "jsval \<Rightarrow> string list \<Rightarrow> jsval" where
  "redactResponseKeys v keys = redact_keys keys v"

definition credential_keys :: "jsval \<Rightarrow> jsval \<Rightarrow> string list" where
  "credential_keys manifest http =
     map (\<lambda>field. str_of (get field ''key''))
       (filter (\<lambda>field. get field ''secret'' = JBool True) (setup_fields manifest))
     @ (if truthy (get (get http ''auth'') ''field'') then [str_of (get (get http ''auth'') ''field'')] else [])
     @ concat (map (\<lambda>derived. case get derived ''field'' of JStr s \<Rightarrow> [s] | _ \<Rightarrow> [])
         (items_of (get (setup_of manifest) ''derive'')))"

definition basic_variants :: "jsval \<Rightarrow> props \<Rightarrow> string list" where
  "basic_variants http input =
     (let basic = get (get http ''auth'') ''basic'' in
      if truthy basic
      then (case (renderTemplate (get basic ''username'') (JObj input), renderTemplate (get basic ''password'') (JObj input)) of
              (JStr user, JStr pass) \<Rightarrow>
                (let encoded = base64 (user @ '':'' @ pass) in [encoded, ''Basic '' @ encoded])
            | _ \<Rightarrow> [])
      else [])"

definition credential_variants :: "jsval \<Rightarrow> jsval \<Rightarrow> props \<Rightarrow> string list" where
  "credential_variants manifest http input =
     concat (map (\<lambda>key. case prop_get input key of
         JStr v \<Rightarrow> if v = [] then [] else [v, form_encode v, encode_uri v]
       | _ \<Rightarrow> []) (credential_keys manifest http))
     @ basic_variants http input"

definition redactCredentialDetail :: "string \<Rightarrow> jsval \<Rightarrow> jsval \<Rightarrow> props \<Rightarrow> string" where
  "redactCredentialDetail detail manifest http input =
     (let encodedVariants = concat (map (\<lambda>v. [v, lower_escapes v])
            (set_of_list (credential_variants manifest http input)))
      in foldl (\<lambda>message v. replace_all v ''[REDACTED]'' message) detail
           (sort_key (\<lambda>v. - int (length v)) (set_of_list encodedVariants)))"

definition failure :: "string \<Rightarrow> string \<Rightarrow> jsval" where
  "failure errcode message = JObj [(''ok'', JBool False), (''code'', JStr errcode), (''message'', JStr message)]"

definition upstreamFailure ::
    "jsval \<Rightarrow> jsval \<Rightarrow> string \<Rightarrow> ConnectorHttpResponse \<Rightarrow> jsval \<Rightarrow> props \<Rightarrow> time \<Rightarrow> jsval" where
  "upstreamFailure manifest http operationKey response parsed input now =
     (let errors = nullish (get http ''errors'') (JObj []);
          providerName = to_str (nullish (get manifest ''name'') (get manifest ''key''))
      in if isRateLimited (rs_status response) parsed errors
         then JObj [(''ok'', JBool False), (''code'', JStr ''CONNECTOR_RATE_LIMITED''),
                    (''message'', JStr (providerName @ '' rate limit exceeded.'')),
                    (''retryAfterSeconds'', parseRetryAfter (rs_headers response) parsed errors now)]
         else failure ''CONNECTOR_UPSTREAM_ERROR''
                (case extractMessage parsed (items_or (get errors ''messagePaths'') defaultMessagePaths) of
                   None \<Rightarrow> providerName @ '' rejected the '' @ operationKey @ '' request.''
                 | Some detail \<Rightarrow> redactCredentialDetail detail manifest http input))"

section \<open>The provider call\<close>

definition error_message :: "thrown \<Rightarrow> string" where
  "error_message e = (case e of ErrorInst _ m _ \<Rightarrow> m | ThrownVal _ \<Rightarrow> ''Action input is invalid.'')"

definition headers_value :: "(string \<times> string) list \<Rightarrow> jsval" where
  "headers_value headers = JObj (from_entries (map (\<lambda>(k, v). (k, JStr v)) headers))"

text \<open>The steps after the answer arrived.\<close>

definition parse_response ::
    "jsval \<Rightarrow> jsval \<Rightarrow> ConnectorHttpResponse \<Rightarrow> jsval res" where
  "parse_response operation request response =
     (if get operation ''responseFormat'' = JStr ''json'' then
        (if trim (rs_body response) = [] then
           (if rs_status response = 204 \<or> get request ''result'' \<noteq> JUndef then Inr JNull
            else Inl (ThrownVal (failure ''CONNECTOR_RESPONSE_INVALID'' ''Connector returned an empty response.'')))
         else case json_parse (rs_body response) of
             Some v \<Rightarrow> Inr v
           | None \<Rightarrow> Inl (ThrownVal (failure ''CONNECTOR_RESPONSE_INVALID'' ''Connector returned invalid JSON.'')))
      else Inr (parseBody (rs_body response)))"

definition redact_list :: "jsval \<Rightarrow> string list" where
  "redact_list operation = filter (\<lambda>k. k \<noteq> []) (map str_of (items_of (get operation ''redactResponseKeys'')))"

definition shape_result :: "jsval \<Rightarrow> jsval \<Rightarrow> ConnectorHttpResponse \<Rightarrow> jsval \<Rightarrow> jsval \<Rightarrow> jsval" where
  "shape_result operation request response parsed validated =
     (let resultContext = JObj [(''response'', parsed), (''status'', JInt (rs_status response)),
            (''headers'', headers_value (rs_headers response)), (''input'', validated)];
          result = (if get request ''result'' = JUndef then JObj [(''data'', parsed)]
                    else renderTemplate (get request ''result'') resultContext)
      in if redact_list operation = [] then result else redactResponseKeys result (redact_list operation))"

definition mark_result :: "jsval \<Rightarrow> string \<Rightarrow> jsval \<Rightarrow> marked" where
  "mark_result manifest operationKey result =
     (let output = (case result of JObj ps \<Rightarrow> ps | v \<Rightarrow> [(''data'', v)]);
          metadata = [(''connector'', get manifest ''key''), (''action'', JStr operationKey), (''source'', JStr ''provider'')];
          injected = filter (\<lambda>key. \<not> has_own output key) (map fst metadata)
      in markOperationMetadata (spread metadata output) injected)"

definition finish_response ::
    "jsval \<Rightarrow> jsval \<Rightarrow> string \<Rightarrow> jsval \<Rightarrow> jsval \<Rightarrow> props \<Rightarrow> jsval \<Rightarrow> time \<Rightarrow> ConnectorHttpResponse \<Rightarrow> marked res" where
  "finish_response manifest http operationKey operation request input validated now response =
     (if JInt (rs_status response) \<notin> set (items_or (get request ''success'') defaultSuccessStatuses)
      then Inl (ThrownVal (upstreamFailure manifest http operationKey response (parseBody (rs_body response)) input now))
      else sbind (parse_response operation request response) (\<lambda>parsed.
        if hasBodyError parsed (get (get http ''errors'') ''bodyErrorPaths'')
        then Inl (ThrownVal (upstreamFailure manifest http operationKey response parsed input now))
        else let result = shape_result operation request response parsed validated in
          if truthy (get operation ''enforceOutputSchema'')
             \<and> \<not> is_ok (assertOutputSchema result (get operation ''outputSchema''))
          then Inl (ThrownVal (failure ''CONNECTOR_RESPONSE_INVALID''
                 ''Connector response does not match its declared schema.''))
          else Inr (mark_result manifest operationKey result)))"

definition outbound_failure :: "thrown \<Rightarrow> jsval" where
  "outbound_failure e =
     (case e of
        ErrorInst cls m flds \<Rightarrow>
          if cls = ''ConnectorHttpError''
          then JObj [(''ok'', JBool False), (''code'', prop_get flds ''code''), (''message'', JStr m)]
          else failure ''CONNECTOR_UNAVAILABLE'' ''Connector request failed.''
      | ThrownVal _ \<Rightarrow> failure ''CONNECTOR_UNAVAILABLE'' ''Connector request failed.'')"

definition rendered_hosts :: "jsval \<Rightarrow> props \<Rightarrow> string list" where
  "rendered_hosts manifest input =
     map to_str (items_of (renderTemplate (nullish (get (get manifest ''network'') ''allowedHosts'') (JArr [])) (JObj input)))"

text \<open>URL, headers and body of the request, or the input problem that prevents it.\<close>

definition build_request ::
    "request_platform \<Rightarrow> jsval \<Rightarrow> jsval \<Rightarrow> props \<Rightarrow> (URL \<times> request_init) res" where
  "build_request pf http request input =
     sbind (buildURL pf http request input) (\<lambda>url.
     sbind (buildHeaders http request input) (\<lambda>hs.
     sbind (if get request ''bodyEncoding'' = JStr ''form''
            then sbind (header_value ''content-type'' hs) (\<lambda>ct.
                 guard (ct = Some ''application/x-www-form-urlencoded'')
                   (Error ''form body requires effective Content-Type application/x-www-form-urlencoded''))
            else Inr ()) (\<lambda>_.
     sbind (buildBody request input) (\<lambda>content.
     Inr (url, \<lparr>req_method = to_str (nullish (get request ''method'') (JStr ''GET'')),
                req_headers = map (\<lambda>(k, v). (k, to_str v)) hs, req_body = content, req_signal = None\<rparr>)))))"

definition callProvider ::
    "request_platform \<Rightarrow> jsval \<Rightarrow> jsval \<Rightarrow> string \<Rightarrow> jsval \<Rightarrow> jsval \<Rightarrow> props \<Rightarrow> jsval
     \<Rightarrow> ExecutionContext option \<Rightarrow> time \<Rightarrow> request list \<Rightarrow> request list \<times> marked promise" where
  "callProvider pf manifest http operationKey operation request input validated context now sent =
     (case build_request pf http request input of
        Inl e \<Rightarrow> (sent, Settles now (Inl (ThrownVal (failure ''INVALID_ACTION_INPUT'' (error_message e)))))
      | Inr (url, init) \<Rightarrow>
          (case createConnectorHttpClient (rendered_hosts manifest input)
                  (nullish (get operation ''maxResponseBytes'') (JInt maxOperationResponseBytes))
                  (get operation ''timeoutMs'') of
             Inl e \<Rightarrow> (sent, Settles now (Inl e))
           | Inr client \<Rightarrow>
               (case fetchText (http_platform.truncate pf) client context now (Parsed url) init sent of
                  (sent', Never) \<Rightarrow> (sent', Never)
                | (sent', Settles t (Inl e)) \<Rightarrow> (sent', Settles t (Inl (ThrownVal (outbound_failure e))))
                | (sent', Settles t (Inr response)) \<Rightarrow>
                    (sent', Settles t (finish_response manifest http operationKey operation request input
                                         validated t response)))))"

section \<open>Compiled handlers\<close>

type_synonym 's handler = "ExecutionContext option \<Rightarrow> time \<Rightarrow> jsval \<Rightarrow> ('s, marked) work"

definition hasCredential :: "jsval \<Rightarrow> jsval \<Rightarrow> bool" where
  "hasCredential input credentialField =
     (\<not> truthy credentialField
      \<or> (is_record input \<and> (case get input (to_str credentialField) of JStr s \<Rightarrow> s \<noteq> [] | _ \<Rightarrow> False)))"

definition compile_credential_keys :: "jsval \<Rightarrow> jsval \<Rightarrow> string list" where
  "compile_credential_keys manifest http =
     (case get (get http ''auth'') ''field'' of JStr s \<Rightarrow> [s] | _ \<Rightarrow> []) @ [''fetch'']
     @ map (\<lambda>field. str_of (get field ''key'')) (setup_fields manifest)
     @ map (\<lambda>derived. str_of (get derived ''field'')) (items_of (get (setup_of manifest) ''derive''))"

definition closed_check :: "jsval \<Rightarrow> string list \<Rightarrow> jsval \<Rightarrow> unit res" where
  "closed_check schema keys input =
     (case input of
        JObj ps \<Rightarrow>
          (if get schema ''additionalProperties'' = JBool False
           then for_each (\<lambda>key. guard (has_own (props_of (get schema ''properties'')) key \<or> key \<in> set keys)
                  (Error ''Unsupported input field'')) (map fst ps)
           else Inr ())
      | _ \<Rightarrow> Inr ())"

definition execute_compiled ::
    "request_platform \<Rightarrow> jsval \<Rightarrow> string \<Rightarrow> jsval \<Rightarrow> (jsval \<Rightarrow> jsval res) \<Rightarrow> request list handler" where
  "execute_compiled pf manifest operationKey operation validateInput context now input sent =
     (let http = nullish (get manifest ''http'') (JObj [(''baseUrl'', JStr [])]);
          request = nullish (get operation ''request'') (JObj [])
      in if \<not> hasCredential input (get (get http ''auth'') ''field'')
         then (case validateInput input of
             Inl e \<Rightarrow> (sent, Inl e)
           | Inr validated \<Rightarrow>
               (let echo = (if get request ''echo'' = JUndef then JObj [(''validated'', validated)]
                            else renderTemplate (get request ''echo'') (JObj (props_of input)))
                in (sent, Inr (Value (unmarked (JObj (spread
                      [(''connector'', get manifest ''key''), (''action'', JStr operationKey), (''source'', JStr ''connector'')]
                      (case echo of JObj ps \<Rightarrow> ps | v \<Rightarrow> [(''validated'', v)]))))))))
         else (case validateInput input of
             Inl e \<Rightarrow> (sent, Inr (Pending (Settles now (Inl (ThrownVal
                        (failure ''INVALID_ACTION_INPUT'' (error_message e)))))))
           | Inr validated \<Rightarrow>
               (case callProvider pf manifest http operationKey operation request (props_of input) validated context now sent of
                  (sent', p) \<Rightarrow> (sent', Inr (Pending p)))))"

definition compileOperation ::
    "request_platform \<Rightarrow> jsval \<Rightarrow> string \<Rightarrow> jsval \<Rightarrow> request list handler res" where
  "compileOperation pf manifest operationKey operation =
     (let http = nullish (get manifest ''http'') (JObj [(''baseUrl'', JStr [])]);
          request = nullish (get operation ''request'') (JObj []);
          schema = nullish (get operation ''inputSchema'') (JObj [(''type'', JStr ''object'')]);
          strict = (get operation ''validationMode'' = JStr ''strict-generated'');
          keys = compile_credential_keys manifest http
      in sbind (assertSafePathSegments (str_of (nullish (get request ''path'') (JStr [])))) (\<lambda>_.
         sbind (assertBodyEncodingManifest manifest request) (\<lambda>_.
         sbind (if strict then assertStrictSchema schema False else Inr ()) (\<lambda>_.
         sbind (guard (\<not> (truthy (get operation ''enforceOutputSchema'')
                          \<and> get (get operation ''outputSchema'') ''type'' \<noteq> JStr ''object''))
                  (Error ''Output enforcement requires object schema'')) (\<lambda>_.
         sbind (if strict then compileStrictValidator schema \<lparr>credentialKeys = keys, registry = False\<rparr>
                else Inr (\<lambda>input. sbind (validateAgainstSchema input schema) (\<lambda>ps. Inr (JObj ps)))) (\<lambda>validator.
         Inr (execute_compiled pf manifest operationKey operation (\<lambda>input.
                sbind (closed_check schema keys input) (\<lambda>_. validator input)))))))))"

text \<open>The compiled actions in the order of the manifest; no sync is compiled.\<close>

fun compile_actions ::
    "request_platform \<Rightarrow> jsval \<Rightarrow> props \<Rightarrow> (string \<times> request list handler) list res" where
  "compile_actions pf manifest [] = Inr []"
| "compile_actions pf manifest ((operationKey, operation) # ops) =
     (if \<not> is_record (get operation ''request'') \<or> get operation ''kind'' \<noteq> JStr ''action''
      then compile_actions pf manifest ops
      else sbind (compileOperation pf manifest operationKey operation) (\<lambda>h.
           sbind (compile_actions pf manifest ops) (\<lambda>hs. Inr ((operationKey, h) # hs))))"

definition compileDeclarativeConnector ::
    "request_platform \<Rightarrow> jsval \<Rightarrow> (string \<times> request list handler) list res" where
  "compileDeclarativeConnector pf manifest =
     sbind (assertTemplatedHostsAreDeclared manifest) (\<lambda>_.
     sbind (assertBasicAuthConfiguration (get (get manifest ''http'') ''auth'')) (\<lambda>_.
     compile_actions pf manifest (props_of (get manifest ''operations''))))"

section \<open>Hosts come from the connection\<close>

definition required_root :: "jsval \<Rightarrow> string \<Rightarrow> bool" where
  "required_root manifest k = (map_of (required_fields manifest) k = Some True)"

text \<open>Two inputs agree on the fields a connection is bound to carry.\<close>

definition agree_on_required :: "jsval \<Rightarrow> props \<Rightarrow> props \<Rightarrow> bool" where
  "agree_on_required manifest input input' =
     (\<forall>k. required_root manifest k \<longrightarrow> prop_get input k = prop_get input' k)"

text \<open>The allow list has its declared type, an array of strings.\<close>

definition host_list :: "jsval \<Rightarrow> bool" where
  "host_list manifest =
     (let v = get (get manifest ''network'') ''allowedHosts'' in
      v = JUndef \<or> v = JNull \<or> (\<exists>ss. v = JArr (map JStr ss)))"

lemma declared_placeholder:
  assumes "assertTemplatedHostsAreDeclared manifest = Inr u" and "JStr t \<in> set (templated_hosts manifest)"
    and "e \<in> set (hole_exprs (scan t))"
  shows "required_root manifest (root_of e)"
proof -
  from bspec [OF assms(1) [unfolded assertTemplatedHostsAreDeclared_def for_each_Inr_iff] assms(2)]
  have "for_each (check_placeholder manifest) (hole_exprs (scan t)) = Inr ()" by simp
  with assms(3) have "check_placeholder manifest e = Inr ()" by (simp add: res_simps)
  then show ?thesis
    by (auto simp: check_placeholder_def required_root_def Let_def split: option.splits bool.splits)
qed

lemma declared_render_cong:
  assumes "assertTemplatedHostsAreDeclared manifest = Inr u" and "JStr t \<in> set (templated_hosts manifest)"
    and "agree_on_required manifest input input'"
  shows "renderTemplate (JStr t) (JObj input) = renderTemplate (JStr t) (JObj input')"
proof (rule renderTemplate_cong, rule ballI)
  fix e
  assume "e \<in> set (placeholders (JStr t))"
  then have "e \<in> set (hole_exprs (scan t))" by simp
  then have "required_root manifest (root_of e)" by (rule declared_placeholder [OF assms(1,2)])
  with assms(3) show "resolvePath e (JObj input) = resolvePath e (JObj input')"
    by (intro resolvePath_root_cong) (simp add: agree_on_required_def)
qed

lemma rendered_hosts_cong:
  assumes "assertTemplatedHostsAreDeclared manifest = Inr u" and "host_list manifest"
    and "agree_on_required manifest input input'"
  shows "rendered_hosts manifest input = rendered_hosts manifest input'"
proof -
  let ?v = "get (get manifest ''network'') ''allowedHosts''"
  show ?thesis
  proof (cases "?v = JUndef \<or> ?v = JNull")
    case True
    then show ?thesis by (auto simp: rendered_hosts_def nullish_def)
  next
    case False
    with assms(2) obtain ss where ss: "?v = JArr (map JStr ss)" by (auto simp: host_list_def Let_def)
    then have "JStr t \<in> set (templated_hosts manifest)" if "t \<in> set ss" for t
      using that by (simp add: templated_hosts_def items_of_def)
    then have "renderTemplate (JStr t) (JObj input) = renderTemplate (JStr t) (JObj input')" if "t \<in> set ss" for t
      using declared_render_cong [OF assms(1) _ assms(3)] that by blast
    then have "map (\<lambda>x. renderTemplate x (JObj input)) (map JStr ss)
             = map (\<lambda>x. renderTemplate x (JObj input')) (map JStr ss)"
      by simp
    then have "renderTemplate ?v (JObj input) = renderTemplate ?v (JObj input')"
      unfolding ss renderTemplate.simps by (simp only:)
    then show ?thesis using False by (simp add: rendered_hosts_def nullish_def)
  qed
qed

lemma callProvider_sent:
  assumes "callProvider pf manifest http operationKey operation request input validated context now sent = (sent', p)"
  shows "sent' = sent \<or>
    (\<exists>url init. sent' = sent @ [\<lparr>sent_url = url_href url, sent_init = init, sent_redirect = ''manual''\<rparr>]
       \<and> protocol url = ''https:'' \<and> username url = [] \<and> password url = []
       \<and> hostIsAllowed (hostname url) (rendered_hosts manifest input))"
proof (cases "build_request pf http request input")
  case (Inl e)
  with assms show ?thesis by (simp add: callProvider_def)
next
  case (Inr b)
  obtain url init where b: "b = (url, init)" by (cases b)
  let ?make = "createConnectorHttpClient (rendered_hosts manifest input)
      (nullish (get operation ''maxResponseBytes'') (JInt maxOperationResponseBytes)) (get operation ''timeoutMs'')"
  show ?thesis
  proof (cases ?make)
    case (Inl e)
    with assms Inr b show ?thesis by (simp add: callProvider_def)
  next
    case client: (Inr client)
    then have hosts: "opt_hosts client = rendered_hosts manifest input"
      by (auto simp: createConnectorHttpClient_def Let_def split: if_splits)
    obtain s q where f: "fetchText (http_platform.truncate pf) client context now (Parsed url) init sent = (s, q)"
      by (cases "fetchText (http_platform.truncate pf) client context now (Parsed url) init sent")
    with assms Inr b client have "sent' = s"
      by (auto simp: callProvider_def split: promise.splits sum.splits)
    with fetchText_sent_cases [OF f] hosts show ?thesis by metis
  qed
qed

lemma compile_actions_member:
  assumes "compile_actions pf manifest ops = Inr hs" and "(k, h) \<in> set hs"
  shows "\<exists>operation. (k, operation) \<in> set ops \<and> compileOperation pf manifest k operation = Inr h"
  using assms
proof (induction ops arbitrary: hs)
  case Nil
  then show ?case by simp
next
  case (Cons p ops)
  obtain k' op' where p: "p = (k', op')" by (cases p)
  with Cons show ?case by (auto simp: res_simps split: if_splits) blast+
qed

lemma compileOperation_Inr:
  "compileOperation pf manifest k operation = Inr h \<Longrightarrow>
   \<exists>validateInput. h = execute_compiled pf manifest k operation validateInput"
  by (auto simp: compileOperation_def Let_def res_simps)

lemma execute_compiled_sent:
  assumes "execute_compiled pf manifest k operation validateInput context now input sent = (sent', r)"
  shows "sent' = sent \<or>
    (\<exists>url init. sent' = sent @ [\<lparr>sent_url = url_href url, sent_init = init, sent_redirect = ''manual''\<rparr>]
       \<and> protocol url = ''https:'' \<and> username url = [] \<and> password url = []
       \<and> hostIsAllowed (hostname url) (rendered_hosts manifest (props_of input)))"
  using assms callProvider_sent [of pf manifest _ k operation _ "props_of input" _ "context" now sent]
  by (fastforce simp: execute_compiled_def Let_def split: if_splits sum.splits prod.splits)

lemma compiled_handler:
  assumes "compileDeclarativeConnector pf manifest = Inr actions" and "(k, h) \<in> set actions"
  obtains operation validateInput where "h = execute_compiled pf manifest k operation validateInput"
    "(k, operation) \<in> set (props_of (get manifest ''operations''))"
    "assertTemplatedHostsAreDeclared manifest = Inr ()"
proof -
  from assms(1) have "compile_actions pf manifest (props_of (get manifest ''operations'')) = Inr actions"
    and a: "assertTemplatedHostsAreDeclared manifest = Inr ()"
    by (auto simp: compileDeclarativeConnector_def res_simps)
  from compile_actions_member [OF this(1) assms(2)] compileOperation_Inr that a show thesis by blast
qed

section \<open>Outputs\<close>

lemma mark_result_keys:
  assumes "distinct (map fst ps)"
    and "splitOperationMetadata (mark_result manifest k (JObj ps)) = (JObj bare, metadata)"
  shows "map_of bare = map_of ps"
    and "map_of metadata key = (if has_own ps key then None
           else map_of [(''connector'', get manifest ''key''), (''action'', JStr k), (''source'', JStr ''provider'')] key)"
proof -
  let ?m = "[(''connector'', get manifest ''key''), (''action'', JStr k), (''source'', JStr ''provider'')]"
  let ?inj = "filter (\<lambda>key. \<not> has_own ps key) (map fst ?m)"
  have sp: "map_of (spread ?m ps) = map_of ?m ++ map_of ps"
    using assms(1) by (rule map_of_spread)
  have lookups: "map_of bare x = (if x \<in> set ?inj then None else (map_of ?m ++ map_of ps) x)
      \<and> map_of metadata x = (if x \<in> set ?inj then (map_of ?m ++ map_of ps) x else None)" for x
  proof (cases "?inj = []")
    case True
    with assms(2) have "bare = spread ?m ps" "metadata = []"
      by (auto simp: mark_result_def splitOperationMetadata_def markOperationMetadata_def Let_def
          simp del: filter.simps list.map)
    with True sp show ?thesis by simp
  next
    case False
    with assms(2) have "move_keys ?inj (spread ?m ps) [] = (bare, metadata)"
      by (auto simp: mark_result_def splitOperationMetadata_def markOperationMetadata_def Let_def
          simp del: filter.simps list.map split: prod.splits)
    from move_keys_lookup [OF this, of x] sp show ?thesis by (auto simp: has_own_iff)
  qed
  show "map_of bare = map_of ps"
  proof
    fix x
    show "map_of bare x = map_of ps x"
      using lookups [of x] by (auto simp: map_add_def has_own_iff split: option.splits)
  qed
  show "map_of metadata key = (if has_own ps key then None else map_of ?m key)"
    using lookups [of key] by (auto simp: map_add_def has_own_iff split: option.splits)
qed

section \<open>Omitted keys\<close>

text \<open>A key occurs in a value, at any depth.\<close>

fun key_occurs :: "string \<Rightarrow> jsval \<Rightarrow> bool" where
  "key_occurs k (JArr xs) = list_ex (key_occurs k) xs"
| "key_occurs k (JObj ps) = list_ex (\<lambda>p. fst p = k \<or> key_occurs k (snd p)) ps"
| "key_occurs k _ = False"

lemma set_put_all: "set (put_all ps es) \<subseteq> set ps \<union> set es"
proof (induction es arbitrary: ps)
  case (Cons e es)
  obtain k v where e: "e = (k, v)" by (cases e)
  have "set (obj_put ps k v) \<subseteq> insert e (set ps)"
    using set_obj_def [of ps k v] by (auto simp: obj_put_def e)
  with Cons.IH [of "obj_put ps k v"] show ?case by (auto simp: e)
qed simp

lemma redact_keys_omits: "k \<in> set keys \<Longrightarrow> \<not> key_occurs k (redact_keys keys v)"
proof (induction keys v rule: redact_keys.induct)
  case (2 keys ps)
  show ?case
  proof
    assume "key_occurs k (redact_keys keys (JObj ps))"
    then obtain p where p: "p \<in> set (put_all [] (map (\<lambda>p. (fst p, redact_keys keys (snd p)))
        (filter (\<lambda>p. fst p \<notin> set keys) ps)))" "fst p = k \<or> key_occurs k (snd p)"
      by (auto simp: list_ex_iff)
    from p(1) set_put_all [of "[]"] obtain q where "q \<in> set ps" "fst q \<notin> set keys"
        "p = (fst q, redact_keys keys (snd q))"
      by fastforce
    with p(2) 2 show False by auto
  qed
qed (auto simp: list_ex_iff)

lemma array_at_map: "array_at (map f xs) seg = map_option f (array_at xs seg)"
  by (auto simp: array_at_def split: option.splits)

lemma redact_prototype: "redact_keys keys (object_prototype k) = object_prototype k"
  by (auto simp: object_prototype_def)

lemma prop_get_redacted:
  assumes "distinct (map fst ps)" and "k \<notin> set keys" and "k \<noteq> ''__proto__''"
  shows "prop_get (put_all [] (map (\<lambda>p. (fst p, redact_keys keys (snd p)))
           (filter (\<lambda>p. fst p \<notin> set keys) ps))) k = redact_keys keys (prop_get ps k)"
proof -
  let ?es = "map (\<lambda>p. (fst p, redact_keys keys (snd p))) (filter (\<lambda>p. fst p \<notin> set keys) ps)"
  have "distinct (map fst ?es)" using assms(1) by (simp add: distinct_map_filter comp_def)
  moreover have "map_of ?es k = map_option (redact_keys keys) (map_of ps k)"
    using assms(1,2) by (induction ps) (auto simp: map_of_eq_None_iff)
  ultimately show ?thesis
    using assms(3) map_of_put_all [of ?es k "[]"]
    by (auto simp: prop_get_def redact_prototype split: option.splits)
qed

lemma wf_js_prototype: "wf_js (object_prototype k)"
  by (simp add: object_prototype_def)

lemma wf_js_prop_get: "wf_js (JObj ps) \<Longrightarrow> wf_js (prop_get ps k)"
proof (cases "map_of ps k")
  case (Some v)
  assume "wf_js (JObj ps)"
  with map_of_SomeD [OF Some] show ?thesis by (auto simp: prop_get_def Some list_all_iff)
qed (simp add: prop_get_def wf_js_prototype)

lemma wf_js_array_at: "wf_js (JArr xs) \<Longrightarrow> array_at xs seg = Some v \<Longrightarrow> wf_js v"
  by (auto simp: array_at_def list_all_iff split: option.splits if_splits)

lemma resolve_segs_redacted:
  assumes "wf_js v" and "\<forall>seg \<in> set segs. seg \<notin> set keys \<and> seg \<noteq> ''__proto__''"
  shows "resolve_segs (redact_keys keys v) segs = redact_keys keys (resolve_segs v segs)"
  using assms
proof (induction segs arbitrary: v)
  case Nil
  then show ?case by simp
next
  case (Cons seg segs)
  show ?case
  proof (cases v)
    case (JArr xs)
    with Cons.prems have "wf_js x" if "array_at xs seg = Some x" for x
      using wf_js_array_at that by blast
    with Cons JArr show ?thesis by (auto simp: array_at_map split: option.splits)
  next
    case (JObj ps)
    have "resolve_segs (redact_keys keys v) (seg # segs) = resolve_segs (redact_keys keys (prop_get ps seg)) segs"
      using Cons.prems JObj by (simp add: prop_get_redacted)
    also have "\<dots> = redact_keys keys (resolve_segs (prop_get ps seg) segs)"
      using Cons.prems JObj by (intro Cons.IH) (auto intro: wf_js_prop_get simp del: wf_js.simps)
    finally show ?thesis by (simp add: JObj)
  qed auto
qed

section \<open>Theorems\<close>


definition gitlab_manifest :: jsval where
  "gitlab_manifest = JObj
     [(''key'', JStr ''gitlab''),
      (''auth'', JObj [(''setup'', JObj [(''fields'', JArr
         [JObj [(''key'', JStr ''host''), (''required'', JBool True)],
          JObj [(''key'', JStr ''token''), (''required'', JBool True), (''secret'', JBool True)]])])]),
      (''network'', JObj [(''allowedHosts'', JArr [JStr ''{{host}}''])]),
      (''http'', JObj [(''baseUrl'', JStr ''https://{{host}}/api''),
         (''auth'', JObj [(''field'', JStr ''token''), (''name'', JStr ''PRIVATE-TOKEN'')])]),
      (''operations'', JObj [(''project.get'', JObj [(''kind'', JStr ''action''),
         (''request'', JObj [(''path'', JStr ''/projects/{{id}}'')])])])]"

definition gitlab_platform :: request_platform where
  "gitlab_platform =
     \<lparr>p_parse = (\<lambda>t. if t = ''https://git.acme.io/api/projects/7'' then
         Some \<lparr>protocol = ''https:'', username = [], password = [], hostname = ''git.acme.io'', port = [],
               pathname = ''/api/projects/7'', search = [], hash = []\<rparr> else None),
      p_fetch = (\<lambda>t r. Settles (t + 5) (Inr \<lparr>res_status = 200, res_headers = [], res_body = None\<rparr>)),
      p_decode = map char_of, p_params = (\<lambda>_. []), p_search = id\<rparr>"

definition gitlab_input :: jsval where
  "gitlab_input = JObj [(''id'', JInt 7), (''host'', JStr ''git.acme.io''), (''token'', JStr ''glpat'')]"


text \<open>An output loses its bookkeeping and nothing else. Splitting the marked output of a provider
  call gives back exactly the properties of the shaped result, and the metadata holds the injected
  keys that the result did not define itself.\<close>

theorem provider_output_roundtrip:
  assumes "distinct (map fst ps)"
    and "splitOperationMetadata (mark_result manifest k (JObj ps)) = (JObj bare, metadata)"
  shows "map_of bare = map_of ps
    \<and> (\<forall>key. map_of metadata key = (if has_own ps key then None
         else map_of [(''connector'', get manifest ''key''), (''action'', JStr k), (''source'', JStr ''provider'')] key))"
  using mark_result_keys [OF assms] by blast

theorem provider_output_roundtrip_witness:
  "map_of [(''data'', JNull), (''source'', JStr ''x'')] = map_of [(''source'', JStr ''x''), (''data'', JNull)]"
proof -
  have "splitOperationMetadata (mark_result gitlab_manifest ''project.get'' (JObj [(''data'', JNull), (''source'', JStr ''x'')]))
      = (JObj [(''source'', JStr ''x''), (''data'', JNull)],
         [(''connector'', JStr ''gitlab''), (''action'', JStr ''project.get'')])"
    by code_simp
  from provider_output_roundtrip [OF _ this] show ?thesis by simp
qed

text \<open>Omitted response keys are gone and the rest is intact. After the omission no object of the
  result has one of the keys, at any depth, and a path that names none of them resolves to what it
  resolved to before, with the keys omitted there.\<close>

theorem redactResponseKeys_correct:
  assumes "wf_js v"
  shows "(\<forall>k \<in> set keys. \<not> key_occurs k (redactResponseKeys v keys))
    \<and> (\<forall>segs. (\<forall>seg \<in> set segs. seg \<notin> set keys \<and> seg \<noteq> ''__proto__'')
         \<longrightarrow> resolve_segs (redactResponseKeys v keys) segs = redactResponseKeys (resolve_segs v segs) keys)"
  using redact_keys_omits resolve_segs_redacted [OF assms] by (simp add: redactResponseKeys_def)

theorem redactResponseKeys_correct_witness:
  "resolve_segs (redactResponseKeys (JObj [(''zones'', JArr [JObj [(''Id'', JInt 1), (''Password'', JStr ''p'')]])])
      [''Password'']) [''zones'', ''0'', ''Id''] = JInt 1"
proof -
  let ?v = "JObj [(''zones'', JArr [JObj [(''Id'', JInt 1), (''Password'', JStr ''p'')]])]"
  have w: "wf_js ?v" by code_simp
  have "redactResponseKeys (resolve_segs ?v [''zones'', ''0'', ''Id'']) [''Password''] = JInt 1" by code_simp
  moreover have "\<forall>seg \<in> set [''zones'', ''0'', ''Id'']. seg \<notin> set [''Password''] \<and> seg \<noteq> ''__proto__''"
    by simp
  ultimately show ?thesis using redactResponseKeys_correct [OF w, of "[''Password'']"] by metis
qed

text \<open>The message of a provider never quotes a credential. In the detail of an upstream failure no
  value of a credential key survives, neither in plain nor in an URL-encoded spelling, provided it
  does not overlap the redaction mark.\<close>

theorem redactCredentialDetail_hides:
  assumes "key \<in> set (credential_keys manifest http)" and "prop_get input key = JStr v"
    and "w \<in> {v, form_encode v, encode_uri v, lower_escapes (form_encode v), lower_escapes (encode_uri v)}"
    and "hidden_by w ''[REDACTED]''" and "v \<noteq> []"
  shows "\<not> sublist w (redactCredentialDetail detail manifest http input)"
proof -
  let ?variants = "concat (map (\<lambda>v. [v, lower_escapes v]) (set_of_list (credential_variants manifest http input)))"
  have "{v, form_encode v, encode_uri v} \<subseteq> set (credential_variants manifest http input)"
    using assms(1,2,5) by (force simp: credential_variants_def)
  then have "w \<in> set ?variants" using assms(3) by auto
  then show ?thesis
    unfolding redactCredentialDetail_def Let_def
    by (intro fold_replace_all_hides [OF assms(4)]) simp
qed

theorem redactCredentialDetail_hides_witness:
  "\<not> sublist ''gl%2fpat'' (redactCredentialDetail ''bad token gl%2fpat'' gitlab_manifest
      (get gitlab_manifest ''http'') [(''token'', JStr ''gl/pat'')])"
proof (rule redactCredentialDetail_hides)
  show "''token'' \<in> set (credential_keys gitlab_manifest (get gitlab_manifest ''http''))" by code_simp
  show "prop_get [(''token'', JStr ''gl/pat'')] ''token'' = JStr ''gl/pat''" by code_simp
  have "lower_escapes (encode_uri ''gl/pat'') = ''gl%2fpat''" by code_simp
  then show "''gl%2fpat'' \<in> {''gl/pat'', form_encode ''gl/pat'', encode_uri ''gl/pat'',
      lower_escapes (form_encode ''gl/pat''), lower_escapes (encode_uri ''gl/pat'')}" by simp
  show "hidden_by ''gl%2fpat'' ''[REDACTED]''" by code_simp
qed simp

lemma body_delay_bounded: "body_delay body paths = Some v \<Longrightarrow> \<exists>s. v = JInt s \<and> 0 < s \<and> s \<le> 3600"
  by (induction paths)
     (auto simp: positive_seconds_def maxRetryAfterSeconds_def ceiling_le_iff split: option.splits if_splits)

text \<open>A provider cannot make a caller wait for years. With an absolute reset time the retry delay
  is the manifest's default or a whole number of seconds between one and 3600, whatever the headers
  and the body say.\<close>

theorem parseRetryAfter_bounded:
  assumes "get errors ''retryAfterKind'' = JStr ''unix''"
  shows "parseRetryAfter headers body errors now = nullish (get errors ''defaultRetryAfterSeconds'') (JInt 10)
    \<or> (\<exists>s. parseRetryAfter headers body errors now = JInt s \<and> 0 < s \<and> s \<le> 3600)"
  using assms body_delay_bounded [of body "items_of (get errors ''retryAfterPaths'')"]
  by (auto simp: parseRetryAfter_def Let_def maxRetryAfterSeconds_def split: option.splits if_splits)

theorem parseRetryAfter_bounded_witness:
  "\<exists>s. parseRetryAfter [] (JObj [(''retry_in'', JNum (Fin (59 / 2)))])
        (JObj [(''retryAfterKind'', JStr ''unix''), (''retryAfterPaths'', JArr [JStr ''retry_in''])]) 0
     = JInt s \<and> 0 < s \<and> s \<le> 3600"
proof -
  let ?e = "JObj [(''retryAfterKind'', JStr ''unix''), (''retryAfterPaths'', JArr [JStr ''retry_in''])]"
  let ?b = "JObj [(''retry_in'', JNum (Fin (59 / 2)))]"
  have k: "get ?e ''retryAfterKind'' = JStr ''unix''" by code_simp
  have r: "parseRetryAfter [] ?b ?e 0 = JInt 30" by code_simp
  have d: "nullish (get ?e ''defaultRetryAfterSeconds'') (JInt 10) = JInt 10" by code_simp
  from parseRetryAfter_bounded [OF k, of "[]" ?b 0] show ?thesis unfolding r d by auto
qed

text \<open>
  The check of templated hosts looks at the last declaration of a field. A field that is optional in
  one setup route and required in a later one is accepted, although a connection set up through the
  first route need not carry it.
\<close>

definition two_route_manifest :: jsval where
  "two_route_manifest = JObj
     [(''key'', JStr ''wiki''),
      (''auth'', JObj [(''setup'', JObj [(''routes'', JArr
         [JObj [(''fields'', JArr [JObj [(''key'', JStr ''site''), (''required'', JBool False)]])],
          JObj [(''fields'', JArr [JObj [(''key'', JStr ''site''), (''required'', JBool True)]])]])])]),
      (''network'', JObj [(''allowedHosts'', JArr [JStr ''{{site}}''])])]"

lemma optional_route_host_accepted:
  "assertTemplatedHostsAreDeclared two_route_manifest = Inr ()
   \<and> rendered_hosts two_route_manifest [(''site'', JStr ''caller.example'')] = [''caller.example'']"
  by (rule conjI; code_simp)

end
