(* ===== verification/InputSchema.thy ===== *)
theory InputSchema
  imports Strict
begin

text \<open>
  \<open>runner/bun/src/input_schema.ts\<close>: the validators the registry runs before a handler. The two
  caches of the source are kept: \<open>keysByKind\<close> while the registry is built and \<open>compiled\<close> while it
  serves. Both are shown to be invisible through the locale \<open>memo_table\<close>, the interface of a cache in
  front of a function.
\<close>

section \<open>Caches in front of a function\<close>

text \<open>A lookup that may update a cache, and the function it stands for.\<close>

locale memo_table =
  fixes lookup :: "'s \<Rightarrow> 'k \<Rightarrow> 's \<times> 'v"
    and spec :: "'k \<Rightarrow> 'v"
    and coherent :: "'s \<Rightarrow> bool"
  assumes lookup_value: "coherent s \<Longrightarrow> snd (lookup s k) = spec k"
    and lookup_coherent: "coherent s \<Longrightarrow> coherent (fst (lookup s k))"
begin

fun lookups :: "'s \<Rightarrow> 'k list \<Rightarrow> 's \<times> 'v list" where
  "lookups s [] = (s, [])"
| "lookups s (k # ks) =
     (let (s', v) = lookup s k; (s'', vs) = lookups s' ks in (s'', v # vs))"

lemma lookups_spec: "coherent s \<Longrightarrow> snd (lookups s ks) = map spec ks"
proof (induction ks arbitrary: s)
  case (Cons k ks)
  then show ?case
    using lookup_value [of s k] lookup_coherent [of s k]
    by (auto simp: split_beta)
qed simp

lemma lookups_coherent: "coherent s \<Longrightarrow> coherent (fst (lookups s ks))"
proof (induction ks arbitrary: s)
  case (Cons k ks)
  then show ?case
    using lookup_coherent [of s k] by (auto simp: split_beta)
qed simp

end

section \<open>Keys the runtime injects\<close>

text \<open>The part of a manifest that input validation reads; the registry's manifests extend it.\<close>

record schema_manifest =
  mkey :: string
  operations :: jsval
  auth :: jsval
  http :: jsval

definition RUNTIME_INPUT_KEYS :: "string list" where
  "RUNTIME_INPUT_KEYS = [''accessToken'', ''fetch'']"

definition SYNC_RUNTIME_INPUT_KEYS :: "string list" where
  "SYNC_RUNTIME_INPUT_KEYS = [''cursor'']"

text \<open>
  \<open>CONNECTOR_RUNTIME_INPUT_KEYS[key] ?? []\<close>; a name found on \<open>Object.prototype\<close> is not iterable.
\<close>

definition CONNECTOR_RUNTIME_INPUT_KEYS :: "string \<Rightarrow> string list res" where
  "CONNECTOR_RUNTIME_INPUT_KEYS key =
     (if key = ''unipile'' then Inr [''account_id'']
      else if object_prototype key = JUndef then Inr []
      else Inl (ErrorInst ''TypeError'' ''object is not iterable'' []))"

definition array_of :: "jsval \<Rightarrow> jsval list" where
  "array_of v = (case v of JArr xs \<Rightarrow> xs | _ \<Rightarrow> [])"

fun string_field :: "string \<Rightarrow> jsval \<Rightarrow> string list" where
  "string_field name (JObj ps) = (case prop_get ps name of JStr s \<Rightarrow> [s] | _ \<Rightarrow> [])"
| "string_field name _ = []"

definition record_or_empty :: "jsval \<Rightarrow> jsval" where
  "record_or_empty v = (if is_record v then v else JObj [])"

definition addFields :: "jsval \<Rightarrow> string list" where
  "addFields flds = concat (map (string_field ''key'') (array_of flds))"

definition runtimeInputKeys :: "'a schema_manifest_scheme \<Rightarrow> jsval \<Rightarrow> string list res" where
  "runtimeInputKeys manifest kind =
     sbind (CONNECTOR_RUNTIME_INPUT_KEYS (mkey manifest)) (\<lambda>own.
     (let setup = record_or_empty (get (record_or_empty (auth manifest)) ''setup'');
          httpAuth = record_or_empty (get (record_or_empty (http manifest)) ''auth'')
      in Inr (RUNTIME_INPUT_KEYS @ own
              @ (if kind = JStr ''sync'' then SYNC_RUNTIME_INPUT_KEYS else [])
              @ addFields (get setup ''fields'')
              @ concat (map (\<lambda>route. if is_record route then addFields (get route ''fields'') else [])
                            (array_of (get setup ''routes'')))
              @ concat (map (string_field ''field'') (array_of (get setup ''derive'')))
              @ string_field ''field'' httpAuth)))"

section \<open>Building the validators\<close>

record prepared =
  pschema :: jsval
  pkeys :: "string list"

type_synonym validator = "jsval \<Rightarrow> jsval res"

record validators =
  prepared :: "string \<rightharpoonup> (string \<rightharpoonup> prepared)"
  compiled :: "string \<rightharpoonup> (string \<rightharpoonup> validator)"

definition error_text :: "thrown \<Rightarrow> string" where
  "error_text e = (case e of ErrorInst _ m _ \<Rightarrow> m | ThrownVal v \<Rightarrow> to_str v)"

text \<open>\<open>keysByKind\<close>: the keys are computed at the first operation of each kind.\<close>

type_synonym kinds = "(jsval \<times> string list) list"

definition keys_by_kind :: "'a schema_manifest_scheme \<Rightarrow> kinds \<Rightarrow> jsval \<Rightarrow> kinds \<times> string list res" where
  "keys_by_kind manifest memo kind =
     (case map_of memo kind of
        Some keys \<Rightarrow> (memo, Inr keys)
      | None \<Rightarrow>
          (case runtimeInputKeys manifest kind of
             Inl e \<Rightarrow> (memo, Inl e)
           | Inr keys \<Rightarrow> ((kind, keys) # memo, Inr keys)))"

fun prepare_operations ::
    "'a schema_manifest_scheme \<Rightarrow> props \<Rightarrow> kinds \<Rightarrow> (string \<rightharpoonup> prepared) \<Rightarrow> (string \<rightharpoonup> prepared) res" where
  "prepare_operations manifest [] memo byOperation = Inr byOperation"
| "prepare_operations manifest ((operation, spec) # ops) memo byOperation =
     (let schema = get spec ''inputSchema'' in
      if \<not> is_record spec \<or> \<not> is_record schema then prepare_operations manifest ops memo byOperation
      else (case assertStrictSchema schema True of
          Inl e \<Rightarrow> Inl (Error (mkey manifest @ ''.'' @ operation
                     @ '': inputSchema cannot be enforced at dispatch: '' @ error_text e))
        | Inr _ \<Rightarrow>
            (case keys_by_kind manifest memo (get spec ''kind'') of
               (memo', Inl e) \<Rightarrow> Inl e
             | (memo', Inr keys) \<Rightarrow>
                 prepare_operations manifest ops memo'
                   (byOperation(operation \<mapsto> \<lparr>pschema = schema, pkeys = keys\<rparr>)))))"

fun prepare_manifests ::
    "'a schema_manifest_scheme list \<Rightarrow> (string \<rightharpoonup> (string \<rightharpoonup> prepared))
     \<Rightarrow> (string \<rightharpoonup> (string \<rightharpoonup> prepared)) res" where
  "prepare_manifests [] table = Inr table"
| "prepare_manifests (manifest # ms) table =
     sbind (prepare_operations manifest (props_of (operations manifest)) [] Map.empty) (\<lambda>byOperation.
     prepare_manifests ms (table(mkey manifest \<mapsto> byOperation)))"

definition buildInputValidators :: "'a schema_manifest_scheme list \<Rightarrow> validators res" where
  "buildInputValidators manifests =
     sbind (prepare_manifests manifests Map.empty) (\<lambda>table.
     Inr \<lparr>prepared = table, compiled = Map.empty\<rparr>)"

definition lookup2 :: "('a \<rightharpoonup> ('b \<rightharpoonup> 'c)) \<Rightarrow> 'a \<Rightarrow> 'b \<Rightarrow> 'c option" where
  "lookup2 table a b = (case table a of None \<Rightarrow> None | Some inner \<Rightarrow> inner b)"

definition update2 :: "('a \<rightharpoonup> ('b \<rightharpoonup> 'c)) \<Rightarrow> 'a \<Rightarrow> 'b \<Rightarrow> 'c \<Rightarrow> ('a \<rightharpoonup> ('b \<rightharpoonup> 'c))" where
  "update2 table a b c =
     (case table a of
        None \<Rightarrow> table(a \<mapsto> [b \<mapsto> c])
      | Some inner \<Rightarrow> table(a \<mapsto> inner(b \<mapsto> c)))"

text \<open>\<open>InputValidators.get\<close>: compiled on the first dispatch of an operation, then cached.\<close>

definition get_validator :: "validators \<Rightarrow> string \<times> string \<Rightarrow> validators \<times> validator option res" where
  "get_validator vs = (\<lambda>(connectorKey, operation).
     (case lookup2 (compiled vs) connectorKey operation of
        Some cached \<Rightarrow> (vs, Inr (Some cached))
      | None \<Rightarrow>
          (case lookup2 (prepared vs) connectorKey operation of
             None \<Rightarrow> (vs, Inr None)
           | Some entry \<Rightarrow>
               (case compileStrictValidator (pschema entry) \<lparr>credentialKeys = pkeys entry, registry = True\<rparr> of
                  Inl e \<Rightarrow> (vs, Inl e)
                | Inr validate \<Rightarrow>
                    (vs\<lparr>compiled := update2 (compiled vs) connectorKey operation validate\<rparr>,
                     Inr (Some validate))))))"

definition invalid_input :: "string \<Rightarrow> string \<Rightarrow> thrown \<Rightarrow> jsval" where
  "invalid_input connectorKey operation e =
     JObj [(''ok'', JBool False), (''code'', JStr ''INVALID_ACTION_INPUT''),
           (''message'', JStr (connectorKey @ ''.'' @ operation @ '': ''
              @ (case e of ErrorInst _ m _ \<Rightarrow> m | ThrownVal _ \<Rightarrow> ''Action input is invalid.'')))]"

text \<open>The verdict of a validator that was found, \<open>None\<close> for \<open>null\<close>.\<close>

definition verdict :: "string \<Rightarrow> string \<Rightarrow> validator option \<Rightarrow> jsval \<Rightarrow> jsval option" where
  "verdict connectorKey operation found input =
     (case found of
        None \<Rightarrow> None
      | Some validate \<Rightarrow>
          (case validate (if input = JUndef then JObj [] else input) of
             Inr _ \<Rightarrow> None
           | Inl e \<Rightarrow> Some (invalid_input connectorKey operation e)))"

definition validateDispatchInput ::
    "validators \<Rightarrow> string \<Rightarrow> string \<Rightarrow> jsval \<Rightarrow> validators \<times> jsval option res" where
  "validateDispatchInput vs connectorKey operation input =
     (case get_validator vs (connectorKey, operation) of
        (vs', Inl e) \<Rightarrow> (vs', Inl e)
      | (vs', Inr found) \<Rightarrow> (vs', Inr (verdict connectorKey operation found input)))"

section \<open>The caches are invisible\<close>

lemma lookup2_empty [simp]: "lookup2 Map.empty a b = None"
  by (simp add: lookup2_def)

lemma lookup2_update2: "lookup2 (update2 t a b c) a' b' = (if a' = a \<and> b' = b then Some c else lookup2 t a' b')"
  by (auto simp: lookup2_def update2_def split: option.splits)

definition kinds_coherent :: "'a schema_manifest_scheme \<Rightarrow> kinds \<Rightarrow> bool" where
  "kinds_coherent manifest memo = (\<forall>kind keys. map_of memo kind = Some keys \<longrightarrow>
     runtimeInputKeys manifest kind = Inr keys)"

interpretation kind_cache: memo_table "keys_by_kind manifest" "runtimeInputKeys manifest"
    "kinds_coherent manifest" for manifest
  by unfold_locales
     (auto simp: keys_by_kind_def kinds_coherent_def split: option.splits sum.splits)

definition entry_validator :: "prepared \<Rightarrow> validator res" where
  "entry_validator entry =
     compileStrictValidator (pschema entry) \<lparr>credentialKeys = pkeys entry, registry = True\<rparr>"

definition fresh_validator ::
    "(string \<rightharpoonup> (string \<rightharpoonup> prepared)) \<Rightarrow> string \<times> string \<Rightarrow> validator option res" where
  "fresh_validator table key =
     (case lookup2 table (fst key) (snd key) of
        None \<Rightarrow> Inr None
      | Some entry \<Rightarrow> sbind (entry_validator entry) (\<lambda>validate. Inr (Some validate)))"

definition cache_coherent :: "(string \<rightharpoonup> (string \<rightharpoonup> prepared)) \<Rightarrow> validators \<Rightarrow> bool" where
  "cache_coherent table vs =
     (prepared vs = table
      \<and> (\<forall>c op validate. lookup2 (compiled vs) c op = Some validate \<longrightarrow>
           (\<exists>entry. lookup2 table c op = Some entry \<and> entry_validator entry = Inr validate)))"

lemma get_validator_cases:
  assumes "cache_coherent table vs" and "get_validator vs key = (vs', r)"
  shows "r = fresh_validator table key" "cache_coherent table vs'"
  using assms
  by (cases key;
      fastforce simp: get_validator_def fresh_validator_def cache_coherent_def entry_validator_def
        lookup2_update2 split: option.splits sum.splits if_splits)+

interpretation validator_cache: memo_table get_validator "fresh_validator table"
    "cache_coherent table" for table
proof
  fix vs key
  assume c: "cache_coherent table vs"
  obtain vs' r where g: "get_validator vs key = (vs', r)" by (cases "get_validator vs key")
  from get_validator_cases [OF c g] g show "snd (get_validator vs key) = fresh_validator table key"
    and "cache_coherent table (fst (get_validator vs key))"
    by simp_all
qed

section \<open>What a registry enforces\<close>

text \<open>The schema and keys that the manifests declare for an operation; a later manifest with the
  same connector key replaces an earlier one.\<close>

definition prepared_of :: "'a schema_manifest_scheme \<Rightarrow> jsval \<Rightarrow> prepared option" where
  "prepared_of manifest spec =
     (if is_record spec \<and> is_record (get spec ''inputSchema'')
      then Some \<lparr>pschema = get spec ''inputSchema'',
                 pkeys = (case runtimeInputKeys manifest (get spec ''kind'') of Inr ks \<Rightarrow> ks | Inl _ \<Rightarrow> [])\<rparr>
      else None)"

fun declared_schema :: "'a schema_manifest_scheme list \<Rightarrow> string \<Rightarrow> string \<Rightarrow> prepared option" where
  "declared_schema [] c operation = None"
| "declared_schema (m # ms) c operation =
     (if c \<in> set (map mkey ms) then declared_schema ms c operation
      else if mkey m = c then Option.bind (map_of (props_of (operations m)) operation) (prepared_of m)
      else None)"

definition distinct_operations :: "'a schema_manifest_scheme list \<Rightarrow> bool" where
  "distinct_operations ms = list_all (\<lambda>m. distinct (map fst (props_of (operations m)))) ms"

lemma keys_by_kind_spec:
  assumes "kinds_coherent manifest memo" and "keys_by_kind manifest memo kind = (memo', r)"
  shows "r = runtimeInputKeys manifest kind" "kinds_coherent manifest memo'"
  using kind_cache.lookup_value [OF assms(1), of kind] kind_cache.lookup_coherent [OF assms(1), of kind]
    assms(2) by simp_all

lemma prepare_operations_spec:
  assumes "prepare_operations manifest ops memo by = Inr t" and "kinds_coherent manifest memo"
    and "distinct (map fst ops)"
  shows "t operation = (case Option.bind (map_of ops operation) (prepared_of manifest) of
           Some entry \<Rightarrow> Some entry | None \<Rightarrow> by operation)"
    and "Option.bind (map_of ops operation) (prepared_of manifest) = Some entry \<Longrightarrow>
           assertStrictSchema (pschema entry) True = Inr ()"
proof -
  have "t operation = (case Option.bind (map_of ops operation) (prepared_of manifest) of
           Some entry \<Rightarrow> Some entry | None \<Rightarrow> by operation)
        \<and> (\<forall>entry. Option.bind (map_of ops operation) (prepared_of manifest) = Some entry \<longrightarrow>
             assertStrictSchema (pschema entry) True = Inr ())"
    using assms
  proof (induction manifest ops memo "by" rule: prepare_operations.induct)
    case (1 manifest memo "by")
    then show ?case by simp
  next
    case (2 manifest op spec ops memo "by")
    show ?case
    proof (cases "is_record spec \<and> is_record (get spec ''inputSchema'')")
      case False
      then have "prepared_of manifest spec = None" by (auto simp: prepared_of_def)
      moreover have "map_of ops op = None" using 2(5) by (simp add: map_of_eq_None_iff)
      ultimately show ?thesis using 2(1) [OF refl] 2(3,4,5) False
        by (auto simp: Let_def)
    next
      case rec: True
      with 2(3) obtain keys memo' where
          s: "assertStrictSchema (get spec ''inputSchema'') True = Inr ()"
          and k: "keys_by_kind manifest memo (get spec ''kind'') = (memo', Inr keys)"
          and t: "prepare_operations manifest ops memo'
             (by(op \<mapsto> \<lparr>pschema = get spec ''inputSchema'', pkeys = keys\<rparr>)) = Inr t"
        by (auto simp: Let_def split: sum.splits prod.splits)
      have keys: "runtimeInputKeys manifest (get spec ''kind'') = Inr keys"
        and coh: "kinds_coherent manifest memo'"
        using keys_by_kind_spec [OF 2(4) k] by simp_all
      have "map_of ops op = None" using 2(5) by (simp add: map_of_eq_None_iff)
      moreover have "prepared_of manifest spec = Some \<lparr>pschema = get spec ''inputSchema'', pkeys = keys\<rparr>"
        using rec keys by (simp add: prepared_of_def)
      ultimately show ?thesis using 2(2) [OF refl _ s k [symmetric] refl t coh] 2(5) rec s
        by (auto split: option.splits)
    qed
  qed
  then show "t operation = (case Option.bind (map_of ops operation) (prepared_of manifest) of
           Some entry \<Rightarrow> Some entry | None \<Rightarrow> by operation)"
    and "Option.bind (map_of ops operation) (prepared_of manifest) = Some entry \<Longrightarrow>
           assertStrictSchema (pschema entry) True = Inr ()"
    by simp_all
qed

lemma prepare_manifests_spec:
  assumes "prepare_manifests ms t0 = Inr t" and "distinct_operations ms"
  shows "lookup2 t c operation =
           (if c \<in> mkey ` set ms then declared_schema ms c operation else lookup2 t0 c operation)
         \<and> (\<forall>entry. declared_schema ms c operation = Some entry \<longrightarrow>
              assertStrictSchema (pschema entry) True = Inr ())"
  using assms
proof (induction ms arbitrary: t0)
  case Nil
  then show ?case by simp
next
  case (Cons m ms)
  then obtain ops where ops: "prepare_operations m (props_of (operations m)) [] Map.empty = Inr ops"
      and t: "prepare_manifests ms (t0(mkey m \<mapsto> ops)) = Inr t"
      and d: "distinct (map fst (props_of (operations m)))" "distinct_operations ms"
    by (auto simp: res_simps distinct_operations_def)
  have coh: "kinds_coherent m []" by (simp add: kinds_coherent_def)
  note spec = prepare_operations_spec [OF ops coh d(1)]
  have val: "ops operation = Option.bind (map_of (props_of (operations m)) operation) (prepared_of m)"
    using spec(1) [of operation] by (simp split: option.splits)
  from Cons.IH [OF t d(2)] show ?case
    using spec(2) [of operation] val by (auto simp: lookup2_def)
qed

text \<open>The validators after a sequence of dispatches.\<close>

definition after_dispatches :: "validators \<Rightarrow> (string \<times> string \<times> jsval) list \<Rightarrow> validators" where
  "after_dispatches vs calls = foldl (\<lambda>vs (c, operation, input).
     fst (validateDispatchInput vs c operation input)) vs calls"

lemma validateDispatchInput_coherent:
  "cache_coherent table vs \<Longrightarrow> cache_coherent table (fst (validateDispatchInput vs c operation input))"
  using validator_cache.lookup_coherent [of table vs "(c, operation)"]
  by (auto simp: validateDispatchInput_def split: prod.splits sum.splits)

lemma after_dispatches_coherent:
  "cache_coherent table vs \<Longrightarrow> cache_coherent table (after_dispatches vs calls)"
  by (induction calls arbitrary: vs)
     (auto simp: after_dispatches_def validateDispatchInput_coherent)

lemma buildInputValidators_spec:
  assumes "buildInputValidators ms = Inr vs" and "distinct_operations ms"
  shows "cache_coherent (prepared vs) vs"
    and "lookup2 (prepared vs) c operation = declared_schema ms c operation"
    and "declared_schema ms c operation = Some entry \<Longrightarrow> assertStrictSchema (pschema entry) True = Inr ()"
proof -
  from assms(1) have p: "prepare_manifests ms Map.empty = Inr (prepared vs)" and c: "compiled vs = Map.empty"
    by (auto simp: buildInputValidators_def res_simps)
  show "cache_coherent (prepared vs) vs" by (simp add: cache_coherent_def c)
  have "c \<notin> set (map mkey ms) \<Longrightarrow> declared_schema ms c operation = None"
    by (induction ms) auto
  with prepare_manifests_spec [OF p assms(2), of c operation]
  show "lookup2 (prepared vs) c operation = declared_schema ms c operation"
    and "declared_schema ms c operation = Some entry \<Longrightarrow> assertStrictSchema (pschema entry) True = Inr ()"
    by (auto split: if_splits)
qed

definition dispatch_value :: "jsval \<Rightarrow> jsval" where
  "dispatch_value input = (if input = JUndef then JObj [] else input)"

lemma entry_verdict:
  assumes "assertStrictSchema (pschema entry) True = Inr ()"
  obtains validate where "entry_validator entry = Inr validate"
    "\<And>v. case validate v of
        Inr _ \<Rightarrow> accepts (registry_options (pkeys entry)) 65 (pschema entry) True v
      | Inl e \<Rightarrow> is_limit e \<or> \<not> accepts (registry_options (pkeys entry)) 65 (pschema entry) True v"
proof -
  let ?o = "registry_options (pkeys entry)"
  let ?chk = "\<lambda>v. check_node ?o 65 (pschema entry) v [] KNone"
  let ?f = "\<lambda>v. sbind (snd (?chk v 0)) (\<lambda>_. Inr (strict_output ?o (pschema entry) v))"
  have "case ?f v of Inr _ \<Rightarrow> accepts ?o 65 (pschema entry) True v
          | Inl e \<Rightarrow> is_limit e \<or> \<not> accepts ?o 65 (pschema entry) True v" for v
  proof -
    have "case snd (?chk v 0) of Inr _ \<Rightarrow> accepts ?o 65 (pschema entry) True v
          | Inl e \<Rightarrow> is_limit e \<or> \<not> accepts ?o 65 (pschema entry) True v"
      using check_node_decides [of ?o 65 "pschema entry" v "[]" KNone]
      unfolding decides_def pathOf.simps simp_thms by blast
    then show ?thesis by (cases "snd (?chk v 0)") simp_all
  qed
  moreover have "entry_validator entry = Inr ?f"
    using assms by (simp add: entry_validator_def compileStrictValidator_def MAX_DEPTH_def)
  ultimately show thesis by (rule that [rotated])
qed

lemma dispatch_verdict:
  assumes "buildInputValidators ms = Inr vs0" and "distinct_operations ms" and "cache_coherent (prepared vs0) vs"
  shows "\<exists>answer. snd (validateDispatchInput vs c operation input) = Inr answer
    \<and> (case declared_schema ms c operation of
         None \<Rightarrow> answer = None
       | Some entry \<Rightarrow>
           (case answer of
              None \<Rightarrow> accepts (registry_options (pkeys entry)) 65 (pschema entry) True (dispatch_value input)
            | Some failure \<Rightarrow>
                (\<exists>e. failure = invalid_input c operation e
                   \<and> (is_limit e
                      \<or> \<not> accepts (registry_options (pkeys entry)) 65 (pschema entry) True
                            (dispatch_value input)))))"
proof -
  note built = buildInputValidators_spec [OF assms(1,2)]
  have g: "snd (get_validator vs (c, operation)) = fresh_validator (prepared vs0) (c, operation)"
    by (rule validator_cache.lookup_value [OF assms(3)])
  show ?thesis
  proof (cases "declared_schema ms c operation")
    case None
    with g built(2) [of c operation] show ?thesis
      by (auto simp: fresh_validator_def validateDispatchInput_def verdict_def split: prod.splits)
  next
    case (Some entry)
    obtain validate where v: "entry_validator entry = Inr validate"
      and ok: "\<And>v. case validate v of
          Inr _ \<Rightarrow> accepts (registry_options (pkeys entry)) 65 (pschema entry) True v
        | Inl e \<Rightarrow> is_limit e \<or> \<not> accepts (registry_options (pkeys entry)) 65 (pschema entry) True v"
      using entry_verdict [OF built(3) [OF Some]] by blast
    have "snd (get_validator vs (c, operation)) = Inr (Some validate)"
      using g built(2) [of c operation] Some v by (simp add: fresh_validator_def)
    then have "snd (validateDispatchInput vs c operation input) = Inr (verdict c operation (Some validate) input)"
      by (auto simp: validateDispatchInput_def split: prod.splits)
    with ok [of "dispatch_value input"] Some show ?thesis
      by (auto simp: verdict_def dispatch_value_def split: sum.splits)
  qed
qed

text \<open>C39: the registry enforces the manifest schema of every operation. Once the validators are
  built, a dispatch never throws; whatever was dispatched before, it lets an input through only if
  the operation declares no schema or the schema accepts the input, and it rejects with an
  \<open>INVALID_ACTION_INPUT\<close> envelope only inputs the schema does not accept or that are nested beyond
  the limit.\<close>

theorem validateDispatchInput_enforces:
  assumes "buildInputValidators ms = Inr vs" and "distinct_operations ms"
  shows "\<exists>answer. snd (validateDispatchInput (after_dispatches vs calls) c operation input) = Inr answer
    \<and> (case declared_schema ms c operation of
         None \<Rightarrow> answer = None
       | Some entry \<Rightarrow>
           (case answer of
              None \<Rightarrow> accepts (registry_options (pkeys entry)) 65 (pschema entry) True (dispatch_value input)
            | Some failure \<Rightarrow>
                (\<exists>e. failure = invalid_input c operation e
                   \<and> (is_limit e
                      \<or> \<not> accepts (registry_options (pkeys entry)) 65 (pschema entry) True
                            (dispatch_value input)))))"
  using dispatch_verdict [OF assms after_dispatches_coherent [OF buildInputValidators_spec(1) [OF assms]]] .

definition example_manifest :: schema_manifest where
  "example_manifest =
     \<lparr>mkey = ''crm'',
      operations = JObj [(''note.create'', JObj [(''kind'', JStr ''action''), (''inputSchema'', strict_example)])],
      auth = JObj [(''setup'', JObj [(''fields'', JArr [JObj [(''key'', JStr ''apiKey'')]])])],
      http = JUndef\<rparr>"

lemma example_declared:
  "declared_schema [example_manifest] ''crm'' ''note.create''
     = Some \<lparr>pschema = strict_example, pkeys = [''accessToken'', ''fetch'', ''apiKey'']\<rparr>"
  by (simp add: example_manifest_def prepared_of_def prop_get_def runtimeInputKeys_def
      CONNECTOR_RUNTIME_INPUT_KEYS_def object_prototype_def record_or_empty_def
      RUNTIME_INPUT_KEYS_def addFields_def array_of_def strict_example_def)

lemma example_record: "is_record strict_example"
  by (simp add: strict_example_def)

lemma example_built: "is_ok (buildInputValidators [example_manifest])"
proof -
  have "assertStrictSchema strict_example True = Inr ()" by code_simp
  then have "is_ok (prepare_manifests [example_manifest] Map.empty)"
    using example_record
    by (simp add: example_manifest_def prop_get_def keys_by_kind_def Let_def
        runtimeInputKeys_def CONNECTOR_RUNTIME_INPUT_KEYS_def object_prototype_def)
  then show ?thesis by (auto simp: buildInputValidators_def is_ok_iff res_simps)
qed

theorem validateDispatchInput_enforces_witness:
  "\<exists>vs failure e. buildInputValidators [example_manifest] = Inr vs
     \<and> snd (validateDispatchInput (after_dispatches vs [(''crm'', ''note.create'', JObj [])])
              ''crm'' ''note.create'' (JObj [(''n'', JInt 3)])) = Inr (Some failure)
     \<and> failure = invalid_input ''crm'' ''note.create'' e"
proof -
  let ?i = "JObj [(''n'', JInt 3)]"
  let ?calls = "[(''crm'', ''note.create'', JObj [])]"
  from example_built obtain vs where vs: "buildInputValidators [example_manifest] = Inr vs"
    by (auto simp: is_ok_iff)
  have d: "distinct_operations [example_manifest]"
    by (simp add: distinct_operations_def example_manifest_def)
  have no: "\<not> accepts (registry_options [''accessToken'', ''fetch'', ''apiKey'']) 65 strict_example True
              (dispatch_value ?i)"
    by code_simp
  note rejected = validateDispatchInput_enforces [OF vs d, of ?calls "''crm''" "''note.create''" ?i,
      unfolded example_declared option.case prepared.simps]
  from rejected no obtain failure e where "snd (validateDispatchInput (after_dispatches vs ?calls) ''crm'' ''note.create'' ?i)
      = Inr (Some failure)" "failure = invalid_input ''crm'' ''note.create'' e"
    by (simp only:) (force split: option.splits)
  with vs show ?thesis by blast
qed

end
