(* ===== verification/Operations.thy ===== *)
theory Operations
  imports Compile InputSchema
begin

text \<open>
  The second half of \<open>runner/bun/src/registry.ts\<close>: operation specifications read from the manifests,
  the pairing of writes with the reads that observe them (effect policies \<open>Reconcile\<close> and
  \<open>Idempotent\<close>), the bounds of outputs, and what the registry does to the result of a healthcheck.

  A handler is a function of the execution context, the time and the input on a state \<open>'s\<close>; the
  theorems on dispatch speak about that state.
\<close>

section \<open>Operation specifications\<close>

record OperationSpec =
  kind :: "string option"
  sp_timeoutMs :: jsval
  sp_maxInputBytes :: jsval
  sp_maxResponseBytes :: jsval
  effectPolicy :: "string option"
  reconcile :: "string option"
  reconcileInput :: "(string \<times> string) list option"
  inputProperties :: "string list"
  inputRequired :: "string list"
  inputClosed :: bool
  outputProperties :: "string list"

type_synonym specs = "(string \<times> OperationSpec) list"

definition string_opt :: "jsval \<Rightarrow> string option" where
  "string_opt v = (case v of JStr s \<Rightarrow> Some s | _ \<Rightarrow> None)"

definition number_or_undef :: "jsval \<Rightarrow> jsval" where
  "number_or_undef v = (case v of JNum _ \<Rightarrow> v | _ \<Rightarrow> JUndef)"

definition strings_in :: "jsval \<Rightarrow> string list" where
  "strings_in v = concat (map (\<lambda>x. case x of JStr s \<Rightarrow> [s] | _ \<Rightarrow> []) (items_of v))"

definition reconcileInputMap :: "jsval \<Rightarrow> (string \<times> string) list option" where
  "reconcileInputMap v =
     (case v of
        JObj ps \<Rightarrow>
          (let entries = concat (map (\<lambda>(k, x). case x of
                 JStr s \<Rightarrow> if k \<noteq> [] \<and> s \<noteq> [] then [(k, s)] else [] | _ \<Rightarrow> []) ps)
           in if entries = [] then None else Some entries)
      | _ \<Rightarrow> None)"

definition operation_spec :: "jsval \<Rightarrow> OperationSpec" where
  "operation_spec spec =
     (let schema = get spec ''inputSchema'' in
      \<lparr>kind = string_opt (get spec ''kind''),
       sp_timeoutMs = number_or_undef (get spec ''timeoutMs''),
       sp_maxInputBytes = number_or_undef (get spec ''maxInputBytes''),
       sp_maxResponseBytes = number_or_undef (get spec ''maxResponseBytes''),
       effectPolicy = string_opt (get spec ''effectPolicy''),
       reconcile = string_opt (get spec ''reconcile''),
       reconcileInput = reconcileInputMap (get spec ''reconcileInput''),
       inputProperties = map fst (props_of (get schema ''properties'')),
       inputRequired = strings_in (get schema ''required''),
       inputClosed = (get schema ''additionalProperties'' = JBool False),
       outputProperties = map fst (props_of (get (get spec ''outputSchema'') ''properties''))\<rparr>)"

definition manifest_specs :: "jsval \<Rightarrow> specs" where
  "manifest_specs manifest =
     map (\<lambda>(k, spec). (k, operation_spec spec))
       (filter (\<lambda>(k, spec). is_record spec) (props_of (get manifest ''operations'')))"

definition manifest_key :: "jsval \<Rightarrow> string" where
  "manifest_key manifest = to_str (get manifest ''key'')"

text \<open>\<open>Object.fromEntries\<close>: a later manifest with the same key replaces the value of an earlier one.\<close>

definition table_put :: "string \<Rightarrow> 'v \<Rightarrow> (string \<times> 'v) list \<Rightarrow> (string \<times> 'v) list" where
  "table_put k v tbl =
     (if k \<in> set (map fst tbl) then map (\<lambda>(k', v'). (k', if k' = k then v else v')) tbl else tbl @ [(k, v)])"

definition table_of :: "(string \<times> 'v) list \<Rightarrow> (string \<times> 'v) list" where
  "table_of es = foldl (\<lambda>tbl (k, v). table_put k v tbl) [] es"

definition buildConnectorOperationSpecs :: "jsval list \<Rightarrow> (string \<times> specs) list" where
  "buildConnectorOperationSpecs manifests = table_of (map (\<lambda>m. (manifest_key m, manifest_specs m)) manifests)"

definition buildConnectorNetworks :: "jsval list \<Rightarrow> (string \<times> string list) list" where
  "buildConnectorNetworks manifests =
     table_of (map (\<lambda>m. (manifest_key m, strings_in (get (get m ''network'') ''allowedHosts''))) manifests)"

definition describe_manifest :: "jsval \<Rightarrow> jsval" where
  "describe_manifest m = JObj [(''key'', get m ''key''), (''name'', get m ''name''), (''version'', get m ''version''),
     (''runtime'', get m ''runtime''), (''auth'', get m ''auth''), (''network'', get m ''network''),
     (''operations'', get m ''operations'')]"

definition buildConnectorDescriptions :: "jsval list \<Rightarrow> (string \<times> jsval) list" where
  "buildConnectorDescriptions manifests = table_of (map (\<lambda>m. (manifest_key m, describe_manifest m)) manifests)"

text \<open>
  \<open>specs[operation]\<close>: a name of \<open>Object.prototype\<close> is found there, and what is found has none of
  the fields of a specification.
\<close>

definition empty_spec :: OperationSpec where
  "empty_spec = operation_spec JUndef"

definition spec_at :: "specs \<Rightarrow> string \<Rightarrow> OperationSpec option" where
  "spec_at tbl k = (case map_of tbl k of
     Some s \<Rightarrow> Some s | None \<Rightarrow> if object_prototype k = JUndef then None else Some empty_spec)"

definition operation_at :: "(string \<times> specs) list \<Rightarrow> string \<Rightarrow> string \<Rightarrow> OperationSpec option" where
  "operation_at tbl connectorKey operation =
     Option.bind (map_of tbl connectorKey) (\<lambda>specs. spec_at specs operation)"

definition spec_budget :: "OperationSpec \<Rightarrow> jsval" where
  "spec_budget spec = JObj [(''timeoutMs'', sp_timeoutMs spec), (''maxInputBytes'', sp_maxInputBytes spec),
     (''maxResponseBytes'', sp_maxResponseBytes spec)]"

definition unsupportedBudget :: "OperationSpec option \<Rightarrow> jsval option" where
  "unsupportedBudget spec =
     (case spec of
        None \<Rightarrow> None
      | Some s \<Rightarrow>
          if supportsOperationBudget (spec_budget s) then None
          else Some (failure ''UNSUPPORTED_OPERATION_BUDGET'' ''Operation budget exceeds the runner contract.''))"

definition validateInputSize :: "jsval \<Rightarrow> jsval \<Rightarrow> jsval option" where
  "validateInputSize inputValue maxInputBytes =
     (case maxInputBytes of
        JNum n \<Rightarrow>
          (if num_le (Fin (of_nat (jsonByteLength inputValue))) n then None
           else Some (failure ''INPUT_TOO_LARGE'' ''Operation input exceeds the connector manifest byte limit.''))
      | _ \<Rightarrow> None)"

section \<open>Outputs\<close>

text \<open>\<open>f(value)\<close>, or \<open>Promise.resolve(value).then(f)\<close> for a promise.\<close>

definition returned_map :: "('a \<Rightarrow> thrown + 'b) \<Rightarrow> 'a returned \<Rightarrow> thrown + 'b returned" where
  "returned_map f v =
     (case v of
        Value a \<Rightarrow> sbind (f a) (\<lambda>b. Inr (Value b))
      | Pending Never \<Rightarrow> Inr (Pending Never)
      | Pending (Settles t (Inl e)) \<Rightarrow> Inr (Pending (Settles t (Inl e)))
      | Pending (Settles t (Inr a)) \<Rightarrow> Inr (Pending (Settles t (f a))))"

definition within_bytes :: "jsval \<Rightarrow> marked \<Rightarrow> marked res" where
  "within_bytes maxBytes output =
     (case maxBytes of
        JNum n \<Rightarrow>
          (if num_lt n (Fin (of_nat (jsonByteLength (fst (splitOperationMetadata output)))))
           then Inl (ThrownVal (JObj [(''code'', JStr ''OUTPUT_TOO_LARGE''),
                  (''message'', JStr ''Operation output exceeds the manifest byte limit.'')]))
           else Inr output)
      | _ \<Rightarrow> Inr output)"

definition boundedOutput :: "marked returned \<Rightarrow> jsval \<Rightarrow> thrown + marked returned" where
  "boundedOutput v maxBytes = returned_map (within_bytes maxBytes) v"

definition HEALTHCHECK_METADATA_KEYS :: "string list" where
  "HEALTHCHECK_METADATA_KEYS = [''connector'', ''action'', ''status'', ''source'']"

definition normalize_health :: "string list \<Rightarrow> marked \<Rightarrow> marked" where
  "normalize_health outProps output =
     (case out_value output of
        JObj ps \<Rightarrow>
          (let normalized = (if prop_get ps ''status'' = JUndef then obj_put ps ''status'' (JStr ''ok'') else ps);
               marks = set_of_list (operationMetadataKeys output
                         @ filter (\<lambda>key. has_own normalized key \<and> key \<notin> set outProps) HEALTHCHECK_METADATA_KEYS)
           in markOperationMetadata normalized marks)
      | _ \<Rightarrow> output)"

definition normalizeHealthcheckOutput :: "marked returned \<Rightarrow> string list \<Rightarrow> thrown + marked returned" where
  "normalizeHealthcheckOutput v outProps = returned_map (\<lambda>output. Inr (normalize_health outProps output)) v"

definition enforceProviderHealthcheckOutput :: "marked \<Rightarrow> marked res" where
  "enforceProviderHealthcheckOutput output =
     (if is_record (out_value output) \<and> get (out_value output) ''source'' = JStr ''connector''
      then Inl (ThrownVal (failure ''CONNECTOR_UPSTREAM_ERROR''
             ''Credentialed healthcheck did not confirm provider health.''))
      else Inr output)"

definition CREDENTIAL_WORDS :: "string list" where
  "CREDENTIAL_WORDS = [''token'', ''secret'', ''password'', ''apikey'', ''authorization'', ''credential'', ''basicauth'']"

text \<open>The regular expression test on a key stripped of everything but letters.\<close>

definition is_credential_key :: "string \<Rightarrow> bool" where
  "is_credential_key key =
     (let letters = to_lower (filter is_alpha key) in list_ex (\<lambda>w. contains w letters) CREDENTIAL_WORDS)"

definition hasCredentialedHealthcheckInput :: "string \<Rightarrow> jsval list \<Rightarrow> jsval \<Rightarrow> bool" where
  "hasCredentialedHealthcheckInput connectorKey manifests inputValue =
     (case find (\<lambda>m. get m ''key'' = JStr connectorKey) manifests of
        None \<Rightarrow> False
      | Some manifest \<Rightarrow>
          is_record (get manifest ''auth'') \<and> get (get manifest ''auth'') ''type'' \<noteq> JStr ''none''
          \<and> list_ex (\<lambda>(key, v). (case v of JStr s \<Rightarrow> trim s \<noteq> [] | _ \<Rightarrow> False) \<and> is_credential_key key)
              (props_of inputValue))"

definition enforceCredentialedHealthcheckEvidence ::
    "string \<Rightarrow> jsval list \<Rightarrow> jsval \<Rightarrow> marked returned \<Rightarrow> thrown + marked returned" where
  "enforceCredentialedHealthcheckEvidence connectorKey manifests inputValue v =
     (if hasCredentialedHealthcheckInput connectorKey manifests inputValue
      then returned_map enforceProviderHealthcheckOutput v else Inr v)"

section \<open>Observing a write\<close>

definition projectObserveInputBySchema :: "jsval \<Rightarrow> OperationSpec \<Rightarrow> OperationSpec option \<Rightarrow> jsval" where
  "projectObserveInputBySchema inputValue actionSpec observeSpec =
     (case (inputValue, observeSpec) of
        (JObj ps, Some observe) \<Rightarrow>
          (if inputClosed observe
           then JObj (put_all [] (filter (\<lambda>(key, _).
                  key \<in> set (inputProperties observe) \<or> key \<notin> set (inputProperties actionSpec)) ps))
           else inputValue)
      | _ \<Rightarrow> inputValue)"

definition projectObserveInput :: "jsval \<Rightarrow> OperationSpec \<Rightarrow> OperationSpec option \<Rightarrow> jsval" where
  "projectObserveInput inputValue actionSpec observeSpec =
     (let projected = projectObserveInputBySchema inputValue actionSpec observeSpec in
      case (reconcileInput actionSpec, inputValue, projected) of
        (Some mapping, JObj ps, JObj qs) \<Rightarrow>
          JObj (foldl (\<lambda>mapped (observeKey, actionKey).
                  if prop_get ps actionKey \<noteq> JUndef then obj_put mapped observeKey (prop_get ps actionKey)
                  else mapped) qs mapping)
      | _ \<Rightarrow> projected)"

definition observeKeysSuppliedByPolicy :: "string option \<Rightarrow> string list" where
  "observeKeysSuppliedByPolicy policy = (if policy = Some ''Idempotent'' then [''id''] else [])"

definition reconciles :: "OperationSpec \<Rightarrow> bool" where
  "reconciles spec = (effectPolicy spec = Some ''Reconcile'' \<or> effectPolicy spec = Some ''Idempotent'')"

text \<open>\<open>spec.reconcileInput?.[key]\<close> is defined and names a property of the action; an inherited
  method is defined but is no property name.\<close>

definition mapped_from_action :: "OperationSpec \<Rightarrow> string \<Rightarrow> bool" where
  "mapped_from_action spec key =
     (case Option.bind (reconcileInput spec) (\<lambda>m. map_of m key) of
        Some source \<Rightarrow> source \<in> set (inputProperties spec) | None \<Rightarrow> False)"

definition assert_pairing :: "string \<Rightarrow> specs \<Rightarrow> string \<times> OperationSpec \<Rightarrow> unit res" where
  "assert_pairing connectorKey tbl = (\<lambda>(operation, spec).
     (let prefix = connectorKey @ ''.'' @ operation @ '': '' in
      if \<not> reconciles spec then Inr ()
      else case reconcile spec of
          Some (c # cs) \<Rightarrow>
            (case spec_at tbl (c # cs) of
               None \<Rightarrow> Inl (Error (prefix @ ''reconcile operation '' @ (c # cs) @ '' is not declared.''))
             | Some observe \<Rightarrow>
                 if \<not> inputClosed observe then Inr ()
                 else for_each (\<lambda>key.
                   guard (mapped_from_action spec key
                          \<or> key \<in> set (observeKeysSuppliedByPolicy (effectPolicy spec))
                          \<or> key \<in> set (inputProperties spec))
                     (Error (prefix @ ''reconcile '' @ (c # cs) @ '' requires '' @ key
                        @ '', which the action input does not declare.''))) (inputRequired observe))
        | _ \<Rightarrow>
            guard (effectPolicy spec \<noteq> Some ''Reconcile'')
              (Error (prefix @ ''Reconcile effectPolicy requires a reconcile operation.''))))"

definition assertReconcilePairingsLoadable :: "(string \<times> specs) list \<Rightarrow> unit res" where
  "assertReconcilePairingsLoadable tbl =
     for_each (\<lambda>(connectorKey, specs). for_each (assert_pairing connectorKey specs) specs) tbl"

type_synonym 's handlers = "(string \<times> 's handler) list"

text \<open>
  Handler tables are objects too: a name of \<open>Object.prototype\<close> finds an inherited method. Called as a
  plain function, \<open>Object\<close> returns an object for its argument, \<open>toString\<close> a text, and the others throw.
\<close>

definition object_call :: "jsval \<Rightarrow> jsval" where
  "object_call v = (case v of
     JObj ps \<Rightarrow> v | JArr xs \<Rightarrow> v | JFun n \<Rightarrow> v
   | JStr s \<Rightarrow> JObj (map (\<lambda>i. (show_nat i, JStr [s ! i])) [0..<length s])
   | _ \<Rightarrow> JObj [])"

definition proto_handler :: "string \<Rightarrow> 's handler option" where
  "proto_handler k =
     (if object_prototype k = JUndef then None
      else Some (\<lambda>ctx now v s.
        if k = ''constructor'' then (s, Inr (Value (unmarked (object_call v))))
        else if k = ''toString'' then (s, Inr (Value (unmarked (JStr ''[object Undefined]''))))
        else (s, Inl (ErrorInst ''TypeError'' ''not a function on this value'' []))))"

definition handler_at :: "'s handlers \<Rightarrow> string \<Rightarrow> 's handler option" where
  "handler_at tbl k = (case map_of tbl k of Some h \<Rightarrow> Some h | None \<Rightarrow> proto_handler k)"

definition handler_in :: "(string \<times> 's handlers) list \<Rightarrow> string \<Rightarrow> string \<Rightarrow> 's handler option" where
  "handler_in tbl connectorKey operation =
     Option.bind (map_of tbl connectorKey) (\<lambda>hs. handler_at hs operation)"

definition observer ::
    "(string \<times> 's handlers) list \<Rightarrow> (string \<times> 's handlers) list \<Rightarrow> string \<Rightarrow> string \<Rightarrow> 's handler option" where
  "observer actions syncs connectorKey name =
     (case handler_in actions connectorKey name of
        Some h \<Rightarrow> Some h | None \<Rightarrow> handler_in syncs connectorKey name)"

definition precheckEffectPolicyReconcile ::
    "string \<Rightarrow> jsval \<Rightarrow> OperationSpec \<Rightarrow> (string \<times> specs) list \<Rightarrow> (string \<times> 's handlers) list
     \<Rightarrow> (string \<times> 's handlers) list \<Rightarrow> jsval option" where
  "precheckEffectPolicyReconcile connectorKey inputValue spec tbl actions syncs =
     (if \<not> reconciles spec then None
      else case reconcile spec of
          Some (c # cs) \<Rightarrow>
            (case observer actions syncs connectorKey (c # cs) of
               None \<Rightarrow> Some (failure ''RECONCILE_HANDLER_MISSING'' ''Reconcile operation has no registered handler.'')
             | Some _ \<Rightarrow>
                 (case operation_at tbl connectorKey (c # cs) of
                    Some observe \<Rightarrow>
                      (if \<not> inputClosed observe then None
                       else let projected = projectObserveInput inputValue spec (Some observe);
                                missing = filter (\<lambda>key. key \<notin> set (observeKeysSuppliedByPolicy (effectPolicy spec))
                                   \<and> (\<not> is_record projected \<or> get projected key = JUndef)) (inputRequired observe)
                            in case missing of
                                 [] \<Rightarrow> None
                               | key # _ \<Rightarrow> Some (failure ''INVALID_ACTION_INPUT''
                                   (key @ '' is required to reconcile via '' @ (c # cs) @ ''.'')))
                  | None \<Rightarrow> None))
        | _ \<Rightarrow> None)"

definition as_id :: "jsval \<Rightarrow> string option" where
  "as_id v = (case v of
     JNum n \<Rightarrow> (case num_val n of Some r \<Rightarrow>
         Some (num_to_string (if 0 \<le> r then Fin (of_int \<lfloor>r\<rfloor>) else Fin (of_int \<lceil>r\<rceil>))) | None \<Rightarrow> None)
   | JStr s \<Rightarrow> if s = [] then None else Some s
   | _ \<Rightarrow> None)"

definition projectIdempotentId :: "jsval \<Rightarrow> string res" where
  "projectIdempotentId primary =
     (let missing = Inl (ThrownVal (failure ''IDEMPOTENT_ID_MISSING''
            ''Idempotent effectPolicy could not project an id from the primary response.''))
      in case primary of
           JObj ps \<Rightarrow>
             (case as_id (prop_get ps ''id'') of
                Some i \<Rightarrow> Inr i
              | None \<Rightarrow>
                  (case prop_get ps ''application'' of
                     JObj qs \<Rightarrow> (case as_id (prop_get qs ''id'') of Some i \<Rightarrow> Inr i | None \<Rightarrow> missing)
                   | _ \<Rightarrow> missing))
         | _ \<Rightarrow> missing)"

definition observe_input :: "jsval \<Rightarrow> OperationSpec \<Rightarrow> OperationSpec option \<Rightarrow> marked \<Rightarrow> jsval res" where
  "observe_input inputValue spec observeSpec primary =
     (let projected = projectObserveInput inputValue spec observeSpec in
      if effectPolicy spec = Some ''Idempotent''
      then sbind (projectIdempotentId (out_value primary)) (\<lambda>i.
           Inr (JObj (spread (props_of projected) [(''id'', JStr i)])))
      else Inr projected)"

definition applyEffectPolicyReconcile ::
    "string \<Rightarrow> jsval \<Rightarrow> marked returned \<Rightarrow> OperationSpec \<Rightarrow> (string \<times> specs) list \<Rightarrow> (string \<times> 's handlers) list
     \<Rightarrow> (string \<times> 's handlers) list \<Rightarrow> ExecutionContext \<Rightarrow> time \<Rightarrow> ('s, marked) work" where
  "applyEffectPolicyReconcile connectorKey inputValue primary spec tbl actions syncs ctx now s =
     (if \<not> reconciles spec then (s, Inr primary)
      else case reconcile spec of
          Some (c # cs) \<Rightarrow>
            (case observer actions syncs connectorKey (c # cs) of
               None \<Rightarrow> (s, Inl (ThrownVal (failure ''RECONCILE_HANDLER_MISSING''
                          ''Reconcile operation has no registered handler.'')))
             | Some h \<Rightarrow>
                 (let observeSpec = operation_at tbl connectorKey (c # cs);
                      maxBytes = (case observeSpec of
                         Some o' \<Rightarrow> nullish (sp_maxResponseBytes o') (sp_maxResponseBytes spec)
                       | None \<Rightarrow> sp_maxResponseBytes spec);
                      runObserve = (\<lambda>t resolved s.
                        case observe_input inputValue spec observeSpec resolved of
                          Inl e \<Rightarrow> (s, Inl e)
                        | Inr observed \<Rightarrow>
                            (case h (Some ctx) t observed s of
                               (s', Inl e) \<Rightarrow> (s', Inl e)
                             | (s', Inr v) \<Rightarrow> (s', boundedOutput v maxBytes)))
                  in case promise_then now primary runObserve s of (s', p) \<Rightarrow> (s', Inr (Pending p))))
        | _ \<Rightarrow>
            if effectPolicy spec = Some ''Idempotent'' then (s, Inr primary)
            else (s, Inl (ThrownVal (failure ''RECONCILE_NOT_DECLARED''
                   ((case effectPolicy spec of Some p \<Rightarrow> p | None \<Rightarrow> []) @ '' effectPolicy requires a reconcile operation.'')))))"

section \<open>Lemmas\<close>

lemma within_bytes_Inr:
  "within_bytes maxBytes output = Inr r \<longleftrightarrow>
     r = output \<and> (\<forall>n. maxBytes = JNum n \<longrightarrow>
       \<not> num_lt n (Fin (of_nat (jsonByteLength (fst (splitOperationMetadata output))))))"
  by (auto simp: within_bytes_def split: jsval.splits if_splits)

lemma returned_map_value:
  assumes "returned_map f v = Inr w" and "await w = Some (Inr b)"
  obtains a where "await v = Some (Inr a)" "f a = Inr b"
  using assms
  by (auto simp: returned_map_def await_def res_simps split: returned.splits promise.splits sum.splits)

lemma boundedOutput_bounded:
  assumes "boundedOutput v (JInt m) = Inr w" and "await w = Some (Inr output)"
  shows "int (jsonByteLength (fst (splitOperationMetadata output))) \<le> m"
proof -
  from assms obtain a where "within_bytes (JInt m) a = Inr output"
    unfolding boundedOutput_def by (rule returned_map_value)
  then have "\<not> (of_int m :: rat) < of_nat (jsonByteLength (fst (splitOperationMetadata output)))"
    by (auto simp: within_bytes_Inr)
  then show ?thesis by (simp add: not_less)
qed

text \<open>Projection.\<close>

lemma projected_keys:
  assumes "projectObserveInputBySchema (JObj ps) action (Some observe) = JObj qs" and "inputClosed observe"
  shows "fst ` set qs \<subseteq> {k \<in> fst ` set ps. k \<in> set (inputProperties observe) \<or> k \<notin> set (inputProperties action)}"
  using assms keys_put_all [of "[]" "filter (\<lambda>(key, _). key \<in> set (inputProperties observe)
      \<or> key \<notin> set (inputProperties action)) ps"]
  by (force simp: projectObserveInputBySchema_def)

lemma prop_get_spread_id: "prop_get (spread ps [(''id'', v)]) k = (if k = ''id'' then v else prop_get ps k)"
  by (simp add: spread_def obj_simps)

lemma observe_input_required:
  assumes pre: "precheckEffectPolicyReconcile connectorKey inputValue spec tbl actions syncs = None"
    and spec: "reconciles spec" "reconcile spec = Some name" "name \<noteq> []"
    and obs: "operation_at tbl connectorKey name = Some observe" "inputClosed observe"
    and inp: "observe_input inputValue spec (Some observe) primary = Inr observed"
    and key: "key \<in> set (inputRequired observe)"
  shows "is_record observed \<and> get observed key \<noteq> JUndef"
proof -
  let ?p = "projectObserveInput inputValue spec (Some observe)"
  obtain c cs where name: "name = c # cs" using spec(3) by (cases name) auto
  have "key \<in> set (observeKeysSuppliedByPolicy (effectPolicy spec)) \<or> (is_record ?p \<and> get ?p key \<noteq> JUndef)"
    using pre spec obs key name
    by (auto simp: precheckEffectPolicyReconcile_def Let_def filter_empty_conv split: option.splits list.splits)
  then consider "effectPolicy spec = Some ''Idempotent''" "key = ''id''"
    | "is_record ?p" "get ?p key \<noteq> JUndef"
    by (auto simp: observeKeysSuppliedByPolicy_def split: if_splits)
  then show ?thesis
  proof cases
    case 1
    with inp show ?thesis
      by (auto simp: observe_input_def Let_def res_simps prop_get_spread_id)
  next
    case 2
    show ?thesis
    proof (cases "effectPolicy spec = Some ''Idempotent''")
      case True
      with inp obtain i where "observed = JObj (spread (props_of ?p) [(''id'', JStr i)])"
        by (auto simp: observe_input_def Let_def res_simps)
      moreover from 2 obtain ps where "?p = JObj ps" by (cases ?p) auto
      ultimately show ?thesis using 2 by (auto simp: prop_get_spread_id)
    next
      case False
      with inp have "observed = ?p" by (simp add: observe_input_def Let_def)
      with 2 show ?thesis by simp
    qed
  qed
qed

lemma precheck_handler:
  assumes "precheckEffectPolicyReconcile connectorKey inputValue spec tbl actions syncs = None"
    and "reconciles spec" and "reconcile spec = Some name" and "name \<noteq> []"
  shows "\<exists>h. observer actions syncs connectorKey name = Some h"
  using assms by (cases name) (auto simp: precheckEffectPolicyReconcile_def split: option.splits)

text \<open>Healthchecks.\<close>

lemma normalize_health_record:
  assumes "out_value output = JObj ps"
  shows "\<exists>qs marks. normalize_health outProps output = \<lparr>out_value = JObj qs, out_marks = marks\<rparr>
     \<and> prop_get qs ''status'' \<noteq> JUndef
     \<and> (\<forall>k. k \<noteq> ''status'' \<longrightarrow> prop_get qs k = prop_get ps k)
     \<and> (\<forall>key \<in> set HEALTHCHECK_METADATA_KEYS. has_own qs key \<longrightarrow> key \<in> set outProps \<or> key \<in> set marks)
     \<and> set marks \<subseteq> set (out_marks output) \<union> set HEALTHCHECK_METADATA_KEYS"
  using assms
  by (auto simp: normalize_health_def Let_def markOperationMetadata_def operationMetadataKeys_def
      obj_simps obj_put_def)

section \<open>Theorems\<close>


definition close_spec :: OperationSpec where
  "close_spec = operation_spec (JObj [(''kind'', JStr ''action''), (''effectPolicy'', JStr ''Reconcile''),
     (''reconcile'', JStr ''get''), (''reconcileInput'', JObj [(''id'', JStr ''conversationId'')]),
     (''inputSchema'', JObj [(''properties'', JObj [(''conversationId'', JObj []), (''body'', JObj [])])])])"

definition get_spec :: OperationSpec where
  "get_spec = operation_spec (JObj [(''kind'', JStr ''action''),
     (''inputSchema'', JObj [(''properties'', JObj [(''id'', JObj [])]), (''required'', JArr [JStr ''id'']),
        (''additionalProperties'', JBool False)])])"

definition close_input :: jsval where
  "close_input = JObj [(''conversationId'', JStr ''c1''), (''body'', JStr ''bye''), (''token'', JStr ''t'')]"


text \<open>An observe sees no argument of the write that it did not declare. Projected onto a closed
  observe schema, the input keeps exactly its keys that the observe declares or that the action does
  not declare, which are the connection's own fields.\<close>

theorem projected_input_keys:
  assumes "projectObserveInputBySchema (JObj ps) action (Some observe) = JObj qs" and "inputClosed observe"
    and "distinct (map fst ps)" and "k \<noteq> ''__proto__''"
  shows "map_of qs k = (if k \<in> set (inputProperties observe) \<or> k \<notin> set (inputProperties action)
                        then map_of ps k else None)"
proof -
  let ?f = "filter (\<lambda>(key, _). key \<in> set (inputProperties observe) \<or> key \<notin> set (inputProperties action)) ps"
  have "distinct (map fst ?f)" using assms(3) by (rule distinct_map_filter)
  moreover have "map_of ?f k = (if k \<in> set (inputProperties observe) \<or> k \<notin> set (inputProperties action)
      then map_of ps k else None)"
    by (induction ps) auto
  moreover have "qs = put_all [] ?f" using assms(1,2) by (simp add: projectObserveInputBySchema_def)
  ultimately show ?thesis using map_of_put_all [of ?f k "[]"] assms(4) by (auto split: option.splits)
qed

theorem projected_input_keys_witness:
  "map_of [(''id'', JStr ''c1''), (''token'', JStr ''t'')] ''body'' = None"
proof -
  have p: "projectObserveInputBySchema (JObj [(''id'', JStr ''c1''), (''body'', JStr ''b''), (''token'', JStr ''t'')])
      close_spec (Some get_spec) = JObj [(''id'', JStr ''c1''), (''token'', JStr ''t'')]"
    by code_simp
  have c: "inputClosed get_spec" "''body'' \<notin> set (inputProperties get_spec)" "''body'' \<in> set (inputProperties close_spec)"
    by code_simp+
  from projected_input_keys [OF p c(1), of "''body''"] c(2,3) show ?thesis by simp
qed

text \<open>A healthcheck result is complete and keeps to its schema. A normalized record always has a
  status, its other values are the handler's, and after the bookkeeping is split off the bare output
  has no bookkeeping key that the output schema does not declare.\<close>

theorem normalize_health_conforms:
  assumes "out_value output = JObj ps" and "''__proto__'' \<notin> set (out_marks output)"
    and "splitOperationMetadata (normalize_health outProps output) = (JObj bare, metadata)"
  shows "get (out_value (normalize_health outProps output)) ''status'' \<noteq> JUndef
    \<and> (\<forall>k. k \<noteq> ''status'' \<longrightarrow> get (out_value (normalize_health outProps output)) k = prop_get ps k)
    \<and> (\<forall>key \<in> set HEALTHCHECK_METADATA_KEYS. has_own bare key \<longrightarrow> key \<in> set outProps)"
proof -
  obtain qs marks where n: "normalize_health outProps output = \<lparr>out_value = JObj qs, out_marks = marks\<rparr>"
    and q: "prop_get qs ''status'' \<noteq> JUndef" "\<forall>k. k \<noteq> ''status'' \<longrightarrow> prop_get qs k = prop_get ps k"
      "\<forall>key \<in> set HEALTHCHECK_METADATA_KEYS. has_own qs key \<longrightarrow> key \<in> set outProps \<or> key \<in> set marks"
      "set marks \<subseteq> set (out_marks output) \<union> set HEALTHCHECK_METADATA_KEYS"
    using normalize_health_record [OF assms(1), of outProps] by (elim exE conjE) (rule that)
  have proto: "''__proto__'' \<notin> set marks" using q(4) assms(2) by (auto simp: HEALTHCHECK_METADATA_KEYS_def)
  have "map_of bare k = (if k \<in> set marks then None else map_of qs k)" for k
  proof (cases "marks = []")
    case True
    with assms(3) n show ?thesis by (auto simp: splitOperationMetadata_def)
  next
    case False
    with assms(3) n have "move_keys marks qs [] = (bare, metadata)"
      by (auto simp: splitOperationMetadata_def split: prod.splits)
    from move_keys_lookup(1) [OF this proto] show ?thesis .
  qed
  then have "key \<in> set outProps" if "key \<in> set HEALTHCHECK_METADATA_KEYS" "has_own bare key" for key
    using q(3) that by (auto simp: has_own_iff split: if_splits)
  then show ?thesis unfolding n marked.simps get_JObj using q(1,2) by blast
qed

theorem normalize_health_conforms_witness:
  "\<not> has_own [(''data'', JInt 1)] ''source'' \<and> \<not> has_own [(''data'', JInt 1)] ''status''"
proof -
  let ?o = "unmarked (JObj [(''source'', JStr ''provider''), (''data'', JInt 1)])"
  have s: "splitOperationMetadata (normalize_health [''data''] ?o)
      = (JObj [(''data'', JInt 1)], [(''status'', JStr ''ok''), (''source'', JStr ''provider'')])"
    by code_simp
  have "out_value ?o = JObj [(''source'', JStr ''provider''), (''data'', JInt 1)]" "''__proto__'' \<notin> set (out_marks ?o)"
    by (simp_all only: marked.simps) simp
  note conforms = normalize_health_conforms [OF this s]
  have "''source'' \<in> set HEALTHCHECK_METADATA_KEYS" "''status'' \<in> set HEALTHCHECK_METADATA_KEYS"
    "''source'' \<notin> set [''data'']" "''status'' \<notin> set [''data'']"
    by code_simp+
  with conforms show ?thesis by blast
qed

end
