(* ===== verification/Registry.thy ===== *)
theory Registry
  imports Operations
begin

text \<open>
  \<open>createConnectorRegistry\<close> of \<open>runner/bun/src/registry.ts\<close> and its methods. A registry is the
  tables built from the manifests; its state is the cache of compiled validators together with the
  state \<open>'s\<close> the handlers work on. A method gets an environment: the enclosing execution and the
  clock readings of \<open>runExecution\<close>.
\<close>

section \<open>Construction\<close>

record webhook =
  w_parse :: "jsval \<Rightarrow> jsval res"
  w_verify :: "(jsval \<Rightarrow> jsval \<Rightarrow> jsval res) option"

record 's registry_input =
  in_manifests :: "jsval list"
  in_healthchecks :: "'s handlers"
  in_actions :: "(string \<times> 's handlers) list"
  in_syncs :: "(string \<times> 's handlers) list"
  in_webhooks :: "(string \<times> webhook) list"

record 's connector_registry =
  r_input :: "'s registry_input"
  r_descriptions :: "(string \<times> jsval) list"
  r_specs :: "(string \<times> specs) list"
  r_networks :: "(string \<times> string list) list"
  r_validators :: validators

definition to_schema :: "jsval \<Rightarrow> schema_manifest" where
  "to_schema m = \<lparr>mkey = manifest_key m, operations = get m ''operations'', auth = get m ''auth'', http = get m ''http''\<rparr>"

definition createConnectorRegistry :: "'s registry_input \<Rightarrow> 's connector_registry res" where
  "createConnectorRegistry inp =
     (let specs = buildConnectorOperationSpecs (in_manifests inp) in
      sbind (assertReconcilePairingsLoadable specs) (\<lambda>_.
      sbind (buildInputValidators (map to_schema (in_manifests inp))) (\<lambda>vs.
      Inr \<lparr>r_input = inp, r_descriptions = buildConnectorDescriptions (in_manifests inp), r_specs = specs,
           r_networks = buildConnectorNetworks (in_manifests inp), r_validators = vs\<rparr>)))"

section \<open>Methods\<close>

type_synonym 's rstate = "validators \<times> 's"

datatype result = Failed jsval | Success "marked returned"

type_synonym env = "ExecutionContext option \<times> time \<times> time \<times> time"

definition describe :: "'s connector_registry \<Rightarrow> string \<Rightarrow> jsval" where
  "describe reg connectorKey =
     (case map_of (r_descriptions reg) connectorKey of Some d \<Rightarrow> d | None \<Rightarrow> object_prototype connectorKey)"

definition operationBudget :: "'s connector_registry \<Rightarrow> string \<Rightarrow> string \<Rightarrow> OperationSpec option" where
  "operationBudget reg connectorKey operation = operation_at (r_specs reg) connectorKey operation"

text \<open>A table has an entry, own or inherited.\<close>

definition has_entry :: "(string \<times> 'v) list \<Rightarrow> string \<Rightarrow> bool" where
  "has_entry tbl k = (k \<in> set (map fst tbl) \<or> object_prototype k \<noteq> JUndef)"

definition thrown_get :: "thrown \<Rightarrow> string \<Rightarrow> jsval" where
  "thrown_get e k = (case e of
     ErrorInst _ m flds \<Rightarrow> if k = ''message'' then JStr m else prop_get flds k
   | ThrownVal v \<Rightarrow> get v k)"

definition retry_field :: "thrown \<Rightarrow> props" where
  "retry_field e = (if positive_safe (thrown_get e ''retryAfterSeconds'')
     then [(''retryAfterSeconds'', thrown_get e ''retryAfterSeconds'')] else [])"

definition healthcheck_failure :: "thrown \<Rightarrow> jsval" where
  "healthcheck_failure e =
     (case thrown_get e ''code'' of
        JStr (c # cs) \<Rightarrow>
          JObj ([(''ok'', JBool False), (''code'', JStr (c # cs))] @ retry_field e
            @ [(''message'', case thrown_get e ''message'' of JStr m \<Rightarrow> JStr m | _ \<Rightarrow> JStr ''Connector healthcheck failed.'')])
      | _ \<Rightarrow>
          failure ''CONNECTOR_UPSTREAM_ERROR''
            (case e of ErrorInst _ m _ \<Rightarrow> m | ThrownVal _ \<Rightarrow> ''Connector healthcheck failed.''))"

definition health_work ::
    "'s connector_registry \<Rightarrow> string \<Rightarrow> 's handler \<Rightarrow> jsval \<Rightarrow> OperationSpec option \<Rightarrow> time
     \<Rightarrow> ExecutionContext \<Rightarrow> ('s, marked) work" where
  "health_work reg connectorKey handler inputValue spec now ctx s =
     (let maxBytes = (case spec of Some sp \<Rightarrow> sp_maxResponseBytes sp | None \<Rightarrow> JUndef);
          outProps = (case spec of Some sp \<Rightarrow> outputProperties sp | None \<Rightarrow> [])
      in case handler (Some ctx) now inputValue s of
           (s', Inl e) \<Rightarrow> (s', Inl e)
         | (s', Inr v) \<Rightarrow>
             (s', sbind (boundedOutput v maxBytes) (\<lambda>b.
                  sbind (enforceCredentialedHealthcheckEvidence connectorKey (in_manifests (r_input reg)) inputValue b) (\<lambda>c.
                  normalizeHealthcheckOutput c outProps))))"

definition spec_timeout :: "OperationSpec option \<Rightarrow> jsval" where
  "spec_timeout spec = (case spec of Some sp \<Rightarrow> sp_timeoutMs sp | None \<Rightarrow> JUndef)"

definition run_health ::
    "'s connector_registry \<Rightarrow> env \<Rightarrow> string \<Rightarrow> 's handler \<Rightarrow> jsval \<Rightarrow> OperationSpec option \<Rightarrow> 's \<Rightarrow> 's \<times> result" where
  "run_health reg env connectorKey handler inputValue spec s =
     (case env of (parent, clock) \<Rightarrow>
       (case runExecution parent clock (health_work reg connectorKey handler inputValue spec (snd (snd clock)))
               (spec_timeout spec) None None None s of
          (s', Inr v) \<Rightarrow> (s', Success v)
        | (s', Inl e) \<Rightarrow> (s', Failed (healthcheck_failure e))))"

definition healthcheck ::
    "'s connector_registry \<Rightarrow> env \<Rightarrow> string \<Rightarrow> jsval \<Rightarrow> 's \<Rightarrow> 's \<times> result option" where
  "healthcheck reg env connectorKey inputValue s =
     (case handler_at (in_healthchecks (r_input reg)) connectorKey of
        None \<Rightarrow> (s, None)
      | Some handler \<Rightarrow>
          (let spec = operation_at (r_specs reg) connectorKey ''healthcheck'';
               maxInput = (case spec of Some sp \<Rightarrow> sp_maxInputBytes sp | None \<Rightarrow> JUndef)
           in case unsupportedBudget spec of
                Some f \<Rightarrow> (s, Some (Failed f))
              | None \<Rightarrow>
                  (case validateInputSize inputValue maxInput of
                     Some f \<Rightarrow> (s, Some (Failed f))
                   | None \<Rightarrow> (case run_health reg env connectorKey handler inputValue spec s of
                                (s', r) \<Rightarrow> (s', Some r)))))"

text \<open>The work of an action: the write and, if its policy asks for it, the read that observes it.\<close>

definition action_work ::
    "'s connector_registry \<Rightarrow> string \<Rightarrow> 's handler \<Rightarrow> jsval \<Rightarrow> OperationSpec \<Rightarrow> time \<Rightarrow> ExecutionContext \<Rightarrow> ('s, marked) work" where
  "action_work reg connectorKey handler inputValue spec now ctx s =
     (case handler (Some ctx) now inputValue s of
        (s', Inl e) \<Rightarrow> (s', Inl e)
      | (s', Inr v) \<Rightarrow>
          (case boundedOutput v (sp_maxResponseBytes spec) of
             Inl e \<Rightarrow> (s', Inl e)
           | Inr primary \<Rightarrow>
               applyEffectPolicyReconcile connectorKey inputValue primary spec (r_specs reg)
                 (in_actions (r_input reg)) (in_syncs (r_input reg)) ctx now s'))"

definition run_action ::
    "'s connector_registry \<Rightarrow> env \<Rightarrow> string \<Rightarrow> 's handler \<Rightarrow> jsval \<Rightarrow> OperationSpec \<Rightarrow> 's \<Rightarrow> 's \<times> (thrown + result)" where
  "run_action reg env connectorKey handler inputValue spec s =
     (case env of (parent, clock) \<Rightarrow>
       (case runExecution parent clock (action_work reg connectorKey handler inputValue spec (snd (snd clock)))
               (sp_timeoutMs spec) None None None s of
          (s', Inl e) \<Rightarrow> (s', Inl e)
        | (s', Inr v) \<Rightarrow> (s', Inr (Success v))))"

text \<open>The checks before a handler may run, in the order of the source: a failure or the specification
  and the handler.\<close>

definition action_gate ::
    "'s connector_registry \<Rightarrow> string \<Rightarrow> string \<Rightarrow> jsval \<Rightarrow> jsval + OperationSpec \<times> 's handler" where
  "action_gate reg connectorKey action inputValue =
     (let inp = r_input reg in
      if \<not> has_entry (in_actions inp) connectorKey \<and> \<not> has_entry (in_healthchecks inp) connectorKey
      then Inl (failure ''UNKNOWN_CONNECTOR'' ''Connector is not registered.'')
      else case operation_at (r_specs reg) connectorKey action of
          None \<Rightarrow> Inl (failure ''ACTION_NOT_DECLARED'' ''Action is not declared in the connector manifest.'')
        | Some spec \<Rightarrow>
            if kind spec = None \<or> kind spec = Some []
            then Inl (failure ''ACTION_NOT_DECLARED'' ''Action is not declared in the connector manifest.'')
            else if kind spec \<noteq> Some ''action''
            then Inl (failure ''ACTION_NOT_EXECUTABLE'' ''Operation is not executable as an action.'')
            else case unsupportedBudget (Some spec) of Some f \<Rightarrow> Inl f
              | None \<Rightarrow> case validateInputSize inputValue (sp_maxInputBytes spec) of Some f \<Rightarrow> Inl f
              | None \<Rightarrow>
                  (case (if action = ''healthcheck'' then handler_at (in_healthchecks inp) connectorKey
                         else handler_in (in_actions inp) connectorKey action) of
                     None \<Rightarrow> Inl (failure ''UNKNOWN_ACTION'' ''Action is not registered.'')
                   | Some h \<Rightarrow> Inr (spec, h)))"

definition executeAction ::
    "'s connector_registry \<Rightarrow> env \<Rightarrow> string \<Rightarrow> string \<Rightarrow> jsval \<Rightarrow> 's rstate \<Rightarrow> 's rstate \<times> (thrown + result)" where
  "executeAction reg env connectorKey action inputValue st =
     (case st of (vs, s) \<Rightarrow>
       (case action_gate reg connectorKey action inputValue of
          Inl f \<Rightarrow> ((vs, s), Inr (Failed f))
        | Inr (spec, handler) \<Rightarrow>
            (case (if action = ''healthcheck'' then (vs, Inr None)
                   else validateDispatchInput vs connectorKey action inputValue) of
               (vs', Inl e) \<Rightarrow> ((vs', s), Inl e)
             | (vs', Inr (Some f)) \<Rightarrow> ((vs', s), Inr (Failed f))
             | (vs', Inr None) \<Rightarrow>
                 (case precheckEffectPolicyReconcile connectorKey inputValue spec (r_specs reg)
                         (in_actions (r_input reg)) (in_syncs (r_input reg)) of
                    Some f \<Rightarrow> ((vs', s), Inr (Failed f))
                  | None \<Rightarrow>
                      (if action = ''healthcheck''
                       then (case run_health reg env connectorKey handler inputValue (Some spec) s of
                               (s', r) \<Rightarrow> ((vs', s'), Inr r))
                       else (case run_action reg env connectorKey handler inputValue spec s of
                               (s', r) \<Rightarrow> ((vs', s'), r)))))))"

definition sync_gate ::
    "'s connector_registry \<Rightarrow> string \<Rightarrow> string \<Rightarrow> jsval \<Rightarrow> jsval + OperationSpec \<times> 's handler" where
  "sync_gate reg connectorKey sync inputValue =
     (if \<not> has_entry (in_syncs (r_input reg)) connectorKey
      then Inl (failure ''UNKNOWN_CONNECTOR'' ''Connector is not registered.'')
      else case operation_at (r_specs reg) connectorKey sync of
          None \<Rightarrow> Inl (failure ''SYNC_NOT_DECLARED'' ''Sync is not declared in the connector manifest.'')
        | Some spec \<Rightarrow>
            if kind spec = None \<or> kind spec = Some []
            then Inl (failure ''SYNC_NOT_DECLARED'' ''Sync is not declared in the connector manifest.'')
            else if kind spec \<noteq> Some ''sync''
            then Inl (failure ''SYNC_NOT_EXECUTABLE'' ''Operation is not executable as a sync.'')
            else case unsupportedBudget (Some spec) of Some f \<Rightarrow> Inl f
              | None \<Rightarrow> case validateInputSize inputValue (sp_maxInputBytes spec) of Some f \<Rightarrow> Inl f
              | None \<Rightarrow>
                  (case handler_in (in_syncs (r_input reg)) connectorKey sync of
                     None \<Rightarrow> Inl (failure ''UNKNOWN_SYNC'' ''Sync is not registered.'')
                   | Some h \<Rightarrow> Inr (spec, h)))"

definition sync_work :: "'s handler \<Rightarrow> jsval \<Rightarrow> OperationSpec \<Rightarrow> time \<Rightarrow> ExecutionContext \<Rightarrow> ('s, marked) work" where
  "sync_work handler inputValue spec now ctx s =
     (case handler (Some ctx) now inputValue s of
        (s', Inl e) \<Rightarrow> (s', Inl e)
      | (s', Inr v) \<Rightarrow> (s', boundedOutput v (sp_maxResponseBytes spec)))"

definition executeSync ::
    "'s connector_registry \<Rightarrow> env \<Rightarrow> string \<Rightarrow> string \<Rightarrow> jsval \<Rightarrow> 's rstate \<Rightarrow> 's rstate \<times> (thrown + result)" where
  "executeSync reg env connectorKey sync inputValue st =
     (case st of (vs, s) \<Rightarrow>
       (case sync_gate reg connectorKey sync inputValue of
          Inl f \<Rightarrow> ((vs, s), Inr (Failed f))
        | Inr (spec, handler) \<Rightarrow>
            (case validateDispatchInput vs connectorKey sync inputValue of
               (vs', Inl e) \<Rightarrow> ((vs', s), Inl e)
             | (vs', Inr (Some f)) \<Rightarrow> ((vs', s), Inr (Failed f))
             | (vs', Inr None) \<Rightarrow>
                 (case env of (parent, clock) \<Rightarrow>
                   (case runExecution parent clock (sync_work handler inputValue spec (snd (snd clock)))
                           (sp_timeoutMs spec) None None None s of
                      (s', Inl e) \<Rightarrow> ((vs', s'), Inl e)
                    | (s', Inr v) \<Rightarrow> ((vs', s'), Inr (Success v)))))))"

definition webhook_at :: "(string \<times> webhook) list \<Rightarrow> string \<Rightarrow> webhook option" where
  "webhook_at tbl k = (case map_of tbl k of
     Some w \<Rightarrow> Some w
   | None \<Rightarrow> if object_prototype k = JUndef then None
             else Some \<lparr>w_parse = (\<lambda>_. Inl (ErrorInst ''TypeError'' ''handlers.parse is not a function'' [])), w_verify = None\<rparr>)"

definition parseWebhook :: "'s connector_registry \<Rightarrow> string \<Rightarrow> jsval \<Rightarrow> result" where
  "parseWebhook reg connectorKey payload =
     (case webhook_at (in_webhooks (r_input reg)) connectorKey of
        None \<Rightarrow> Failed (failure ''UNKNOWN_CONNECTOR'' ''Connector has no webhook handler.'')
      | Some w \<Rightarrow>
          (case w_parse w payload of
             Inr v \<Rightarrow> Success (Value (unmarked v))
           | Inl e \<Rightarrow> Failed (failure ''WEBHOOK_PARSE_FAILED''
               (case e of ErrorInst _ m _ \<Rightarrow> m | ThrownVal _ \<Rightarrow> ''Webhook payload could not be parsed.''))))"

definition verifyWebhook :: "'s connector_registry \<Rightarrow> string \<Rightarrow> jsval \<Rightarrow> jsval \<Rightarrow> result" where
  "verifyWebhook reg connectorKey payload headers =
     (case webhook_at (in_webhooks (r_input reg)) connectorKey of
        None \<Rightarrow> Failed (failure ''UNKNOWN_CONNECTOR'' ''Connector has no webhook handler.'')
      | Some w \<Rightarrow>
          (case w_verify w of
             None \<Rightarrow> Success (Value (unmarked (JObj [(''verified'', JBool True)])))
           | Some verify \<Rightarrow>
               (case verify payload headers of
                  Inr v \<Rightarrow> Success (Value (unmarked (JObj [(''verified'', v)])))
                | Inl e \<Rightarrow> Failed (failure ''WEBHOOK_VERIFY_FAILED''
                    (case e of ErrorInst _ m _ \<Rightarrow> m | ThrownVal _ \<Rightarrow> ''Webhook verification failed.'')))))"

definition createHttpClient :: "'s connector_registry \<Rightarrow> string \<Rightarrow> string \<Rightarrow> http_options option res" where
  "createHttpClient reg connectorKey operation =
     (case (map_of (r_networks reg) connectorKey, operation_at (r_specs reg) connectorKey operation) of
        (Some hosts, Some spec) \<Rightarrow>
          (case sp_maxResponseBytes spec of
             JNum n \<Rightarrow> sbind (createConnectorHttpClient hosts (JNum n) (sp_timeoutMs spec)) (\<lambda>c. Inr (Some c))
           | _ \<Rightarrow> Inr None)
      | _ \<Rightarrow> Inr None)"

record issue =
  i_code :: string
  i_connector :: string
  i_operation :: string
  i_message :: string

definition validate_operation ::
    "'s registry_input \<Rightarrow> string \<Rightarrow> string \<times> OperationSpec \<Rightarrow> issue list" where
  "validate_operation inp key = (\<lambda>(operation, spec).
     (let found = (if operation = ''healthcheck'' then handler_at (in_healthchecks inp) key
                   else handler_at (case map_of (in_actions inp) key of Some hs \<Rightarrow> hs | None \<Rightarrow> []) operation)
      in if \<not> supportsOperationBudget (spec_budget spec)
         then [\<lparr>i_code = ''UNSUPPORTED_OPERATION_BUDGET'', i_connector = key, i_operation = operation,
                i_message = ''Declared operation budget exceeds the runner contract.''\<rparr>]
         else if kind spec = Some ''action''
         then (if \<not> Option.is_none found then []
               else [\<lparr>i_code = ''ACTION_HANDLER_MISSING'', i_connector = key, i_operation = operation,
                      i_message = ''Declared action operation has no registered handler.''\<rparr>])
         else if kind spec \<noteq> Some ''sync''
                 \<or> \<not> Option.is_none (handler_at (case map_of (in_syncs inp) key of Some hs \<Rightarrow> hs | None \<Rightarrow> []) operation)
         then []
         else [\<lparr>i_code = ''SYNC_HANDLER_MISSING'', i_connector = key, i_operation = operation,
                i_message = ''Declared sync operation has no registered handler.''\<rparr>]))"

definition validate :: "'s connector_registry \<Rightarrow> issue list" where
  "validate reg =
     concat (map (\<lambda>manifest.
       concat (map (validate_operation (r_input reg) (manifest_key manifest))
         (case map_of (r_specs reg) (manifest_key manifest) of Some specs \<Rightarrow> specs | None \<Rightarrow> [])))
       (in_manifests (r_input reg)))"

definition assertValidRegistry :: "'s connector_registry \<Rightarrow> unit res" where
  "assertValidRegistry reg =
     (if validate reg = [] then Inr ()
      else Inl (Error (''Connector registry validation failed: ''
        @ join ''; '' (map (\<lambda>i. i_code i @ '' '' @ i_connector i @ '' '' @ i_operation i) (validate reg)))))"

section \<open>Lemmas\<close>

lemma action_gate_Inr:
  assumes "action_gate reg connectorKey action inputValue = Inr (spec, h)"
  shows "operation_at (r_specs reg) connectorKey action = Some spec" "kind spec = Some ''action''"
    "supportsOperationBudget (spec_budget spec)"
    "validateInputSize inputValue (sp_maxInputBytes spec) = None"
    "(if action = ''healthcheck'' then handler_at (in_healthchecks (r_input reg)) connectorKey
      else handler_in (in_actions (r_input reg)) connectorKey action) = Some h"
  using assms by (auto simp: action_gate_def Let_def unsupportedBudget_def split: if_splits option.splits)

lemma sync_gate_Inr:
  assumes "sync_gate reg connectorKey sync inputValue = Inr (spec, h)"
  shows "operation_at (r_specs reg) connectorKey sync = Some spec" "kind spec = Some ''sync''"
    "supportsOperationBudget (spec_budget spec)"
    "validateInputSize inputValue (sp_maxInputBytes spec) = None"
    "handler_in (in_syncs (r_input reg)) connectorKey sync = Some h"
  using assms by (auto simp: sync_gate_def Let_def unsupportedBudget_def split: if_splits option.splits)

lemma spec_budgetE:
  assumes "supportsOperationBudget (spec_budget spec)"
  obtains t i r where "sp_timeoutMs spec = JInt t" "0 < t" "t \<le> 300000" "sp_maxInputBytes spec = JInt i" "0 < i"
    "sp_maxResponseBytes spec = JInt r" "0 < r" "r \<le> 52428800"
  using assms by (rule supportsOperationBudgetE) (auto simp: spec_budget_def prop_get_def)

lemma input_within_limit:
  assumes "supportsOperationBudget (spec_budget spec)" and "validateInputSize v (sp_maxInputBytes spec) = None"
  shows "\<exists>limit. sp_maxInputBytes spec = JInt limit \<and> int (jsonByteLength v) \<le> limit"
proof (rule spec_budgetE [OF assms(1)])
  fix i
  assume i: "sp_maxInputBytes spec = JInt i"
  with assms(2) have "(of_nat (jsonByteLength v) :: rat) \<le> of_int i"
    by (auto simp: validateInputSize_def split: if_splits)
  then have "int (jsonByteLength v) \<le> i" by (metis of_int_le_iff of_int_of_nat_eq)
  with i show ?thesis by blast
qed

text \<open>A successful answer of an execution is an answer of the work.\<close>

lemmas runExecution_elim = runExecution_cases [consumes 1, case_names refused ran]

lemma runExecution_value:
  assumes "runExecution parent (now0, now1, now2) fn timeoutMs sig deadline given s = (s', Inr w)"
    and "await w = Some (Inr output)"
  obtains ctx v where "fn ctx s = (s', Inr v)" "await v = Some (Inr output)"
  using assms(1)
proof (cases rule: runExecution_elim)
  case refused
  then show thesis by cases
next
  case (ran ctx abort s'' r)
  then obtain v where "r = Inr v" by (cases r) auto
  with ran assms(2) that [of ctx v] show thesis
    by (auto simp: await_def race_abort_def split: returned.splits promise.splits if_splits sum.splits)
qed

lemma settled_by_deadline:
  assumes "runExecution parent (now0, now1, now2) fn timeoutMs None None given s = (s', Inr (Pending q))"
  shows "\<exists>t r. q = Settles t r \<and> t \<le> max now2 (now0 + maxOperationTimeoutMs)
           \<and> (\<forall>p. parent = Some p \<longrightarrow> t \<le> max now2 (ctx_deadline p))"
  using assms
proof (cases rule: runExecution_elim)
  case refused
  then show ?thesis by cases
next
  case (ran ctx abort s'' r)
  then obtain p where "q = race_abort (Some abort) p" by (auto split: sum.splits returned.splits)
  from race_abort_settles [OF this [symmetric]] ran(2,4) show ?thesis
    by (fastforce simp: context_bounded_def)
qed

lemma table_put_keys: "fst ` set (table_put k v tbl) = insert k (fst ` set tbl)"
proof -
  have "map fst (map (\<lambda>(k', v'). (k', if k' = k then v else v')) tbl) = map fst tbl" by (simp add: split_beta)
  then have "fst ` set (map (\<lambda>(k', v'). (k', if k' = k then v else v')) tbl) = fst ` set tbl"
    by (metis list.set_map)
  then show ?thesis by (auto simp: table_put_def image_iff simp del: set_map) force
qed

lemma table_of_keys: "fst ` set (table_of es) = fst ` set es"
proof -
  have "fst ` set (foldl (\<lambda>tbl (k, v). table_put k v tbl) tbl es) = fst ` set tbl \<union> fst ` set es" for tbl
  proof (induction es arbitrary: tbl)
    case (Cons e es)
    then show ?case by (cases e) (simp add: table_put_keys)
  qed simp
  from this [of "[]"] show ?thesis by (simp add: table_of_def)
qed

lemma registry_specs_manifest:
  assumes "createConnectorRegistry inp = Inr reg" and "map_of (r_specs reg) key = Some specs"
  shows "\<exists>m \<in> set (in_manifests (r_input reg)). manifest_key m = key"
proof -
  from assms(1) have r: "r_specs reg = buildConnectorOperationSpecs (in_manifests inp)" "r_input reg = inp"
    by (auto simp: createConnectorRegistry_def Let_def res_simps)
  from assms(2) have "key \<in> fst ` set (r_specs reg)" by (metis fst_conv image_eqI map_of_SomeD)
  then show ?thesis unfolding r buildConnectorOperationSpecs_def table_of_keys by auto
qed

text \<open>What holds of a dispatch whose handler was allowed to run.\<close>

definition admitted ::
    "'s connector_registry \<Rightarrow> string \<Rightarrow> string \<Rightarrow> jsval \<Rightarrow> OperationSpec \<Rightarrow> bool" where
  "admitted reg c operation v spec =
     (operation_at (r_specs reg) c operation = Some spec
      \<and> supportsOperationBudget (spec_budget spec)
      \<and> (\<exists>limit. sp_maxInputBytes spec = JInt limit \<and> int (jsonByteLength v) \<le> limit)
      \<and> (operation = ''healthcheck''
         \<or> (case declared_schema (map to_schema (in_manifests (r_input reg))) c operation of
              None \<Rightarrow> True
            | Some entry \<Rightarrow> accepts (registry_options (pkeys entry)) 65 (pschema entry) True (dispatch_value v))))"

definition registry_ready :: "'s connector_registry \<Rightarrow> validators \<Rightarrow> bool" where
  "registry_ready reg vs =
     (buildInputValidators (map to_schema (in_manifests (r_input reg))) = Inr (r_validators reg)
      \<and> distinct_operations (map to_schema (in_manifests (r_input reg)))
      \<and> cache_coherent (prepared (r_validators reg)) vs)"

lemma registry_readyI:
  assumes "createConnectorRegistry inp = Inr reg" and "distinct_operations (map to_schema (in_manifests inp))"
  shows "registry_ready reg (r_validators reg)"
  using assms buildInputValidators_spec(1) [of "map to_schema (in_manifests inp)" "r_validators reg"]
  by (auto simp: registry_ready_def createConnectorRegistry_def Let_def res_simps)

lemma registry_ready_dispatch:
  "registry_ready reg vs \<Longrightarrow> registry_ready reg (fst (validateDispatchInput vs c operation v))"
  by (simp add: registry_ready_def validateDispatchInput_coherent)

lemma dispatch_admits:
  assumes "registry_ready reg vs" and "validateDispatchInput vs c operation v = (vs', Inr None)"
    and "operation_at (r_specs reg) c operation = Some spec"
    and "supportsOperationBudget (spec_budget spec)" and "validateInputSize v (sp_maxInputBytes spec) = None"
  shows "admitted reg c operation v spec"
  using dispatch_verdict [of "map to_schema (in_manifests (r_input reg))" "r_validators reg" vs c operation v]
    input_within_limit [OF assms(4,5)] assms
  by (auto simp: admitted_def registry_ready_def split: option.splits)

lemma dispatch_never_throws:
  assumes "registry_ready reg vs" and "validateDispatchInput vs c operation v = (vs', r)"
  obtains answer where "r = Inr answer"
  using dispatch_verdict [of "map to_schema (in_manifests (r_input reg))" "r_validators reg" vs c operation v] assms
  by (auto simp: registry_ready_def)

lemma executeAction_cases:
  assumes ready: "registry_ready reg vs"
    and run: "executeAction reg (parent, clock) c operation v (vs, s) = ((vs', s'), r)"
  obtains (rejected) f where "s' = s" "r = Inr (Failed f)" "registry_ready reg vs'"
    | (health) spec h res where "operation = ''healthcheck''" "admitted reg c operation v spec"
        "run_health reg (parent, clock) c h v (Some spec) s = (s', res)" "r = Inr res" "registry_ready reg vs'"
    | (ran) spec h where "operation \<noteq> ''healthcheck''" "admitted reg c operation v spec" "kind spec = Some ''action''"
        "handler_in (in_actions (r_input reg)) c operation = Some h"
        "precheckEffectPolicyReconcile c v spec (r_specs reg) (in_actions (r_input reg)) (in_syncs (r_input reg)) = None"
        "run_action reg (parent, clock) c h v spec s = (s', r)" "registry_ready reg vs'"
proof (cases "action_gate reg c operation v")
  case (Inl f)
  with run ready rejected [of f] show thesis by (simp add: executeAction_def)
next
  case (Inr sh)
  obtain spec h where sh: "sh = (spec, h)" by (cases sh)
  note gate = action_gate_Inr [OF Inr [unfolded sh]]
  obtain vs1 q where d: "(if operation = ''healthcheck'' then (vs, Inr None)
      else validateDispatchInput vs c operation v) = (vs1, q)"
    by (cases "if operation = ''healthcheck'' then (vs, Inr None) else validateDispatchInput vs c operation v")
  have ready1: "registry_ready reg vs1"
    using d ready registry_ready_dispatch [OF ready, of c operation v] by (auto split: if_splits)
  obtain answer where q: "q = Inr answer"
    using d dispatch_never_throws [OF ready, of c operation v vs1 q] by (auto split: if_splits)
  let ?pre = "precheckEffectPolicyReconcile c v spec (r_specs reg) (in_actions (r_input reg)) (in_syncs (r_input reg))"
  show thesis
  proof (cases "answer = None \<and> ?pre = None")
    case False
    with run Inr sh d q ready1 rejected show thesis
      by (auto simp: executeAction_def split: option.splits)
  next
    case True
    have adm: "admitted reg c operation v spec"
    proof (cases "operation = ''healthcheck''")
      case True
      with gate(1,3) input_within_limit [OF gate(3,4)] show ?thesis by (auto simp: admitted_def)
    next
      case False
      with d q True have "validateDispatchInput vs c operation v = (vs1, Inr None)" by simp
      from dispatch_admits [OF ready this gate(1,3,4)] show ?thesis .
    qed
    show thesis
    proof (cases "operation = ''healthcheck''")
      case hc: True
      obtain s1 res where rh: "run_health reg (parent, clock) c h v (Some spec) s = (s1, res)"
        by (cases "run_health reg (parent, clock) c h v (Some spec) s")
      with run Inr sh d q True hc have "s' = s1" "r = Inr res" "vs' = vs1"
        by (auto simp: executeAction_def)
      with health [OF hc adm] rh ready1 show thesis by blast
    next
      case act: False
      obtain s1 res where ra: "run_action reg (parent, clock) c h v spec s = (s1, res)"
        by (cases "run_action reg (parent, clock) c h v spec s")
      with run Inr sh d q True act have "s' = s1" "r = res" "vs' = vs1"
        by (auto simp: executeAction_def)
      with ran [OF act adm gate(2)] gate(5) act True ra ready1 show thesis by auto
    qed
  qed
qed

lemma executeSync_cases:
  assumes ready: "registry_ready reg vs"
    and run: "executeSync reg (parent, clock) c operation v (vs, s) = ((vs', s'), r)"
    and "operation \<noteq> ''healthcheck''"
  obtains (rejected) f where "s' = s" "r = Inr (Failed f)" "registry_ready reg vs'"
    | (ran) spec h where "admitted reg c operation v spec" "kind spec = Some ''sync''" "registry_ready reg vs'"
        "runExecution parent clock (sync_work h v spec (snd (snd clock))) (sp_timeoutMs spec) None None None s
           = (s', map_sum id (\<lambda>w. w) (case r of Inl e \<Rightarrow> Inl e | Inr (Success w) \<Rightarrow> Inr w | Inr (Failed f) \<Rightarrow> Inl (ThrownVal f)))"
        "\<forall>f. r \<noteq> Inr (Failed f)"
proof (cases "sync_gate reg c operation v")
  case (Inl f)
  with run ready rejected [of f] show thesis by (simp add: executeSync_def)
next
  case (Inr sh)
  obtain spec h where sh: "sh = (spec, h)" by (cases sh)
  note gate = sync_gate_Inr [OF Inr [unfolded sh]]
  obtain vs1 q where d: "validateDispatchInput vs c operation v = (vs1, q)"
    by (cases "validateDispatchInput vs c operation v")
  have ready1: "registry_ready reg vs1"
    using d registry_ready_dispatch [OF ready, of c operation v] by simp
  obtain answer where q: "q = Inr answer" using dispatch_never_throws [OF ready d] .
  show thesis
  proof (cases answer)
    case (Some f)
    with run Inr sh d q ready1 rejected [of f] show thesis by (auto simp: executeSync_def)
  next
    case None
    with dispatch_admits [OF ready _ gate(1,3,4)] d q have adm: "admitted reg c operation v spec" by simp
    obtain s1 res where rx: "runExecution parent clock (sync_work h v spec (snd (snd clock))) (sp_timeoutMs spec) None None None s = (s1, res)"
      by (cases "runExecution parent clock (sync_work h v spec (snd (snd clock))) (sp_timeoutMs spec) None None None s")
    with run Inr sh d q None have "s' = s1" "vs' = vs1" "r = (case res of Inl e \<Rightarrow> Inl e | Inr w \<Rightarrow> Inr (Success w))"
      by (auto simp: executeSync_def split: sum.splits)
    with ran [OF adm gate(2)] rx ready1 show thesis by (cases res) auto
  qed
qed

section \<open>Theorems\<close>

text \<open>C5: no handler runs unchecked. For a registry that was built, a dispatched action either fails
  with a structured error and leaves the handlers' state as it was, or the operation is declared, its
  budget is supported, the input fits the declared size, the manifest's schema accepts it (healthchecks
  are exempt) and the pre-write check of its effect policy passed.\<close>

theorem executeAction_gated:
  assumes "registry_ready reg vs"
    and "executeAction reg (parent, clock) c operation v (vs, s) = ((vs', s'), r)"
  shows "registry_ready reg vs'
    \<and> ((s' = s \<and> (\<exists>f. r = Inr (Failed f)))
       \<or> (\<exists>spec. admitted reg c operation v spec
            \<and> (operation = ''healthcheck''
               \<or> precheckEffectPolicyReconcile c v spec (r_specs reg) (in_actions (r_input reg))
                    (in_syncs (r_input reg)) = None)))"
  using assms by (cases rule: executeAction_cases) auto

definition crm_manifest :: jsval where
  "crm_manifest = JObj
     [(''key'', JStr ''crm''),
      (''operations'', JObj [(''note.create'', JObj [(''kind'', JStr ''action''), (''timeoutMs'', JInt 1000),
         (''maxInputBytes'', JInt 100), (''maxResponseBytes'', JInt 100), (''inputSchema'', strict_example)])])]"

definition crm_input :: "nat registry_input" where
  "crm_input = \<lparr>in_manifests = [crm_manifest], in_healthchecks = [],
     in_actions = [(''crm'', [(''note.create'', \<lambda>ctx now v s. (Suc s, Inr (Value (unmarked v))))])],
     in_syncs = [], in_webhooks = []\<rparr>"

lemma crm_registry:
  obtains reg where "createConnectorRegistry crm_input = Inr reg" "registry_ready reg (r_validators reg)"
proof -
  have "is_ok (createConnectorRegistry crm_input)" by code_simp
  moreover have "distinct_operations (map to_schema (in_manifests crm_input))" by code_simp
  ultimately show thesis using that registry_readyI by (auto simp: is_ok_iff)
qed

lemma crm_run:
  "case createConnectorRegistry crm_input of
     Inl _ \<Rightarrow> False
   | Inr reg \<Rightarrow>
       snd (fst (executeAction reg (None, 0, 0, 0) ''crm'' ''note.create'' (JObj [(''id'', JStr ''a'')]) (r_validators reg, 0))) = 1"
  by code_simp

theorem executeAction_gated_witness:
  "\<exists>reg spec. createConnectorRegistry crm_input = Inr reg
     \<and> admitted reg ''crm'' ''note.create'' (JObj [(''id'', JStr ''a'')]) spec"
proof -
  obtain reg where reg: "createConnectorRegistry crm_input = Inr reg" "registry_ready reg (r_validators reg)"
    by (rule crm_registry)
  obtain vs' s' r where run: "executeAction reg (None, 0, 0, 0) ''crm'' ''note.create'' (JObj [(''id'', JStr ''a'')])
      (r_validators reg, 0) = ((vs', s'), r)"
    by (metis surj_pair)
  with crm_run reg(1) have "s' = 1" by simp
  with executeAction_gated [OF reg(2) run] reg(1) show ?thesis by auto
qed

text \<open>Every dispatched operation answers in time. If an action returns a promise, it settles by the
  contract's maximal timeout and by the deadline of the enclosing execution.\<close>

theorem executeAction_settles:
  assumes "registry_ready reg vs"
    and "executeAction reg (parent, now0, now1, now2) c operation v (vs, s) = ((vs', s'), Inr (Success (Pending q)))"
  shows "\<exists>t r. q = Settles t r \<and> t \<le> max now2 (now0 + maxOperationTimeoutMs)
           \<and> (\<forall>p. parent = Some p \<longrightarrow> t \<le> max now2 (ctx_deadline p))"
  using assms
proof (cases rule: executeAction_cases)
  case (health spec h res)
  then have "runExecution parent (now0, now1, now2) (health_work reg c h v (Some spec) now2)
      (spec_timeout (Some spec)) None None None s = (s', Inr (Pending q))"
    by (auto simp: run_health_def split: prod.splits sum.splits)
  then show ?thesis by (rule settled_by_deadline)
next
  case (ran spec h)
  then have "runExecution parent (now0, now1, now2) (action_work reg c h v spec now2)
      (sp_timeoutMs spec) None None None s = (s', Inr (Pending q))"
    by (auto simp: run_action_def split: prod.splits sum.splits)
  then show ?thesis by (rule settled_by_deadline)
qed auto

definition stalled_input :: "unit registry_input" where
  "stalled_input = \<lparr>in_manifests = [crm_manifest], in_healthchecks = [],
     in_actions = [(''crm'', [(''note.create'', \<lambda>ctx now v s. (s, Inr (Pending Never)))])],
     in_syncs = [], in_webhooks = []\<rparr>"

theorem executeAction_settles_witness:
  "\<exists>t r. (Settles 1007 (Inl (ThrownVal timeoutError)) :: marked promise) = Settles t r
     \<and> t \<le> max 7 (7 + maxOperationTimeoutMs)"
proof -
  have "is_ok (createConnectorRegistry stalled_input)" by code_simp
  then obtain reg where c: "createConnectorRegistry stalled_input = Inr reg" by (auto simp: is_ok_iff)
  have "distinct_operations (map to_schema (in_manifests stalled_input))" by code_simp
  with c have ready: "registry_ready reg (r_validators reg)" by (rule registry_readyI)
  have "case createConnectorRegistry stalled_input of Inl _ \<Rightarrow> False
    | Inr reg \<Rightarrow>
        (case executeAction reg (None, 7, 7, 7) ''crm'' ''note.create'' (JObj [(''id'', JStr ''a'')]) (r_validators reg, ()) of
           (_, Inr (Success (Pending (Settles t (Inl (ThrownVal e)))))) \<Rightarrow> t = 1007 \<and> e = timeoutError | _ \<Rightarrow> False)"
    by code_simp
  with c obtain vs' where run: "executeAction reg (None, 7, 7, 7) ''crm'' ''note.create'' (JObj [(''id'', JStr ''a'')])
      (r_validators reg, ()) = ((vs', ()), Inr (Success (Pending (Settles 1007 (Inl (ThrownVal timeoutError))))))"
    by (auto split: prod.splits sum.splits result.splits returned.splits promise.splits thrown.splits)
  from executeAction_settles [OF ready run] show ?thesis by auto
qed

text \<open>An action's output respects its declared size. Unless the operation hands over to an observing
  read, an output that the caller gets measures, without the runner's bookkeeping, at most the bytes
  the manifest declares.\<close>

theorem executeAction_output_bounded:
  assumes "registry_ready reg vs" and "operation \<noteq> ''healthcheck''"
    and "executeAction reg (parent, clock) c operation v (vs, s) = ((vs', s'), Inr (Success w))"
    and "await w = Some (Inr output)"
    and "operation_at (r_specs reg) c operation = Some spec" and "\<not> reconciles spec"
  shows "\<exists>limit. sp_maxResponseBytes spec = JInt limit
    \<and> int (jsonByteLength (fst (splitOperationMetadata output))) \<le> limit \<and> limit \<le> maxOperationResponseBytes"
  using assms(1,3)
proof (cases rule: executeAction_cases)
  case (ran spec' h)
  then have sp: "spec' = spec" and budget: "supportsOperationBudget (spec_budget spec)"
    using assms(5) by (auto simp: admitted_def)
  obtain now0 now1 now2 where clock: "clock = (now0, now1, now2)" by (cases clock)
  have "runExecution parent (now0, now1, now2) (action_work reg c h v spec now2) (sp_timeoutMs spec) None None None s
      = (s', Inr w)"
    using ran(6) sp clock by (auto simp: run_action_def split: prod.splits sum.splits)
  then obtain ctx x where "action_work reg c h v spec now2 ctx s = (s', Inr x)" "await x = Some (Inr output)"
    using assms(4) by (rule runExecution_value)
  then obtain y where b: "boundedOutput y (sp_maxResponseBytes spec) = Inr x"
    using assms(6)
    by (auto simp: action_work_def applyEffectPolicyReconcile_def split: prod.splits sum.splits)
  show ?thesis
  proof (rule spec_budgetE [OF budget])
    fix limit
    assume l: "sp_maxResponseBytes spec = JInt limit" "limit \<le> 52428800"
    with b have "boundedOutput y (JInt limit) = Inr x" by simp
    from boundedOutput_bounded [OF this \<open>await x = Some (Inr output)\<close>] l show ?thesis by simp
  qed
qed (use assms(2) in auto)

theorem executeAction_output_bounded_witness:
  "\<exists>reg spec limit. createConnectorRegistry crm_input = Inr reg
     \<and> operation_at (r_specs reg) ''crm'' ''note.create'' = Some spec \<and> sp_maxResponseBytes spec = JInt limit
     \<and> int (jsonByteLength (fst (splitOperationMetadata (unmarked (JObj [(''id'', JStr ''a'')]))))) \<le> limit"
proof -
  let ?v = "JObj [(''id'', JStr ''a'')]"
  obtain reg where reg: "createConnectorRegistry crm_input = Inr reg" "registry_ready reg (r_validators reg)"
    by (rule crm_registry)
  have "case createConnectorRegistry crm_input of Inl _ \<Rightarrow> False
    | Inr reg \<Rightarrow>
        (case executeAction reg (None, 0, 0, 0) ''crm'' ''note.create'' ?v (r_validators reg, 0) of
           (_, Inr (Success (Value out))) \<Rightarrow> out = unmarked ?v | _ \<Rightarrow> False)
        \<and> (case operation_at (r_specs reg) ''crm'' ''note.create'' of Some spec \<Rightarrow> \<not> reconciles spec | None \<Rightarrow> False)"
    by code_simp
  with reg(1) obtain st spec where run: "executeAction reg (None, 0, 0, 0) ''crm'' ''note.create'' ?v (r_validators reg, 0)
        = (st, Inr (Success (Value (unmarked ?v))))"
      and spec: "operation_at (r_specs reg) ''crm'' ''note.create'' = Some spec" "\<not> reconciles spec"
    by (auto split: prod.splits sum.splits result.splits returned.splits option.splits)
  obtain vs' s' where "st = (vs', s')" by (cases st)
  note bounded = executeAction_output_bounded [OF reg(2) _ run [unfolded this] _ spec]
  show ?thesis using bounded [of "unmarked ?v"] reg(1) spec(1) by (auto simp: await_def)
qed

text \<open>The start-up validation is sound. If it reports no issue, dispatching a declared action whose
  input fits its size never stops at a missing handler or an unsupported budget: the checks deliver
  the declared specification and a handler.\<close>

theorem validate_sound:
  assumes "createConnectorRegistry inp = Inr reg" and "validate reg = []"
    and "map_of (r_specs reg) c = Some specs" and "map_of specs operation = Some spec"
    and "kind spec = Some ''action''" and "validateInputSize v (sp_maxInputBytes spec) = None"
    and "object_prototype operation = JUndef"
  shows "\<exists>h. action_gate reg c operation v = Inr (spec, h)"
proof -
  obtain m where m: "m \<in> set (in_manifests (r_input reg))" "manifest_key m = c"
    using registry_specs_manifest [OF assms(1,3)] by blast
  have "(operation, spec) \<in> set specs" using assms(4) by (rule map_of_SomeD)
  with assms(2,3) m have ok: "validate_operation (r_input reg) c (operation, spec) = []"
    by (auto simp: validate_def concat_eq_Nil_conv)
  have at: "operation_at (r_specs reg) c operation = Some spec"
    using assms(3,4) by (simp add: operation_at_def spec_at_def)
  have budget: "supportsOperationBudget (spec_budget spec)"
    using ok by (auto simp: validate_operation_def Let_def split: if_splits)
  show ?thesis
  proof (cases "operation = ''healthcheck''")
    case True
    with ok assms(5) budget obtain h where h: "handler_at (in_healthchecks (r_input reg)) c = Some h"
      by (auto simp: validate_operation_def Let_def Option.is_none_def split: if_splits)
    then have "has_entry (in_healthchecks (r_input reg)) c"
      by (auto simp: handler_at_def proto_handler_def has_entry_def split: option.splits if_splits dest: map_of_SomeD)
         (metis fst_conv image_eqI map_of_SomeD)
    with True h at budget assms(5,6) show ?thesis by (auto simp: action_gate_def unsupportedBudget_def Let_def)
  next
    case False
    with ok assms(5) budget obtain h where
        h: "handler_at (case map_of (in_actions (r_input reg)) c of Some hs \<Rightarrow> hs | None \<Rightarrow> []) operation = Some h"
      by (auto simp: validate_operation_def Let_def Option.is_none_def split: if_splits)
    with assms(7) obtain hs where hs: "map_of (in_actions (r_input reg)) c = Some hs"
      by (cases "map_of (in_actions (r_input reg)) c") (auto simp: handler_at_def proto_handler_def)
    then have "has_entry (in_actions (r_input reg)) c" "handler_in (in_actions (r_input reg)) c operation = Some h"
      using h by (auto simp: has_entry_def handler_in_def dest: map_of_SomeD) (metis fst_conv image_eqI map_of_SomeD)
    with False at budget assms(5,6) show ?thesis by (auto simp: action_gate_def unsupportedBudget_def Let_def)
  qed
qed

theorem validate_sound_witness:
  "\<exists>reg spec h. createConnectorRegistry crm_input = Inr reg
     \<and> action_gate reg ''crm'' ''note.create'' JNull = Inr (spec, h)"
proof -
  obtain reg where reg: "createConnectorRegistry crm_input = Inr reg" by (rule crm_registry)
  have "case createConnectorRegistry crm_input of Inl _ \<Rightarrow> False
    | Inr reg \<Rightarrow> validate reg = []
        \<and> (case map_of (r_specs reg) ''crm'' of None \<Rightarrow> False
           | Some specs \<Rightarrow> (case map_of specs ''note.create'' of None \<Rightarrow> False
               | Some spec \<Rightarrow> kind spec = Some ''action'' \<and> validateInputSize JNull (sp_maxInputBytes spec) = None))"
    by code_simp
  with reg obtain specs spec where v: "validate reg = []" "map_of (r_specs reg) ''crm'' = Some specs"
      "map_of specs ''note.create'' = Some spec" "kind spec = Some ''action''"
      "validateInputSize JNull (sp_maxInputBytes spec) = None"
    by (auto split: option.splits)
  have "object_prototype ''note.create'' = JUndef" by code_simp
  with validate_sound [OF reg v] reg show ?thesis by blast
qed

section \<open>Inherited names\<close>

text \<open>
  The tables are plain objects that are read without an own-property check. A connector key such as
  \<open>constructor\<close> therefore counts as registered: its healthcheck is the function \<open>Object\<close>, which answers
  with the credentials it got and a status of \<open>ok\<close>, and its webhooks verify without a verifier.
\<close>

lemma inherited_healthcheck:
  assumes "map_of (in_healthchecks (r_input reg)) ''constructor'' = None"
    and "map_of (r_specs reg) ''constructor'' = None"
    and "find (\<lambda>m. get m ''key'' = JStr ''constructor'') (in_manifests (r_input reg)) = None"
  shows "healthcheck reg (None, 0, 0, 0) ''constructor'' (JObj [(''apiKey'', JStr ''k'')]) s
    = (s, Some (Success (Value \<lparr>out_value = JObj [(''apiKey'', JStr ''k''), (''status'', JStr ''ok'')],
                               out_marks = [''status'']\<rparr>)))"
proof -
  have "prop_get [(''apiKey'', JStr ''k'')] ''status'' = JUndef" by code_simp
  moreover have "obj_put [(''apiKey'', JStr ''k'')] ''status'' (JStr ''ok'') = [(''apiKey'', JStr ''k''), (''status'', JStr ''ok'')]"
    by code_simp
  moreover have "object_prototype ''constructor'' = JFun ''Object''" by code_simp
  ultimately show ?thesis
    using assms
    by (simp add: healthcheck_def handler_at_def proto_handler_def operation_at_def unsupportedBudget_def
        validateInputSize_def run_health_def runExecution_def spec_timeout_def operation_deadline_def
        health_work_def boundedOutput_def returned_map_def within_bytes_def object_call_def
        enforceCredentialedHealthcheckEvidence_def hasCredentialedHealthcheckInput_def
        normalizeHealthcheckOutput_def normalize_health_def operationMetadataKeys_def
        HEALTHCHECK_METADATA_KEYS_def markOperationMetadata_def set_of_list_def has_own_def Let_def
        budget_within.simps is_safe_integer_def max_safe_def)
qed

lemma inherited_webhook_verifies:
  "map_of (in_webhooks (r_input reg)) ''constructor'' = None \<Longrightarrow>
   verifyWebhook reg ''constructor'' payload headers = Success (Value (unmarked (JObj [(''verified'', JBool True)])))"
  by (simp add: verifyWebhook_def webhook_at_def object_prototype_def)

end
