(* ===== verification/Server.thy ===== *)
theory Server
  imports Registry
begin

text \<open>
  \<open>runner/bun/src/server.ts\<close> and \<open>protocol.ts\<close>: the RPC endpoint. \<open>handleRPC\<close> reads and checks the
  request, runs \<open>dispatchRPC\<close> inside an execution and turns every failure into a response.

  \<^item> The state is that of the registry and the lines written to the console.
  \<^item> A handler is \<open>async\<close>: it gives a promise of a response. The secrets of the execution context,
    which \<open>redactText\<close> reads, are those of the context argument; after \<open>await\<close> the context is the
    same. Outside of an execution there are none.
  \<^item> The clock readings of \<open>handleRPC\<close> and of the executions in it are arguments.
\<close>

section \<open>Protocol\<close>

definition supportedProtocolVersion :: string where
  "supportedProtocolVersion = ''2026-05-14''"

record RequestEnvelope =
  envelope_id :: "string option"
  deadlineUnixMs :: "int option"
  rpc_method :: jsval
  params :: "props option"

record response =
  status :: int
  body :: string

text \<open>The payloads of a response: \<open>{ok: true, result}\<close> and \<open>{ok: false, error}\<close>.\<close>

definition ok_payload :: "jsval \<Rightarrow> props" where
  "ok_payload v = [(''ok'', JBool True), (''result'', v)]"

definition error_payload :: "props \<Rightarrow> props" where
  "error_payload e = [(''ok'', JBool False), (''error'', JObj e)]"

definition plain_error :: "string \<Rightarrow> string \<Rightarrow> props" where
  "plain_error errcode message = error_payload [(''code'', JStr errcode), (''message'', JStr message)]"

record 's srv =
  rstate :: "'s rstate"
  console :: "string option list"

definition log_entry :: "string list \<Rightarrow> (string \<times> logv) list \<Rightarrow> 's srv \<Rightarrow> 's srv" where
  "log_entry secrets entries st = st\<lparr>console := console st @ [logLine secrets entries]\<rparr>"

section \<open>Parameters\<close>

definition readStringParam :: "RequestEnvelope \<Rightarrow> string \<Rightarrow> string option" where
  "readStringParam envelope key =
     (case params envelope of
        None \<Rightarrow> None
      | Some ps \<Rightarrow> (case prop_get ps key of JStr s \<Rightarrow> Some s | _ \<Rightarrow> None))"

definition readConnectorKey :: "RequestEnvelope \<Rightarrow> string option" where
  "readConnectorKey envelope = readStringParam envelope ''connectorKey''"

text \<open>\<open>envelope.params?.key\<close>.\<close>

definition param :: "RequestEnvelope \<Rightarrow> string \<Rightarrow> jsval" where
  "param envelope key = (case params envelope of None \<Rightarrow> JUndef | Some ps \<Rightarrow> prop_get ps key)"

definition input_param :: "RequestEnvelope \<Rightarrow> jsval" where
  "input_param envelope = nullish (param envelope ''input'') (JObj [])"

text \<open>A string that is neither missing nor empty.\<close>

definition given :: "string option \<Rightarrow> string option" where
  "given v = (case v of Some (c # cs) \<Rightarrow> Some (c # cs) | _ \<Rightarrow> None)"

definition envelopeSource :: "props \<Rightarrow> props" where
  "envelopeSource metadata =
     (if prop_get metadata ''source'' = JUndef then [] else [(''source'', prop_get metadata ''source'')])"

definition credentialValues :: "'s connector_registry \<Rightarrow> RequestEnvelope \<Rightarrow> string list" where
  "credentialValues reg envelope =
     (case param envelope ''input'' of
        JObj input \<Rightarrow>
          (let manifest = describe reg (case readConnectorKey envelope of Some k \<Rightarrow> k | None \<Rightarrow> []);
               setup = get (get manifest ''auth'') ''setup'';
               named = filter is_credential_key (map fst input);
               secret = map (\<lambda>f. to_str (get f ''key'')) (filter (\<lambda>f. truthy (get f ''secret'')) (setup_fields manifest));
               derived = map (\<lambda>d. to_str (get d ''field'')) (items_of (get setup ''derive''));
               auth_field = get (get (get manifest ''http'') ''auth'') ''field'';
               keys = set_of_list (named @ secret @ derived @ (if truthy auth_field then [to_str auth_field] else []))
           in concat (map (\<lambda>k. case prop_get input k of JStr (c # cs) \<Rightarrow> [c # cs] | _ \<Rightarrow> []) keys))
      | _ \<Rightarrow> [])"

section \<open>Status codes and errors\<close>

definition statusForRegistryFailure :: "string \<Rightarrow> int" where
  "statusForRegistryFailure errcode =
     (if errcode = ''INPUT_TOO_LARGE'' then 413
      else if errcode = ''UNSUPPORTED_OPERATION_BUDGET'' \<or> errcode = ''INVALID_ACTION_INPUT'' then 400
      else 404)"

definition statusForWebhookFailure :: "string \<Rightarrow> int" where
  "statusForWebhookFailure errcode = (if errcode = ''UNKNOWN_CONNECTOR'' then 404 else 400)"

definition statusForExecutionErrorCode :: "string \<Rightarrow> int" where
  "statusForExecutionErrorCode errcode =
     (if errcode = ''OPERATION_TIMEOUT'' \<or> errcode = ''OUTBOUND_TIMEOUT'' then 504
      else if errcode = ''CONNECTOR_RATE_LIMITED'' then 429
      else if errcode = ''CONNECTOR_UNAVAILABLE'' then 503
      else if errcode \<in> set [''CONNECTOR_UPSTREAM_ERROR'', ''CONNECTOR_RESPONSE_INVALID'', ''OUTPUT_TOO_LARGE'',
                ''OUTBOUND_RESPONSE_TOO_LARGE''] then 502
      else if errcode = ''OUTBOUND_UNSUPPORTED_BUDGET'' \<or> errcode = ''UNSUPPORTED_OPERATION_BUDGET'' then 400
      else if errcode = ''CONNECTOR_ACCOUNT_RESTRICTED'' then 423
      else if errcode = ''CONNECTOR_CAPABILITY_MISSING'' then 403
      else if errcode = ''CONNECTOR_ACTION_NOT_PERMITTED'' then 422
      else 400)"

definition isStringList :: "jsval \<Rightarrow> bool" where
  "isStringList v = (case v of JArr xs \<Rightarrow> list_all (\<lambda>x. case x of JStr _ \<Rightarrow> True | _ \<Rightarrow> False) xs | _ \<Rightarrow> False)"

text \<open>One conditional spread \<open>...(ok ? {key: value} : {})\<close>.\<close>

definition field_if :: "bool \<Rightarrow> string \<Rightarrow> jsval \<Rightarrow> props" where
  "field_if ok key v = (if ok then [(key, v)] else [])"

definition capabilityFailureFields :: "thrown \<Rightarrow> props" where
  "capabilityFailureFields e =
     (let reason = thrown_get e ''reason''; missing = thrown_get e ''missingScopes'';
          required = thrown_get e ''requiredScopes''; reconsent = thrown_get e ''reconsentRequired''
      in field_if (case reason of JStr s \<Rightarrow> s \<noteq> [] | _ \<Rightarrow> False) ''reason'' reason
         @ field_if (isStringList missing) ''missingScopes'' missing
         @ field_if (isStringList required) ''requiredScopes'' required
         @ field_if (case reconsent of JBool _ \<Rightarrow> True | _ \<Rightarrow> False) ''reconsentRequired'' reconsent)"

definition is_record_thrown :: "thrown \<Rightarrow> bool" where
  "is_record_thrown e = (case e of ErrorInst _ _ _ \<Rightarrow> True | ThrownVal v \<Rightarrow> is_record v)"

definition errorResponseForExecutionFailure ::
    "string list \<Rightarrow> thrown \<Rightarrow> string \<Rightarrow> string \<Rightarrow> int \<times> props" where
  "errorResponseForExecutionFailure secrets e fallbackCode fallbackMessage =
     (case (is_record_thrown e, thrown_get e ''code'') of
        (True, JStr (c # cs)) \<Rightarrow>
          (statusForExecutionErrorCode (c # cs),
           [(''code'', JStr (c # cs))] @ retry_field e
           @ [(''message'', JStr (case thrown_get e ''message'' of JStr m \<Rightarrow> redactText secrets m | _ \<Rightarrow> fallbackMessage))]
           @ (if c # cs = ''CONNECTOR_CAPABILITY_MISSING'' then capabilityFailureFields e else []))
      | _ \<Rightarrow>
          (400, [(''code'', JStr fallbackCode),
                 (''message'', JStr (case e of ErrorInst _ m _ \<Rightarrow> redactText secrets m | ThrownVal _ \<Rightarrow> fallbackMessage))]))"

section \<open>Responses\<close>

definition safe_payload :: "string list \<Rightarrow> props \<Rightarrow> props" where
  "safe_payload secrets payload =
     (case prop_get payload ''error'' of
        JObj e \<Rightarrow> obj_def payload ''error''
          (JObj (obj_def e ''message'' (JStr (redactText secrets (str_of (prop_get e ''message''))))))
      | _ \<Rightarrow> payload)"

definition jsonResponse ::
    "string list \<Rightarrow> int \<Rightarrow> string option \<Rightarrow> props \<Rightarrow> jsval \<Rightarrow> response res" where
  "jsonResponse secrets httpStatus requestID payload operationResponseBytes =
     (let safe = safe_payload secrets payload;
          text = stringify (JObj (case given requestID of Some i \<Rightarrow> spread [(''id'', JStr i)] safe | None \<Rightarrow> safe))
      in sbind (operationWireResponseLimit operationResponseBytes) (\<lambda>limit.
         if limit < int (byte_length text)
         then Inr \<lparr>status = 502, body = stringify (JObj
                ((''id'', case requestID of Some i \<Rightarrow> JStr i | None \<Rightarrow> JUndef)
                 # plain_error ''OUTPUT_TOO_LARGE'' ''RPC output exceeds byte limit.''))\<rparr>
         else Inr \<lparr>status = httpStatus, body = text\<rparr>))"

text \<open>\<open>jsonResponse\<close> without the fourth argument; \<open>operationWireResponseLimit\<close> then takes its default.\<close>

abbreviation reply :: "string list \<Rightarrow> int \<Rightarrow> string option \<Rightarrow> props \<Rightarrow> response res" where
  "reply secrets httpStatus requestID payload \<equiv> jsonResponse secrets httpStatus requestID payload JUndef"

definition failed_reply :: "string list \<Rightarrow> string option \<Rightarrow> int \<times> props \<Rightarrow> response res" where
  "failed_reply secrets requestID failed = reply secrets (fst failed) requestID (error_payload (snd failed))"

text \<open>\<open>await\<close> in a \<open>try\<close>: the continuation gets the value or what was thrown.\<close>

definition await_then ::
    "time \<Rightarrow> 'a returned \<Rightarrow> (thrown + 'a \<Rightarrow> 's \<Rightarrow> 's \<times> (thrown + 'b)) \<Rightarrow> 's \<Rightarrow> 's \<times> 'b promise" where
  "await_then now v k s =
     (case (case v of Value a \<Rightarrow> Settles now (Inr a) | Pending p \<Rightarrow> p) of
        Never \<Rightarrow> (s, Never)
      | Settles t r \<Rightarrow> (case k r s of (s', q) \<Rightarrow> (s', Settles t q)))"

section \<open>Handlers\<close>

type_synonym clock = "time \<times> time \<times> time"

definition unknown_connector :: "string list \<Rightarrow> RequestEnvelope \<Rightarrow> response res" where
  "unknown_connector secrets envelope =
     reply secrets 404 (envelope_id envelope) (plain_error ''UNKNOWN_CONNECTOR'' ''Connector is not registered.'')"

text \<open>\<open>envelope.id\<close> and the like in a log record.\<close>

definition log_id :: "string option \<Rightarrow> logv" where
  "log_id v = (case v of Some s \<Rightarrow> LText s | None \<Rightarrow> LAtom JUndef)"

text \<open>The end of both operation handlers: split the output, check its size, answer.\<close>

definition operation_reply ::
    "'s connector_registry \<Rightarrow> string list \<Rightarrow> RequestEnvelope \<Rightarrow> string \<Rightarrow> string \<Rightarrow> string \<Rightarrow> marked \<Rightarrow> response res" where
  "operation_reply reg secrets envelope field connectorKey operation output =
     (let split = splitOperationMetadata output;
          operationOutput = (if is_record (fst split) then fst split else JObj []);
          maxResponseBytes = (case operationBudget reg connectorKey operation of
             Some spec \<Rightarrow> sp_maxResponseBytes spec | None \<Rightarrow> JUndef)
      in if (case maxResponseBytes of
               JNum n \<Rightarrow> num_lt n (Fin (of_nat (jsonByteLength operationOutput))) | _ \<Rightarrow> True)
         then reply secrets 502 (envelope_id envelope)
                (plain_error ''OUTPUT_TOO_LARGE'' ''Operation output exceeds the manifest byte limit.'')
         else jsonResponse secrets 200 (envelope_id envelope)
                (ok_payload (JObj ([(''output'', operationOutput), (''connector'', JStr connectorKey),
                   (field, JStr operation)] @ envelopeSource (snd split)))) maxResponseBytes)"

definition handleConnectorSyncList ::
    "'s connector_registry \<Rightarrow> ExecutionContext \<Rightarrow> clock \<Rightarrow> RequestEnvelope \<Rightarrow> 's srv \<Rightarrow> 's srv \<times> response promise" where
  "handleConnectorSyncList reg ctx clock envelope st =
     (let secrets = ctx_secrets ctx; now = snd (snd clock); requestID = envelope_id envelope in
      case given (readConnectorKey envelope) of
        None \<Rightarrow> (st, Settles now (unknown_connector secrets envelope))
      | Some connectorKey \<Rightarrow>
      if \<not> truthy (describe reg connectorKey) then (st, Settles now (unknown_connector secrets envelope))
      else case given (readStringParam envelope ''sync'') of
        None \<Rightarrow> (st, Settles now (reply secrets 404 requestID
                  (plain_error ''SYNC_NOT_DECLARED'' ''Sync is not declared in the connector manifest.'')))
      | Some sync \<Rightarrow>
          (case executeSync reg (Some ctx, clock) connectorKey sync (input_param envelope) (rstate st) of
             (rs, Inl e) \<Rightarrow>
               (st\<lparr>rstate := rs\<rparr>, Settles now (failed_reply secrets requestID
                  (errorResponseForExecutionFailure secrets e ''INVALID_SYNC_INPUT'' ''Sync input is invalid.'')))
           | (rs, Inr (Failed f)) \<Rightarrow>
               (st\<lparr>rstate := rs\<rparr>, Settles now (reply secrets (statusForRegistryFailure (str_of (get f ''code''))) requestID
                  (plain_error (str_of (get f ''code'')) (str_of (get f ''message'')))))
           | (rs, Inr (Success v)) \<Rightarrow>
               await_then now v (\<lambda>r st.
                 (case r of
                    Inl e \<Rightarrow>
                      (let failed = errorResponseForExecutionFailure secrets e ''INVALID_SYNC_INPUT'' ''Sync input is invalid.''
                       in (log_entry secrets [(''component'', LText ''runner''), (''event'', LText ''sync_rejected''),
                             (''requestID'', log_id requestID), (''connector'', LText connectorKey), (''sync'', LText sync),
                             (''error'', log_of (JObj (snd failed)))] st,
                           failed_reply secrets requestID failed))
                  | Inr output \<Rightarrow> (st, operation_reply reg secrets envelope ''sync'' connectorKey sync output)))
                 (st\<lparr>rstate := rs\<rparr>)))"

definition handleConnectorActionExecute ::
    "'s connector_registry \<Rightarrow> ExecutionContext \<Rightarrow> clock \<Rightarrow> RequestEnvelope \<Rightarrow> 's srv \<Rightarrow> 's srv \<times> response promise" where
  "handleConnectorActionExecute reg ctx clock envelope st =
     (let secrets = ctx_secrets ctx; now = snd (snd clock); requestID = envelope_id envelope in
      case given (readConnectorKey envelope) of
        None \<Rightarrow> (st, Settles now (unknown_connector secrets envelope))
      | Some connectorKey \<Rightarrow>
      if \<not> truthy (describe reg connectorKey) then (st, Settles now (unknown_connector secrets envelope))
      else case given (readStringParam envelope ''action'') of
        None \<Rightarrow> (st, Settles now (reply secrets 404 requestID
                  (plain_error ''ACTION_NOT_DECLARED'' ''Action is not declared in the connector manifest.'')))
      | Some action \<Rightarrow>
          (case executeAction reg (Some ctx, clock) connectorKey action (input_param envelope) (rstate st) of
             (rs, Inl e) \<Rightarrow>
               (st\<lparr>rstate := rs\<rparr>, Settles now (failed_reply secrets requestID
                  (errorResponseForExecutionFailure secrets e ''INVALID_ACTION_INPUT'' ''Action input is invalid.'')))
           | (rs, Inr (Failed f)) \<Rightarrow>
               (log_entry secrets [(''component'', LText ''runner''), (''event'', LText ''action_failed''),
                  (''requestID'', log_id requestID), (''connector'', LText connectorKey), (''action'', LText action),
                  (''code'', log_of (get f ''code'')), (''message'', log_of (get f ''message''))] (st\<lparr>rstate := rs\<rparr>),
                Settles now (reply secrets (statusForRegistryFailure (str_of (get f ''code''))) requestID
                  (plain_error (str_of (get f ''code'')) (str_of (get f ''message'')))))
           | (rs, Inr (Success v)) \<Rightarrow>
               await_then now v (\<lambda>r st.
                 (case r of
                    Inl e \<Rightarrow>
                      (let failed = errorResponseForExecutionFailure secrets e ''INVALID_ACTION_INPUT'' ''Action input is invalid.''
                       in (log_entry secrets [(''component'', LText ''runner''), (''event'', LText ''action_rejected''),
                             (''requestID'', log_id requestID), (''connector'', LText connectorKey), (''action'', LText action),
                             (''error'', log_of (JObj (snd failed))), (''raw'', log_thrown e)] st,
                           failed_reply secrets requestID failed))
                  | Inr output \<Rightarrow> (st, operation_reply reg secrets envelope ''action'' connectorKey action output)))
                 (st\<lparr>rstate := rs\<rparr>)))"

text \<open>The value of a webhook result, which is never a promise.\<close>

definition returned_value :: "marked returned \<Rightarrow> jsval" where
  "returned_value v = (case v of Value m \<Rightarrow> out_value m | Pending _ \<Rightarrow> JObj [])"

definition handleConnectorWebhookVerify ::
    "'s connector_registry \<Rightarrow> string list \<Rightarrow> RequestEnvelope \<Rightarrow> response res" where
  "handleConnectorWebhookVerify reg secrets envelope =
     (let requestID = envelope_id envelope in
      case given (readConnectorKey envelope) of
        None \<Rightarrow> unknown_connector secrets envelope
      | Some connectorKey \<Rightarrow>
          (let payload = nullish (param envelope ''payload'') (JObj []);
               headers = (if is_record (param envelope ''headers'') then param envelope ''headers'' else JObj [])
           in case verifyWebhook reg connectorKey payload headers of
                Failed f \<Rightarrow> reply secrets (statusForWebhookFailure (str_of (get f ''code''))) requestID
                  (plain_error (str_of (get f ''code'')) (str_of (get f ''message'')))
              | Success v \<Rightarrow>
                  (if is_record (returned_value v) \<and> get (returned_value v) ''verified'' = JBool True
                   then reply secrets 200 requestID (ok_payload (JObj [(''verified'', JBool True)]))
                   else reply secrets 400 requestID
                     (plain_error ''WEBHOOK_SIGNATURE_INVALID'' ''Webhook signature could not be verified.''))))"

definition handleConnectorWebhookParse ::
    "'s connector_registry \<Rightarrow> string list \<Rightarrow> RequestEnvelope \<Rightarrow> response res" where
  "handleConnectorWebhookParse reg secrets envelope =
     (let requestID = envelope_id envelope in
      case given (readConnectorKey envelope) of
        None \<Rightarrow> unknown_connector secrets envelope
      | Some connectorKey \<Rightarrow>
          (case parseWebhook reg connectorKey (nullish (param envelope ''payload'') (JObj [])) of
             Failed f \<Rightarrow> reply secrets (statusForWebhookFailure (str_of (get f ''code''))) requestID
               (plain_error (str_of (get f ''code'')) (str_of (get f ''message'')))
           | Success v \<Rightarrow>
               (let parsed = (if is_record (returned_value v) then returned_value v else JObj [])
                in reply secrets 200 requestID (ok_payload (JObj
                     [(''idempotencyKey'', JStr (str_of (get parsed ''idempotencyKey''))),
                      (''operation'', JStr (str_of (get parsed ''operation''))),
                      (''sanitized'', nullish (get parsed ''sanitized'') (JObj []))])))))"

definition handleConnectorDescribe ::
    "'s connector_registry \<Rightarrow> string list \<Rightarrow> RequestEnvelope \<Rightarrow> response res" where
  "handleConnectorDescribe reg secrets envelope =
     (case given (readConnectorKey envelope) of
        None \<Rightarrow> unknown_connector secrets envelope
      | Some connectorKey \<Rightarrow>
          (let connector = describe reg connectorKey in
           if \<not> truthy connector then unknown_connector secrets envelope
           else reply secrets 200 (envelope_id envelope) (ok_payload connector)))"

definition handleConnectorHealthcheck ::
    "'s connector_registry \<Rightarrow> ExecutionContext \<Rightarrow> clock \<Rightarrow> RequestEnvelope \<Rightarrow> 's srv \<Rightarrow> 's srv \<times> response promise" where
  "handleConnectorHealthcheck reg ctx clock envelope st =
     (let secrets = ctx_secrets ctx; now = snd (snd clock); requestID = envelope_id envelope; (vs, s) = rstate st;
          (s', answer) = (case given (readConnectorKey envelope) of
             None \<Rightarrow> (s, None)
           | Some connectorKey \<Rightarrow> healthcheck reg (Some ctx, clock) connectorKey (input_param envelope) s);
          st' = st\<lparr>rstate := (vs, s')\<rparr>
      in case answer of
           None \<Rightarrow> (st', Settles now (unknown_connector secrets envelope))
         | Some (Failed f) \<Rightarrow>
             (st', Settles now (reply secrets (statusForExecutionErrorCode (str_of (get f ''code''))) requestID
                (error_payload [(''code'', JStr (str_of (get f ''code''))), (''message'', JStr (str_of (get f ''message''))),
                   (''retryAfterSeconds'', get f ''retryAfterSeconds'')])))
         | Some (Success v) \<Rightarrow>
             await_then now v (\<lambda>r st.
               (case r of
                  Inl e \<Rightarrow> (st, failed_reply secrets requestID
                    (errorResponseForExecutionFailure secrets e ''CONNECTOR_UPSTREAM_ERROR'' ''Connector healthcheck failed.''))
                | Inr output \<Rightarrow> (st, reply secrets 200 requestID (ok_payload (out_value output))))) st')"

section \<open>Dispatch\<close>

definition runner_description :: jsval where
  "runner_description = JObj [(''protocolVersion'', JStr supportedProtocolVersion), (''runner'', JStr ''appcall-bun''),
     (''durableCapabilities'', JArr [JStr ''absolute-deadline'', JStr ''bounded-rpc'', JStr ''cancellation''])]"

definition dispatchRPC ::
    "'s connector_registry \<Rightarrow> clock \<Rightarrow> RequestEnvelope \<Rightarrow> ExecutionContext \<Rightarrow> 's srv \<Rightarrow> 's srv \<times> response promise" where
  "dispatchRPC reg clock envelope ctx st =
     (let secrets = ctx_secrets ctx; now = snd (snd clock) in
      case rpc_method envelope of
        JStr m \<Rightarrow>
          (if m = ''runner.describe''
           then (st, Settles now (reply secrets 200 (envelope_id envelope) (ok_payload runner_description)))
           else if m = ''connector.describe'' then (st, Settles now (handleConnectorDescribe reg secrets envelope))
           else if m = ''connector.healthcheck'' then handleConnectorHealthcheck reg ctx clock envelope st
           else if m = ''connector.action.execute'' then handleConnectorActionExecute reg ctx clock envelope st
           else if m = ''connector.sync.list'' then handleConnectorSyncList reg ctx clock envelope st
           else if m = ''connector.webhook.verify''
           then (st, Settles now (handleConnectorWebhookVerify reg secrets envelope))
           else if m = ''connector.webhook.parse''
           then (st, Settles now (handleConnectorWebhookParse reg secrets envelope))
           else (st, Settles now (reply secrets 400 (envelope_id envelope)
                  (plain_error ''UNKNOWN_METHOD'' ''Unknown runner method.''))))
      | _ \<Rightarrow> (st, Settles now (reply secrets 400 (envelope_id envelope)
               (plain_error ''UNKNOWN_METHOD'' ''Unknown runner method.''))))"

section \<open>The request\<close>

text \<open>
  An incoming request: its body as the events of a stream, the signal that its connection closes, and
  what \<open>reader.cancel()\<close> throws, if it does.
\<close>

record rpc_request =
  rpc_body :: "(time \<times> read_event) list option"
  rpc_signal :: abort_signal
  rpc_cancel :: "thrown option"
  rpc_request_id :: "string option"

datatype body_read = Complete time bytes | TooLarge time | Aborted time | Broken time

text \<open>
  An abort cancels the reader, which ends a pending read; the request is then answered as aborted. A
  list that ends without \<open>Done\<close> is a read that stays pending.
\<close>

fun read_body :: "time \<Rightarrow> thrown option \<Rightarrow> (time \<times> read_event) list \<Rightarrow> bytes \<Rightarrow> body_read" where
  "read_body abort cancel [] chunks = Aborted abort"
| "read_body abort cancel ((t, ev) # evs) chunks =
     (if abort \<le> t then Aborted abort
      else case ev of
        ReadError e \<Rightarrow> Broken t
      | Done \<Rightarrow> Complete t chunks
      | Chunk value \<Rightarrow>
          (if rpcRequestLimitBytes < int (length (chunks @ value))
           then (case cancel of None \<Rightarrow> TooLarge t | Some e \<Rightarrow> Broken t)
           else read_body abort cancel evs (chunks @ value)))"

definition valid_id :: "jsval \<Rightarrow> bool" where
  "valid_id v = (case v of JUndef \<Rightarrow> True | JStr s \<Rightarrow> s \<noteq> [] \<and> length s \<le> 256 | _ \<Rightarrow> False)"

definition valid_deadline :: "jsval \<Rightarrow> bool" where
  "valid_deadline v = (case v of JUndef \<Rightarrow> True | JNum n \<Rightarrow> is_safe_integer n \<and> \<not> num_lt n (Fin 0) | _ \<Rightarrow> False)"

definition parse_envelope :: "string \<Rightarrow> RequestEnvelope option" where
  "parse_envelope text =
     (case json_parse text of
        Some (JObj ps) \<Rightarrow>
          (if valid_id (prop_get ps ''id'')
              \<and> (prop_get ps ''params'' = JUndef \<or> is_record (prop_get ps ''params''))
              \<and> valid_deadline (prop_get ps ''deadlineUnixMs'')
           then Some \<lparr>envelope_id = (case prop_get ps ''id'' of JStr s \<Rightarrow> Some s | _ \<Rightarrow> None),
                      deadlineUnixMs = (case prop_get ps ''deadlineUnixMs'' of JNum n \<Rightarrow> Some (int_of (JNum n)) | _ \<Rightarrow> None),
                      rpc_method = prop_get ps ''method'',
                      params = (case prop_get ps ''params'' of JObj q \<Rightarrow> Some q | _ \<Rightarrow> None)\<rparr>
           else None)
      | _ \<Rightarrow> None)"

definition request_aborted :: "response res" where
  "request_aborted = reply [] 504 None (plain_error ''OPERATION_TIMEOUT'' ''RPC request aborted.'')"

definition malformed :: "response res" where
  "malformed = reply [] 400 None (plain_error ''MALFORMED_REQUEST'' ''Request body must be valid JSON.'')"

text \<open>The part of \<open>handleRPC\<close> before the dispatch: an early answer, or the envelope and the time.\<close>

definition read_request ::
    "(bytes \<Rightarrow> string) \<Rightarrow> rpc_request \<Rightarrow> time \<Rightarrow> time \<Rightarrow> response promise + RequestEnvelope" where
  "read_request decode request started armed =
     (if aborted armed (rpc_signal request) then Inl (Settles armed request_aborted)
      else let
        timer = armed + max 0 (started + maxOperationTimeoutMs - armed);
        abort = (case rpc_signal request of None \<Rightarrow> timer | Some a \<Rightarrow> min timer a)
      in case (case rpc_body request of
                 None \<Rightarrow> Complete armed []
               | Some events \<Rightarrow> read_body abort (rpc_cancel request) events []) of
           Aborted t \<Rightarrow> Inl (Settles t request_aborted)
         | TooLarge t \<Rightarrow> Inl (Settles t (reply [] 413 None (plain_error ''INPUT_TOO_LARGE'' ''RPC body exceeds byte limit.'')))
         | Broken t \<Rightarrow> Inl (Settles t malformed)
         | Complete t chunks \<Rightarrow>
             (case parse_envelope (decode chunks) of
                None \<Rightarrow> Inl (Settles t malformed)
              | Some envelope \<Rightarrow> Inr envelope))"

definition logRequest :: "string \<Rightarrow> jsval \<Rightarrow> 's srv \<Rightarrow> 's srv" where
  "logRequest requestID m st =
     log_entry [] [(''component'', LText ''runner''), (''requestID'', LText requestID), (''method'', log_of m)] st"

text \<open>\<open>await\<close> of the execution, with its \<open>catch\<close>, outside of the execution context.\<close>

definition runner_failed :: "RequestEnvelope \<Rightarrow> thrown + response \<Rightarrow> response res" where
  "runner_failed envelope r =
     (case r of
        Inr response \<Rightarrow> Inr response
      | Inl e \<Rightarrow> failed_reply [] (envelope_id envelope)
          (errorResponseForExecutionFailure [] e ''CONNECTOR_UPSTREAM_ERROR'' ''Runner failed.''))"

definition handleRPC ::
    "'s connector_registry \<Rightarrow> (bytes \<Rightarrow> string) \<Rightarrow> rpc_request \<Rightarrow> time \<Rightarrow> time \<times> time \<Rightarrow> clock \<Rightarrow> clock
     \<Rightarrow> 's srv \<Rightarrow> 's srv \<times> response promise" where
  "handleRPC reg decode request admittedAt readings clock inner st =
     (let started = min admittedAt (fst readings) in
      case read_request decode request started (snd readings) of
        Inl early \<Rightarrow> (st, early)
      | Inr envelope \<Rightarrow>
          (let requestID = (case envelope_id envelope of Some i \<Rightarrow> i
                 | None \<Rightarrow> (case rpc_request_id request of Some i \<Rightarrow> i | None \<Rightarrow> ''runner-local''));
               st1 = logRequest requestID (nullish (rpc_method envelope) (JStr ''missing.method'')) st;
               latest = started + maxOperationTimeoutMs;
               limit = (case deadlineUnixMs envelope of None \<Rightarrow> latest | Some d \<Rightarrow> min d latest)
           in case runExecution None clock
                     (\<lambda>ctx st. case dispatchRPC reg inner envelope ctx st of (st', p) \<Rightarrow> (st', Inr (Pending p)))
                     (JInt maxOperationTimeoutMs) (Some (rpc_signal request)) (Some limit)
                     (Some (credentialValues reg envelope)) st1 of
                (st2, Inl e) \<Rightarrow> (st2, Settles (snd (snd clock)) (runner_failed envelope (Inl e)))
              | (st2, Inr v) \<Rightarrow>
                  (case await_then (snd (snd clock)) v (\<lambda>r st. (st, runner_failed envelope r)) st2 of
                     (st3, p) \<Rightarrow> (st3, p))))"

section \<open>Sizes\<close>

lemma wire_limit_default [simp]: "operationWireResponseLimit JUndef = Inr rpcResponseLimitBytes"
  by (simp add: operationWireResponseLimit_def Let_def max_safe_def del: of_int_numeral)

lemma wire_limit_bounded: "operationWireResponseLimit v = Inr limit \<Longrightarrow> limit \<le> rpcResponseLimitBytes"
  by (auto simp: operationWireResponseLimit_def Let_def split: if_splits elim!: budget_withinE)

lemma wire_limit_Inl:
  "operationWireResponseLimit v = Inl e \<Longrightarrow> e = Error ''Operation response budget is outside the runner contract.''"
  by (auto simp: operationWireResponseLimit_def Let_def split: if_splits)

lemma utf8_ascii: "code c < 128 \<Longrightarrow> length (utf8_char c) = 1"
  by (simp add: code_def)

lemma utf8_short: "length (utf8_char c) \<le> 2"
  by simp

lemma byte_length_Nil [simp]: "byte_length [] = 0"
  by (simp add: byte_length_def utf8_def)

lemma byte_length_Cons: "byte_length (c # s) = length (utf8_char c) + byte_length s"
  by (simp add: byte_length_def utf8_def)

lemma byte_length_le: "byte_length s \<le> 2 * length s"
proof (induction s)
  case (Cons c s)
  with utf8_short [of c] show ?case by (simp add: byte_length_Cons del: utf8_char.simps)
qed simp

lemma length_quote_char: "length (quote_char c) \<le> 6"
  by (simp add: quote_char_def Let_def)

lemma length_quote_json: "length (quote_json s) \<le> 6 * length s + 2"
proof -
  have "length (concat (map quote_char s)) \<le> 6 * length s"
  proof (induction s)
    case (Cons c s)
    with length_quote_char [of c] show ?case by simp
  qed simp
  then show ?thesis by (simp add: quote_json_def)
qed

definition short_id :: "string option \<Rightarrow> bool" where
  "short_id requestID = (case requestID of None \<Rightarrow> True | Some i \<Rightarrow> length i \<le> 256)"

definition overflow_reply :: "string option \<Rightarrow> response" where
  "overflow_reply requestID = \<lparr>status = 502, body = stringify (JObj
     ((''id'', case requestID of Some i \<Rightarrow> JStr i | None \<Rightarrow> JUndef)
      # plain_error ''OUTPUT_TOO_LARGE'' ''RPC output exceeds byte limit.''))\<rparr>"

lemma overflow_reply_short:
  assumes "short_id requestID"
  shows "int (byte_length (body (overflow_reply requestID))) \<le> 4000"
proof -
  obtain rest where rest: "\<And>x. stringify (JObj ((''id'', x) # plain_error ''OUTPUT_TOO_LARGE'' ''RPC output exceeds byte limit.''))
      = ''{'' @ (case json_text x of None \<Rightarrow> [] | Some t \<Rightarrow> quote_json ''id'' @ '':'' @ t @ '','') @ rest" "length rest \<le> 200"
  proof -
    let ?rest = "join '','' [quote_json ''ok'' @ '':false'', quote_json ''error'' @ '':'' @ ''{'' @ join '',''
        [quote_json ''code'' @ '':'' @ quote_json ''OUTPUT_TOO_LARGE'',
         quote_json ''message'' @ '':'' @ quote_json ''RPC output exceeds byte limit.''] @ ''}''] @ ''}''"
    have "stringify (JObj ((''id'', x) # plain_error ''OUTPUT_TOO_LARGE'' ''RPC output exceeds byte limit.''))
      = ''{'' @ (case json_text x of None \<Rightarrow> [] | Some t \<Rightarrow> quote_json ''id'' @ '':'' @ t @ '','') @ ?rest" for x
      by (cases "json_text x") (simp_all add: stringify_def plain_error_def error_payload_def)
    moreover have "length ?rest \<le> 200" by code_simp
    ultimately show thesis using that by blast
  qed
  have "length (body (overflow_reply requestID)) \<le> 2000"
  proof (cases requestID)
    case None
    with rest(2) show ?thesis by (simp add: overflow_reply_def rest(1))
  next
    case (Some i)
    have "length (quote_json ''id'') \<le> 14" using length_quote_json [of "''id''"] by simp
    moreover have "length (quote_json i) \<le> 1538"
      using length_quote_json [of i] assms Some by (simp add: short_id_def)
    ultimately show ?thesis using Some rest(2) by (simp add: overflow_reply_def rest(1))
  qed
  then show ?thesis using byte_length_le [of "body (overflow_reply requestID)"] by linarith
qed

section \<open>Every response comes from jsonResponse\<close>

definition response_object :: "string list \<Rightarrow> string option \<Rightarrow> props \<Rightarrow> props" where
  "response_object secrets requestID payload =
     (case given requestID of
        Some i \<Rightarrow> spread [(''id'', JStr i)] (safe_payload secrets payload) | None \<Rightarrow> safe_payload secrets payload)"

lemma jsonResponse_cases:
  assumes "jsonResponse secrets n requestID payload limit = Inr resp"
  obtains (overflow) "resp = overflow_reply requestID"
    | (whole) "status resp = n" "body resp = stringify (JObj (response_object secrets requestID payload))"
        "int (byte_length (body resp)) \<le> rpcResponseLimitBytes"
  using assms wire_limit_bounded [of limit]
  by (fastforce simp: jsonResponse_def response_object_def overflow_reply_def Let_def sbind_Inr_iff split: if_splits)

lemma jsonResponse_Inl:
  "jsonResponse secrets n requestID payload limit = Inl e
   \<Longrightarrow> e = Error ''Operation response budget is outside the runner contract.''"
  by (auto simp: jsonResponse_def Let_def sbind_Inl_iff split: if_splits dest: wire_limit_Inl)

lemma reply_Inr: obtains resp where "reply secrets n requestID payload = Inr resp"
  by (cases "reply secrets n requestID payload") (auto simp: jsonResponse_def Let_def split: if_splits)

lemma jsonResponse_bounded:
  assumes "jsonResponse secrets n requestID payload limit = Inr resp" and "short_id requestID"
  shows "int (byte_length (body resp)) \<le> rpcResponseLimitBytes"
  using assms(1)
proof (cases rule: jsonResponse_cases)
  case overflow
  with overflow_reply_short [OF assms(2)] show ?thesis by simp
qed

lemma jsonResponse_status:
  "jsonResponse secrets n requestID payload limit = Inr resp \<Longrightarrow> status resp = n \<or> status resp = 502"
  by (auto elim!: jsonResponse_cases simp: overflow_reply_def)

definition protocol_payload :: "props \<Rightarrow> bool" where
  "protocol_payload payload = ((\<exists>v. payload = ok_payload v) \<or> (\<exists>e. payload = error_payload e))"

lemma protocol_payloads [simp]:
  "protocol_payload (ok_payload v)" "protocol_payload (error_payload e)" "protocol_payload (plain_error errcode message)"
  by (auto simp: protocol_payload_def plain_error_def)

definition json_built :: "string list \<Rightarrow> string option \<Rightarrow> response res \<Rightarrow> bool" where
  "json_built secrets requestID r =
     (\<exists>n payload limit. protocol_payload payload \<and> r = jsonResponse secrets n requestID payload limit)"

lemma json_builtI [simp]:
  "protocol_payload payload \<Longrightarrow> json_built secrets requestID (jsonResponse secrets n requestID payload limit)"
  by (auto simp: json_built_def)

lemma built_helpers [simp]:
  "json_built secrets (envelope_id envelope) (unknown_connector secrets envelope)"
  "json_built secrets requestID (failed_reply secrets requestID failed)"
  "json_built secrets (envelope_id envelope) (operation_reply reg secrets envelope fld c operation output)"
  by (simp_all add: unknown_connector_def failed_reply_def operation_reply_def Let_def)

lemma built_sync_handlers [simp]:
  "json_built secrets (envelope_id envelope) (handleConnectorWebhookVerify reg secrets envelope)"
  "json_built secrets (envelope_id envelope) (handleConnectorWebhookParse reg secrets envelope)"
  "json_built secrets (envelope_id envelope) (handleConnectorDescribe reg secrets envelope)"
  by (simp_all add: handleConnectorWebhookVerify_def handleConnectorWebhookParse_def handleConnectorDescribe_def Let_def
      split: option.splits result.splits)

lemma await_thenE:
  assumes "await_then now v k s = (s', Settles t q)"
  obtains r where "k r s = (s', q)" "v = Pending (Settles t r) \<or> (t = now \<and> (\<exists>a. v = Value a \<and> r = Inr a))"
  using assms by (auto simp: await_then_def split: returned.splits promise.splits prod.splits)

lemma dispatchRPC_built:
  assumes "dispatchRPC reg clock envelope ctx st = (st', Settles t r)"
  shows "json_built (ctx_secrets ctx) (envelope_id envelope) r"
proof -
  have action: "json_built (ctx_secrets ctx) (envelope_id envelope) r"
    if "handleConnectorActionExecute reg ctx clock envelope st = (st', Settles t r)"
    using that
    by (auto simp: handleConnectorActionExecute_def Let_def
        split: option.splits if_splits prod.splits sum.splits result.splits elim!: await_thenE)
  have sync: "json_built (ctx_secrets ctx) (envelope_id envelope) r"
    if "handleConnectorSyncList reg ctx clock envelope st = (st', Settles t r)"
    using that
    by (auto simp: handleConnectorSyncList_def Let_def
        split: option.splits if_splits prod.splits sum.splits result.splits elim!: await_thenE)
  have health: "json_built (ctx_secrets ctx) (envelope_id envelope) r"
    if "handleConnectorHealthcheck reg ctx clock envelope st = (st', Settles t r)"
    using that
    by (auto simp: handleConnectorHealthcheck_def Let_def
        split: option.splits if_splits prod.splits sum.splits result.splits elim!: await_thenE)
  show ?thesis
    using assms action sync health
    by (auto simp: dispatchRPC_def Let_def split: jsval.splits if_splits)
qed

lemma handleRPC_cases:
  assumes run: "handleRPC reg decode request admittedAt (now, armed) (n0, n1, n2) inner st = (st', p)"
  obtains (early) "read_request decode request (min admittedAt now) armed = Inl p" "st' = st"
    | (refused) envelope e where "read_request decode request (min admittedAt now) armed = Inr envelope"
        "rstate st' = rstate st" "e = unsupportedTimeout \<or> e = timeoutError"
        "p = Settles n2 (runner_failed envelope (Inl (ThrownVal e)))"
    | (ran) envelope ctx st1 q t r where "read_request decode request (min admittedAt now) armed = Inr envelope"
        "ctx_secrets ctx = credentialValues reg envelope" "rstate st1 = rstate st"
        "dispatchRPC reg inner envelope ctx st1 = (st', q)"
        "t \<le> max n2 (min admittedAt now + maxOperationTimeoutMs)"
        "p = Settles t (runner_failed envelope r)" "r = Inl (ThrownVal timeoutError) \<or> q = Settles t r"
        "n1 < min admittedAt now + maxOperationTimeoutMs"
proof (cases "read_request decode request (min admittedAt now) armed")
  case (Inl early)
  with run that(1) show thesis by (simp add: handleRPC_def Let_def)
next
  case (Inr envelope)
  let ?started = "min admittedAt now"
  let ?id = "case envelope_id envelope of Some i \<Rightarrow> i
     | None \<Rightarrow> (case rpc_request_id request of Some i \<Rightarrow> i | None \<Rightarrow> ''runner-local'')"
  let ?st1 = "logRequest ?id (nullish (rpc_method envelope) (JStr ''missing.method'')) st"
  let ?latest = "?started + maxOperationTimeoutMs"
  let ?limit = "case deadlineUnixMs envelope of None \<Rightarrow> ?latest | Some d \<Rightarrow> min d ?latest"
  let ?work = "\<lambda>ctx st. case dispatchRPC reg inner envelope ctx st of (st', p) \<Rightarrow> (st', Inr (Pending p))"
  have st1: "rstate ?st1 = rstate st" by (simp add: logRequest_def log_entry_def)
  obtain st2 outcome where ex: "runExecution None (n0, n1, n2) ?work (JInt maxOperationTimeoutMs)
      (Some (rpc_signal request)) (Some ?limit) (Some (credentialValues reg envelope)) ?st1 = (st2, outcome)"
    by (cases "runExecution None (n0, n1, n2) ?work (JInt maxOperationTimeoutMs)
      (Some (rpc_signal request)) (Some ?limit) (Some (credentialValues reg envelope)) ?st1")
  from ex show thesis
  proof (cases rule: runExecution_elim)
    case refused
    then show thesis
      using run ex Inr st1 that(2) [OF Inr]
      by cases (auto simp: handleRPC_def Let_def simp del: budget_values)
  next
    case (ran ctx abort s' r)
    obtain q where q: "dispatchRPC reg inner envelope ctx ?st1 = (s', q)" "r = Inr (Pending q)"
      using ran(1) by (auto split: prod.splits)
    have le: "abort \<le> max n2 ?latest"
      using ran(2,4) by (auto simp: context_bounded_def split: option.splits)
    obtain t r' where race: "race_abort (Some abort) q = Settles t r'" "t \<le> abort"
        "r' = Inl (ThrownVal timeoutError) \<or> q = Settles t r'"
      using race_abort_settles [OF refl, of abort q] by blast
    have "st' = s'" "p = Settles t (runner_failed envelope r')"
      using run ex Inr ran(7) q(2) race(1)
      by (auto simp: handleRPC_def Let_def await_then_def simp del: budget_values)
    moreover have "ctx_secrets ctx = credentialValues reg envelope" using ran(6) by simp
    moreover have "n1 < ?latest" using ran(2,5) by (auto simp: context_bounded_def split: option.splits)
    ultimately show thesis
      using that(3) [OF Inr _ st1, of ctx q t r'] q(1) race(2,3) le by simp
  qed
qed

lemma read_body_time:
  "read_body abort cancel evs chunks = Aborted t \<Longrightarrow> t \<le> abort"
  "read_body abort cancel evs chunks = TooLarge t \<Longrightarrow> t \<le> abort"
  "read_body abort cancel evs chunks = Broken t \<Longrightarrow> t \<le> abort"
  "read_body abort cancel evs chunks = Complete t bs \<Longrightarrow> t \<le> abort"
  by (induction abort cancel evs chunks rule: read_body.induct)
     (auto split: if_splits read_event.splits option.splits)

text \<open>The bytes of a body that ends: its chunks up to the end of the stream.\<close>

fun stream_bytes :: "(time \<times> read_event) list \<Rightarrow> bytes option" where
  "stream_bytes [] = None"
| "stream_bytes ((_, ev) # evs) =
     (case ev of Chunk c \<Rightarrow> map_option ((@) c) (stream_bytes evs) | Done \<Rightarrow> Some [] | ReadError _ \<Rightarrow> None)"

definition request_bytes :: "rpc_request \<Rightarrow> bytes option" where
  "request_bytes request = (case rpc_body request of None \<Rightarrow> Some [] | Some events \<Rightarrow> stream_bytes events)"

lemma read_body_bytes:
  "read_body abort cancel evs chunks = Complete t bs \<Longrightarrow> map_option ((@) chunks) (stream_bytes evs) = Some bs"
proof (induction abort cancel evs chunks rule: read_body.induct)
  case (2 abort cancel t' ev evs chunks)
  then show ?case
    by (cases "stream_bytes evs") (auto split: if_splits read_event.splits option.splits simp del: budget_values)
qed simp

lemma read_body_size:
  "read_body abort cancel evs chunks = Complete t bs \<Longrightarrow> int (length chunks) \<le> rpcRequestLimitBytes
   \<Longrightarrow> int (length bs) \<le> rpcRequestLimitBytes"
  by (induction abort cancel evs chunks rule: read_body.induct)
     (auto split: if_splits read_event.splits option.splits simp del: budget_values)

definition early_reply :: "response \<Rightarrow> bool" where
  "early_reply resp = (status resp \<in> {400, 413, 504} \<and> (\<exists>n payload. reply [] n None payload = Inr resp))"

lemma length_replace_by:
  assumes "mk \<noteq> []"
  shows "length (replace_by m mk prev s) \<le> length mk * length s"
proof (induction prev s rule: replace_by_cases_induct [where m = m])
  case (match prev s)
  obtain k where k: "length s = m prev s + k" using match(3) by (metis le_Suc_ex)
  have "length mk \<le> length mk * m prev s" using match(2) by simp
  with match(4) k have "length mk + length (replace_by m mk (Some (s ! (m prev s - 1))) (drop (m prev s) s))
      \<le> length mk * length s"
    by (simp add: add_mult_distrib2 add_mono)
  then show ?case using replace_by_match [of m prev s mk] match(2,3) by simp
next
  case (skip prev c cs)
  moreover have "1 \<le> length mk" using assms by (cases mk) simp_all
  ultimately show ?case by (simp add: replace_by_skip del: One_nat_def length_greater_0_conv)
qed simp

lemma length_redactText_unregistered: "length (redactText [] text) \<le> 100000 * length text"
proof -
  have mark: "REDACTED \<noteq> []" "length REDACTED = 10" by (simp_all add: REDACTED_def)
  have "length (foldl (\<lambda>out p. replace_by p REDACTED None out) t ps) \<le> 10 ^ length ps * length t" for ps t
  proof (induction ps arbitrary: t)
    case (Cons p ps)
    have "length (replace_by p REDACTED None t) \<le> 10 * length t"
      using length_replace_by [OF mark(1), of p None t] mark(2) by simp
    then have "10 ^ length ps * length (replace_by p REDACTED None t) \<le> 10 ^ length ps * (10 * length t)"
      by (rule mult_le_mono2)
    from order_trans [OF Cons.IH this] show ?case by (simp add: ac_simps)
  qed simp
  from this [of "text" SECRET_TEXT_PATTERNS] show ?thesis
    by (simp add: redactText_def ordered_secrets_def SECRET_TEXT_PATTERNS_def set_of_list_def)
qed

lemma early_replyI:
  assumes "length errcode \<le> 40" and "length message \<le> 40" and "n \<in> {400, 413, 504}"
  shows "\<exists>resp. reply [] n None (plain_error errcode message) = Inr resp \<and> early_reply resp"
proof -
  let ?text = "stringify (JObj (safe_payload [] (plain_error errcode message)))"
  have shape: "?text = ''{'' @ quote_json ''ok'' @ '':false,'' @ quote_json ''error'' @ '':{'' @ quote_json ''code'' @ '':''
      @ quote_json errcode @ '','' @ quote_json ''message'' @ '':'' @ quote_json (redactText [] message) @ ''}}''"
    by (simp add: stringify_def safe_payload_def plain_error_def error_payload_def prop_get_def str_of_def
        obj_def_def has_own_def)
  have "length ?text \<le> 26000000"
    unfolding shape
    using length_quote_json [of errcode] length_quote_json [of "redactText [] message"] assms
      length_redactText_unregistered [of message] length_quote_json [of "''ok''"] length_quote_json [of "''error''"]
      length_quote_json [of "''code''"] length_quote_json [of "''message''"]
    by simp
  then have "int (byte_length ?text) \<le> rpcResponseLimitBytes" using byte_length_le [of ?text] by simp
  then have "reply [] n None (plain_error errcode message) = Inr \<lparr>status = n, body = ?text\<rparr>"
    by (simp add: jsonResponse_def given_def Let_def)
  with assms(3) show ?thesis unfolding early_reply_def by auto
qed

lemma early_replies:
  obtains a b c where "request_aborted = Inr a" "early_reply a" "malformed = Inr b" "early_reply b"
    "reply [] 413 None (plain_error ''INPUT_TOO_LARGE'' ''RPC body exceeds byte limit.'') = Inr c" "early_reply c"
  using early_replyI [of "''OPERATION_TIMEOUT''" "''RPC request aborted.''" 504]
    early_replyI [of "''MALFORMED_REQUEST''" "''Request body must be valid JSON.''" 400]
    early_replyI [of "''INPUT_TOO_LARGE''" "''RPC body exceeds byte limit.''" 413] that
  by (auto simp: request_aborted_def malformed_def)

lemma read_request_early:
  assumes "read_request decode request started armed = Inl p"
  obtains t resp where "p = Settles t (Inr resp)" "early_reply resp"
    "t \<le> max armed (started + maxOperationTimeoutMs)"
proof -
  let ?timer = "armed + max 0 (started + maxOperationTimeoutMs - armed)"
  let ?abort = "case rpc_signal request of None \<Rightarrow> ?timer | Some a \<Rightarrow> min ?timer a"
  let ?outcome = "case rpc_body request of None \<Rightarrow> Complete armed []
     | Some events \<Rightarrow> read_body ?abort (rpc_cancel request) events []"
  have timer: "?abort \<le> max armed (started + maxOperationTimeoutMs)"
    by (auto split: option.splits)
  obtain a b c where r: "request_aborted = Inr a" "early_reply a" "malformed = Inr b" "early_reply b"
    "reply [] 413 None (plain_error ''INPUT_TOO_LARGE'' ''RPC body exceeds byte limit.'') = Inr c" "early_reply c"
    by (rule early_replies)
  show thesis
  proof (cases "aborted armed (rpc_signal request)")
    case True
    with assms r that [of armed a] show thesis by (simp add: read_request_def)
  next
    case False
    obtain out where out: "?outcome = out" by blast
    have time: "case out of Aborted t \<Rightarrow> t \<le> max armed ?abort | TooLarge t \<Rightarrow> t \<le> max armed ?abort
        | Broken t \<Rightarrow> t \<le> max armed ?abort | Complete t bs \<Rightarrow> t \<le> max armed ?abort"
    proof (cases "rpc_body request")
      case None
      with out show ?thesis by auto
    next
      case (Some events)
      with out have "read_body ?abort (rpc_cancel request) events [] = out" by simp
      from read_body_time [OF this [THEN trans]] show ?thesis
        by (cases out) (simp_all add: max.coboundedI2 del: budget_values)
    qed
    have eq: "(case out of
           Aborted t \<Rightarrow> Inl (Settles t request_aborted)
         | TooLarge t \<Rightarrow> Inl (Settles t (reply [] 413 None (plain_error ''INPUT_TOO_LARGE'' ''RPC body exceeds byte limit.'')))
         | Broken t \<Rightarrow> Inl (Settles t malformed)
         | Complete t chunks \<Rightarrow>
             (case parse_envelope (decode chunks) of
                None \<Rightarrow> Inl (Settles t malformed) | Some envelope \<Rightarrow> Inr envelope)) = Inl p"
      using assms False unfolding read_request_def Let_def out by simp
    have "max armed ?abort \<le> max armed (started + maxOperationTimeoutMs)" using timer by simp
    with time eq r that show thesis
      by (cases out) (fastforce split: option.splits simp del: budget_values)+
  qed
qed

lemma handleRPC_settles:
  shows "\<exists>t resp. snd (handleRPC reg decode request admittedAt (now, armed) (n0, n1, n2) inner st) = Settles t (Inr resp)
    \<and> t \<le> max armed (max n2 (min admittedAt now + maxOperationTimeoutMs))"
proof -
  obtain st' p where run: "handleRPC reg decode request admittedAt (now, armed) (n0, n1, n2) inner st = (st', p)"
    by (cases "handleRPC reg decode request admittedAt (now, armed) (n0, n1, n2) inner st")
  have caught: "\<exists>resp. runner_failed envelope r = Inr resp" for envelope r
  proof (cases r)
    case (Inl e)
    then show ?thesis unfolding runner_failed_def failed_reply_def by (auto intro: reply_Inr)
  qed (simp add: runner_failed_def)
  from run show ?thesis
  proof (cases rule: handleRPC_cases)
    case early
    from early(1) show ?thesis by (rule read_request_early) (use run in auto)
  next
    case (refused envelope e)
    with run caught [of envelope "Inl (ThrownVal e)"] show ?thesis by auto
  next
    case (ran envelope ctx st1 q t r)
    with run caught [of envelope r] show ?thesis by (auto simp: max.coboundedI2)
  qed
qed

section \<open>Theorems\<close>


text \<open>The request identifier of an accepted envelope is short.\<close>

lemma parse_envelope_short: "parse_envelope text = Some envelope \<Longrightarrow> short_id (envelope_id envelope)"
  by (auto simp: parse_envelope_def short_id_def valid_id_def split: option.splits jsval.splits if_splits)

lemma read_request_Inr:
  assumes "read_request decode request started armed = Inr envelope"
  obtains bs where "request_bytes request = Some bs" "parse_envelope (decode bs) = Some envelope"
    "int (length bs) \<le> rpcRequestLimitBytes"
proof (cases "rpc_body request")
  case None
  with assms that [of "[]"] show thesis
    by (auto simp: read_request_def Let_def request_bytes_def split: if_splits option.splits)
next
  case (Some events)
  with assms obtain abort t bs where bs: "read_body abort (rpc_cancel request) events [] = Complete t bs"
      "parse_envelope (decode bs) = Some envelope"
    by (auto simp: read_request_def Let_def simp del: budget_values split: if_splits body_read.splits option.splits)
  have "int (length bs) \<le> rpcRequestLimitBytes" by (rule read_body_size [OF bs(1)]) simp
  moreover have "stream_bytes events = Some bs" using read_body_bytes [OF bs(1)] by auto
  ultimately show thesis using that [of bs] bs(2) Some by (simp add: request_bytes_def)
qed

lemma runner_failed_built:
  "runner_failed envelope r = Inr resp \<Longrightarrow> r = Inr resp \<or> (\<exists>e. r = Inl e \<and> json_built [] (envelope_id envelope) (Inr resp))"
  using built_helpers(2) [of "[]" "envelope_id envelope"] by (cases r) (auto simp: runner_failed_def dest: sym)

text \<open>Where a response of the endpoint comes from.\<close>

lemma handleRPC_built:
  assumes "handleRPC reg decode request admittedAt (now, armed) (n0, n1, n2) inner st = (st', Settles t (Inr resp))"
  obtains (early) "read_request decode request (min admittedAt now) armed = Inl (Settles t (Inr resp))" "early_reply resp"
    | (dispatched) envelope where "read_request decode request (min admittedAt now) armed = Inr envelope"
        "json_built (credentialValues reg envelope) (envelope_id envelope) (Inr resp)"
    | (failed) envelope e where "read_request decode request (min admittedAt now) armed = Inr envelope"
        "runner_failed envelope (Inl e) = Inr resp" 
        "e = ThrownVal unsupportedTimeout \<or> e = ThrownVal timeoutError
         \<or> e = Error ''Operation response budget is outside the runner contract.''"
  using assms
proof (cases rule: handleRPC_cases)
  case early
  from early(1) show thesis by (rule read_request_early) (use early that(1) in auto)
next
  case (refused envelope e)
  with that(3) [of envelope "ThrownVal e"] show thesis by auto
next
  case (ran envelope ctx st1 q t' r)
  show thesis
  proof (cases r)
    case (Inr resp')
    with ran have "q = Settles t (Inr resp)" by (auto simp: runner_failed_def)
    with dispatchRPC_built [of reg inner envelope ctx st1 st' t "Inr resp"] ran that(2) show thesis by simp
  next
    case (Inl e)
    have "e = ThrownVal timeoutError \<or> e = Error ''Operation response budget is outside the runner contract.''"
    proof (cases "r = Inl (ThrownVal timeoutError)")
      case False
      with ran Inl have "json_built (ctx_secrets ctx) (envelope_id envelope) (Inl e)"
        using dispatchRPC_built [of reg inner envelope ctx st1 st' t' r] by simp
      then show ?thesis unfolding json_built_def by (metis jsonResponse_Inl)
    qed (use Inl in simp)
    with ran Inl that(3) [of envelope e] show thesis by auto
  qed
qed

text \<open>C9: responses fit the transport. No answer of the endpoint, whatever the method, the outcome and
  the size of what a handler returned, is longer than the contract's response limit in bytes.\<close>

theorem handleRPC_response_bounded:
  assumes "handleRPC reg decode request admittedAt (now, armed) (n0, n1, n2) inner st = (st', Settles t (Inr resp))"
  shows "int (byte_length (body resp)) \<le> rpcResponseLimitBytes"
  using assms
proof (cases rule: handleRPC_built)
  case early
  then show ?thesis by (auto simp: early_reply_def short_id_def simp del: budget_values intro: jsonResponse_bounded)
next
  case (dispatched envelope)
  from dispatched(1) have "short_id (envelope_id envelope)"
    by (rule read_request_Inr) (rule parse_envelope_short)
  with dispatched(2) show ?thesis unfolding json_built_def by (metis jsonResponse_bounded)
next
  case (failed envelope e)
  from failed(1) have "short_id (envelope_id envelope)"
    by (rule read_request_Inr) (rule parse_envelope_short)
  moreover have "json_built [] (envelope_id envelope) (Inr resp)" using runner_failed_built [OF failed(2)] by simp
  ultimately show ?thesis unfolding json_built_def by (metis jsonResponse_bounded)
qed

text \<open>C12: a request that is not a complete, well-formed envelope of bounded size changes nothing. Either
  the answer has status 400, 413 or 504 and the state is as it was, or at most the limit's number of
  bytes was read and they decode to a valid envelope.\<close>

theorem handleRPC_rejects_untouched:
  assumes "handleRPC reg decode request admittedAt (now, armed) (n0, n1, n2) inner st = (st', Settles t (Inr resp))"
  shows "(st' = st \<and> status resp \<in> {400, 413, 504})
    \<or> (\<exists>bs envelope. request_bytes request = Some bs \<and> int (length bs) \<le> rpcRequestLimitBytes
          \<and> parse_envelope (decode bs) = Some envelope)"
  using assms
proof (cases rule: handleRPC_cases)
  case early
  from early(1) have "early_reply resp" by (rule read_request_early) auto
  with early(2) show ?thesis by (simp add: early_reply_def)
next
  case (refused envelope e)
  from refused(1) show ?thesis by (rule read_request_Inr) blast
next
  case (ran envelope ctx st1 q t' r)
  from ran(1) show ?thesis by (rule read_request_Inr) blast
qed

text \<open>The messages of the runner itself that may appear in a response without redaction by the call's secrets.\<close>

definition runner_messages :: "string list" where
  "runner_messages = [''RPC output exceeds byte limit.'', ''Operation exceeded the connector manifest timeout.'',
     ''Operation timeout exceeds the runner budget contract.'', ''Operation response budget is outside the runner contract.'',
     ''Runner failed.'']"

definition hides :: "string \<Rightarrow> response \<Rightarrow> bool" where
  "hides s resp = (\<exists>ps. body resp = stringify (JObj ps)
     \<and> (\<forall>e. prop_get ps ''error'' = JObj e \<longrightarrow> (\<exists>m. prop_get e ''message'' = JStr m \<and> \<not> sublist s m)))"

lemma hidesI:
  "body resp = stringify (JObj ps) \<Longrightarrow>
   (\<And>e. prop_get ps ''error'' = JObj e \<Longrightarrow> \<exists>m. prop_get e ''message'' = JStr m \<and> \<not> sublist s m) \<Longrightarrow> hides s resp"
  unfolding hides_def by blast

lemma hides_overflow:
  assumes "\<not> sublist s ''RPC output exceeds byte limit.''"
  shows "hides s (overflow_reply requestID)"
proof (rule hidesI)
  show "body (overflow_reply requestID) = stringify (JObj ((''id'', case requestID of Some i \<Rightarrow> JStr i | None \<Rightarrow> JUndef)
      # plain_error ''OUTPUT_TOO_LARGE'' ''RPC output exceeds byte limit.''))"
    by (simp add: overflow_reply_def)
qed (use assms in \<open>auto simp: plain_error_def error_payload_def prop_get_def\<close>)

definition masked_error :: "string list \<Rightarrow> props \<Rightarrow> props" where
  "masked_error secrets e = obj_def e ''message'' (JStr (redactText secrets (str_of (prop_get e ''message''))))"

lemma error_payload_eq [simp]: "error_payload e = error_payload e' \<longleftrightarrow> e = e'"
  by (simp add: error_payload_def)

lemma masked_message: "prop_get (masked_error secrets e) ''message'' = JStr (redactText secrets (str_of (prop_get e ''message'')))"
  by (simp add: masked_error_def obj_simps)

lemma safe_payloads:
  "safe_payload secrets (ok_payload v) = ok_payload v"
  "safe_payload secrets (error_payload e) = error_payload (masked_error secrets e)"
  by (simp_all add: safe_payload_def ok_payload_def error_payload_def prop_get_def [of "(_, _) # _"]
      object_prototype_def obj_def_def [of "(_, _) # _"] has_own_def masked_error_def)

lemma spread_id_error:
  "distinct (map fst ps) \<Longrightarrow> prop_get (spread [(''id'', i)] ps) ''error'' = prop_get ps ''error''"
  by (auto simp: prop_get_def map_of_spread map_add_def split: option.splits)

lemma response_object_error:
  "prop_get (response_object secrets requestID (ok_payload v)) ''error'' = JUndef"
  "prop_get (response_object secrets requestID (error_payload e)) ''error'' = JObj (masked_error secrets e)"
proof -
  have d: "distinct (map fst (ok_payload v))" "distinct (map fst (error_payload e))" for v e
    by (simp_all add: ok_payload_def error_payload_def)
  have p: "prop_get (ok_payload v) ''error'' = JUndef" "prop_get (error_payload e) ''error'' = JObj e" for v e
    by (simp_all add: ok_payload_def error_payload_def prop_get_def object_prototype_def)
  show "prop_get (response_object secrets requestID (ok_payload v)) ''error'' = JUndef"
    by (cases "given requestID") (simp_all add: response_object_def safe_payloads spread_id_error d p)
  show "prop_get (response_object secrets requestID (error_payload e)) ''error'' = JObj (masked_error secrets e)"
    by (cases "given requestID") (simp_all add: response_object_def safe_payloads spread_id_error d p)
qed

lemma whole_response_hides:
  assumes "protocol_payload payload" and "body resp = stringify (JObj (response_object secrets requestID payload))"
    and "\<And>e. payload = error_payload e \<Longrightarrow> \<not> sublist s (redactText secrets (str_of (prop_get e ''message'')))"
  shows "hides s resp"
  using assms(1) unfolding protocol_payload_def
proof (elim disjE exE)
  fix v
  assume "payload = ok_payload v"
  with assms(2) show ?thesis by (auto intro!: hidesI simp: response_object_error)
next
  fix e
  assume "payload = error_payload e"
  with assms(2,3) show ?thesis by (auto intro!: hidesI simp: response_object_error masked_message)
qed

lemma json_built_hides:
  assumes "json_built secrets requestID (Inr resp)" and "\<not> sublist s ''RPC output exceeds byte limit.''"
    and "\<And>e0. \<not> sublist s (redactText secrets (str_of (prop_get e0 ''message'')))"
  shows "hides s resp"
proof -
  from assms(1) obtain n payload limit where p: "protocol_payload payload"
      and j: "jsonResponse secrets n requestID payload limit = Inr resp"
    by (auto simp: json_built_def)
  from j show ?thesis
  proof (cases rule: jsonResponse_cases)
    case overflow
    with hides_overflow [OF assms(2)] show ?thesis by simp
  next
    case whole
    from p whole(2) assms(3) show ?thesis by (rule whole_response_hides)
  qed
qed

lemma runner_failed_hides:
  assumes "runner_failed envelope (Inl e) = Inr resp" and "hidden_by s REDACTED" and "\<forall>m \<in> set runner_messages. \<not> sublist s m"
    and "e = ThrownVal unsupportedTimeout \<or> e = ThrownVal timeoutError
         \<or> e = Error ''Operation response budget is outside the runner contract.''"
  shows "hides s resp"
proof -
  let ?failed = "errorResponseForExecutionFailure [] e ''CONNECTOR_UPSTREAM_ERROR'' ''Runner failed.''"
  have m: "\<exists>m \<in> set runner_messages. prop_get (snd ?failed) ''message'' = JStr (redactText [] m)"
    using assms(4)
    by (auto simp: errorResponseForExecutionFailure_def is_record_thrown_def thrown_get_def timeoutError_def
        unsupportedTimeout_def prop_get_def retry_field_def object_prototype_def runner_messages_def)
  from assms(1) have j: "reply [] (fst ?failed) (envelope_id envelope) (error_payload (snd ?failed)) = Inr resp"
    by (simp add: runner_failed_def failed_reply_def)
  then show ?thesis
  proof (cases rule: jsonResponse_cases)
    case overflow
    with hides_overflow assms(3) show ?thesis by (simp add: runner_messages_def)
  next
    case whole
    from m obtain m where m: "m \<in> set runner_messages" "prop_get (snd ?failed) ''message'' = JStr (redactText [] m)" by blast
    with assms(3) have "\<not> sublist s (redactText [] m)" using redactText_adds_nothing [OF assms(2)] by blast
    then have "\<not> sublist s (redactText [] (str_of (prop_get (snd ?failed) ''message'')))"
      using m(2) redactText_adds_nothing [OF assms(2), of "[]" "redactText [] m"] by (auto simp: str_of_def)
    with whole show ?thesis
      by (intro whole_response_hides [OF protocol_payloads(2) whole(2)]) simp
  qed
qed


text \<open>C11: a forged webhook is never confirmed. \<open>connector.webhook.verify\<close> answers 200 only for a connector
  whose verifier returned \<open>true\<close> for exactly this payload and these headers, or that has no verifier;
  a verifier that throws or returns anything else leads to a status of 400.\<close>

theorem webhook_confirmed_only_if_verified:
  assumes "handleConnectorWebhookVerify reg secrets envelope = Inr resp"
  shows "status resp = 200 \<longrightarrow>
    (\<exists>connectorKey w. readConnectorKey envelope = Some connectorKey
       \<and> webhook_at (in_webhooks (r_input reg)) connectorKey = Some w
       \<and> (\<forall>verify. w_verify w = Some verify \<longrightarrow>
            verify (nullish (param envelope ''payload'') (JObj []))
              (if is_record (param envelope ''headers'') then param envelope ''headers'' else JObj []) = Inr (JBool True)))"
proof
  assume ok: "status resp = 200"
  have no: "reply secrets n i p \<noteq> Inr resp" if "n = 400 \<or> n = 404" for n i p
    using jsonResponse_status [of secrets n i p JUndef resp] ok that by auto
  obtain c cs where key: "readConnectorKey envelope = Some (c # cs)"
    using assms no by (auto simp: handleConnectorWebhookVerify_def given_def unknown_connector_def
        split: option.splits list.splits)
  obtain w where w: "webhook_at (in_webhooks (r_input reg)) (c # cs) = Some w"
    using assms no key
    by (auto simp: handleConnectorWebhookVerify_def given_def verifyWebhook_def statusForWebhookFailure_def
        split: option.splits if_splits)
  show "\<exists>connectorKey w. readConnectorKey envelope = Some connectorKey
       \<and> webhook_at (in_webhooks (r_input reg)) connectorKey = Some w
       \<and> (\<forall>verify. w_verify w = Some verify \<longrightarrow>
            verify (nullish (param envelope ''payload'') (JObj []))
              (if is_record (param envelope ''headers'') then param envelope ''headers'' else JObj []) = Inr (JBool True))"
  proof (intro exI conjI allI impI)
    fix verify
    assume v: "w_verify w = Some verify"
    show "verify (nullish (param envelope ''payload'') (JObj []))
        (if is_record (param envelope ''headers'') then param envelope ''headers'' else JObj []) = Inr (JBool True)"
      using assms no key w v
      by (auto simp: handleConnectorWebhookVerify_def given_def verifyWebhook_def statusForWebhookFailure_def
          returned_value_def prop_get_def Let_def split: sum.splits if_splits)
  qed (use key w in simp_all)
qed

text \<open>The fields of an error response.\<close>

lemma retry_field_cases:
  "retry_field e = [] \<or> (\<exists>k. 0 < k \<and> k \<le> max_safe \<and> retry_field e = [(''retryAfterSeconds'', JInt k)])"
proof (cases "positive_safe (thrown_get e ''retryAfterSeconds'')")
  case True
  then obtain n where v: "thrown_get e ''retryAfterSeconds'' = JNum n" and n: "is_safe_integer n" "num_lt (Fin 0) n"
    by (cases "thrown_get e ''retryAfterSeconds''") auto
  from n(1) obtain k where k: "num_val n = Some (of_int k)" "\<bar>k\<bar> \<le> max_safe" by (rule is_safe_integerE)
  with n(2) have "n = Fin (of_int k)" "0 < k" by (cases n; simp)+
  with v k True show ?thesis by (auto simp: retry_field_def)
qed (simp add: retry_field_def)

text \<open>A structured failure keeps its cause. If a handler throws a record with a non-empty code, the
  response carries exactly this code and the status the code stands for; its message is the redacted
  message of the failure, its retry delay, if any, a positive integer, and anything thrown without a
  code becomes a 400 with the fallback code.\<close>

theorem structured_failures_preserved:
  assumes "errorResponseForExecutionFailure secrets e fallbackCode fallbackMessage = (n, flds)"
  shows "(case (is_record_thrown e, thrown_get e ''code'') of
       (True, JStr (c # cs)) \<Rightarrow>
          n = statusForExecutionErrorCode (c # cs) \<and> prop_get flds ''code'' = JStr (c # cs)
          \<and> prop_get flds ''message''
              = JStr (case thrown_get e ''message'' of JStr m \<Rightarrow> redactText secrets m | _ \<Rightarrow> fallbackMessage)
          \<and> (prop_get flds ''retryAfterSeconds'' = JUndef
             \<or> (\<exists>k. 0 < k \<and> k \<le> max_safe \<and> prop_get flds ''retryAfterSeconds'' = JInt k))
     | _ \<Rightarrow> n = 400 \<and> prop_get flds ''code'' = JStr fallbackCode)
   \<and> n \<in> {400, 403, 422, 423, 429, 502, 503, 504}"
proof -
  have n: "statusForExecutionErrorCode k \<in> {400, 403, 422, 423, 429, 502, 503, 504}" for k
    by (simp add: statusForExecutionErrorCode_def)
  have cap: "map_of (capabilityFailureFields e) ''retryAfterSeconds'' = None"
    by (simp add: capabilityFailureFields_def field_if_def Let_def)
  show ?thesis
  proof (cases "\<exists>c cs. is_record_thrown e \<and> thrown_get e ''code'' = JStr (c # cs)")
    case True
    then obtain c cs where t: "is_record_thrown e" "thrown_get e ''code'' = JStr (c # cs)" by blast
    then have flds: "flds = [(''code'', JStr (c # cs))] @ retry_field e
       @ [(''message'', JStr (case thrown_get e ''message'' of JStr m \<Rightarrow> redactText secrets m | _ \<Rightarrow> fallbackMessage))]
       @ (if c # cs = ''CONNECTOR_CAPABILITY_MISSING'' then capabilityFailureFields e else [])"
      and "n = statusForExecutionErrorCode (c # cs)"
      using assms by (auto simp: errorResponseForExecutionFailure_def)
    moreover have "prop_get flds ''retryAfterSeconds'' = JUndef
        \<or> (\<exists>k. 0 < k \<and> k \<le> max_safe \<and> prop_get flds ''retryAfterSeconds'' = JInt k)"
      using retry_field_cases [of e] cap
      unfolding flds by (auto simp: prop_get_def object_prototype_def)
    moreover have "prop_get flds ''message'' = JStr (case thrown_get e ''message'' of JStr m \<Rightarrow> redactText secrets m | _ \<Rightarrow> fallbackMessage)"
      using retry_field_cases [of e] unfolding flds by (auto simp: prop_get_def)
    moreover have "prop_get flds ''code'' = JStr (c # cs)" unfolding flds by (simp add: prop_get_def)
    ultimately show ?thesis using t n by simp
  next
    case False
    then have "n = 400 \<and> prop_get flds ''code'' = JStr fallbackCode"
      using assms by (auto simp: errorResponseForExecutionFailure_def prop_get_def split: jsval.splits list.splits bool.splits)
    with False n show ?thesis by (auto split: jsval.splits list.splits bool.splits)
  qed
qed

section \<open>Successful operations\<close>

lemma failure_statuses [simp]:
  "statusForRegistryFailure k \<noteq> 200" "statusForExecutionErrorCode k \<noteq> 200"
  "fst (errorResponseForExecutionFailure secrets e fallbackCode fallbackMessage) \<noteq> 200"
proof -
  show "statusForRegistryFailure k \<noteq> 200" for k by (simp add: statusForRegistryFailure_def)
  show s: "statusForExecutionErrorCode k \<noteq> 200" for k by (simp add: statusForExecutionErrorCode_def)
  show "fst (errorResponseForExecutionFailure secrets e fallbackCode fallbackMessage) \<noteq> 200"
    by (auto simp: errorResponseForExecutionFailure_def s split: jsval.splits list.splits bool.splits)
qed

lemma not_success:
  "n \<noteq> 200 \<Longrightarrow> status resp = 200 \<Longrightarrow> jsonResponse secrets n requestID payload limit \<noteq> Inr resp"
  using jsonResponse_status by fastforce

definition operation_result :: "string \<Rightarrow> jsval \<Rightarrow> string \<Rightarrow> string \<Rightarrow> props \<Rightarrow> jsval" where
  "operation_result fld output connectorKey operation src =
     JObj ([(''output'', output), (''connector'', JStr connectorKey), (fld, JStr operation)] @ src)"

lemma operation_reply_success:
  assumes "operation_reply reg secrets envelope fld connectorKey operation out = Inr resp" and "status resp = 200"
    and "operation_at (r_specs reg) connectorKey operation = Some spec" and "sp_maxResponseBytes spec = JInt limit"
  obtains bare src where "is_record bare" "int (jsonByteLength bare) \<le> limit"
    "src = envelopeSource (snd (splitOperationMetadata out))"
    "body resp = stringify (JObj (response_object secrets (envelope_id envelope)
       (ok_payload (operation_result fld bare connectorKey operation src))))"
proof -
  let ?o = "if is_record (fst (splitOperationMetadata out)) then fst (splitOperationMetadata out) else JObj []"
  let ?src = "envelopeSource (snd (splitOperationMetadata out))"
  have "\<not> num_lt (Fin (of_int limit)) (Fin (of_nat (jsonByteLength ?o)))"
    and j: "jsonResponse secrets 200 (envelope_id envelope)
      (ok_payload (operation_result fld ?o connectorKey operation ?src)) (JInt limit) = Inr resp"
    using assms not_success [of 502 resp]
    by (auto simp: operation_reply_def operationBudget_def operation_result_def Let_def split: if_splits)
  then have "int (jsonByteLength ?o) \<le> limit" by simp
  moreover have "resp \<noteq> overflow_reply (envelope_id envelope)" using assms(2) by (auto simp: overflow_reply_def)
  with j have "body resp = stringify (JObj (response_object secrets (envelope_id envelope)
       (ok_payload (operation_result fld ?o connectorKey operation ?src))))"
    by (auto elim: jsonResponse_cases)
  moreover have "is_record ?o" by simp
  ultimately show thesis using that [of ?o ?src] by blast
qed


section \<open>Credentials that are not registered\<close>

text \<open>
  \<open>credentialValues\<close> also means to register the credential named by the manifest's \<open>http.auth.field\<close>. It
  reads the manifest from \<open>describe\<close>, and a description has no \<open>http\<close> block: the branch never applies.
\<close>

lemma table_of_values: "map_of (table_of es) k = Some v \<Longrightarrow> v \<in> snd ` set es"
proof -
  have put: "v \<in> snd ` set (table_put k' v' tbl) \<Longrightarrow> v = v' \<or> v \<in> snd ` set tbl" for k' v' and v :: 'a and tbl
    by (auto simp: table_put_def split: if_splits)
  have "v \<in> snd ` set (foldl (\<lambda>tbl (k, v). table_put k v tbl) tbl es) \<Longrightarrow> v \<in> snd ` set tbl \<union> snd ` set es" for v :: 'a and tbl
  proof (induction es arbitrary: tbl)
    case (Cons e es)
    obtain k' v' where e: "e = (k', v')" by (cases e)
    with Cons.prems have "v \<in> snd ` set (table_put k' v' tbl) \<union> snd ` set es" using Cons.IH by simp
    with put [of v k' v' tbl] e show ?case by auto
  qed simp
  from this [of v "[]"] show "map_of (table_of es) k = Some v \<Longrightarrow> v \<in> snd ` set es"
    by (force simp: table_of_def dest: map_of_SomeD)
qed

lemma described_without_http:
  assumes "createConnectorRegistry inp = Inr reg"
  shows "get (describe reg connectorKey) ''http'' = JUndef"
proof (cases "map_of (r_descriptions reg) connectorKey")
  case None
  then show ?thesis by (simp add: describe_def object_prototype_def get_def prop_get_def)
next
  case (Some d)
  have "r_descriptions reg = buildConnectorDescriptions (in_manifests inp)"
    using assms by (auto simp: createConnectorRegistry_def Let_def res_simps)
  with Some have "d \<in> snd ` set (map (\<lambda>m. (manifest_key m, describe_manifest m)) (in_manifests inp))"
    unfolding buildConnectorDescriptions_def by (metis table_of_values)
  then obtain m where "d = describe_manifest m" by auto
  with Some show ?thesis by (simp add: describe_def describe_manifest_def prop_get_def object_prototype_def)
qed

section \<open>Witnesses\<close>

definition crm_state :: "nat connector_registry \<Rightarrow> nat srv" where
  "crm_state reg = \<lparr>rstate = (r_validators reg, 0), console = []\<rparr>"

definition broken_request :: rpc_request where
  "broken_request = \<lparr>rpc_body = Some [(3, Chunk [123]), (4, ReadError (Error ''reset''))], rpc_signal = None,
     rpc_cancel = None, rpc_request_id = None\<rparr>"

definition empty_request :: rpc_request where
  "empty_request = \<lparr>rpc_body = None, rpc_signal = None, rpc_cancel = None, rpc_request_id = Some ''r1''\<rparr>"

theorem handleRPC_response_bounded_witness:
  "\<exists>reg t resp. createConnectorRegistry crm_input = Inr reg
     \<and> snd (handleRPC reg (\<lambda>_. ''null'') broken_request 1 (2, 2) (5, 5, 5) (5, 5, 5) (crm_state reg)) = Settles t (Inr resp)
     \<and> int (byte_length (body resp)) \<le> rpcResponseLimitBytes"
proof -
  obtain reg where reg: "createConnectorRegistry crm_input = Inr reg" by (rule crm_registry)
  obtain t resp where s: "snd (handleRPC reg (\<lambda>_. ''null'') broken_request 1 (2, 2) (5, 5, 5) (5, 5, 5) (crm_state reg))
      = Settles t (Inr resp)"
    using handleRPC_settles [of reg "\<lambda>_. ''null''" broken_request 1 2 2 5 5 5 "(5, 5, 5)" "crm_state reg"] by blast
  then obtain st' where "handleRPC reg (\<lambda>_. ''null'') broken_request 1 (2, 2) (5, 5, 5) (5, 5, 5) (crm_state reg)
      = (st', Settles t (Inr resp))"
    by (metis prod.collapse)
  from handleRPC_response_bounded [OF this] reg s show ?thesis by blast
qed

theorem handleRPC_rejects_untouched_witness:
  "\<exists>reg t resp. createConnectorRegistry crm_input = Inr reg
     \<and> handleRPC reg (\<lambda>_. ''null'') broken_request 1 (2, 2) (5, 5, 5) (5, 5, 5) (crm_state reg)
         = (crm_state reg, Settles t (Inr resp))
     \<and> status resp \<in> {400, 413, 504}"
proof -
  obtain reg where reg: "createConnectorRegistry crm_input = Inr reg" by (rule crm_registry)
  obtain st' t resp where s: "handleRPC reg (\<lambda>_. ''null'') broken_request 1 (2, 2) (5, 5, 5) (5, 5, 5) (crm_state reg)
      = (st', Settles t (Inr resp))"
    using handleRPC_settles [of reg "\<lambda>_. ''null''" broken_request 1 2 2 5 5 5 "(5, 5, 5)" "crm_state reg"]
    by (metis prod.collapse)
  have "request_bytes broken_request = None" by (simp add: broken_request_def request_bytes_def)
  with handleRPC_rejects_untouched [OF s] s reg show ?thesis by auto
qed

definition secret_text :: string where
  "secret_text = ''{''  @ quote_json ''params'' @ '':{'' @ quote_json ''input'' @ '':{'' @ quote_json ''token'' @ '':''
     @ quote_json ''hunter22'' @ ''}}}''"


definition signed_input :: "unit registry_input" where
  "signed_input = \<lparr>in_manifests = [], in_healthchecks = [], in_actions = [], in_syncs = [],
     in_webhooks = [(''crm'', \<lparr>w_parse = (\<lambda>v. Inr v), w_verify = Some (\<lambda>v h. Inr (JBool (get h ''signature'' = JStr ''s'')))\<rparr>)]\<rparr>"

definition signed_envelope :: RequestEnvelope where
  "signed_envelope = \<lparr>envelope_id = None, deadlineUnixMs = None, rpc_method = JStr ''connector.webhook.verify'',
     params = Some [(''connectorKey'', JStr ''crm''), (''headers'', JObj [(''signature'', JStr ''forged'')])]\<rparr>"

lemma reply_total: "\<exists>resp. reply secrets n requestID payload = Inr resp"
  by (rule reply_Inr [of secrets n requestID payload]) blast

lemma webhook_verify_answers: "\<exists>resp. handleConnectorWebhookVerify reg secrets envelope = Inr resp"
  by (simp add: handleConnectorWebhookVerify_def unknown_connector_def Let_def reply_total split: option.split result.split)

theorem webhook_confirmed_only_if_verified_witness:
  "\<exists>reg resp. createConnectorRegistry signed_input = Inr reg
     \<and> handleConnectorWebhookVerify reg [] signed_envelope = Inr resp \<and> status resp \<noteq> 200"
proof -
  have "is_ok (createConnectorRegistry signed_input)" by code_simp
  then obtain reg where reg: "createConnectorRegistry signed_input = Inr reg" by (auto simp: is_ok_iff)
  have inp: "r_input reg = signed_input" using reg by (auto simp: createConnectorRegistry_def Let_def res_simps)
  obtain resp where resp: "handleConnectorWebhookVerify reg [] signed_envelope = Inr resp"
    using webhook_verify_answers by blast
  from webhook_confirmed_only_if_verified [OF resp] have "status resp \<noteq> 200"
    by (auto simp: inp signed_input_def signed_envelope_def readConnectorKey_def readStringParam_def param_def prop_get_def
        webhook_at_def nullish_def)
  with reg resp show ?thesis by blast
qed

theorem structured_failures_preserved_witness:
  "\<exists>n flds. errorResponseForExecutionFailure [] (ThrownVal (failure ''CONNECTOR_RATE_LIMITED'' ''slow'')) ''X'' ''y'' = (n, flds)
     \<and> n = 429 \<and> prop_get flds ''code'' = JStr ''CONNECTOR_RATE_LIMITED''"
proof -
  obtain n flds where e: "errorResponseForExecutionFailure [] (ThrownVal (failure ''CONNECTOR_RATE_LIMITED'' ''slow'')) ''X'' ''y'' = (n, flds)"
    by (cases "errorResponseForExecutionFailure [] (ThrownVal (failure ''CONNECTOR_RATE_LIMITED'' ''slow'')) ''X'' ''y''")
  from structured_failures_preserved [OF e] e show ?thesis
    by (simp add: is_record_thrown_def thrown_get_def failure_def prop_get_def statusForExecutionErrorCode_def)
qed

definition note_envelope :: RequestEnvelope where
  "note_envelope = \<lparr>envelope_id = Some ''1'', deadlineUnixMs = None, rpc_method = JStr ''connector.action.execute'',
     params = Some [(''connectorKey'', JStr ''crm''), (''action'', JStr ''note.create''),
       (''input'', JObj [(''id'', JStr ''a'')])]\<rparr>"

abbreviation note_context :: ExecutionContext where
  "note_context \<equiv> \<lparr>ctx_signal = None, ctx_deadline = 900, ctx_secrets = []\<rparr>"

lemma note_run:
  "case createConnectorRegistry crm_input of
     Inl _ \<Rightarrow> False
   | Inr reg \<Rightarrow> truthy (describe reg ''crm'')
       \<and> (case operation_at (r_specs reg) ''crm'' ''note.create'' of None \<Rightarrow> False | Some spec \<Rightarrow> sp_maxResponseBytes spec = JInt 100)
       \<and> (case executeAction reg (Some note_context, 0, 0, 0) ''crm'' ''note.create'' (JObj [(''id'', JStr ''a'')]) (r_validators reg, 0) of
            (_, Inr (Success (Value m))) \<Rightarrow> out_value m = JObj [(''id'', JStr ''a'')] \<and> out_marks m = [] | _ \<Rightarrow> False)"
  by code_simp

lemma note_reply:
  assumes "operation_at (r_specs reg) ''crm'' ''note.create'' = Some spec" and "sp_maxResponseBytes spec = JInt 100"
    and "out_value m = JObj [(''id'', JStr ''a'')]" and "out_marks m = []"
  shows "\<exists>resp. operation_reply reg [] note_envelope ''action'' ''crm'' ''note.create'' m = Inr resp \<and> status resp = 200"
proof -
  let ?text = "stringify (JObj (spread [(''id'', JStr ''1'')] (safe_payload [] (ok_payload
    (JObj [(''output'', JObj [(''id'', JStr ''a'')]), (''connector'', JStr ''crm''), (''action'', JStr ''note.create'')])))))"
  have "jsonByteLength (JObj [(''id'', JStr ''a'')]) \<le> 10" by code_simp
  moreover have "length ?text \<le> 120" by code_simp
  then have "int (byte_length ?text) \<le> 262244" using byte_length_le [of ?text] by linarith
  ultimately show ?thesis
    using assms
    by (simp add: operation_reply_def operationBudget_def splitOperationMetadata_def envelopeSource_def prop_get_def
        object_prototype_def jsonResponse_def operationWireResponseLimit_def given_def note_envelope_def max_safe_def
        Let_def del: of_int_numeral)
qed


end
