(* ===== verification/Machine.thy ===== *)
theory Machine
  imports Main
begin

text \<open>
  Transition systems, shared by the admission queue of \<open>serve.ts\<close> and the process supervisor of
  \<open>supervisor.ts\<close>: both keep variables that callbacks of the event loop change one at a time. A
  system is an initial state and a step relation labelled with events; \<open>run\<close> is a finite
  interleaving of callbacks. The locale \<open>guarded_machine\<close> is the contract of a system with an
  invariant.
\<close>

inductive run :: "('s \<Rightarrow> 'e \<Rightarrow> 's \<Rightarrow> bool) \<Rightarrow> 's \<Rightarrow> 'e list \<Rightarrow> 's \<Rightarrow> bool" for step where
  empty: "run step s [] s"
| snoc: "run step s es s' \<Longrightarrow> step s' e s'' \<Longrightarrow> run step s (es @ [e]) s''"

inductive_cases run_snocE: "run step s (es @ [e]) s'"

lemma run_step: "step s e s' \<Longrightarrow> run step s [e] s'"
  using run.snoc [OF run.empty, of step s e s'] by simp

lemma run_append:
  assumes "run step b fs c" and "run step a es b"
  shows "run step a (es @ fs) c"
  using assms
proof (induction rule: run.induct)
  case (snoc b fs c f d)
  then have "run step a ((es @ fs) @ [f]) d" by (blast intro: run.snoc)
  then show ?case by simp
qed simp

lemma run_Cons: "step s e s' \<Longrightarrow> run step s' es s'' \<Longrightarrow> run step s (e # es) s''"
  using run_append [OF _ run_step, of step s' es s'' s e] by simp

locale guarded_machine =
  fixes start :: "'s \<Rightarrow> bool"
    and step :: "'s \<Rightarrow> 'e \<Rightarrow> 's \<Rightarrow> bool"
    and inv :: "'s \<Rightarrow> bool"
  assumes start_inv: "start s \<Longrightarrow> inv s"
    and step_inv: "step s e s' \<Longrightarrow> inv s \<Longrightarrow> inv s'"
begin

definition reachable :: "'s \<Rightarrow> bool" where
  "reachable s \<longleftrightarrow> (\<exists>s0 es. start s0 \<and> run step s0 es s)"

lemma run_inv: "run step s es s' \<Longrightarrow> inv s \<Longrightarrow> inv s'"
  by (induction rule: run.induct) (auto intro: step_inv)

lemma reachable_inv: "reachable s \<Longrightarrow> inv s"
  unfolding reachable_def using run_inv start_inv by blast

lemma reachable_run: "reachable s \<Longrightarrow> run step s es s' \<Longrightarrow> reachable s'"
  unfolding reachable_def by (blast intro: run_append)

text \<open>A second property that steps keep as long as the invariant holds.\<close>

lemma run_keeps:
  assumes "run step s es s'" and "inv s" and "P s"
    and "\<And>s e s'. step s e s' \<Longrightarrow> inv s \<Longrightarrow> P s \<Longrightarrow> P s'"
  shows "P s'"
  using assms(1-3)
proof (induction rule: run.induct)
  case (snoc s es s' e s'')
  then show ?case using assms(4) run_inv by blast
qed simp

end

text \<open>
  A machine with a quantity that some steps decrease and no step increases: there are at most as many
  decreasing steps as the quantity allows.
\<close>

locale draining_machine = guarded_machine start step inv
  for start :: "'s \<Rightarrow> bool" and step :: "'s \<Rightarrow> 'e \<Rightarrow> 's \<Rightarrow> bool" and inv :: "'s \<Rightarrow> bool" +
  fixes closed :: "'s \<Rightarrow> bool" and work :: "'s \<Rightarrow> nat" and productive :: "'e \<Rightarrow> bool"
  assumes closed_step: "step s e s' \<Longrightarrow> inv s \<Longrightarrow> closed s \<Longrightarrow> closed s'"
    and work_step: "step s e s' \<Longrightarrow> inv s \<Longrightarrow> closed s \<Longrightarrow> work s' + (if productive e then 1 else 0) \<le> work s"
begin

lemma productive_bound:
  assumes "run step s es s'" and "inv s" and "closed s"
  shows "work s' + length (filter productive es) \<le> work s \<and> closed s'"
  using assms
proof (induction rule: run.induct)
  case (snoc s es s' e s'')
  then have "inv s'" using run_inv by blast
  with snoc work_step [of s' e s''] closed_step [of s' e s''] show ?case by (auto split: if_splits)
qed simp

end

end
