(* ===== verification/Serve.thy ===== *)
theory Serve
  imports Server Machine
begin

text \<open>
  \<open>runner/bun/src/serve.ts\<close>: the HTTP entry point, and \<open>runnerInteger\<close> of \<open>index.ts\<close>.

  \<^item> Authentication and routing are functions of the request.
  \<^item> The variables of \<open>createFetchHandler\<close> (\<open>active\<close>, \<open>completed\<close>, \<open>draining\<close>, \<open>queue\<close>) are a record that
    \<open>arrive\<close>, \<open>settleQueued\<close> and \<open>finish\<close> change: the code before the first \<open>await\<close> of \<open>dispatch\<close>, the
    callbacks of an entry's timer and abort signal, and the \<open>finally\<close> block. A queue entry is the
    request it waits for; an entry is in the queue exactly while it is not settled.
  \<^item> \<open>admission_step\<close> interleaves these callbacks in any order. Next to the variables it records which
    requests arrived, got a permit and hold one, and how often \<open>onRecycle\<close> was called.
\<close>

section \<open>Requests\<close>

record http_request =
  h_method :: string
  h_path :: string
  h_authorization :: "string option"
  h_request_id :: "string option"

definition is_id_char :: "char \<Rightarrow> bool" where
  "is_id_char c = (is_alnum c \<or> c \<in> set ''._:-'')"

definition safeRequestID :: "http_request \<Rightarrow> string option" where
  "safeRequestID request =
     (case h_request_id request of
        Some (c # cs) \<Rightarrow> if is_alnum c \<and> list_all is_id_char cs \<and> length cs \<le> 255 then Some (c # cs) else None
      | _ \<Rightarrow> None)"

text \<open>\<open>timingSafeEqual\<close> compares the bytes; the lengths are equal.\<close>

definition bearerTokenMatches :: "string option \<Rightarrow> string \<Rightarrow> bool" where
  "bearerTokenMatches header expected =
     (case header of
        None \<Rightarrow> False
      | Some h \<Rightarrow>
          if h = [] then False
          else case split_on CHR '' '' h of
              [] \<Rightarrow> False
            | scheme # rest \<Rightarrow>
                if to_lower scheme \<noteq> ''bearer'' then False
                else let presented = utf8 (trim (join '' '' rest)); want = utf8 expected in
                     if length presented \<noteq> length want then False else presented = want)"

definition json_reply :: "int \<Rightarrow> props \<Rightarrow> response" where
  "json_reply n ps = \<lparr>status = n, body = stringify (JObj ps)\<rparr>"

definition unavailable :: "http_request \<Rightarrow> response" where
  "unavailable request = json_reply 503
     ((case safeRequestID request of Some i \<Rightarrow> [(''id'', JStr i)] | None \<Rightarrow> [])
      @ plain_error ''RUNNER_BUSY'' ''Runner admission limit reached.'')"

section \<open>Options\<close>

record limits =
  maxConcurrent :: int
  maxQueued :: int
  maxJobs :: "int option"

definition or_default :: "jsval \<Rightarrow> int \<Rightarrow> jsval" where
  "or_default v d = nullish v (JInt d)"

definition at_least :: "int \<Rightarrow> jsval \<Rightarrow> bool" where
  "at_least minimum v = (case v of JNum n \<Rightarrow> is_safe_integer n \<and> \<not> num_lt n (Fin (of_int minimum)) | _ \<Rightarrow> False)"

definition admission_limits :: "jsval \<Rightarrow> jsval \<Rightarrow> int option \<Rightarrow> limits res" where
  "admission_limits concurrent queued jobs =
     (let c = or_default concurrent 32; q = or_default queued 128 in
      if \<not> at_least 1 c \<or> \<not> at_least 0 q then Inl (Error ''Invalid runner admission limits'')
      else Inr \<lparr>maxConcurrent = int_of c, maxQueued = int_of q, maxJobs = jobs\<rparr>)"

definition runnerInteger :: "(string \<Rightarrow> string option) \<Rightarrow> string \<Rightarrow> int \<Rightarrow> int \<Rightarrow> int res" where
  "runnerInteger environment name fallback minimum =
     (case environment name of
        None \<Rightarrow> Inr fallback
      | Some raw \<Rightarrow>
          (let v = JNum (str_to_num raw) in
           if \<not> at_least minimum v then Inl (Error (name @ '' is invalid'')) else Inr (int_of v)))"

section \<open>Admission\<close>

record 'r admission =
  active :: int
  completed :: int
  draining :: bool
  queue :: "'r list"

datatype admit_verdict = Admitted | Queued | Busy | Gone

text \<open>
  \<open>dispatch\<close> up to its first \<open>await\<close>. \<open>Busy\<close> answers \<open>unavailable\<close>; \<open>Gone\<close> is a request that is aborted
  already, which \<open>handleRPC\<close> answers without a permit.
\<close>

definition arrive :: "limits \<Rightarrow> bool \<Rightarrow> 'r \<Rightarrow> 'r admission \<Rightarrow> admit_verdict \<times> 'r admission" where
  "arrive opts is_aborted r a =
     (if draining a \<or> is_aborted \<or> (maxConcurrent opts \<le> active a \<and> maxQueued opts \<le> int (length (queue a)))
      then (if is_aborted then Gone else Busy, a)
      else if maxConcurrent opts \<le> active a then (Queued, a\<lparr>queue := queue a @ [r]\<rparr>)
      else (Admitted, a\<lparr>active := active a + 1\<rparr>))"

text \<open>\<open>settleQueued(entry, false)\<close>, from the timer or the abort of the request.\<close>

definition settleQueued :: "'r \<Rightarrow> 'r admission \<Rightarrow> 'r admission" where
  "settleQueued r a = a\<lparr>queue := remove1 r (queue a)\<rparr>"

text \<open>The \<open>finally\<close> block: who gets the permit, the new variables, and whether \<open>onRecycle\<close> is called.\<close>

definition finish :: "limits \<Rightarrow> 'r admission \<Rightarrow> 'r option \<times> 'r admission \<times> bool" where
  "finish opts a =
     (let done = completed a + 1;
          drain = (draining a \<or> (case maxJobs opts of None \<Rightarrow> False | Some j \<Rightarrow> j \<noteq> 0 \<and> j \<le> done));
          (next, rest, now) = (case queue a of [] \<Rightarrow> (None, [], active a - 1) | r # rs \<Rightarrow> (Some r, rs, active a))
      in (next, \<lparr>active = now, completed = done, draining = drain, queue = rest\<rparr>, drain \<and> now = 0))"

section \<open>The entry point\<close>

datatype routed = Answer response | Dispatch

definition createFetchHandler :: "string option \<Rightarrow> http_request \<Rightarrow> routed" where
  "createFetchHandler tokenOption request =
     (let token = (case tokenOption of None \<Rightarrow> [] | Some t \<Rightarrow> trim t) in
      if h_method request = ''GET'' \<and> h_path request = ''/healthz''
      then Answer (json_reply 200 [(''ok'', JBool True), (''runner'', JStr ''appcall-bun'')])
      else if h_method request = ''POST'' \<and> h_path request = ''/rpc''
      then (if token \<noteq> [] \<and> \<not> bearerTokenMatches (h_authorization request) token
            then Answer (json_reply 401 (plain_error ''UNAUTHORIZED'' ''Runner token required.''))
            else Dispatch)
      else Answer (json_reply 404 (plain_error ''NOT_FOUND'' ''Route not found.'')))"

section \<open>Interleavings\<close>

record 'r admission_system = "'r admission" +
  arrivals :: "'r list"
  granted :: "'r list"
  holders :: "'r list"
  recycles :: nat

datatype 'r admission_event = Arrive 'r bool | Leave 'r | Finish 'r

text \<open>A request object arrives once.\<close>

definition variables :: "'r admission_system \<Rightarrow> 'r admission" where
  "variables s = admission.truncate s"

definition with_variables :: "'r admission_system \<Rightarrow> 'r admission \<Rightarrow> 'r admission_system" where
  "with_variables s a = s\<lparr>active := active a, completed := completed a, draining := draining a, queue := queue a\<rparr>"

definition grant :: "'r option \<Rightarrow> 'r list \<Rightarrow> 'r list" where
  "grant next rs = (case next of None \<Rightarrow> rs | Some r \<Rightarrow> rs @ [r])"

inductive admission_step :: "limits \<Rightarrow> 'r admission_system \<Rightarrow> 'r admission_event \<Rightarrow> 'r admission_system \<Rightarrow> bool"
  for opts where
  admitted: "r \<notin> set (arrivals s) \<Longrightarrow> arrive opts b r (variables s) = (Admitted, a)
     \<Longrightarrow> admission_step opts s (Arrive r b)
           ((with_variables s a)\<lparr>arrivals := arrivals s @ [r], granted := granted s @ [r], holders := holders s @ [r]\<rparr>)"
| waiting: "r \<notin> set (arrivals s) \<Longrightarrow> arrive opts b r (variables s) = (v, a) \<Longrightarrow> v \<noteq> Admitted
     \<Longrightarrow> admission_step opts s (Arrive r b) ((with_variables s a)\<lparr>arrivals := arrivals s @ [r]\<rparr>)"
| leave: "r \<in> set (queue s) \<Longrightarrow> admission_step opts s (Leave r) (with_variables s (settleQueued r (variables s)))"
| finish: "r \<in> set (holders s) \<Longrightarrow> finish opts (variables s) = (next, a, recycle)
     \<Longrightarrow> admission_step opts s (Finish r)
           ((with_variables s a)\<lparr>granted := grant next (granted s), holders := grant next (remove1 r (holders s)),
              recycles := recycles s + (if recycle then 1 else 0)\<rparr>)"

inductive_cases admission_stepE: "admission_step opts s e s'"

definition admission_start :: "'r admission_system \<Rightarrow> bool" where
  "admission_start s = (s = \<lparr>active = 0, completed = 0, draining = False, queue = [], arrivals = [], granted = [],
     holders = [], recycles = 0\<rparr>)"

definition valid_limits :: "limits \<Rightarrow> bool" where
  "valid_limits opts = (1 \<le> maxConcurrent opts \<and> 0 \<le> maxQueued opts)"

definition admission_inv :: "limits \<Rightarrow> 'r admission_system \<Rightarrow> bool" where
  "admission_inv opts s =
     (active s = int (length (holders s)) \<and> active s \<le> maxConcurrent opts
      \<and> int (length (queue s)) \<le> maxQueued opts \<and> (queue s \<noteq> [] \<longrightarrow> active s = maxConcurrent opts)
      \<and> subseq (granted s @ queue s) (arrivals s) \<and> distinct (arrivals s)
      \<and> set (holders s) \<subseteq> set (granted s) \<and> distinct (holders s)
      \<and> completed s + active s = int (length (granted s))
      \<and> (draining s \<longleftrightarrow> (\<exists>j. maxJobs opts = Some j \<and> j \<noteq> 0 \<and> j \<le> completed s \<and> 0 < completed s))
      \<and> recycles s = (if draining s \<and> active s = 0 then 1 else 0))"

lemmas admission_simps = variables_def with_variables_def admission.truncate_def admission.defs

lemma subseq_remove1: "subseq (remove1 r xs) xs"
  by (induction xs) auto

lemma subseq_snoc: "subseq xs ys \<Longrightarrow> subseq xs (ys @ [y])"
  using list_emb_append_mono [of "(=)" xs ys "[]" "[y]"] by simp

lemma subseq_set: "subseq xs ys \<Longrightarrow> set xs \<subseteq> set ys"
  using list_emb_set [of "(=)" xs ys] by blast

lemma subseq_distinct_keep: "subseq xs ys \<Longrightarrow> distinct ys \<Longrightarrow> distinct xs"
proof (induction xs ys rule: list_emb.induct)
  case (list_emb_Cons2 x y xs ys)
  then show ?case using subseq_set [of xs ys] by auto
qed auto

lemma arrive_inv:
  assumes opts: "valid_limits opts" and inv: "admission_inv opts s" and new: "r \<notin> set (arrivals s)"
    and go: "arrive opts b r (variables s) = (v, a)"
  shows "v = Admitted \<Longrightarrow> admission_inv opts
      ((with_variables s a)\<lparr>arrivals := arrivals s @ [r], granted := granted s @ [r], holders := holders s @ [r]\<rparr>)"
    and "v \<noteq> Admitted \<Longrightarrow> admission_inv opts ((with_variables s a)\<lparr>arrivals := arrivals s @ [r]\<rparr>)"
proof -
  have old: "set (granted s) \<subseteq> set (arrivals s)" "set (queue s) \<subseteq> set (arrivals s)"
    using inv subseq_set [of "granted s @ queue s" "arrivals s"] by (auto simp: admission_inv_def)
  show "admission_inv opts ((with_variables s a)\<lparr>arrivals := arrivals s @ [r], granted := granted s @ [r], holders := holders s @ [r]\<rparr>)"
    if "v = Admitted"
  proof -
    have a: "a = (variables s)\<lparr>active := active s + 1\<rparr>" "active s < maxConcurrent opts" "\<not> draining s"
      using go that by (auto simp: arrive_def admission_simps split: if_splits)
    then have "queue s = []" using inv by (auto simp: admission_inv_def)
    with a inv new old show ?thesis by (auto simp: admission_inv_def admission_simps subseq_append)
  qed
  show "admission_inv opts ((with_variables s a)\<lparr>arrivals := arrivals s @ [r]\<rparr>)" if "v \<noteq> Admitted"
  proof (cases "v = Queued")
    case True
    then have a: "a = (variables s)\<lparr>queue := queue s @ [r]\<rparr>" "maxConcurrent opts \<le> active s" "\<not> draining s"
        "int (length (queue s)) < maxQueued opts"
      using go by (auto simp: arrive_def admission_simps split: if_splits)
    have "subseq (granted s @ queue s @ [r]) (arrivals s @ [r])"
      using inv subseq_append [of "granted s @ queue s" "[r]" "arrivals s"] by (simp add: admission_inv_def)
    with a inv new show ?thesis by (auto simp: admission_inv_def admission_simps)
  next
    case False
    then have "a = variables s" using go that by (auto simp: arrive_def split: if_splits)
    with inv new show ?thesis by (auto simp: admission_inv_def admission_simps intro: subseq_snoc)
  qed
qed

lemma leave_inv:
  assumes "admission_inv opts s"
  shows "admission_inv opts (with_variables s (settleQueued r (variables s)))"
proof -
  have "subseq (granted s @ remove1 r (queue s)) (arrivals s)"
    using assms subseq_remove1 [of r "queue s"]
    by (auto simp: admission_inv_def intro: subseq_order.trans list_emb_append_mono)
  moreover have "length (remove1 r (queue s)) \<le> length (queue s)" by (simp add: length_remove1)
  ultimately show ?thesis
    using assms by (auto simp: admission_inv_def settleQueued_def admission_simps)
qed

lemma finish_inv:
  assumes inv: "admission_inv opts s" and r: "r \<in> set (holders s)"
    and go: "finish opts (variables s) = (next, a, recycle)"
  shows "admission_inv opts ((with_variables s a)\<lparr>granted := grant next (granted s),
    holders := grant next (remove1 r (holders s)), recycles := recycles s + (if recycle then 1 else 0)\<rparr>)"
proof -
  from r have pos: "0 < length (holders s)" by (cases "holders s") auto
  then have rec: "recycles s = 0" and act: "active s = int (length (holders s))"
    using inv by (auto simp: admission_inv_def)
  have len: "int (length (remove1 r (holders s))) = int (length (holders s)) - 1"
  proof -
    have "length (remove1 r (holders s)) = length (holders s) - 1" using r by (simp add: length_remove1)
    then show ?thesis using pos by linarith
  qed
  have dr: "draining a \<longleftrightarrow> (\<exists>j. maxJobs opts = Some j \<and> j \<noteq> 0 \<and> j \<le> completed a \<and> 0 < completed a)"
  proof -
    have "0 \<le> completed s"
    proof -
      have "length (holders s) \<le> length (granted s)"
        using inv by (metis admission_inv_def card_mono distinct_card finite_set list_emb_length card_length order_trans)
      then show ?thesis using inv act by (simp add: admission_inv_def)
    qed
    then show ?thesis
      using go inv by (auto simp: finish_def admission_inv_def admission_simps Let_def split: list.splits option.splits)
  qed
  show ?thesis
  proof (cases "queue s")
    case Nil
    then have a: "next = None" "active a = active s - 1" "completed a = completed s + 1" "queue a = []"
        "recycle = (draining a \<and> active a = 0)"
      using go by (auto simp: finish_def admission_simps Let_def)
    then show ?thesis
      using inv Nil rec act pos len r dr set_remove1_subset [of r "holders s"]
      by (auto simp: admission_inv_def with_variables_def grant_def)
  next
    case (Cons q qs)
    then have a: "next = Some q" "active a = active s" "completed a = completed s + 1" "queue a = qs" "recycle = False"
      using go act pos by (auto simp: finish_def admission_simps Let_def)
    have "q \<notin> set (granted s)"
    proof -
      have "distinct (granted s @ queue s)" using inv subseq_distinct_keep unfolding admission_inv_def by blast
      then show ?thesis using Cons by simp
    qed
    then have "q \<notin> set (holders s)" using inv by (auto simp: admission_inv_def)
    then show ?thesis
      using a inv Cons rec act pos len r dr set_remove1_subset [of r "holders s"]
      by (auto simp: admission_inv_def with_variables_def grant_def)
  qed
qed

interpretation admission: guarded_machine "\<lambda>s. admission_start s \<and> valid_limits opts" "admission_step opts"
    "\<lambda>s. valid_limits opts \<and> admission_inv opts s" for opts
proof unfold_locales
  fix s :: "'r admission_system"
  assume "admission_start s \<and> valid_limits opts"
  then show "valid_limits opts \<and> admission_inv opts s"
    by (auto simp: admission_start_def admission_inv_def valid_limits_def)
next
  fix s s' :: "'r admission_system" and e
  assume step: "admission_step opts s e s'" and inv: "valid_limits opts \<and> admission_inv opts s"
  from step have "admission_inv opts s'"
  proof (rule admission_stepE)
    fix r "next" a recycle
    assume "s' = (with_variables s a)\<lparr>granted := grant next (granted s), holders := grant next (remove1 r (holders s)),
        recycles := recycles s + (if recycle then 1 else 0)\<rparr>"
      and "r \<in> set (holders s)" "finish opts (variables s) = (next, a, recycle)"
    with inv finish_inv show "admission_inv opts s'" by metis
  qed (use inv arrive_inv [of opts s] leave_inv [of opts s] in auto)
  with inv show "valid_limits opts \<and> admission_inv opts s'" by simp
qed

definition remaining_work :: "'r admission_system \<Rightarrow> nat" where
  "remaining_work s = nat (active s) + length (queue s)"

definition is_finish :: "'r admission_event \<Rightarrow> bool" where
  "is_finish e = (case e of Finish _ \<Rightarrow> True | _ \<Rightarrow> False)"

interpretation drain: draining_machine "\<lambda>s. admission_start s \<and> valid_limits opts" "admission_step opts"
    "\<lambda>s. valid_limits opts \<and> admission_inv opts s" draining remaining_work is_finish for opts
proof unfold_locales
  fix s s' :: "'r admission_system" and e
  assume step: "admission_step opts s e s'" and inv: "valid_limits opts \<and> admission_inv opts s" and d: "draining s"
  show "draining s'"
    using step
    by (rule admission_stepE)
       (use d in \<open>auto simp: arrive_def finish_def settleQueued_def admission_simps Let_def split: if_splits prod.splits\<close>)
  show "remaining_work s' + (if is_finish e then 1 else 0) \<le> remaining_work s"
    using step
  proof (rule admission_stepE)
    fix r
    assume "e = Leave r" "s' = with_variables s (settleQueued r (variables s))"
    then show ?thesis
      using length_remove1 [of r "queue s"] by (auto simp: remaining_work_def is_finish_def settleQueued_def admission_simps)
  next
    fix r "next" a recycle
    assume e: "e = Finish r" and s': "s' = (with_variables s a)\<lparr>granted := grant next (granted s),
        holders := grant next (remove1 r (holders s)), recycles := recycles s + (if recycle then 1 else 0)\<rparr>"
      and r: "r \<in> set (holders s)" and go: "finish opts (variables s) = (next, a, recycle)"
    have "0 < active s" using r inv by (cases "holders s") (auto simp: admission_inv_def)
    with e s' go show ?thesis
      by (cases "queue s") (auto simp: remaining_work_def is_finish_def finish_def admission_simps Let_def)
  qed (use d in \<open>auto simp: remaining_work_def is_finish_def arrive_def admission_simps split: if_splits\<close>)
qed

text \<open>A state that still has work can finish a request.\<close>

lemma finish_enabled:
  assumes "admission_inv opts s" and "recycles s = 0" and "draining s"
  obtains r s' where "admission_step opts s (Finish r) s'"
proof -
  have "active s \<noteq> 0" using assms by (auto simp: admission_inv_def)
  then obtain r where "r \<in> set (holders s)" using assms(1) by (cases "holders s") (auto simp: admission_inv_def)
  moreover obtain n a b where "finish opts (variables s) = (n, a, b)" by (cases "finish opts (variables s)")
  ultimately show thesis by (intro that [OF admission_step.finish])
qed

lemma drains:
  fixes s :: "'r admission_system"
  assumes "valid_limits opts" and "admission_inv opts s" and "draining s"
  shows "\<exists>es s'. run (admission_step opts) s es s' \<and> list_all is_finish es
    \<and> length es \<le> remaining_work s \<and> recycles s' = 1"
  using assms
proof (induction "remaining_work s" arbitrary: s rule: less_induct)
  case less
  show ?case
  proof (cases "recycles s = 1")
    case True
    then show ?thesis using run.empty [of "admission_step opts" s] by (intro exI [of _ "[]"] exI [of _ s]) simp
  next
    case False
    then have "recycles s = 0" using less.prems(2) by (auto simp: admission_inv_def split: if_splits)
    then obtain r s1 where step: "admission_step opts s (Finish r) s1"
      using finish_enabled less.prems by blast
    have d: "draining s1" using drain.closed_step [OF step] less.prems by blast
    have w: "remaining_work s1 + 1 \<le> remaining_work s"
      using drain.work_step [OF step] less.prems by (auto simp: is_finish_def)
    have i: "admission_inv opts s1" using admission.step_inv [OF step] less.prems by blast
    obtain es s' where "run (admission_step opts) s1 es s'" "list_all is_finish es" "length es \<le> remaining_work s1" "recycles s' = 1"
      using less.hyps [of s1] w less.prems(1) i d by auto
    then show ?thesis
      using run_Cons [where step = "admission_step opts", OF step] w by (intro exI [of _ "Finish r # es"] exI [of _ s']) (auto simp: is_finish_def)
  qed
qed

section \<open>Theorems\<close>

abbreviation admission_run :: "limits \<Rightarrow> 'r admission_event list \<Rightarrow> 'r admission_system \<Rightarrow> bool" where
  "admission_run opts es s \<equiv> (\<exists>s0. admission_start s0 \<and> run (admission_step opts) s0 es s)"

lemma admission_run_inv: "valid_limits opts \<Longrightarrow> admission_run opts es s \<Longrightarrow> admission_inv opts s"
  using admission.run_inv admission.start_inv by blast

text \<open>C15: admission control holds in every interleaving. However arrivals, queue timeouts, aborts and
  completions interleave, the requests that hold a permit are as many as \<open>active\<close> says and at most
  \<open>maxConcurrent\<close>, at most \<open>maxQueued\<close> requests wait, nobody waits while a permit is free, and permits
  are granted in the order of arrival: those granted, followed by those waiting, are in that order.\<close>

theorem admission_bounded_fifo:
  assumes "valid_limits opts" and "admission_run opts es s"
  shows "active s = int (length (holders s)) \<and> active s \<le> maxConcurrent opts
    \<and> int (length (queue s)) \<le> maxQueued opts \<and> (queue s \<noteq> [] \<longrightarrow> active s = maxConcurrent opts)
    \<and> subseq (granted s @ queue s) (arrivals s)"
  using admission_run_inv [OF assms] unfolding admission_inv_def by blast

text \<open>A runner that drains recycles exactly once. Once enough jobs are completed no arrival gets a
  permit or a place in the queue; finishing what is left, at most one step per waiting or running request,
  leads to the call of \<open>onRecycle\<close>; and it is never called twice.\<close>

theorem drain_recycles_once:
  assumes "valid_limits opts" and "admission_run opts es s" and "draining s"
  shows "recycles s \<le> 1 \<and> fst (arrive opts b r (variables s)) \<in> {Busy, Gone}
    \<and> (\<exists>es' s'. run (admission_step opts) s es' s' \<and> list_all is_finish es' \<and> length es' \<le> remaining_work s \<and> recycles s' = 1)
    \<and> (\<forall>es' s'. run (admission_step opts) s es' s' \<longrightarrow>
          recycles s' \<le> 1 \<and> length (filter is_finish es') \<le> remaining_work s)"
proof -
  note inv = admission_run_inv [OF assms(1,2)]
  have "recycles s' \<le> 1 \<and> length (filter is_finish es') \<le> remaining_work s" if "run (admission_step opts) s es' s'" for es' s'
    using drain.productive_bound [OF that] admission.run_inv [OF that] assms(1,3) inv
    by (auto simp: admission_inv_def split: if_splits)
  moreover have "fst (arrive opts b r (variables s)) \<in> {Busy, Gone}"
    using assms(3) by (simp add: arrive_def admission_simps)
  moreover have "recycles s \<le> 1" using inv by (simp add: admission_inv_def split: if_splits)
  ultimately show ?thesis using drains [OF assms(1) inv assms(3)] by blast
qed

section \<open>Authentication\<close>

lemma utf8_Nil [simp]: "utf8 [] = []"
  by (simp add: utf8_def)

lemma utf8_Cons: "utf8 (c # s) = utf8_char c @ utf8 s"
  by (simp add: utf8_def)

lemma utf8_char_prefix:
  assumes "utf8_char c @ xs = utf8_char d @ ys"
  shows "c = d \<and> xs = ys"
proof -
  have "code c = code d"
  proof (cases "code c < 128 \<or> code d < 128")
    case True
    with assms show ?thesis by (auto split: if_splits)
  next
    case False
    with assms have "code c div 64 = code d div 64" "code c mod 64 = code d mod 64" by auto
    then show ?thesis by (metis div_mult_mod_eq)
  qed
  with assms show ?thesis by (simp add: code_eq_iff)
qed

lemma utf8_inj: "utf8 s = utf8 t \<Longrightarrow> s = t"
proof (induction s arbitrary: t)
  case Nil
  then show ?case by (cases t) (auto simp: utf8_Cons split: if_splits)
next
  case (Cons c s)
  then obtain d t' where t: "t = d # t'" by (cases t) (auto simp: utf8_Cons split: if_splits)
  with Cons.prems utf8_char_prefix [of c "utf8 s" d "utf8 t'"] have "c = d" "utf8 s = utf8 t'"
    by (simp_all only: utf8_Cons)
  with Cons.IH t show ?case by blast
qed

text \<open>C16: the endpoint fails closed. With a token configured, a request is passed on to the RPC handler only
  if it is a POST to \<open>/rpc\<close> whose \<open>Authorization\<close> header has the scheme \<open>bearer\<close>, in any case, followed by
  exactly this token; every other request is answered at once with 200 (the health probe), 401 or 404.\<close>

theorem rpc_requires_token:
  assumes "trim token \<noteq> []"
  shows "(createFetchHandler (Some token) request = Dispatch \<longleftrightarrow>
      h_method request = ''POST'' \<and> h_path request = ''/rpc''
      \<and> (\<exists>scheme rest. h_authorization request = Some (scheme @ CHR '' '' # rest) \<and> CHR '' '' \<notin> set scheme
           \<and> to_lower scheme = ''bearer'' \<and> trim rest = trim token))
    \<and> (\<forall>resp. createFetchHandler (Some token) request = Answer resp \<longrightarrow> status resp \<in> {200, 401, 404})"
proof -
  have split: "split_on CHR '' '' (scheme @ CHR '' '' # rest) = scheme # split_on CHR '' '' rest"
    if "CHR '' '' \<notin> set scheme" for scheme rest
    using that by (induction scheme) auto
  have bearer: "bearerTokenMatches header (trim token) \<longleftrightarrow>
      (\<exists>scheme rest. header = Some (scheme @ CHR '' '' # rest) \<and> CHR '' '' \<notin> set scheme
         \<and> to_lower scheme = ''bearer'' \<and> trim rest = trim token)" for header
  proof
    assume m: "bearerTokenMatches header (trim token)"
    then obtain h scheme parts where h: "header = Some h" "split_on CHR '' '' h = scheme # parts" "to_lower scheme = ''bearer''"
        "utf8 (trim (join '' '' parts)) = utf8 (trim token)"
      by (auto simp: bearerTokenMatches_def Let_def split: option.splits list.splits if_splits)
    then have eq: "trim (join '' '' parts) = trim token" using utf8_inj by blast
    have "trim [] = []" by (simp add: trim_def trim_start_def)
    then have "parts \<noteq> []" using eq assms by auto
    then have "h = scheme @ CHR '' '' # join '' '' parts"
      using join_split_on [of "CHR '' ''" h] h(2) by (cases parts) auto
    moreover have "CHR '' '' \<notin> set scheme" using split_on_no_sep [of scheme "CHR '' ''" h] h(2) by simp
    ultimately show "\<exists>scheme rest. header = Some (scheme @ CHR '' '' # rest) \<and> CHR '' '' \<notin> set scheme
         \<and> to_lower scheme = ''bearer'' \<and> trim rest = trim token"
      using h(1,3) eq by blast
  next
    assume "\<exists>scheme rest. header = Some (scheme @ CHR '' '' # rest) \<and> CHR '' '' \<notin> set scheme
         \<and> to_lower scheme = ''bearer'' \<and> trim rest = trim token"
    then show "bearerTokenMatches header (trim token)"
      by (auto simp: bearerTokenMatches_def split join_split_on)
  qed
  show ?thesis
    using assms unfolding bearer [symmetric] by (auto simp: createFetchHandler_def json_reply_def Let_def)
qed

section \<open>Expired requests\<close>

text \<open>Work that waited too long is not started. A request whose time since its arrival is used up when its
  execution would begin, as one that expired in the queue, reaches no connector handler: the state of the
  registry is unchanged and the request is still answered.\<close>

theorem expired_request_not_executed:
  assumes "admittedAt + maxOperationTimeoutMs \<le> n1"
  shows "rstate (fst (handleRPC reg decode request admittedAt (now, armed) (n0, n1, n2) inner st)) = rstate st
    \<and> (\<exists>t resp. snd (handleRPC reg decode request admittedAt (now, armed) (n0, n1, n2) inner st) = Settles t (Inr resp))"
proof -
  obtain st' p where run: "handleRPC reg decode request admittedAt (now, armed) (n0, n1, n2) inner st = (st', p)"
    by (cases "handleRPC reg decode request admittedAt (now, armed) (n0, n1, n2) inner st")
  from run have "rstate st' = rstate st"
    by (cases rule: handleRPC_cases) (use assms in \<open>auto simp: min_def split: if_splits\<close>)
  with run handleRPC_settles [of reg decode request admittedAt now armed n0 n1 n2 inner st] show ?thesis by auto
qed

section \<open>Witnesses\<close>

definition small_limits :: limits where
  "small_limits = \<lparr>maxConcurrent = 1, maxQueued = 1, maxJobs = Some 1\<rparr>"

definition admission_zero :: "nat admission_system" where
  "admission_zero = \<lparr>active = 0, completed = 0, draining = False, queue = [], arrivals = [], granted = [],
     holders = [], recycles = 0\<rparr>"

text \<open>Request 1 runs, request 2 waits, and when 1 is done 2 gets its permit while the runner drains.\<close>

lemma small_run:
  "\<exists>s. run (admission_step small_limits) admission_zero [Arrive 1 False, Arrive 2 False, Finish 1] s
     \<and> draining s \<and> queue s = [] \<and> holders s = [2] \<and> remaining_work s = 1"
proof -
  let ?s1 = "admission_zero\<lparr>active := 1, arrivals := [1], granted := [1], holders := [1]\<rparr>"
  let ?s2 = "?s1\<lparr>queue := [2], arrivals := [1, 2]\<rparr>"
  let ?s3 = "?s2\<lparr>completed := 1, draining := True, queue := [], granted := [1, 2], holders := [2]\<rparr>"
  have "admission_step small_limits admission_zero (Arrive 1 False) ?s1"
    using admission_step.admitted [of 1 admission_zero small_limits False]
    by (simp add: arrive_def small_limits_def admission_zero_def admission_simps)
  moreover have "admission_step small_limits ?s1 (Arrive 2 False) ?s2"
    using admission_step.waiting [of 2 ?s1 small_limits False Queued]
    by (simp add: arrive_def small_limits_def admission_zero_def admission_simps)
  moreover have "admission_step small_limits ?s2 (Finish 1) ?s3"
    using admission_step.finish [of 1 ?s2 small_limits "Some 2" "\<lparr>active = 1, completed = 1, draining = True, queue = []\<rparr>" False]
    by (simp add: finish_def small_limits_def admission_zero_def admission_simps grant_def)
  ultimately have "run (admission_step small_limits) admission_zero [Arrive 1 False, Arrive 2 False, Finish 1] ?s3"
    using run_Cons [of "admission_step small_limits"] run.empty [of "admission_step small_limits" ?s3] by blast
  then show ?thesis by (intro exI [of _ ?s3]) (simp add: remaining_work_def admission_zero_def)
qed

lemma small_limits_valid: "valid_limits small_limits" "admission_start admission_zero"
  by (simp_all add: valid_limits_def small_limits_def admission_start_def admission_zero_def)

theorem admission_bounded_fifo_witness:
  "\<exists>s :: nat admission_system. admission_run small_limits [Arrive 1 False, Arrive 2 False, Finish 1] s
     \<and> active s = int (length (holders s)) \<and> active s \<le> maxConcurrent small_limits \<and> holders s = [2]"
proof -
  obtain s where s: "run (admission_step small_limits) admission_zero [Arrive 1 False, Arrive 2 False, Finish 1] s" "holders s = [2]"
    using small_run by blast
  then have r: "admission_run small_limits [Arrive 1 False, Arrive 2 False, Finish 1] s" using small_limits_valid(2) by blast
  from admission_bounded_fifo [OF small_limits_valid(1) r] r s(2) show ?thesis by blast
qed

theorem drain_recycles_once_witness:
  "\<exists>(s :: nat admission_system) es' s'. admission_run small_limits [Arrive 1 False, Arrive 2 False, Finish 1] s \<and> draining s
     \<and> run (admission_step small_limits) s es' s' \<and> length es' \<le> 1 \<and> recycles s' = 1"
proof -
  obtain s where s: "run (admission_step small_limits) admission_zero [Arrive 1 False, Arrive 2 False, Finish 1] s"
      "draining s" "remaining_work s = 1"
    using small_run by blast
  then have r: "admission_run small_limits [Arrive 1 False, Arrive 2 False, Finish 1] s" using small_limits_valid(2) by blast
  from drain_recycles_once [OF small_limits_valid(1) r s(2), of False 1] r s(2,3) show ?thesis by metis
qed

theorem rpc_requires_token_witness:
  "createFetchHandler (Some ''key'')
     \<lparr>h_method = ''POST'', h_path = ''/rpc'', h_authorization = Some ''Bearer kez'', h_request_id = None\<rparr> \<noteq> Dispatch"
proof -
  have "trim ''key'' \<noteq> []" by code_simp
  note t = rpc_requires_token [OF this, of "\<lparr>h_method = ''POST'', h_path = ''/rpc'', h_authorization = Some ''Bearer kez'', h_request_id = None\<rparr>"]
  have "\<not> (\<exists>scheme rest. ''Bearer kez'' = scheme @ CHR '' '' # rest \<and> CHR '' '' \<notin> set scheme
      \<and> to_lower scheme = ''bearer'' \<and> trim rest = trim ''key'')"
  proof
    assume "\<exists>scheme rest. ''Bearer kez'' = scheme @ CHR '' '' # rest \<and> CHR '' '' \<notin> set scheme
      \<and> to_lower scheme = ''bearer'' \<and> trim rest = trim ''key''"
    then obtain scheme rest where "''Bearer kez'' = scheme @ CHR '' '' # rest" "CHR '' '' \<notin> set scheme" "trim rest = trim ''key''"
      by blast
    moreover have "takeWhile (\<lambda>c. c \<noteq> CHR '' '') (scheme @ CHR '' '' # rest) = scheme" if "CHR '' '' \<notin> set scheme"
      using that by (induction scheme) auto
    ultimately have "takeWhile (\<lambda>c. c \<noteq> CHR '' '') ''Bearer kez'' = scheme" by metis
    then have "scheme = ''Bearer''" by simp
    with \<open>''Bearer kez'' = scheme @ CHR '' '' # rest\<close> have "rest = ''kez''" by simp
    moreover have "trim ''kez'' \<noteq> trim ''key''" by code_simp
    ultimately show False using \<open>trim rest = trim ''key''\<close> by metis
  qed
  with t show ?thesis by simp
qed

theorem expired_request_not_executed_witness:
  "\<exists>reg. createConnectorRegistry crm_input = Inr reg
     \<and> rstate (fst (handleRPC reg (\<lambda>_. secret_text) empty_request 1 (2, 2) (300005, 300005, 300005) (5, 5, 5) (crm_state reg)))
         = (r_validators reg, 0)"
proof -
  obtain reg where reg: "createConnectorRegistry crm_input = Inr reg" by (rule crm_registry)
  have "1 + maxOperationTimeoutMs \<le> 300005" by simp
  from expired_request_not_executed [OF this, of reg "\<lambda>_. secret_text" empty_request 2 2 300005 300005 "(5, 5, 5)" "crm_state reg"] reg
  show ?thesis by (simp add: crm_state_def)
qed

end
