(* ===== verification/Supervisor.thy ===== *)
theory Supervisor
  imports Budget Machine
begin

text \<open>
  \<open>runner/supervisor/src/supervisor.ts\<close> and \<open>positiveInteger\<close> of its \<open>index.ts\<close>: the watchdog that keeps
  one runner process alive. The local variables of \<open>superviseRunner\<close> are a record; what runs between two
  \<open>await\<close>s, and each callback (the lifetime timer, the kill timer, \<open>stop\<close>, the exit of the child, the end of
  the restart delay), is a function on it. \<open>supervisor_step\<close> interleaves them. A timer fires no earlier
  than it is due; the operating system decides when a child exits.
\<close>

section \<open>Options\<close>

record SupervisorOptions =
  command :: "string list"
  maxLifetimeMs :: int
  terminationGraceMs :: int
  restartDelayMs :: int
  maxRestarts :: "int option"

definition at_least_one :: "jsval \<Rightarrow> bool" where
  "at_least_one v = (case v of JNum n \<Rightarrow> is_safe_integer n \<and> \<not> num_lt n (Fin 1) | _ \<Rightarrow> False)"

definition valid_restarts :: "jsval \<Rightarrow> bool" where
  "valid_restarts v = (case v of
     JUndef \<Rightarrow> True | JNum n \<Rightarrow> is_safe_integer n \<and> \<not> num_lt n (Fin 0) | _ \<Rightarrow> False)"

definition supervisor_options :: "string list \<Rightarrow> jsval \<Rightarrow> jsval \<Rightarrow> jsval \<Rightarrow> jsval \<Rightarrow> SupervisorOptions res" where
  "supervisor_options cmd lifetime grace delay restarts =
     sbind (for_each (\<lambda>v. guard (at_least_one v) (Error ''Invalid supervisor time limit'')) [lifetime, grace, delay]) (\<lambda>_.
     sbind (guard (cmd \<noteq> []) (Error ''Runner command is required'')) (\<lambda>_.
     sbind (guard (valid_restarts restarts) (Error ''Invalid restart limit'')) (\<lambda>_.
     Inr \<lparr>command = cmd, maxLifetimeMs = int_of lifetime, terminationGraceMs = int_of grace, restartDelayMs = int_of delay,
          maxRestarts = (if restarts = JUndef then None else Some (int_of restarts))\<rparr>)))"

definition positiveInteger :: "(string \<Rightarrow> string option) \<Rightarrow> string \<Rightarrow> int \<Rightarrow> int res" where
  "positiveInteger environment name fallback =
     (case environment name of
        None \<Rightarrow> Inr fallback
      | Some raw \<Rightarrow>
          (let v = JNum (str_to_num raw) in
           if \<not> at_least_one v then Inl (Error (name @ '' must be a positive integer'')) else Inr (int_of v)))"

section \<open>State\<close>

datatype supervisor_event = Started nat | Terminating nat | ForceKilled nat | Exited nat int

text \<open>A child: its process id, when its lifetime timer is due, when its kill timer is due (once armed), and
  whether the kill timer fired.\<close>

record child =
  pid :: nat
  lifetimeDue :: int
  killDue :: "int option"
  killed :: bool

datatype phase = Running child | Delaying int | Ended

record supervisor =
  phase :: phase
  stopping :: bool
  restart :: nat
  nextPid :: nat
  emitted :: "(int \<times> supervisor_event) list"

definition emit :: "int \<Rightarrow> supervisor_event \<Rightarrow> supervisor \<Rightarrow> supervisor" where
  "emit now e s = s\<lparr>emitted := emitted s @ [(now, e)]\<rparr>"

text \<open>The head of the loop: the condition \<open>!stopping\<close>, then the spawn. The system gives a fresh id.\<close>

definition iterate :: "SupervisorOptions \<Rightarrow> int \<Rightarrow> supervisor \<Rightarrow> supervisor" where
  "iterate opts now s =
     (if stopping s then s\<lparr>phase := Ended\<rparr>
      else emit now (Started (nextPid s)) (s\<lparr>nextPid := nextPid s + 1,
        phase := Running \<lparr>pid = nextPid s, lifetimeDue = now + maxLifetimeMs opts, killDue = None, killed = False\<rparr>\<rparr>))"

definition superviseRunner :: "SupervisorOptions \<Rightarrow> int \<Rightarrow> supervisor" where
  "superviseRunner opts now =
     iterate opts now \<lparr>phase = Ended, stopping = False, restart = 0, nextPid = 0, emitted = []\<rparr>"

text \<open>\<open>terminate\<close>: at most one SIGTERM per child, which arms the kill timer.\<close>

definition terminate :: "SupervisorOptions \<Rightarrow> int \<Rightarrow> supervisor \<Rightarrow> supervisor" where
  "terminate opts now s =
     (case phase s of
        Running c \<Rightarrow>
          (if killDue c \<noteq> None then s
           else emit now (Terminating (pid c)) (s\<lparr>phase := Running (c\<lparr>killDue := Some (now + terminationGraceMs opts)\<rparr>)\<rparr>))
      | _ \<Rightarrow> s)"

definition kill_timer :: "int \<Rightarrow> supervisor \<Rightarrow> supervisor" where
  "kill_timer now s =
     (case phase s of
        Running c \<Rightarrow> emit now (ForceKilled (pid c)) (s\<lparr>phase := Running (c\<lparr>killed := True\<rparr>)\<rparr>)
      | _ \<Rightarrow> s)"

text \<open>After \<open>await child.exited\<close>: end the loop, or wait.\<close>

definition child_exited :: "SupervisorOptions \<Rightarrow> int \<Rightarrow> int \<Rightarrow> supervisor \<Rightarrow> supervisor" where
  "child_exited opts now exitCode s =
     (case phase s of
        Running c \<Rightarrow>
          (let s' = emit now (Exited (pid c) exitCode) s in
           if stopping s' \<or> (case maxRestarts opts of None \<Rightarrow> False | Some m \<Rightarrow> m \<le> int (restart s'))
           then s'\<lparr>phase := Ended\<rparr> else s'\<lparr>phase := Delaying (now + restartDelayMs opts)\<rparr>)
      | _ \<Rightarrow> s)"

text \<open>The delay is over, by its timer or by \<open>wakeDelay\<close>: \<open>restart++\<close> and the loop head.\<close>

definition delay_over :: "SupervisorOptions \<Rightarrow> int \<Rightarrow> supervisor \<Rightarrow> supervisor" where
  "delay_over opts now s = iterate opts now (s\<lparr>restart := restart s + 1\<rparr>)"

text \<open>\<open>stop()\<close> before its \<open>await\<close>: \<open>terminate?.()\<close>, then \<open>wakeDelay?.()\<close>.\<close>

definition stop :: "SupervisorOptions \<Rightarrow> int \<Rightarrow> supervisor \<Rightarrow> supervisor" where
  "stop opts now s =
     (let s' = terminate opts now (s\<lparr>stopping := True\<rparr>) in
      case phase s' of Delaying _ \<Rightarrow> delay_over opts now s' | _ \<Rightarrow> s')"

section \<open>Interleavings\<close>

datatype callback = LifetimeTimer int | KillTimer int | ChildExits int int | DelayTimer int | Stop int

inductive supervisor_step :: "SupervisorOptions \<Rightarrow> supervisor \<Rightarrow> callback \<Rightarrow> supervisor \<Rightarrow> bool" for opts where
  lifetime: "phase s = Running c \<Longrightarrow> lifetimeDue c \<le> now \<Longrightarrow> supervisor_step opts s (LifetimeTimer now) (terminate opts now s)"
| kill: "phase s = Running c \<Longrightarrow> killDue c = Some due \<Longrightarrow> due \<le> now \<Longrightarrow> \<not> killed c
     \<Longrightarrow> supervisor_step opts s (KillTimer now) (kill_timer now s)"
| exits: "phase s = Running c \<Longrightarrow> supervisor_step opts s (ChildExits now n) (child_exited opts now n s)"
| delay: "phase s = Delaying due \<Longrightarrow> due \<le> now \<Longrightarrow> supervisor_step opts s (DelayTimer now) (delay_over opts now s)"
| stop: "supervisor_step opts s (Stop now) (stop opts now s)"

inductive_cases supervisor_stepE: "supervisor_step opts s e s'"

section \<open>What the emitted events say\<close>

definition starts :: "(int \<times> supervisor_event) list \<Rightarrow> nat" where
  "starts es = length (filter (\<lambda>(_, e). case e of Started _ \<Rightarrow> True | _ \<Rightarrow> False) es)"

definition exits :: "(int \<times> supervisor_event) list \<Rightarrow> nat" where
  "exits es = length (filter (\<lambda>(_, e). case e of Exited _ _ \<Rightarrow> True | _ \<Rightarrow> False) es)"

text \<open>A forced kill of a process comes after its SIGTERM, by at least the grace period.\<close>

definition kills_graceful :: "int \<Rightarrow> (int \<times> supervisor_event) list \<Rightarrow> bool" where
  "kills_graceful grace es =
     (\<forall>t p. (t, ForceKilled p) \<in> set es \<longrightarrow> (\<exists>u. (u, Terminating p) \<in> set es \<and> u + grace \<le> t))"

definition supervisor_inv :: "SupervisorOptions \<Rightarrow> supervisor \<Rightarrow> bool" where
  "supervisor_inv opts s =
     (starts (emitted s) = exits (emitted s) + (case phase s of Running _ \<Rightarrow> 1 | _ \<Rightarrow> 0)
      \<and> starts (emitted s) \<le> restart s + 1
      \<and> (case phase s of Ended \<Rightarrow> True | Running _ \<Rightarrow> starts (emitted s) = restart s + 1
           | Delaying _ \<Rightarrow> starts (emitted s) = restart s + 1)
      \<and> (\<forall>m. maxRestarts opts = Some m \<and> 0 \<le> m \<longrightarrow> int (starts (emitted s)) \<le> m + 1
            \<and> (case phase s of Delaying _ \<Rightarrow> int (restart s) < m | Running _ \<Rightarrow> int (restart s) \<le> m | Ended \<Rightarrow> True))
      \<and> (stopping s \<longrightarrow> (case phase s of Running c \<Rightarrow> killDue c \<noteq> None | Delaying _ \<Rightarrow> False | Ended \<Rightarrow> True))
      \<and> kills_graceful (terminationGraceMs opts) (emitted s)
      \<and> (\<forall>c u. phase s = Running c \<and> killDue c = Some u
            \<longrightarrow> (u - terminationGraceMs opts, Terminating (pid c)) \<in> set (emitted s)))"

section \<open>The invariant\<close>

lemma starts_snoc [simp]:
  "starts (es @ [(t, e)]) = starts es + (case e of Started _ \<Rightarrow> 1 | _ \<Rightarrow> 0)"
  "exits (es @ [(t, e)]) = exits es + (case e of Exited _ _ \<Rightarrow> 1 | _ \<Rightarrow> 0)"
  by (simp_all add: starts_def exits_def split: supervisor_event.split)

lemma kills_graceful_snoc:
  "kills_graceful g (es @ [(t, e)]) \<longleftrightarrow> kills_graceful g es
     \<and> (\<forall>p. e = ForceKilled p \<longrightarrow> (\<exists>u. (u, Terminating p) \<in> set es \<and> u + g \<le> t))"
  if "\<forall>p. e \<noteq> Terminating p"
  using that by (fastforce simp: kills_graceful_def)

lemma kills_graceful_Terminating [simp]:
  "kills_graceful g es \<Longrightarrow> kills_graceful g (es @ [(t, Terminating p)])"
  by (fastforce simp: kills_graceful_def)

lemma kills_graceful_others [simp]:
  "kills_graceful g (es @ [(t, Started p)]) = kills_graceful g es"
  "kills_graceful g (es @ [(t, Exited p n)]) = kills_graceful g es"
  by (simp_all add: kills_graceful_snoc)

lemmas supervisor_simps = supervisor_inv_def emit_def

lemma delay_over_inv:
  assumes "supervisor_inv opts s" and "phase s = Delaying due"
  shows "supervisor_inv opts (delay_over opts now s)"
  using assms by (auto simp: supervisor_simps iterate_def delay_over_def)

lemma terminate_inv:
  assumes "supervisor_inv opts s"
  shows "supervisor_inv opts (terminate opts now s)"
  using assms by (auto simp: supervisor_simps terminate_def split: phase.splits)

lemma kill_timer_inv:
  assumes inv: "supervisor_inv opts s" and c: "phase s = Running c" "killDue c = Some due" "due \<le> now"
  shows "supervisor_inv opts (kill_timer now s)"
proof -
  have "(due - terminationGraceMs opts, Terminating (pid c)) \<in> set (emitted s)"
    using inv c by (auto simp: supervisor_inv_def)
  moreover have "due - terminationGraceMs opts + terminationGraceMs opts \<le> now" using c(3) by simp
  ultimately have "kills_graceful (terminationGraceMs opts) (emitted s @ [(now, ForceKilled (pid c))])"
    using inv by (subst kills_graceful_snoc) (auto simp: supervisor_inv_def intro!: exI)
  then show ?thesis using inv c by (auto simp: supervisor_simps kill_timer_def)
qed

lemma child_exited_inv:
  assumes "supervisor_inv opts s" and "phase s = Running c"
  shows "supervisor_inv opts (child_exited opts now n s)"
  using assms by (auto simp: supervisor_simps child_exited_def Let_def split: option.splits)

text \<open>\<open>stop\<close> breaks the clause about stopping and \<open>terminate\<close> or the end of the delay restores it.\<close>

lemma stop_inv:
  assumes inv: "supervisor_inv opts s"
  shows "supervisor_inv opts (stop opts now s)"
proof (cases "phase s")
  case (Running c)
  then have "stop opts now s = terminate opts now (s\<lparr>stopping := True\<rparr>)"
    by (auto simp: stop_def terminate_def emit_def Let_def)
  then show ?thesis using inv Running by (auto simp: supervisor_simps terminate_def)
next
  case (Delaying due)
  then have "stop opts now s = s\<lparr>stopping := True, restart := restart s + 1, phase := Ended\<rparr>"
    by (simp add: stop_def terminate_def delay_over_def iterate_def Let_def)
  then show ?thesis using inv Delaying by (auto simp: supervisor_simps)
next
  case Ended
  then show ?thesis using inv by (auto simp: supervisor_simps stop_def terminate_def Let_def)
qed

interpretation supervisor: guarded_machine "\<lambda>s. \<exists>now. s = superviseRunner opts now" "supervisor_step opts"
    "supervisor_inv opts" for opts
proof unfold_locales
  fix s
  assume "\<exists>now. s = superviseRunner opts now"
  then show "supervisor_inv opts s"
    by (auto simp: superviseRunner_def iterate_def supervisor_simps starts_def exits_def kills_graceful_def)
next
  fix s e s'
  assume "supervisor_step opts s e s'" and "supervisor_inv opts s"
  then show "supervisor_inv opts s'"
    by (auto elim!: supervisor_stepE intro: terminate_inv kill_timer_inv child_exited_inv stop_inv
        delay_over_inv)
qed

text \<open>Once stopping, the supervisor starts nothing.\<close>

lemma stopping_step:
  assumes "supervisor_step opts s e s'" and "supervisor_inv opts s" and "stopping s"
  shows "stopping s' \<and> starts (emitted s') = starts (emitted s)"
  using assms(1)
  by (rule supervisor_stepE)
     (use assms(2,3) in \<open>auto simp: supervisor_inv_def terminate_def kill_timer_def child_exited_def delay_over_def iterate_def
        stop_def emit_def Let_def split: phase.splits\<close>)

section \<open>Theorems\<close>

abbreviation supervised :: "SupervisorOptions \<Rightarrow> callback list \<Rightarrow> supervisor \<Rightarrow> bool" where
  "supervised opts es s \<equiv> (\<exists>now. run (supervisor_step opts) (superviseRunner opts now) es s)"

lemma supervised_inv: "supervised opts es s \<Longrightarrow> supervisor_inv opts s"
  using supervisor.run_inv supervisor.start_inv by blast


text \<open>C18: a stopped supervisor ends. After \<open>stop\<close> no process is started any more, whatever happens, and as soon
  as the running child exits the loop is over.\<close>

theorem stop_is_final:
  assumes "supervised opts es s" and "run (supervisor_step opts) (stop opts now s) es' s'"
  shows "starts (emitted s') = starts (emitted s)
    \<and> (phase s' = Ended \<or> (\<exists>c. phase s' = Running c \<and> phase (child_exited opts later n s') = Ended))"
proof -
  have inv: "supervisor_inv opts (stop opts now s)" using stop_inv supervised_inv [OF assms(1)] by blast
  have first: "stopping (stop opts now s) \<and> starts (emitted (stop opts now s)) = starts (emitted s)"
    using supervised_inv [OF assms(1)]
    by (auto simp: stop_def terminate_def delay_over_def iterate_def emit_def Let_def split: phase.splits)
  have keep: "stopping s' \<and> starts (emitted s') = starts (emitted s)"
    by (rule supervisor.run_keeps [OF assms(2) inv, where P = "\<lambda>x. stopping x \<and> starts (emitted x) = starts (emitted s)"])
       (use first stopping_step in auto)
  have "supervisor_inv opts s'" using supervisor.run_inv [OF assms(2) inv] .
  with keep show ?thesis
    by (cases "phase s'") (auto simp: supervisor_inv_def child_exited_def emit_def Let_def)
qed

section \<open>Witnesses\<close>

definition short_options :: SupervisorOptions where
  "short_options = \<lparr>command = [''runner''], maxLifetimeMs = 100, terminationGraceMs = 10, restartDelayMs = 5,
     maxRestarts = Some 1\<rparr>"

text \<open>The lifetime of the first child ends, it ignores SIGTERM and is killed.\<close>

lemma short_run:
  "\<exists>s. run (supervisor_step short_options) (superviseRunner short_options 0)
         [LifetimeTimer 100, KillTimer 111, ChildExits 112 137, DelayTimer 120] s
     \<and> emitted s = [(0, Started 0), (100, Terminating 0), (111, ForceKilled 0), (112, Exited 0 137), (120, Started 1)]"
proof -
  let ?s0 = "superviseRunner short_options 0"
  let ?s1 = "terminate short_options 100 ?s0"
  let ?s2 = "kill_timer 111 ?s1"
  let ?s3 = "child_exited short_options 112 137 ?s2"
  let ?s4 = "delay_over short_options 120 ?s3"
  note d = superviseRunner_def iterate_def terminate_def kill_timer_def child_exited_def delay_over_def emit_def short_options_def
  have "supervisor_step short_options ?s0 (LifetimeTimer 100) ?s1"
    by (rule supervisor_step.lifetime, simp add: d, simp add: d)
  moreover have "supervisor_step short_options ?s1 (KillTimer 111) ?s2"
    by (rule supervisor_step.kill, simp add: d, simp add: d, simp, simp add: d)
  moreover have "supervisor_step short_options ?s2 (ChildExits 112 137) ?s3"
    by (rule supervisor_step.exits) (simp_all add: d)
  moreover have "supervisor_step short_options ?s3 (DelayTimer 120) ?s4"
    by (rule supervisor_step.delay, simp add: d, simp add: d)
  ultimately have "run (supervisor_step short_options) ?s0 [LifetimeTimer 100, KillTimer 111, ChildExits 112 137, DelayTimer 120] ?s4"
    using run_Cons [of "supervisor_step short_options"] run.empty [of "supervisor_step short_options" ?s4] by blast
  then show ?thesis by (intro exI [of _ ?s4]) (simp add: d)
qed


theorem stop_is_final_witness:
  "\<exists>s. supervised short_options [LifetimeTimer 100, KillTimer 111, ChildExits 112 137, DelayTimer 120] s
     \<and> starts (emitted (stop short_options 130 s)) = starts (emitted s)"
proof -
  obtain s where r: "supervised short_options [LifetimeTimer 100, KillTimer 111, ChildExits 112 137, DelayTimer 120] s"
    using short_run by blast
  from stop_is_final [OF r run.empty, of 130 "131" 0] r show ?thesis by blast
qed

end
