(* ===== verification/Loader.thy ===== *)
theory Loader
  imports Registry
begin

text \<open>
  \<open>runner/bun/src/declarative/loader.ts\<close> and \<open>runner/bun/src/startup.ts\<close>: discovery of declarative
  connectors, their merge with the registered ones, and the validation at start-up. The connectors
  directory is the list of its entries with the text of each \<open>manifest.json\<close>; the collation of
  \<open>localeCompare\<close> is a key function, and the text of a JSON syntax error is a parameter.
\<close>

record dir_entry =
  d_name :: string
  d_directory :: bool
  d_manifest :: "string option"

definition readManifest :: "(string \<Rightarrow> string) \<Rightarrow> string \<Rightarrow> string \<Rightarrow> jsval res" where
  "readManifest syntaxError content directory =
     (case json_parse content of
        Some v \<Rightarrow> Inr v
      | None \<Rightarrow> Inl (Error (''Invalid connector manifest '' @ directory @ ''/manifest.json: '' @ syntaxError content)))"

fun read_manifests :: "(string \<Rightarrow> string) \<Rightarrow> dir_entry list \<Rightarrow> jsval list res" where
  "read_manifests syntaxError [] = Inr []"
| "read_manifests syntaxError (entry # entries) =
     (case (d_directory entry, d_manifest entry) of
        (True, Some content) \<Rightarrow>
          sbind (readManifest syntaxError content (d_name entry)) (\<lambda>manifest.
          sbind (read_manifests syntaxError entries) (\<lambda>rest.
          Inr (if isDeclarativeManifest manifest then manifest # rest else rest)))
      | _ \<Rightarrow> read_manifests syntaxError entries)"

definition loadDeclarativeManifests ::
    "(string \<Rightarrow> string) \<Rightarrow> (string \<Rightarrow> 'k :: linorder) \<Rightarrow> dir_entry list option \<Rightarrow> jsval list res" where
  "loadDeclarativeManifests syntaxError collate dir =
     (case dir of
        None \<Rightarrow> Inr []
      | Some entries \<Rightarrow>
          sbind (read_manifests syntaxError entries) (\<lambda>manifests.
          Inr (sort_key (\<lambda>m. collate (manifest_key m)) manifests)))"

text \<open>\<open>{ ...compiled, ...registered }\<close>.\<close>

definition merge_handlers :: "'s handlers \<Rightarrow> 's handlers \<Rightarrow> 's handlers" where
  "merge_handlers compiled_hs registered = foldl (\<lambda>tbl (k, h). table_put k h tbl) compiled_hs registered"

definition table_get :: "(string \<times> 'v list) list \<Rightarrow> string \<Rightarrow> 'v list" where
  "table_get tbl k = (case map_of tbl k of Some v \<Rightarrow> v | None \<Rightarrow> [])"

definition add_compiled ::
    "request list registry_input \<Rightarrow> jsval \<Rightarrow> request list handlers
     \<Rightarrow> request list registry_input \<Rightarrow> request list registry_input" where
  "add_compiled original manifest hs out =
     (let key = manifest_key manifest;
          out1 = out\<lparr>in_actions := table_put key (merge_handlers hs (table_get (in_actions original) key)) (in_actions out)\<rparr>
      in case map_of hs ''healthcheck'' of
           Some h \<Rightarrow>
             (if has_entry (in_healthchecks out) key then out1
              else out1\<lparr>in_healthchecks := table_put key (\<lambda>ctx now v. h ctx now (nullish v (JObj []))) (in_healthchecks out)\<rparr>)
         | None \<Rightarrow> out1)"

fun add_all ::
    "request_platform \<Rightarrow> request list registry_input \<Rightarrow> jsval list \<Rightarrow> request list registry_input
     \<Rightarrow> request list registry_input res" where
  "add_all pf original [] out = Inr out"
| "add_all pf original (manifest # ms) out =
     (if \<not> isDeclarativeManifest manifest then add_all pf original ms out
      else sbind (compileDeclarativeConnector pf manifest) (\<lambda>hs.
           add_all pf original ms (add_compiled original manifest hs out)))"

definition withDeclarativeConnectors ::
    "request_platform \<Rightarrow> (string \<Rightarrow> string) \<Rightarrow> (string \<Rightarrow> 'k :: linorder) \<Rightarrow> dir_entry list option
     \<Rightarrow> request list registry_input \<Rightarrow> request list registry_input res" where
  "withDeclarativeConnectors pf syntaxError collate dir inp =
     (let registeredKeys = map manifest_key (filter is_record (in_manifests inp)) in
      sbind (loadDeclarativeManifests syntaxError collate dir) (\<lambda>loaded.
      (let manifests = in_manifests inp @ filter (\<lambda>m. manifest_key m \<notin> set registeredKeys) loaded in
       add_all pf inp manifests (inp\<lparr>in_manifests := manifests\<rparr>))))"

text \<open>\<open>validateRegistryForStartup\<close>: the lines it logs and whether it refuses to start.\<close>

definition issue_value :: "issue \<Rightarrow> jsval" where
  "issue_value i = JObj [(''code'', JStr (i_code i)), (''connectorKey'', JStr (i_connector i)),
     (''operation'', JStr (i_operation i)), (''message'', JStr (i_message i))]"

definition validateRegistryForStartup :: "'s connector_registry \<Rightarrow> jsval list \<times> unit res" where
  "validateRegistryForStartup reg =
     (if validate reg = []
      then ([JObj [(''component'', JStr ''runner''), (''event'', JStr ''connector_registry_validated''), (''issues'', JInt 0)]],
            Inr ())
      else ([JObj [(''component'', JStr ''runner''), (''event'', JStr ''connector_registry_validation_failed''),
                   (''issues'', JArr (map issue_value (validate reg)))]],
            assertValidRegistry reg))"

section \<open>Hand-written handlers win\<close>

lemma map_of_table_put: "map_of (table_put k v tbl) = (map_of tbl)(k \<mapsto> v)"
proof -
  have m: "map_of (map (\<lambda>(k', v'). (k', if k' = k then v else v')) tbl) x
      = (if x = k then map_option (\<lambda>_. v) (map_of tbl k) else map_of tbl x)" for x
    by (induction tbl) auto
  show ?thesis
  proof (cases "k \<in> set (map fst tbl)")
    case True
    then obtain w where "map_of tbl k = Some w" by (metis list.set_map map_of_eq_None_iff not_None_eq)
    with True show ?thesis by (auto simp: table_put_def fun_eq_iff m)
  next
    case False
    then have "map_of tbl k = None" by (simp add: map_of_eq_None_iff)
    with False show ?thesis by (auto simp: table_put_def fun_eq_iff map_add_def split: option.splits)
  qed
qed

text \<open>The handler tables are a property store in the sense of the prelude.\<close>

interpretation table: property_store map_of "\<lambda>tbl k v. table_put k v tbl"
    "\<lambda>tbl k. filter (\<lambda>(k', _). k' \<noteq> k) tbl" "\<lambda>_. True"
proof
  fix tbl k
  show "map_of (filter (\<lambda>(k', _). k' \<noteq> k) tbl) = (map_of tbl)(k := None)"
    by (induction tbl) (auto simp: fun_eq_iff)
qed (simp_all add: map_of_table_put)

lemma merge_handlers_lookup:
  "map_of (merge_handlers compiled_hs registered) = map_of compiled_hs ++ map_of (rev registered)"
  using table.lookup_define_all [of compiled_hs registered]
  by (simp add: merge_handlers_def table.define_all_def)

definition own_handler :: "(string \<times> 's handlers) list \<Rightarrow> string \<Rightarrow> string \<Rightarrow> 's handler option" where
  "own_handler tbl c operation = Option.bind (map_of tbl c) (\<lambda>hs. map_of hs operation)"

text \<open>A hand-written handler is still in place, an own healthcheck too, and the manifests and webhooks
  are kept.\<close>

definition keeps_registered :: "request list registry_input \<Rightarrow> request list registry_input \<Rightarrow> bool" where
  "keeps_registered original out =
     ((\<forall>c operation h. own_handler (in_actions original) c operation = Some h
         \<longrightarrow> own_handler (in_actions out) c operation = Some h)
      \<and> (\<forall>c h. map_of (in_healthchecks original) c = Some h \<longrightarrow> map_of (in_healthchecks out) c = Some h)
      \<and> in_syncs out = in_syncs original \<and> in_webhooks out = in_webhooks original)"

definition distinct_tables :: "request list registry_input \<Rightarrow> bool" where
  "distinct_tables inp = (\<forall>(c, hs) \<in> set (in_actions inp). distinct (map fst hs))"

lemma add_compiled_keeps:
  assumes "keeps_registered original out" and "distinct_tables original"
  shows "keeps_registered original (add_compiled original manifest hs out)"
proof -
  let ?k = "manifest_key manifest"
  let ?out = "add_compiled original manifest hs out"
  have acts: "map_of (in_actions ?out) = (map_of (in_actions out))(?k \<mapsto> merge_handlers hs (table_get (in_actions original) ?k))"
    by (auto simp: add_compiled_def Let_def map_of_table_put split: option.splits)
  have "own_handler (in_actions ?out) c operation = Some h"
    if h: "own_handler (in_actions original) c operation = Some h" for c operation h
  proof (cases "c = ?k")
    case True
    from h obtain own where own: "map_of (in_actions original) c = Some own" "map_of own operation = Some h"
      by (auto simp: own_handler_def bind_eq_Some_conv)
    have "distinct (map fst own)" using assms(2) map_of_SomeD [OF own(1)] by (auto simp: distinct_tables_def)
    then have "map_of (rev own) operation = Some h" using own(2) by (simp add: map_of_rev_distinct)
    with True own(1) show ?thesis
      by (simp add: own_handler_def acts table_get_def merge_handlers_lookup map_add_def)
  next
    case False
    with h assms(1) show ?thesis by (simp add: own_handler_def acts keeps_registered_def)
  qed
  moreover have "map_of (in_healthchecks ?out) c = Some h" if "map_of (in_healthchecks original) c = Some h" for c h
  proof -
    from that assms(1) have o: "map_of (in_healthchecks out) c = Some h" by (simp add: keeps_registered_def)
    then have "has_entry (in_healthchecks out) c" by (auto simp: has_entry_def dest: map_of_SomeD) (metis fst_conv image_eqI map_of_SomeD)
    with o show ?thesis by (auto simp: add_compiled_def Let_def map_of_table_put split: option.splits)
  qed
  moreover have "in_syncs ?out = in_syncs original" "in_webhooks ?out = in_webhooks original"
    using assms(1) by (auto simp: add_compiled_def Let_def keeps_registered_def split: option.splits)
  ultimately show ?thesis by (simp add: keeps_registered_def)
qed

lemma add_compiled_manifests: "in_manifests (add_compiled original manifest hs out) = in_manifests out"
  by (auto simp: add_compiled_def Let_def split: option.splits)

lemma add_all_keeps:
  assumes "add_all pf original ms out = Inr out'" and "keeps_registered original out" and "distinct_tables original"
  shows "keeps_registered original out' \<and> in_manifests out' = in_manifests out"
  using assms
proof (induction ms arbitrary: out)
  case Nil
  then show ?case by simp
next
  case (Cons m ms)
  then show ?case
    using add_compiled_keeps [OF Cons.prems(2,3)] add_compiled_manifests
    by (auto simp: res_simps split: if_splits)
qed

text \<open>hand-written code always wins. Merging the declarative connectors into a registry keeps every
  registered action and healthcheck handler, all registered manifests in front, the syncs and the
  webhooks; and no discovered manifest reuses the key of a registered one.\<close>

theorem withDeclarativeConnectors_precedence:
  assumes "withDeclarativeConnectors pf syntaxError collate dir inp = Inr out" and "distinct_tables inp"
  shows "keeps_registered inp out
    \<and> (\<exists>discovered. in_manifests out = in_manifests inp @ discovered
         \<and> (\<forall>m \<in> set discovered. \<forall>r \<in> set (in_manifests inp). is_record r \<longrightarrow> manifest_key m \<noteq> manifest_key r))"
proof -
  from assms(1) obtain loaded where
    "add_all pf inp (in_manifests inp @ filter (\<lambda>m. manifest_key m \<notin> set (map manifest_key (filter is_record (in_manifests inp)))) loaded)
       (inp\<lparr>in_manifests := in_manifests inp @ filter (\<lambda>m. manifest_key m \<notin> set (map manifest_key (filter is_record (in_manifests inp)))) loaded\<rparr>)
      = Inr out"
    by (auto simp: withDeclarativeConnectors_def Let_def res_simps)
  from add_all_keeps [OF this _ assms(2)] show ?thesis
    by (auto simp: keeps_registered_def)
qed

definition mixed_input :: "request list registry_input" where
  "mixed_input = \<lparr>in_manifests = [gitlab_manifest], in_healthchecks = [],
     in_actions = [(''gitlab'', [(''project.get'', \<lambda>ctx now v s. (s, Inr (Value (unmarked JNull))))])],
     in_syncs = [], in_webhooks = []\<rparr>"

theorem withDeclarativeConnectors_precedence_witness:
  "\<exists>out. withDeclarativeConnectors gitlab_platform id length None mixed_input = Inr out \<and> keeps_registered mixed_input out"
proof -
  have "is_ok (withDeclarativeConnectors gitlab_platform id length None mixed_input)" by code_simp
  then obtain out where o: "withDeclarativeConnectors gitlab_platform id length None mixed_input = Inr out"
    by (auto simp: is_ok_iff)
  have "distinct_tables mixed_input" by (simp add: distinct_tables_def mixed_input_def)
  from withDeclarativeConnectors_precedence [OF o this] o show ?thesis by blast
qed

end
