(* ===== verification/ICalendar.thy ===== *)
theory ICalendar
  imports JsText
begin

text \<open>
  The iCalendar half of \<open>runner/connectors/caldav/src/dav.ts\<close>: date-times, escaping of property values,
  the events the CalDAV connector writes (\<open>buildVEvent\<close>), the merge of an update into a resource of the
  provider (\<open>mergeVEvent\<close>) and the fields it reads back (\<open>parseVEvent\<close>).

  \<^item> \<open>Temporal\<close> belongs to the platform and is a record of functions: which time zones it knows, and
    the UTC fields of an instant given by a text or by local fields and a zone; \<open>None\<close> is a throw.
  \<^item> The inputs are typed: the checks \<open>typeof x !== "string"\<close> of the source have no counterpart.
  \<^item> An array of lines that the source changes in place is passed on and returned.

  The content lines of an event are related to the list of its items, properties with their folded
  continuation lines and everything else (\<open>segment\<close>). Finding, replacing and removing direct
  properties, index arithmetic in the source, are list operations there.
\<close>

abbreviation BS :: char where
  "BS \<equiv> CHR 0x5C"

abbreviation NL :: char where
  "NL \<equiv> CHR 0x0A"

abbreviation CR :: char where
  "CR \<equiv> CHR 0x0D"

abbreviation TAB :: char where
  "TAB \<equiv> CHR 0x09"

section \<open>Date-times\<close>

record datetime =
  dt_year :: nat
  dt_month :: nat
  dt_day :: nat
  dt_hour :: nat
  dt_minute :: nat
  dt_second :: nat

record temporal =
  zone_known :: "string \<Rightarrow> bool"
  instant_from :: "string \<Rightarrow> datetime option"
  zoned_from :: "datetime \<Rightarrow> string \<Rightarrow> datetime option"
  instant_now :: string

definition invalidCalDavDateTime :: thrown where
  "invalidCalDavDateTime = Error ''Invalid CalDAV date-time.''"

definition invalidCalDavTimezone :: thrown where
  "invalidCalDavTimezone = Error ''Invalid CalDAV timezone.''"

text \<open>\<open>\d{n}\<close> at the start of a text.\<close>

definition digits :: "nat \<Rightarrow> string \<Rightarrow> (nat \<times> string) option" where
  "digits n s = (if n \<le> length s \<and> list_all is_digit (take n s) then Some (dec_val (take n s), drop n s) else None)"

definition literal :: "char \<Rightarrow> string \<Rightarrow> string option" where
  "literal c s = (case s of x # xs \<Rightarrow> if x = c then Some xs else None | [] \<Rightarrow> None)"

definition number_after :: "char \<Rightarrow> string \<Rightarrow> (nat \<times> string) option" where
  "number_after c s = Option.bind (literal c s) (digits 2)"

text \<open>What follows the seconds: an optional fraction and an optional offset, which is answered.\<close>

definition iso_offset :: "string \<Rightarrow> bool option" where
  "iso_offset s =
     (if s = [] then Some False
      else if s = ''Z'' then Some True
      else if hd s \<in> set ''+-''
      then Option.bind (digits 2 (tl s)) (\<lambda>(_, r). Option.bind (number_after CHR '':'' r)
             (\<lambda>(_, r). if r = [] then Some True else None))
      else None)"

definition iso_tail :: "string \<Rightarrow> bool option" where
  "iso_tail s =
     (case literal CHR ''.'' s of
        None \<Rightarrow> iso_offset s
      | Some r \<Rightarrow> (let n = length (takeWhile is_digit r) in
                  if 1 \<le> n \<and> n \<le> 9 then iso_offset (drop n r) else None))"

definition STRICT_ISO_DATE_TIME :: "string \<Rightarrow> (datetime \<times> bool) option" where
  "STRICT_ISO_DATE_TIME isoText =
     Option.bind (digits 4 isoText) (\<lambda>(y, r).
     Option.bind (number_after CHR ''-'' r) (\<lambda>(mo, r).
     Option.bind (number_after CHR ''-'' r) (\<lambda>(d, r).
     Option.bind (number_after CHR ''T'' r) (\<lambda>(h, r).
     Option.bind (number_after CHR '':'' r) (\<lambda>(mi, r).
     Option.bind (number_after CHR '':'' r) (\<lambda>(s, r).
     map_option (Pair \<lparr>dt_year = y, dt_month = mo, dt_day = d, dt_hour = h, dt_minute = mi, dt_second = s\<rparr>)
       (iso_tail r)))))))"

definition NUMERIC_TIMEZONE_IDENTIFIER :: "string \<Rightarrow> bool" where
  "NUMERIC_TIMEZONE_IDENTIFIER s =
     (s \<noteq> [] \<and> hd s \<in> set ''+-''
      \<and> (case digits 2 (tl s) of
           None \<Rightarrow> False
         | Some (_, r) \<Rightarrow> r = [] \<or> (case digits 2 (if hd r = CHR '':'' then tl r else r) of
                                     Some (_, r') \<Rightarrow> r' = [] | None \<Rightarrow> False)))"

definition validateCalDavTimezone :: "temporal \<Rightarrow> string \<Rightarrow> unit res" where
  "validateCalDavTimezone tm timezone =
     guard (timezone \<noteq> [] \<and> \<not> NUMERIC_TIMEZONE_IDENTIFIER timezone \<and> zone_known tm timezone) invalidCalDavTimezone"

definition pad_start :: "nat \<Rightarrow> string \<Rightarrow> string" where
  "pad_start n s = replicate (n - length s) CHR ''0'' @ s"

definition padCalDavPart :: "nat \<Rightarrow> string" where
  "padCalDavPart n = pad_start 2 (show_nat n)"

definition formatCalDavInstant :: "datetime \<Rightarrow> string res" where
  "formatCalDavInstant utc =
     sbind (guard (1 \<le> dt_year utc \<and> dt_year utc \<le> 9999) invalidCalDavDateTime) (\<lambda>_.
     Inr (pad_start 4 (show_nat (dt_year utc)) @ padCalDavPart (dt_month utc) @ padCalDavPart (dt_day utc) @ ''T''
          @ padCalDavPart (dt_hour utc) @ padCalDavPart (dt_minute utc) @ padCalDavPart (dt_second utc) @ ''Z''))"

definition toCalDAVDateTime :: "temporal \<Rightarrow> string \<Rightarrow> string option \<Rightarrow> string res" where
  "toCalDAVDateTime tm isoText timezone =
     (case STRICT_ISO_DATE_TIME isoText of
        None \<Rightarrow> Inl invalidCalDavDateTime
      | Some (parts, has_offset) \<Rightarrow>
          sbind (guard (1 \<le> dt_year parts \<and> dt_year parts \<le> 9999 \<and> dt_second parts \<le> 59) invalidCalDavDateTime) (\<lambda>_.
          sbind (case timezone of None \<Rightarrow> Inr () | Some z \<Rightarrow> validateCalDavTimezone tm z) (\<lambda>_.
          case (if has_offset then instant_from tm isoText
                else zoned_from tm parts (case timezone of None \<Rightarrow> ''UTC'' | Some z \<Rightarrow> z)) of
            None \<Rightarrow> Inl invalidCalDavDateTime
          | Some utc \<Rightarrow> formatCalDavInstant utc)))"

section \<open>Property values\<close>

definition unsafe_char :: "char \<Rightarrow> bool" where
  "unsafe_char c = (code c \<le> 8 \<or> code c \<in> {11, 12, 13} \<or> (14 \<le> code c \<and> code c \<le> 31) \<or> code c = 127)"

definition assertSafeText :: "string \<Rightarrow> unit res" where
  "assertSafeText s = guard (\<not> list_ex unsafe_char s)
     (Error ''iCalendar text must not contain line breaks or control characters.'')"

definition escape_text :: "string \<Rightarrow> string" where
  "escape_text s =
     replace_all [NL] [BS, CHR ''n''] (replace_all '';'' [BS, CHR '';''] (replace_all '','' [BS, CHR '','']
       (replace_all [BS] [BS, BS] s)))"

definition foldICalLine :: "string \<Rightarrow> string res" where
  "foldICalLine s = sbind (assertSafeText s) (\<lambda>_. Inr (escape_text s))"

definition unfoldICalLine :: "string \<Rightarrow> string" where
  "unfoldICalLine s =
     replace_all [BS, BS] [BS] (replace_all [BS, CHR '';''] '';'' (replace_all [BS, CHR '',''] '',''
       (replace_all [BS, CHR ''n''] [NL] s)))"

definition address_char :: "char \<Rightarrow> bool" where
  "address_char c = (c \<notin> set ''@<>;,'' \<and> \<not> is_ws c)"

definition normalizeCalendarAddress :: "string \<Rightarrow> string res" where
  "normalizeCalendarAddress s =
     sbind (assertSafeText s) (\<lambda>_.
     let address = (if to_lower (take 7 s) = ''mailto:'' then drop 7 s else s) in
     case split_on CHR ''@'' address of
       [a, b] \<Rightarrow> if a \<noteq> [] \<and> b \<noteq> [] \<and> list_all address_char (a @ b) then Inr address
                else Inl (Error ''attendee must be a valid calendar address.'')
     | _ \<Rightarrow> Inl (Error ''attendee must be a valid calendar address.''))"

record VEventInput =
  ve_uid :: string
  ve_summary :: string
  ve_start :: string
  ve_end :: string
  ve_description :: "string option"
  ve_location :: "string option"
  ve_timezone :: "string option"
  ve_attendees :: "string list option"

definition safe_option :: "string option \<Rightarrow> unit res" where
  "safe_option s = (case s of None \<Rightarrow> Inr () | Some t \<Rightarrow> assertSafeText t)"

definition validateVEventInput :: "VEventInput \<Rightarrow> unit res" where
  "validateVEventInput input =
     sbind (guard (ve_uid input \<noteq> []) (Error ''uid is required'')) (\<lambda>_.
     sbind (assertSafeText (ve_uid input)) (\<lambda>_.
     sbind (guard (CR \<notin> set (ve_uid input) \<and> NL \<notin> set (ve_uid input))
              (Error ''iCalendar UID must not contain line breaks.'')) (\<lambda>_.
     sbind (assertSafeText (ve_summary input)) (\<lambda>_.
     sbind (safe_option (ve_description input)) (\<lambda>_.
     sbind (safe_option (ve_location input)) (\<lambda>_.
     case ve_attendees input of
       None \<Rightarrow> Inr ()
     | Some as \<Rightarrow> for_each (\<lambda>a. sbind (normalizeCalendarAddress a) (\<lambda>_. Inr ())) as))))))"

section \<open>Building an event\<close>

text \<open>\<open>if (input.description)\<close>: an empty text adds no line.\<close>

definition optional_line :: "string \<Rightarrow> string option \<Rightarrow> string list res" where
  "optional_line name s =
     (case s of
        Some (c # cs) \<Rightarrow> sbind (foldICalLine (c # cs)) (\<lambda>v. Inr [name @ '':'' @ v])
      | _ \<Rightarrow> Inr [])"

definition attendee_line :: "string \<Rightarrow> string res" where
  "attendee_line a = sbind (normalizeCalendarAddress a) (\<lambda>address. Inr (''ATTENDEE:mailto:'' @ address))"

definition crlf_text :: "string list \<Rightarrow> string" where
  "crlf_text ls = join [CR, NL] ls @ [CR, NL]"

definition vevent_lines :: "temporal \<Rightarrow> VEventInput \<Rightarrow> string list res" where
  "vevent_lines tm input =
     sbind (validateVEventInput input) (\<lambda>_.
     sbind (toCalDAVDateTime tm (instant_now tm) None) (\<lambda>now.
     sbind (toCalDAVDateTime tm (ve_start input) (ve_timezone input)) (\<lambda>dtstart.
     sbind (toCalDAVDateTime tm (ve_end input) (ve_timezone input)) (\<lambda>dtend.
     sbind (foldICalLine (ve_uid input)) (\<lambda>uid.
     sbind (foldICalLine (ve_summary input)) (\<lambda>summary.
     sbind (optional_line ''DESCRIPTION'' (ve_description input)) (\<lambda>description.
     sbind (optional_line ''LOCATION'' (ve_location input)) (\<lambda>location.
     sbind (case ve_attendees input of None \<Rightarrow> Inr [] | Some as \<Rightarrow> map_res attendee_line as) (\<lambda>attendees.
     Inr ([''BEGIN:VCALENDAR'', ''VERSION:2.0'', ''PRODID:-//CalDAV Connector//EN'', ''CALSCALE:GREGORIAN'', ''BEGIN:VEVENT'',
           ''UID:'' @ uid, ''DTSTAMP:'' @ now, ''DTSTART:'' @ dtstart, ''DTEND:'' @ dtend, ''SUMMARY:'' @ summary]
          @ description @ location @ attendees @ [''END:VEVENT'', ''END:VCALENDAR'']))))))))))"

definition buildVEvent :: "temporal \<Rightarrow> VEventInput \<Rightarrow> string res" where
  "buildVEvent tm input = sbind (vevent_lines tm input) (\<lambda>ls. Inr (crlf_text ls))"

section \<open>Lines and properties\<close>

record ICalProperty =
  ip_name :: string
  ip_prefix :: string
  ip_start :: nat
  ip_end :: nat

definition cannot_update :: "string \<Rightarrow> thrown" where
  "cannot_update reason = Error (''CalDAV event resource cannot be safely updated: '' @ reason)"

definition is_folded :: "string \<Rightarrow> bool" where
  "is_folded line = (starts_with '' '' line \<or> starts_with [TAB] line)"

definition slice :: "nat \<Rightarrow> nat \<Rightarrow> 'a list \<Rightarrow> 'a list" where
  "slice a b xs = take (b - a) (drop a xs)"

text \<open>\<open>xs.splice(a, n, ...ys)\<close>.\<close>

definition js_splice :: "nat \<Rightarrow> nat \<Rightarrow> 'a list \<Rightarrow> 'a list \<Rightarrow> 'a list" where
  "js_splice a n ys xs = take a xs @ ys @ drop (a + n) xs"

definition join_folded :: "string list \<Rightarrow> string" where
  "join_folded ls = (case ls of [] \<Rightarrow> [] | l # rest \<Rightarrow> l @ concat (map (\<lambda>x. if is_folded x then tl x else x) rest))"

definition unfoldICalPropertyLines :: "string list \<Rightarrow> nat \<Rightarrow> nat \<Rightarrow> string" where
  "unfoldICalPropertyLines ls a b = join_folded (slice a b ls)"

fun delimiter_from :: "bool \<Rightarrow> nat \<Rightarrow> string \<Rightarrow> nat option res" where
  "delimiter_from quoted index [] =
     (if quoted then Inl (cannot_update ''malformed quoted parameter.'') else Inr None)"
| "delimiter_from quoted index (c # cs) =
     (if c = CHR 0x22 then delimiter_from (\<not> quoted) (index + 1) cs
      else if c = CHR '':'' \<and> \<not> quoted then Inr (Some index)
      else delimiter_from quoted (index + 1) cs)"

definition findICalValueDelimiter :: "string \<Rightarrow> nat option res" where
  "findICalValueDelimiter line = delimiter_from False 0 line"

text \<open>The upper-case name before the first \<open>;\<close> of a prefix.\<close>

definition prefix_name :: "string \<Rightarrow> string" where
  "prefix_name p = to_upper (hd (split_on CHR '';'' p))"

function properties_from :: "string \<Rightarrow> nat \<Rightarrow> nat \<Rightarrow> string list \<Rightarrow> ICalProperty list res" where
  "properties_from name index depth [] = Inr []"
| "properties_from name index depth (line # rest) =
     (let upper = to_upper line in
      if starts_with ''BEGIN:'' upper then properties_from name (index + 1) (depth + 1) rest
      else if starts_with ''END:'' upper then properties_from name (index + 1) (depth - 1) rest
      else if depth \<noteq> 0 \<or> is_folded line then properties_from name (index + 1) depth rest
      else let folded = takeWhile is_folded rest; n = length folded; unfolded = join_folded (line # folded) in
        sbind (findICalValueDelimiter unfolded) (\<lambda>colon.
          case colon of
            None \<Rightarrow> properties_from name (index + 1) depth rest
          | Some k \<Rightarrow>
              if prefix_name (take k unfolded) \<noteq> name then properties_from name (index + 1) depth rest
              else sbind (properties_from name (index + 1 + n) depth (drop n rest)) (\<lambda>ps.
                     Inr (\<lparr>ip_name = name, ip_prefix = take k unfolded, ip_start = index, ip_end = index + 1 + n\<rparr> # ps))))"
  by pat_completeness auto
termination
  by (relation "measure (\<lambda>(_, _, _, ls). length ls)") auto

declare properties_from.simps(2) [simp del]

definition directPropertiesInBlock :: "string list \<Rightarrow> string \<Rightarrow> ICalProperty list res" where
  "directPropertiesInBlock ls name = properties_from name 0 0 ls"

definition first_of :: "'a list \<Rightarrow> 'a option" where
  "first_of xs = (case xs of [] \<Rightarrow> None | x # _ \<Rightarrow> Some x)"

definition directPropertyInBlock :: "string list \<Rightarrow> string \<Rightarrow> ICalProperty option res" where
  "directPropertyInBlock ls name = sbind (directPropertiesInBlock ls name) (\<lambda>ps. Inr (first_of ps))"

definition directProperties :: "string list \<Rightarrow> nat \<times> nat \<Rightarrow> string \<Rightarrow> ICalProperty list res" where
  "directProperties ls event name =
     sbind (directPropertiesInBlock (slice (fst event + 1) (snd event) ls) name) (\<lambda>ps.
     Inr (map (\<lambda>p. p\<lparr>ip_start := ip_start p + fst event + 1, ip_end := ip_end p + fst event + 1\<rparr>) ps))"

definition directProperty :: "string list \<Rightarrow> nat \<times> nat \<Rightarrow> string \<Rightarrow> ICalProperty option res" where
  "directProperty ls event name = sbind (directProperties ls event name) (\<lambda>ps. Inr (first_of ps))"

definition directPropertyValue :: "string list \<Rightarrow> nat \<times> nat \<Rightarrow> string \<Rightarrow> string option res" where
  "directPropertyValue ls event name =
     sbind (directProperty ls event name) (\<lambda>p.
     case p of
       None \<Rightarrow> Inr None
     | Some p \<Rightarrow>
         (let unfolded = unfoldICalPropertyLines ls (ip_start p) (ip_end p) in
          sbind (findICalValueDelimiter unfolded) (\<lambda>colon.
          Inr (map_option (\<lambda>k. unfoldICalLine (drop (k + 1) unfolded)) colon))))"

section \<open>Changing a block of lines\<close>

text \<open>\<open>xs.findIndex(p)\<close>.\<close>

fun find_index :: "('a \<Rightarrow> bool) \<Rightarrow> 'a list \<Rightarrow> nat option" where
  "find_index p [] = None"
| "find_index p (x # xs) = (if p x then Some 0 else map_option Suc (find_index p xs))"

definition is_begin :: "string \<Rightarrow> bool" where
  "is_begin line = starts_with ''BEGIN:'' (to_upper line)"

definition is_end :: "string \<Rightarrow> bool" where
  "is_end line = starts_with ''END:'' (to_upper line)"

definition insertBeforeEnd :: "string list \<Rightarrow> string \<Rightarrow> string list" where
  "insertBeforeEnd ls line =
     js_splice (case find_index is_begin ls of None \<Rightarrow> length ls | Some i \<Rightarrow> i) 0 [line] ls"

definition replaceDirectProperty :: "string \<Rightarrow> string \<Rightarrow> bool \<Rightarrow> string list \<Rightarrow> string list res" where
  "replaceDirectProperty name v replacePrefix ls =
     sbind (directPropertyInBlock ls name) (\<lambda>p.
     case p of
       Some p \<Rightarrow> Inr (js_splice (ip_start p) (ip_end p - ip_start p)
                       [(if replacePrefix then name else ip_prefix p) @ '':'' @ v] ls)
     | None \<Rightarrow> Inr (insertBeforeEnd ls (name @ '':'' @ v)))"

lemma properties_from_bounds:
  "properties_from name index depth ls = Inr ps \<Longrightarrow> p \<in> set ps
   \<Longrightarrow> index \<le> ip_start p \<and> ip_start p < ip_end p \<and> ip_end p \<le> index + length ls"
proof (induction name index depth ls arbitrary: ps rule: properties_from.induct)
  case (2 name index depth line rest)
  have "length (takeWhile is_folded rest) \<le> length rest" by (rule length_takeWhile_le)
  then show ?case
    using 2 by (fastforce simp: properties_from.simps Let_def res_simps split: if_splits option.splits)
qed simp

lemma directPropertyInBlock_shrinks:
  assumes "directPropertyInBlock ls name = Inr (Some p)"
  shows "length (js_splice (ip_start p) (ip_end p - ip_start p) [] ls) < length ls"
proof -
  obtain ps where "directPropertiesInBlock ls name = Inr ps" "first_of ps = Some p"
    using assms by (auto simp: directPropertyInBlock_def res_simps)
  then have "ip_start p < ip_end p \<and> ip_end p \<le> length ls"
    using properties_from_bounds [of name 0 0 ls ps p]
    by (auto simp: directPropertiesInBlock_def first_of_def split: list.splits)
  then show ?thesis by (auto simp: js_splice_def)
qed

function removeDirectProperties :: "string \<Rightarrow> string list \<Rightarrow> string list res" where
  "removeDirectProperties name ls =
     (case directPropertyInBlock ls name of
        Inl e \<Rightarrow> Inl e
      | Inr None \<Rightarrow> Inr ls
      | Inr (Some p) \<Rightarrow> removeDirectProperties name (js_splice (ip_start p) (ip_end p - ip_start p) [] ls))"
  by pat_completeness auto
termination
  by (relation "measure (\<lambda>(_, ls). length ls)") (auto intro: directPropertyInBlock_shrinks)

declare removeDirectProperties.simps [simp del]

section \<open>The calendar around an event\<close>

definition normalize_breaks :: "string \<Rightarrow> string" where
  "normalize_breaks s = replace_all [CR] [NL] (replace_all [CR, NL] [NL] s)"

definition splitCalendarLines :: "string \<Rightarrow> string list res" where
  "splitCalendarLines calendarData =
     sbind (guard (calendarData \<noteq> []) (cannot_update ''calendar data is empty.'')) (\<lambda>_.
     let all = split_on NL (normalize_breaks calendarData);
         ls = (if last all = [] then butlast all else all)
     in if length ls < 4 \<or> to_upper (hd ls) \<noteq> ''BEGIN:VCALENDAR'' \<or> to_upper (last ls) \<noteq> ''END:VCALENDAR''
        then Inl (cannot_update ''unsupported calendar structure.'')
        else Inr ls)"

fun ranges_from :: "nat \<Rightarrow> nat option \<Rightarrow> string list \<Rightarrow> (nat \<times> nat) list res" where
  "ranges_from index a [] =
     (if a \<noteq> None then Inl (cannot_update ''VEVENT is missing or incomplete.'') else Inr [])"
| "ranges_from index a (line # rest) =
     (if to_upper line = ''BEGIN:VEVENT''
      then (if a \<noteq> None then Inl (cannot_update ''nested VEVENT.'') else ranges_from (index + 1) (Some index) rest)
      else if to_upper line = ''END:VEVENT''
      then (case a of
              None \<Rightarrow> Inl (cannot_update ''unmatched END:VEVENT.'')
            | Some i \<Rightarrow> sbind (ranges_from (index + 1) None rest) (\<lambda>rs. Inr ((i, index) # rs)))
      else ranges_from (index + 1) a rest)"

definition findVEventRanges :: "string list \<Rightarrow> (nat \<times> nat) list res" where
  "findVEventRanges ls =
     sbind (ranges_from 0 None ls) (\<lambda>rs.
     sbind (guard (rs \<noteq> []) (cannot_update ''VEVENT is missing or incomplete.'')) (\<lambda>_. Inr rs))"

text \<open>\<open>/^BEGIN:([^:;]+)$/i\<close> and its counterpart for END: the upper-case component name.\<close>

definition component_name :: "string \<Rightarrow> string \<Rightarrow> string option" where
  "component_name keyword line =
     (let n = length keyword; rest = drop n line in
      if to_upper (take n line) = keyword \<and> rest \<noteq> [] \<and> CHR '':'' \<notin> set rest \<and> CHR '';'' \<notin> set rest
      then Some (to_upper rest) else None)"

fun nesting_from :: "string list \<Rightarrow> string list \<Rightarrow> unit res" where
  "nesting_from stack [] = guard (stack = []) (cannot_update ''malformed component nesting.'')"
| "nesting_from stack (line # rest) =
     (case component_name ''BEGIN:'' line of
        Some c \<Rightarrow> nesting_from (c # stack) rest
      | None \<Rightarrow>
          (case component_name ''END:'' line of
             None \<Rightarrow> nesting_from stack rest
           | Some c \<Rightarrow>
               (case stack of
                  [] \<Rightarrow> Inl (cannot_update ''malformed component nesting.'')
                | expected # stack' \<Rightarrow>
                    if expected \<noteq> c then Inl (cannot_update ''malformed component nesting.'')
                    else nesting_from stack' rest)))"

definition validateComponentNesting :: "string list \<Rightarrow> unit res" where
  "validateComponentNesting ls = nesting_from [] ls"

section \<open>Merging an update\<close>

definition single_uid :: "string list \<Rightarrow> nat \<times> nat \<Rightarrow> unit res" where
  "single_uid ls event =
     sbind (directProperties ls event ''UID'') (\<lambda>ps.
     guard (length ps = 1) (cannot_update ''VEVENT UID is missing or duplicated.''))"

fun filter_res :: "('a \<Rightarrow> bool res) \<Rightarrow> 'a list \<Rightarrow> 'a list res" where
  "filter_res f [] = Inr []"
| "filter_res f (x # xs) = sbind (f x) (\<lambda>b. sbind (filter_res f xs) (\<lambda>ys. Inr (if b then x # ys else ys)))"

definition masterEvents :: "string list \<Rightarrow> string \<Rightarrow> (nat \<times> nat) list \<Rightarrow> (nat \<times> nat) list res" where
  "masterEvents ls uid events =
     sbind (filter_res (\<lambda>event. sbind (directPropertyValue ls event ''UID'') (\<lambda>v. Inr (v = Some uid))) events) (\<lambda>matching.
     filter_res (\<lambda>event. sbind (directProperty ls event ''RECURRENCE-ID'') (\<lambda>p. Inr (p = None))) matching)"

definition replace_option :: "string \<Rightarrow> string option \<Rightarrow> string list \<Rightarrow> string list res" where
  "replace_option name s ls =
     (case s of None \<Rightarrow> Inr ls | Some t \<Rightarrow> sbind (foldICalLine t) (\<lambda>v. replaceDirectProperty name v False ls))"

definition replace_attendees :: "string list option \<Rightarrow> string list \<Rightarrow> string list res" where
  "replace_attendees attendees ls =
     (case attendees of
        None \<Rightarrow> Inr ls
      | Some as \<Rightarrow>
          sbind (removeDirectProperties ''ATTENDEE'' ls) (\<lambda>ls'.
          sbind (map_res attendee_line as) (\<lambda>added. Inr (foldl insertBeforeEnd ls' added))))"

definition merge_block :: "VEventInput \<Rightarrow> string \<Rightarrow> string \<Rightarrow> string list \<Rightarrow> string list res" where
  "merge_block input dtstart dtend ls =
     sbind (foldICalLine (ve_summary input)) (\<lambda>summary.
     sbind (replaceDirectProperty ''SUMMARY'' summary False ls) (\<lambda>ls.
     sbind (replaceDirectProperty ''DTSTART'' dtstart True ls) (\<lambda>ls.
     sbind (removeDirectProperties ''DURATION'' ls) (\<lambda>ls.
     sbind (replaceDirectProperty ''DTEND'' dtend True ls) (\<lambda>ls.
     sbind (replace_option ''DESCRIPTION'' (ve_description input) ls) (\<lambda>ls.
     sbind (replace_option ''LOCATION'' (ve_location input) ls) (\<lambda>ls.
     replace_attendees (ve_attendees input) ls)))))))"

definition mergeVEvent :: "temporal \<Rightarrow> string \<Rightarrow> VEventInput \<Rightarrow> string res" where
  "mergeVEvent tm calendarData input =
     sbind (validateVEventInput input) (\<lambda>_.
     sbind (toCalDAVDateTime tm (ve_start input) (ve_timezone input)) (\<lambda>dtstart.
     sbind (toCalDAVDateTime tm (ve_end input) (ve_timezone input)) (\<lambda>dtend.
     sbind (splitCalendarLines calendarData) (\<lambda>ls.
     sbind (validateComponentNesting ls) (\<lambda>_.
     sbind (findVEventRanges ls) (\<lambda>events.
     sbind (for_each (single_uid ls) events) (\<lambda>_.
     sbind (masterEvents ls (ve_uid input) events) (\<lambda>masters.
     case masters of
       [event] \<Rightarrow>
         sbind (merge_block input dtstart dtend (slice (fst event + 1) (snd event) ls)) (\<lambda>eventLines.
         Inr (crlf_text (js_splice (fst event + 1) (snd event - fst event - 1) eventLines ls)))
     | _ \<Rightarrow> Inl (cannot_update ''matching master VEVENT is missing or ambiguous.'')))))))))"

section \<open>Reading an event\<close>

record ParsedVEvent =
  pe_uid :: "string option"
  pe_summary :: "string option"
  pe_start :: "string option"
  pe_end :: "string option"
  pe_location :: "string option"
  pe_description :: "string option"

definition event_range :: "string list \<Rightarrow> (nat \<times> nat) option" where
  "event_range ls =
     (case find_index (\<lambda>line. to_upper line = ''BEGIN:VEVENT'') ls of
        None \<Rightarrow> None
      | Some a \<Rightarrow> map_option (\<lambda>i. (a, a + 1 + i)) (find_index (\<lambda>line. to_upper line = ''END:VEVENT'') (drop (a + 1) ls)))"

definition get_field :: "string list \<Rightarrow> string \<Rightarrow> string option res" where
  "get_field ls name = (case event_range ls of None \<Rightarrow> Inr None | Some event \<Rightarrow> directPropertyValue ls event name)"

definition parseVEvent :: "string \<Rightarrow> ParsedVEvent res" where
  "parseVEvent icsData =
     (let ls = split_on NL (normalize_breaks icsData) in
      sbind (get_field ls ''UID'') (\<lambda>uid.
      sbind (get_field ls ''SUMMARY'') (\<lambda>summary.
      sbind (get_field ls ''DTSTART'') (\<lambda>dtstart.
      sbind (get_field ls ''DTEND'') (\<lambda>dtend.
      sbind (get_field ls ''LOCATION'') (\<lambda>location.
      sbind (get_field ls ''DESCRIPTION'') (\<lambda>description.
      Inr \<lparr>pe_uid = uid, pe_summary = summary, pe_start = dtstart, pe_end = dtend,
           pe_location = location, pe_description = description\<rparr>)))))))"

section \<open>Escaping\<close>

lemma replace_by_text_Cons:
  "replace_by (text_match old) new prev (c # cs) =
     (if old \<noteq> [] \<and> starts_with old (c # cs)
      then new @ replace_by (text_match old) new (Some ((c # cs) ! (length old - 1))) (drop (length old) (c # cs))
      else c # replace_by (text_match old) new (Some c) cs)"
  by (subst replace_by.simps) (auto simp: text_match_def Let_def starts_with_def split: if_splits dest: arg_cong [where f = length])

lemma replace_by_text_prev: "replace_by (text_match old) new prev s = replace_all old new s"
  by (cases s) (simp_all add: replace_all_def replace_by_text_Cons)

lemma replace_all_Nil [simp]: "replace_all old new [] = []"
  by (simp add: replace_all_def)

lemma replace_all_match: "old \<noteq> [] \<Longrightarrow> replace_all old new (old @ s) = new @ replace_all old new s"
proof -
  assume "old \<noteq> []"
  then obtain c cs where old: "old = c # cs" by (cases old) auto
  have "replace_all old new (old @ s) = replace_by (text_match old) new None (c # cs @ s)"
    by (simp add: replace_all_def old)
  also have "\<dots> = new @ replace_all old new s"
    by (subst replace_by_text_Cons) (simp add: old starts_with_def replace_by_text_prev)
  finally show ?thesis .
qed

lemma replace_all_skip: "\<not> starts_with old (c # s) \<Longrightarrow> replace_all old new (c # s) = c # replace_all old new s"
  by (simp add: replace_all_def replace_by_text_Cons) (simp add: replace_by_text_prev flip: replace_all_def)

lemma replace_all_char: "replace_all [x] new s = concat (map (\<lambda>c. if c = x then new else [c]) s)"
proof (induction s)
  case (Cons c s)
  then show ?case
    using replace_all_match [of "[x]" new s] by (cases "c = x") (simp_all add: replace_all_skip starts_with_def)
qed simp

lemma replace_all_pair:
  "replace_all [x, y] new (x # y # s) = new @ replace_all [x, y] new s"
  "c \<noteq> x \<Longrightarrow> replace_all [x, y] new (c # s) = c # replace_all [x, y] new s"
  "d \<noteq> y \<Longrightarrow> replace_all [x, y] new (x # d # s) = x # replace_all [x, y] new (d # s)"
  "replace_all [x, y] new [x] = [x]"
  using replace_all_match [of "[x, y]" new s] by (simp_all add: replace_all_skip starts_with_def)

definition escape_char :: "char \<Rightarrow> string" where
  "escape_char c = (if c \<in> {BS, CHR '','', CHR '';''} then [BS, c] else if c = NL then [BS, CHR ''n''] else [c])"

lemma concat_map_concat: "concat (map f (concat xs)) = concat (map (\<lambda>x. concat (map f x)) xs)"
  by (induction xs) auto

lemma escape_text_eq: "escape_text s = concat (map escape_char s)"
  by (induction s) (auto simp: escape_text_def replace_all_char escape_char_def)

text \<open>
  The text the unescaping steps have produced so far: a backslash before \<open>n\<close> has already become a
  line break, the characters \<open>f\<close> maps to a pair are still escaped.
\<close>

fun half_unescaped :: "(char \<Rightarrow> string) \<Rightarrow> string \<Rightarrow> string" where
  "half_unescaped f [] = []"
| "half_unescaped f [c] = f c"
| "half_unescaped f (c # d # s) =
     (if c = BS \<and> d = CHR ''n'' then BS # NL # half_unescaped f s else f c @ half_unescaped f (d # s))"

text \<open>What reading back an escaped text gives: a line break for every \<open>n\<close> after a backslash.\<close>

fun break_after_backslash :: "string \<Rightarrow> string" where
  "break_after_backslash [] = []"
| "break_after_backslash [c] = [c]"
| "break_after_backslash (c # d # s) =
     (if c = BS \<and> d = CHR ''n'' then BS # NL # break_after_backslash s else c # break_after_backslash (d # s))"

definition partly_escaped :: "(char \<Rightarrow> string) \<Rightarrow> bool" where
  "partly_escaped f = (f BS = [BS, BS] \<and> (\<forall>c. c \<noteq> BS \<longrightarrow> f c = [c] \<or> f c = [BS, c] \<and> c \<in> {CHR '','', CHR '';''}))"

lemma partly_escapedD:
  assumes "partly_escaped f"
  shows "f BS = [BS, BS]" and "c \<noteq> BS \<Longrightarrow> f c = [c] \<or> f c = [BS, c]"
    and "c \<notin> {BS, CHR '','', CHR '';''} \<Longrightarrow> f c = [c]"
  using assms unfolding partly_escaped_def by blast+

lemma replace_all_pair_skip:
  "t = [] \<or> hd t \<noteq> y \<Longrightarrow> replace_all [x, y] new (x # t) = x # replace_all [x, y] new t"
  by (cases t) (auto simp: replace_all_pair)

lemma hd_escape: "d \<noteq> CHR ''n'' \<Longrightarrow> hd (concat (map escape_char (d # s))) \<noteq> CHR ''n''"
  by (simp add: escape_char_def)

lemma unescape_breaks:
  "replace_all [BS, CHR ''n''] [NL] (concat (map escape_char s))
     = half_unescaped (\<lambda>c. if c \<in> {BS, CHR '','', CHR '';''} then [BS, c] else [c]) s"
proof (induction s rule: induct_list012)
  case (3 c d s)
  consider "c = BS" "d = CHR ''n''" | "c = BS" "d \<noteq> CHR ''n''" | "c \<noteq> BS" by blast
  then show ?case
  proof cases
    case 1
    then show ?thesis using 3 by (simp add: escape_char_def replace_all_pair)
  next
    case 2
    then have "hd (concat (map escape_char (d # s))) \<noteq> CHR ''n''" using hd_escape by blast
    then have "replace_all [BS, CHR ''n''] [NL] (BS # BS # concat (map escape_char (d # s)))
        = BS # BS # replace_all [BS, CHR ''n''] [NL] (concat (map escape_char (d # s)))"
      by (subst replace_all_pair_skip, simp) (subst replace_all_pair_skip, simp_all)
    moreover have "concat (map escape_char (c # d # s)) = BS # BS # concat (map escape_char (d # s))"
      using 2 by (simp add: escape_char_def [of BS])
    ultimately show ?thesis using 2 "3.IH"(2) by (simp only:) simp
  next
    case 3
    then show ?thesis using "3.IH"(2) by (auto simp: escape_char_def [of c] replace_all_pair)
  qed
qed (simp_all add: escape_char_def replace_all_pair)

lemma hd_half_unescaped:
  assumes "partly_escaped f"
  shows "hd (half_unescaped f (d # s)) = BS \<or> hd (half_unescaped f (d # s)) = d \<and> f d = [d]"
proof -
  have "f d = [BS, BS] \<and> d = BS \<or> f d = [d] \<or> f d = [BS, d]"
    using partly_escapedD(1) [OF assms] partly_escapedD(2) [OF assms, of d] by (cases "d = BS") simp_all
  then show ?thesis by (cases s) auto
qed

lemma unescape_special:
  assumes f: "partly_escaped f" and x: "f x = [BS, x]" "x \<in> {CHR '','', CHR '';''}"
  shows "replace_all [BS, x] [x] (half_unescaped f s) = half_unescaped (f(x := [x])) s"
proof (induction s rule: induct_list012)
  case (2 c)
  have "BS \<noteq> x" using x by auto
  moreover have "c = BS \<or> c = x \<or> f c = [c] \<and> c \<noteq> BS \<or> f c = [BS, c] \<and> c \<noteq> x \<and> c \<noteq> BS"
    using partly_escapedD(2) [OF f, of c] by blast
  ultimately show ?case using partly_escapedD(1) [OF f] x(1) by (auto simp: replace_all_pair)
next
  case (3 c d s)
  let ?t = "half_unescaped f (d # s)"
  have bs: "BS \<noteq> x" "NL \<noteq> x" using x by auto
  have hd: "hd ?t \<noteq> x" using hd_half_unescaped [OF f, of d s] x(1) bs by auto
  consider "c = BS" "d = CHR ''n''" | "c = BS" "d \<noteq> CHR ''n''" | "c = x" | "c \<noteq> BS" "c \<noteq> x" by blast
  then show ?case
  proof cases
    case 1
    then show ?thesis using 3 bs by (simp add: replace_all_pair)
  next
    case 2
    then have "half_unescaped f (c # d # s) = BS # BS # ?t" using partly_escapedD(1) [OF f] by simp
    moreover have "replace_all [BS, x] [x] (BS # BS # ?t) = BS # BS # replace_all [BS, x] [x] ?t"
      using hd bs by (subst replace_all_pair_skip, simp) (subst replace_all_pair_skip, auto)
    ultimately show ?thesis using 2 3 partly_escapedD(1) [OF f] bs by simp
  next
    case 3
    then show ?thesis using "3.IH"(2) x(1) bs by (simp add: replace_all_pair)
  next
    case 4
    then show ?thesis using partly_escapedD(2) [OF f, of c] "3.IH"(2) bs by (auto simp: replace_all_pair)
  qed
qed simp

lemma unescape_backslash:
  "replace_all [BS, BS] [BS] (half_unescaped (\<lambda>c. if c = BS then [BS, BS] else [c]) s) = break_after_backslash s"
  by (induction s rule: induct_list012) (auto simp: replace_all_pair)

lemma unfold_escape: "unfoldICalLine (escape_text s) = break_after_backslash s"
proof -
  let ?f = "\<lambda>c. if c \<in> {BS, CHR '','', CHR '';''} then [BS, c] else [c]"
  have "partly_escaped ?f" and "partly_escaped (?f(CHR '','' := '',''))" by (auto simp: partly_escaped_def)
  then have "replace_all [BS, CHR '';''] '';'' (replace_all [BS, CHR '',''] '','' (half_unescaped ?f s))
      = half_unescaped (?f(CHR '','' := '','', CHR '';'' := '';'')) s"
    by (simp add: unescape_special)
  moreover have "?f(CHR '','' := '','', CHR '';'' := '';'') = (\<lambda>c. if c = BS then [BS, BS] else [c])" by auto
  ultimately show ?thesis
    by (simp add: unfoldICalLine_def escape_text_eq unescape_breaks unescape_backslash)
qed

lemma break_after_backslash_id: "break_after_backslash s = s \<longleftrightarrow> \<not> sublist [BS, CHR ''n''] s"
proof (induction s rule: induct_list012)
  case (3 c d s)
  then show ?case by (auto simp: sublist_Cons_right)
qed (auto simp: sublist_Cons_right)

text \<open>An escaped text holds no line break, and unescaping leaves a text without backslashes alone.\<close>

lemma escape_no_breaks:
  assumes "\<not> list_ex unsafe_char s"
  shows "NL \<notin> set (escape_text s)" and "CR \<notin> set (escape_text s)"
proof -
  have "CR \<notin> set s" using assms by (auto simp: list_ex_iff unsafe_char_def code_def)
  then show "NL \<notin> set (escape_text s)" and "CR \<notin> set (escape_text s)"
    by (auto simp: escape_text_eq escape_char_def split: if_splits)
qed

lemma unfold_no_backslash: "BS \<notin> set s \<Longrightarrow> unfoldICalLine s = s"
proof -
  have "replace_all [BS, y] new t = t" if "BS \<notin> set t" for y new t
    using that by (induction t) (auto simp: replace_all_pair)
  then show "BS \<notin> set s \<Longrightarrow> unfoldICalLine s = s" by (simp add: unfoldICalLine_def)
qed

section \<open>Items of a block\<close>

lemma sbind_assoc: "sbind (sbind r f) g = sbind r (\<lambda>a. sbind (f a) g)"
  by (cases r) simp_all

datatype item = Property string string "string list" | Other "string list"

primrec item_lines :: "item \<Rightarrow> string list" where
  "item_lines (Property n p ls) = ls"
| "item_lines (Other ls) = ls"

abbreviation flat :: "item list \<Rightarrow> string list" where
  "flat its \<equiv> concat (map item_lines its)"

function segment :: "nat \<Rightarrow> string list \<Rightarrow> item list res" where
  "segment depth [] = Inr []"
| "segment depth (line # rest) =
     (if is_begin line then sbind (segment (depth + 1) rest) (\<lambda>its. Inr (Other [line] # its))
      else if is_end line then sbind (segment (depth - 1) rest) (\<lambda>its. Inr (Other [line] # its))
      else if depth \<noteq> 0 \<or> is_folded line then sbind (segment depth rest) (\<lambda>its. Inr (Other [line] # its))
      else let folded = takeWhile is_folded rest; unfolded = join_folded (line # folded) in
        sbind (findICalValueDelimiter unfolded) (\<lambda>colon.
        sbind (segment depth (drop (length folded) rest)) (\<lambda>its.
        Inr ((case colon of None \<Rightarrow> Other (line # folded)
              | Some k \<Rightarrow> Property (prefix_name (take k unfolded)) (take k unfolded) (line # folded)) # its))))"
  by pat_completeness auto
termination
  by (relation "measure (\<lambda>(_, ls). length ls)") auto

declare segment.simps(2) [simp del]

fun positions :: "string \<Rightarrow> nat \<Rightarrow> item list \<Rightarrow> ICalProperty list" where
  "positions name index [] = []"
| "positions name index (Other ls # its) = positions name (index + length ls) its"
| "positions name index (Property n p ls # its) =
     (if n = name then [\<lparr>ip_name = name, ip_prefix = p, ip_start = index, ip_end = index + length ls\<rparr>] else [])
     @ positions name (index + length ls) its"

lemma is_folded_not_marker:
  assumes "is_folded x"
  shows "\<not> is_begin x" and "\<not> is_end x"
proof -
  obtain c cs where x: "x = c # cs" "c = CHR '' '' \<or> c = TAB"
    using assms by (cases x) (auto simp: is_folded_def starts_with_def)
  then have "to_upper x = c # to_upper cs"
    by (auto simp: to_upper_def upper_char_def is_lower_def code_def)
  with x(2) show "\<not> is_begin x" and "\<not> is_end x" by (auto simp: is_begin_def is_end_def starts_with_def)
qed

lemma properties_from_folded:
  "list_all is_folded fs \<Longrightarrow> properties_from name index 0 (fs @ ls) = properties_from name (index + length fs) 0 ls"
proof (induction fs arbitrary: index)
  case (Cons f fs)
  then show ?case
    using is_folded_not_marker [of f] by (simp add: properties_from.simps(2) Let_def is_begin_def is_end_def)
qed simp

lemma properties_from_rest:
  "properties_from name index 0 rest
     = properties_from name (index + length (takeWhile is_folded rest)) 0 (drop (length (takeWhile is_folded rest)) rest)"
  using properties_from_folded [of "takeWhile is_folded rest" name index "dropWhile is_folded rest"]
  by (simp add: dropWhile_eq_drop [symmetric] list_all_iff) (meson set_takeWhileD)

text \<open>Finding properties by index is selecting items by name.\<close>

lemma properties_from_segment:
  "properties_from name index depth ls = sbind (segment depth ls) (\<lambda>its. Inr (positions name index its))"
proof (induction depth ls arbitrary: index rule: segment.induct)
  case (2 depth line rest)
  let ?fs = "takeWhile is_folded rest"
  let ?d = "findICalValueDelimiter (join_folded (line # ?fs))"
  note marks = is_begin_def [symmetric] is_end_def [symmetric]
  show ?case
  proof (cases "is_begin line \<or> is_end line \<or> depth \<noteq> 0 \<or> is_folded line")
    case True
    with 2 show ?thesis
      by (auto simp: properties_from.simps(2) segment.simps(2) Let_def marks sbind_assoc)
  next
    case False
    have rest: "properties_from name i 0 rest
        = sbind (segment 0 (drop (length ?fs) rest)) (\<lambda>its. Inr (positions name (i + length ?fs) its))" for i
      using 2 False by (subst properties_from_rest) simp
    have tail: "properties_from name i 0 (drop (length ?fs) rest)
        = sbind (segment 0 (drop (length ?fs) rest)) (\<lambda>its. Inr (positions name i its))" for i
      using 2 False by simp
    show ?thesis
    proof (cases ?d)
      case (Inr colon)
      with False show ?thesis
        by (cases colon) (simp_all add: properties_from.simps(2) segment.simps(2) Let_def marks sbind_assoc rest tail)
    qed (use False in \<open>simp add: properties_from.simps(2) segment.simps(2) Let_def marks\<close>)
  qed
qed simp

lemma directPropertyInBlock_segment:
  "directPropertyInBlock ls name = sbind (segment 0 ls) (\<lambda>its. Inr (first_of (positions name 0 its)))"
  by (simp add: directPropertyInBlock_def directPropertiesInBlock_def properties_from_segment sbind_assoc)

text \<open>The lists of items that \<open>segment\<close> answers.\<close>

definition marker :: "nat \<Rightarrow> string \<Rightarrow> bool" where
  "marker depth line = (is_begin line \<or> is_end line \<or> depth \<noteq> 0 \<or> is_folded line)"

fun item_ok :: "nat \<Rightarrow> item \<Rightarrow> bool" where
  "item_ok depth (Property n p ls) =
     (ls \<noteq> [] \<and> \<not> marker depth (hd ls) \<and> list_all is_folded (tl ls)
      \<and> findICalValueDelimiter (join_folded ls) = Inr (Some (length p))
      \<and> take (length p) (join_folded ls) = p \<and> n = prefix_name p)"
| "item_ok depth (Other ls) =
     (ls \<noteq> [] \<and> (if marker depth (hd ls) then tl ls = []
                 else list_all is_folded (tl ls) \<and> findICalValueDelimiter (join_folded ls) = Inr None))"

definition depth_after :: "nat \<Rightarrow> string \<Rightarrow> nat" where
  "depth_after depth line = (if is_begin line then depth + 1 else if is_end line then depth - 1 else depth)"

definition fresh :: "string list \<Rightarrow> bool" where
  "fresh ls = (ls = [] \<or> \<not> is_folded (hd ls))"

primrec tidy :: "nat \<Rightarrow> item list \<Rightarrow> bool" where
  "tidy depth [] = True"
| "tidy depth (x # its) =
     (item_ok depth x \<and> (marker depth (hd (item_lines x)) \<or> fresh (flat its))
      \<and> tidy (depth_after depth (hd (item_lines x))) its)"

lemma delimiter_from_bound: "delimiter_from q i s = Inr (Some k) \<Longrightarrow> i \<le> k \<and> k < i + length s"
  by (induction q i s rule: delimiter_from.induct) (auto split: if_splits)

lemma fresh_drop: "fresh (drop (length (takeWhile is_folded rest)) rest)"
  using hd_dropWhile [of is_folded rest] unfolding fresh_def dropWhile_eq_drop [symmetric] by blast

lemma segment_tidy: "segment depth ls = Inr its \<Longrightarrow> tidy depth its \<and> flat its = ls"
proof (induction depth ls arbitrary: its rule: segment.induct)
  case (2 depth line rest)
  let ?fs = "takeWhile is_folded rest"
  show ?case
  proof (cases "marker depth line")
    case True
    with 2 show ?thesis
      by (auto simp: segment.simps(2) Let_def marker_def depth_after_def res_simps split: if_splits)
  next
    case False
    then obtain colon its' where d: "findICalValueDelimiter (join_folded (line # ?fs)) = Inr colon"
        and s: "segment depth (drop (length ?fs) rest) = Inr its'"
        and its: "its = (case colon of None \<Rightarrow> Other (line # ?fs)
              | Some k \<Rightarrow> Property (prefix_name (take k (join_folded (line # ?fs)))) (take k (join_folded (line # ?fs)))
                  (line # ?fs)) # its'"
      using "2.prems" by (auto simp: segment.simps(2) Let_def marker_def res_simps)
    have IH: "tidy depth its' \<and> flat its' = drop (length ?fs) rest"
      using "2.IH"(4) [OF _ _ _ refl refl s] False by (simp add: marker_def)
    have "list_all is_folded ?fs" by (simp add: list_all_iff) (meson set_takeWhileD)
    moreover have "?fs @ drop (length ?fs) rest = rest" by (metis takeWhile_eq_take append_take_drop_id)
    ultimately show ?thesis
      using IH False d fresh_drop [of rest]
      by (cases colon) (auto simp: its marker_def depth_after_def findICalValueDelimiter_def
          dest: delimiter_from_bound)
  qed
qed simp

lemma takeWhile_folded: "list_all is_folded fs \<Longrightarrow> fresh ls \<Longrightarrow> takeWhile is_folded (fs @ ls) = fs"
  by (induction fs) (auto simp: fresh_def takeWhile_eq_Nil_iff)

lemma tidy_segment: "tidy depth its \<Longrightarrow> segment depth (flat its) = Inr its"
proof (induction its arbitrary: depth)
  case (Cons x its)
  let ?d = "depth_after depth (hd (item_lines x))"
  from Cons have ok: "item_ok depth x" and IH: "segment ?d (flat its) = Inr its"
    and fr: "marker depth (hd (item_lines x)) \<or> fresh (flat its)" by auto
  obtain l fs where ls: "item_lines x = l # fs" using ok by (cases x; cases "item_lines x") auto
  show ?case
  proof (cases "marker depth l")
    case True
    then have "x = Other [l]" using ok ls by (cases x) (auto simp: neq_Nil_conv)
    with True IH ls show ?thesis by (auto simp: segment.simps(2) marker_def depth_after_def)
  next
    case False
    then have "takeWhile is_folded (fs @ flat its) = fs" using takeWhile_folded fr ok ls by (cases x) auto
    with False IH ok ls show ?thesis
      by (cases x) (auto simp: segment.simps(2) marker_def depth_after_def)
  qed
qed simp

lemma item_lines_not_Nil: "item_ok depth x \<Longrightarrow> item_lines x \<noteq> []"
  by (cases x) auto

lemma item_lines_tl: "item_ok depth x \<Longrightarrow> list_all is_folded (tl (item_lines x))"
  by (cases x) (auto split: if_splits)

fun named :: "string \<Rightarrow> item \<Rightarrow> bool" where
  "named name (Property n p ls) = (n = name)"
| "named name (Other ls) = False"

text \<open>The operations of the source on items.\<close>

definition new_property :: "string \<Rightarrow> string \<Rightarrow> string \<Rightarrow> item" where
  "new_property name p v = Property name p [p @ '':'' @ v]"

fun put_first :: "string \<Rightarrow> (string \<Rightarrow> item) \<Rightarrow> item list \<Rightarrow> item list" where
  "put_first name f [] = []"
| "put_first name f (Other ls # its) = Other ls # put_first name f its"
| "put_first name f (Property n p ls # its) =
     (if n = name then f p # its else Property n p ls # put_first name f its)"

definition begin_item :: "item \<Rightarrow> bool" where
  "begin_item x = is_begin (hd (item_lines x))"

fun insert_item :: "item \<Rightarrow> item list \<Rightarrow> item list" where
  "insert_item x [] = [x]"
| "insert_item x (y # its) = (if begin_item y then x # y # its else y # insert_item x its)"

definition set_property :: "string \<Rightarrow> string \<Rightarrow> bool \<Rightarrow> item list \<Rightarrow> item list" where
  "set_property name v replacePrefix its =
     (if list_ex (named name) its
      then put_first name (\<lambda>p. new_property name (if replacePrefix then name else p) v) its
      else insert_item (new_property name name v) its)"

definition drop_property :: "string \<Rightarrow> item list \<Rightarrow> item list" where
  "drop_property name its = filter (\<lambda>x. \<not> named name x) its"

lemma first_position_None: "first_of (positions name i its) = None \<longleftrightarrow> \<not> list_ex (named name) its"
  by (induction name i its rule: positions.induct) (auto simp: first_of_def split: list.splits)

lemma first_position_Some:
  assumes "first_of (positions name i its) = Some p"
  obtains pre ls post where "its = pre @ Property name (ip_prefix p) ls # post" and "\<not> list_ex (named name) pre"
    and "ip_start p = i + length (flat pre)" and "ip_end p = ip_start p + length ls"
  using assms
proof (induction name i its arbitrary: thesis rule: positions.induct)
  case (2 name i ls its)
  show ?case
  proof (rule "2.IH")
    fix pre ms post
    assume a: "its = pre @ Property name (ip_prefix p) ms # post" "\<not> list_ex (named name) pre"
      "ip_start p = i + length ls + length (flat pre)" "ip_end p = ip_start p + length ms"
    show thesis by (rule "2.prems"(1) [of "Other ls # pre" ms post]) (use a in auto)
  qed (use "2.prems" in simp)
next
  case (3 name i n q ls its)
  show ?case
  proof (cases "n = name")
    case True
    then show ?thesis using "3.prems"(2) by (intro "3.prems"(1) [of "[]" ls its]) (auto simp: first_of_def)
  next
    case False
    show ?thesis
    proof (rule "3.IH")
      fix pre ms post
      assume a: "its = pre @ Property name (ip_prefix p) ms # post" "\<not> list_ex (named name) pre"
        "ip_start p = i + length ls + length (flat pre)" "ip_end p = ip_start p + length ms"
      show thesis by (rule "3.prems"(1) [of "Property n q ls # pre" ms post]) (use a False in auto)
    qed (use "3.prems" False in simp)
  qed
qed (simp add: first_of_def)

lemma put_first_append:
  "\<not> list_ex (named name) pre \<Longrightarrow> put_first name f (pre @ Property name p ls # post) = pre @ f p # post"
  by (induction name f pre rule: put_first.induct) auto

lemma splice_middle: "js_splice (length xs) (length ys) zs (xs @ ys @ ws) = xs @ zs @ ws"
  by (simp add: js_splice_def)

lemma insert_index:
  "tidy depth its \<Longrightarrow> js_splice (case find_index is_begin (flat its) of None \<Rightarrow> length (flat its) | Some i \<Rightarrow> i) 0 (item_lines x) (flat its)
     = flat (insert_item x its)"
proof (induction its arbitrary: depth)
  case (Cons y its)
  let ?at = "\<lambda>ls. case find_index is_begin ls of None \<Rightarrow> length ls | Some i \<Rightarrow> i"
  obtain l fs where ls: "item_lines y = l # fs" using Cons.prems item_lines_not_Nil by (cases "item_lines y") auto
  show ?case
  proof (cases "is_begin l")
    case False
    have "list_all is_folded fs" using Cons.prems item_lines_tl [of depth y] ls by simp
    then have "?at (fs @ flat its) = length fs + ?at (flat its)"
      by (induction fs) (auto simp: is_folded_not_marker split: option.splits)
    with False have "?at (flat (y # its)) = length (item_lines y) + ?at (flat its)"
      using ls by (auto split: option.splits)
    moreover have "js_splice (?at (flat its)) 0 (item_lines x) (flat its) = flat (insert_item x its)"
      using Cons by auto
    ultimately show ?thesis using False ls by (simp add: js_splice_def begin_item_def)
  qed (use ls in \<open>simp add: js_splice_def begin_item_def\<close>)
qed (simp add: js_splice_def)

lemma fresh_flat_Cons: "item_ok depth x \<Longrightarrow> fresh (flat (x # its)) \<longleftrightarrow> \<not> is_folded (hd (item_lines x))"
  using item_lines_not_Nil [of depth x] by (auto simp: fresh_def)

lemma tidy_insert:
  "tidy 0 its \<Longrightarrow> item_ok 0 (Property n p ls)
   \<Longrightarrow> tidy 0 (insert_item (Property n p ls) its)
     \<and> (fresh (flat its) \<longrightarrow> fresh (flat (insert_item (Property n p ls) its)))"
proof (induction its)
  case (Cons y its)
  have x: "\<not> is_folded (hd ls)" "depth_after 0 (hd ls) = 0" "ls \<noteq> []"
    using Cons.prems(2) by (auto simp: marker_def depth_after_def)
  have y: "item_lines y \<noteq> []" using Cons.prems item_lines_not_Nil [of 0 y] by simp
  show ?case
  proof (cases "begin_item y")
    case True
    then have "\<not> is_folded (hd (item_lines y))"
      using is_folded_not_marker(1) begin_item_def by blast
    then have "fresh (flat (y # its))" using y by (simp add: fresh_def)
    with True Cons.prems x show ?thesis by (simp add: fresh_def)
  next
    case False
    then have "depth_after 0 (hd (item_lines y)) = 0" by (simp add: depth_after_def begin_item_def)
    with False Cons x y show ?thesis by (auto simp: fresh_def)
  qed
qed (auto simp: fresh_def marker_def)

lemma tidy_replace:
  "tidy depth (pre @ Property n p ls # post) \<Longrightarrow> item_ok 0 (Property n' p' ls')
   \<Longrightarrow> tidy depth (pre @ Property n' p' ls' # post)"
proof (induction pre arbitrary: depth)
  case Nil
  then show ?case by (auto simp: marker_def depth_after_def)
next
  case (Cons y pre)
  have "fresh (flat (pre @ Property n' p' ls' # post))" if "fresh (flat (pre @ Property n p ls # post))"
  proof (cases pre)
    case Nil
    then show ?thesis using Cons.prems(2) by (simp add: fresh_def marker_def)
  next
    case (Cons z zs)
    then have "item_lines z \<noteq> []" using Cons.prems(1) item_lines_not_Nil by auto
    then show ?thesis using that Cons by (simp add: fresh_def)
  qed
  with Cons show ?case by auto
qed

lemma tidy_remove:
  "tidy depth (pre @ Property n p ls # post) \<Longrightarrow> tidy depth (pre @ post)"
proof (induction pre arbitrary: depth)
  case Nil
  then show ?case by (auto simp: marker_def depth_after_def)
next
  case (Cons y pre)
  have "fresh (flat (pre @ post))" if "fresh (flat (pre @ Property n p ls # post))"
  proof (cases pre)
    case Nil
    then show ?thesis using Cons.prems by auto
  next
    case (Cons z zs)
    then have "item_lines z \<noteq> []" using Cons.prems item_lines_not_Nil by auto
    then show ?thesis using that Cons by (simp add: fresh_def)
  qed
  with Cons show ?case by auto
qed

lemma tidy_item_ok: "tidy depth its \<Longrightarrow> Property n p ls \<in> set its \<Longrightarrow> item_ok 0 (Property n p ls)"
  by (induction its arbitrary: depth) (auto simp: marker_def)

section \<open>Names the connector writes\<close>

definition managed_names :: "string list" where
  "managed_names = [''SUMMARY'', ''DTSTART'', ''DURATION'', ''DTEND'', ''DESCRIPTION'', ''LOCATION'', ''ATTENDEE'']"

definition plain_name :: "string \<Rightarrow> bool" where
  "plain_name name = (name \<noteq> [] \<and> hd name \<notin> set ''BE'' \<and> prefix_name name = name
     \<and> CHR '':'' \<notin> set name \<and> CHR 0x22 \<notin> set name \<and> hd name \<noteq> CHR '' '' \<and> hd name \<noteq> TAB)"

lemma delimiter_from_take:
  "delimiter_from q i s = Inr (Some k) \<Longrightarrow> delimiter_from q i (take (k - i) s @ CHR '':'' # v) = Inr (Some k)"
proof (induction q i s rule: delimiter_from.induct)
  case (2 q i c cs)
  show ?case
  proof (cases "c \<noteq> CHR 0x22 \<and> c = CHR '':'' \<and> \<not> q")
    case False
    then have "delimiter_from (if c = CHR 0x22 then \<not> q else q) (i + 1) cs = Inr (Some k)"
      using "2.prems" by (auto split: if_splits)
    moreover from this have "i + 1 \<le> k" using delimiter_from_bound by blast
    moreover from this have "k - i = Suc (k - (i + 1))" by simp
    ultimately show ?thesis using 2 False by (auto split: if_splits)
  qed (use 2 in auto)
qed (auto split: if_splits)

lemma delimiter_from_plain:
  "CHR '':'' \<notin> set p \<Longrightarrow> CHR 0x22 \<notin> set p \<Longrightarrow> delimiter_from False i (p @ CHR '':'' # v) = Inr (Some (i + length p))"
  by (induction p arbitrary: i) auto

lemma to_upper_Cons: "to_upper (c # s) = (if code c = 223 then ''SS'' else [upper_char c]) @ to_upper s"
  by (simp add: to_upper_def)

lemma prefix_name_not_marker:
  assumes "prefix_name p = name" and "plain_name name"
  shows "\<not> marker 0 (p @ v)"
proof -
  have ne: "to_upper (hd (split_on CHR '';'' p)) \<noteq> []" using assms by (simp add: prefix_name_def plain_name_def)
  then obtain c cs where p: "p = c # cs" by (cases p) (auto simp: to_upper_def)
  have c: "c \<noteq> CHR '';''" using ne p by (auto simp: to_upper_def)
  then obtain w where w: "hd (split_on CHR '';'' p) = c # w"
    using p by (cases "split_on CHR '';'' cs") auto
  have u: "hd (to_upper (c # s)) = hd name" for s
    using assms(1) w by (auto simp: prefix_name_def to_upper_Cons)
  have "c \<noteq> CHR '' ''" "c \<noteq> TAB"
    using u [of "[]"] assms(2) by (auto simp: plain_name_def to_upper_Cons upper_char_def is_lower_def code_def)
  moreover have nb: "\<not> starts_with (b # bs) (to_upper (p @ v))" if "b \<in> set ''BE''" for b bs
    using that u [of "cs @ v"] assms(2) p by (auto simp: plain_name_def starts_with_def to_upper_Cons split: if_splits)
  ultimately show ?thesis
    using p nb [of "CHR ''B''" "''EGIN:''"] nb [of "CHR ''E''" "''ND:''"]
    by (simp add: marker_def is_begin_def is_end_def is_folded_def) (simp add: starts_with_def)
qed

lemma new_property_ok:
  assumes "plain_name name" and "prefix_name p = name"
    and "findICalValueDelimiter (p @ '':'' @ v) = Inr (Some (length p))"
  shows "item_ok 0 (new_property name p v)"
  using assms prefix_name_not_marker [of p name "'':'' @ v"] by (simp add: new_property_def join_folded_def)

lemma new_plain_ok: "plain_name name \<Longrightarrow> item_ok 0 (new_property name name v)"
  by (rule new_property_ok) (auto simp: plain_name_def findICalValueDelimiter_def delimiter_from_plain)

lemma new_kept_ok:
  assumes "plain_name name" and "item_ok 0 (Property name p ls)"
  shows "item_ok 0 (new_property name p v)"
proof (rule new_property_ok)
  show "findICalValueDelimiter (p @ '':'' @ v) = Inr (Some (length p))"
    using assms(2) delimiter_from_take [of False 0 "join_folded ls" "length p" v]
    by (simp add: findICalValueDelimiter_def)
qed (use assms in auto)

section \<open>Edits\<close>

datatype edit = Put string string bool | Drop string | Append string string

primrec edit_name :: "edit \<Rightarrow> string" where
  "edit_name (Put n v r) = n"
| "edit_name (Drop n) = n"
| "edit_name (Append n v) = n"

primrec edit_items :: "edit \<Rightarrow> item list \<Rightarrow> item list" where
  "edit_items (Put n v r) its = set_property n v r its"
| "edit_items (Drop n) its = drop_property n its"
| "edit_items (Append n v) its = insert_item (new_property n n v) its"

text \<open>
  What an update needs of a block of properties: its content as items, and operations that change the
  content as the edits say.
\<close>

locale property_block =
  fixes content :: "'b \<Rightarrow> item list \<Rightarrow> bool"
    and put :: "string \<Rightarrow> string \<Rightarrow> bool \<Rightarrow> 'b \<Rightarrow> 'b res"
    and remove :: "string \<Rightarrow> 'b \<Rightarrow> 'b res"
    and append :: "'b \<Rightarrow> string \<Rightarrow> string \<Rightarrow> 'b"
  assumes put_law: "content b its \<Longrightarrow> plain_name n \<Longrightarrow> \<exists>b'. put n v r b = Inr b' \<and> content b' (set_property n v r its)"
    and remove_law: "content b its \<Longrightarrow> \<exists>b'. remove n b = Inr b' \<and> content b' (drop_property n its)"
    and append_law: "content b its \<Longrightarrow> plain_name n \<Longrightarrow> content (append b n v) (insert_item (new_property n n v) its)"
begin

primrec edit_block :: "edit \<Rightarrow> 'b \<Rightarrow> 'b res" where
  "edit_block (Put n v r) b = put n v r b"
| "edit_block (Drop n) b = remove n b"
| "edit_block (Append n v) b = Inr (append b n v)"

primrec edit_all :: "edit list \<Rightarrow> 'b \<Rightarrow> 'b res" where
  "edit_all [] b = Inr b"
| "edit_all (e # es) b = sbind (edit_block e b) (edit_all es)"

lemma edit_block_content:
  "content b its \<Longrightarrow> plain_name (edit_name e) \<Longrightarrow> \<exists>b'. edit_block e b = Inr b' \<and> content b' (edit_items e its)"
  by (cases e) (auto intro: put_law remove_law append_law)

lemma edit_all_content:
  "content b its \<Longrightarrow> list_all (\<lambda>e. plain_name (edit_name e)) es
   \<Longrightarrow> \<exists>b'. edit_all es b = Inr b' \<and> content b' (fold edit_items es its)"
proof (induction es arbitrary: b its)
  case (Cons e es)
  then obtain b1 where "edit_block e b = Inr b1" "content b1 (edit_items e its)"
    using edit_block_content [of b its e] by auto
  with Cons show ?case by simp
qed simp

lemma edit_all_append: "edit_all (es @ fs) b = sbind (edit_all es b) (edit_all fs)"
proof (induction es arbitrary: b)
  case (Cons e es)
  then show ?case by (cases "edit_block e b") simp_all
qed simp

end

lemma tidy_insert_new:
  "tidy 0 its \<Longrightarrow> item_ok 0 (new_property n p v) \<Longrightarrow> tidy 0 (insert_item (new_property n p v) its)"
  unfolding new_property_def using tidy_insert by blast

lemma insertBeforeEnd_items:
  assumes "segment 0 ls = Inr its" and "plain_name n"
  shows "segment 0 (insertBeforeEnd ls (n @ '':'' @ v)) = Inr (insert_item (new_property n n v) its)"
proof -
  have t: "tidy 0 its" "flat its = ls" using segment_tidy [OF assms(1)] by auto
  have "insertBeforeEnd ls (n @ '':'' @ v) = flat (insert_item (new_property n n v) its)"
    using insert_index [OF t(1), of "new_property n n v"] unfolding t(2) [symmetric]
    by (simp add: insertBeforeEnd_def new_property_def)
  then show ?thesis using tidy_segment [OF tidy_insert_new [OF t(1) new_plain_ok [OF assms(2)]]] by simp
qed

lemma replaceDirectProperty_items:
  assumes s: "segment 0 ls = Inr its" and n: "plain_name name"
  shows "\<exists>ls'. replaceDirectProperty name v r ls = Inr ls' \<and> segment 0 ls' = Inr (set_property name v r its)"
proof -
  have t: "tidy 0 its" "flat its = ls" using segment_tidy [OF s] by auto
  show ?thesis
  proof (cases "first_of (positions name 0 its)")
    case None
    then have "\<not> list_ex (named name) its" by (simp add: first_position_None)
    with None show ?thesis
      using insertBeforeEnd_items [OF s n, of v]
      by (simp add: replaceDirectProperty_def directPropertyInBlock_segment s set_property_def)
  next
    case (Some p)
    then obtain pre ms post where its: "its = pre @ Property name (ip_prefix p) ms # post"
        and pre: "\<not> list_ex (named name) pre"
        and p: "ip_start p = length (flat pre)" "ip_end p = ip_start p + length ms"
      by (rule first_position_Some) simp
    let ?q = "if r then name else ip_prefix p"
    let ?new = "pre @ new_property name ?q v # post"
    have "item_ok 0 (new_property name ?q v)"
      using new_plain_ok [OF n] new_kept_ok [OF n tidy_item_ok [OF t(1)], of "ip_prefix p" ms] its by simp
    then have "tidy 0 ?new" using t(1) unfolding its new_property_def by (metis tidy_replace)
    moreover have "set_property name v r its = ?new"
      using pre by (simp add: set_property_def its put_first_append)
    moreover have "replaceDirectProperty name v r ls = Inr (flat ?new)"
      using Some p t(2) its splice_middle [of "flat pre" ms "[?q @ '':'' @ v]" "flat post"]
      by (simp add: replaceDirectProperty_def directPropertyInBlock_segment s new_property_def)
    ultimately show ?thesis using tidy_segment [of 0 ?new] by metis
  qed
qed

lemma removeDirectProperties_items:
  "segment 0 ls = Inr its
   \<Longrightarrow> \<exists>ls'. removeDirectProperties name ls = Inr ls' \<and> segment 0 ls' = Inr (drop_property name its)"
proof (induction name ls arbitrary: its rule: removeDirectProperties.induct)
  case (1 name ls)
  have t: "tidy 0 its" "flat its = ls" using segment_tidy [OF "1.prems"] by auto
  show ?case
  proof (cases "first_of (positions name 0 its)")
    case None
    then have "drop_property name its = its"
      by (simp add: first_position_None drop_property_def filter_id_conv list_ex_iff)
    with None "1.prems" show ?thesis
      by (simp add: removeDirectProperties.simps [of name ls] directPropertyInBlock_segment)
  next
    case (Some p)
    then obtain pre ms post where its: "its = pre @ Property name (ip_prefix p) ms # post"
        and p: "ip_start p = length (flat pre)" "ip_end p = ip_start p + length ms"
      by (rule first_position_Some) simp
    let ?ls = "js_splice (ip_start p) (ip_end p - ip_start p) [] ls"
    have dp: "directPropertyInBlock ls name = Inr (Some p)"
      using Some "1.prems" by (simp add: directPropertyInBlock_segment)
    have "?ls = flat (pre @ post)" using p t(2) its splice_middle [of "flat pre" ms "[]" "flat post"] by simp
    moreover have "tidy 0 (pre @ post)" using tidy_remove t(1) its by simp
    ultimately have "segment 0 ?ls = Inr (pre @ post)" using tidy_segment by metis
    moreover have "drop_property name (pre @ post) = drop_property name its" by (simp add: drop_property_def its)
    ultimately show ?thesis
      using "1.IH" [OF dp refl] dp by (simp add: removeDirectProperties.simps [of name ls])
  qed
qed

definition append_property :: "string list \<Rightarrow> string \<Rightarrow> string \<Rightarrow> string list" where
  "append_property ls n v = insertBeforeEnd ls (n @ '':'' @ v)"

interpretation block: property_block "\<lambda>ls its. segment 0 ls = Inr its" replaceDirectProperty removeDirectProperties
    append_property
  by unfold_locales
     (auto simp: append_property_def intro: replaceDirectProperty_items removeDirectProperties_items
       insertBeforeEnd_items [simplified])

section \<open>Lines of a text\<close>

definition clean :: "string list \<Rightarrow> bool" where
  "clean ls = list_all (\<lambda>l. CR \<notin> set l \<and> NL \<notin> set l) ls"

lemma clean_simps [simp]:
  "clean []" "clean (l # ls) \<longleftrightarrow> (CR \<notin> set l \<and> NL \<notin> set l) \<and> clean ls" "clean (ls @ ms) \<longleftrightarrow> clean ls \<and> clean ms"
  by (simp_all add: clean_def)

lemma clean_subset: "clean ls \<Longrightarrow> set ms \<subseteq> set ls \<Longrightarrow> clean ms"
  unfolding clean_def list_all_iff by blast

lemma crlf_text_eq: "ls \<noteq> [] \<Longrightarrow> crlf_text ls = concat (map (\<lambda>l. l @ [CR, NL]) ls)"
proof (induction ls rule: induct_list012)
  case (3 l m ls)
  then show ?case by (simp add: crlf_text_def)
qed (simp_all add: crlf_text_def)

lemma replace_all_pair_prefix: "x \<notin> set l \<Longrightarrow> replace_all [x, y] new (l @ t) = l @ replace_all [x, y] new t"
  by (induction l) (auto simp: replace_all_pair)

lemma normalize_crlf:
  assumes "clean ls"
  shows "normalize_breaks (concat (map (\<lambda>l. l @ [CR, NL]) ls)) = concat (map (\<lambda>l. l @ [NL]) ls)"
proof -
  have "replace_all [CR, NL] [NL] (concat (map (\<lambda>l. l @ [CR, NL]) ls)) = concat (map (\<lambda>l. l @ [NL]) ls)"
    using assms by (induction ls) (simp_all add: replace_all_pair_prefix replace_all_pair)
  moreover have "concat (map (\<lambda>c. if c = x then new else [c]) s) = s" if "x \<notin> set s" for x new and s :: string
    using that by (induction s) auto
  moreover have "CR \<notin> set (concat (map (\<lambda>l. l @ [NL]) ls))" using assms by (induction ls) auto
  ultimately show ?thesis by (simp add: normalize_breaks_def replace_all_char)
qed

lemma split_on_line: "c \<notin> set l \<Longrightarrow> split_on c (l @ c # s) = l # split_on c s"
  by (induction l) auto

lemma split_crlf_text:
  assumes "clean ls" and "ls \<noteq> []"
  shows "split_on NL (normalize_breaks (crlf_text ls)) = ls @ [[]]"
proof -
  have "split_on NL (concat (map (\<lambda>l. l @ [NL]) ls)) = ls @ [[]]"
    using assms(1) by (induction ls) (simp_all add: split_on_line)
  then show ?thesis using assms by (simp add: crlf_text_eq normalize_crlf)
qed

lemma splitCalendarLines_crlf:
  assumes "clean ls" and "4 \<le> length ls" and "to_upper (hd ls) = ''BEGIN:VCALENDAR''"
    and "to_upper (last ls) = ''END:VCALENDAR''"
  shows "splitCalendarLines (crlf_text ls) = Inr ls"
proof -
  have "ls \<noteq> []" "crlf_text ls \<noteq> []" using assms(2) by (auto simp: crlf_text_def)
  then show ?thesis using assms by (simp add: splitCalendarLines_def split_crlf_text Let_def)
qed

lemma split_on_chars: "l \<in> set (split_on c s) \<Longrightarrow> set l \<subseteq> set s"
  by (induction s arbitrary: l) (fastforce split: list.splits if_splits)+

lemma split_normalized_clean: "clean (split_on NL (normalize_breaks s))"
proof -
  have "CR \<notin> set (normalize_breaks s)"
    by (auto simp: normalize_breaks_def replace_all_char split: if_splits)
  then have "CR \<notin> set l" if "l \<in> set (split_on NL (normalize_breaks s))" for l
    using that split_on_chars by blast
  then show ?thesis using split_on_no_sep by (auto simp: clean_def list_all_iff)
qed

lemma splitCalendarLines_clean:
  assumes "splitCalendarLines s = Inr ls"
  shows "clean ls" and "4 \<le> length ls" and "to_upper (hd ls) = ''BEGIN:VCALENDAR''"
    and "to_upper (last ls) = ''END:VCALENDAR''"
proof -
  have "set ls \<subseteq> set (split_on NL (normalize_breaks s))"
    using assms in_set_butlastD by (fastforce simp: splitCalendarLines_def Let_def res_simps split: if_splits)
  then show "clean ls" using clean_subset split_normalized_clean by blast
qed (use assms in \<open>auto simp: splitCalendarLines_def Let_def res_simps split: if_splits\<close>)

lemma ranges_from_bounds:
  "ranges_from index a ls = Inr rs \<Longrightarrow> (i, j) \<in> set rs \<Longrightarrow> (\<forall>k. a = Some k \<longrightarrow> k < index)
   \<Longrightarrow> i < j \<and> j < index + length ls"
proof (induction index a ls arbitrary: rs rule: ranges_from.induct)
  case (2 index a line rest)
  then show ?case
    by (cases a) (fastforce simp: res_simps split: if_splits)+
qed (auto split: if_splits)

section \<open>The edits of a merge\<close>

definition address_of :: "string \<Rightarrow> string" where
  "address_of a = (if to_lower (take 7 a) = ''mailto:'' then drop 7 a else a)"

lemma normalizeCalendarAddress_Inr:
  assumes "normalizeCalendarAddress a = Inr x"
  shows "x = address_of a \<and> \<not> list_ex unsafe_char a \<and> NL \<notin> set x"
proof -
  have x: "x = address_of a" and safe: "\<not> list_ex unsafe_char a"
    using assms
    by (auto simp: normalizeCalendarAddress_def address_of_def assertSafeText_def Let_def res_simps
        split: list.splits if_splits)
  obtain p q where s: "split_on CHR ''@'' x = [p, q]" and ok: "list_all address_char (p @ q)"
    using assms by (auto simp: normalizeCalendarAddress_def Let_def res_simps split: list.splits if_splits)
  have "x = p @ CHR ''@'' # q" using join_split_on [of "CHR ''@''" x] s by simp
  moreover have "\<not> address_char NL" by (simp add: address_char_def is_ws_def code_def)
  ultimately show ?thesis using x safe ok by (auto simp: list_all_iff)
qed

definition merge_edits :: "VEventInput \<Rightarrow> string \<Rightarrow> string \<Rightarrow> edit list" where
  "merge_edits input dtstart dtend =
     [Put ''SUMMARY'' (escape_text (ve_summary input)) False, Put ''DTSTART'' dtstart True, Drop ''DURATION'',
      Put ''DTEND'' dtend True]
     @ (case ve_description input of None \<Rightarrow> [] | Some t \<Rightarrow> [Put ''DESCRIPTION'' (escape_text t) False])
     @ (case ve_location input of None \<Rightarrow> [] | Some t \<Rightarrow> [Put ''LOCATION'' (escape_text t) False])
     @ (case ve_attendees input of None \<Rightarrow> []
        | Some as \<Rightarrow> Drop ''ATTENDEE'' # map (\<lambda>a. Append ''ATTENDEE'' (''mailto:'' @ address_of a)) as)"

lemma valid_texts:
  assumes "validateVEventInput input = Inr u"
  shows "ve_uid input \<noteq> []" "\<not> list_ex unsafe_char (ve_uid input)" "\<not> list_ex unsafe_char (ve_summary input)"
    and "ve_description input = Some t \<Longrightarrow> \<not> list_ex unsafe_char t"
    and "ve_location input = Some t \<Longrightarrow> \<not> list_ex unsafe_char t"
    and "ve_attendees input = Some as \<Longrightarrow> a \<in> set as \<Longrightarrow> normalizeCalendarAddress a = Inr (address_of a)"
proof -
  show "ve_uid input \<noteq> []" "\<not> list_ex unsafe_char (ve_uid input)" "\<not> list_ex unsafe_char (ve_summary input)"
    and "ve_description input = Some t \<Longrightarrow> \<not> list_ex unsafe_char t"
    and "ve_location input = Some t \<Longrightarrow> \<not> list_ex unsafe_char t"
    using assms by (auto simp: validateVEventInput_def assertSafeText_def safe_option_def res_simps)
  assume "ve_attendees input = Some as" and "a \<in> set as"
  then obtain x where "normalizeCalendarAddress a = Inr x"
    using assms by (auto simp: validateVEventInput_def res_simps)
  with normalizeCalendarAddress_Inr [OF this] show "normalizeCalendarAddress a = Inr (address_of a)" by simp
qed

lemma foldICalLine_safe: "\<not> list_ex unsafe_char s \<Longrightarrow> foldICalLine s = Inr (escape_text s)"
  by (simp add: foldICalLine_def assertSafeText_def)

lemma append_all:
  "block.edit_all (map (\<lambda>a. Append n (f a)) as) ls = Inr (foldl insertBeforeEnd ls (map (\<lambda>a. n @ '':'' @ f a) as))"
  by (induction as arbitrary: ls) (simp_all add: append_property_def)

lemma map_res_attendees:
  "(\<And>a. a \<in> set as \<Longrightarrow> normalizeCalendarAddress a = Inr (address_of a))
   \<Longrightarrow> map_res attendee_line as = Inr (map (\<lambda>a. ''ATTENDEE:mailto:'' @ address_of a) as)"
  by (induction as) (simp_all add: attendee_line_def)

lemma merge_block_edits:
  assumes v: "validateVEventInput input = Inr u"
  shows "merge_block input dtstart dtend ls = block.edit_all (merge_edits input dtstart dtend) ls"
proof -
  have opt: "replace_option n t = block.edit_all (case t of None \<Rightarrow> [] | Some t \<Rightarrow> [Put n (escape_text t) False])"
    if "\<And>x. t = Some x \<Longrightarrow> \<not> list_ex unsafe_char x" for n t
  proof
    fix ls
    show "replace_option n t ls = block.edit_all (case t of None \<Rightarrow> [] | Some t \<Rightarrow> [Put n (escape_text t) False]) ls"
    proof (cases t)
      case (Some x)
      then show ?thesis
        using that by (cases "replaceDirectProperty n (escape_text x) False ls")
          (simp_all add: replace_option_def foldICalLine_safe)
    qed (simp add: replace_option_def)
  qed
  have att: "replace_attendees (ve_attendees input) = block.edit_all (case ve_attendees input of None \<Rightarrow> []
        | Some as \<Rightarrow> Drop ''ATTENDEE'' # map (\<lambda>a. Append ''ATTENDEE'' (''mailto:'' @ address_of a)) as)"
  proof
    fix ls
    show "replace_attendees (ve_attendees input) ls = block.edit_all (case ve_attendees input of None \<Rightarrow> []
        | Some as \<Rightarrow> Drop ''ATTENDEE'' # map (\<lambda>a. Append ''ATTENDEE'' (''mailto:'' @ address_of a)) as) ls"
    proof (cases "ve_attendees input")
      case (Some as)
      then show ?thesis
        using valid_texts(6) [OF v Some]
        by (cases "removeDirectProperties ''ATTENDEE'' ls")
           (simp_all add: replace_attendees_def map_res_attendees append_all)
    qed (simp add: replace_attendees_def)
  qed
  have run: "block.edit_all (e # es) = (\<lambda>b. sbind (block.edit_block e b) (block.edit_all es))"
      "block.edit_all (es @ fs) = (\<lambda>b. sbind (block.edit_all es b) (block.edit_all fs))" for e es fs
    by (simp_all add: fun_eq_iff block.edit_all_append)
  show ?thesis
    using valid_texts(3-5) [OF v]
    by (simp add: merge_block_def merge_edits_def foldICalLine_safe opt att run)
qed

section \<open>What edits keep and what they set\<close>

definition managed :: "item \<Rightarrow> bool" where
  "managed x = list_ex (\<lambda>n. named n x) managed_names"

primrec item_value :: "item \<Rightarrow> string" where
  "item_value (Property n p ls) = unfoldICalLine (drop (Suc (length p)) (join_folded ls))"
| "item_value (Other ls) = []"

definition property_values :: "string \<Rightarrow> item list \<Rightarrow> string list" where
  "property_values name its = map item_value (filter (named name) its)"

lemma named_new [simp]: "named m (new_property n p v) \<longleftrightarrow> n = m"
  by (simp add: new_property_def)

lemma item_value_new [simp]: "item_value (new_property n p v) = unfoldICalLine v"
  by (simp add: new_property_def join_folded_def)

lemma filter_put_first:
  "(\<And>p ls. \<not> P (Property name p ls)) \<Longrightarrow> (\<And>p. \<not> P (f p)) \<Longrightarrow> filter P (put_first name f its) = filter P its"
  by (induction name f its rule: put_first.induct) auto

lemma filter_insert_item: "\<not> P x \<Longrightarrow> filter P (insert_item x its) = filter P its"
  by (induction x its rule: insert_item.induct) auto

lemma filter_edit:
  assumes "\<And>x. P x \<Longrightarrow> \<not> named (edit_name e) x"
  shows "filter P (edit_items e its) = filter P its"
proof (cases e)
  case (Put n v r)
  have "\<not> P (new_property n p v)" "\<not> P (Property n p ls)" for p ls using assms Put by fastforce+
  then show ?thesis using Put by (simp add: set_property_def filter_put_first filter_insert_item)
next
  case (Drop n)
  then show ?thesis using assms by (auto simp: drop_property_def intro!: filter_cong)
next
  case (Append n v)
  have "\<not> P (new_property n n v)" using assms Append by fastforce
  then show ?thesis using Append by (simp add: filter_insert_item)
qed

lemma filter_edits:
  "(\<And>e x. e \<in> set es \<Longrightarrow> P x \<Longrightarrow> \<not> named (edit_name e) x) \<Longrightarrow> filter P (fold edit_items es its) = filter P its"
  by (induction es arbitrary: its) (simp_all add: filter_edit)

lemma property_values_other:
  "(\<And>e. e \<in> set es \<Longrightarrow> edit_name e \<noteq> m) \<Longrightarrow> property_values m (fold edit_items es its) = property_values m its"
proof -
  have "named m x \<Longrightarrow> named n x \<Longrightarrow> n = m" for n x by (cases x) auto
  then show "(\<And>e. e \<in> set es \<Longrightarrow> edit_name e \<noteq> m) \<Longrightarrow> ?thesis"
    unfolding property_values_def by (subst filter_edits) blast+
qed

lemma property_values_put:
  "property_values n (set_property n v r its) = unfoldICalLine v # tl (property_values n its)"
proof (cases "list_ex (named n) its")
  case True
  have "property_values n (put_first n f its) = item_value (f p) # tl (property_values n its)"
    if "list_ex (named n) its" and "\<And>p. named n (f p)" and "\<And>p q. item_value (f p) = item_value (f q)" for f p
    using that by (induction n f its rule: put_first.induct) (auto simp: property_values_def)
  from this [of "\<lambda>p. new_property n (if r then n else p) v"] True show ?thesis by (simp add: set_property_def)
next
  case False
  then have none: "filter (named n) its = []" by (simp add: list_ex_iff filter_empty_conv)
  have "filter (named n) (insert_item x its) = (if named n x then [x] else [])" for x
    using none by (induction x its rule: insert_item.induct) (auto split: if_splits)
  with False none show ?thesis by (simp add: set_property_def property_values_def)
qed

lemma property_values_drop [simp]: "property_values n (drop_property n its) = []"
  by (simp add: property_values_def drop_property_def)

text \<open>New properties stand in front of the first nested component, one after the other.\<close>

definition all_in_front :: "string \<Rightarrow> item list \<Rightarrow> bool" where
  "all_in_front n its = (\<not> list_ex (named n) (dropWhile (\<lambda>x. \<not> begin_item x) its))"

lemma property_values_append:
  assumes "all_in_front n its" and "\<not> begin_item (new_property n n v)"
  shows "property_values n (insert_item (new_property n n v) its) = property_values n its @ [unfoldICalLine v]
    \<and> all_in_front n (insert_item (new_property n n v) its)"
  using assms
proof (induction "new_property n n v" its rule: insert_item.induct)
  case (2 y its)
  show ?case
  proof (cases "begin_item y")
    case True
    then have "filter (named n) (y # its) = []"
      using 2 by (simp add: all_in_front_def list_ex_iff filter_empty_conv)
    with True 2 show ?thesis by (simp add: property_values_def all_in_front_def)
  next
    case False
    then show ?thesis using 2 by (simp add: property_values_def all_in_front_def)
  qed
qed (simp add: property_values_def all_in_front_def)

lemma begin_item_new: "plain_name n \<Longrightarrow> \<not> begin_item (new_property n n v)"
  using prefix_name_not_marker [of n n "'':'' @ v"]
  by (simp add: begin_item_def new_property_def marker_def plain_name_def)

lemma property_values_appends:
  "all_in_front n its \<Longrightarrow> plain_name n
   \<Longrightarrow> property_values n (fold edit_items (map (\<lambda>a. Append n (f a)) as) its)
     = property_values n its @ map (\<lambda>a. unfoldICalLine (f a)) as"
proof (induction as arbitrary: its)
  case (Cons a as)
  then show ?case using property_values_append [of n its "f a"] begin_item_new [of n "f a"] by simp
qed simp

text \<open>The lines stay free of line breaks.\<close>

definition edit_clean :: "edit \<Rightarrow> bool" where
  "edit_clean e = (case e of Put n v r \<Rightarrow> clean [n, v] | Drop n \<Rightarrow> True | Append n v \<Rightarrow> clean [n, v])"

lemma join_folded_chars: "set (join_folded ls) \<subseteq> \<Union> (set (map set ls))"
proof -
  have tl: "set (tl x) \<subseteq> set x" for x :: string by (cases x) auto
  have "set (concat (map (\<lambda>x. if is_folded x then tl x else x) l)) \<subseteq> \<Union> (set (map set l))" for l
  proof (induction l)
    case (Cons x l)
    then show ?case using tl [of x] by (simp split: if_split) blast
  qed simp
  then show ?thesis by (cases ls) (simp_all add: join_folded_def le_supI2)
qed

lemma clean_prefix:
  assumes "item_ok 0 (Property n p ls)" and "clean ls"
  shows "CR \<notin> set p \<and> NL \<notin> set p"
proof -
  have "p = take (length p) (join_folded ls)" using assms(1) by simp
  then have "set p \<subseteq> \<Union> (set (map set ls))"
    using join_folded_chars [of ls] set_take_subset [of "length p" "join_folded ls"] by (metis order_trans)
  then show ?thesis using assms(2) by (auto simp: clean_def list_all_iff)
qed

lemma clean_insert: "clean (flat its) \<Longrightarrow> clean (item_lines x) \<Longrightarrow> clean (flat (insert_item x its))"
  by (induction x its rule: insert_item.induct) auto

lemma clean_put_first:
  "clean (flat its) \<Longrightarrow> (\<And>p ls. Property n p ls \<in> set its \<Longrightarrow> clean ls \<Longrightarrow> clean (item_lines (f p)))
   \<Longrightarrow> clean (flat (put_first n f its))"
  by (induction n f its rule: put_first.induct) auto

lemma clean_edit:
  assumes "tidy 0 its" and "clean (flat its)" and "edit_clean e"
  shows "clean (flat (edit_items e its))"
proof (cases e)
  case (Put n v r)
  have "clean (flat (put_first n (\<lambda>p. new_property n (if r then n else p) v) its))"
  proof (rule clean_put_first [OF assms(2)])
    fix p ls
    assume "Property n p ls \<in> set its" and "clean ls"
    then show "clean (item_lines (new_property n (if r then n else p) v))"
      using clean_prefix [OF tidy_item_ok [OF assms(1)]] assms(3) Put by (auto simp: new_property_def edit_clean_def)
  qed
  moreover have "clean (flat (insert_item (new_property n n v) its))"
    using assms Put by (intro clean_insert) (auto simp: new_property_def edit_clean_def)
  ultimately show ?thesis using Put by (simp add: set_property_def)
next
  case (Drop n)
  have "set (flat (drop_property n its)) \<subseteq> set (flat its)" by (auto simp: drop_property_def)
  then show ?thesis using Drop assms clean_subset by simp
next
  case (Append n v)
  then show ?thesis using assms by (simp add: edit_clean_def) (intro clean_insert, auto simp: new_property_def)
qed

section \<open>Properties of an event in its calendar\<close>

lemma slice_split:
  assumes "a < b" and "b \<le> length ls"
  shows "ls = take (a + 1) ls @ slice (a + 1) b ls @ drop b ls"
proof -
  have "drop (a + 1) ls = slice (a + 1) b ls @ drop (b - (a + 1)) (drop (a + 1) ls)"
    unfolding slice_def by (rule append_take_drop_id [symmetric])
  then show ?thesis using assms by (metis (no_types) append_take_drop_id drop_drop le_add_diff_inverse2 less_eq_Suc_le Suc_eq_plus1)
qed

lemma slice_middle: "slice (length xs + length ys) (length xs + length ys + length ms) (xs @ ys @ ms @ zs) = ms"
  by (simp add: slice_def)

lemma positions_values:
  "length (positions name i its) = length (property_values name its)"
  by (induction name i its rule: positions.induct) (auto simp: property_values_def)

lemma directPropertyValue_items:
  assumes "a < b" and "b \<le> length ls"
  shows "directPropertyValue ls (a, b) name
    = sbind (segment 0 (slice (a + 1) b ls)) (\<lambda>its. Inr (first_of (property_values name its)))"
proof (cases "segment 0 (slice (a + 1) b ls)")
  case (Inr its)
  then have t: "tidy 0 its" "flat its = slice (a + 1) b ls" using segment_tidy by auto
  have dp: "directProperty ls (a, b) name = Inr (map_option
      (\<lambda>p. p\<lparr>ip_start := ip_start p + a + 1, ip_end := ip_end p + a + 1\<rparr>) (first_of (positions name 0 its)))"
    using Inr by (cases "positions name 0 its")
      (simp_all add: directProperty_def directProperties_def directPropertiesInBlock_def properties_from_segment first_of_def)
  show ?thesis
  proof (cases "first_of (positions name 0 its)")
    case None
    then have "property_values name its = []"
      by (simp add: first_position_None property_values_def list_ex_iff filter_empty_conv)
    then show ?thesis using None Inr dp by (simp add: directPropertyValue_def first_of_def)
  next
    case (Some p)
    then obtain pre ms post where its: "its = pre @ Property name (ip_prefix p) ms # post"
        and pre: "\<not> list_ex (named name) pre"
        and p: "ip_start p = length (flat pre)" "ip_end p = ip_start p + length ms"
      by (rule first_position_Some) simp
    have sl: "slice (a + 1) b ls = flat pre @ ms @ flat post" using t(2) its by simp
    have eq: "ls = take (a + 1) ls @ flat pre @ ms @ flat post @ drop b ls"
      using slice_split [OF assms] unfolding sl append_assoc .
    have len: "length (take (a + 1) ls) = a + 1" using assms by simp
    have "slice (ip_start p + a + 1) (ip_end p + a + 1) ls = ms"
      using arg_cong [OF eq, of "slice (ip_start p + a + 1) (ip_end p + a + 1)"]
        slice_middle [of "take (a + 1) ls" "flat pre" ms "flat post @ drop b ls"]
      unfolding len p by (simp add: add.commute add.left_commute)
    moreover have ok: "item_ok 0 (Property name (ip_prefix p) ms)" using tidy_item_ok [OF t(1)] its by auto
    moreover have "filter (named name) pre = []" using pre by (simp add: list_ex_iff filter_empty_conv)
    ultimately show ?thesis
      using Some Inr dp
      by (simp add: directPropertyValue_def unfoldICalPropertyLines_def its property_values_def first_of_def)
  qed
qed (simp add: directPropertyValue_def directProperty_def directProperties_def directPropertiesInBlock_def properties_from_segment)

lemma filter_res_Inr: "filter_res f xs = Inr ys \<Longrightarrow> y \<in> set ys \<Longrightarrow> y \<in> set xs \<and> f y = Inr True"
  by (induction xs arbitrary: ys) (auto simp: res_simps split: if_splits)

lemma plain_managed: "list_all plain_name managed_names"
  by code_simp

lemma merge_edits_plain:
  "e \<in> set (merge_edits input dtstart dtend) \<Longrightarrow> edit_name e \<in> set managed_names"
  by (auto simp: merge_edits_def managed_names_def split: option.splits)

lemma show_nat_digits: "c \<in> set (show_nat n) \<Longrightarrow> is_digit c"
proof (induction n rule: show_nat.induct)
  case (1 n)
  have "is_digit (dig k)" if "k < 10" for k
    using that by (simp add: is_digit_def digit_val_def dig_def)
  with 1 show ?case by (auto simp: show_nat.simps [of n] split: if_splits)
qed

lemma toCalDAVDateTime_chars:
  assumes "toCalDAVDateTime tm s z = Inr t" and "c \<in> set t"
  shows "is_digit c \<or> c \<in> set ''TZ''"
proof -
  have zero: "is_digit CHR ''0''" by code_simp
  obtain utc where "formatCalDavInstant utc = Inr t"
    using assms(1) by (auto simp: toCalDAVDateTime_def res_simps split: option.splits if_splits)
  then have "t = pad_start 4 (show_nat (dt_year utc)) @ padCalDavPart (dt_month utc) @ padCalDavPart (dt_day utc) @ ''T''
       @ padCalDavPart (dt_hour utc) @ padCalDavPart (dt_minute utc) @ padCalDavPart (dt_second utc) @ ''Z''"
    by (simp add: formatCalDavInstant_def res_simps)
  with assms(2) zero show ?thesis
    by (auto simp: padCalDavPart_def pad_start_def dest: show_nat_digits)
qed

lemma toCalDAVDateTime_plain:
  assumes "toCalDAVDateTime tm s z = Inr t"
  shows "CR \<notin> set t" "NL \<notin> set t" "BS \<notin> set t"
  using toCalDAVDateTime_chars [OF assms, of CR] toCalDAVDateTime_chars [OF assms, of NL]
    toCalDAVDateTime_chars [OF assms, of BS]
  by (auto simp: is_digit_def digit_val_def)

lemma attendees_clean:
  assumes "validateVEventInput input = Inr u" and "ve_attendees input = Some as" and "a \<in> set as"
  shows "CR \<notin> set (address_of a) \<and> NL \<notin> set (address_of a)"
proof -
  have n: "normalizeCalendarAddress a = Inr (address_of a)" using valid_texts(6) assms by blast
  have "set (address_of a) \<subseteq> set a" by (auto simp: address_of_def dest: in_set_dropD)
  moreover have "unsafe_char CR" by (simp add: unsafe_char_def code_def)
  ultimately show ?thesis using normalizeCalendarAddress_Inr [OF n] by (auto simp: list_ex_iff)
qed

lemma merge_edits_clean:
  assumes v: "validateVEventInput input = Inr u" and "CR \<notin> set dtstart" "NL \<notin> set dtstart" "CR \<notin> set dtend" "NL \<notin> set dtend"
    and e: "e \<in> set (merge_edits input dtstart dtend)"
  shows "edit_clean e"
  using e assms(2-5) valid_texts(3-5) [OF v] attendees_clean [OF v]
  by (cases "ve_attendees input") (auto simp: merge_edits_def edit_clean_def escape_no_breaks split: option.splits)

lemma fold_edits_tidy_clean:
  assumes "tidy 0 its" and "clean (flat its)"
    and "\<And>e. e \<in> set es \<Longrightarrow> edit_clean e \<and> plain_name (edit_name e)"
  shows "tidy 0 (fold edit_items es its) \<and> clean (flat (fold edit_items es its))"
  using assms
proof (induction es arbitrary: its)
  case (Cons e es)
  have "\<exists>ls'. segment 0 ls' = Inr (edit_items e its)"
    using block.edit_block_content [OF tidy_segment [OF Cons.prems(1)], of e] Cons.prems(3) by auto
  then have "tidy 0 (edit_items e its)" using segment_tidy by blast
  with Cons clean_edit show ?case by simp
qed simp

text \<open>The values of a property after an edit.\<close>

lemma values_edit:
  "property_values n (set_property m v r its) = (if m = n then unfoldICalLine v # tl (property_values n its) else property_values n its)"
  "property_values n (drop_property m its) = (if m = n then [] else property_values n its)"
  "m \<noteq> n \<Longrightarrow> property_values n (fold edit_items (map (\<lambda>a. Append m (f a)) as) its) = property_values n its"
proof -
  show "m \<noteq> n \<Longrightarrow> property_values n (fold edit_items (map (\<lambda>a. Append m (f a)) as) its) = property_values n its"
    by (rule property_values_other) auto
qed (use property_values_other [of "[Put m v r]" n its] property_values_other [of "[Drop m]" n its]
  in \<open>auto simp: property_values_put\<close>)

lemma all_in_front_drop: "all_in_front n (drop_property n its)"
  by (auto simp: all_in_front_def drop_property_def list_ex_iff dest: set_dropWhileD)

lemma merge_values:
  fixes input dtstart dtend its
  defines "its' \<equiv> fold edit_items (merge_edits input dtstart dtend) its"
  shows "property_values ''SUMMARY'' its' = break_after_backslash (ve_summary input) # tl (property_values ''SUMMARY'' its)"
    and "property_values ''DTSTART'' its' = unfoldICalLine dtstart # tl (property_values ''DTSTART'' its)"
    and "property_values ''DURATION'' its' = []"
    and "property_values ''DTEND'' its' = unfoldICalLine dtend # tl (property_values ''DTEND'' its)"
    and "property_values ''DESCRIPTION'' its' = (case ve_description input of None \<Rightarrow> property_values ''DESCRIPTION'' its
           | Some t \<Rightarrow> break_after_backslash t # tl (property_values ''DESCRIPTION'' its))"
    and "property_values ''LOCATION'' its' = (case ve_location input of None \<Rightarrow> property_values ''LOCATION'' its
           | Some t \<Rightarrow> break_after_backslash t # tl (property_values ''LOCATION'' its))"
    and "property_values ''ATTENDEE'' its' = (case ve_attendees input of None \<Rightarrow> property_values ''ATTENDEE'' its
           | Some as \<Rightarrow> map (\<lambda>a. unfoldICalLine (''mailto:'' @ address_of a)) as)"
proof -
  have "plain_name ''ATTENDEE''" using plain_managed by (simp add: managed_names_def)
  then show "property_values ''ATTENDEE'' its' = (case ve_attendees input of None \<Rightarrow> property_values ''ATTENDEE'' its
      | Some as \<Rightarrow> map (\<lambda>a. unfoldICalLine (''mailto:'' @ address_of a)) as)"
    by (simp add: its'_def merge_edits_def values_edit property_values_appends all_in_front_drop split: option.split)
qed (simp_all add: its'_def merge_edits_def values_edit unfold_escape split: option.split)

lemma property_values_exists: "property_values n its \<noteq> [] \<Longrightarrow> \<exists>x \<in> set its. named n x"
  by (auto simp: property_values_def filter_empty_conv)

lemma tidy_length: "tidy depth its \<Longrightarrow> length its \<le> length (flat its)"
proof (induction its arbitrary: depth)
  case (Cons x its)
  then have "1 \<le> length (item_lines x)" using item_lines_not_Nil [of depth x] by (cases "item_lines x") auto
  with Cons show ?case by fastforce
qed simp

lemma merged_block_length:
  assumes "tidy 0 (fold edit_items (merge_edits input dtstart dtend) its)"
  shows "2 \<le> length (flat (fold edit_items (merge_edits input dtstart dtend) its))"
proof -
  let ?its = "fold edit_items (merge_edits input dtstart dtend) its"
  obtain x y where xy: "x \<in> set ?its" "named ''SUMMARY'' x" "y \<in> set ?its" "named ''DTSTART'' y"
    using property_values_exists [of "''SUMMARY''" ?its] property_values_exists [of "''DTSTART''" ?its] merge_values(1,2)
    by (metis list.distinct(1))
  moreover have "\<not> (named ''SUMMARY'' z \<and> named ''DTSTART'' z)" for z by (cases z) auto
  ultimately have "x \<noteq> y" by blast
  then have "2 \<le> length ?its" using xy card_mono [of "set ?its" "{x, y}"] card_length [of ?its] by auto
  then show ?thesis using tidy_length [OF assms] by linarith
qed

lemma mergeVEvent_parts:
  assumes m: "mergeVEvent tm calendarData input = Inr merged"
  obtains dtstart dtend ls events a b eventLines where "validateVEventInput input = Inr ()"
    and "toCalDAVDateTime tm (ve_start input) (ve_timezone input) = Inr dtstart"
    and "toCalDAVDateTime tm (ve_end input) (ve_timezone input) = Inr dtend"
    and "splitCalendarLines calendarData = Inr ls" and "findVEventRanges ls = Inr events"
    and "\<forall>e \<in> set events. single_uid ls e = Inr ()"
    and "masterEvents ls (ve_uid input) events = Inr [(a, b)]"
    and "merge_block input dtstart dtend (slice (a + 1) b ls) = Inr eventLines"
    and "merged = crlf_text (js_splice (a + 1) (b - a - 1) eventLines ls)"
proof -
  obtain u dtstart dtend ls events masters where v: "validateVEventInput input = Inr u"
      "toCalDAVDateTime tm (ve_start input) (ve_timezone input) = Inr dtstart"
      "toCalDAVDateTime tm (ve_end input) (ve_timezone input) = Inr dtend"
      "splitCalendarLines calendarData = Inr ls" "findVEventRanges ls = Inr events"
      "\<forall>e \<in> set events. single_uid ls e = Inr ()" "masterEvents ls (ve_uid input) events = Inr masters"
    and c: "(case masters of
       [event] \<Rightarrow>
         sbind (merge_block input dtstart dtend (slice (fst event + 1) (snd event) ls)) (\<lambda>eventLines.
         Inr (crlf_text (js_splice (fst event + 1) (snd event - fst event - 1) eventLines ls)))
     | _ \<Rightarrow> Inl (cannot_update ''matching master VEVENT is missing or ambiguous.'')) = Inr merged"
    using m unfolding mergeVEvent_def sbind_Inr_iff for_each_Inr_iff by blast
  obtain a b where ab: "masters = [(a, b)]" using c by (auto split: list.splits)
  then obtain eventLines where "merge_block input dtstart dtend (slice (a + 1) b ls) = Inr eventLines"
      "merged = crlf_text (js_splice (a + 1) (b - a - 1) eventLines ls)"
    using c by (auto simp: res_simps)
  with v ab show ?thesis by (intro that) auto
qed

lemma event_uid:
  assumes "a < b" "b \<le> length ls" and seg: "segment 0 (slice (a + 1) b ls) = Inr its"
  shows "directPropertyValue ls (a, b) ''UID'' = Inr (Some uid) \<Longrightarrow> single_uid ls (a, b) = Inr () \<Longrightarrow> property_values ''UID'' its = [uid]"
    and "directProperty ls (a, b) n = Inr None \<Longrightarrow> property_values n its = []"
proof -
  have ps: "directProperties ls (a, b) n
      = Inr (map (\<lambda>p. p\<lparr>ip_start := ip_start p + a + 1, ip_end := ip_end p + a + 1\<rparr>) (positions n 0 its))" for n
    using seg by (simp add: directProperties_def directPropertiesInBlock_def properties_from_segment)
  show "property_values n its = []" if "directProperty ls (a, b) n = Inr None"
  proof -
    have "positions n 0 its = []" using that ps [of n] by (auto simp: directProperty_def first_of_def split: list.splits)
    then show ?thesis using positions_values [of n 0 its] by simp
  qed
  show "property_values ''UID'' its = [uid]"
    if "directPropertyValue ls (a, b) ''UID'' = Inr (Some uid)" and "single_uid ls (a, b) = Inr ()"
  proof -
    have "length (property_values ''UID'' its) = 1"
      using that(2) ps positions_values [of "''UID''" 0 its] by (simp add: single_uid_def res_simps)
    moreover have "first_of (property_values ''UID'' its) = Some uid"
      using that(1) directPropertyValue_items [OF assms(1,2)] seg by simp
    ultimately show ?thesis by (cases "property_values ''UID'' its") (auto simp: first_of_def)
  qed
qed

lemma mergeVEvent_core:
  assumes m: "mergeVEvent tm calendarData input = Inr merged"
  obtains before its after dtstart dtend its' where "validateVEventInput input = Inr ()"
    and "toCalDAVDateTime tm (ve_start input) (ve_timezone input) = Inr dtstart"
    and "toCalDAVDateTime tm (ve_end input) (ve_timezone input) = Inr dtend"
    and "splitCalendarLines calendarData = Inr (before @ flat its @ after)" and "segment 0 (flat its) = Inr its"
    and "its' = fold edit_items (merge_edits input dtstart dtend) its"
    and "splitCalendarLines merged = Inr (before @ flat its' @ after)" and "segment 0 (flat its') = Inr its'"
    and "property_values ''UID'' its = [ve_uid input]" and "property_values ''RECURRENCE-ID'' its = []"
proof -
  from m obtain dtstart dtend ls events a b eventLines where v: "validateVEventInput input = Inr ()"
      and ds: "toCalDAVDateTime tm (ve_start input) (ve_timezone input) = Inr dtstart"
      and de: "toCalDAVDateTime tm (ve_end input) (ve_timezone input) = Inr dtend"
      and ls: "splitCalendarLines calendarData = Inr ls" and ev: "findVEventRanges ls = Inr events"
      and one: "\<forall>e \<in> set events. single_uid ls e = Inr ()"
      and master: "masterEvents ls (ve_uid input) events = Inr [(a, b)]"
      and blk: "merge_block input dtstart dtend (slice (a + 1) b ls) = Inr eventLines"
      and merged: "merged = crlf_text (js_splice (a + 1) (b - a - 1) eventLines ls)"
    by (rule mergeVEvent_parts)
  let ?es = "merge_edits input dtstart dtend"
  have in_ev: "(a, b) \<in> set events" and uid: "directPropertyValue ls (a, b) ''UID'' = Inr (Some (ve_uid input))"
      and rec: "directProperty ls (a, b) ''RECURRENCE-ID'' = Inr None"
    using master by (auto simp: masterEvents_def res_simps dest!: filter_res_Inr)
  then have ab: "a < b" "b < length ls"
    using ranges_from_bounds [of 0 None ls events a b] ev by (auto simp: findVEventRanges_def res_simps)
  obtain its where seg: "segment 0 (slice (a + 1) b ls) = Inr its"
    using uid directPropertyValue_items [of a b ls] ab by (auto simp: res_simps)
  have t: "tidy 0 its" "flat its = slice (a + 1) b ls" using segment_tidy [OF seg] by auto
  have split: "ls = take (a + 1) ls @ flat its @ drop b ls" using slice_split [of a b ls] ab t by simp
  have clean: "clean ls" and ends: "to_upper (hd ls) = ''BEGIN:VCALENDAR''" "to_upper (last ls) = ''END:VCALENDAR''"
    using splitCalendarLines_clean [OF ls] by auto
  let ?its = "fold edit_items ?es its"
  have t': "tidy 0 ?its" "clean (flat ?its)"
    using fold_edits_tidy_clean [OF t(1), of ?es] clean_subset [OF clean, of "flat its"] set_take_subset set_drop_subset
      merge_edits_clean [OF v] toCalDAVDateTime_plain [OF ds] toCalDAVDateTime_plain [OF de] merge_edits_plain plain_managed
      t(2)
    by (auto simp: slice_def list_all_iff dest!: in_set_takeD in_set_dropD)
  have lines: "eventLines = flat ?its"
    using block.edit_all_content [OF seg, of ?es] merge_block_edits [OF v] blk merge_edits_plain plain_managed segment_tidy
    by (fastforce simp: list_all_iff)
  let ?ls = "take (a + 1) ls @ flat ?its @ drop b ls"
  have "clean ?ls" using clean_subset [OF clean set_take_subset] clean_subset [OF clean set_drop_subset] t'(2) by simp
  moreover have "4 \<le> length ?ls" using merged_block_length [OF t'(1)] ab by simp
  moreover have "hd ?ls = hd ls" "last ?ls = last ls" using ab by (cases ls; simp)+
  ultimately have "splitCalendarLines merged = Inr ?ls"
    using splitCalendarLines_crlf [of ?ls] ends merged lines ab by (simp add: js_splice_def)
  moreover have "splitCalendarLines calendarData = Inr (take (a + 1) ls @ flat its @ drop b ls)"
    unfolding split [symmetric] by (rule ls)
  moreover have "property_values ''UID'' its = [ve_uid input]" "property_values ''RECURRENCE-ID'' its = []"
    using event_uid [of a b ls its] ab seg uid one in_ev rec by auto
  ultimately show ?thesis
    using that [OF v ds de _ tidy_segment [OF t(1)] refl _ tidy_segment [OF t'(1)]] by blast
qed

lemma mergeVEvent_ok:
  assumes v: "validateVEventInput input = Inr ()"
    and "toCalDAVDateTime tm (ve_start input) (ve_timezone input) = Inr dtstart"
    and "toCalDAVDateTime tm (ve_end input) (ve_timezone input) = Inr dtend"
    and "splitCalendarLines calendarData = Inr ls" and "validateComponentNesting ls = Inr ()"
    and "findVEventRanges ls = Inr events" and "for_each (single_uid ls) events = Inr ()"
    and "masterEvents ls (ve_uid input) events = Inr [event]" and "segment 0 (slice (fst event + 1) (snd event) ls) = Inr its"
  shows "\<exists>merged. mergeVEvent tm calendarData input = Inr merged"
proof -
  have "list_all (\<lambda>e. plain_name (edit_name e)) (merge_edits input dtstart dtend)"
    using merge_edits_plain plain_managed by (auto simp: list_all_iff)
  then have "\<exists>ls'. merge_block input dtstart dtend (slice (fst event + 1) (snd event) ls) = Inr ls'"
    using block.edit_all_content [OF assms(9)] unfolding merge_block_edits [OF v] by blast
  then show ?thesis using assms by (auto simp: mergeVEvent_def)
qed

section \<open>Reading back what was built\<close>

definition plain_lines :: "(string \<times> string) list \<Rightarrow> string list" where
  "plain_lines nvs = map (\<lambda>(n, v). n @ '':'' @ v) nvs"

primrec plain_items :: "(string \<times> string) list \<Rightarrow> item list" where
  "plain_items [] = []"
| "plain_items (nv # nvs) = new_property (fst nv) (fst nv) (snd nv) # plain_items nvs"

lemma flat_plain_items: "flat (plain_items nvs) = plain_lines nvs"
  by (induction nvs) (auto simp: new_property_def plain_lines_def)

lemma plain_lines_simps [simp]:
  "plain_lines [] = []" "plain_lines ((n, v) # nvs) = (n @ '':'' @ v) # plain_lines nvs"
  "plain_lines (as @ bs) = plain_lines as @ plain_lines bs" "length (plain_lines nvs) = length nvs"
  by (simp_all add: plain_lines_def)

lemma plain_line_not_marker: "plain_name n \<Longrightarrow> \<not> marker 0 (n @ CHR '':'' # v)"
  using prefix_name_not_marker [of n n "'':'' @ v"] by (simp add: plain_name_def)

lemma plain_items_tidy: "list_all (\<lambda>(n, v). plain_name n) nvs \<Longrightarrow> tidy 0 (plain_items nvs) \<and> fresh (plain_lines nvs)"
proof (induction nvs)
  case (Cons nv nvs)
  obtain n v where nv: "nv = (n, v)" by fastforce
  then have "item_ok 0 (new_property n n v)" "\<not> marker 0 (n @ CHR '':'' # v)"
    using Cons.prems new_plain_ok [of n v] plain_line_not_marker [of n v] by auto
  with Cons nv show ?case
    by (auto simp: fresh_def new_property_def marker_def depth_after_def flat_plain_items simp del: item_ok.simps)
qed (simp add: fresh_def)

lemma plain_items_values:
  "first_of (property_values name (plain_items nvs)) = map_option unfoldICalLine (map_of nvs name)"
  by (induction nvs) (auto simp: property_values_def first_of_def)

lemma find_index_append:
  "find_index p (xs @ ys) = (case find_index p xs of Some i \<Rightarrow> Some i | None \<Rightarrow> map_option ((+) (length xs)) (find_index p ys))"
proof (induction xs)
  case Nil
  show ?case by (cases "find_index p ys") simp_all
next
  case (Cons x xs)
  then show ?case by (cases "find_index p ys") (auto split: option.splits)
qed

lemma find_index_None: "list_all (\<lambda>x. \<not> p x) xs \<Longrightarrow> find_index p xs = None"
  by (induction xs) auto

definition calendar_header :: "string list" where
  "calendar_header = [''BEGIN:VCALENDAR'', ''VERSION:2.0'', ''PRODID:-//CalDAV Connector//EN'', ''CALSCALE:GREGORIAN'', ''BEGIN:VEVENT'']"

definition calendar_footer :: "string list" where
  "calendar_footer = [''END:VEVENT'', ''END:VCALENDAR'']"

lemma calendar_markers:
  "find_index (\<lambda>line. to_upper line = ''BEGIN:VEVENT'') calendar_header = Some 4"
  "find_index (\<lambda>line. to_upper line = ''END:VEVENT'') calendar_footer = Some 0"
  "clean calendar_header" "clean calendar_footer"
  by code_simp+

lemma event_range_plain:
  assumes "list_all (\<lambda>(n, v). plain_name n) nvs"
  shows "event_range (calendar_header @ plain_lines nvs @ calendar_footer @ rest) = Some (4, 5 + length nvs)"
proof -
  let ?b = "plain_lines nvs"
  have "list_all (\<lambda>x. to_upper x \<noteq> ''END:VEVENT'') ?b"
    using assms
  proof (induction nvs)
    case (Cons nv nvs)
    obtain n v where nv: "nv = (n, v)" by fastforce
    then have "\<not> is_end (n @ CHR '':'' # v)" using Cons.prems plain_line_not_marker [of n v] by (simp add: marker_def)
    then have "to_upper (n @ CHR '':'' # v) \<noteq> ''END:VEVENT''" by (auto simp: is_end_def starts_with_def)
    with Cons nv show ?case by simp
  qed simp
  then have "find_index (\<lambda>line. to_upper line = ''END:VEVENT'') (?b @ calendar_footer @ rest) = Some (length ?b)"
    by (simp add: find_index_append find_index_None calendar_markers)
  moreover have "length calendar_header = 5" by (simp add: calendar_header_def)
  ultimately show ?thesis
    by (simp add: event_range_def find_index_append calendar_markers)
qed

lemma get_field_plain:
  assumes "list_all (\<lambda>(n, v). plain_name n) nvs"
  shows "get_field (calendar_header @ plain_lines nvs @ calendar_footer @ rest) name
    = Inr (map_option unfoldICalLine (map_of nvs name))"
proof -
  let ?ls = "calendar_header @ plain_lines nvs @ calendar_footer @ rest"
  have len: "length calendar_header = 5" "length calendar_footer = 2" by (simp_all add: calendar_header_def calendar_footer_def)
  have "slice 5 (5 + length nvs) ?ls = plain_lines nvs"
    using len by (simp add: slice_def)
  then have "segment 0 (slice (4 + 1) (5 + length nvs) ?ls) = Inr (plain_items nvs)"
    using tidy_segment [of 0 "plain_items nvs"] plain_items_tidy [OF assms] by (simp add: flat_plain_items)
  then show ?thesis
    using directPropertyValue_items [of 4 "5 + length nvs" ?ls name] len event_range_plain [OF assms, of rest]
    by (simp add: get_field_def plain_items_values)
qed

text \<open>The properties of a built event.\<close>

definition optional_pair :: "string \<Rightarrow> string option \<Rightarrow> (string \<times> string) list" where
  "optional_pair name s = (case s of Some (c # cs) \<Rightarrow> [(name, escape_text (c # cs))] | _ \<Rightarrow> [])"

definition vevent_pairs :: "VEventInput \<Rightarrow> string \<Rightarrow> string \<Rightarrow> string \<Rightarrow> (string \<times> string) list" where
  "vevent_pairs input now dtstart dtend =
     [(''UID'', escape_text (ve_uid input)), (''DTSTAMP'', now), (''DTSTART'', dtstart), (''DTEND'', dtend),
      (''SUMMARY'', escape_text (ve_summary input))]
     @ optional_pair ''DESCRIPTION'' (ve_description input) @ optional_pair ''LOCATION'' (ve_location input)
     @ (case ve_attendees input of None \<Rightarrow> [] | Some as \<Rightarrow> map (\<lambda>a. (''ATTENDEE'', ''mailto:'' @ address_of a)) as)"

lemma optional_line_pair:
  assumes "\<And>t. s = Some t \<Longrightarrow> \<not> list_ex unsafe_char t"
  shows "optional_line name s = Inr (plain_lines (optional_pair name s))"
proof (cases s)
  case (Some t)
  then show ?thesis
    using assms [OF Some] foldICalLine_safe [of t] by (cases t) (simp_all add: optional_line_def optional_pair_def)
qed (simp add: optional_line_def optional_pair_def)

lemma vevent_lines_ok:
  assumes v: "validateVEventInput input = Inr u" and "toCalDAVDateTime tm (instant_now tm) None = Inr now"
    and "toCalDAVDateTime tm (ve_start input) (ve_timezone input) = Inr dtstart"
    and "toCalDAVDateTime tm (ve_end input) (ve_timezone input) = Inr dtend"
  shows "vevent_lines tm input = Inr (calendar_header @ plain_lines (vevent_pairs input now dtstart dtend) @ calendar_footer)"
proof -
  have att: "(case ve_attendees input of None \<Rightarrow> Inr [] | Some as \<Rightarrow> map_res attendee_line as)
      = Inr (plain_lines (case ve_attendees input of None \<Rightarrow> []
          | Some as \<Rightarrow> map (\<lambda>a. (''ATTENDEE'', ''mailto:'' @ address_of a)) as))"
    using valid_texts(6) [OF v] by (auto simp: map_res_attendees plain_lines_def split: option.splits)
  show ?thesis
    using assms valid_texts(2-5) [OF v]
    by (simp add: vevent_lines_def optional_line_pair foldICalLine_safe att vevent_pairs_def
        calendar_header_def calendar_footer_def)
qed

lemma vevent_lines_pairs:
  assumes "vevent_lines tm input = Inr ls"
  obtains now dtstart dtend where "validateVEventInput input = Inr ()"
    and "toCalDAVDateTime tm (instant_now tm) None = Inr now"
    and "toCalDAVDateTime tm (ve_start input) (ve_timezone input) = Inr dtstart"
    and "toCalDAVDateTime tm (ve_end input) (ve_timezone input) = Inr dtend"
    and "ls = calendar_header @ plain_lines (vevent_pairs input now dtstart dtend) @ calendar_footer"
proof -
  obtain u now dtstart dtend where v: "validateVEventInput input = Inr u"
      and d: "toCalDAVDateTime tm (instant_now tm) None = Inr now"
        "toCalDAVDateTime tm (ve_start input) (ve_timezone input) = Inr dtstart"
        "toCalDAVDateTime tm (ve_end input) (ve_timezone input) = Inr dtend"
    using assms unfolding vevent_lines_def sbind_Inr_iff by blast
  with vevent_lines_ok [OF v d] assms show ?thesis by (intro that) auto
qed

lemma vevent_pairs_plain: "list_all (\<lambda>(n, v). plain_name n) (vevent_pairs input now dtstart dtend)"
proof -
  have "plain_name ''UID'' \<and> plain_name ''DTSTAMP''" by code_simp
  then show ?thesis
    using plain_managed
    by (auto simp: vevent_pairs_def optional_pair_def managed_names_def list_all_iff split: option.splits list.splits)
qed

section \<open>Theorems\<close>

definition line_name :: "string \<Rightarrow> string" where
  "line_name line = takeWhile (\<lambda>c. c \<noteq> CHR '':'') line"

definition given_text :: "string option \<Rightarrow> bool" where
  "given_text s = (case s of Some (c # cs) \<Rightarrow> True | _ \<Rightarrow> False)"

definition no_escaped_n :: "string \<Rightarrow> bool" where
  "no_escaped_n s = (\<not> contains [BS, CHR ''n''] s)"

lemma line_name_plain: "plain_name n \<Longrightarrow> line_name (n @ CHR '':'' # v) = n"
  unfolding line_name_def plain_name_def by (subst takeWhile_append2) auto

lemma line_names_plain: "list_all (\<lambda>(n, v). plain_name n) nvs \<Longrightarrow> map line_name (plain_lines nvs) = map fst nvs"
proof (induction nvs)
  case (Cons nv nvs)
  then show ?case using line_name_plain by (cases nv) simp
qed simp

lemma vevent_pairs_clean:
  assumes v: "validateVEventInput input = Inr u" and "clean [now, dtstart, dtend]"
  shows "clean (plain_lines (vevent_pairs input now dtstart dtend))"
proof -
  have opt: "clean (plain_lines (optional_pair n s))" if "\<And>t. s = Some t \<Longrightarrow> \<not> list_ex unsafe_char t" "clean [n]" for n s
    using that escape_no_breaks
    by (cases s) (auto simp: optional_pair_def split: list.splits)
  have "clean (plain_lines (case ve_attendees input of None \<Rightarrow> [] | Some as \<Rightarrow> map (\<lambda>a. (''ATTENDEE'', ''mailto:'' @ address_of a)) as))"
  proof (cases "ve_attendees input")
    case (Some as)
    then show ?thesis using attendees_clean [OF v Some] by (simp add: clean_def plain_lines_def list_all_iff)
  qed simp
  then show ?thesis
    using assms(2) escape_no_breaks valid_texts(2-5) [OF v] by (simp add: vevent_pairs_def opt)
qed

lemma vevent_pairs_lookup:
  "map_of (vevent_pairs input now dtstart dtend) ''UID'' = Some (escape_text (ve_uid input))"
  "map_of (vevent_pairs input now dtstart dtend) ''SUMMARY'' = Some (escape_text (ve_summary input))"
  "map_of (vevent_pairs input now dtstart dtend) ''DTSTART'' = Some dtstart"
  "map_of (vevent_pairs input now dtstart dtend) ''DTEND'' = Some dtend"
  "map_of (vevent_pairs input now dtstart dtend) ''LOCATION'' = map_of (optional_pair ''LOCATION'' (ve_location input)) ''LOCATION''"
  "map_of (vevent_pairs input now dtstart dtend) ''DESCRIPTION'' = map_of (optional_pair ''DESCRIPTION'' (ve_description input)) ''DESCRIPTION''"
proof -
  have none: "n \<noteq> m \<Longrightarrow> map_of (optional_pair m s) n = None" for n m s
    by (auto simp: optional_pair_def split: option.splits list.splits)
  have att: "n \<noteq> ''ATTENDEE'' \<Longrightarrow> map_of (case ve_attendees input of None \<Rightarrow> [] | Some as \<Rightarrow> map (\<lambda>a. (''ATTENDEE'', f a)) as) n = None"
    for n and f :: "string \<Rightarrow> string"
    by (auto simp: map_of_eq_None_iff split: option.splits)
  show "map_of (vevent_pairs input now dtstart dtend) ''LOCATION'' = map_of (optional_pair ''LOCATION'' (ve_location input)) ''LOCATION''"
      "map_of (vevent_pairs input now dtstart dtend) ''DESCRIPTION'' = map_of (optional_pair ''DESCRIPTION'' (ve_description input)) ''DESCRIPTION''"
    by (simp_all add: vevent_pairs_def none att map_add_def split: option.splits)
qed (simp_all add: vevent_pairs_def)

lemma buildVEvent_lines:
  assumes "buildVEvent tm input = Inr text"
  obtains now dtstart dtend where "validateVEventInput input = Inr ()"
    and "toCalDAVDateTime tm (ve_start input) (ve_timezone input) = Inr dtstart"
    and "toCalDAVDateTime tm (ve_end input) (ve_timezone input) = Inr dtend"
    and "split_on NL (normalize_breaks text)
      = calendar_header @ plain_lines (vevent_pairs input now dtstart dtend) @ calendar_footer @ [[]]"
proof -
  obtain ls where ls: "vevent_lines tm input = Inr ls" "text = crlf_text ls"
    using assms by (auto simp: buildVEvent_def res_simps)
  from ls(1) obtain now dtstart dtend where v: "validateVEventInput input = Inr ()"
    and d: "toCalDAVDateTime tm (instant_now tm) None = Inr now"
      "toCalDAVDateTime tm (ve_start input) (ve_timezone input) = Inr dtstart"
      "toCalDAVDateTime tm (ve_end input) (ve_timezone input) = Inr dtend"
    and eq: "ls = calendar_header @ plain_lines (vevent_pairs input now dtstart dtend) @ calendar_footer"
    by (rule vevent_lines_pairs)
  have "clean (plain_lines (vevent_pairs input now dtstart dtend))"
    using vevent_pairs_clean [OF v, of now dtstart dtend] toCalDAVDateTime_plain d by simp
  then have "clean ls" "ls \<noteq> []" using eq calendar_markers(3,4) by (simp_all add: calendar_header_def)
  then have "split_on NL (normalize_breaks text) = ls @ [[]]" using ls(2) split_crlf_text by simp
  with eq v d show ?thesis by (intro that) auto
qed

text \<open>Escaping is reversible except at one point. Reading back an escaped property value gives the value
  exactly if it has no backslash directly before an \<open>n\<close>; and an escaped value is always a single line.\<close>

theorem unfold_fold_iff:
  assumes "foldICalLine s = Inr t"
  shows "(unfoldICalLine t = s \<longleftrightarrow> no_escaped_n s) \<and> NL \<notin> set t \<and> CR \<notin> set t"
proof -
  have t: "t = escape_text s" and safe: "\<not> list_ex unsafe_char s"
    using assms by (auto simp: foldICalLine_def assertSafeText_def res_simps)
  then show ?thesis
    using escape_no_breaks [OF safe]
    by (simp add: unfold_escape break_after_backslash_id no_escaped_n_def contains_sublist)
qed

text \<open>No input can add lines or components to an event. The lines of a built calendar are a fixed list of
  properties that depends only on which of the optional inputs are given and on the number of attendees, whatever
  the texts are.\<close>

theorem buildVEvent_no_injection:
  assumes "buildVEvent tm input = Inr text"
  shows "map line_name (split_on NL (normalize_breaks text)) =
    [''BEGIN'', ''VERSION'', ''PRODID'', ''CALSCALE'', ''BEGIN'', ''UID'', ''DTSTAMP'', ''DTSTART'', ''DTEND'', ''SUMMARY'']
    @ (if given_text (ve_description input) then [''DESCRIPTION''] else [])
    @ (if given_text (ve_location input) then [''LOCATION''] else [])
    @ (case ve_attendees input of None \<Rightarrow> [] | Some as \<Rightarrow> replicate (length as) ''ATTENDEE'') @ [''END'', ''END'', []]"
proof -
  obtain now dtstart dtend where l: "split_on NL (normalize_breaks text)
      = calendar_header @ plain_lines (vevent_pairs input now dtstart dtend) @ calendar_footer @ [[]]"
    using assms by (rule buildVEvent_lines)
  have opt: "map fst (optional_pair n s) = (if given_text s then [n] else [])" for n s
    by (auto simp: optional_pair_def given_text_def split: option.splits list.splits)
  have att: "map fst (case ve_attendees input of None \<Rightarrow> [] | Some as \<Rightarrow> map (\<lambda>a. (''ATTENDEE'', f a)) as)
      = (case ve_attendees input of None \<Rightarrow> [] | Some as \<Rightarrow> replicate (length as) ''ATTENDEE'')" for f :: "string \<Rightarrow> string"
    by (simp add: map_replicate_const o_def split: option.split)
  have "map line_name calendar_header = [''BEGIN'', ''VERSION'', ''PRODID'', ''CALSCALE'', ''BEGIN'']"
      "map line_name calendar_footer = [''END'', ''END'']" "line_name [] = []" by code_simp+
  then show ?thesis
    by (simp add: l line_names_plain [OF vevent_pairs_plain]) (simp add: vevent_pairs_def opt att)
qed


text \<open>C20: an update never discards data of the provider. After a successful merge the calendar is the old one
  outside of the master event with the given UID; inside, everything but the properties the update is about (other
  properties with their parameters, nested components, stray lines) is there as before and in the same order.\<close>

theorem mergeVEvent_keeps:
  assumes "mergeVEvent tm calendarData input = Inr merged"
  shows "\<exists>before its its' after. splitCalendarLines calendarData = Inr (before @ flat its @ after)
    \<and> splitCalendarLines merged = Inr (before @ flat its' @ after)
    \<and> segment 0 (flat its) = Inr its \<and> segment 0 (flat its') = Inr its'
    \<and> property_values ''UID'' its = [ve_uid input] \<and> property_values ''RECURRENCE-ID'' its = []
    \<and> filter (\<lambda>x. \<not> managed x) its' = filter (\<lambda>x. \<not> managed x) its"
proof -
  from assms obtain before its after dtstart dtend its' where p:
      "splitCalendarLines calendarData = Inr (before @ flat its @ after)" "segment 0 (flat its) = Inr its"
      "its' = fold edit_items (merge_edits input dtstart dtend) its"
      "splitCalendarLines merged = Inr (before @ flat its' @ after)" "segment 0 (flat its') = Inr its'"
      "property_values ''UID'' its = [ve_uid input]" "property_values ''RECURRENCE-ID'' its = []"
    by (rule mergeVEvent_core)
  have "filter (\<lambda>x. \<not> managed x) its' = filter (\<lambda>x. \<not> managed x) its"
    unfolding p(3) using merge_edits_plain by (intro filter_edits) (auto simp: managed_def list_ex_iff)
  with p show ?thesis by blast
qed

text \<open>an update takes effect. In the merged event the first SUMMARY, DTSTART and DTEND, and DESCRIPTION and
  LOCATION if given, have the new values (a line break in place of an \<open>n\<close> after a backslash), there is no DURATION,
  and the attendees are exactly the given ones; a list that is not given is left alone.\<close>

theorem mergeVEvent_updates:
  assumes "mergeVEvent tm calendarData input = Inr merged"
  shows "\<exists>before its its' after dtstart dtend. splitCalendarLines calendarData = Inr (before @ flat its @ after)
    \<and> splitCalendarLines merged = Inr (before @ flat its' @ after)
    \<and> segment 0 (flat its) = Inr its \<and> segment 0 (flat its') = Inr its'
    \<and> toCalDAVDateTime tm (ve_start input) (ve_timezone input) = Inr dtstart
    \<and> toCalDAVDateTime tm (ve_end input) (ve_timezone input) = Inr dtend
    \<and> property_values ''SUMMARY'' its' = break_after_backslash (ve_summary input) # tl (property_values ''SUMMARY'' its)
    \<and> property_values ''DTSTART'' its' = dtstart # tl (property_values ''DTSTART'' its)
    \<and> property_values ''DTEND'' its' = dtend # tl (property_values ''DTEND'' its)
    \<and> property_values ''DURATION'' its' = []
    \<and> property_values ''DESCRIPTION'' its' = (case ve_description input of None \<Rightarrow> property_values ''DESCRIPTION'' its
        | Some t \<Rightarrow> break_after_backslash t # tl (property_values ''DESCRIPTION'' its))
    \<and> property_values ''LOCATION'' its' = (case ve_location input of None \<Rightarrow> property_values ''LOCATION'' its
        | Some t \<Rightarrow> break_after_backslash t # tl (property_values ''LOCATION'' its))
    \<and> property_values ''ATTENDEE'' its' = (case ve_attendees input of None \<Rightarrow> property_values ''ATTENDEE'' its
        | Some as \<Rightarrow> map (\<lambda>a. unfoldICalLine (''mailto:'' @ address_of a)) as)"
proof -
  from assms obtain before its after dtstart dtend its' where
      d: "toCalDAVDateTime tm (ve_start input) (ve_timezone input) = Inr dtstart"
        "toCalDAVDateTime tm (ve_end input) (ve_timezone input) = Inr dtend"
      and p: "splitCalendarLines calendarData = Inr (before @ flat its @ after)" "segment 0 (flat its) = Inr its"
        "splitCalendarLines merged = Inr (before @ flat its' @ after)" "segment 0 (flat its') = Inr its'"
      and its': "its' = fold edit_items (merge_edits input dtstart dtend) its"
    by (rule mergeVEvent_core)
  have times: "unfoldICalLine dtstart = dtstart" "unfoldICalLine dtend = dtend"
    using unfold_no_backslash toCalDAVDateTime_plain(3) d by blast+
  show ?thesis
    using d p merge_values [of input dtstart dtend its] unfolding times its' by blast
qed

section \<open>Witnesses\<close>

text \<open>A platform that knows UTC.\<close>

definition utc_temporal :: temporal where
  "utc_temporal = \<lparr>zone_known = (\<lambda>z. z = ''UTC''),
     instant_from = (\<lambda>s. if last s = CHR ''Z'' then map_option fst (STRICT_ISO_DATE_TIME s) else None),
     zoned_from = (\<lambda>parts z. if z = ''UTC'' then Some parts else None), instant_now = ''2026-05-14T12:00:00Z''\<rparr>"

lemma sample_time: "toCalDAVDateTime utc_temporal ''2026-05-14T12:00:00Z'' None = Inr ''20260514T120000Z''"
  by (simp add: toCalDAVDateTime_def utc_temporal_def STRICT_ISO_DATE_TIME_def digits_def number_after_def literal_def
     is_digit_def digit_val_def dec_val_def iso_tail_def iso_offset_def formatCalDavInstant_def padCalDavPart_def
     pad_start_def show_nat.simps dig_def) code_simp

definition sample_event :: VEventInput where
  "sample_event = \<lparr>ve_uid = ''u1'', ve_summary = ''Lunch,'' @ [NL] @ ''END:VEVENT'',
     ve_start = ''2026-05-14T12:00:00Z'', ve_end = ''2026-05-14T12:00:00Z'', ve_description = None, ve_location = Some ''Roof'',
     ve_timezone = None, ve_attendees = Some [''MAILTO:a@x.org'']\<rparr>"

definition sample_lines :: "string list" where
  "sample_lines = [''BEGIN:VCALENDAR'', ''BEGIN:VEVENT'', ''UID:u1'', ''DURATION:1'', ''END:VEVENT'', ''END:VCALENDAR'']"

lemma sample_valid: "validateVEventInput sample_event = Inr ()"
  by code_simp

theorem unfold_fold_iff_witness:
  "unfoldICalLine (escape_text ''a,b;c'') = ''a,b;c'' \<and> unfoldICalLine (escape_text [BS, CHR ''n'']) \<noteq> [BS, CHR ''n'']"
proof -
  have "foldICalLine ''a,b;c'' = Inr (escape_text ''a,b;c'')" "foldICalLine [BS, CHR ''n''] = Inr (escape_text [BS, CHR ''n''])"
      "no_escaped_n ''a,b;c''" "\<not> no_escaped_n [BS, CHR ''n'']"
    by code_simp+
  then show ?thesis using unfold_fold_iff by blast
qed

lemma sample_built: "\<exists>ics. buildVEvent utc_temporal sample_event = Inr ics"
proof -
  have "instant_now utc_temporal = ''2026-05-14T12:00:00Z''" by (simp add: utc_temporal_def)
  then show ?thesis
    using vevent_lines_ok [OF sample_valid, of utc_temporal] sample_time by (simp add: buildVEvent_def sample_event_def)
qed

theorem buildVEvent_no_injection_witness:
  "\<exists>ics. buildVEvent utc_temporal sample_event = Inr ics \<and> length (split_on NL (normalize_breaks ics)) = 15"
proof -
  obtain ics where t: "buildVEvent utc_temporal sample_event = Inr ics" using sample_built by blast
  have "length (map line_name (split_on NL (normalize_breaks ics))) = 15"
    unfolding buildVEvent_no_injection [OF t] by (simp add: sample_event_def given_text_def)
  with t show ?thesis by auto
qed


lemma sample_segment:
  "segment 0 [''UID:u1'', ''DURATION:1''] = Inr (plain_items [(''UID'', ''u1''), (''DURATION'', ''1'')])"
proof -
  have "plain_name ''UID''" "plain_name ''DURATION''" by code_simp+
  then show ?thesis
    using tidy_segment [of 0 "plain_items [(''UID'', ''u1''), (''DURATION'', ''1'')]"]
      plain_items_tidy [of "[(''UID'', ''u1''), (''DURATION'', ''1'')]"] by (simp add: flat_plain_items del: plain_items.simps)
qed

lemma sample_master:
  "for_each (single_uid sample_lines) [(1, 4)] = Inr ()" "masterEvents sample_lines ''u1'' [(1, 4)] = Inr [(1, 4)]"
proof -
  have sl: "slice (1 + 1) 4 sample_lines = [''UID:u1'', ''DURATION:1'']" "4 \<le> length sample_lines"
    by (simp_all add: slice_def sample_lines_def)
  have un: "unfoldICalLine ''u1'' = ''u1''" by (rule unfold_no_backslash) simp
  have "directPropertyValue sample_lines (1, 4) ''UID'' = Inr (Some ''u1'')"
    using directPropertyValue_items [of 1 4 sample_lines "''UID''"] sl sample_segment
    by (simp add: plain_items_values un del: plain_items.simps)
  then show "for_each (single_uid sample_lines) [(1, 4)] = Inr ()" "masterEvents sample_lines ''u1'' [(1, 4)] = Inr [(1, 4)]"
    using sl(1) sample_segment
    by (simp_all add: single_uid_def masterEvents_def directProperty_def directProperties_def directPropertiesInBlock_def
        properties_from_segment new_property_def first_of_def numeral_2_eq_2)
qed

lemma sample_merged: "\<exists>merged. mergeVEvent utc_temporal (crlf_text sample_lines) sample_event = Inr merged"
proof (rule mergeVEvent_ok [OF sample_valid])
  show "toCalDAVDateTime utc_temporal (ve_start sample_event) (ve_timezone sample_event) = Inr ''20260514T120000Z''"
      "toCalDAVDateTime utc_temporal (ve_end sample_event) (ve_timezone sample_event) = Inr ''20260514T120000Z''"
    using sample_time by (simp_all add: sample_event_def)
  show "splitCalendarLines (crlf_text sample_lines) = Inr sample_lines" "validateComponentNesting sample_lines = Inr ()"
      "findVEventRanges sample_lines = Inr [(1, 4)]"
    by code_simp+
  show "masterEvents sample_lines (ve_uid sample_event) [(1, 4)] = Inr [(1, 4)]"
    using sample_master by (simp add: sample_event_def)
  show "segment 0 (slice (fst (1, 4) + 1) (snd (1, 4)) sample_lines) = Inr (plain_items [(''UID'', ''u1''), (''DURATION'', ''1'')])"
    using sample_segment by (simp add: slice_def sample_lines_def numeral_2_eq_2 del: plain_items.simps)
qed (rule sample_master)

theorem mergeVEvent_keeps_witness:
  "\<exists>merged ls ls'. mergeVEvent utc_temporal (crlf_text sample_lines) sample_event = Inr merged
     \<and> splitCalendarLines (crlf_text sample_lines) = Inr ls \<and> splitCalendarLines merged = Inr ls'"
proof -
  obtain merged where m: "mergeVEvent utc_temporal (crlf_text sample_lines) sample_event = Inr merged" using sample_merged by blast
  with mergeVEvent_keeps [OF m] show ?thesis by blast
qed

theorem mergeVEvent_updates_witness:
  "\<exists>merged before its after. mergeVEvent utc_temporal (crlf_text sample_lines) sample_event = Inr merged
     \<and> splitCalendarLines merged = Inr (before @ flat its @ after) \<and> property_values ''DURATION'' its = []"
proof -
  obtain merged where m: "mergeVEvent utc_temporal (crlf_text sample_lines) sample_event = Inr merged" using sample_merged by blast
  with mergeVEvent_updates [OF m] show ?thesis by blast
qed

end
