(* ===== verification/DavXml.thy ===== *)
theory DavXml
  imports ICalendar
begin

text \<open>
  The XML half of \<open>runner/connectors/caldav/src/dav.ts\<close>: request bodies and the tolerant parser of
  multi-status responses. The regular expressions of the source are lists of the elements they use,
  and \<open>match_rx\<close> answers their first match at a position in the order in which a backtracking matcher
  tries: a greedy repetition longest first, a lazy one shortest first. All of them carry the flag \<open>i\<close>;
  their letters are lower case here and the text is compared in lower case.

  Characters above 255 are outside of the alphabet of the model; the text a numeric character
  reference to one of them stands for is the parameter \<open>wide\<close>.
\<close>

section \<open>Regular expressions\<close>

datatype rx = Ch char | Maybe char | One "char \<Rightarrow> bool" | Many "char \<Rightarrow> bool"
  | CapturedOne "char \<Rightarrow> bool" | CapturedMany "char \<Rightarrow> bool" | Lazily

text \<open>The captured text and what follows the match.\<close>

fun match_rx :: "rx list \<Rightarrow> string \<Rightarrow> (string \<times> string) option" where
  "match_rx [] s = Some ([], s)"
| "match_rx (Ch c # rs) s = (case s of [] \<Rightarrow> None | x # xs \<Rightarrow> if lower_char x = c then match_rx rs xs else None)"
| "match_rx (Maybe c # rs) s =
     (case s of
        [] \<Rightarrow> match_rx rs s
      | x # xs \<Rightarrow> if lower_char x = c then (case match_rx rs xs of Some m \<Rightarrow> Some m | None \<Rightarrow> match_rx rs s) else match_rx rs s)"
| "match_rx (One P # rs) s = (case s of [] \<Rightarrow> None | x # xs \<Rightarrow> if P x then match_rx rs xs else None)"
| "match_rx (CapturedOne P # rs) s =
     (case s of [] \<Rightarrow> None
      | x # xs \<Rightarrow> if P x then map_option (\<lambda>(cap, rest). (x # cap, rest)) (match_rx rs xs) else None)"
| "match_rx (Many P # rs) s =
     (case s of
        [] \<Rightarrow> match_rx rs s
      | x # xs \<Rightarrow> if P x then (case match_rx (Many P # rs) xs of Some m \<Rightarrow> Some m | None \<Rightarrow> match_rx rs s) else match_rx rs s)"
| "match_rx (CapturedMany P # rs) s =
     (case s of
        [] \<Rightarrow> match_rx rs s
      | x # xs \<Rightarrow>
          if P x then (case match_rx (CapturedMany P # rs) xs of Some (cap, rest) \<Rightarrow> Some (x # cap, rest) | None \<Rightarrow> match_rx rs s)
          else match_rx rs s)"
| "match_rx (Lazily # rs) s =
     (case match_rx rs s of
        Some m \<Rightarrow> Some m
      | None \<Rightarrow> (case s of [] \<Rightarrow> None
                | x # xs \<Rightarrow> map_option (\<lambda>(cap, rest). (x # cap, rest)) (match_rx (Lazily # rs) xs)))"

declare match_rx.simps(6-8) [simp del]

text \<open>The leftmost match: the matched text, the captured text and the rest.\<close>

fun find_match :: "rx list \<Rightarrow> string \<Rightarrow> (string \<times> string \<times> string) option" where
  "find_match rs [] = map_option (\<lambda>(cap, rest). ([], cap, rest)) (match_rx rs [])"
| "find_match rs (x # xs) =
     (case match_rx rs (x # xs) of
        Some (cap, rest) \<Rightarrow> Some (take (length (x # xs) - length rest) (x # xs), cap, rest)
      | None \<Rightarrow> find_match rs xs)"

text \<open>The loop over \<open>re.exec\<close>; a match of the empty text, which none of the patterns has, would end it.\<close>

function all_matches :: "rx list \<Rightarrow> string \<Rightarrow> (string \<times> string) list" where
  "all_matches rs s =
     (case find_match rs s of
        None \<Rightarrow> []
      | Some (matched, cap, rest) \<Rightarrow>
          if length rest < length s then (matched, cap) # all_matches rs rest else [(matched, cap)])"
  by pat_completeness auto
termination
  by (relation "measure (\<lambda>(_, s). length s)") auto

declare all_matches.simps [simp del]

definition name_rx :: "string \<Rightarrow> rx list" where
  "name_rx name = [Many (\<lambda>c. c \<notin> set '':>''), Maybe CHR '':''] @ map Ch name"

text \<open>\<open><[^:>]*:?name[^>]*>([\s\S]*?)</[^:>]*:?name>\<close>\<close>

definition tag_rx :: "string \<Rightarrow> rx list" where
  "tag_rx name = [Ch CHR ''<''] @ name_rx name @ [Many (\<lambda>c. c \<noteq> CHR ''>''), Ch CHR ''>'', Lazily, Ch CHR ''<'', Ch CHR ''/'']
     @ name_rx name @ [Ch CHR ''>'']"

section \<open>Responses\<close>

definition extractTag :: "string \<Rightarrow> string \<Rightarrow> string option" where
  "extractTag xml localName = map_option (\<lambda>(_, cap, _). trim cap) (find_match (tag_rx localName) xml)"

definition extractAllTags :: "string \<Rightarrow> string \<Rightarrow> string list" where
  "extractAllTags xml localName = map (\<lambda>(_, cap). trim cap) (all_matches (tag_rx localName) xml)"

definition extractHref :: "string \<Rightarrow> string option" where
  "extractHref block = extractTag block ''href''"

definition splitResponses :: "string \<Rightarrow> string list" where
  "splitResponses xml = map fst (all_matches (tag_rx ''response'') xml)"

text \<open>\<open><[^:>]*:?comp[^>]+name="([^"]+)"\<close>\<close>

definition comp_rx :: "rx list" where
  "comp_rx = [Ch CHR ''<''] @ name_rx ''comp'' @ [One (\<lambda>c. c \<noteq> CHR ''>''), Many (\<lambda>c. c \<noteq> CHR ''>'')] @ map Ch ''name=''
     @ [Ch CHR 0x22, CapturedOne (\<lambda>c. c \<noteq> CHR 0x22), CapturedMany (\<lambda>c. c \<noteq> CHR 0x22), Ch CHR 0x22]"

definition parseComponents :: "string \<Rightarrow> string list" where
  "parseComponents block = map snd (all_matches comp_rx block)"

definition isCalendarResourceType :: "string \<Rightarrow> bool" where
  "isCalendarResourceType block =
     (find_match (map Ch ''calendar'') block \<noteq> None
      \<and> find_match (Ch CHR ''<'' # name_rx ''resourcetype'') block \<noteq> None)"

section \<open>Entities\<close>

text \<open>\<open>Number.parseInt(digits, base)\<close>, and \<open>String.fromCodePoint\<close> with the range check before it.\<close>

definition digits_value :: "nat \<Rightarrow> string \<Rightarrow> nat" where
  "digits_value base ds = foldl (\<lambda>n c. n * base + (case hex_val c of Some d \<Rightarrow> d | None \<Rightarrow> 0)) 0 ds"

definition code_point :: "(nat \<Rightarrow> string) \<Rightarrow> string \<Rightarrow> nat \<Rightarrow> string" where
  "code_point wide entity n = (if 0x10ffff < n then entity else if n < 256 then [char_of n] else wide n)"

text \<open>The entity name at the start of a text, with the text after the semicolon.\<close>

definition named_entities :: "(string \<times> char) list" where
  "named_entities = [(''quot'', CHR 0x22), (''apos'', CHR 0x27), (''amp'', CHR 0x26), (''lt'', CHR ''<''), (''gt'', CHR ''>'')]"

definition is_hex :: "char \<Rightarrow> bool" where
  "is_hex c = (hex_val c \<noteq> None)"

definition numeric_entity :: "(nat \<Rightarrow> string) \<Rightarrow> string \<Rightarrow> nat \<Rightarrow> (char \<Rightarrow> bool) \<Rightarrow> nat \<Rightarrow> (string \<times> string) option" where
  "numeric_entity wide s skip P base =
     (let ds = takeWhile P (drop skip s); n = skip + length ds in
      if ds \<noteq> [] \<and> n < length s \<and> s ! n = CHR '';''
      then Some (code_point wide (CHR 0x26 # take (n + 1) s) (digits_value base ds), drop (n + 1) s) else None)"

definition entity_at :: "(nat \<Rightarrow> string) \<Rightarrow> string \<Rightarrow> (string \<times> string) option" where
  "entity_at wide s =
     (case (if to_lower (take 2 s) = ''#x'' then numeric_entity wide s 2 is_hex 16 else None) of
        Some r \<Rightarrow> Some r
      | None \<Rightarrow>
          (case (if starts_with ''#'' s then numeric_entity wide s 1 is_digit 10 else None) of
             Some r \<Rightarrow> Some r
           | None \<Rightarrow>
               map_option (\<lambda>(name, c). ([c], drop (length name + 1) s))
                 (find (\<lambda>(name, c). to_lower (take (length name + 1) s) = name @ '';'') named_entities)))"

lemma numeric_entity_shorter: "numeric_entity wide s skip P base = Some (t, rest) \<Longrightarrow> length rest \<le> length s"
  by (auto simp: numeric_entity_def Let_def split: if_splits)

lemma entity_at_shorter: "entity_at wide s = Some (t, rest) \<Longrightarrow> length rest \<le> length s"
  by (auto simp: entity_at_def split: option.splits if_splits dest: numeric_entity_shorter)

function decodeXmlText :: "(nat \<Rightarrow> string) \<Rightarrow> string \<Rightarrow> string" where
  "decodeXmlText wide [] = []"
| "decodeXmlText wide (c # s) =
     (case (if c = CHR 0x26 then entity_at wide s else None) of
        Some (t, rest) \<Rightarrow> t @ decodeXmlText wide rest
      | None \<Rightarrow> c # decodeXmlText wide s)"
  by pat_completeness auto
termination
  by (relation "measure (\<lambda>(_, s). length s)") (auto split: if_splits dest: entity_at_shorter)

section \<open>Multi-status\<close>

record ParsedDavResponse =
  dr_href :: string
  dr_displayName :: "string option"
  dr_etag :: "string option"
  dr_calendarData :: "string option"
  dr_calendarColor :: "string option"
  dr_components :: "string list option"
  dr_ctag :: "string option"
  dr_isCalendar :: bool
  dr_principalHref :: "string option"
  dr_calendarHomeHref :: "string option"

text \<open>\<open>x ? f(x) : undefined\<close> for a text: an empty one counts as absent.\<close>

definition when_text :: "string option \<Rightarrow> (string \<Rightarrow> 'a option) \<Rightarrow> 'a option" where
  "when_text s f = (case s of Some (c # cs) \<Rightarrow> f (c # cs) | _ \<Rightarrow> None)"

definition parse_response :: "(nat \<Rightarrow> string) \<Rightarrow> string \<Rightarrow> ParsedDavResponse" where
  "parse_response wide block =
     (let components = parseComponents block in
      \<lparr>dr_href = (case extractHref block of Some h \<Rightarrow> h | None \<Rightarrow> []),
       dr_displayName = extractTag block ''displayname'',
       dr_etag = when_text (extractTag block ''getetag'') (\<lambda>e. Some (decodeXmlText wide e)),
       dr_calendarData = extractTag block ''calendar-data'',
       dr_calendarColor = extractTag block ''calendar-color'',
       dr_components = (if components \<noteq> [] then Some components else None),
       dr_ctag = extractTag block ''getctag'',
       dr_isCalendar = isCalendarResourceType block,
       dr_principalHref = when_text (extractTag block ''current-user-principal'') extractHref,
       dr_calendarHomeHref = when_text (extractTag block ''calendar-home-set'') extractHref\<rparr>)"

definition parseMultiStatus :: "(nat \<Rightarrow> string) \<Rightarrow> string \<Rightarrow> ParsedDavResponse list" where
  "parseMultiStatus wide xml = map (parse_response wide) (splitResponses xml)"

section \<open>Request bodies\<close>

definition xml_text :: "string list \<Rightarrow> string" where
  "xml_text ls = join [NL] ls"

definition xml_declaration :: string where
  \<open>xml_declaration = ''<?xml version="1.0" encoding="UTF-8"?>''\<close>

definition buildPrincipalPropfind :: string where
  \<open>buildPrincipalPropfind = xml_text [xml_declaration, ''<D:propfind xmlns:D="DAV:">'', ''  <D:prop>'',
     ''    <D:current-user-principal/>'', ''  </D:prop>'', ''</D:propfind>'']\<close>

definition buildCalendarHomePropfind :: string where
  \<open>buildCalendarHomePropfind = xml_text [xml_declaration,
     ''<D:propfind xmlns:D="DAV:" xmlns:C="urn:ietf:params:xml:ns:caldav">'', ''  <D:prop>'',
     ''    <C:calendar-home-set/>'', ''  </D:prop>'', ''</D:propfind>'']\<close>

definition buildCalendarListPropfind :: string where
  \<open>buildCalendarListPropfind = xml_text [xml_declaration,
     ''<D:propfind xmlns:D="DAV:" xmlns:C="urn:ietf:params:xml:ns:caldav" xmlns:CS="http://calendarserver.org/ns/" xmlns:APPLE="http://apple.com/ns/ical/">'',
     ''  <D:prop>'', ''    <D:displayname/>'', ''    <D:resourcetype/>'', ''    <C:supported-calendar-component-set/>'',
     ''    <CS:getctag/>'', ''    <APPLE:calendar-color/>'', ''  </D:prop>'', ''</D:propfind>'']\<close>

definition date_option :: "temporal \<Rightarrow> string option \<Rightarrow> string option res" where
  "date_option tm s = (case s of None \<Rightarrow> Inr None | Some t \<Rightarrow> sbind (toCalDAVDateTime tm t None) (\<lambda>d. Inr (Some d)))"

definition buildCalendarQueryReport :: "temporal \<Rightarrow> string option \<Rightarrow> string option \<Rightarrow> string res" where
  \<open>buildCalendarQueryReport tm startText endText =
     sbind (date_option tm startText) (\<lambda>a. sbind (date_option tm endText) (\<lambda>b.
     let timeRange = (case (a, b) of
           (Some a, Some b) \<Rightarrow> [NL] @ ''      <C:time-range start="'' @ a @ ''" end="'' @ b @ ''"/>''
         | _ \<Rightarrow> [])
     in Inr (xml_text [xml_declaration, ''<C:calendar-query xmlns:D="DAV:" xmlns:C="urn:ietf:params:xml:ns:caldav">'',
          ''  <D:prop>'', ''    <D:getetag/>'', ''    <C:calendar-data/>'', ''  </D:prop>'', ''  <C:filter>'',
          ''    <C:comp-filter name="VCALENDAR">'', ''      <C:comp-filter name="VEVENT">'' @ timeRange,
          ''      </C:comp-filter>'', ''    </C:comp-filter>'', ''  </C:filter>'', ''</C:calendar-query>''])))\<close>

definition buildFreeBusyReport :: "temporal \<Rightarrow> string \<Rightarrow> string \<Rightarrow> string res" where
  \<open>buildFreeBusyReport tm startText endText =
     sbind (toCalDAVDateTime tm startText None) (\<lambda>a. sbind (toCalDAVDateTime tm endText None) (\<lambda>b.
     Inr (xml_text [xml_declaration, ''<C:free-busy-query xmlns:C="urn:ietf:params:xml:ns:caldav">'',
       ''  <C:time-range start="'' @ a @ ''" end="'' @ b @ ''"/>'', ''</C:free-busy-query>''])))\<close>

section \<open>Reading elements\<close>

lemma match_rx_letters: "match_rx (map Ch w @ rs) (v @ s) = match_rx rs s" if "to_lower v = w"
  using that by (induction w arbitrary: v) (auto simp: to_lower_def)

lemma match_rx_many:
  assumes "match_rx rs s = Some m" and "s = [] \<or> \<not> P (hd s)"
  shows "list_all P v \<Longrightarrow> match_rx (Many P # rs) (v @ s) = Some m"
proof (induction v)
  case Nil
  show ?case using assms by (cases s) (simp_all add: match_rx.simps(6))
next
  case (Cons x v)
  then show ?case by (simp add: match_rx.simps(6))
qed

lemma lower_char_fixed: "lower_char x = c \<Longrightarrow> code c < 97 \<Longrightarrow> x = c"
proof (cases "is_upper x \<or> (192 \<le> code x \<and> code x \<le> 222 \<and> code x \<noteq> 215)")
  case True
  assume "lower_char x = c" and c: "code c < 97"
  with True have "c = char_of (code x + 32)" by (simp add: lower_char_def)
  moreover have "code x + 32 < 256" "97 \<le> code x + 32" using True by (auto simp: is_upper_def)
  ultimately have "code c = code x + 32" using code_char_of by metis
  with c show ?thesis using \<open>97 \<le> code x + 32\<close> by linarith
qed (simp add: lower_char_def)

text \<open>A lazy group whose closing pattern starts with \<open><\<close> ends at the first such character that fits.\<close>

lemma match_rx_lazily:
  assumes m: "match_rx (Ch CHR ''<'' # rs) (CHR ''<'' # s) = Some (cap, rest)"
  shows "CHR ''<'' \<notin> set v \<Longrightarrow> match_rx (Lazily # Ch CHR ''<'' # rs) (v @ CHR ''<'' # s) = Some (v @ cap, rest)"
proof (induction v)
  case Nil
  show ?case using m by (simp add: match_rx.simps(8))
next
  case (Cons x v)
  have "lower_char x \<noteq> CHR ''<''" using Cons.prems lower_char_fixed [of x "CHR ''<''"] by (auto simp: code_def)
  then have "match_rx (Ch CHR ''<'' # rs) ((x # v) @ CHR ''<'' # s) = None" by simp
  then show ?case using Cons by (simp add: match_rx.simps(8))
qed

lemma lower_colon: "lower_char CHR '':'' = CHR '':''" "lower_char CHR ''<'' = CHR ''<''" "lower_char CHR ''>'' = CHR ''>''"
    "lower_char CHR ''/'' = CHR ''/''"
  by code_simp+

lemma match_name:
  assumes "list_all (\<lambda>c. c \<notin> set '':>'') p" and "to_lower v = name" and "match_rx rs s = Some m"
  shows "match_rx (name_rx name @ rs) (p @ CHR '':'' # v @ s) = Some m"
proof -
  have "match_rx (Maybe CHR '':'' # map Ch name @ rs) (CHR '':'' # v @ s) = Some m"
    using match_rx_letters [OF assms(2), of rs s] assms(3) by (simp add: lower_colon)
  from match_rx_many [OF this, of "\<lambda>c. c \<notin> set '':>''" p] assms(1) show ?thesis unfolding name_rx_def append.simps by simp
qed

definition element :: "string \<Rightarrow> string \<Rightarrow> string \<Rightarrow> string \<Rightarrow> string" where
  "element ns name attributes content =
     ''<'' @ ns @ '':'' @ name @ attributes @ ''>'' @ content @ ''</'' @ ns @ '':'' @ name @ ''>''"

definition plain_element :: "string \<Rightarrow> string \<Rightarrow> bool" where
  "plain_element ns attributes = (list_all (\<lambda>c. c \<notin> set '':>'') ns \<and> list_all (\<lambda>c. c \<noteq> CHR ''>'') attributes)"

lemma match_element:
  assumes "plain_element ns attributes" and "CHR ''<'' \<notin> set content" and "to_lower n = name"
  shows "match_rx (tag_rx name) (element ns n attributes content @ post) = Some (content, post)"
proof -
  have ns: "list_all (\<lambda>c. c \<notin> set '':>'') ns" and at: "list_all (\<lambda>c. c \<noteq> CHR ''>'') attributes"
    using assms(1) by (simp_all add: plain_element_def)
  have close: "match_rx (Ch CHR ''<'' # Ch CHR ''/'' # name_rx name @ [Ch CHR ''>''])
      (CHR ''<'' # CHR ''/'' # ns @ CHR '':'' # n @ CHR ''>'' # post) = Some ([], post)"
    using match_name [OF ns assms(3), of "[Ch CHR ''>'']" "CHR ''>'' # post"] by (simp add: lower_colon)
  have rest: "match_rx (Ch CHR ''>'' # Lazily # Ch CHR ''<'' # Ch CHR ''/'' # name_rx name @ [Ch CHR ''>''])
      (CHR ''>'' # content @ CHR ''<'' # CHR ''/'' # ns @ CHR '':'' # n @ CHR ''>'' # post) = Some (content, post)"
    using match_rx_lazily [OF close assms(2)] by (simp add: lower_colon)
  show ?thesis
    using match_name [OF ns assms(3) match_rx_many [OF rest, of "\<lambda>c. c \<noteq> CHR ''>''" attributes]] at
    by (simp add: tag_rx_def element_def lower_colon)
qed

text \<open>No element of that name starts within a text.\<close>

fun none_starts_in :: "string \<Rightarrow> string \<Rightarrow> string \<Rightarrow> bool" where
  "none_starts_in name [] s = True"
| "none_starts_in name (x # pre) s = (match_rx (tag_rx name) (x # pre @ s) = None \<and> none_starts_in name pre s)"

lemma find_element:
  assumes "plain_element ns attributes" and "CHR ''<'' \<notin> set content" and "to_lower n = name"
  shows "none_starts_in name pre (element ns n attributes content @ post)
    \<Longrightarrow> extractTag (pre @ element ns n attributes content @ post) name = Some (trim content)"
proof (induction pre)
  case Nil
  obtain x xs where "element ns n attributes content @ post = x # xs" by (simp add: element_def)
  then show ?case
    using match_element [OF assms, of post] by (simp add: extractTag_def)
next
  case (Cons x pre)
  then show ?case by (simp add: extractTag_def)
qed

section \<open>Entities\<close>

definition escape_xml_char :: "char \<Rightarrow> string" where
  "escape_xml_char c =
     (if c = CHR 0x22 then ''&quot;'' else if c = CHR 0x27 then ''&apos;'' else if c = CHR 0x26 then ''&amp;''
      else if c = CHR ''<'' then ''&lt;'' else if c = CHR ''>'' then ''&gt;'' else [c])"

definition escape_xml :: "string \<Rightarrow> string" where
  "escape_xml s = concat (map escape_xml_char s)"

lemma lower_ascii:
  "lower_char CHR ''q'' = CHR ''q''" "lower_char CHR ''u'' = CHR ''u''" "lower_char CHR ''o'' = CHR ''o''"
  "lower_char CHR ''t'' = CHR ''t''" "lower_char CHR ''a'' = CHR ''a''" "lower_char CHR ''p'' = CHR ''p''"
  "lower_char CHR ''s'' = CHR ''s''" "lower_char CHR ''m'' = CHR ''m''" "lower_char CHR ''l'' = CHR ''l''"
  "lower_char CHR ''g'' = CHR ''g''" "lower_char CHR '';'' = CHR '';''"
  by code_simp+

lemma entity_at_named:
  "entity_at wide (''quot;'' @ s) = Some ([CHR 0x22], s)" "entity_at wide (''apos;'' @ s) = Some ([CHR 0x27], s)"
  "entity_at wide (''amp;'' @ s) = Some ([CHR 0x26], s)" "entity_at wide (''lt;'' @ s) = Some (''<'', s)"
  "entity_at wide (''gt;'' @ s) = Some (''>'', s)"
  by (simp_all add: named_entities_def entity_at_def to_lower_def starts_with_def lower_ascii)

lemma decode_escape_char: "decodeXmlText wide (escape_xml_char c @ s) = c # decodeXmlText wide s"
  using entity_at_named [of wide s] by (simp add: escape_xml_char_def)

lemma decode_escape: "decodeXmlText wide (escape_xml s) = s"
  by (induction s) (simp_all add: escape_xml_def decode_escape_char)

lemma escape_xml_plain: "CHR ''<'' \<notin> set (escape_xml s)"
  by (auto simp: escape_xml_def escape_xml_char_def split: if_splits)

lemma trim_id: "s \<noteq> [] \<Longrightarrow> \<not> is_ws (hd s) \<Longrightarrow> \<not> is_ws (last s) \<Longrightarrow> trim s = s"
proof -
  assume s: "s \<noteq> []" "\<not> is_ws (hd s)" "\<not> is_ws (last s)"
  then have "dropWhile is_ws s = s" "dropWhile is_ws (rev s) = rev s"
    by (cases s, simp_all) (metis dropWhile_eq_self_iff hd_rev last.simps list.discI rev.simps(2))
  then show "trim s = s" by (simp add: trim_def)
qed

lemma escape_xml_ends:
  assumes "s \<noteq> []" and "\<not> is_ws (hd s)" and "\<not> is_ws (last s)"
  shows "escape_xml s \<noteq> [] \<and> \<not> is_ws (hd (escape_xml s)) \<and> \<not> is_ws (last (escape_xml s))"
proof -
  have amp: "\<not> is_ws CHR 0x26" "\<not> is_ws CHR '';''" by code_simp+
  have e: "escape_xml_char c \<noteq> [] \<and> (hd (escape_xml_char c) = c \<or> hd (escape_xml_char c) = CHR 0x26)
      \<and> (last (escape_xml_char c) = c \<or> last (escape_xml_char c) = CHR '';'')" for c
    by (simp add: escape_xml_char_def)
  have "escape_xml s = escape_xml_char (hd s) @ escape_xml (tl s)"
    using assms(1) by (cases s) (simp_all add: escape_xml_def)
  moreover have "escape_xml s = escape_xml (butlast s) @ escape_xml_char (last s)"
    using assms(1) by (cases s rule: rev_cases) (simp_all add: escape_xml_def)
  ultimately show ?thesis using e [of "hd s"] e [of "last s"] amp assms by (metis append_is_Nil_conv hd_append2 last_appendR)
qed

section \<open>Theorems\<close>

text \<open>The ETag a server sends is the ETag the connector uses. For an element \<open>getetag\<close> under any namespace
  prefix, in any case and with any attributes, the parser gives back exactly the text the server escaped, each
  entity decoded once.\<close>

theorem etag_roundtrip:
  assumes "plain_element ns attributes" and "to_lower n = ''getetag''"
    and "e \<noteq> []" and "\<not> is_ws (hd e)" and "\<not> is_ws (last e)"
    and "none_starts_in ''getetag'' pre (element ns n attributes (escape_xml e) @ post)"
  shows "dr_etag (parse_response wide (pre @ element ns n attributes (escape_xml e) @ post)) = Some e"
proof -
  have "extractTag (pre @ element ns n attributes (escape_xml e) @ post) ''getetag'' = Some (escape_xml e)"
    using find_element [OF assms(1) escape_xml_plain assms(2) assms(6)] trim_id escape_xml_ends [OF assms(3-5)] by simp
  moreover obtain c cs where "escape_xml e = c # cs" using escape_xml_ends [OF assms(3-5)] by (cases "escape_xml e") auto
  ultimately have "dr_etag (parse_response wide (pre @ element ns n attributes (escape_xml e) @ post)) = Some (decodeXmlText wide (escape_xml e))"
    by (simp add: parse_response_def when_text_def Let_def del: decodeXmlText.simps)
  then show ?thesis by (simp add: decode_escape)
qed

theorem etag_roundtrip_witness:
  "dr_etag (parse_response (\<lambda>_. []) (''<a>'' @ element ''D'' ''getETag'' [] (escape_xml ''&1'') @ ''</a>'')) = Some ''&1''"
proof (rule etag_roundtrip)
  show "plain_element ''D'' []" by (simp add: plain_element_def)
  show "to_lower ''getETag'' = ''getetag''" by code_simp
  show "\<not> is_ws (hd ''&1'')" "\<not> is_ws (last ''&1'')" by (simp_all add: is_ws_def code_def)
  have lower: "lower_char CHR ''a'' = CHR ''a''" "lower_char CHR ''>'' = CHR ''>''" "lower_char CHR ''<'' = CHR ''<''"
    by code_simp+
  show "none_starts_in ''getetag'' ''<a>'' (element ''D'' ''getETag'' [] (escape_xml ''&1'') @ ''</a>'')"
    by (simp add: tag_rx_def name_rx_def match_rx.simps(6) lower)
qed simp

end
