(* ===== verification/Async.thy ===== *)
theory Async
  imports Http
begin

text \<open>
  Asynchronous connector code as a sequence of outbound calls. A \<open>threaded\<close> computation starts at a time in a
  state and answers the state in the end with a promise of its result. The state of a \<open>traced\<close> computation is the
  list of events so far; an \<open>async\<close> computation is one whose events are the requests it sends, the conversation
  with a mail relay one whose events are those of a socket. \<open>await\<close> continues at the time at which the awaited promise settles.
  Contracts that are closed under sequencing: which events a computation may have (\<open>sends_only\<close>), how many
  (\<open>sends_upto\<close>), and by when it settles (\<open>settles_within\<close>).
\<close>

type_synonym ('s, 'a) threaded = "time \<Rightarrow> 's \<Rightarrow> 's \<times> 'a promise"

type_synonym ('e, 'a) traced = "('e list, 'a) threaded"

type_synonym 'a async = "(request, 'a) traced"

definition settled :: "'a res \<Rightarrow> ('s, 'a) threaded" where
  "settled r now sent = (sent, Settles now r)"

definition await_async :: "('s, 'a) threaded \<Rightarrow> ('a \<Rightarrow> ('s, 'b) threaded) \<Rightarrow> ('s, 'b) threaded" where
  "await_async m f now sent =
     (case m now sent of
        (sent', Never) \<Rightarrow> (sent', Never)
      | (sent', Settles t (Inl e)) \<Rightarrow> (sent', Settles t (Inl e))
      | (sent', Settles t (Inr a)) \<Rightarrow> f a t sent')"

definition catch_async :: "('s, 'a) threaded \<Rightarrow> (thrown \<Rightarrow> ('s, 'a) threaded) \<Rightarrow> ('s, 'a) threaded" where
  "catch_async m h now sent =
     (case m now sent of
        (sent', Settles t (Inl e)) \<Rightarrow> h e t sent'
      | outcome \<Rightarrow> outcome)"

definition check_async :: "'a res \<Rightarrow> ('a \<Rightarrow> ('s, 'b) threaded) \<Rightarrow> ('s, 'b) threaded" where
  "check_async r f = (case r of Inl e \<Rightarrow> settled (Inl e) | Inr a \<Rightarrow> f a)"

definition fetch_async :: "http_platform \<Rightarrow> http_options \<Rightarrow> ExecutionContext option \<Rightarrow> url_input \<Rightarrow> request_init \<Rightarrow> ConnectorHttpResponse async" where
  "fetch_async pf opts context url init now sent = fetchText pf opts context now url init sent"

section \<open>Steps of a computation\<close>

lemma check_asyncE:
  assumes "check_async r f now sent = (sent', p)"
  obtains e where "r = Inl e" and "sent' = sent" | a where "r = Inr a" and "f a now sent = (sent', p)"
  using assms by (cases r) (auto simp: check_async_def settled_def)

lemma await_asyncE:
  assumes "await_async m f now sent = (sent', p)"
  obtains q where "m now sent = (sent', q)"
  | t a sent1 where "m now sent = (sent1, Settles t (Inr a))" and "f a t sent1 = (sent', p)"
  using assms by (auto simp: await_async_def split: prod.splits promise.splits sum.splits)

section \<open>Which requests are sent\<close>

definition sends_only :: "('e \<Rightarrow> bool) \<Rightarrow> ('e, 'a) traced \<Rightarrow> bool" where
  "sends_only P m = (\<forall>now sent. \<exists>rs. fst (m now sent) = sent @ rs \<and> list_all P rs)"

lemma sends_onlyD: "sends_only P m \<Longrightarrow> m now sent = (sent', p) \<Longrightarrow> \<exists>rs. sent' = sent @ rs \<and> list_all P rs"
  unfolding sends_only_def by (metis fst_conv)

lemma sends_only_settled [simp, intro]: "sends_only P (settled r)"
  by (simp add: sends_only_def settled_def)

lemma sends_only_await [intro]:
  assumes "sends_only P m" and "\<And>a. sends_only P (f a)"
  shows "sends_only P (await_async m f)"
proof -
  have "\<exists>rs. fst (await_async m f now sent) = sent @ rs \<and> list_all P rs" for now sent
  proof -
    obtain sent1 p where m: "m now sent = (sent1, p)" by fastforce
    then obtain rs where rs: "sent1 = sent @ rs" "list_all P rs" using sends_onlyD [OF assms(1)] by blast
    have "\<exists>rs'. fst (f a t sent1) = sent1 @ rs' \<and> list_all P rs'" for a t
      using assms(2) [of a] by (simp add: sends_only_def)
    with m rs show ?thesis
      by (auto simp: await_async_def split: promise.splits sum.splits) (metis append_assoc list_all_append)
  qed
  then show ?thesis by (simp add: sends_only_def)
qed

lemma sends_only_catch [intro]:
  assumes "sends_only P m" and "\<And>e. sends_only P (h e)"
  shows "sends_only P (catch_async m h)"
proof -
  have "\<exists>rs. fst (catch_async m h now sent) = sent @ rs \<and> list_all P rs" for now sent
  proof -
    obtain sent1 p where m: "m now sent = (sent1, p)" by fastforce
    then obtain rs where rs: "sent1 = sent @ rs" "list_all P rs" using sends_onlyD [OF assms(1)] by blast
    have "\<exists>rs'. fst (h e t sent1) = sent1 @ rs' \<and> list_all P rs'" for e t
      using assms(2) [of e] by (simp add: sends_only_def)
    with m rs show ?thesis
      by (auto simp: catch_async_def split: promise.splits sum.splits) (metis append_assoc list_all_append)
  qed
  then show ?thesis by (simp add: sends_only_def)
qed

lemma sends_only_check [intro]: "(\<And>a. r = Inr a \<Longrightarrow> sends_only P (f a)) \<Longrightarrow> sends_only P (check_async r f)"
  by (cases r) (simp_all add: check_async_def)

text \<open>A request that leaves the HTTP boundary of a client.\<close>

definition outbound :: "(string \<Rightarrow> URL option) \<Rightarrow> http_options \<Rightarrow> url_input \<Rightarrow> request_init \<Rightarrow> request \<Rightarrow> bool" where
  "outbound parse opts url init r =
     (\<exists>u. (case url of Parsed v \<Rightarrow> Some v | Text t \<Rightarrow> parse t) = Some u
        \<and> protocol u = ''https:'' \<and> username u = [] \<and> password u = []
        \<and> hostIsAllowed (hostname u) (opt_hosts opts) \<and> sent_url r = url_href u \<and> sent_init r = init
        \<and> sent_redirect r = ''manual'')"

lemma fetch_async_sent:
  "\<exists>rs. fst (fetch_async pf opts context url init now sent) = sent @ rs \<and> length rs \<le> 1
     \<and> list_all (outbound (p_parse pf) opts url init) rs"
proof -
  obtain sent1 p where m: "fetchText pf opts context now url init sent = (sent1, p)" by fastforce
  then show ?thesis
    by (rule fetchText_sent_cases) (use m in \<open>auto simp: fetch_async_def outbound_def\<close>)
qed

lemma sends_only_fetch:
  assumes "\<And>r. outbound (p_parse pf) opts url init r \<Longrightarrow> P r"
  shows "sends_only P (fetch_async pf opts context url init)"
  unfolding sends_only_def using fetch_async_sent assms by (metis list_all_iff)

section \<open>How many requests are sent\<close>

definition sends_upto :: "nat \<Rightarrow> ('e, 'a) traced \<Rightarrow> bool" where
  "sends_upto n m = (\<forall>now sent. length (fst (m now sent)) \<le> length sent + n)"

lemma sends_upto_settled [simp, intro]: "sends_upto n (settled r)"
  by (simp add: sends_upto_def settled_def)

lemma sends_upto_mono: "sends_upto m c \<Longrightarrow> m \<le> n \<Longrightarrow> sends_upto n c"
  unfolding sends_upto_def by (meson add_le_mono1 le_trans nat_add_left_cancel_le)

lemma sends_upto_await:
  assumes "sends_upto m c" and "\<And>a. sends_upto n (f a)"
  shows "sends_upto (m + n) (await_async c f)"
proof -
  have "length (fst (await_async c f now sent)) \<le> length sent + (m + n)" for now sent
  proof -
    obtain sent1 p where c: "c now sent = (sent1, p)" by fastforce
    then have l: "length sent1 \<le> length sent + m" using assms(1) unfolding sends_upto_def by (metis fst_conv)
    have "length (fst (f a t sent1)) \<le> length sent + (m + n)" for a t
    proof -
      have "length (fst (f a t sent1)) \<le> length sent1 + n"
        using assms(2) [of a] unfolding sends_upto_def by blast
      with l show ?thesis by linarith
    qed
    with c l show ?thesis by (auto simp: await_async_def split: promise.splits sum.splits)
  qed
  then show ?thesis by (simp add: sends_upto_def)
qed

lemma sends_upto_check: "(\<And>a. r = Inr a \<Longrightarrow> sends_upto n (f a)) \<Longrightarrow> sends_upto n (check_async r f)"
  by (cases r) (simp_all add: check_async_def)

lemma sends_upto_fetch: "sends_upto 1 (fetch_async pf opts context url init)"
  unfolding sends_upto_def
proof (intro allI)
  fix now sent
  obtain rs where "fst (fetch_async pf opts context url init now sent) = sent @ rs" "length rs \<le> 1"
    using fetch_async_sent [of pf opts "context" url init now sent] by blast
  then show "length (fst (fetch_async pf opts context url init now sent)) \<le> length sent + 1" by simp
qed

section \<open>When a computation settles\<close>

definition settles_within :: "int \<Rightarrow> ('e, 'a) traced \<Rightarrow> bool" where
  "settles_within k m = (\<forall>now sent. \<exists>t r. snd (m now sent) = Settles t r \<and> t \<le> now + k)"

lemma settles_within_settled [simp, intro]: "0 \<le> k \<Longrightarrow> settles_within k (settled r)"
  by (simp add: settles_within_def settled_def)

lemma settles_within_mono: "settles_within j m \<Longrightarrow> j \<le> k \<Longrightarrow> settles_within k m"
  unfolding settles_within_def by (meson add_left_mono order_trans)

lemma settles_within_await:
  assumes "settles_within j m" and "\<And>a. settles_within k (f a)" and "0 \<le> k"
  shows "settles_within (j + k) (await_async m f)"
proof -
  have "\<exists>t r. snd (await_async m f now sent) = Settles t r \<and> t \<le> now + (j + k)" for now sent
  proof -
    obtain sent1 p where m: "m now sent = (sent1, p)" by fastforce
    then obtain t r where p: "p = Settles t r" "t \<le> now + j" using assms(1) unfolding settles_within_def by (metis snd_conv)
    show ?thesis
    proof (cases r)
      case (Inr a)
      obtain u q where "snd (f a t sent1) = Settles u q" "u \<le> t + k"
        using assms(2) [of a] unfolding settles_within_def by blast
      with m p Inr show ?thesis by (simp add: await_async_def)
    qed (use m p assms(3) in \<open>simp add: await_async_def\<close>)
  qed
  then show ?thesis by (simp add: settles_within_def)
qed

lemma settles_within_catch:
  assumes "settles_within j m" and "\<And>e. settles_within k (h e)" and "0 \<le> k"
  shows "settles_within (j + k) (catch_async m h)"
proof -
  have "\<exists>t r. snd (catch_async m h now sent) = Settles t r \<and> t \<le> now + (j + k)" for now sent
  proof -
    obtain sent1 p where m: "m now sent = (sent1, p)" by fastforce
    then obtain t r where p: "p = Settles t r" "t \<le> now + j" using assms(1) unfolding settles_within_def by (metis snd_conv)
    show ?thesis
    proof (cases r)
      case (Inl e)
      obtain u q where "snd (h e t sent1) = Settles u q" "u \<le> t + k"
        using assms(2) [of e] unfolding settles_within_def by blast
      with m p Inl show ?thesis by (simp add: catch_async_def)
    qed (use m p assms(3) in \<open>simp add: catch_async_def\<close>)
  qed
  then show ?thesis by (simp add: settles_within_def)
qed

lemma settles_within_check:
  "(\<And>a. r = Inr a \<Longrightarrow> settles_within k (f a)) \<Longrightarrow> 0 \<le> k \<Longrightarrow> settles_within k (check_async r f)"
  by (cases r) (simp_all add: check_async_def)

lemma settles_within_fetch:
  assumes "0 \<le> opt_max opts" and "0 \<le> opt_timeout opts" and "p_decode pf [] = []"
  shows "settles_within (opt_timeout opts) (fetch_async pf opts context url init)"
proof -
  have "\<exists>t r. snd (fetch_async pf opts context url init now sent) = Settles t r \<and> t \<le> now + opt_timeout opts" for now sent
  proof -
    obtain sent1 p where m: "fetchText pf opts context now url init sent = (sent1, p)" by fastforce
    from fetchText_answer [OF this assms] m show ?thesis by (auto simp: fetch_async_def)
  qed
  then show ?thesis by (simp add: settles_within_def)
qed

section \<open>Branches\<close>

lemma async_if:
  "sends_only P m \<Longrightarrow> sends_only P n \<Longrightarrow> sends_only P (if b then m else n)"
  "settles_within k m' \<Longrightarrow> settles_within k n' \<Longrightarrow> settles_within k (if b then m' else n')"
  "sends_upto i c \<Longrightarrow> sends_upto i d \<Longrightarrow> sends_upto i (if b then c else d)"
  by simp_all

lemma async_case_prod:
  "(\<And>a b. sends_only P (f a b)) \<Longrightarrow> sends_only P (case x of (a, b) \<Rightarrow> f a b)"
  "(\<And>a b. sends_upto i (g a b)) \<Longrightarrow> sends_upto i (case x of (a, b) \<Rightarrow> g a b)"
  by (cases x, simp)+

end
