(* ===== verification/Caldav.thy ===== *)
theory Caldav
  imports DavXml Async Compile
begin

text \<open>
  The CalDAV connector: \<open>runner/connectors/caldav/src/http.ts\<close> (client), \<open>actions.ts\<close> (the nine
  operations) and \<open>healthcheck.ts\<close>. An operation is a handler as the registry runs it: it answers at
  once with a thrown error, or with the promise of an asynchronous computation.

  \<^item> The platform has, besides URL parser, \<open>fetch\<close> and decoder, \<open>Temporal\<close>, the characters above 255 and
    the text \<open>generateUid\<close> gives.
  \<^item> The limits and the allowed hosts of \<open>manifest.json\<close> are \<open>operation_limits\<close> and \<open>allowed_hosts\<close>.
  \<^item> A result \<open>{ok: false, error}\<close> of a \<open>run...\<close> function is \<open>Inl\<close>, a result \<open>{ok: true, ...}\<close> is \<open>Inr\<close> with
    its fields. The injection of \<open>fetch\<close> through the input serves the tests and is left out.
\<close>

section \<open>The client\<close>

record dav_platform = http_platform +
  dp_temporal :: temporal
  dp_wide :: "nat \<Rightarrow> string"
  dp_uid :: string

definition ICLOUD_BASE_URL :: string where
  "ICLOUD_BASE_URL = ''https://caldav.icloud.com''"

definition allowed_hosts :: "string list" where
  "allowed_hosts = ''caldav.icloud.com'' # map (\<lambda>n. ''p'' @ pad_start 2 (show_nat n) @ ''-caldav.icloud.com'') [1..<100]
     @ [''caldav.fastmail.com'', ''apidata.googleusercontent.com'']"

text \<open>\<open>maxResponseBytes\<close> and \<open>timeoutMs\<close> of the operations of the manifest.\<close>

definition operation_limits :: "(string \<times> int \<times> int) list" where
  "operation_limits = [(''healthcheck'', 65536, 5000), (''principal.discover'', 65536, 15000), (''calendar_home.get'', 65536, 15000),
     (''calendars.list'', 1048576, 30000), (''events.list'', 5242880, 30000), (''events.get'', 65536, 15000),
     (''events.create'', 65536, 15000), (''events.update'', 65536, 15000), (''events.delete'', 65536, 15000),
     (''freebusy.query'', 1048576, 30000)]"

definition parseCalDAVRateLimit :: "int \<Rightarrow> (string \<times> string) list \<Rightarrow> jsnum option" where
  "parseCalDAVRateLimit httpStatus headers =
     (if httpStatus = 429
      then let retryAfter = str_to_num (case map_of headers ''retry-after'' of Some v \<Rightarrow> v | None \<Rightarrow> ''10'')
           in Some (if num_lt (Fin 0) retryAfter then retryAfter else Fin 10)
      else None)"

definition buildBasicAuth :: "string \<Rightarrow> string \<Rightarrow> string" where
  "buildBasicAuth user secret = ''Basic '' @ base64 (user @ '':'' @ secret)"

definition strip_slash :: "string \<Rightarrow> string" where
  "strip_slash s = (if ends_with ''/'' s then butlast s else s)"

definition resolveBaseUrl :: "string option \<Rightarrow> string" where
  "resolveBaseUrl baseUrl =
     (case baseUrl of Some u \<Rightarrow> if trim u \<noteq> [] then strip_slash u else ICLOUD_BASE_URL | None \<Rightarrow> ICLOUD_BASE_URL)"

record dav_client =
  cl_base :: string
  cl_http :: http_options
  cl_auth :: string

definition invalid_url :: thrown where
  "invalid_url = ErrorInst ''TypeError'' ''Invalid URL'' []"

definition plain_https :: "URL \<Rightarrow> bool" where
  "plain_https u = (protocol u = ''https:'' \<and> username u = [] \<and> password u = [] \<and> (port u = [] \<or> port u = ''443''))"

definition check_url :: "'p http_platform_scheme \<Rightarrow> string \<Rightarrow> URL res" where
  "check_url pf url =
     (case p_parse pf url of
        None \<Rightarrow> Inl invalid_url
      | Some u \<Rightarrow> sbind (guard (plain_https u) (Error ''CalDAV requires an HTTPS URL on port 443 without embedded credentials.'')) (\<lambda>_. Inr u))"

definition createCalDAVClient :: "'p http_platform_scheme \<Rightarrow> string \<Rightarrow> string \<Rightarrow> string option \<Rightarrow> string \<Rightarrow> dav_client res" where
  \<open>createCalDAVClient pf user secret baseUrl operation =
     (let limits = map_of operation_limits operation; base = resolveBaseUrl baseUrl in
      sbind (check_url pf base) (\<lambda>baseURL.
      let baseHostname = to_lower (hostname baseURL) in
      sbind (guard (baseHostname \<in> set allowed_hosts) (Error (''CalDAV host "'' @ baseHostname
               @ ''" is not in the connector'' @ [CHR 0x27] @ ''s allowedHosts list. Add it to the manifest to allow generic servers.''))) (\<lambda>_.
      sbind (createConnectorHttpClient allowed_hosts
               (JInt (case limits of Some (bytes, _) \<Rightarrow> bytes | None \<Rightarrow> 5242880))
               (case limits of Some (_, timeout) \<Rightarrow> JInt timeout | None \<Rightarrow> JUndef)) (\<lambda>http.
      Inr \<lparr>cl_base = base, cl_http = http, cl_auth = buildBasicAuth user secret\<rparr>))))\<close>

definition dav_init :: "dav_client \<Rightarrow> string \<Rightarrow> (string \<times> string) list \<Rightarrow> string option \<Rightarrow> request_init" where
  "dav_init client verb extraHeaders body =
     \<lparr>req_method = verb, req_headers = (''Authorization'', cl_auth client) # extraHeaders, req_body = body, req_signal = None\<rparr>"

definition dav_request ::
    "dav_platform \<Rightarrow> dav_client \<Rightarrow> ExecutionContext option \<Rightarrow> string \<Rightarrow> string \<Rightarrow> (string \<times> string) list \<Rightarrow> string option
     \<Rightarrow> ConnectorHttpResponse async" where
  "dav_request pf client context path verb extraHeaders body =
     (let url = (if starts_with ''http'' path then path else cl_base client @ path) in
      check_async (check_url pf url) (\<lambda>_.
      fetch_async (http_platform.truncate pf) (cl_http client) context (Text url) (dav_init client verb extraHeaders body)))"

definition xml_headers :: "string \<Rightarrow> (string \<times> string) list" where
  "xml_headers depth = [(''Content-Type'', ''application/xml; charset=utf-8''), (''Depth'', depth)]"

definition propfind :: "dav_platform \<Rightarrow> dav_client \<Rightarrow> ExecutionContext option \<Rightarrow> string \<Rightarrow> string \<Rightarrow> string \<Rightarrow> ConnectorHttpResponse async" where
  "propfind pf client context path depth body = dav_request pf client context path ''PROPFIND'' (xml_headers depth) (Some body)"

definition report :: "dav_platform \<Rightarrow> dav_client \<Rightarrow> ExecutionContext option \<Rightarrow> string \<Rightarrow> string \<Rightarrow> string \<Rightarrow> ConnectorHttpResponse async" where
  "report pf client context path depth body = dav_request pf client context path ''REPORT'' (xml_headers depth) (Some body)"

definition dav_get :: "dav_platform \<Rightarrow> dav_client \<Rightarrow> ExecutionContext option \<Rightarrow> string \<Rightarrow> ConnectorHttpResponse async" where
  "dav_get pf client context path =
     dav_request pf client context path ''GET'' [(''Accept'', ''text/calendar, application/xml'')] None"

definition putCreate :: "dav_platform \<Rightarrow> dav_client \<Rightarrow> ExecutionContext option \<Rightarrow> string \<Rightarrow> string \<Rightarrow> ConnectorHttpResponse async" where
  "putCreate pf client context path calendarData = dav_request pf client context path ''PUT''
     [(''Content-Type'', ''text/calendar; charset=utf-8''), (''If-None-Match'', ''*'')] (Some calendarData)"

definition putUpdate :: "dav_platform \<Rightarrow> dav_client \<Rightarrow> ExecutionContext option \<Rightarrow> string \<Rightarrow> string \<Rightarrow> string \<Rightarrow> ConnectorHttpResponse async" where
  "putUpdate pf client context path etag calendarData = dav_request pf client context path ''PUT''
     [(''Content-Type'', ''text/calendar; charset=utf-8''), (''If-Match'', etag)] (Some calendarData)"

definition dav_delete :: "dav_platform \<Rightarrow> dav_client \<Rightarrow> ExecutionContext option \<Rightarrow> string \<Rightarrow> string option \<Rightarrow> ConnectorHttpResponse async" where
  "dav_delete pf client context path etag = dav_request pf client context path ''DELETE''
     (case etag of Some (c # cs) \<Rightarrow> [(''If-Match'', c # cs)] | _ \<Rightarrow> []) None"

section \<open>Inputs\<close>

definition requireString :: "jsval \<Rightarrow> string \<Rightarrow> string res" where
  "requireString v field = (case v of JStr (c # cs) \<Rightarrow> Inr (c # cs) | _ \<Rightarrow> Inl (Error (field @ '' is required'')))"

definition optional_string :: "jsval \<Rightarrow> jsval" where
  "optional_string v = (case v of JStr s \<Rightarrow> JStr s | _ \<Rightarrow> JUndef)"

definition is_string :: "jsval \<Rightarrow> bool" where
  "is_string v = (case v of JStr _ \<Rightarrow> True | _ \<Rightarrow> False)"

definition string_list :: "jsval \<Rightarrow> jsval" where
  "string_list v = (case v of JArr xs \<Rightarrow> JArr (filter is_string xs) | _ \<Rightarrow> JUndef)"

text \<open>The entries of a validated payload in the order of the object literal of a validator.\<close>

datatype payload_field = Required string | Optional string | Strings string

primrec read_field :: "jsval \<Rightarrow> payload_field \<Rightarrow> (string \<times> jsval) res" where
  "read_field input (Required k) = sbind (requireString (get input k) k) (\<lambda>s. Inr (k, JStr s))"
| "read_field input (Optional k) = Inr (k, optional_string (get input k))"
| "read_field input (Strings k) = Inr (k, string_list (get input k))"

definition validate_input :: "string \<Rightarrow> payload_field list \<Rightarrow> jsval \<Rightarrow> props res" where
  "validate_input action spec input =
     (if \<not> is_record input then Inl (Error (action @ '' input must be an object''))
      else map_res (read_field input) ([Required ''username'', Required ''password'', Optional ''baseUrl''] @ spec))"

definition validatePrincipalDiscoverInput :: "jsval \<Rightarrow> props res" where
  "validatePrincipalDiscoverInput = validate_input ''principal.discover'' []"

definition validateCalendarHomeGetInput :: "jsval \<Rightarrow> props res" where
  "validateCalendarHomeGetInput = validate_input ''calendar_home.get'' [Required ''principalHref'']"

definition validateCalendarsListInput :: "jsval \<Rightarrow> props res" where
  "validateCalendarsListInput = validate_input ''calendars.list'' [Required ''calendarHomeHref'']"

definition validateEventsListInput :: "jsval \<Rightarrow> props res" where
  "validateEventsListInput = validate_input ''events.list'' [Required ''calendarHref'', Optional ''start'', Optional ''end'']"

definition validateEventsGetInput :: "jsval \<Rightarrow> props res" where
  "validateEventsGetInput = validate_input ''events.get'' [Required ''eventHref'']"

definition validateEventsCreateInput :: "jsval \<Rightarrow> props res" where
  "validateEventsCreateInput = validate_input ''events.create'' [Required ''calendarHref'', Required ''summary'', Required ''start'',
     Required ''end'', Optional ''uid'', Optional ''description'', Optional ''location'', Optional ''timezone'', Strings ''attendees'']"

definition validateEventsUpdateInput :: "jsval \<Rightarrow> props res" where
  "validateEventsUpdateInput = validate_input ''events.update'' [Required ''eventHref'', Required ''etag'', Required ''uid'', Required ''summary'',
     Required ''start'', Required ''end'', Optional ''description'', Optional ''location'', Optional ''timezone'', Strings ''attendees'']"

definition validateEventsDeleteInput :: "jsval \<Rightarrow> props res" where
  "validateEventsDeleteInput = validate_input ''events.delete'' [Required ''eventHref'', Optional ''etag'']"

definition validateFreeBusyQueryInput :: "jsval \<Rightarrow> props res" where
  "validateFreeBusyQueryInput = validate_input ''freebusy.query'' [Required ''href'', Required ''start'', Required ''end'']"

text \<open>Reading a payload.\<close>

definition text_at :: "props \<Rightarrow> string \<Rightarrow> string" where
  "text_at payload k = str_of (prop_get payload k)"

definition text_option :: "props \<Rightarrow> string \<Rightarrow> string option" where
  "text_option payload k = (case prop_get payload k of JStr s \<Rightarrow> Some s | _ \<Rightarrow> None)"

definition texts_option :: "props \<Rightarrow> string \<Rightarrow> string list option" where
  "texts_option payload k = (case prop_get payload k of JArr xs \<Rightarrow> Some (map str_of xs) | _ \<Rightarrow> None)"

definition event_input :: "string \<Rightarrow> props \<Rightarrow> VEventInput" where
  "event_input uid payload =
     \<lparr>ve_uid = uid, ve_summary = text_at payload ''summary'', ve_start = text_at payload ''start'', ve_end = text_at payload ''end'',
      ve_description = text_option payload ''description'', ve_location = text_option payload ''location'',
      ve_timezone = text_option payload ''timezone'', ve_attendees = texts_option payload ''attendees''\<rparr>"

definition clientOpts :: "dav_platform \<Rightarrow> jsval \<Rightarrow> string \<Rightarrow> dav_client res" where
  "clientOpts pf input operation =
     createCalDAVClient pf (str_of (get input ''username'')) (str_of (get input ''password''))
       (case get input ''baseUrl'' of JStr s \<Rightarrow> Some s | _ \<Rightarrow> None) operation"

section \<open>Results\<close>

record dav_error =
  de_code :: string
  de_message :: string
  de_retry :: jsval

definition upstream :: "string \<Rightarrow> dav_error" where
  "upstream message = \<lparr>de_code = ''CONNECTOR_UPSTREAM_ERROR'', de_message = message, de_retry = JUndef\<rparr>"

definition handleError :: "ConnectorHttpResponse \<Rightarrow> string \<Rightarrow> dav_error" where
  "handleError response fallbackMessage =
     (case parseCalDAVRateLimit (rs_status response) (rs_headers response) of
        Some n \<Rightarrow> \<lparr>de_code = ''CONNECTOR_RATE_LIMITED'', de_message = ''CalDAV rate limit exceeded.'', de_retry = JNum n\<rparr>
      | None \<Rightarrow>
          if rs_status response = 401 \<or> rs_status response = 403
          then upstream ''CalDAV authentication failed: invalid username or password.''
          else upstream fallbackMessage)"

definition conflict :: dav_error where
  "conflict = upstream ''CalDAV conflict: event was modified by another client (ETag mismatch).''"

definition throwIfError :: "dav_error \<Rightarrow> thrown" where
  "throwIfError e = ThrownVal (JObj [(''ok'', JBool False), (''code'', JStr (de_code e)), (''message'', JStr (de_message e)),
     (''retryAfterSeconds'', de_retry e)])"

type_synonym dav_run = "(dav_error + props) async"

definition finished :: "props \<Rightarrow> dav_run" where
  "finished ps = settled (Inr (Inr ps))"

definition failed :: "dav_error \<Rightarrow> dav_run" where
  "failed e = settled (Inr (Inl e))"

definition header_etag :: "ConnectorHttpResponse \<Rightarrow> string" where
  "header_etag response =
     (case map_of (rs_headers response) ''etag'' of Some e \<Rightarrow> e
      | None \<Rightarrow> (case map_of (rs_headers response) ''ETag'' of Some e \<Rightarrow> e | None \<Rightarrow> []))"

definition or_empty :: "string option \<Rightarrow> jsval" where
  "or_empty s = JStr (case s of Some t \<Rightarrow> t | None \<Rightarrow> [])"

definition multi_status :: "ConnectorHttpResponse \<Rightarrow> bool" where
  "multi_status response = (rs_status response = 207 \<or> rs_status response = 200)"

definition stored :: "ConnectorHttpResponse \<Rightarrow> bool" where
  "stored response = (rs_status response \<in> {201, 200, 204})"

text \<open>The first non-empty text of a list.\<close>

definition first_text :: "string option list \<Rightarrow> string" where
  "first_text ts = (case find (\<lambda>t. given_text t) ts of Some (Some t) \<Rightarrow> t | _ \<Rightarrow> [])"

section \<open>Operations\<close>

definition runPrincipalDiscover :: "dav_platform \<Rightarrow> ExecutionContext option \<Rightarrow> string \<Rightarrow> jsval \<Rightarrow> dav_run" where
  "runPrincipalDiscover pf context operation input =
     check_async (validatePrincipalDiscoverInput input) (\<lambda>payload.
     check_async (clientOpts pf input operation) (\<lambda>client.
     await_async (propfind pf client context ''/'' ''0'' buildPrincipalPropfind) (\<lambda>response.
     if multi_status response
     then let found = first_text (map dr_principalHref (parseMultiStatus (dp_wide pf) (rs_body response)))
          in finished [(''principalHref'', JStr (if found = [] then ''/principals/'' @ text_at payload ''username'' @ ''/'' else found))]
     else failed (handleError response ''CalDAV principal discovery failed.''))))"

definition runCalendarHomeGet :: "dav_platform \<Rightarrow> ExecutionContext option \<Rightarrow> jsval \<Rightarrow> dav_run" where
  "runCalendarHomeGet pf context input =
     check_async (validateCalendarHomeGetInput input) (\<lambda>payload.
     check_async (clientOpts pf input ''calendar_home.get'') (\<lambda>client.
     await_async (propfind pf client context (text_at payload ''principalHref'') ''0'' buildCalendarHomePropfind) (\<lambda>response.
     if multi_status response
     then finished [(''calendarHomeHref'', JStr (first_text (map dr_calendarHomeHref (parseMultiStatus (dp_wide pf) (rs_body response)))))]
     else failed (handleError response ''CalDAV calendar home discovery failed.''))))"

definition calendar_entry :: "ParsedDavResponse \<Rightarrow> jsval" where
  "calendar_entry r = JObj [(''href'', JStr (dr_href r)), (''displayName'', or_empty (dr_displayName r)),
     (''color'', or_empty (dr_calendarColor r)),
     (''components'', JArr (map JStr (case dr_components r of Some cs \<Rightarrow> cs | None \<Rightarrow> []))), (''ctag'', or_empty (dr_ctag r))]"

definition runCalendarsList :: "dav_platform \<Rightarrow> ExecutionContext option \<Rightarrow> jsval \<Rightarrow> dav_run" where
  "runCalendarsList pf context input =
     check_async (validateCalendarsListInput input) (\<lambda>payload.
     check_async (clientOpts pf input ''calendars.list'') (\<lambda>client.
     let home = text_at payload ''calendarHomeHref'' in
     await_async (propfind pf client context home ''1'' buildCalendarListPropfind) (\<lambda>response.
     if multi_status response
     then finished [(''calendars'', JArr (map calendar_entry
            (filter (\<lambda>r. dr_isCalendar r \<and> dr_href r \<noteq> home) (parseMultiStatus (dp_wide pf) (rs_body response)))))]
     else failed (handleError response ''CalDAV calendars.list failed.''))))"

definition vevent_fields :: "ParsedVEvent \<Rightarrow> props" where
  "vevent_fields v = [(''uid'', or_empty (pe_uid v)), (''summary'', or_empty (pe_summary v)), (''start'', or_empty (pe_start v)),
     (''end'', or_empty (pe_end v)), (''location'', or_empty (pe_location v)), (''description'', or_empty (pe_description v))]"

definition event_entry :: "ParsedDavResponse \<Rightarrow> jsval res" where
  "event_entry r =
     (let calendarData = (case dr_calendarData r of Some d \<Rightarrow> d | None \<Rightarrow> []) in
      sbind (parseVEvent calendarData) (\<lambda>v.
      Inr (JObj ([(''href'', JStr (dr_href r)), (''etag'', or_empty (dr_etag r))] @ vevent_fields v @ [(''calendarData'', JStr calendarData)]))))"

definition runEventsList :: "dav_platform \<Rightarrow> ExecutionContext option \<Rightarrow> jsval \<Rightarrow> dav_run" where
  "runEventsList pf context input =
     check_async (validateEventsListInput input) (\<lambda>payload.
     check_async (clientOpts pf input ''events.list'') (\<lambda>client.
     check_async (buildCalendarQueryReport (dp_temporal pf) (text_option payload ''start'') (text_option payload ''end'')) (\<lambda>reportBody.
     await_async (report pf client context (text_at payload ''calendarHref'') ''1'' reportBody) (\<lambda>response.
     if multi_status response
     then check_async (map_res event_entry (filter (\<lambda>r. given_text (dr_calendarData r)) (parseMultiStatus (dp_wide pf) (rs_body response))))
            (\<lambda>events. finished [(''events'', JArr events)])
     else failed (handleError response ''CalDAV events.list failed.'')))))"

definition runEventsGet :: "dav_platform \<Rightarrow> ExecutionContext option \<Rightarrow> jsval \<Rightarrow> dav_run" where
  "runEventsGet pf context input =
     check_async (validateEventsGetInput input) (\<lambda>payload.
     check_async (clientOpts pf input ''events.get'') (\<lambda>client.
     await_async (dav_get pf client context (text_at payload ''eventHref'')) (\<lambda>response.
     if rs_status response = 200
     then check_async (parseVEvent (rs_body response)) (\<lambda>v.
            finished (vevent_fields v @ [(''etag'', JStr (header_etag response)), (''calendarData'', JStr (rs_body response))]))
     else if rs_status response = 404 then failed (upstream ''Event not found.'')
     else failed (handleError response ''CalDAV events.get failed.''))))"

definition runEventsCreate :: "dav_platform \<Rightarrow> ExecutionContext option \<Rightarrow> jsval \<Rightarrow> dav_run" where
  "runEventsCreate pf context input =
     check_async (validateEventsCreateInput input) (\<lambda>payload.
     let uid = (case text_option payload ''uid'' of Some u \<Rightarrow> u | None \<Rightarrow> dp_uid pf) in
     check_async (clientOpts pf input ''events.create'') (\<lambda>client.
     check_async (buildVEvent (dp_temporal pf) (event_input uid payload)) (\<lambda>calendarData.
     let href = strip_slash (text_at payload ''calendarHref'') @ ''/'' @ uid @ ''.ics'' in
     await_async (putCreate pf client context href calendarData) (\<lambda>response.
     if stored response
     then finished [(''href'', JStr href), (''uid'', JStr uid), (''etag'', JStr (header_etag response))]
     else failed (handleError response ''CalDAV events.create failed.'')))))"

text \<open>What an update does with the answer of its read.\<close>

definition update_after ::
    "dav_platform \<Rightarrow> dav_client \<Rightarrow> ExecutionContext option \<Rightarrow> string \<Rightarrow> string \<Rightarrow> VEventInput \<Rightarrow> ConnectorHttpResponse \<Rightarrow> dav_run" where
  "update_after pf client context href etag event current =
     (if rs_status current \<noteq> 200
      then failed (if rs_status current = 412 then conflict else handleError current ''CalDAV events.update read failed.'')
      else if header_etag current = [] \<or> header_etag current \<noteq> etag then failed conflict
      else case mergeVEvent (dp_temporal pf) (rs_body current) event of
          Inl _ \<Rightarrow> failed (upstream ''CalDAV event resource cannot be safely updated.'')
        | Inr calendarData \<Rightarrow>
            await_async (putUpdate pf client context href etag calendarData) (\<lambda>response.
            if stored response
            then finished [(''href'', JStr href), (''etag'', JStr (header_etag response))]
            else if rs_status response = 412 then failed conflict
            else failed (handleError response ''CalDAV events.update failed.'')))"

definition runEventsUpdate :: "dav_platform \<Rightarrow> ExecutionContext option \<Rightarrow> jsval \<Rightarrow> dav_run" where
  "runEventsUpdate pf context input =
     check_async (validateEventsUpdateInput input) (\<lambda>payload.
     let href = text_at payload ''eventHref''; etag = text_at payload ''etag'';
         event = event_input (text_at payload ''uid'') payload in
     check_async (clientOpts pf input ''events.update'') (\<lambda>client.
     check_async (buildVEvent (dp_temporal pf) event) (\<lambda>_.
     await_async (dav_get pf client context href) (update_after pf client context href etag event))))"

definition runEventsDelete :: "dav_platform \<Rightarrow> ExecutionContext option \<Rightarrow> jsval \<Rightarrow> dav_run" where
  "runEventsDelete pf context input =
     check_async (validateEventsDeleteInput input) (\<lambda>payload.
     check_async (clientOpts pf input ''events.delete'') (\<lambda>client.
     await_async (dav_delete pf client context (text_at payload ''eventHref'') (text_option payload ''etag'')) (\<lambda>response.
     if rs_status response = 204 \<or> rs_status response = 200
     then finished [(''deleted'', JBool True), (''alreadyGone'', JBool False)]
     else if rs_status response = 404 then finished [(''deleted'', JBool True), (''alreadyGone'', JBool True)]
     else if rs_status response = 412 then failed conflict
     else failed (handleError response ''CalDAV events.delete failed.''))))"

definition runFreeBusyQuery :: "dav_platform \<Rightarrow> ExecutionContext option \<Rightarrow> jsval \<Rightarrow> dav_run" where
  "runFreeBusyQuery pf context input =
     check_async (validateFreeBusyQueryInput input) (\<lambda>payload.
     check_async (clientOpts pf input ''freebusy.query'') (\<lambda>client.
     check_async (buildFreeBusyReport (dp_temporal pf) (text_at payload ''start'') (text_at payload ''end'')) (\<lambda>reportBody.
     await_async (report pf client context (text_at payload ''href'') ''0'' reportBody) (\<lambda>response.
     if multi_status response
     then finished [(''freeBusyData'', JStr (rs_body response)), (''status'', JInt (rs_status response))]
     else failed (handleError response ''CalDAV freebusy.query failed.'')))))"

section \<open>Handlers\<close>

definition credentialed :: "jsval \<Rightarrow> bool" where
  "credentialed input = (is_record input \<and> is_string (get input ''username'') \<and> is_string (get input ''password''))"

definition action_output :: "string \<Rightarrow> props \<Rightarrow> marked" where
  "action_output action ps = unmarked (JObj ([(''connector'', JStr ''caldav''), (''action'', JStr action), (''source'', JStr ''connector'')] @ ps))"

definition then_output :: "string \<Rightarrow> dav_run \<Rightarrow> marked async" where
  "then_output action m = await_async m (\<lambda>r. settled (case r of Inl e \<Rightarrow> Inl (throwIfError e) | Inr ps \<Rightarrow> Inr (action_output action ps)))"

definition dav_action ::
    "string \<Rightarrow> (jsval \<Rightarrow> props res) \<Rightarrow> (ExecutionContext option \<Rightarrow> jsval \<Rightarrow> dav_run) \<Rightarrow> request list handler" where
  "dav_action action validate run context now input sent =
     (if credentialed input
      then (case then_output action (run context input) now sent of (sent', p) \<Rightarrow> (sent', Inr (Pending p)))
      else (sent, sbind (validate input) (\<lambda>v. Inr (Value (action_output action [(''validated'', JObj v)])))))"

definition caldav_actions :: "dav_platform \<Rightarrow> (string \<times> request list handler) list" where
  "caldav_actions pf =
     [(''principal.discover'', dav_action ''principal.discover'' validatePrincipalDiscoverInput
         (\<lambda>context. runPrincipalDiscover pf context ''principal.discover'')),
      (''calendar_home.get'', dav_action ''calendar_home.get'' validateCalendarHomeGetInput (runCalendarHomeGet pf)),
      (''calendars.list'', dav_action ''calendars.list'' validateCalendarsListInput (runCalendarsList pf)),
      (''events.list'', dav_action ''events.list'' validateEventsListInput (runEventsList pf)),
      (''events.get'', dav_action ''events.get'' validateEventsGetInput (runEventsGet pf)),
      (''events.create'', dav_action ''events.create'' validateEventsCreateInput (runEventsCreate pf)),
      (''events.update'', dav_action ''events.update'' validateEventsUpdateInput (runEventsUpdate pf)),
      (''events.delete'', dav_action ''events.delete'' validateEventsDeleteInput (runEventsDelete pf)),
      (''freebusy.query'', dav_action ''freebusy.query'' validateFreeBusyQueryInput (runFreeBusyQuery pf))]"

definition health_output :: "string \<Rightarrow> marked" where
  "health_output source = unmarked (JObj [(''connector'', JStr ''caldav''), (''status'', JStr ''ok''), (''source'', JStr source)])"

definition unavailable_error :: "thrown \<Rightarrow> thrown" where
  "unavailable_error e =
     (if is_http_error e then e
      else ThrownVal (failure ''CONNECTOR_UNAVAILABLE''
             (case e of ErrorInst _ m _ \<Rightarrow> m | ThrownVal _ \<Rightarrow> ''CalDAV server could not be reached.'')))"

definition verifyCredentials :: "dav_platform \<Rightarrow> ExecutionContext option \<Rightarrow> jsval \<Rightarrow> marked async" where
  "verifyCredentials pf context input =
     await_async (catch_async (runPrincipalDiscover pf context ''healthcheck'' input) (\<lambda>e. settled (Inl (unavailable_error e))))
       (\<lambda>r. settled (case r of Inl e \<Rightarrow> Inl (throwIfError e) | Inr _ \<Rightarrow> Inr (health_output ''provider'')))"

definition caldav_healthcheck :: "dav_platform \<Rightarrow> request list handler" where
  "caldav_healthcheck pf context now input sent =
     (if credentialed input
      then (case verifyCredentials pf context input now sent of (sent', p) \<Rightarrow> (sent', Inr (Pending p)))
      else (sent, Inr (Value (health_output ''connector''))))"

section \<open>Requests of the connector\<close>

text \<open>
  A request as it may leave the connector: over https without embedded credentials, on the default port,
  to a host of the manifest, no redirects, with the credentials of the input; a PUT is conditional.
\<close>

definition conditional_put :: "request_init \<Rightarrow> bool" where
  "conditional_put init =
     (req_method init = ''PUT'' \<longrightarrow>
        map_of (req_headers init) ''If-None-Match'' = Some ''*''
        \<or> (case map_of (req_headers init) ''If-Match'' of Some e \<Rightarrow> e \<noteq> [] | None \<Rightarrow> False))"

definition dav_request_ok :: "(string \<Rightarrow> URL option) \<Rightarrow> string \<Rightarrow> string \<Rightarrow> request \<Rightarrow> bool" where
  "dav_request_ok parse user secret r =
     ((\<exists>text u. parse text = Some u \<and> plain_https u \<and> hostIsAllowed (hostname u) allowed_hosts \<and> sent_url r = url_href u)
      \<and> sent_redirect r = ''manual''
      \<and> map_of (req_headers (sent_init r)) ''Authorization'' = Some (buildBasicAuth user secret)
      \<and> conditional_put (sent_init r))"

definition client_of :: "string \<Rightarrow> string \<Rightarrow> dav_client \<Rightarrow> bool" where
  "client_of user secret client =
     (opt_hosts (cl_http client) = allowed_hosts \<and> cl_auth client = buildBasicAuth user secret
      \<and> 0 \<le> opt_max (cl_http client) \<and> 0 \<le> opt_timeout (cl_http client) \<and> opt_timeout (cl_http client) \<le> 30000)"

lemma createConnectorHttpClient_Inr:
  assumes "createConnectorHttpClient hosts m t = Inr http" and "t \<noteq> JUndef"
  shows "opt_hosts http = hosts \<and> 0 < opt_max http \<and> 0 < opt_timeout http \<and> opt_timeout http = int_of t"
  using assms by (auto simp: createConnectorHttpClient_def Let_def simp del: budget_values split: if_splits elim!: budget_withinE)

lemma operation_limits_bounds:
  "map_of operation_limits operation = Some (b, t) \<Longrightarrow> t \<le> 30000"
  by (auto simp: operation_limits_def split: if_splits)

text \<open>Every operation that is run has limits in the manifest.\<close>

definition known_operation :: "string \<Rightarrow> bool" where
  "known_operation operation = (map_of operation_limits operation \<noteq> None)"

lemma createCalDAVClient_Inr:
  assumes "createCalDAVClient pf user secret baseUrl operation = Inr client" and "known_operation operation"
  shows "client_of user secret client"
proof -
  obtain b t where l: "map_of operation_limits operation = Some (b, t)" using assms(2) by (auto simp: known_operation_def)
  then obtain http where h: "createConnectorHttpClient allowed_hosts (JInt b) (JInt t) = Inr http" "cl_http client = http"
      "cl_auth client = buildBasicAuth user secret"
    using assms(1) by (auto simp: createCalDAVClient_def Let_def res_simps)
  have "int_of (JInt t) = t" by simp
  with createConnectorHttpClient_Inr [OF h(1)] h operation_limits_bounds [OF l] show ?thesis by (simp add: client_of_def)
qed

lemma check_url_Inr: "check_url pf url = Inr u \<Longrightarrow> p_parse pf url = Some u \<and> plain_https u"
  by (auto simp: check_url_def res_simps split: option.splits)

lemma dav_request_sends:
  assumes "client_of user secret client" and "map_of extra ''Authorization'' = None"
    and "conditional_put (dav_init client verb extra body)"
  shows "sends_only (dav_request_ok (p_parse pf) user secret) (dav_request pf client context path verb extra body)"
proof -
  let ?url = "if starts_with ''http'' path then path else cl_base client @ path"
  have "sends_only (dav_request_ok (p_parse pf) user secret)
      (fetch_async (http_platform.truncate pf) (cl_http client) context (Text ?url) (dav_init client verb extra body))"
    if u: "check_url pf ?url = Inr u" for u
  proof (rule sends_only_fetch)
    fix r
    assume "outbound (p_parse (http_platform.truncate pf)) (cl_http client) (Text ?url) (dav_init client verb extra body) r"
    then show "dav_request_ok (p_parse pf) user secret r"
      using check_url_Inr [OF u] assms
      by (auto simp: outbound_def dav_request_ok_def client_of_def dav_init_def http_platform.truncate_def)
  qed
  then show ?thesis unfolding dav_request_def Let_def by (intro sends_only_check)
qed

lemma dav_request_settles:
  assumes "client_of user secret client" and "p_decode pf [] = []"
  shows "settles_within 30000 (dav_request pf client context path verb extra body)"
proof -
  have "settles_within 30000 (fetch_async (http_platform.truncate pf) (cl_http client) context url init)" for url init
    by (rule settles_within_mono [OF settles_within_fetch])
       (use assms in \<open>auto simp: client_of_def http_platform.truncate_def\<close>)
  then show ?thesis unfolding dav_request_def Let_def by (intro settles_within_check) auto
qed

text \<open>The client calls, with what they need to know of their arguments.\<close>

lemma client_calls:
  assumes "client_of user secret client"
  shows "sends_only (dav_request_ok (p_parse pf) user secret) (propfind pf client context path depth body)"
    and "sends_only (dav_request_ok (p_parse pf) user secret) (report pf client context path depth body)"
    and "sends_only (dav_request_ok (p_parse pf) user secret) (dav_get pf client context path)"
    and "sends_only (dav_request_ok (p_parse pf) user secret) (putCreate pf client context path calendarData)"
    and "etag \<noteq> [] \<Longrightarrow> sends_only (dav_request_ok (p_parse pf) user secret) (putUpdate pf client context path etag calendarData)"
    and "sends_only (dav_request_ok (p_parse pf) user secret) (dav_delete pf client context path condition)"
  using assms
  by (auto simp: propfind_def report_def dav_get_def putCreate_def putUpdate_def dav_delete_def xml_headers_def conditional_put_def
      dav_init_def intro!: dav_request_sends split: option.splits list.splits)

lemma client_calls_settle:
  assumes "client_of user secret client" and "p_decode pf [] = []"
  shows "settles_within 30000 (propfind pf client context path depth body)"
    and "settles_within 30000 (report pf client context path depth body)"
    and "settles_within 30000 (dav_get pf client context path)"
    and "settles_within 30000 (putCreate pf client context path calendarData)"
    and "settles_within 30000 (putUpdate pf client context path etag calendarData)"
    and "settles_within 30000 (dav_delete pf client context path condition)"
  using dav_request_settles [OF assms]
  by (simp_all add: propfind_def report_def dav_get_def putCreate_def putUpdate_def dav_delete_def)

lemma clientOpts_Inr:
  assumes "clientOpts pf input operation = Inr client" and "known_operation operation"
  shows "client_of (str_of (get input ''username'')) (str_of (get input ''password'')) client"
  using createCalDAVClient_Inr [OF assms(1) [unfolded clientOpts_def] assms(2)] .

section \<open>Operations\<close>

lemma run_ends [simp, intro]: "sends_only P (finished ps)" "sends_only P (failed e)"
    "0 \<le> k \<Longrightarrow> settles_within k (finished ps)" "0 \<le> k \<Longrightarrow> settles_within k (failed e)"
  by (simp_all add: finished_def failed_def)

lemma known_operations:
  "known_operation ''healthcheck''" "known_operation ''principal.discover''" "known_operation ''calendar_home.get''"
  "known_operation ''calendars.list''" "known_operation ''events.list''" "known_operation ''events.get''"
  "known_operation ''events.create''" "known_operation ''events.update''" "known_operation ''events.delete''"
  "known_operation ''freebusy.query''"
  by (simp_all add: known_operation_def operation_limits_def)

lemma update_payload_etag:
  assumes "validateEventsUpdateInput input = Inr payload"
  shows "text_at payload ''etag'' \<noteq> []"
  using assms
  by (auto simp: validateEventsUpdateInput_def validate_input_def requireString_def res_simps text_at_def prop_get_def str_of_def
      split: if_splits jsval.splits list.splits)

lemmas run_defs = runPrincipalDiscover_def runCalendarHomeGet_def runCalendarsList_def runEventsList_def runEventsGet_def
  runEventsCreate_def runEventsDelete_def runFreeBusyQuery_def

lemmas validator_defs = validatePrincipalDiscoverInput_def validateCalendarHomeGetInput_def validateCalendarsListInput_def
  validateEventsListInput_def validateEventsGetInput_def validateEventsCreateInput_def validateEventsUpdateInput_def
  validateEventsDeleteInput_def validateFreeBusyQueryInput_def

abbreviation own_request :: "dav_platform \<Rightarrow> jsval \<Rightarrow> request \<Rightarrow> bool" where
  "own_request pf input \<equiv> dav_request_ok (p_parse pf) (str_of (get input ''username'')) (str_of (get input ''password''))"

lemma runs_send:
  "known_operation operation \<Longrightarrow> sends_only (own_request pf input) (runPrincipalDiscover pf context operation input)"
  "sends_only (own_request pf input) (runCalendarHomeGet pf context input)"
  "sends_only (own_request pf input) (runCalendarsList pf context input)"
  "sends_only (own_request pf input) (runEventsList pf context input)"
  "sends_only (own_request pf input) (runEventsGet pf context input)"
  "sends_only (own_request pf input) (runEventsCreate pf context input)"
  "sends_only (own_request pf input) (runEventsDelete pf context input)"
  "sends_only (own_request pf input) (runFreeBusyQuery pf context input)"
  unfolding run_defs validator_defs Let_def
  by (intro sends_only_check sends_only_await async_if run_ends client_calls clientOpts_Inr; (assumption | rule known_operations))+

lemma runEventsUpdate_sends: "sends_only (own_request pf input) (runEventsUpdate pf context input)"
proof -
  have "sends_only (own_request pf input) (putUpdate pf client context path (text_at payload ''etag'') calendarData)"
    if "validateEventsUpdateInput input = Inr payload" "clientOpts pf input ''events.update'' = Inr client"
    for payload client path calendarData
    using that update_payload_etag clientOpts_Inr client_calls(5) known_operations by blast
  then show ?thesis
    unfolding runEventsUpdate_def update_after_def Let_def
    by (intro sends_only_check sends_only_await async_if run_ends client_calls(3))
       (auto simp: validateEventsUpdateInput_def intro: clientOpts_Inr known_operations split: sum.split)
qed

lemma settles_call:
  assumes "settles_within 30000 m" and "\<And>a. settles_within 0 (f a)"
  shows "settles_within 30000 (await_async m f)"
  using settles_within_await [OF assms] by simp

lemma calls_settle:
  assumes "clientOpts pf input operation = Inr client" and "known_operation operation" and "p_decode pf [] = []"
  shows "settles_within 30000 (propfind pf client context path depth body)"
    and "settles_within 30000 (report pf client context path depth body)"
    and "settles_within 30000 (dav_get pf client context path)"
    and "settles_within 30000 (putCreate pf client context path calendarData)"
    and "settles_within 30000 (putUpdate pf client context path etag calendarData)"
    and "settles_within 30000 (dav_delete pf client context path condition)"
proof -
  show "settles_within 30000 (propfind pf client context path depth body)"
    and "settles_within 30000 (report pf client context path depth body)"
    and "settles_within 30000 (dav_get pf client context path)"
    and "settles_within 30000 (putCreate pf client context path calendarData)"
    and "settles_within 30000 (putUpdate pf client context path etag calendarData)"
    and "settles_within 30000 (dav_delete pf client context path condition)"
    by (rule client_calls_settle [OF clientOpts_Inr [OF assms(1,2)] assms(3)])+
qed

lemma runs_settle:
  assumes "p_decode pf [] = []"
  shows "known_operation operation \<Longrightarrow> settles_within 30000 (runPrincipalDiscover pf context operation input)"
    and "settles_within 30000 (runCalendarHomeGet pf context input)"
    and "settles_within 30000 (runCalendarsList pf context input)"
    and "settles_within 30000 (runEventsList pf context input)"
    and "settles_within 30000 (runEventsGet pf context input)"
    and "settles_within 30000 (runEventsCreate pf context input)"
    and "settles_within 30000 (runEventsDelete pf context input)"
    and "settles_within 30000 (runFreeBusyQuery pf context input)"
  unfolding run_defs validator_defs Let_def
  by (intro settles_within_check settles_call async_if run_ends calls_settle;
      (assumption | rule known_operations | rule assms | simp))+

lemma runEventsUpdate_settles:
  assumes "p_decode pf [] = []"
  shows "settles_within 60000 (runEventsUpdate pf context input)"
proof -
  have two: "settles_within 60000 (await_async m f)" if "settles_within 30000 m" "\<And>a. settles_within 30000 (f a)"
    for m :: "ConnectorHttpResponse async" and f :: "ConnectorHttpResponse \<Rightarrow> dav_run"
    using settles_within_await [OF that] by simp
  have put: "settles_within 30000 (case r of Inl _ \<Rightarrow> failed e
      | Inr calendarData \<Rightarrow> await_async (putUpdate pf client context href etag calendarData) f)"
    if "clientOpts pf input operation = Inr client" "known_operation operation" "\<And>a. settles_within 0 (f a)"
    for operation client r e href etag f
    using settles_call [OF calls_settle(5) [OF that(1,2) assms] that(3)] by (simp split: sum.split)
  show ?thesis
    unfolding runEventsUpdate_def update_after_def validateEventsUpdateInput_def Let_def
    by (intro settles_within_check two put async_if run_ends calls_settle(3);
        (assumption | rule known_operations | rule assms | simp))
qed

section \<open>Theorems\<close>

definition caldav_handlers :: "dav_platform \<Rightarrow> (string \<times> request list handler) list" where
  "caldav_handlers pf = (''healthcheck'', caldav_healthcheck pf) # caldav_actions pf"

lemma then_output_sends: "sends_only P m \<Longrightarrow> sends_only P (then_output action m)"
  unfolding then_output_def by (intro sends_only_await sends_only_settled)

lemma then_output_settles:
  assumes "settles_within k m"
  shows "settles_within k (then_output action m)"
proof -
  have "settles_within 0 (settled (case r of Inl e \<Rightarrow> Inl (throwIfError e) | Inr ps \<Rightarrow> Inr (action_output action ps)))" for r
    by simp
  from settles_within_await [OF assms this] show ?thesis by (simp add: then_output_def)
qed

lemma verifyCredentials_sends: "sends_only (own_request pf input) (verifyCredentials pf context input)"
  unfolding verifyCredentials_def
  by (intro sends_only_await sends_only_catch sends_only_settled runs_send known_operations)

lemma verifyCredentials_settles:
  assumes "p_decode pf [] = []"
  shows "settles_within 30000 (verifyCredentials pf context input)"
proof -
  have "settles_within (30000 + 0) (catch_async (runPrincipalDiscover pf context ''healthcheck'' input)
      (\<lambda>e. settled (Inl (unavailable_error e))))"
    by (rule settles_within_catch) (simp_all add: runs_settle(1) [OF assms] known_operations)
  then show ?thesis unfolding verifyCredentials_def by (intro settles_call) simp_all
qed

text \<open>The operation a handler starts on an input with credentials.\<close>

definition started :: "dav_platform \<Rightarrow> request list handler \<Rightarrow> (ExecutionContext option \<Rightarrow> jsval \<Rightarrow> marked async) \<Rightarrow> bool" where
  "started pf h run =
     ((\<forall>context input. sends_only (own_request pf input) (run context input)
         \<and> (p_decode pf [] = [] \<longrightarrow> settles_within 60000 (run context input)))
      \<and> (\<forall>context now input sent. credentialed input \<longrightarrow>
           h context now input sent = (case run context input now sent of (sent', p) \<Rightarrow> (sent', Inr (Pending p))))
      \<and> (\<forall>context now input sent. \<not> credentialed input \<longrightarrow>
           fst (h context now input sent) = sent \<and> (\<forall>p. snd (h context now input sent) \<noteq> Inr (Pending p))))"

lemma dav_action_started:
  assumes "\<And>context input. sends_only (own_request pf input) (run context input)"
    and "\<And>context input. p_decode pf [] = [] \<Longrightarrow> settles_within 60000 (run context input)"
  shows "started pf (dav_action action validate run) (\<lambda>context input. then_output action (run context input))"
  using assms
  by (auto simp: started_def dav_action_def res_simps intro: then_output_sends then_output_settles split: sum.splits)

lemma runs_settle_60000:
  assumes "p_decode pf [] = []"
  shows "known_operation operation \<Longrightarrow> settles_within 60000 (runPrincipalDiscover pf context operation input)"
    and "settles_within 60000 (runCalendarHomeGet pf context input)"
    and "settles_within 60000 (runCalendarsList pf context input)"
    and "settles_within 60000 (runEventsList pf context input)"
    and "settles_within 60000 (runEventsGet pf context input)"
    and "settles_within 60000 (runEventsCreate pf context input)"
    and "settles_within 60000 (runEventsDelete pf context input)"
    and "settles_within 60000 (runFreeBusyQuery pf context input)"
  by (rule settles_within_mono, rule runs_settle [OF assms], simp_all)+

lemma actions_started:
  "\<exists>run. started pf (dav_action action validate (\<lambda>context. runPrincipalDiscover pf context ''principal.discover'')) run"
  "\<exists>run. started pf (dav_action action validate (runCalendarHomeGet pf)) run"
  "\<exists>run. started pf (dav_action action validate (runCalendarsList pf)) run"
  "\<exists>run. started pf (dav_action action validate (runEventsList pf)) run"
  "\<exists>run. started pf (dav_action action validate (runEventsGet pf)) run"
  "\<exists>run. started pf (dav_action action validate (runEventsCreate pf)) run"
  "\<exists>run. started pf (dav_action action validate (runEventsUpdate pf)) run"
  "\<exists>run. started pf (dav_action action validate (runEventsDelete pf)) run"
  "\<exists>run. started pf (dav_action action validate (runFreeBusyQuery pf)) run"
  by (rule exI, rule dav_action_started;
      (rule runs_send runEventsUpdate_sends | erule runs_settle_60000 runEventsUpdate_settles); (rule known_operations)?)+

lemma handlers_started:
  assumes "(name, h) \<in> set (caldav_handlers pf)"
  obtains run where "started pf h run"
proof -
  have health: "started pf (caldav_healthcheck pf) (verifyCredentials pf)"
    by (auto simp: started_def caldav_healthcheck_def verifyCredentials_sends
        intro: settles_within_mono [OF verifyCredentials_settles])
  have "h = caldav_healthcheck pf \<or> (name, h) \<in> set (caldav_actions pf)"
    using assms by (auto simp: caldav_handlers_def)
  moreover have "\<exists>run. started pf h run" if "(name, h) \<in> set (caldav_actions pf)"
    using that unfolding caldav_actions_def
    by (simp only: set_simps insert_iff empty_iff prod.inject simp_thms, elim disjE conjE)
       (hypsubst, rule actions_started)+
  ultimately show thesis using health that by blast
qed

lemma handler_requests:
  assumes "(name, h) \<in> set (caldav_handlers pf)" and "h context now input sent = (sent', r)"
  shows "\<exists>rs. sent' = sent @ rs \<and> list_all (own_request pf input) rs"
proof -
  obtain run where s: "started pf h run" using handlers_started [OF assms(1)] .
  show ?thesis
  proof (cases "credentialed input")
    case True
    obtain p where "run context input now sent = (sent', p)"
      using s assms(2) True by (cases "run context input now sent") (simp add: started_def)
    moreover have "sends_only (own_request pf input) (run context input)" using s by (simp add: started_def)
    ultimately show ?thesis using sends_onlyD by blast
  next
    case False
    with s have "fst (h context now input sent) = sent" by (simp add: started_def)
    with assms(2) show ?thesis by simp
  qed
qed

text \<open>C21: Whatever the input, every request a CalDAV operation or the healthcheck sends goes over https, on the
  default port and without embedded credentials to a host of the manifest, follows no redirect, carries the
  basic credentials of exactly this input, and a PUT among them is conditional (\<open>If-None-Match: *\<close> or a
  non-empty \<open>If-Match\<close>): no event is overwritten blindly.\<close>

theorem caldav_requests_confined:
  assumes "(name, h) \<in> set (caldav_handlers pf)" and "h context now input sent = (sent', r)"
  shows "\<exists>rs. sent' = sent @ rs \<and> list_all (own_request pf input) rs"
  using assms by (rule handler_requests)

text \<open>Every CalDAV operation settles: whatever the server does, the promise of a handler is settled at most
  60 seconds after the call (two calls of at most 30 seconds in \<open>events.update\<close>, one in all others), if the
  decoder turns no bytes into the empty text.\<close>

theorem caldav_settles:
  assumes "(name, h) \<in> set (caldav_handlers pf)" and "h context now input sent = (sent', Inr (Pending p))"
    and "p_decode pf [] = []"
  shows "\<exists>t r. p = Settles t r \<and> t \<le> now + 60000"
proof -
  obtain run where s: "started pf h run" using handlers_started [OF assms(1)] .
  have c: "credentialed input"
    using s assms(2) unfolding started_def by (metis snd_conv)
  with s assms(2) have "run context input now sent = (sent', p)"
    by (cases "run context input now sent") (simp add: started_def)
  moreover have "settles_within 60000 (run context input)" using s assms(3) by (simp add: started_def)
  ultimately show ?thesis unfolding settles_within_def by (metis snd_conv)
qed

lemma dav_request_inits:
  "sends_only (\<lambda>r. sent_init r = dav_init client verb extra body) (dav_request pf client context path verb extra body)"
  unfolding dav_request_def Let_def by (intro sends_only_check sends_only_fetch) (auto simp: outbound_def)

lemma dav_get_verb: "sends_only (\<lambda>r. req_method (sent_init r) = ''GET'') (dav_get pf client context path)"
  using dav_request_inits unfolding dav_get_def sends_only_def list_all_iff
  by (metis (no_types, lifting) dav_init_def request_init.select_convs(1))

lemma run_ends_sent: "failed e now sent = (sent', p) \<Longrightarrow> sent' = sent" "finished ps now sent = (sent', p) \<Longrightarrow> sent' = sent"
  by (simp_all add: failed_def finished_def settled_def)

lemma update_after_put:
  assumes "update_after pf client context href etag event current now sent = (sent', p)" and "sent \<noteq> sent'"
  shows "\<exists>calendarData rs. rs_status current = 200 \<and> header_etag current = etag
    \<and> mergeVEvent (dp_temporal pf) (rs_body current) event = Inr calendarData \<and> sent' = sent @ rs
    \<and> list_all (\<lambda>r. sent_init r = dav_init client ''PUT''
         [(''Content-Type'', ''text/calendar; charset=utf-8''), (''If-Match'', etag)] (Some calendarData)) rs"
proof -
  have *: "rs_status current = 200" "header_etag current = etag"
    using assms by (auto simp: update_after_def dest: run_ends_sent split: if_splits)
  then obtain calendarData where m: "mergeVEvent (dp_temporal pf) (rs_body current) event = Inr calendarData"
    using assms by (auto simp: update_after_def dest: run_ends_sent split: if_splits sum.splits)
  have "sends_only (\<lambda>r. sent_init r = dav_init client ''PUT''
      [(''Content-Type'', ''text/calendar; charset=utf-8''), (''If-Match'', etag)] (Some calendarData))
      (update_after pf client context href etag event current)"
    unfolding update_after_def m sum.case putUpdate_def by (intro async_if sends_only_await run_ends dav_request_inits)
  from sends_onlyD [OF this assms(1)] * m show ?thesis by blast
qed

text \<open>C19: An update never overwrites what the caller has not seen. A PUT leaves \<open>events.update\<close> only after
  the read of the event answered 200 with exactly the ETag of the caller, it is conditional on that ETag, and
  its body is the merge of the input into the very text that was read.\<close>

theorem caldav_update_guarded:
  assumes "map_of (caldav_actions pf) ''events.update'' = Some h" and "h context now input sent = (sent @ rs, r)"
    and "rq \<in> set rs" and "req_method (sent_init rq) = ''PUT''"
  shows "\<exists>payload client sent1 t current calendarData.
      validateEventsUpdateInput input = Inr payload \<and> clientOpts pf input ''events.update'' = Inr client
      \<and> dav_get pf client context (text_at payload ''eventHref'') now sent = (sent1, Settles t (Inr current))
      \<and> rs_status current = 200 \<and> header_etag current = text_at payload ''etag''
      \<and> mergeVEvent (dp_temporal pf) (rs_body current) (event_input (text_at payload ''uid'') payload) = Inr calendarData
      \<and> sent_init rq = dav_init client ''PUT''
           [(''Content-Type'', ''text/calendar; charset=utf-8''), (''If-Match'', text_at payload ''etag'')] (Some calendarData)"
proof -
  have h: "h = dav_action ''events.update'' validateEventsUpdateInput (runEventsUpdate pf)"
    using assms(1) by (simp add: caldav_actions_def)
  have "rs \<noteq> []" using assms(3) by auto
  then obtain p where "then_output ''events.update'' (runEventsUpdate pf context input) now sent = (sent @ rs, p)"
    using assms(2) by (auto simp: h dav_action_def split: if_splits prod.splits)
  then obtain q where run: "runEventsUpdate pf context input now sent = (sent @ rs, q)"
    unfolding then_output_def by (rule await_asyncE) (auto simp: settled_def)
  obtain payload where p: "validateEventsUpdateInput input = Inr payload"
    using run \<open>rs \<noteq> []\<close> unfolding runEventsUpdate_def by (auto elim: check_asyncE)
  let ?href = "text_at payload ''eventHref''" and ?etag = "text_at payload ''etag''"
    and ?event = "event_input (text_at payload ''uid'') payload"
  obtain client where c: "clientOpts pf input ''events.update'' = Inr client"
    using run \<open>rs \<noteq> []\<close> unfolding runEventsUpdate_def Let_def p check_async_def sum.case
    by (auto simp: settled_def split: sum.splits)
  obtain ics where b: "buildVEvent (dp_temporal pf) ?event = Inr ics"
    using run \<open>rs \<noteq> []\<close> unfolding runEventsUpdate_def Let_def p c check_async_def sum.case
    by (auto simp: settled_def split: sum.splits)
  have no_put: "rq \<notin> set rs1" if "dav_get pf client context ?href now sent = (sent @ rs1, q)" for rs1 q
    using sends_onlyD [OF dav_get_verb that] assms(4) by (auto simp: list_all_iff)
  from run have "await_async (dav_get pf client context ?href) (update_after pf client context ?href ?etag ?event) now sent
      = (sent @ rs, q)"
    unfolding runEventsUpdate_def Let_def p c b check_async_def sum.case .
  then show ?thesis
  proof (rule await_asyncE)
    fix t current sent1
    assume get: "dav_get pf client context ?href now sent = (sent1, Settles t (Inr current))"
      and after: "update_after pf client context ?href ?etag ?event current t sent1 = (sent @ rs, q)"
    obtain rs1 where rs1: "sent1 = sent @ rs1" using sends_onlyD [OF dav_get_verb get] by blast
    have "sent1 \<noteq> sent @ rs" using no_put get assms(3) by blast
    from update_after_put [OF after this] obtain calendarData rs2 where u: "rs_status current = 200" "header_etag current = ?etag"
        "mergeVEvent (dp_temporal pf) (rs_body current) ?event = Inr calendarData" "sent @ rs = sent1 @ rs2"
        "list_all (\<lambda>r. sent_init r = dav_init client ''PUT''
           [(''Content-Type'', ''text/calendar; charset=utf-8''), (''If-Match'', ?etag)] (Some calendarData)) rs2"
      by blast
    have "rq \<in> set rs2" using u(4) rs1 no_put get assms(3) by auto
    with u(5) have "sent_init rq = dav_init client ''PUT''
         [(''Content-Type'', ''text/calendar; charset=utf-8''), (''If-Match'', ?etag)] (Some calendarData)"
      by (simp add: list_all_iff)
    with p c get u show ?thesis by blast
  qed (use no_put assms(3) in blast)
qed

section \<open>Witnesses\<close>

text \<open>A server that holds one event.\<close>

definition icloud_url :: "string \<Rightarrow> URL" where
  "icloud_url path = \<lparr>protocol = ''https:'', username = [], password = [], hostname = ''caldav.icloud.com'',
     port = [], pathname = path, search = [], hash = []\<rparr>"

definition sample_server :: dav_platform where
  "sample_server = \<lparr>p_parse = (\<lambda>s. if starts_with ICLOUD_BASE_URL s then Some (icloud_url (drop 25 s)) else None),
     p_fetch = (\<lambda>t r. Settles (t + 5) (Inr (if req_method (sent_init r) = ''GET''
        then \<lparr>res_status = 200, res_headers = [(''etag'', ''v1'')], res_body = Some [(t + 6, Chunk [1]), (t + 7, Done)]\<rparr>
        else \<lparr>res_status = 204, res_headers = [], res_body = None\<rparr>))),
     p_decode = (\<lambda>bs. if bs = [] then [] else crlf_text sample_lines),
     dp_temporal = utc_temporal, dp_wide = (\<lambda>n. []), dp_uid = ''u''\<rparr>"

definition sample_input :: jsval where
  "sample_input = JObj [(''username'', JStr ''me''), (''password'', JStr ''pw''), (''eventHref'', JStr ''/e''), (''etag'', JStr ''v1''),
     (''uid'', JStr ''u1''), (''summary'', JStr (ve_summary sample_event)), (''start'', JStr ''2026-05-14T12:00:00Z''),
     (''end'', JStr ''2026-05-14T12:00:00Z''), (''location'', JStr ''Roof''), (''attendees'', JArr [JStr ''MAILTO:a@x.org''])]"

definition sample_client :: dav_client where
  "sample_client = \<lparr>cl_base = ICLOUD_BASE_URL, cl_http = \<lparr>opt_hosts = allowed_hosts, opt_max = 65536, opt_timeout = 15000\<rparr>,
     cl_auth = buildBasicAuth ''me'' ''pw''\<rparr>"

definition sample_get :: request where
  "sample_get = \<lparr>sent_url = ''https://caldav.icloud.com/e'', sent_init = dav_init sample_client ''GET'' [(''Accept'', ''text/calendar, application/xml'')] None,
     sent_redirect = ''manual''\<rparr>"

definition sample_put :: "string \<Rightarrow> request" where
  "sample_put data = \<lparr>sent_url = ''https://caldav.icloud.com/e'', sent_init = dav_init sample_client ''PUT''
     [(''Content-Type'', ''text/calendar; charset=utf-8''), (''If-Match'', ''v1'')] (Some data), sent_redirect = ''manual''\<rparr>"

lemma sample_host: "hostIsAllowed ''caldav.icloud.com'' allowed_hosts"
proof -
  have "\<not> starts_with ''*.'' (to_lower ''caldav.icloud.com'')" by code_simp
  then show ?thesis by (simp add: hostIsAllowed_def allowed_hosts_def Let_def)
qed

lemma sample_url: "starts_with ICLOUD_BASE_URL (ICLOUD_BASE_URL @ ''/e'')" "\<not> starts_with ''http'' ''/e''"
    "drop 25 ICLOUD_BASE_URL = []" "length ICLOUD_BASE_URL = 25" "joinChunks [[Suc 0]] (Suc 0) = [1]"
  by code_simp+

lemmas sample_fetch = dav_request_def sample_server_def sample_client_def fetch_async_def fetchText_def check_async_def check_url_def
  plain_https_def parseOutboundURL_def icloud_url_def sample_url sample_host url_href_def controller_plan_def under_plan_def
  plan_aborted_def isRedirectStatus_def readBoundedText_def dav_init_def http_platform.truncate_def

lemma sample_read:
  "dav_get sample_server sample_client None ''/e'' 0 []
     = ([sample_get], Settles 7 (Inr \<lparr>rs_status = 200, rs_headers = [(''etag'', ''v1'')], rs_body = crlf_text sample_lines\<rparr>))"
  by (simp add: dav_get_def sample_get_def sample_fetch)

lemma sample_write:
  "putUpdate sample_server sample_client None ''/e'' ''v1'' data 7 [sample_get]
     = ([sample_get, sample_put data], Settles 12 (Inr \<lparr>rs_status = 204, rs_headers = [], rs_body = []\<rparr>))"
  by (simp add: putUpdate_def sample_put_def sample_fetch)

lemma sample_client_created: "createCalDAVClient sample_server ''me'' ''pw'' None ''events.update'' = Inr sample_client"
proof -
  have h: "to_lower ''caldav.icloud.com'' = ''caldav.icloud.com''" and s: "starts_with ICLOUD_BASE_URL ICLOUD_BASE_URL" by code_simp+
  have "createConnectorHttpClient allowed_hosts (JInt 65536) (JInt 15000) = Inr (cl_http sample_client)"
    by (simp add: createConnectorHttpClient_def sample_client_def max_safe_def del: of_int_numeral)
  moreover have "''caldav.icloud.com'' \<in> set allowed_hosts" by (simp add: allowed_hosts_def)
  ultimately show ?thesis
    using h s by (simp add: createCalDAVClient_def resolveBaseUrl_def check_url_def sample_server_def icloud_url_def plain_https_def
        guard_def operation_limits_def res_simps) (simp add: sample_client_def)
qed

definition sample_payload :: props where
  "sample_payload = [(''username'', JStr ''me''), (''password'', JStr ''pw''), (''baseUrl'', JUndef), (''eventHref'', JStr ''/e''),
     (''etag'', JStr ''v1''), (''uid'', JStr ''u1''), (''summary'', JStr (ve_summary sample_event)), (''start'', JStr ''2026-05-14T12:00:00Z''),
     (''end'', JStr ''2026-05-14T12:00:00Z''), (''description'', JUndef), (''location'', JStr ''Roof''), (''timezone'', JUndef),
     (''attendees'', JArr [JStr ''MAILTO:a@x.org''])]"

lemma sample_validated: "validateEventsUpdateInput sample_input = Inr sample_payload"
  by code_simp

lemma sample_reads: "text_at sample_payload ''eventHref'' = ''/e''" "text_at sample_payload ''etag'' = ''v1''"
    "event_input (text_at sample_payload ''uid'') sample_payload = sample_event"
  by code_simp+

lemma sample_opened: "clientOpts sample_server sample_input ''events.update'' = Inr sample_client"
  proof -
  have "get sample_input ''username'' = JStr ''me''" "get sample_input ''password'' = JStr ''pw''" "get sample_input ''baseUrl'' = JUndef"
    by code_simp+
  with sample_client_created show ?thesis by (simp add: clientOpts_def str_of_def)
qed

lemmas sample_facts = sample_validated sample_reads sample_opened

lemma sample_updated:
  "\<exists>calendarData. dav_action ''events.update'' validateEventsUpdateInput (runEventsUpdate sample_server) None 0 sample_input []
     = ([sample_get, sample_put calendarData],
        Inr (Pending (Settles 12 (Inr (action_output ''events.update'' [(''href'', JStr ''/e''), (''etag'', JStr [])])))))"
proof -
  obtain ics where i: "buildVEvent utc_temporal sample_event = Inr ics" using sample_built by blast
  obtain merged where m: "mergeVEvent utc_temporal (crlf_text sample_lines) sample_event = Inr merged" using sample_merged by blast
  have t: "dp_temporal sample_server = utc_temporal" by (simp add: sample_server_def)
  have c: "credentialed sample_input" by code_simp
  have e: "header_etag \<lparr>rs_status = 200, rs_headers = [(''etag'', ''v1'')], rs_body = body\<rparr> = ''v1''"
    "header_etag \<lparr>rs_status = 204, rs_headers = [], rs_body = []\<rparr> = []" for body by (simp_all add: header_etag_def)
  have "runEventsUpdate sample_server None sample_input 0 []
      = ([sample_get, sample_put merged], Settles 12 (Inr (Inr [(''href'', JStr ''/e''), (''etag'', JStr [])])))"
    by (simp add: runEventsUpdate_def Let_def sample_facts t i m e check_async_def await_async_def sample_read sample_write
        update_after_def stored_def finished_def settled_def)
  then show ?thesis using c by (intro exI [of _ merged]) (simp add: dav_action_def then_output_def await_async_def settled_def)
qed

lemma sample_handler:
  "map_of (caldav_actions pf) ''events.update'' = Some (dav_action ''events.update'' validateEventsUpdateInput (runEventsUpdate pf))"
  by (simp add: caldav_actions_def)

lemma sample_member: "(''events.update'', dav_action ''events.update'' validateEventsUpdateInput (runEventsUpdate pf)) \<in> set (caldav_handlers pf)"
  using map_of_SomeD [OF sample_handler] by (simp add: caldav_handlers_def)

theorem caldav_requests_confined_witness:
  "\<exists>calendarData. own_request sample_server sample_input (sample_put calendarData)"
proof -
  obtain d p where "dav_action ''events.update'' validateEventsUpdateInput (runEventsUpdate sample_server) None 0 sample_input []
       = ([sample_get, sample_put d], p)" using sample_updated by blast
  from caldav_requests_confined [OF sample_member this] show ?thesis by auto
qed

theorem caldav_settles_witness:
  "\<exists>t r. snd (dav_action ''events.update'' validateEventsUpdateInput (runEventsUpdate sample_server) None 0 sample_input [])
     = Inr (Pending (Settles t r)) \<and> t \<le> 60000"
proof -
  obtain s p where u: "dav_action ''events.update'' validateEventsUpdateInput (runEventsUpdate sample_server) None 0 sample_input []
       = (s, Inr (Pending p))" using sample_updated by blast
  have "p_decode sample_server [] = []" by (simp add: sample_server_def)
  from caldav_settles [OF sample_member u this] u show ?thesis by auto
qed

theorem caldav_update_guarded_witness:
  "\<exists>calendarData. mergeVEvent utc_temporal (crlf_text sample_lines) sample_event = Inr calendarData
     \<and> req_body (sent_init (sample_put calendarData)) = Some calendarData"
proof -
  obtain d r where "dav_action ''events.update'' validateEventsUpdateInput (runEventsUpdate sample_server) None 0 sample_input []
       = ([] @ [sample_get, sample_put d], r)" using sample_updated by auto
  moreover have "dp_temporal sample_server = utc_temporal" by (simp add: sample_server_def)
  ultimately show ?thesis
    using caldav_update_guarded [OF sample_handler, of sample_server None 0 sample_input "[]" "[sample_get, sample_put d]" r "sample_put d"]
    by (auto simp: sample_facts sample_read sample_put_def dav_init_def)
qed

end
