(* ===== verification/Messages.thy ===== *)
theory Messages
  imports Compile
begin

text \<open>
  The message models of the four message providers: \<open>messages.ts\<close> and \<open>sync.ts\<close> of
  \<open>runner/connectors/slack\<close>, \<open>telegram\<close>, \<open>google-workspace\<close> and \<open>microsoft-365\<close>. A provider page is
  turned into a list of normalized messages and a cursor. The text of the engine's \<open>TypeError\<close> for a
  property of \<open>null\<close> or \<open>undefined\<close> is \<open>no_properties\<close>.
\<close>

definition no_properties :: thrown where
  "no_properties = ErrorInst ''TypeError'' ''null and undefined have no properties'' []"

definition is_nullish :: "jsval \<Rightarrow> bool" where
  "is_nullish v = (v = JNull \<or> v = JUndef)"

definition nonEmptyString :: "jsval \<Rightarrow> string \<Rightarrow> string res" where
  "nonEmptyString v field = (case v of JStr (c # cs) \<Rightarrow> Inr (c # cs) | _ \<Rightarrow> Inl (Error (field @ '' is required'')))"

definition trimmedString :: "jsval \<Rightarrow> string \<Rightarrow> string res" where
  "trimmedString v field =
     (case v of JStr s \<Rightarrow> if trim s = [] then Inl (Error (field @ '' is required'')) else Inr (trim s)
      | _ \<Rightarrow> Inl (Error (field @ '' is required'')))"

definition objectField :: "jsval \<Rightarrow> string \<Rightarrow> string \<Rightarrow> jsval res" where
  "objectField v field what = (if is_record v then Inr v else Inl (Error (field @ what)))"

definition arrayField :: "jsval \<Rightarrow> string \<Rightarrow> jsval list res" where
  "arrayField v field = (case v of JArr xs \<Rightarrow> Inr xs | _ \<Rightarrow> Inl (Error (field @ '' must be an array'')))"

definition numberLike :: "jsval \<Rightarrow> string \<Rightarrow> string res" where
  "numberLike v field = (case v of JNum n \<Rightarrow> Inr (to_str v) | JStr s \<Rightarrow> Inr s | _ \<Rightarrow> Inl (Error (field @ '' is required'')))"

definition string_or :: "jsval \<Rightarrow> jsval \<Rightarrow> jsval" where
  "string_or v d = (case v of JStr s \<Rightarrow> v | _ \<Rightarrow> d)"

definition non_empty_or_null :: "jsval \<Rightarrow> jsval" where
  "non_empty_or_null v = (case v of JStr (c # cs) \<Rightarrow> v | _ \<Rightarrow> JNull)"

section \<open>Slack\<close>

definition slack_normalizeMessage :: "string \<Rightarrow> jsval \<Rightarrow> jsval res" where
  "slack_normalizeMessage channelId message =
     (if is_nullish message then Inl no_properties
      else sbind (nonEmptyString (get message ''ts'') ''message.ts'') (\<lambda>ts.
           sbind (case get message ''user'' of JStr u \<Rightarrow> Inr u | _ \<Rightarrow> nonEmptyString (get message ''bot_id'') ''message.user'') (\<lambda>senderId.
           Inr (JObj [(''id'', JStr (''slack:'' @ channelId @ '':'' @ ts)), (''provider'', JStr ''slack''),
             (''providerMessageId'', JStr ts), (''channelId'', JStr channelId), (''senderId'', JStr senderId),
             (''text'', string_or (get message ''text'') (JStr [])), (''modelVersion'', JStr ''2026-05-14''), (''raw'', message)]))))"

definition parseNextCursor :: "jsval \<Rightarrow> jsval" where
  "parseNextCursor response =
     (if \<not> is_record response then JNull
      else let metadata = get response ''response_metadata'' in
        if \<not> is_record metadata then JNull else non_empty_or_null (get metadata ''next_cursor''))"

definition page :: "string \<Rightarrow> jsval list \<Rightarrow> string \<times> jsval \<Rightarrow> jsval" where
  "page provider items following = JObj [(''provider'', JStr provider), (''operation'', JStr ''messages.list''),
     (''items'', JArr items), following]"

definition listSlackMessages :: "jsval \<Rightarrow> jsval res" where
  "listSlackMessages input =
     sbind (trimmedString (get input ''channelId'') ''channelId'') (\<lambda>channelId.
     sbind (objectField (get input ''response'') ''response'' '' must be an object'') (\<lambda>response.
     sbind (arrayField (get response ''messages'') ''messages'') (\<lambda>messages.
     sbind (map_res (slack_normalizeMessage channelId) messages) (\<lambda>items.
     Inr (page ''slack'' items (''cursor'', parseNextCursor response))))))"

section \<open>Telegram\<close>

definition telegram_normalizeMessage :: "jsval \<Rightarrow> jsval res" where
  "telegram_normalizeMessage update =
     (if is_nullish update then Inl no_properties
      else sbind (objectField (get update ''message'') ''message'' '' is required'') (\<lambda>message.
           sbind (numberLike (get message ''message_id'') ''message.message_id'') (\<lambda>messageID.
           sbind (objectField (get message ''chat'') ''message.chat'' '' is required'') (\<lambda>chat.
           sbind (objectField (get message ''from'') ''message.from'' '' is required'') (\<lambda>from.
           sbind (numberLike (get chat ''id'') ''message.chat.id'') (\<lambda>channelId.
           sbind (numberLike (get from ''id'') ''message.from.id'') (\<lambda>senderId.
           Inr (JObj [(''id'', JStr (''telegram:'' @ channelId @ '':'' @ messageID)), (''provider'', JStr ''telegram''),
             (''providerMessageId'', JStr messageID), (''channelId'', JStr channelId), (''senderId'', JStr senderId),
             (''text'', string_or (get message ''text'') (JStr [])), (''modelVersion'', JStr ''2026-05-14''), (''raw'', update)]))))))))"

text \<open>\<open>Math.max(...ids) + 1\<close> on numbers; a NaN among them makes the result NaN.\<close>

fun num_max :: "jsnum \<Rightarrow> jsnum \<Rightarrow> jsnum" where
  "num_max a b = (if a = NaN \<or> b = NaN then NaN else if num_lt a b then b else a)"

definition update_ids :: "jsval list \<Rightarrow> jsnum list" where
  "update_ids updates = concat (map (\<lambda>u. case get u ''update_id'' of JNum n \<Rightarrow> [n] | _ \<Rightarrow> []) (filter is_record updates))"

text \<open>\<open>n + 1\<close> on doubles; on a safe integer it is exact.\<close>

definition num_succ :: "jsnum \<Rightarrow> jsnum" where
  "num_succ n = (case num_val n of Some r \<Rightarrow> if is_safe_integer n then Fin (r + 1) else round_signed (r + 1) | None \<Rightarrow> n)"

definition parseNextOffset :: "jsval \<Rightarrow> jsval" where
  "parseNextOffset response =
     (case get response ''result'' of
        JArr updates \<Rightarrow>
          (case update_ids updates of [] \<Rightarrow> JNull | i # ids \<Rightarrow> JStr (num_to_string (num_succ (foldl num_max i ids))))
      | _ \<Rightarrow> JNull)"

definition listTelegramMessages :: "jsval \<Rightarrow> jsval res" where
  "listTelegramMessages input =
     sbind (objectField (get input ''response'') ''response'' '' must be an object'') (\<lambda>response.
     sbind (arrayField (get response ''result'') ''result'') (\<lambda>updates.
     sbind (map_res telegram_normalizeMessage updates) (\<lambda>items.
     Inr (page ''telegram'' items (''cursor'', parseNextOffset response)))))"

section \<open>Gmail\<close>

definition extractHeaders :: "jsval \<Rightarrow> props" where
  "extractHeaders message =
     (case get (get message ''payload'') ''headers'' of
        JArr headers \<Rightarrow>
          foldl (\<lambda>result header.
            let name = (case get header ''name'' of JStr n \<Rightarrow> to_lower n | _ \<Rightarrow> []);
                text = (case get header ''value'' of JStr v \<Rightarrow> v | _ \<Rightarrow> [])
            in if name \<noteq> [] then obj_put result name (JStr text) else result) [] (filter is_record headers)
      | _ \<Rightarrow> [])"

text \<open>The capture of \<open>/<([^>]+)>/\<close>.\<close>

fun bracketed :: "string \<Rightarrow> string option" where
  "bracketed [] = None"
| "bracketed (c # cs) =
     (if c = CHR ''<'' \<and> takeWhile (\<lambda>d. d \<noteq> CHR ''>'') cs \<noteq> [] \<and> dropWhile (\<lambda>d. d \<noteq> CHR ''>'') cs \<noteq> []
      then Some (takeWhile (\<lambda>d. d \<noteq> CHR ''>'') cs) else bracketed cs)"

definition extractEmailAddress :: "string \<Rightarrow> string" where
  "extractEmailAddress header = (case bracketed header of Some a \<Rightarrow> a | None \<Rightarrow> trim header)"

definition normalizeGmailMessage :: "jsval \<Rightarrow> jsval" where
  "normalizeGmailMessage message =
     (let headers = extractHeaders message;
          senderHeader = nullish (prop_get headers ''from'') (nullish (prop_get headers ''sender'') (JStr []));
          snippet = get message ''snippet''
      in JObj [(''id'', JStr (''gmail:'' @ to_str (get message ''id''))), (''provider'', JStr ''google-workspace''),
           (''providerMessageId'', get message ''id''), (''threadId'', get message ''threadId''),
           (''senderId'', JStr (extractEmailAddress (to_str senderHeader))),
           (''subject'', nullish (prop_get headers ''subject'') (nullish snippet (JStr []))),
           (''text'', nullish snippet (JStr [])), (''modelVersion'', JStr ''2026-05-16''), (''raw'', message)])"

definition strings_only :: "jsval \<Rightarrow> jsval" where
  "strings_only v = (case v of JArr xs \<Rightarrow> JArr (filter (\<lambda>x. case x of JStr _ \<Rightarrow> True | _ \<Rightarrow> False) xs) | _ \<Rightarrow> JUndef)"

definition listed_gmail_message :: "jsval \<Rightarrow> jsval res" where
  "listed_gmail_message msg =
     sbind (nonEmptyString (get msg ''id'') ''id'') (\<lambda>i.
     sbind (nonEmptyString (get msg ''threadId'') ''threadId'') (\<lambda>threadId.
     Inr (JObj ([(''id'', JStr i), (''threadId'', JStr threadId), (''labelIds'', strings_only (get msg ''labelIds'')),
         (''snippet'', string_or (get msg ''snippet'') JUndef)]
       @ (case get msg ''historyId'' of JStr s \<Rightarrow> [(''historyId'', JStr s)] | _ \<Rightarrow> [])
       @ (case get msg ''internalDate'' of JStr s \<Rightarrow> [(''internalDate'', JStr s)] | _ \<Rightarrow> [])
       @ (case get msg ''sizeEstimate'' of JNum n \<Rightarrow> [(''sizeEstimate'', JNum n)] | _ \<Rightarrow> [])))))"

definition parseNextPageToken :: "jsval \<Rightarrow> jsval" where
  "parseNextPageToken response = (if is_record response then non_empty_or_null (get response ''nextPageToken'') else JNull)"

definition parseMessagesListResponse :: "jsval \<Rightarrow> (jsval list \<times> jsval) res" where
  "parseMessagesListResponse response =
     (if \<not> is_record response then Inr ([], JNull)
      else case get response ''messages'' of
          JArr rawMessages \<Rightarrow> sbind (map_res listed_gmail_message (filter is_record rawMessages)) (\<lambda>ms. Inr (ms, parseNextPageToken response))
        | _ \<Rightarrow> Inr ([], parseNextPageToken response))"

definition listGmailMessages :: "jsval \<Rightarrow> jsval res" where
  "listGmailMessages input =
     sbind (objectField (get input ''response'') ''response'' '' must be an object'') (\<lambda>response.
     sbind (parseMessagesListResponse response) (\<lambda>(messages, nextPageToken).
     Inr (page ''google-workspace'' (map normalizeGmailMessage messages) (''cursor'', nextPageToken))))"

section \<open>Outlook\<close>

definition normalizeOutlookMessage :: "jsval \<Rightarrow> jsval" where
  "normalizeOutlookMessage message =
     JObj [(''id'', JStr (''outlook:'' @ to_str (get message ''id''))), (''provider'', JStr ''microsoft-365''),
       (''providerMessageId'', get message ''id''), (''threadId'', nullish (get message ''conversationId'') (JStr [])),
       (''senderId'', nullish (get (get (get message ''from'') ''emailAddress'') ''address'') (JStr [])),
       (''subject'', nullish (get message ''subject'') (JStr [])), (''text'', nullish (get message ''bodyPreview'') (JStr [])),
       (''modelVersion'', JStr ''2026-05-16''), (''raw'', message)]"

definition boolean_or_undefined :: "jsval \<Rightarrow> jsval" where
  "boolean_or_undefined v = (case v of JBool b \<Rightarrow> v | _ \<Rightarrow> JUndef)"

definition outlook_message :: "jsval \<Rightarrow> jsval res" where
  "outlook_message m =
     sbind (nonEmptyString (get m ''id'') ''id'') (\<lambda>i.
     let text = (\<lambda>k. (k, string_or (get m k) JUndef)) in
     Inr (JObj [(''id'', JStr i), text ''subject'', text ''bodyPreview'', text ''importance'', text ''conversationId'',
       text ''receivedDateTime'', text ''sentDateTime'', (''isRead'', boolean_or_undefined (get m ''isRead'')),
       (''isDraft'', boolean_or_undefined (get m ''isDraft'')), text ''internetMessageId'',
       (''from'', if is_record (get m ''from'') then get m ''from'' else JUndef),
       (''toRecipients'', case get m ''toRecipients'' of JArr xs \<Rightarrow> JArr xs | _ \<Rightarrow> JUndef), text ''webLink'']))"

definition parseMessagesResponse :: "jsval \<Rightarrow> (jsval list \<times> jsval) res" where
  "parseMessagesResponse response =
     (case get response ''value'' of
        JArr items \<Rightarrow> sbind (map_res outlook_message (filter is_record items)) (\<lambda>ms.
          Inr (ms, non_empty_or_null (get response ''@odata.nextLink'')))
      | _ \<Rightarrow> Inr ([], JNull))"

definition listOutlookMessages :: "jsval \<Rightarrow> jsval res" where
  "listOutlookMessages input =
     sbind (objectField (get input ''response'') ''response'' '' must be an object'') (\<lambda>response.
     sbind (parseMessagesResponse response) (\<lambda>(messages, nextLink).
     Inr (page ''microsoft-365'' (map normalizeOutlookMessage messages) (''nextLink'', nextLink))))"

end
