(* ===== verification/MessageSync.thy ===== *)
theory MessageSync
  imports Messages Async Operations
begin

text \<open>
  \<open>runner/bun/src/message_sync.ts\<close>: live page reads of the message providers. A sync input without a
  credential is normalized as it is; with a credential the page is fetched from the provider, checked
  against the provider's contract and normalized. The bytes read so far are threaded through the calls
  of one page. Values of the input that are functions (an injected \<open>fetch\<close>) serve the tests and are
  left out.
\<close>

type_synonym normalizer = "jsval \<Rightarrow> jsval res"

definition sync_hosts :: "(string \<times> string) list" where
  "sync_hosts = [(''slack'', ''slack.com''), (''telegram'', ''api.telegram.org''),
     (''google-workspace'', ''gmail.googleapis.com''), (''microsoft-365'', ''graph.microsoft.com'')]"

definition sync_failure :: "string \<Rightarrow> string \<Rightarrow> thrown" where
  "sync_failure errcode message = ThrownVal (failure errcode message)"

definition invalidResponse :: thrown where
  "invalidResponse = sync_failure ''CONNECTOR_RESPONSE_INVALID'' ''Message page does not match the provider contract.''"

definition invalid_sync_input :: "string \<Rightarrow> thrown" where
  "invalid_sync_input = sync_failure ''INVALID_SYNC_INPUT''"

definition sync_text :: "jsval \<Rightarrow> string res" where
  "sync_text v = (case v of JStr s \<Rightarrow> if trim s = [] then Inl invalidResponse else Inr s | _ \<Rightarrow> Inl invalidResponse)"

definition array_or_invalid :: "jsval \<Rightarrow> jsval list res" where
  "array_or_invalid v = (case v of JArr xs \<Rightarrow> Inr xs | _ \<Rightarrow> Inl invalidResponse)"

text \<open>The own properties that spreading a value gives.\<close>

definition own_entries :: "jsval \<Rightarrow> props" where
  "own_entries v = (case v of
     JObj ps \<Rightarrow> ps
   | JArr xs \<Rightarrow> map (\<lambda>i. (show_nat i, xs ! i)) [0..<length xs]
   | JStr s \<Rightarrow> map (\<lambda>i. (show_nat i, JStr [s ! i])) [0..<length s]
   | _ \<Rightarrow> [])"

definition with_entries :: "jsval \<Rightarrow> props \<Rightarrow> jsval" where
  "with_entries v es = JObj (spread (own_entries v) es)"

section \<open>The input\<close>

definition withSlackChannelAlias :: "jsval \<Rightarrow> jsval" where
  "withSlackChannelAlias input =
     (case (trim (str_of (get input ''channelId'')), get input ''channelId'', get input ''channel'') of
        (c # cs, JStr s, _) \<Rightarrow> if c # cs = s then input else with_entries input [(''channelId'', JStr (c # cs))]
      | (_, _, JStr t) \<Rightarrow> if trim t \<noteq> [] then with_entries input [(''channelId'', JStr (trim t))] else input
      | _ \<Rightarrow> input)"

section \<open>One call\<close>

definition page_limit_bytes :: int where
  "page_limit_bytes = 5 * 1024 * 1024"

definition rate_limited :: "jsval \<Rightarrow> ConnectorHttpResponse \<Rightarrow> thrown" where
  "rate_limited body response =
     (let hint = to_num (nullish (get (get body ''parameters'') ''retry_after'')
                   (case map_of (rs_headers response) ''retry-after'' of Some s \<Rightarrow> JStr s | None \<Rightarrow> JInt 10));
          seconds = (case num_val hint of Some r \<Rightarrow> if 0 < r then min 86400 \<lceil>r\<rceil> else 10 | None \<Rightarrow> 10)
      in ThrownVal (JObj [(''ok'', JBool False), (''code'', JStr ''CONNECTOR_RATE_LIMITED''),
           (''message'', JStr ''Message provider rate limit exceeded.''), (''retryAfterSeconds'', JInt seconds)]))"

definition read_page :: "int \<Rightarrow> ConnectorHttpResponse \<Rightarrow> (int \<times> jsval) res" where
  "read_page totalBytes response =
     (let total = totalBytes + int (byte_length (rs_body response)) in
      if page_limit_bytes < total then Inl (sync_failure ''OUTPUT_TOO_LARGE'' ''Message page exceeds the response byte limit.'')
      else case json_parse (rs_body response) of
        None \<Rightarrow> Inl invalidResponse
      | Some body \<Rightarrow>
          if \<not> is_record body then Inl invalidResponse
          else if rs_status response = 429 \<or> get body ''error_code'' = JInt 429 \<or> get body ''error'' = JStr ''ratelimited''
          then Inl (rate_limited body response)
          else if rs_status response < 200 \<or> 300 \<le> rs_status response \<or> get body ''ok'' = JBool False \<or> truthy (get body ''error'')
          then Inl (sync_failure ''CONNECTOR_UPSTREAM_ERROR'' ''Message provider rejected the page request.'')
          else Inr (total, body))"

record sync_client =
  sc_http :: http_options
  sc_headers :: "(string \<times> string) list"

definition sync_init :: "sync_client \<Rightarrow> request_init" where
  "sync_init client = \<lparr>req_method = ''GET'', req_headers = sc_headers client, req_body = None, req_signal = None\<rparr>"

definition get_page ::
    "request_platform \<Rightarrow> sync_client \<Rightarrow> ExecutionContext option \<Rightarrow> int \<Rightarrow> URL \<Rightarrow> (int \<times> jsval) async" where
  "get_page pf client context totalBytes url =
     await_async (fetch_async (http_platform.truncate pf) (sc_http client) context (Parsed url) (sync_init client))
       (\<lambda>response. settled (read_page totalBytes response))"

definition new_url :: "request_platform \<Rightarrow> string \<Rightarrow> URL res" where
  "new_url pf s = (case p_parse pf s of Some u \<Rightarrow> Inr u | None \<Rightarrow> Inl (ErrorInst ''TypeError'' ''Invalid URL'' []))"

definition set_params :: "request_platform \<Rightarrow> URL \<Rightarrow> (string \<times> string) list \<Rightarrow> URL" where
  "set_params pf url kvs = foldl (\<lambda>u (k, v). with_params pf (param_set k v) u) url kvs"

text \<open>\<open>if (input.k) url.searchParams.set(name, String(input.k))\<close>\<close>

definition given_param :: "jsval \<Rightarrow> string \<Rightarrow> string \<Rightarrow> (string \<times> string) list" where
  "given_param input k name = (if truthy (get input k) then [(name, to_str (get input k))] else [])"

section \<open>The providers\<close>

definition slack_page :: "request_platform \<Rightarrow> sync_client \<Rightarrow> ExecutionContext option \<Rightarrow> jsval \<Rightarrow> jsval \<Rightarrow> jsval async" where
  "slack_page pf client context limit input =
     (case get input ''channelId'' of
        JStr (c # cs) \<Rightarrow>
          check_async (new_url pf ''https://slack.com/api/conversations.history'') (\<lambda>url.
          await_async (get_page pf client context 0 (set_params pf url
              ([(''channel'', c # cs), (''limit'', to_str limit)] @ given_param input ''cursor'' ''cursor''))) (\<lambda>(_, response).
          settled (if get response ''ok'' \<noteq> JBool True then Inl invalidResponse
                   else sbind (array_or_invalid (get response ''messages'')) (\<lambda>_. Inr response))))
      | _ \<Rightarrow> settled (Inl (invalid_sync_input ''channelId is required.'')))"

text \<open>The messages of an update in the order of preference.\<close>

definition update_kinds :: "string list" where
  "update_kinds = [''message'', ''edited_message'', ''channel_post'', ''edited_channel_post'']"

definition message_of :: "jsval \<Rightarrow> jsval" where
  "message_of u = nullish (get u ''message'') (nullish (get u ''edited_message'')
     (nullish (get u ''channel_post'') (get u ''edited_channel_post'')))"

definition live_update :: "jsval \<Rightarrow> jsval" where
  "live_update u =
     (let message = message_of u in
      with_entries u [(''message'', with_entries message [(''from'', nullish (get message ''from'') (get message ''sender_chat''))])])"

definition update_ok :: "jsval \<Rightarrow> bool" where
  "update_ok u = (is_record u \<and> (case get u ''update_id'' of JNum n \<Rightarrow> is_safe_integer n | _ \<Rightarrow> False))"

definition next_offset :: "jsval list \<Rightarrow> jsval" where
  "next_offset updates =
     (case map (\<lambda>u. case get u ''update_id'' of JNum n \<Rightarrow> n | _ \<Rightarrow> NaN) updates of [] \<Rightarrow> JNull | i # ids \<Rightarrow> JStr (num_to_string (num_succ (foldl num_max i ids))))"

definition telegram_url :: "string \<Rightarrow> string" where
  "telegram_url credential = ''https://api.telegram.org/bot'' @ replace_all ''%3A'' '':'' (encode_uri credential) @ ''/getUpdates''"

definition telegram_output :: "jsval \<Rightarrow> normalizer \<Rightarrow> jsval \<Rightarrow> jsval res" where
  "telegram_output input toModel body =
     (if get body ''ok'' \<noteq> JBool True then Inl invalidResponse
      else sbind (array_or_invalid (get body ''result'')) (\<lambda>updates.
           if \<not> list_all update_ok updates then Inl invalidResponse
           else let kept = filter (\<lambda>u. list_ex (\<lambda>k. truthy (get u k)) update_kinds) updates;
                    response = with_entries body [(''result'', JArr (map live_update kept))]
                in sbind (toModel (with_entries input [(''response'', response)])) (\<lambda>output.
                   Inr (with_entries output [(''cursor'', next_offset updates)]))))"

definition telegram_page ::
    "request_platform \<Rightarrow> sync_client \<Rightarrow> ExecutionContext option \<Rightarrow> jsval \<Rightarrow> string \<Rightarrow> jsval \<Rightarrow> normalizer \<Rightarrow> jsval async" where
  \<open>telegram_page pf client context limit credential input toModel =
     check_async (new_url pf (telegram_url credential)) (\<lambda>url.
     check_async (guard (truthy (get input ''cursor'') \<longrightarrow> to_str (get input ''cursor'') \<noteq> [] \<and> list_all is_digit (to_str (get input ''cursor'')))
                    (invalid_sync_input ''Telegram cursor must be an update offset.'')) (\<lambda>_.
     await_async (get_page pf client context 0 (set_params pf url
         ([(''limit'', to_str limit), (''timeout'', ''0''),
           (''allowed_updates'', ''["message","edited_message","channel_post","edited_channel_post"]'')]
          @ given_param input ''cursor'' ''offset''))) (\<lambda>(_, body).
     settled (telegram_output input toModel body))))\<close>

text \<open>The messages of a Gmail page, one call each; the bytes of all calls count together.\<close>

definition gmail_url :: string where
  "gmail_url = ''https://gmail.googleapis.com/gmail/v1/users/me/messages''"

fun gmail_messages ::
    "request_platform \<Rightarrow> sync_client \<Rightarrow> ExecutionContext option \<Rightarrow> int \<Rightarrow> jsval list \<Rightarrow> jsval list async" where
  "gmail_messages pf client context totalBytes [] = settled (Inr [])"
| "gmail_messages pf client context totalBytes (item # items) =
     check_async (sync_text (get item ''id'')) (\<lambda>i.
     check_async (new_url pf (gmail_url @ ''/'' @ encode_uri i @ ''?format=full'')) (\<lambda>url.
     await_async (get_page pf client context totalBytes url) (\<lambda>(total, message).
     check_async (sync_text (get message ''id'')) (\<lambda>_.
     check_async (sync_text (get message ''threadId'')) (\<lambda>_.
     await_async (gmail_messages pf client context total items) (\<lambda>messages.
     settled (Inr (message # messages))))))))"

definition is_zero :: "jsval \<Rightarrow> bool" where
  "is_zero v = (case v of JNum n \<Rightarrow> num_val n = Some 0 | _ \<Rightarrow> False)"

definition gmail_listing :: "jsval \<Rightarrow> jsval \<Rightarrow> (jsval \<times> jsval list) res" where
  "gmail_listing limit body =
     (let response = (if get body ''messages'' = JUndef \<and> is_zero (get body ''resultSizeEstimate'')
                      then with_entries body [(''messages'', JArr [])] else body) in
      sbind (array_or_invalid (get response ''messages'')) (\<lambda>messages.
      if int_of limit < int (length messages) then Inl invalidResponse else Inr (response, messages)))"

definition gmail_page :: "request_platform \<Rightarrow> sync_client \<Rightarrow> ExecutionContext option \<Rightarrow> jsval \<Rightarrow> jsval \<Rightarrow> jsval async" where
  "gmail_page pf client context limit input =
     check_async (new_url pf gmail_url) (\<lambda>url.
     await_async (get_page pf client context 0 (set_params pf url
         ([(''maxResults'', to_str limit)] @ given_param input ''cursor'' ''pageToken'' @ given_param input ''query'' ''q''))) (\<lambda>(total, body).
     check_async (gmail_listing limit body) (\<lambda>(response, listed).
     await_async (gmail_messages pf client context total listed) (\<lambda>messages.
     settled (Inr (with_entries response [(''messages'', JArr messages)]))))))"

definition outlook_url :: string where
  "outlook_url = ''https://graph.microsoft.com/v1.0/me/messages''"

definition outlook_cursor_ok :: "URL \<Rightarrow> bool" where
  "outlook_cursor_ok url = (protocol url = ''https:'' \<and> hostname url = ''graph.microsoft.com'' \<and> port url = []
     \<and> pathname url = ''/v1.0/me/messages'' \<and> username url = [] \<and> password url = [])"

definition outlook_page :: "request_platform \<Rightarrow> sync_client \<Rightarrow> ExecutionContext option \<Rightarrow> jsval \<Rightarrow> jsval \<Rightarrow> jsval async" where
  "outlook_page pf client context limit input =
     (let cursor = get input ''cursor'' in
      check_async (new_url pf (if truthy cursor then to_str cursor else outlook_url)) (\<lambda>url.
      check_async (guard (outlook_cursor_ok url) (invalid_sync_input ''Microsoft message cursor is invalid.'')) (\<lambda>_.
      await_async (get_page pf client context 0 (if truthy cursor then url
          else set_params pf url ([(''$top'', to_str limit)] @ given_param input ''filter'' ''$filter''))) (\<lambda>(_, response).
      settled (sbind (array_or_invalid (get response ''value'')) (\<lambda>items.
               sbind (for_each (\<lambda>item. sbind (sync_text (get item ''id'')) (\<lambda>_. Inr ())) items) (\<lambda>_. Inr response)))))))"

section \<open>The page\<close>

definition cursor_field_ok :: "jsval \<Rightarrow> string \<Rightarrow> bool" where
  "cursor_field_ok response k = (case get response k of JUndef \<Rightarrow> True | JNull \<Rightarrow> True | JStr _ \<Rightarrow> True | _ \<Rightarrow> False)"

definition with_channel :: "jsval \<Rightarrow> jsval res" where
  "with_channel item =
     (if is_nullish item then Inl no_properties
      else sbind (sync_text (get item ''threadId'')) (\<lambda>t. Inr (with_entries item [(''channelId'', JStr t)])))"

definition normalized_page :: "string \<Rightarrow> jsval \<Rightarrow> normalizer \<Rightarrow> jsval \<Rightarrow> jsval res" where
  "normalized_page connector input toModel response =
     sbind (guard (list_all (cursor_field_ok response) [''nextPageToken'', ''@odata.nextLink'']) invalidResponse) (\<lambda>_.
     sbind (guard (\<not> (connector = ''slack'' \<and> get response ''has_more'' = JBool True
                      \<and> \<not> truthy (get (get response ''response_metadata'') ''next_cursor''))) invalidResponse) (\<lambda>_.
     sbind (case toModel (with_entries input [(''response'', response)]) of Inl _ \<Rightarrow> Inl invalidResponse | Inr n \<Rightarrow> Inr n) (\<lambda>normalized.
     let output = (if connector = ''google-workspace''
           then with_entries normalized [(''items'', JArr (map normalizeGmailMessage (case get response ''messages'' of JArr ms \<Rightarrow> ms | _ \<Rightarrow> [])))]
           else normalized) in
     sbind (guard (is_record output) invalidResponse) (\<lambda>_.
     sbind (array_or_invalid (get output ''items'')) (\<lambda>items.
     if connector = ''google-workspace'' \<or> connector = ''microsoft-365''
     then sbind (map_res with_channel items) (\<lambda>items'.
          Inr (with_entries output [(''cursor'', if connector = ''microsoft-365'' then get output ''nextLink'' else get output ''cursor''),
                (''items'', JArr items')]))
     else Inr output)))))"

definition fetchPage ::
    "request_platform \<Rightarrow> ExecutionContext option \<Rightarrow> string \<Rightarrow> jsval \<Rightarrow> string \<Rightarrow> normalizer \<Rightarrow> jsval async" where
  "fetchPage pf context connector input credential toModel =
     (let limit = nullish (get input ''limit'') (JInt 25);
          hosts = (case map_of sync_hosts connector of Some h \<Rightarrow> [h] | None \<Rightarrow> []) in
      check_async (guard (budget_within 100 limit) (invalid_sync_input ''Message page limit must be between 1 and 100.'')) (\<lambda>_.
      check_async (createConnectorHttpClient hosts (JInt page_limit_bytes) JUndef) (\<lambda>http.
      let client = \<lparr>sc_http = http, sc_headers = (if connector = ''telegram'' then [] else [(''Authorization'', ''Bearer '' @ credential)])\<rparr> in
      if connector = ''telegram'' then telegram_page pf client context limit credential input toModel
      else await_async (if connector = ''slack'' then slack_page pf client context limit input
             else if connector = ''google-workspace'' then gmail_page pf client context limit input
             else outlook_page pf client context limit input)
           (\<lambda>response. settled (normalized_page connector input toModel response)))))"

definition sync_input :: "string \<Rightarrow> jsval \<Rightarrow> jsval" where
  "sync_input connector input = (if connector = ''slack'' then withSlackChannelAlias input else input)"

definition sync_credential :: "string \<Rightarrow> jsval \<Rightarrow> jsval" where
  "sync_credential connector input = get input (if connector = ''telegram'' then ''botToken'' else ''accessToken'')"

definition withLiveMessageSync :: "request_platform \<Rightarrow> string \<Rightarrow> normalizer \<Rightarrow> request list handler" where
  "withLiveMessageSync pf connector toModel context now input sent =
     (if \<not> is_record input then (sent, Inl (invalid_sync_input ''Sync input must be an object.''))
      else let normalizedInput = sync_input connector input in
        case sync_credential connector normalizedInput of
          JStr (c # cs) \<Rightarrow>
            (case await_async (fetchPage pf context connector normalizedInput (c # cs) toModel) (\<lambda>v. settled (Inr (unmarked v))) now sent of
               (sent', p) \<Rightarrow> (sent', Inr (Pending p)))
        | _ \<Rightarrow> (sent, sbind (toModel normalizedInput) (\<lambda>v. Inr (Value (unmarked v)))))"

definition message_syncs :: "request_platform \<Rightarrow> (string \<times> request list handlers) list" where
  "message_syncs pf =
     map (\<lambda>(connector, toModel). (connector, [(''messages.list'', withLiveMessageSync pf connector toModel)]))
       [(''slack'', listSlackMessages), (''telegram'', listTelegramMessages),
        (''google-workspace'', listGmailMessages), (''microsoft-365'', listOutlookMessages)]"

section \<open>Which requests are sent\<close>

text \<open>
  A request of a live sync: a GET to the one host of the provider, over https and without following
  redirects, with the credential as bearer token and nothing else (Telegram carries it in the path).
\<close>

definition sync_request :: "string \<Rightarrow> string \<Rightarrow> request \<Rightarrow> bool" where
  "sync_request connector credential r =
     ((\<exists>u. sent_url r = url_href u \<and> protocol u = ''https:'' \<and> username u = [] \<and> password u = []
         \<and> map_of sync_hosts connector = Some (to_lower (hostname u)))
      \<and> sent_redirect r = ''manual''
      \<and> sent_init r = \<lparr>req_method = ''GET'',
          req_headers = (if connector = ''telegram'' then [] else [(''Authorization'', ''Bearer '' @ credential)]),
          req_body = None, req_signal = None\<rparr>)"

definition client_for :: "string \<Rightarrow> string \<Rightarrow> sync_client \<Rightarrow> bool" where
  "client_for connector credential client =
     (opt_hosts (sc_http client) = (case map_of sync_hosts connector of Some h \<Rightarrow> [h] | None \<Rightarrow> [])
      \<and> sc_headers client = (if connector = ''telegram'' then [] else [(''Authorization'', ''Bearer '' @ credential)]))"

lemma sync_host_allowed:
  assumes "map_of sync_hosts connector = Some h" and "hostIsAllowed host [h]"
  shows "to_lower host = h"
proof -
  have "\<forall>(c, h) \<in> set sync_hosts. to_lower h = h \<and> \<not> starts_with ''*.'' h" by code_simp
  with map_of_SomeD [OF assms(1)] have "to_lower h = h" "\<not> starts_with ''*.'' h" by auto
  with assms(2) show ?thesis by (simp add: hostIsAllowed_def Let_def)
qed

lemma get_page_sends:
  assumes "client_for connector credential client"
  shows "sends_only (sync_request connector credential) (get_page pf client context totalBytes url)"
proof -
  have "sync_request connector credential r"
    if "outbound (p_parse (http_platform.truncate pf)) (sc_http client) (Parsed url) (sync_init client) r" for r
  proof -
    from that obtain u where u: "protocol u = ''https:''" "username u = []" "password u = []"
        "hostIsAllowed (hostname u) (opt_hosts (sc_http client))" "sent_url r = url_href u" "sent_init r = sync_init client"
        "sent_redirect r = ''manual''"
      by (auto simp: outbound_def)
    from u(4) assms obtain h where h: "map_of sync_hosts connector = Some h" "hostIsAllowed (hostname u) [h]"
      by (cases "map_of sync_hosts connector") (simp_all add: client_for_def hostIsAllowed_def Let_def)
    with sync_host_allowed [OF h] u assms show ?thesis
      by (auto simp: sync_request_def client_for_def sync_init_def)
  qed
  then show ?thesis unfolding get_page_def by (intro sends_only_await sends_only_fetch sends_only_settled)
qed

lemma get_page_upto: "sends_upto 1 (get_page pf client context totalBytes url)"
proof -
  have "sends_upto (1 + 0) (get_page pf client context totalBytes url)"
    unfolding get_page_def by (intro sends_upto_await sends_upto_fetch sends_upto_settled)
  then show ?thesis by simp
qed

lemma gmail_messages_sends:
  assumes "client_for connector credential client"
  shows "sends_only (sync_request connector credential) (gmail_messages pf client context totalBytes items)"
  by (induction items arbitrary: totalBytes)
     (simp, simp only: gmail_messages.simps, intro sends_only_check sends_only_await async_case_prod sends_only_settled
        get_page_sends [OF assms])

lemma gmail_messages_upto: "sends_upto (length items) (gmail_messages pf client context totalBytes items)"
proof (induction items arbitrary: totalBytes)
  case (Cons item items)
  have rest: "sends_upto (length items) (await_async (gmail_messages pf client context total items) f)"
    if "\<And>a. sends_upto 0 (f a)" for total and f :: "jsval list \<Rightarrow> jsval list async"
    using sends_upto_await [OF Cons.IH that] by simp
  have "sends_upto (1 + length items) (gmail_messages pf client context totalBytes (item # items))"
    unfolding gmail_messages.simps
    by (intro sends_upto_check sends_upto_await get_page_upto async_case_prod rest sends_upto_settled)
  then show ?case by simp
qed simp

lemmas page_defs = slack_page_def telegram_page_def gmail_page_def outlook_page_def

lemma pages_send:
  assumes "client_for connector credential client"
  shows "sends_only (sync_request connector credential) (slack_page pf client context limit input)"
    and "sends_only (sync_request connector credential) (telegram_page pf client context limit token input toModel)"
    and "sends_only (sync_request connector credential) (gmail_page pf client context limit input)"
    and "sends_only (sync_request connector credential) (outlook_page pf client context limit input)"
proof -
  show "sends_only (sync_request connector credential) (slack_page pf client context limit input)"
    unfolding slack_page_def
    by (auto split: jsval.split list.split intro!: sends_only_check sends_only_await async_case_prod get_page_sends [OF assms])
  show "sends_only (sync_request connector credential) (telegram_page pf client context limit token input toModel)"
    unfolding telegram_page_def
    by (intro sends_only_check sends_only_await async_case_prod sends_only_settled get_page_sends [OF assms])
  show "sends_only (sync_request connector credential) (gmail_page pf client context limit input)"
    unfolding gmail_page_def
    by (intro sends_only_check sends_only_await async_case_prod sends_only_settled get_page_sends [OF assms]
        gmail_messages_sends [OF assms])
  show "sends_only (sync_request connector credential) (outlook_page pf client context limit input)"
    unfolding outlook_page_def Let_def
    by (intro sends_only_check sends_only_await async_case_prod sends_only_settled get_page_sends [OF assms])
qed

lemma page_upto:
  assumes "\<And>a. sends_upto 0 (f a)"
  shows "sends_upto 1 (await_async (get_page pf client context totalBytes url) f)"
  using sends_upto_await [OF get_page_upto assms] by simp

lemma gmail_listing_Inr: "gmail_listing limit body = Inr (response, listed) \<Longrightarrow> int (length listed) \<le> int_of limit"
  by (auto simp: gmail_listing_def Let_def res_simps split: if_splits)

lemma pages_upto:
  assumes "int_of limit \<le> 100"
  shows "sends_upto 101 (slack_page pf client context limit input)"
    and "sends_upto 101 (telegram_page pf client context limit token input toModel)"
    and "sends_upto 101 (gmail_page pf client context limit input)"
    and "sends_upto 101 (outlook_page pf client context limit input)"
proof -
  have "sends_upto 1 (slack_page pf client context limit input)"
    unfolding slack_page_def
    by (auto simp del: One_nat_def split: jsval.split list.split intro!: sends_upto_check page_upto async_case_prod)
  then show "sends_upto 101 (slack_page pf client context limit input)" by (rule sends_upto_mono) simp
  have "sends_upto 1 (telegram_page pf client context limit token input toModel)"
    unfolding telegram_page_def by (intro sends_upto_check page_upto async_case_prod sends_upto_settled)
  then show "sends_upto 101 (telegram_page pf client context limit token input toModel)" by (rule sends_upto_mono) simp
  have "sends_upto 1 (outlook_page pf client context limit input)"
    unfolding outlook_page_def Let_def by (intro sends_upto_check page_upto async_case_prod sends_upto_settled)
  then show "sends_upto 101 (outlook_page pf client context limit input)" by (rule sends_upto_mono) simp
  have bodies: "sends_upto 100 (await_async (gmail_messages pf client context total listed) (\<lambda>messages. settled (g messages)))"
    if "gmail_listing limit body = Inr (response, listed)" for body response listed total and g :: "jsval list \<Rightarrow> jsval res"
  proof (rule sends_upto_mono)
    show "sends_upto (length listed + 0) (await_async (gmail_messages pf client context total listed) (\<lambda>messages. settled (g messages)))"
      by (intro sends_upto_await gmail_messages_upto sends_upto_settled)
    show "length listed + 0 \<le> 100" using gmail_listing_Inr [OF that] assms by simp
  qed
  have listing: "sends_upto 100 (check_async (gmail_listing limit body) (\<lambda>(response, listed).
      await_async (gmail_messages pf client context total listed) (\<lambda>messages. settled (g response messages))))"
    for body total and g :: "jsval \<Rightarrow> jsval list \<Rightarrow> jsval res"
    by (rule sends_upto_check) (auto intro: bodies)
  have "sends_upto (1 + 100) (gmail_page pf client context limit input)"
    unfolding gmail_page_def
    by (rule sends_upto_check, rule sends_upto_await, rule get_page_upto, rule async_case_prod, rule listing)
  then show "sends_upto 101 (gmail_page pf client context limit input)" by simp
qed

lemma fetchPage_sends:
  "sends_only (sync_request connector credential) (fetchPage pf context connector input credential toModel)"
proof -
  have c: "client_for connector credential
      \<lparr>sc_http = http, sc_headers = (if connector = ''telegram'' then [] else [(''Authorization'', ''Bearer '' @ credential)])\<rparr>"
    if "createConnectorHttpClient (case map_of sync_hosts connector of Some h \<Rightarrow> [h] | None \<Rightarrow> []) (JInt page_limit_bytes) JUndef = Inr http"
    for http
    using that by (auto simp: client_for_def createConnectorHttpClient_def Let_def split: if_splits)
  show ?thesis
    unfolding fetchPage_def Let_def
    by (intro sends_only_check async_if sends_only_await sends_only_settled pages_send c)
qed

lemma fetchPage_upto: "sends_upto 101 (fetchPage pf context connector input credential toModel)"
proof -
  have f: "sends_upto 101 (await_async m (\<lambda>response. settled (g response)))" if "sends_upto 101 m" for m and g :: "jsval \<Rightarrow> jsval res"
    using sends_upto_await [OF that, of 0 "\<lambda>response. settled (g response)"] by simp
  have "int_of limit \<le> 100" if "guard (budget_within 100 limit) e = Inr u" for limit e u
    using that by (auto simp: res_simps simp del: budget_values elim!: budget_withinE)
  then show ?thesis
    unfolding fetchPage_def Let_def by (intro sends_upto_check async_if f pages_upto)
qed

lemma message_syncs_member:
  assumes "(connector, hs) \<in> set (message_syncs pf)" and "(name, h) \<in> set hs"
  obtains toModel where "h = withLiveMessageSync pf connector toModel"
  using assms by (auto simp: message_syncs_def)

lemma live_sync_sends:
  assumes "withLiveMessageSync pf connector toModel context now input sent = (sent', r)"
  shows "\<exists>rs. sent' = sent @ rs \<and> length rs \<le> 101
     \<and> list_all (sync_request connector (str_of (sync_credential connector (sync_input connector input)))) rs"
proof (cases "sent' = sent")
  case False
  let ?input = "sync_input connector input"
  obtain c cs where cred: "sync_credential connector ?input = JStr (c # cs)"
    using assms False by (auto simp: withLiveMessageSync_def Let_def split: if_splits jsval.splits list.splits)
  let ?m = "await_async (fetchPage pf context connector ?input (c # cs) toModel) (\<lambda>v. settled (Inr (unmarked v)))"
  obtain p where p: "?m now sent = (sent', p)"
    using assms False cred by (auto simp: withLiveMessageSync_def Let_def split: if_splits prod.splits)
  have "sends_only (sync_request connector (c # cs)) ?m"
    by (intro sends_only_await fetchPage_sends sends_only_settled)
  from sends_onlyD [OF this p] obtain rs where rs: "sent' = sent @ rs" "list_all (sync_request connector (c # cs)) rs" by blast
  have "sends_upto (101 + 0) ?m" by (intro sends_upto_await fetchPage_upto sends_upto_settled)
  then have "length sent' \<le> length sent + 101" using p unfolding sends_upto_def by (metis add_0_right fst_conv)
  with rs cred show ?thesis by (auto simp: str_of_def)
qed simp


section \<open>An injected response\<close>

text \<open>Records that differ at most in their \<open>response\<close>.\<close>

definition similar :: "jsval \<Rightarrow> jsval \<Rightarrow> bool" where
  "similar i j = (is_record i \<and> is_record j \<and> (\<forall>k. k \<noteq> ''response'' \<longrightarrow> get i k = get j k))"

lemma get_with_entry: "is_record v \<Longrightarrow> get (with_entries v [(k, w)]) k' = (if k' = k then w else get v k')"
  by (cases v) (auto simp: with_entries_def own_entries_def spread_def get_def prop_get_def map_of_obj_def)

lemma is_record_with_entries [simp]: "is_record (with_entries v es)"
  by (simp add: with_entries_def)

lemma similar_alias:
  assumes "similar i j"
  shows "similar (withSlackChannelAlias i) (withSlackChannelAlias j)"
proof -
  have g: "get i ''channelId'' = get j ''channelId''" "get i ''channel'' = get j ''channel''"
    using assms by (simp_all add: similar_def)
  have "similar (with_entries i [(''channelId'', w)]) (with_entries j [(''channelId'', w)])" for w
    using assms by (simp add: similar_def get_with_entry)
  with assms show ?thesis
    by (simp add: withSlackChannelAlias_def g split: list.split jsval.split)
qed

lemma similar_input: "similar i j \<Longrightarrow> similar (sync_input connector i) (sync_input connector j)"
  by (simp add: sync_input_def similar_alias)

text \<open>A normalizer reads properties of its input and nothing else.\<close>

definition reads_only :: "normalizer \<Rightarrow> bool" where
  "reads_only toModel = (\<forall>i j. is_record i \<and> is_record j \<and> (\<forall>k. get i k = get j k) \<longrightarrow> toModel i = toModel j)"

lemma normalizers_read:
  "reads_only listSlackMessages" "reads_only listTelegramMessages" "reads_only listGmailMessages" "reads_only listOutlookMessages"
  by (simp_all add: reads_only_def listSlackMessages_def listTelegramMessages_def listGmailMessages_def listOutlookMessages_def)

lemma fetchPage_similar:
  assumes "similar i j" and "reads_only toModel"
  shows "fetchPage pf context connector i credential toModel = fetchPage pf context connector j credential toModel"
proof -
  have g: "get i ''limit'' = get j ''limit''" "get i ''channelId'' = get j ''channelId''" "get i ''cursor'' = get j ''cursor''"
      "get i ''query'' = get j ''query''" "get i ''filter'' = get j ''filter''"
    using assms(1) by (simp_all add: similar_def)
  have m: "toModel (with_entries i [(''response'', w)]) = toModel (with_entries j [(''response'', w)])" for w
    using assms unfolding reads_only_def similar_def by (simp add: get_with_entry)
  have "normalized_page connector i toModel = normalized_page connector j toModel"
      "telegram_output i toModel = telegram_output j toModel"
    unfolding fun_eq_iff normalized_page_def telegram_output_def Let_def m by simp_all
  then show ?thesis
    unfolding fetchPage_def page_defs given_param_def Let_def g by simp
qed

text \<open>An injected response cannot suppress the live read. For each of the four message syncs, if the input
  has a credential then whatever the caller puts into the field \<open>response\<close> changes neither the requests that
  are sent nor the page that is answered.\<close>

theorem injected_response_ignored:
  assumes "(connector, toModel) \<in> set [(''slack'', listSlackMessages), (''telegram'', listTelegramMessages),
      (''google-workspace'', listGmailMessages), (''microsoft-365'', listOutlookMessages)]"
    and "sync_credential connector (JObj ps) = JStr (c # cs)"
  shows "withLiveMessageSync pf connector toModel context now (JObj (obj_def ps ''response'' injected)) sent
       = withLiveMessageSync pf connector toModel context now (JObj ps) sent"
proof -
  let ?i = "JObj (obj_def ps ''response'' injected)" and ?j = "JObj ps"
  have s: "similar (sync_input connector ?i) (sync_input connector ?j)"
    by (rule similar_input) (simp add: similar_def get_def prop_get_def map_of_obj_def)
  have "sync_credential connector (sync_input connector ?j) = sync_credential connector ?j"
    by (auto simp: sync_input_def sync_credential_def withSlackChannelAlias_def get_with_entry split: list.split jsval.split)
  with assms(2) s have "sync_credential connector (sync_input connector ?j) = JStr (c # cs)"
      "sync_credential connector (sync_input connector ?i) = JStr (c # cs)"
    by (simp_all add: similar_def sync_credential_def)
  moreover have "reads_only toModel" using assms(1) normalizers_read by auto
  ultimately show ?thesis
    using fetchPage_similar [OF s] by (simp add: withLiveMessageSync_def)
qed

section \<open>The cursor of Telegram\<close>

lemma num_max_safe:
  assumes "num_val a = Some (of_int i)" and "num_val b = Some (of_int j)"
  shows "num_max a b \<in> {a, b}" and "num_val (num_max a b) = Some (of_int (max i j))"
  using assms by (cases a; cases b; auto simp: max_def)+

lemma foldl_num_max:
  assumes "list_all is_safe_integer (i # ids)"
  shows "\<exists>m. foldl num_max i ids \<in> set (i # ids) \<and> num_val (foldl num_max i ids) = Some (of_int m)
     \<and> (\<forall>n \<in> set (i # ids). \<forall>k. num_val n = Some (of_int k) \<longrightarrow> k \<le> m)"
  using assms
proof (induction ids arbitrary: i)
  case Nil
  then show ?case by (auto elim: is_safe_integerE)
next
  case (Cons j ids)
  obtain x y where v: "num_val i = Some (of_int x)" "num_val j = Some (of_int y)"
    using Cons.prems by (auto elim!: is_safe_integerE)
  note mx = num_max_safe [OF v]
  have "list_all is_safe_integer (num_max i j # ids)" using Cons.prems mx(1) by auto
  from Cons.IH [OF this] obtain m where m: "foldl num_max (num_max i j) ids \<in> set (num_max i j # ids)"
      "num_val (foldl num_max (num_max i j) ids) = Some (of_int m)"
      "\<forall>n \<in> set (num_max i j # ids). \<forall>k. num_val n = Some (of_int k) \<longrightarrow> k \<le> m"
    by blast
  have "max x y \<le> m" using m(3) mx(2) by (metis list.set_intros(1))
  then have "\<forall>n \<in> set (i # j # ids). \<forall>k. num_val n = Some (of_int k) \<longrightarrow> k \<le> m"
    using m(3) v by (auto simp del: num_max.simps)
  moreover have "foldl num_max i (j # ids) \<in> set (i # j # ids)"
    using m(1) mx(1) by (auto simp del: num_max.simps)
  ultimately show ?case using m(2) by (auto simp del: num_max.simps)
qed

definition update_number :: "jsval \<Rightarrow> int \<Rightarrow> bool" where
  "update_number u k = (\<exists>n. get u ''update_id'' = JNum n \<and> num_val n = Some (of_int k))"

lemma next_offset_advances:
  assumes "list_all update_ok updates" and "updates \<noteq> []"
  shows "\<exists>m. next_offset updates = JStr (num_to_string (Fin (of_int (m + 1))))
     \<and> (\<exists>u \<in> set updates. update_number u m) \<and> (\<forall>u \<in> set updates. \<exists>k. update_number u k \<and> k \<le> m)"
proof -
  let ?id = "\<lambda>u. case get u ''update_id'' of JNum n \<Rightarrow> n | _ \<Rightarrow> NaN"
  have ok: "get u ''update_id'' = JNum (?id u)" "is_safe_integer (?id u)" if "u \<in> set updates" for u
    using assms(1) that by (auto simp: list_all_iff update_ok_def split: jsval.splits)
  obtain i ids where ids: "map ?id updates = i # ids" using assms(2) by (cases updates) auto
  have safe: "list_all is_safe_integer (i # ids)"
    unfolding ids [symmetric] list_all_iff using ok(2) by auto
  from foldl_num_max [OF this] obtain m where m: "foldl num_max i ids \<in> set (i # ids)"
      "num_val (foldl num_max i ids) = Some (of_int m)"
      "\<forall>n \<in> set (i # ids). \<forall>k. num_val n = Some (of_int k) \<longrightarrow> k \<le> m"
    by blast
  have "is_safe_integer (foldl num_max i ids)" using safe m(1) by (simp only: list_all_iff)
  then have "next_offset updates = JStr (num_to_string (Fin (of_int (m + 1))))"
    using m(2) by (simp add: next_offset_def ids num_succ_def del: num_max.simps num_to_string.simps)
  moreover have "\<exists>u \<in> set updates. update_number u m"
  proof -
    obtain u where "u \<in> set updates" "foldl num_max i ids = ?id u"
      using m(1) unfolding ids [symmetric] by auto
    with ok(1) m(2) show ?thesis unfolding update_number_def by metis
  qed
  moreover have "\<exists>k. update_number u k \<and> k \<le> m" if u: "u \<in> set updates" for u
  proof -
    obtain k where k: "num_val (?id u) = Some (of_int k)" using ok(2) [OF u] by (rule is_safe_integerE)
    moreover have "?id u \<in> set (i # ids)" unfolding ids [symmetric] using u by simp
    ultimately show ?thesis using m(3) ok(1) [OF u] unfolding update_number_def by metis
  qed
  ultimately show ?thesis by blast
qed

text \<open>Paging through Telegram loses no update and repeats none. If a page with updates is answered, the cursor
  in the answer is one more than the largest update number of the page, whether or not that update carries
  a message: the next read asks for exactly the updates after this page. Any normalizer.\<close>

theorem telegram_cursor_advances:
  assumes "telegram_output input toModel body = Inr output" and "get body ''result'' = JArr updates" and "updates \<noteq> []"
  shows "\<exists>m. get output ''cursor'' = JStr (num_to_string (Fin (of_int (m + 1))))
     \<and> (\<exists>u \<in> set updates. update_number u m) \<and> (\<forall>u \<in> set updates. \<exists>k. update_number u k \<and> k \<le> m)"
proof -
  from assms(1,2) obtain out where ok: "list_all update_ok updates"
      and out: "output = with_entries out [(''cursor'', next_offset updates)]"
    by (auto simp: telegram_output_def array_or_invalid_def Let_def res_simps split: if_splits)
  have "get output ''cursor'' = next_offset updates"
    by (simp add: out with_entries_def spread_def get_def prop_get_def map_of_obj_def)
  with next_offset_advances [OF ok assms(3)] show ?thesis by simp
qed

section \<open>Witnesses\<close>

definition chat_platform :: request_platform where
  "chat_platform =
     \<lparr>p_parse = (\<lambda>t. Some \<lparr>protocol = ''https:'', username = [], password = [], hostname = ''slack.com'', port = [],
        pathname = ''/api/conversations.history'', search = [], hash = []\<rparr>),
      p_fetch = (\<lambda>t r. Settles (t + 5) (Inr \<lparr>res_status = 200, res_headers = [], res_body = None\<rparr>)),
      p_decode = map char_of, p_params = (\<lambda>_. []), p_search = id\<rparr>"

definition chat_fields :: props where
  "chat_fields = [(''accessToken'', JStr ''t''), (''channel'', JStr '' C1 '')]"

definition chat_updates :: "jsval list" where
  "chat_updates = [JObj [(''update_id'', JInt 9)], JObj [(''update_id'', JInt 7)]]"


theorem injected_response_ignored_witness:
  "withLiveMessageSync chat_platform ''slack'' listSlackMessages None 0 (JObj (obj_def chat_fields ''response'' (JObj []))) []
     = withLiveMessageSync chat_platform ''slack'' listSlackMessages None 0 (JObj chat_fields) []"
proof (rule injected_response_ignored)
  show "sync_credential ''slack'' (JObj chat_fields) = JStr (CHR ''t'' # [])" by code_simp
qed simp

theorem telegram_cursor_advances_witness:
  "\<exists>output m. telegram_output (JObj []) listTelegramMessages (JObj [(''ok'', JBool True), (''result'', JArr chat_updates)]) = Inr output
     \<and> get output ''cursor'' = JStr (num_to_string (Fin (of_int (m + 1)))) \<and> update_number (hd chat_updates) m"
proof -
  have "is_ok (telegram_output (JObj []) listTelegramMessages (JObj [(''ok'', JBool True), (''result'', JArr chat_updates)]))"
    by code_simp
  then obtain out where o: "telegram_output (JObj []) listTelegramMessages
      (JObj [(''ok'', JBool True), (''result'', JArr chat_updates)]) = Inr out"
    by (auto simp: is_ok_iff)
  have "get (JObj [(''ok'', JBool True), (''result'', JArr chat_updates)]) ''result'' = JArr chat_updates"
    by (simp add: get_def prop_get_def)
  from telegram_cursor_advances [OF o this] obtain m where "get out ''cursor'' = JStr (num_to_string (Fin (of_int (m + 1))))"
      "\<exists>u \<in> set chat_updates. update_number u m" "\<forall>u \<in> set chat_updates. \<exists>k. update_number u k \<and> k \<le> m"
    by (auto simp: chat_updates_def)
  moreover from this have "m = 9"
    by (auto simp: chat_updates_def update_number_def get_def prop_get_def)
  ultimately show ?thesis using o by (auto simp: chat_updates_def update_number_def get_def prop_get_def)
qed

end
