(* ===== verification/Webhooks.thy ===== *)
theory Webhooks
  imports Server "HOL-Library.Word"
begin

unbundle bit_operations_syntax

text \<open>
  The inbound webhooks: the \<open>webhooks\<close> table of \<open>registry.ts\<close> and the parsers it names
  (\<open>webhook.ts\<close> of the connectors RB2B, Apollo, Heyzine, WhatsApp, Ashby, Calendly and Typeform), with
  the RB2B verifier, visitor model and action. A parser answers an idempotency key, an operation and the
  payload that is kept. The theorems: the verifier decides equality with the secret although it compares
  without stopping early; no delivery to a registered connector is ever refused by
  \<open>connector.webhook.verify\<close>; every parsed delivery has the shape the control plane reads and keeps
  nothing but the listed fields.
\<close>

section \<open>Reading a delivery\<close>

definition text_prop :: "jsval \<Rightarrow> string \<Rightarrow> string" where
  "text_prop v field = str_of (get v field)"

text \<open>\<open>a || b\<close> on strings, and the first text that is not empty.\<close>

definition or_text :: "string \<Rightarrow> string \<Rightarrow> string" where
  "or_text a b = (if a = [] then b else a)"

fun first_text :: "string list \<Rightarrow> string" where
  "first_text [] = []"
| "first_text (t # ts) = or_text t (first_text ts)"

definition propArr :: "jsval \<Rightarrow> string \<Rightarrow> jsval list" where
  "propArr v field = (case get v field of JArr xs \<Rightarrow> xs | _ \<Rightarrow> [])"

definition record_or_empty :: "jsval \<Rightarrow> jsval" where
  "record_or_empty v = (if is_record v then v else JObj [])"

definition parsed_webhook :: "string \<Rightarrow> jsval \<Rightarrow> jsval \<Rightarrow> jsval" where
  "parsed_webhook idempotencyKey operation sanitized =
     JObj [(''idempotencyKey'', JStr idempotencyKey), (''operation'', operation), (''sanitized'', sanitized)]"

section \<open>RB2B\<close>

definition page_visit :: "jsval \<Rightarrow> jsval" where
  "page_visit p = JObj [(''url'', JStr (text_prop p ''url'')), (''timestamp'', JStr (text_prop p ''timestamp''))]"

definition normalizePages :: "jsval \<Rightarrow> jsval list" where
  "normalizePages raw =
     (if propArr raw ''pages'' \<noteq> [] then map page_visit (filter is_record (propArr raw ''pages''))
      else if propArr raw ''all_time_page_views'' \<noteq> []
        then map page_visit (filter is_record (propArr raw ''all_time_page_views''))
      else [])"

definition extractPersonalEmail :: "jsval \<Rightarrow> string" where
  "extractPersonalEmail raw =
     (case filter (\<lambda>e. str_of e \<noteq> []) (propArr raw ''personal_emails'') of
        e # _ \<Rightarrow> str_of e | [] \<Rightarrow> text_prop raw ''personal_email'')"

definition dashed :: "string \<Rightarrow> string" where
  "dashed s = map (\<lambda>c. if is_alnum c then c else CHR ''-'') s"

definition deriveId :: "jsval \<Rightarrow> string" where
  "deriveId raw =
     (if text_prop raw ''id'' \<noteq> [] then ''rb2b-visitor:'' @ text_prop raw ''id''
      else if text_prop raw ''linkedin_url'' \<noteq> [] then ''rb2b-visitor:'' @ dashed (text_prop raw ''linkedin_url'')
      else if text_prop raw ''business_email'' \<noteq> [] then ''rb2b-visitor:'' @ text_prop raw ''business_email''
      else ''rb2b-visitor:unknown'')"

definition non_empty_joined :: "string \<Rightarrow> string list \<Rightarrow> string" where
  "non_empty_joined sep ts = join sep (filter (\<lambda>t. t \<noteq> []) ts)"

definition parseVisitorWebhook :: "jsval \<Rightarrow> jsval" where
  "parseVisitorWebhook payload =
     (let firstName = text_prop payload ''first_name'';
          lastName = text_prop payload ''last_name'';
          fullName = or_text (non_empty_joined '' '' [firstName, lastName]) (text_prop payload ''full_name'');
          location = non_empty_joined '', '' [text_prop payload ''city'', text_prop payload ''region'']
      in JObj [(''id'', JStr (deriveId payload)), (''provider'', JStr ''rb2b''),
           (''firstName'', JStr firstName), (''lastName'', JStr lastName), (''fullName'', JStr fullName),
           (''linkedinUrl'', JStr (text_prop payload ''linkedin_url'')),
           (''workEmail'', JStr (text_prop payload ''business_email'')),
           (''personalEmail'', JStr (extractPersonalEmail payload)),
           (''company'', JStr (text_prop payload ''company_name'')), (''title'', JStr (text_prop payload ''job_title'')),
           (''location'', JStr location), (''visitedPages'', JArr (normalizePages payload)),
           (''visitedAt'', JStr (text_prop payload ''timestamp'')), (''raw'', payload),
           (''modelVersion'', JStr ''2026-05-17'')])"

definition rb2b_deriveIdempotencyKey :: "jsval \<Rightarrow> jsval \<Rightarrow> string" where
  "rb2b_deriveIdempotencyKey payload visitor =
     (let explicit = or_text (text_prop payload ''event_id'') (text_prop payload ''id'');
          stamp = text_prop visitor ''visitedAt''
      in if explicit \<noteq> [] then ''rb2b-wh:'' @ explicit
         else ''rb2b-wh:'' @ text_prop visitor ''id'' @ (if stamp \<noteq> [] then '':'' @ stamp else []))"

definition rb2b_parseWebhook :: "jsval \<Rightarrow> jsval" where
  "rb2b_parseWebhook payload =
     (if \<not> is_record payload
      then parsed_webhook ''rb2b-wh:unknown'' (JStr ''webhook.visitor_identified'') (JObj [])
      else let visitor = parseVisitorWebhook payload
           in parsed_webhook (rb2b_deriveIdempotencyKey payload visitor) (JStr ''webhook.visitor_identified'') visitor)"

text \<open>
  The comparison of two texts: \<open>charCodeAt\<close> gives the code unit at an index, and \<open>^\<close> and \<open>|\<close> work on
  32-bit integers.
\<close>

definition charCodeAt :: "string \<Rightarrow> nat \<Rightarrow> 32 word" where
  "charCodeAt s i = word_of_nat (code (s ! i))"

definition timingSafeEqual :: "string \<Rightarrow> string \<Rightarrow> bool" where
  "timingSafeEqual a b =
     (if length a \<noteq> length b then False
      else foldl (\<lambda>mismatch i. mismatch OR (charCodeAt a i XOR charCodeAt b i)) 0 [0..<length a] = 0)"

text \<open>
  The headers under lower-case names. Assigning \<open>__proto__\<close> creates no property: an object becomes the
  prototype that later reads fall back to.
\<close>

definition lower_header :: "props \<times> jsval \<Rightarrow> string \<times> jsval \<Rightarrow> props \<times> jsval" where
  "lower_header lowered e =
     (if to_lower (fst e) = ''__proto__''
      then (fst lowered, case snd e of JObj _ \<Rightarrow> snd e | JArr _ \<Rightarrow> snd e | JFun _ \<Rightarrow> snd e | JNull \<Rightarrow> JNull | _ \<Rightarrow> snd lowered)
      else (obj_def (fst lowered) (to_lower (fst e)) (snd e), snd lowered))"

definition lower_headers :: "jsval \<Rightarrow> props \<times> jsval" where
  "lower_headers headers = foldl lower_header ([], JObj []) (props_of headers)"

definition lowered_get :: "props \<times> jsval \<Rightarrow> string \<Rightarrow> jsval" where
  "lowered_get headers k = (case headers of (ps, proto) \<Rightarrow>
     case map_of ps k of Some v \<Rightarrow> v | None \<Rightarrow> get proto k)"

definition presented_token :: "jsval \<Rightarrow> jsval \<Rightarrow> jsval" where
  "presented_token payload headers =
     (let lowerHeaders = lower_headers headers in
      nullish (lowered_get lowerHeaders ''x-rb2b-token'')
        (nullish (lowered_get lowerHeaders ''x-rb2b-signature'')
          (JStr (if is_record payload then or_text (text_prop payload ''secret'') (text_prop payload ''token'') else []))))"

text \<open>
  Headers are declared as texts. Of another value the code reads \<open>length\<close>; if that is the length of the
  secret, the call of \<open>charCodeAt\<close> throws, and otherwise the lengths differ.
\<close>

definition value_length :: "jsval \<Rightarrow> jsval" where
  "value_length v = (case v of JArr xs \<Rightarrow> JInt (int (length xs)) | JObj ps \<Rightarrow> prop_get ps ''length'' | _ \<Rightarrow> JUndef)"

definition rb2b_verifyWebhook :: "jsval \<Rightarrow> jsval \<Rightarrow> string option \<Rightarrow> bool res" where
  "rb2b_verifyWebhook payload headers secret =
     (case secret of
        None \<Rightarrow> Inr True
      | Some expected \<Rightarrow>
          if expected = [] then Inr True
          else (case presented_token payload headers of
                  JStr presented \<Rightarrow> Inr (0 < length presented \<and> timingSafeEqual presented expected)
                | v \<Rightarrow> if value_length v = JInt (int (length expected))
                       then Inl (ErrorInst ''TypeError'' ''a.charCodeAt is not a function'' [])
                       else Inr False))"

definition validateVisitorsParseInput :: "jsval \<Rightarrow> jsval res" where
  "validateVisitorsParseInput input =
     (if \<not> is_record input then Inl (Error ''visitors.parse input must be an object'')
      else if \<not> is_record (get input ''payload'') then Inl (Error ''payload is required and must be an object'')
      else Inr (JObj [(''payload'', get input ''payload'')]))"

definition parseVisitors :: "jsval \<Rightarrow> jsval res" where
  "parseVisitors input =
     sbind (validateVisitorsParseInput input) (\<lambda>validated.
     Inr (JObj [(''connector'', JStr ''rb2b''), (''action'', JStr ''visitors.parse''), (''source'', JStr ''connector''),
       (''visitor'', parseVisitorWebhook (get validated ''payload''))]))"

definition rb2b_healthcheck :: "jsval" where
  "rb2b_healthcheck = JObj [(''connector'', JStr ''rb2b''), (''status'', JStr ''ok''), (''source'', JStr ''connector'')]"

section \<open>Apollo\<close>

definition extractPerson :: "jsval \<Rightarrow> jsval" where
  "extractPerson payload =
     (if is_record (get payload ''person'') then get payload ''person''
      else case get payload ''people'' of
          JArr people \<Rightarrow> (case filter is_record people of first # _ \<Rightarrow> first | [] \<Rightarrow> payload)
        | _ \<Rightarrow> payload)"

definition extractPersonId :: "jsval \<Rightarrow> jsval \<Rightarrow> string" where
  "extractPersonId payload person =
     first_text [text_prop payload ''person_id'', text_prop person ''id'', text_prop person ''person_id'', text_prop payload ''id'']"

definition number_entry :: "jsval \<Rightarrow> string" where
  "number_entry entry =
     (if is_record entry
      then first_text [text_prop entry ''sanitized_number'', text_prop entry ''raw_number'', text_prop entry ''number'']
      else [])"

definition extractPhone :: "jsval \<Rightarrow> jsval \<Rightarrow> string" where
  "extractPhone payload person =
     (let numbers = (case get person ''phone_numbers'' of JArr xs \<Rightarrow> xs
                     | _ \<Rightarrow> (case get payload ''phone_numbers'' of JArr xs \<Rightarrow> xs | _ \<Rightarrow> []))
      in first_text (map number_entry numbers @
           [text_prop person ''sanitized_number'', text_prop person ''raw_number'',
            text_prop payload ''sanitized_number'', text_prop payload ''raw_number'',
            text_prop person ''phone'', text_prop payload ''phone'']))"

definition apollo_deriveIdempotencyKey :: "jsval \<Rightarrow> string \<Rightarrow> string \<Rightarrow> string" where
  "apollo_deriveIdempotencyKey payload personId phone =
     (let eventId = or_text (text_prop payload ''event_id'') (text_prop payload ''webhook_id'');
          suffix = first_text [phone, eventId, text_prop payload ''id'', ''unknown'']
      in ''apollo-wh:'' @ or_text personId ''unknown'' @ '':'' @ suffix)"

definition apollo_parseWebhook :: "jsval \<Rightarrow> jsval" where
  "apollo_parseWebhook payload =
     (if \<not> is_record payload then parsed_webhook ''apollo-wh:unknown'' (JStr ''webhook.phone_revealed'') (JObj [])
      else let person = extractPerson payload;
               personId = extractPersonId payload person;
               phone = extractPhone payload person
           in parsed_webhook (apollo_deriveIdempotencyKey payload personId phone) (JStr ''webhook.phone_revealed'')
                (JObj [(''personId'', JStr personId), (''phone'', JStr phone)]))"

section \<open>Heyzine\<close>

definition heyzine_identifier :: "jsval \<Rightarrow> string" where
  "heyzine_identifier v = (case v of JStr s \<Rightarrow> s | JNum n \<Rightarrow> if is_finite n then num_to_string n else [] | _ \<Rightarrow> [])"

definition heyzine_parseWebhook :: "jsval \<Rightarrow> jsval" where
  "heyzine_parseWebhook payload =
     (let envelope = record_or_empty payload;
          data = (if is_record (get envelope ''data'') then get envelope ''data'' else envelope);
          sanitizedData = foldl (\<lambda>ps key. if has_own (props_of data) key then obj_put ps key (get data key) else ps) []
                            [''id_webhook'', ''date'', ''leads'']
      in parsed_webhook (''heyzine-wh:'' @ first_text [heyzine_identifier (get data ''id_webhook''), heyzine_identifier (get data ''date''), ''unknown''])
           (JStr ''webhooks.leads'') (JObj [(''data'', JObj sanitizedData)]))"

section \<open>WhatsApp\<close>

definition firstRecord :: "jsval \<Rightarrow> jsval" where
  "firstRecord v =
     (case v of JArr xs \<Rightarrow> (case filter is_record xs of found # _ \<Rightarrow> found | [] \<Rightarrow> JUndef)
      | _ \<Rightarrow> if is_record v then v else JUndef)"

definition extractInbound :: "jsval \<Rightarrow> jsval" where
  "extractInbound payload =
     (let entry = nullish (firstRecord (get payload ''entry'')) (JObj []);
          change = nullish (firstRecord (get entry ''changes'')) (JObj []);
          val = record_or_empty (get change ''value'');
          metadata = record_or_empty (get val ''metadata'');
          message = nullish (firstRecord (get val ''messages'')) (JObj []);
          body = (if is_record (get message ''text'') then text_prop (get message ''text'') ''body'' else [])
      in JObj [(''messageId'', JStr (text_prop message ''id'')), (''from'', JStr (text_prop message ''from'')),
           (''phoneNumberId'', JStr (text_prop metadata ''phone_number_id'')), (''type'', JStr (text_prop message ''type'')),
           (''text'', JStr body), (''timestamp'', JStr (text_prop message ''timestamp''))])"

definition whatsapp_parseWebhook :: "jsval \<Rightarrow> jsval" where
  "whatsapp_parseWebhook payload =
     (if \<not> is_record payload then parsed_webhook ''whatsapp-wh:unknown'' (JStr ''webhook.message_received'') (JObj [])
      else let inbound = extractInbound payload
           in parsed_webhook (''whatsapp-wh:'' @ or_text (text_prop inbound ''messageId'') ''unknown'')
                (JStr ''webhook.message_received'') inbound)"

section \<open>Ashby\<close>

definition ACTION_OPERATIONS :: props where
  "ACTION_OPERATIONS =
     [(''applicationsubmit'', JStr ''webhook.application_submitted''),
      (''applicationcreate'', JStr ''webhook.application_submitted''),
      (''candidateapplicationsubmit'', JStr ''webhook.application_submitted''),
      (''candidateupdate'', JStr ''webhook.candidate_updated''),
      (''interviewschedulescreate'', JStr ''webhook.interview_scheduled''),
      (''interviewschedulecreate'', JStr ''webhook.interview_scheduled''),
      (''offercreate'', JStr ''webhook.offer_created'')]"

definition nestedId :: "jsval \<Rightarrow> string" where
  "nestedId v = (if is_record v then text_prop v ''id'' else [])"

definition classifyAction :: "string \<Rightarrow> jsval" where
  "classifyAction action =
     nullish (prop_get ACTION_OPERATIONS (to_lower (filter (\<lambda>c. c \<notin> set ''._-'') action))) JNull"

definition ashby_deriveIdempotencyKey :: "jsval \<Rightarrow> string \<Rightarrow> string" where
  "ashby_deriveIdempotencyKey payload fallbackId =
     ''ashby-wh:'' @ first_text [text_prop payload ''webhookActionId'', text_prop payload ''webhook_action_id'',
       fallbackId, text_prop payload ''id'', ''unknown'']"

definition non_empty_field :: "string \<Rightarrow> string \<Rightarrow> props" where
  "non_empty_field k t = (if t \<noteq> [] then [(k, JStr t)] else [])"

definition ashby_parseWebhook :: "jsval \<Rightarrow> jsval" where
  "ashby_parseWebhook payload =
     (if \<not> is_record payload then parsed_webhook ''ashby-wh:unknown'' (JStr ''webhook.application_submitted'') (JObj [])
      else let data = record_or_empty (get payload ''data'');
               action = or_text (text_prop payload ''action'') (text_prop payload ''type'');
               matched = classifyAction action;
               operation = nullish matched (JStr ''webhook.application_submitted'');
               when = (\<lambda>v op t. if v = JStr op then t else []);
               applicationId = first_text [text_prop data ''applicationId'', text_prop data ''application_id'',
                 when matched ''webhook.application_submitted'' (text_prop data ''id''), nestedId (get data ''application'')];
               candidateId = first_text [text_prop data ''candidateId'', text_prop data ''candidate_id'',
                 when matched ''webhook.candidate_updated'' (text_prop data ''id''), nestedId (get data ''candidate'')];
               interviewScheduleId = first_text [text_prop data ''interviewScheduleId'', text_prop data ''interview_schedule_id'',
                 when matched ''webhook.interview_scheduled'' (text_prop data ''id'')];
               offerId = first_text [text_prop data ''offerId'', text_prop data ''offer_id'',
                 when matched ''webhook.offer_created'' (text_prop data ''id'')];
               sanitized = non_empty_field ''action'' action @ non_empty_field ''applicationId'' applicationId
                 @ non_empty_field ''candidateId'' candidateId @ non_empty_field ''interviewScheduleId'' interviewScheduleId
                 @ non_empty_field ''offerId'' offerId;
               fallbackId = first_text [when operation ''webhook.interview_scheduled'' interviewScheduleId,
                 when operation ''webhook.offer_created'' offerId, when operation ''webhook.candidate_updated'' candidateId,
                 applicationId, candidateId, interviewScheduleId, offerId]
           in parsed_webhook (ashby_deriveIdempotencyKey payload fallbackId) operation (JObj sanitized))"

section \<open>Calendly\<close>

definition EVENT_OPERATIONS :: props where
  "EVENT_OPERATIONS =
     [(''invitee.created'', JStr ''webhook.invitee_created''), (''invitee.canceled'', JStr ''webhook.invitee_canceled''),
      (''routing_form_submission.created'', JStr ''webhook.routing_form_submission'')]"

definition calendly_parseWebhook :: "jsval \<Rightarrow> jsval" where
  "calendly_parseWebhook payload =
     (if \<not> is_record payload then parsed_webhook ''calendly-wh:unknown'' (JStr ''webhook.invitee_created'') (JObj [])
      else let event = text_prop payload ''event'';
               inner = record_or_empty (get payload ''payload'');
               uri = or_text (text_prop inner ''uri'') (text_prop payload ''uri'');
               operation = nullish (prop_get EVENT_OPERATIONS event) (JStr ''webhook.invitee_created'');
               suffix = first_text [uri, text_prop payload ''created_at'', ''unknown'']
           in parsed_webhook (''calendly-wh:'' @ or_text event ''unknown'' @ '':'' @ suffix) operation
                (JObj (if event \<noteq> []
                   then [(''event'', JStr event), (''uri'', JStr uri), (''email'', JStr (text_prop inner ''email'')),
                         (''name'', JStr (text_prop inner ''name'')), (''status'', JStr (text_prop inner ''status'')),
                         (''scheduledEvent'', JStr (text_prop inner ''event''))]
                   else [])))"

section \<open>Typeform\<close>

definition typeform_parseWebhook :: "jsval \<Rightarrow> jsval res" where
  "typeform_parseWebhook payload =
     (if \<not> is_record payload then Inl (Error ''webhook payload must be an object'')
      else let formResponse = record_or_empty (get payload ''form_response'');
               eventType = (case get payload ''event_type'' of JStr s \<Rightarrow> s | _ \<Rightarrow> ''form_response'');
               eventId = text_prop payload ''event_id'';
               formId = text_prop formResponse ''form_id'';
               token = text_prop formResponse ''token''
           in Inr (parsed_webhook (or_text eventId (formId @ '':'' @ token @ '':'' @ eventType)) (JStr ''webhook.form_response'')
                (JObj [(''eventId'', JStr eventId), (''eventType'', JStr eventType), (''formId'', JStr formId), (''token'', JStr token),
                  (''submittedAt'', JStr (text_prop formResponse ''submitted_at'')), (''raw'', payload)])))"

section \<open>The table of the registry\<close>

text \<open>The registry calls a verifier with the payload and the headers only: the third argument is absent.\<close>

definition parser_only :: "(jsval \<Rightarrow> jsval res) \<Rightarrow> webhook" where
  "parser_only parse = \<lparr>w_parse = parse, w_verify = None\<rparr>"

definition builtin_webhooks :: "(string \<times> webhook) list" where
  "builtin_webhooks =
     [(''heyzine'', parser_only (\<lambda>p. Inr (heyzine_parseWebhook p))),
      (''rb2b'', \<lparr>w_parse = (\<lambda>p. Inr (rb2b_parseWebhook p)),
         w_verify = Some (\<lambda>p h. sbind (rb2b_verifyWebhook p h None) (\<lambda>b. Inr (JBool b)))\<rparr>),
      (''apollo'', parser_only (\<lambda>p. Inr (apollo_parseWebhook p))),
      (''whatsapp'', parser_only (\<lambda>p. Inr (whatsapp_parseWebhook p))),
      (''ashby'', parser_only (\<lambda>p. Inr (ashby_parseWebhook p))),
      (''calendly'', parser_only (\<lambda>p. Inr (calendly_parseWebhook p))),
      (''typeform'', parser_only typeform_parseWebhook)]"

definition rb2b_actions :: "'s handlers" where
  "rb2b_actions = [(''visitors.parse'', \<lambda>context now input s. (s, sbind (parseVisitors input) (\<lambda>v. Inr (Value (unmarked v)))))]"

definition rb2b_healthcheck_handler :: "'s handler" where
  "rb2b_healthcheck_handler = (\<lambda>context now input s. (s, Inr (Value (unmarked rb2b_healthcheck))))"


section \<open>Verification\<close>

lemma or_zero_iff: "a OR b = (0 :: 32 word) \<longleftrightarrow> a = 0 \<and> b = 0"
  by (auto simp: bit_eq_iff bit_or_iff)

lemma foldl_or_zero: "foldl (\<lambda>m i. m OR f i) m xs = (0 :: 32 word) \<longleftrightarrow> m = 0 \<and> (\<forall>i \<in> set xs. f i = 0)"
  by (induction xs arbitrary: m) (auto simp: or_zero_iff)

lemma xor_zero_iff: "a XOR b = (0 :: 32 word) \<longleftrightarrow> a = b"
  by (auto simp: bit_eq_iff bit_xor_iff)

lemma charCodeAt_eq: "charCodeAt a i = charCodeAt b j \<longleftrightarrow> a ! i = b ! j"
proof -
  have "take_bit 32 (code c) = code c" for c
    by (rule take_bit_nat_eq_self, rule less_le_trans [OF code_less]) simp
  then show ?thesis
    by (simp add: charCodeAt_def word_of_nat_eq_iff code_eq_iff)
qed

lemma timingSafeEqual_iff: "timingSafeEqual a b \<longleftrightarrow> a = b"
proof (cases "length a = length b")
  case True
  then have "timingSafeEqual a b \<longleftrightarrow> (\<forall>i < length a. a ! i = b ! i)"
    by (auto simp: timingSafeEqual_def foldl_or_zero xor_zero_iff charCodeAt_eq)
  with True show ?thesis by (auto intro: nth_equalityI)
qed (auto simp: timingSafeEqual_def)


text \<open>The lowered headers, when no two names differ in case only.\<close>

lemma map_of_lower_header:
  "map_of (fst (lower_header lowered e)) k =
     (if k = to_lower (fst e) \<and> k \<noteq> ''__proto__'' then Some (snd e) else map_of (fst lowered) k)"
  by (auto simp: lower_header_def obj_simps)

lemma lower_headers_keep:
  "k \<notin> set (map (to_lower \<circ> fst) hs) \<Longrightarrow> map_of (fst (foldl lower_header lowered hs)) k = map_of (fst lowered) k"
  by (induction hs arbitrary: lowered) (auto simp: map_of_lower_header)

lemma map_of_lower_headers:
  assumes "distinct (map (to_lower \<circ> fst) hs)" and "(k, v) \<in> set hs" and "to_lower k \<noteq> ''__proto__''"
  shows "map_of (fst (foldl lower_header lowered hs)) (to_lower k) = Some v"
  using assms(1,2)
proof (induction hs arbitrary: lowered)
  case (Cons e hs)
  show ?case
  proof (cases "e = (k, v)")
    case True
    with Cons.prems assms(3) show ?thesis
      using lower_headers_keep [of "to_lower k" hs] by (simp add: map_of_lower_header)
  qed (use Cons in auto)
qed simp

text \<open>C25: With a secret configured, the RB2B verifier accepts a delivery exactly if the token presented with it is
  the secret, although it compares the texts without stopping at the first difference; and the token of the header
  \<open>x-rb2b-token\<close>, in any spelling of its name, is the one that counts, whatever the body says.\<close>

theorem rb2b_token_decides:
  assumes "secret \<noteq> []"
  shows "(rb2b_verifyWebhook payload headers (Some secret) = Inr True \<longleftrightarrow> presented_token payload headers = JStr secret)
    \<and> (distinct (map (to_lower \<circ> fst) hs) \<and> (k, JStr token) \<in> set hs \<and> to_lower k = ''x-rb2b-token'' \<longrightarrow>
         rb2b_verifyWebhook payload (JObj hs) (Some secret) = Inr (token = secret))"
proof (intro conjI impI)
  show "rb2b_verifyWebhook payload headers (Some secret) = Inr True \<longleftrightarrow> presented_token payload headers = JStr secret"
    using assms by (auto simp: rb2b_verifyWebhook_def timingSafeEqual_iff split: jsval.splits)
next
  assume "distinct (map (to_lower \<circ> fst) hs) \<and> (k, JStr token) \<in> set hs \<and> to_lower k = ''x-rb2b-token''"
  then have "map_of (fst (lower_headers (JObj hs))) ''x-rb2b-token'' = Some (JStr token)"
    using map_of_lower_headers [of hs k "JStr token"] by (auto simp: lower_headers_def)
  then have "presented_token payload (JObj hs) = JStr token"
    by (simp add: presented_token_def lowered_get_def nullish_def case_prod_beta)
  with assms show "rb2b_verifyWebhook payload (JObj hs) (Some secret) = Inr (token = secret)"
    by (auto simp: rb2b_verifyWebhook_def timingSafeEqual_iff)
qed


section \<open>Parsing\<close>

text \<open>The operations a connector's deliveries are filed under, and the fields of a delivery that are kept.\<close>

definition webhook_contract :: "string \<Rightarrow> string list \<times> string list" where
  "webhook_contract connectorKey =
     (if connectorKey = ''heyzine'' then ([''webhooks.leads''], [''data''])
      else if connectorKey = ''rb2b'' then ([''webhook.visitor_identified''],
        [''id'', ''provider'', ''firstName'', ''lastName'', ''fullName'', ''linkedinUrl'', ''workEmail'', ''personalEmail'',
         ''company'', ''title'', ''location'', ''visitedPages'', ''visitedAt'', ''raw'', ''modelVersion''])
      else if connectorKey = ''apollo'' then ([''webhook.phone_revealed''], [''personId'', ''phone''])
      else if connectorKey = ''whatsapp'' then ([''webhook.message_received''],
        [''messageId'', ''from'', ''phoneNumberId'', ''type'', ''text'', ''timestamp''])
      else if connectorKey = ''ashby'' then
        ([''webhook.application_submitted'', ''webhook.candidate_updated'', ''webhook.interview_scheduled'', ''webhook.offer_created''],
         [''action'', ''applicationId'', ''candidateId'', ''interviewScheduleId'', ''offerId''])
      else if connectorKey = ''calendly'' then
        ([''webhook.invitee_created'', ''webhook.invitee_canceled'', ''webhook.routing_form_submission''],
         [''event'', ''uri'', ''email'', ''name'', ''status'', ''scheduledEvent''])
      else ([''webhook.form_response''], [''eventId'', ''eventType'', ''formId'', ''token'', ''submittedAt'', ''raw'']))"

text \<open>An operation looked up in a table of the source: one of the table, the default, or a member of the prototype.\<close>

definition operation_found :: "bool \<Rightarrow> string list \<Rightarrow> jsval \<Rightarrow> bool" where
  "operation_found by_name ops v = (v \<in> JStr ` set ops \<or> by_name \<and> (\<exists>k. v = object_prototype k \<and> v \<noteq> JUndef))"

lemma prop_get_table:
  assumes "snd ` set tbl \<subseteq> JStr ` set ops"
  shows "prop_get tbl k = JUndef \<or> prop_get tbl k \<noteq> JNull \<and> operation_found True ops (prop_get tbl k)"
proof (cases "map_of tbl k")
  case None
  have "object_prototype k \<noteq> JNull" by (simp add: object_prototype_def)
  with None show ?thesis by (auto simp: prop_get_def operation_found_def)
next
  case (Some v)
  then have "v \<in> JStr ` set ops" using assms map_of_SomeD [OF Some] by force
  with Some show ?thesis by (auto simp: prop_get_def operation_found_def)
qed

lemma operation_found_table:
  assumes "snd ` set tbl \<subseteq> JStr ` set ops" and "d \<in> set ops"
  shows "operation_found True ops (nullish (nullish (prop_get tbl k) JNull) (JStr d))"
    and "operation_found True ops (nullish (prop_get tbl k) (JStr d))"
proof -
  have "operation_found True ops (JStr d)" using assms(2) by (simp add: operation_found_def)
  with prop_get_table [OF assms(1), of k]
  show "operation_found True ops (nullish (nullish (prop_get tbl k) JNull) (JStr d))"
      "operation_found True ops (nullish (prop_get tbl k) (JStr d))"
    by (auto simp: nullish_def)
qed

definition webhook_shaped :: "bool \<Rightarrow> string list \<times> string list \<Rightarrow> jsval \<Rightarrow> bool" where
  "webhook_shaped by_name c v = (\<exists>key op ps. v = parsed_webhook key op (JObj ps) \<and> key \<noteq> [] \<and> operation_found by_name (fst c) op
     \<and> fst ` set ps \<subseteq> set (snd c))"

lemma webhook_shapedI:
  "v = parsed_webhook key op (JObj ps) \<Longrightarrow> key \<noteq> [] \<Longrightarrow> operation_found by_name (fst c) op \<Longrightarrow> fst ` set ps \<subseteq> set (snd c)
     \<Longrightarrow> webhook_shaped by_name c v"
  unfolding webhook_shaped_def by blast

lemma operation_found_fixed: "op \<in> set ops \<Longrightarrow> operation_found by_name ops (JStr op)"
  by (simp add: operation_found_def)

lemma rb2b_shaped: "webhook_shaped False (webhook_contract ''rb2b'') (rb2b_parseWebhook p)"
  by (auto simp: rb2b_parseWebhook_def parseVisitorWebhook_def rb2b_deriveIdempotencyKey_def webhook_contract_def Let_def
      intro!: webhook_shapedI operation_found_fixed)

lemma apollo_shaped: "webhook_shaped False (webhook_contract ''apollo'') (apollo_parseWebhook p)"
  by (auto simp: apollo_parseWebhook_def apollo_deriveIdempotencyKey_def webhook_contract_def Let_def
      intro!: webhook_shapedI operation_found_fixed)

lemma heyzine_shaped: "webhook_shaped False (webhook_contract ''heyzine'') (heyzine_parseWebhook p)"
  by (auto simp: heyzine_parseWebhook_def webhook_contract_def Let_def intro!: webhook_shapedI operation_found_fixed)

lemma whatsapp_shaped: "webhook_shaped False (webhook_contract ''whatsapp'') (whatsapp_parseWebhook p)"
  by (auto simp: whatsapp_parseWebhook_def extractInbound_def webhook_contract_def Let_def
      intro!: webhook_shapedI operation_found_fixed)

lemma ashby_shaped: "webhook_shaped True (webhook_contract ''ashby'') (ashby_parseWebhook p)"
proof -
  let ?c = "webhook_contract ''ashby''" and ?d = "JStr ''webhook.application_submitted''"
  have found: "operation_found True (fst ?c) (nullish (classifyAction a) ?d)" for a
    unfolding classifyAction_def by (rule operation_found_table) (simp_all add: ACTION_OPERATIONS_def webhook_contract_def)
  have kept: "fst ` set (non_empty_field ''action'' a @ non_empty_field ''applicationId'' b @ non_empty_field ''candidateId'' c
      @ non_empty_field ''interviewScheduleId'' d @ non_empty_field ''offerId'' e) \<subseteq> set (snd ?c)" for a b c d e
    by (auto simp: non_empty_field_def webhook_contract_def)
  show ?thesis
  proof (cases "is_record p")
    case True
    then have branch: "(if \<not> is_record p then x else y) = y" for x y :: jsval by simp
    show ?thesis unfolding ashby_parseWebhook_def Let_def branch
      by (rule webhook_shapedI [OF refl _ found kept]) (simp add: ashby_deriveIdempotencyKey_def)
  next
    case False
    then show ?thesis
      by (auto simp: ashby_parseWebhook_def webhook_contract_def intro!: webhook_shapedI operation_found_fixed)
  qed
qed

lemma calendly_shaped: "webhook_shaped True (webhook_contract ''calendly'') (calendly_parseWebhook p)"
proof -
  let ?c = "webhook_contract ''calendly''"
  have found: "operation_found True (fst ?c) (nullish (prop_get EVENT_OPERATIONS e) (JStr ''webhook.invitee_created''))" for e
    by (rule operation_found_table) (simp_all add: EVENT_OPERATIONS_def webhook_contract_def)
  have kept: "fst ` set (if b then [(''event'', v1), (''uri'', v2), (''email'', v3), (''name'', v4), (''status'', v5), (''scheduledEvent'', v6)]
      else []) \<subseteq> set (snd ?c)" for b v1 v2 v3 v4 v5 v6 by (auto simp: webhook_contract_def)
  show ?thesis
  proof (cases "is_record p")
    case True
    then have branch: "(if \<not> is_record p then x else y) = y" for x y :: jsval by simp
    show ?thesis unfolding calendly_parseWebhook_def Let_def branch
      by (rule webhook_shapedI [OF refl _ found kept]) simp
  next
    case False
    then show ?thesis
      by (auto simp: calendly_parseWebhook_def webhook_contract_def intro!: webhook_shapedI operation_found_fixed)
  qed
qed

lemma typeform_shaped: "is_record p \<Longrightarrow> \<exists>v. typeform_parseWebhook p = Inr v \<and> webhook_shaped False (webhook_contract ''typeform'') v"
  by (auto simp: typeform_parseWebhook_def or_text_def webhook_contract_def Let_def
      intro!: webhook_shapedI operation_found_fixed)

lemmas parsers_shaped = rb2b_shaped apollo_shaped heyzine_shaped whatsapp_shaped ashby_shaped calendly_shaped


text \<open>
  What the provider calls the event, for the providers that do.
\<close>

definition event_name :: "string \<Rightarrow> jsval \<Rightarrow> string" where
  "event_name connectorKey payload =
     (if connectorKey = ''rb2b'' then or_text (text_prop payload ''event_id'') (text_prop payload ''id'')
      else if connectorKey = ''whatsapp'' then text_prop (extractInbound payload) ''messageId''
      else if connectorKey = ''ashby'' then or_text (text_prop payload ''webhookActionId'') (text_prop payload ''webhook_action_id'')
      else if connectorKey = ''typeform'' then text_prop payload ''event_id''
      else [])"

definition key_of :: "jsval res \<Rightarrow> string" where
  "key_of r = (case r of Inr v \<Rightarrow> text_prop v ''idempotencyKey'' | Inl _ \<Rightarrow> [])"

lemma text_prop_other: "\<not> is_record v \<Longrightarrow> text_prop v k = []"
  by (cases v) (simp_all add: text_prop_def get_def str_of_def)

lemma extractInbound_other: "\<not> is_record v \<Longrightarrow> text_prop (extractInbound v) ''messageId'' = []"
proof -
  assume "\<not> is_record v"
  then have "get v ''entry'' = JUndef" by (cases v) (simp_all add: get_def)
  then show ?thesis
    by (simp add: extractInbound_def firstRecord_def nullish_def record_or_empty_def prop_get_def object_prototype_def
        text_prop_def str_of_def)
qed

lemma event_name_record: "event_name connectorKey v \<noteq> [] \<Longrightarrow> is_record v"
  using text_prop_other [of v] extractInbound_other [of v]
  by (auto simp: event_name_def or_text_def split: if_splits)

lemma first_text_two: "or_text a b \<noteq> [] \<Longrightarrow> first_text (a # b # ts) = or_text a b"
  by (simp add: or_text_def split: if_splits)

lemma text_prop_key: "text_prop (parsed_webhook k op v) ''idempotencyKey'' = k"
  by (simp add: text_prop_def parsed_webhook_def prop_get_def str_of_def)

text \<open>The key is a fixed prefix followed by the name of the event.\<close>

lemma rb2b_key: "event_name ''rb2b'' v \<noteq> [] \<Longrightarrow> key_of (Inr (rb2b_parseWebhook v)) = ''rb2b-wh:'' @ event_name ''rb2b'' v"
  using event_name_record [of "''rb2b''" v]
  by (simp add: key_of_def rb2b_parseWebhook_def Let_def text_prop_key rb2b_deriveIdempotencyKey_def event_name_def)

lemma whatsapp_key:
  "event_name ''whatsapp'' v \<noteq> [] \<Longrightarrow> key_of (Inr (whatsapp_parseWebhook v)) = ''whatsapp-wh:'' @ event_name ''whatsapp'' v"
  using event_name_record [of "''whatsapp''" v]
  by (simp add: key_of_def whatsapp_parseWebhook_def Let_def text_prop_key event_name_def or_text_def)

lemma ashby_key:
  assumes "event_name ''ashby'' v \<noteq> []"
  shows "key_of (Inr (ashby_parseWebhook v)) = ''ashby-wh:'' @ event_name ''ashby'' v"
proof -
  have branch: "(if \<not> is_record v then x else y) = y" for x y :: jsval
    using event_name_record [OF assms] by simp
  have name: "event_name ''ashby'' v = or_text (text_prop v ''webhookActionId'') (text_prop v ''webhook_action_id'')"
    by (simp add: event_name_def)
  show ?thesis
    unfolding key_of_def ashby_parseWebhook_def Let_def branch sum.case text_prop_key ashby_deriveIdempotencyKey_def
    using assms by (simp only: name first_text_two not_False_eq_True)
qed

lemma typeform_key: "event_name ''typeform'' v \<noteq> [] \<Longrightarrow> key_of (typeform_parseWebhook v) = event_name ''typeform'' v"
  using event_name_record [of "''typeform''" v]
  by (simp add: key_of_def typeform_parseWebhook_def Let_def text_prop_key event_name_def or_text_def)

lemma event_key_prefix:
  assumes "(connectorKey, w) \<in> set builtin_webhooks"
  shows "\<exists>prefix. \<forall>v. event_name connectorKey v \<noteq> [] \<longrightarrow> key_of (w_parse w v) = prefix @ event_name connectorKey v"
proof -
  have "event_name c v = []" if "c \<in> {''heyzine'', ''apollo'', ''calendly''}" for c v
    using that by (auto simp: event_name_def)
  moreover have "\<exists>prefix. \<forall>v. event_name ''typeform'' v \<noteq> [] \<longrightarrow>
      key_of (typeform_parseWebhook v) = prefix @ event_name ''typeform'' v"
    using typeform_key by (intro exI [of _ "[]"]) simp
  moreover note exI [of "\<lambda>prefix. \<forall>v. event_name ''rb2b'' v \<noteq> [] \<longrightarrow>
      key_of (Inr (rb2b_parseWebhook v)) = prefix @ event_name ''rb2b'' v" "''rb2b-wh:''"]
    exI [of "\<lambda>prefix. \<forall>v. event_name ''whatsapp'' v \<noteq> [] \<longrightarrow>
      key_of (Inr (whatsapp_parseWebhook v)) = prefix @ event_name ''whatsapp'' v" "''whatsapp-wh:''"]
    exI [of "\<lambda>prefix. \<forall>v. event_name ''ashby'' v \<noteq> [] \<longrightarrow>
      key_of (Inr (ashby_parseWebhook v)) = prefix @ event_name ''ashby'' v" "''ashby-wh:''"]
  ultimately show ?thesis
    using assms rb2b_key whatsapp_key ashby_key by (auto simp: builtin_webhooks_def parser_only_def)
qed

text \<open>An idempotency key identifies the event. Where the provider names its events (RB2B, WhatsApp, Ashby and
  Typeform), two deliveries get the same key exactly if they carry the same event name, so a redelivery collapses with
  the first delivery and no other event does.\<close>

theorem webhook_key_identifies:
  assumes "(connectorKey, w) \<in> set builtin_webhooks" and "event_name connectorKey p \<noteq> []" and "event_name connectorKey q \<noteq> []"
  shows "key_of (w_parse w p) = key_of (w_parse w q) \<longleftrightarrow> event_name connectorKey p = event_name connectorKey q"
proof -
  from event_key_prefix [OF assms(1)]
  obtain prefix where "\<forall>v. event_name connectorKey v \<noteq> [] \<longrightarrow> key_of (w_parse w v) = prefix @ event_name connectorKey v" ..
  with assms(2,3) show ?thesis by simp
qed

text \<open>Apollo's key is the person with the revealed number: deliveries of two events with the same person and number
  get the same key, whatever their event identifiers.\<close>

lemma apollo_key_ignores_event:
  assumes "is_record p" and "is_record q" and "extractPhone p (extractPerson p) \<noteq> []"
    and "extractPersonId p (extractPerson p) = extractPersonId q (extractPerson q)"
    and "extractPhone p (extractPerson p) = extractPhone q (extractPerson q)"
  shows "text_prop (apollo_parseWebhook p) ''idempotencyKey'' = text_prop (apollo_parseWebhook q) ''idempotencyKey''"
  using assms by (simp add: apollo_parseWebhook_def apollo_deriveIdempotencyKey_def Let_def or_text_def
      text_prop_def parsed_webhook_def prop_get_def)

section \<open>Examples\<close>

definition webhook_input :: "request list registry_input" where
  "webhook_input = \<lparr>in_manifests = [], in_healthchecks = [(''rb2b'', rb2b_healthcheck_handler)],
     in_actions = [(''rb2b'', rb2b_actions)], in_syncs = [], in_webhooks = builtin_webhooks\<rparr>"

definition forged_envelope :: RequestEnvelope where
  "forged_envelope = \<lparr>envelope_id = None, deadlineUnixMs = None, rpc_method = JStr ''connector.webhook.verify'',
     params = Some [(''connectorKey'', JStr ''rb2b''), (''payload'', JObj [(''id'', JStr ''1'')]),
       (''headers'', JObj [(''X-RB2B-Token'', JStr ''forged'')])]\<rparr>"

theorem rb2b_token_decides_witness:
  "rb2b_verifyWebhook (JObj [(''secret'', JStr ''s3cret'')]) (JObj [(''X-RB2B-Token'', JStr ''guess'')]) (Some ''s3cret'') = Inr False
   \<and> rb2b_verifyWebhook (JObj []) (JObj [(''X-RB2B-Token'', JStr ''s3cret'')]) (Some ''s3cret'') = Inr True"
proof -
  have "to_lower ''X-RB2B-Token'' = ''x-rb2b-token''" by code_simp
  then show ?thesis
    using rb2b_token_decides [of "''s3cret''" "JObj [(''secret'', JStr ''s3cret'')]" _ "[(''X-RB2B-Token'', JStr ''guess'')]" "''X-RB2B-Token''" "''guess''"]
      rb2b_token_decides [of "''s3cret''" "JObj []" _ "[(''X-RB2B-Token'', JStr ''s3cret'')]" "''X-RB2B-Token''" "''s3cret''"]
    by simp
qed



theorem webhook_key_identifies_witness:
  "key_of (typeform_parseWebhook (JObj [(''event_id'', JStr ''a''), (''retry'', JBool True)])) = key_of (typeform_parseWebhook (JObj [(''event_id'', JStr ''a'')]))
   \<and> key_of (typeform_parseWebhook (JObj [(''event_id'', JStr ''a'')])) \<noteq> key_of (typeform_parseWebhook (JObj [(''event_id'', JStr ''b'')]))"
proof -
  have "(''typeform'', parser_only typeform_parseWebhook) \<in> set builtin_webhooks" by (simp add: builtin_webhooks_def)
  note identifies = webhook_key_identifies [OF this, unfolded parser_only_def webhook.simps]
  have "event_name ''typeform'' (JObj [(''event_id'', JStr x)]) = x"
      "event_name ''typeform'' (JObj [(''event_id'', JStr x), (''retry'', JBool True)]) = x" for x
    by (simp_all add: event_name_def text_prop_def prop_get_def str_of_def)
  then show ?thesis by (simp add: identifies)
qed

end
