(* ===== verification/Confinement.thy ===== *)
theory Confinement
  imports Server Loader Caldav MessageSync Webhooks
begin

text \<open>
  What the whole runner may do to the outside. A policy is a relation between the state of the handlers
  before and after a step; if every handler of the tables keeps it, then so does every RPC, through the
  registry with its deadlines and observing reads. The policy of interest says which requests are sent:
  it is kept by the handlers the declarative compiler makes and by those of CalDAV, the message syncs and
  RB2B, and thus by a runner built from them.
\<close>

section \<open>Policies\<close>

definition handler_keeps :: "('s \<Rightarrow> 's \<Rightarrow> bool) \<Rightarrow> 's handler \<Rightarrow> bool" where
  "handler_keeps R h = (\<forall>ctx now v s. R s (fst (h ctx now v s)))"

definition handlers_keep :: "('s \<Rightarrow> 's \<Rightarrow> bool) \<Rightarrow> 's handlers \<Rightarrow> bool" where
  "handlers_keep R hs = (\<forall>(k, h) \<in> set hs. handler_keeps R h)"

definition registry_keeps :: "('s \<Rightarrow> 's \<Rightarrow> bool) \<Rightarrow> 's registry_input \<Rightarrow> bool" where
  "registry_keeps R inp =
     (handlers_keep R (in_healthchecks inp) \<and> (\<forall>(k, hs) \<in> set (in_actions inp). handlers_keep R hs)
      \<and> (\<forall>(k, hs) \<in> set (in_syncs inp). handlers_keep R hs))"

lemma handlers_keep_append: "handlers_keep R (hs @ hs') \<longleftrightarrow> handlers_keep R hs \<and> handlers_keep R hs'"
  by (auto simp: handlers_keep_def)

lemma handler_keepsD: "handler_keeps R h \<Longrightarrow> R s (fst (h ctx now v s))"
  by (simp add: handler_keeps_def)

locale effect_policy =
  fixes R :: "'s \<Rightarrow> 's \<Rightarrow> bool"
  assumes stay: "R s s"
    and chain: "R s s' \<Longrightarrow> R s' s'' \<Longrightarrow> R s s''"
begin

lemma runExecution_keeps:
  assumes "\<And>ctx. R s (fst (fn ctx s))"
  shows "R s (fst (runExecution parent clock fn timeoutMs sig deadline ss s))"
proof -
  obtain now0 now1 now2 where c: "clock = (now0, now1, now2)" by (cases clock)
  show ?thesis unfolding c
  proof (rule runExecution_cases [OF refl])
    assume "refused s (runExecution parent (now0, now1, now2) fn timeoutMs sig deadline ss s)"
    then show "R s (fst (runExecution parent (now0, now1, now2) fn timeoutMs sig deadline ss s))"
      by cases (simp_all add: stay)
  next
    fix ctx abort s' r
    assume "fn ctx s = (s', r)" and "runExecution parent (now0, now1, now2) fn timeoutMs sig deadline ss s
        = (s', case r of Inr (Pending p) \<Rightarrow> Inr (Pending (race_abort (Some abort) p)) | _ \<Rightarrow> r)"
    then show "R s (fst (runExecution parent (now0, now1, now2) fn timeoutMs sig deadline ss s))"
      using assms [of ctx] by simp
  qed
qed

lemma handler_at_keeps:
  assumes "handlers_keep R hs" and "handler_at hs k = Some h"
  shows "handler_keeps R h"
proof (cases "map_of hs k")
  case None
  then show ?thesis using assms(2) stay
    by (auto simp: handler_at_def proto_handler_def handler_keeps_def split: if_splits)
next
  case (Some g)
  then show ?thesis using assms map_of_SomeD [OF Some] by (auto simp: handler_at_def handlers_keep_def)
qed

lemma handler_in_keeps:
  assumes "\<forall>(k, hs) \<in> set tbl. handlers_keep R hs" and "handler_in tbl c operation = Some h"
  shows "handler_keeps R h"
  using assms handler_at_keeps by (fastforce simp: handler_in_def bind_eq_Some_conv dest: map_of_SomeD)

lemma promise_then_keeps:
  assumes "\<And>t a s. R s (fst (f t a s))"
  shows "R s (fst (promise_then now v f s))"
  using assms stay by (auto simp: promise_then_def case_prod_beta split: promise.splits sum.splits returned.splits)

lemma applyEffectPolicyReconcile_keeps:
  assumes "\<forall>(k, hs) \<in> set actions. handlers_keep R hs" and "\<forall>(k, hs) \<in> set syncs. handlers_keep R hs"
  shows "R s (fst (applyEffectPolicyReconcile c v primary spec tbl actions syncs ctx now s))"
proof (cases "observer actions syncs c (case reconcile spec of Some name \<Rightarrow> name | None \<Rightarrow> [])")
  case None
  then show ?thesis
    using stay by (auto simp: applyEffectPolicyReconcile_def split: option.splits list.splits)
next
  case (Some h)
  then have h: "handler_keeps R h"
    using assms handler_in_keeps by (auto simp: observer_def split: option.splits)
  have "R s (fst (case observe_input v spec observeSpec resolved of Inl e \<Rightarrow> (s, Inl e)
      | Inr observed \<Rightarrow> (case h (Some ctx) t observed s of (s', Inl e) \<Rightarrow> (s', Inl e) | (s', Inr v) \<Rightarrow> (s', boundedOutput v m))))"
    for s observeSpec resolved t m
    using handler_keepsD [OF h, of s "Some ctx" t] stay
    by (auto simp: case_prod_beta split: sum.splits)
  then have "R s (fst (promise_then now primary (\<lambda>t resolved s. case observe_input v spec observeSpec resolved of Inl e \<Rightarrow> (s, Inl e)
      | Inr observed \<Rightarrow> (case h (Some ctx) t observed s of (s', Inl e) \<Rightarrow> (s', Inl e) | (s', Inr v) \<Rightarrow> (s', boundedOutput v m))) s))"
    for observeSpec m by (intro promise_then_keeps)
  with Some show ?thesis
    by (auto simp: applyEffectPolicyReconcile_def Let_def stay case_prod_beta split: option.splits list.splits)
qed

lemma health_work_keeps: "handler_keeps R h \<Longrightarrow> R s (fst (health_work reg c h v spec now ctx s))"
  using handler_keepsD [of R h s "Some ctx" now v] by (auto simp: health_work_def Let_def case_prod_beta split: sum.splits)

lemma run_health_keeps:
  assumes "handler_keeps R h"
  shows "R s (fst (run_health reg env c h v spec s))"
proof -
  obtain parent clock where env: "env = (parent, clock)" by (cases env)
  have "R s (fst (runExecution parent clock (health_work reg c h v spec (snd (snd clock))) (spec_timeout spec) None None None s))"
    by (rule runExecution_keeps) (rule health_work_keeps [OF assms])
  then show ?thesis by (simp add: run_health_def env case_prod_beta split: sum.split)
qed

lemma healthcheck_keeps:
  assumes "registry_keeps R (r_input reg)"
  shows "R s (fst (healthcheck reg env c v s))"
proof (cases "handler_at (in_healthchecks (r_input reg)) c")
  case (Some h)
  have "handler_keeps R h" using assms handler_at_keeps [OF _ Some] by (simp add: registry_keeps_def)
  then have "R s (fst (run_health reg env c h v spec s))" for spec by (rule run_health_keeps)
  then show ?thesis using Some stay by (simp add: healthcheck_def Let_def case_prod_beta split: option.split)
qed (simp add: healthcheck_def stay)

lemma action_work_keeps:
  assumes "registry_keeps R (r_input reg)" and "handler_keeps R h"
  shows "R s (fst (action_work reg c h v spec now ctx s))"
proof -
  obtain s' r where h: "h (Some ctx) now v s = (s', r)" by fastforce
  then have "R s s'" using handler_keepsD [OF assms(2), of s "Some ctx" now v] by simp
  moreover have "R s' (fst (applyEffectPolicyReconcile c v primary spec (r_specs reg) (in_actions (r_input reg)) (in_syncs (r_input reg)) ctx now s'))"
    for primary
    using assms(1) by (intro applyEffectPolicyReconcile_keeps) (simp_all add: registry_keeps_def)
  ultimately show ?thesis using h chain by (auto simp: action_work_def split: sum.splits)
qed

lemma run_action_keeps:
  assumes "registry_keeps R (r_input reg)" and "handler_keeps R h"
  shows "R s (fst (run_action reg env c h v spec s))"
proof -
  obtain parent clock where env: "env = (parent, clock)" by (cases env)
  have "R s (fst (runExecution parent clock (action_work reg c h v spec (snd (snd clock))) (sp_timeoutMs spec) None None None s))"
    by (rule runExecution_keeps) (rule action_work_keeps [OF assms])
  then show ?thesis by (simp add: run_action_def env case_prod_beta split: sum.split)
qed

lemma action_gate_keeps:
  assumes "registry_keeps R (r_input reg)" and "action_gate reg c operation v = Inr (spec, h)"
  shows "handler_keeps R h"
  using assms handler_at_keeps handler_in_keeps
  by (auto simp: action_gate_def Let_def registry_keeps_def split: if_splits option.splits)

lemma executeAction_keeps:
  assumes "registry_keeps R (r_input reg)"
  shows "R (snd st) (snd (fst (executeAction reg env c operation v st)))"
proof (cases "action_gate reg c operation v")
  case (Inr g)
  obtain spec h where g: "g = (spec, h)" by fastforce
  with assms Inr have "handler_keeps R h" using action_gate_keeps by blast
  then have "R s (fst (run_action reg env c h v spec s))" "R s (fst (run_health reg env c h v (Some spec) s))" for s
    by (simp_all add: run_action_keeps [OF assms] run_health_keeps)
  with Inr g stay show ?thesis
    by (simp add: executeAction_def case_prod_beta split: sum.split option.split)
qed (simp add: executeAction_def stay split: prod.split)

lemma sync_gate_keeps:
  assumes "registry_keeps R (r_input reg)" and "sync_gate reg c operation v = Inr (spec, h)"
  shows "handler_keeps R h"
  using assms handler_in_keeps by (auto simp: sync_gate_def registry_keeps_def split: if_splits option.splits)

lemma executeSync_keeps:
  assumes "registry_keeps R (r_input reg)"
  shows "R (snd st) (snd (fst (executeSync reg env c operation v st)))"
proof (cases "sync_gate reg c operation v")
  case (Inr g)
  obtain spec h where g: "g = (spec, h)" by fastforce
  with assms Inr have h: "handler_keeps R h" using sync_gate_keeps by blast
  have "R s (fst (sync_work h v spec now ctx s))" for s now ctx
    using handler_keepsD [OF h, of s "Some ctx" now v] by (auto simp: sync_work_def case_prod_beta split: sum.splits)
  then have "R s (fst (runExecution parent clock (sync_work h v spec now) t None None None s))" for s parent clock now t
    by (rule runExecution_keeps)
  with Inr g stay show ?thesis
    by (simp add: executeSync_def case_prod_beta split: sum.split option.split)
qed (simp add: executeSync_def stay split: prod.split)

end

text \<open>The server carries the state of the handlers along: a policy of the handlers is one of the server.\<close>

definition serves :: "('s \<Rightarrow> 's \<Rightarrow> bool) \<Rightarrow> 's srv \<Rightarrow> 's srv \<Rightarrow> bool" where
  "serves R st st' = R (snd (rstate st)) (snd (rstate st'))"

context effect_policy
begin

lemma serves_policy: "effect_policy (serves R)"
  by unfold_locales (auto simp: serves_def intro: stay chain)

lemmas serves_stay = effect_policy.stay [OF serves_policy]

lemma log_entry_keeps [simp]: "serves R st (log_entry secrets es st') = serves R st st'"
  by (simp add: serves_def log_entry_def)

lemma log_first: "serves R (logRequest i m st) st' = serves R st st'"
  by (simp add: serves_def logRequest_def log_entry_def)

lemma await_then_keeps:
  assumes "serves R st st1" and "\<And>r. serves R st (fst (k r st1))"
  shows "serves R st (fst (await_then now v k st1))"
  using assms by (auto simp: await_then_def case_prod_beta split: promise.splits)

lemma handleConnectorActionExecute_keeps:
  assumes "registry_keeps R (r_input reg)"
  shows "serves R st (fst (handleConnectorActionExecute reg ctx clock envelope st))"
proof -
  have "serves R st (st\<lparr>rstate := fst (executeAction reg (Some ctx, clock) c operation v (rstate st))\<rparr>)" for c operation v
    using executeAction_keeps [OF assms] by (simp add: serves_def)
  then show ?thesis
    by (simp add: handleConnectorActionExecute_def Let_def serves_stay case_prod_beta await_then_keeps split: option.split sum.split result.split)
qed

lemma handleConnectorSyncList_keeps:
  assumes "registry_keeps R (r_input reg)"
  shows "serves R st (fst (handleConnectorSyncList reg ctx clock envelope st))"
proof -
  have "serves R st (st\<lparr>rstate := fst (executeSync reg (Some ctx, clock) c operation v (rstate st))\<rparr>)" for c operation v
    using executeSync_keeps [OF assms] by (simp add: serves_def)
  then show ?thesis
    by (simp add: handleConnectorSyncList_def Let_def serves_stay case_prod_beta await_then_keeps split: option.split sum.split result.split)
qed

lemma handleConnectorHealthcheck_keeps:
  assumes "registry_keeps R (r_input reg)"
  shows "serves R st (fst (handleConnectorHealthcheck reg ctx clock envelope st))"
proof -
  have "serves R st (st\<lparr>rstate := (vs, fst (healthcheck reg (Some ctx, clock) c v (snd (rstate st))))\<rparr>)"
      "serves R st (st\<lparr>rstate := (vs, snd (rstate st))\<rparr>)" for c v vs
    using healthcheck_keeps [OF assms] stay by (simp_all add: serves_def)
  then show ?thesis
    by (simp add: handleConnectorHealthcheck_def Let_def serves_stay case_prod_beta await_then_keeps split: option.split sum.split result.split)
qed

lemma dispatchRPC_keeps:
  assumes "registry_keeps R (r_input reg)"
  shows "serves R st (fst (dispatchRPC reg clock envelope ctx st))"
  using handleConnectorActionExecute_keeps [OF assms] handleConnectorSyncList_keeps [OF assms]
    handleConnectorHealthcheck_keeps [OF assms] serves_stay
  by (simp add: dispatchRPC_def Let_def split: jsval.split)

lemma handleRPC_keeps:
  assumes "registry_keeps R (r_input reg)"
  shows "serves R st (fst (handleRPC reg decode request admittedAt readings clock inner st))"
proof (cases "read_request decode request (min admittedAt (fst readings)) (snd readings)")
  case (Inr envelope)
  let ?work = "\<lambda>ctx st. case dispatchRPC reg inner envelope ctx st of (st', p) \<Rightarrow> (st', Inr (Pending p))"
  have "serves R (logRequest i m st) (fst (runExecution None clock ?work t sig d ss (logRequest i m st)))" for t sig d ss i m
    by (rule effect_policy.runExecution_keeps [OF serves_policy])
       (use dispatchRPC_keeps [OF assms] in \<open>simp add: case_prod_beta\<close>)
  then have "serves R st (fst (runExecution None clock ?work t sig d ss (logRequest i m st)))" for t sig d ss i m
    by (simp only: log_first)
  then show ?thesis
    using Inr by (simp add: handleRPC_def Let_def await_then_keeps case_prod_beta split: sum.split)
qed (simp add: handleRPC_def serves_stay)

end

section \<open>Which requests leave the runner\<close>

definition appends :: "(request \<Rightarrow> bool) \<Rightarrow> request list \<Rightarrow> request list \<Rightarrow> bool" where
  "appends P sent sent' = (\<exists>rs. sent' = sent @ rs \<and> list_all P rs)"

interpretation requests: effect_policy "appends P" for P
proof
  show "appends P s s" for s by (simp add: appends_def)
  show "appends P s s''" if "appends P s s'" and "appends P s' s''" for s s' s''
    using that unfolding appends_def by (metis append_assoc list_all_append)
qed

text \<open>
  A request the runner may send: over https without user information and without following redirects,
  to a host of the given list or of the allow list of a manifest as some input renders it.
\<close>

definition permitted :: "string list \<Rightarrow> jsval list \<Rightarrow> request \<Rightarrow> bool" where
  "permitted hosts manifests r =
     (sent_redirect r = ''manual''
      \<and> (\<exists>u. sent_url r = url_href u \<and> protocol u = ''https:'' \<and> username u = [] \<and> password u = []
           \<and> (hostIsAllowed (hostname u) hosts
              \<or> (\<exists>manifest \<in> set manifests. \<exists>input. hostIsAllowed (hostname u) (rendered_hosts manifest input)))))"

lemma compiled_keeps:
  assumes "compileDeclarativeConnector pf manifest = Inr hs" and "manifest \<in> set manifests"
  shows "handlers_keep (appends (permitted hosts manifests)) hs"
proof -
  have "appends (permitted hosts manifests) sent (fst (h ctx now v sent))" if m: "(k, h) \<in> set hs" for k h ctx now v sent
  proof -
    obtain operation validateInput where h: "h = execute_compiled pf manifest k operation validateInput"
      by (rule compiled_handler [OF assms(1) m])
    obtain sent' r where run: "h ctx now v sent = (sent', r)" by fastforce
    from execute_compiled_sent [OF run [unfolded h]] show ?thesis
    proof (elim disjE exE conjE)
      fix url init
      assume "sent' = sent @ [\<lparr>sent_url = url_href url, sent_init = init, sent_redirect = ''manual''\<rparr>]"
        "protocol url = ''https:''" "username url = []" "password url = []"
        "hostIsAllowed (hostname url) (rendered_hosts manifest (props_of v))"
      moreover from this assms(2) have "permitted hosts manifests \<lparr>sent_url = url_href url, sent_init = init, sent_redirect = ''manual''\<rparr>"
        unfolding permitted_def request.select_convs by blast
      ultimately show ?thesis using run by (simp add: appends_def)
    qed (use run in \<open>simp add: appends_def\<close>)
  qed
  then show ?thesis by (auto simp: handlers_keep_def handler_keeps_def)
qed

text \<open>The hosts of the built-in connectors, as far as these are modelled.\<close>

definition builtin_hosts :: "string list" where
  "builtin_hosts = allowed_hosts @ map snd sync_hosts"

lemma hostIsAllowed_append: "hostIsAllowed host (hosts @ hosts') \<longleftrightarrow> hostIsAllowed host hosts \<or> hostIsAllowed host hosts'"
  by (simp add: hostIsAllowed_def Let_def)

lemma own_request_permitted: "own_request pf input r \<Longrightarrow> permitted builtin_hosts manifests r"
  by (auto simp: dav_request_ok_def permitted_def plain_https_def builtin_hosts_def hostIsAllowed_append)

lemma sync_request_permitted:
  assumes "sync_request connector credential r"
  shows "permitted builtin_hosts manifests r"
proof -
  from assms obtain u where u: "sent_url r = url_href u" "protocol u = ''https:''" "username u = []" "password u = []"
      "map_of sync_hosts connector = Some (to_lower (hostname u))" "sent_redirect r = ''manual''"
    by (auto simp: sync_request_def)
  have "\<forall>(c, h) \<in> set sync_hosts. to_lower h = h \<and> \<not> starts_with ''*.'' h" by code_simp
  moreover have "(connector, to_lower (hostname u)) \<in> set sync_hosts" using u(5) by (rule map_of_SomeD)
  ultimately have "hostIsAllowed (hostname u) (map snd sync_hosts)"
    by (force simp: hostIsAllowed_def Let_def list_ex_iff)
  then have "hostIsAllowed (hostname u) builtin_hosts" by (simp add: builtin_hosts_def hostIsAllowed_append)
  with u show ?thesis by (auto simp: permitted_def)
qed

lemma keeps_requests:
  assumes "\<And>k h ctx now v sent sent' r. (k, h) \<in> set hs \<Longrightarrow> h ctx now v sent = (sent', r)
      \<Longrightarrow> \<exists>rs. sent' = sent @ rs \<and> list_all P rs"
  shows "handlers_keep (appends P) hs"
proof -
  have "appends P sent (fst (h ctx now v sent))" if "(k, h) \<in> set hs" for k h ctx now v sent
    using assms [OF that surjective_pairing] by (simp add: appends_def)
  then show ?thesis by (auto simp: handlers_keep_def handler_keeps_def)
qed

lemma list_all_weaken: "list_all P xs \<Longrightarrow> (\<And>x. P x \<Longrightarrow> Q x) \<Longrightarrow> list_all Q xs"
  by (simp add: list_all_iff)

lemma caldav_keeps: "handlers_keep (appends (permitted builtin_hosts manifests)) (caldav_handlers pf)"
proof (rule keeps_requests)
  fix k h ctx now v sent sent' r
  assume "(k, h) \<in> set (caldav_handlers pf)" and "h ctx now v sent = (sent', r)"
  from handler_requests [OF this] obtain rs where s: "sent' = sent @ rs" and rs: "list_all (own_request pf v) rs" by blast
  from rs have "list_all (permitted builtin_hosts manifests) rs" by (rule list_all_weaken) (erule own_request_permitted)
  with s show "\<exists>rs. sent' = sent @ rs \<and> list_all (permitted builtin_hosts manifests) rs" by simp
qed

lemma message_syncs_keep:
  assumes "(c, hs) \<in> set (message_syncs pf)"
  shows "handlers_keep (appends (permitted builtin_hosts manifests)) hs"
proof (rule keeps_requests)
  fix k h ctx now v sent sent' r
  assume m: "(k, h) \<in> set hs" and run: "h ctx now v sent = (sent', r)"
  obtain toModel where h: "h = withLiveMessageSync pf c toModel" by (rule message_syncs_member [OF assms m])
  from live_sync_sends [OF run [unfolded h]] obtain rs where s: "sent' = sent @ rs"
      and rs: "list_all (sync_request c (str_of (sync_credential c (sync_input c v)))) rs" by blast
  from rs have "list_all (permitted builtin_hosts manifests) rs" by (rule list_all_weaken) (erule sync_request_permitted)
  with s show "\<exists>rs. sent' = sent @ rs \<and> list_all (permitted builtin_hosts manifests) rs" by simp
qed

section \<open>Merging declarative connectors\<close>

lemma set_table_put: "set (table_put k v tbl) \<subseteq> insert (k, v) (set tbl)"
  by (auto simp: table_put_def split: if_splits)

lemma merge_handlers_keep:
  assumes "handlers_keep R hs" and "handlers_keep R registered"
  shows "handlers_keep R (merge_handlers hs registered)"
  using assms
proof (induction registered arbitrary: hs)
  case (Cons e es)
  obtain k h where e: "e = (k, h)" by fastforce
  have "handlers_keep R (table_put k h hs)"
    using Cons.prems e set_table_put [of k h hs] by (auto simp: handlers_keep_def)
  with Cons.IH [of "table_put k h hs"] Cons.prems e show ?case by (simp add: merge_handlers_def handlers_keep_def)
qed (simp add: merge_handlers_def)

lemma add_compiled_policy:
  assumes "registry_keeps R original" and "registry_keeps R out" and "handlers_keep R hs"
  shows "registry_keeps R (add_compiled original manifest hs out)"
proof -
  let ?k = "manifest_key manifest" and ?hs = "merge_handlers hs (table_get (in_actions original) (manifest_key manifest))"
  have "handlers_keep R (table_get (in_actions original) ?k)"
  proof (cases "map_of (in_actions original) ?k")
    case None
    then show ?thesis by (simp add: table_get_def handlers_keep_def)
  next
    case (Some own)
    with assms(1) map_of_SomeD [OF Some] show ?thesis by (auto simp: table_get_def registry_keeps_def)
  qed
  then have "handlers_keep R ?hs" by (rule merge_handlers_keep [OF assms(3)])
  then have acts: "\<forall>(k, hs) \<in> set (table_put ?k ?hs (in_actions out)). handlers_keep R hs"
    using assms(2) set_table_put [of ?k ?hs "in_actions out"] by (auto simp: registry_keeps_def)
  have "handlers_keep R (table_put ?k (\<lambda>ctx now v. h ctx now (nullish v (JObj []))) (in_healthchecks out))"
    if "map_of hs ''healthcheck'' = Some h" for h
  proof -
    have "handler_keeps R h" using assms(3) map_of_SomeD [OF that] by (auto simp: handlers_keep_def)
    then have "handler_keeps R (\<lambda>ctx now v. h ctx now (nullish v (JObj [])))" by (simp add: handler_keeps_def)
    then show ?thesis
      using assms(2) set_table_put [of ?k _ "in_healthchecks out"] by (fastforce simp: registry_keeps_def handlers_keep_def)
  qed
  with acts assms(2) show ?thesis
    by (auto simp: add_compiled_def Let_def registry_keeps_def split: option.splits)
qed

lemma add_all_policy:
  assumes "add_all pf original ms out = Inr out'" and "registry_keeps R original" and "registry_keeps R out"
    and "\<And>m hs. m \<in> set ms \<Longrightarrow> compileDeclarativeConnector pf m = Inr hs \<Longrightarrow> handlers_keep R hs"
  shows "registry_keeps R out' \<and> in_manifests out' = in_manifests out"
  using assms
proof (induction ms arbitrary: out)
  case (Cons m ms)
  show ?case
  proof (cases "isDeclarativeManifest m")
    case True
    with Cons.prems(1) obtain hs where c: "compileDeclarativeConnector pf m = Inr hs"
        "add_all pf original ms (add_compiled original m hs out) = Inr out'"
      by (auto simp: res_simps)
    have "registry_keeps R (add_compiled original m hs out)"
      using add_compiled_policy Cons.prems(2-4) c(1) by fastforce
    moreover have "handlers_keep R hs'" if "n \<in> set ms" "compileDeclarativeConnector pf n = Inr hs'" for n hs'
      using Cons.prems(4) [of n hs'] that by simp
    ultimately have "registry_keeps R out' \<and> in_manifests out' = in_manifests (add_compiled original m hs out)"
      using Cons.IH [OF c(2) Cons.prems(2)] by blast
    then show ?thesis by (simp add: add_compiled_manifests)
  next
    case False
    with Cons show ?thesis by (metis add_all.simps(2) list.set_intros(2))
  qed
qed simp

lemma withDeclarativeConnectors_policy:
  assumes "withDeclarativeConnectors pf syntaxError collate dir inp = Inr out"
    and "\<And>manifests. registry_keeps (appends (permitted hosts manifests)) inp"
  shows "registry_keeps (appends (permitted hosts (in_manifests out))) out"
proof -
  from assms(1) obtain manifests where
      a: "add_all pf inp manifests (inp\<lparr>in_manifests := manifests\<rparr>) = Inr out"
    by (auto simp: withDeclarativeConnectors_def Let_def res_simps)
  have "registry_keeps (appends (permitted hosts manifests)) (inp\<lparr>in_manifests := manifests\<rparr>)"
    using assms(2) [of manifests] by (simp add: registry_keeps_def)
  from add_all_policy [OF a assms(2) this compiled_keeps] show ?thesis by auto
qed

text \<open>The table of built-in connectors, as far as it is modelled.\<close>

definition builtin_input :: "dav_platform \<Rightarrow> request_platform \<Rightarrow> jsval list \<Rightarrow> request list registry_input" where
  "builtin_input dpf rpf manifests =
     \<lparr>in_manifests = manifests, in_healthchecks = [(''rb2b'', rb2b_healthcheck_handler), (''caldav'', caldav_healthcheck dpf)],
      in_actions = [(''rb2b'', rb2b_actions), (''caldav'', caldav_actions dpf)], in_syncs = message_syncs rpf,
      in_webhooks = builtin_webhooks\<rparr>"

lemma builtin_keeps: "registry_keeps (appends (permitted builtin_hosts manifests)) (builtin_input dpf rpf ms)"
proof -
  have "handlers_keep (appends (permitted builtin_hosts manifests)) hs" if "(c, hs) \<in> set (message_syncs rpf)" for c hs
    by (rule message_syncs_keep [OF that])
  moreover have "handlers_keep (appends (permitted builtin_hosts manifests)) [(''caldav'', caldav_healthcheck dpf)]"
      "handlers_keep (appends (permitted builtin_hosts manifests)) (caldav_actions dpf)"
    using caldav_keeps [of manifests dpf] by (auto simp: handlers_keep_def caldav_handlers_def)
  moreover have "handlers_keep (appends (permitted builtin_hosts manifests)) [(''rb2b'', rb2b_healthcheck_handler)]"
      "handlers_keep (appends (permitted builtin_hosts manifests)) rb2b_actions"
    by (auto simp: handlers_keep_def handler_keeps_def rb2b_actions_def rb2b_healthcheck_handler_def appends_def)
  ultimately show ?thesis
    using handlers_keep_append [of _ "[(''rb2b'', rb2b_healthcheck_handler)]" "[(''caldav'', caldav_healthcheck dpf)]"]
    by (auto simp: builtin_input_def registry_keeps_def)
qed

end
