(* ===== verification/Lines.thy ===== *)
theory Lines
  imports JsText
begin

text \<open>
  Texts as lists of lines, as the mail client and the CSV parsers cut them: \<open>split(/\\r?\\n/)\<close>, and the
  CRLF-delimited lines of a wire protocol. Lines without a line feed joined by CRLF are cut back into the
  same lines.
\<close>

definition LF :: char where
  "LF = CHR 0x0A"

definition CR :: char where
  "CR = CHR 0x0D"

definition CRLF :: string where
  "CRLF = [CR, LF]"

text \<open>\<open>s.split(/\\r?\\n/)\<close>: a carriage return before a line feed belongs to the separator.\<close>

definition drop_return :: "string \<Rightarrow> string" where
  "drop_return l = (if l \<noteq> [] \<and> last l = CR then butlast l else l)"

definition split_lines :: "string \<Rightarrow> string list" where
  "split_lines s = (let pieces = split_on LF s in map drop_return (butlast pieces) @ [last pieces])"

text \<open>\<open>s.split("\\r\\n")\<close>.\<close>

fun split_crlf :: "string \<Rightarrow> string list" where
  "split_crlf [] = [[]]"
| "split_crlf (c # cs) =
     (if c = CR \<and> cs \<noteq> [] \<and> hd cs = LF then [] # split_crlf (tl cs)
      else (case split_crlf cs of [] \<Rightarrow> [[c]] | w # ws \<Rightarrow> (c # w) # ws))"

lemma split_crlf_not_Nil [simp]: "split_crlf s \<noteq> []"
  by (induction s rule: split_crlf.induct) (auto split: list.split)

lemma CR_neq_LF [simp]: "CR \<noteq> LF" "LF \<noteq> CR"
  by (simp_all add: CR_def LF_def)

lemma set_CRLF [simp]: "set CRLF = {CR, LF}"
  by (simp add: CRLF_def)

lemma split_crlf_break: "split_crlf (CRLF @ s) = [] # split_crlf s"
  by (simp add: CRLF_def)

lemma split_crlf_line: "LF \<notin> set w \<Longrightarrow> split_crlf (w @ CRLF @ s) = w # split_crlf s"
proof (induction w)
  case Nil
  then show ?case by (simp only: append_Nil split_crlf_break)
next
  case (Cons c w)
  then have "\<not> (c = CR \<and> hd (w @ CRLF @ s) = LF)" by (cases w) (auto simp: CRLF_def)
  with Cons show ?case by auto
qed

lemma split_crlf_plain: "LF \<notin> set w \<Longrightarrow> split_crlf w = [w]"
  by (induction w) (auto simp: neq_Nil_conv)

lemma split_crlf_lines:
  "ls \<noteq> [] \<Longrightarrow> \<forall>l \<in> set ls. LF \<notin> set l \<Longrightarrow> split_crlf (join CRLF ls @ CRLF @ s) = ls @ split_crlf s"
proof (induction CRLF ls rule: join.induct)
  case (3 w v ws)
  then show ?case by (simp add: split_crlf_line)
qed (simp_all add: split_crlf_line)

lemma split_crlf_join: "ls \<noteq> [] \<Longrightarrow> \<forall>l \<in> set ls. LF \<notin> set l \<Longrightarrow> split_crlf (join CRLF ls) = ls"
proof (induction CRLF ls rule: join.induct)
  case (3 w v ws)
  then show ?case by (simp add: split_crlf_line)
qed (simp_all add: split_crlf_plain)

lemma join_Cons_ne: "ws \<noteq> [] \<Longrightarrow> join sep (w # ws) = w @ sep @ join sep ws"
  by (cases ws) simp_all

lemma join_append: "us \<noteq> [] \<Longrightarrow> ws \<noteq> [] \<Longrightarrow> join sep (us @ ws) = join sep us @ sep @ join sep ws"
proof (induction us)
  case (Cons u us)
  then show ?case by (cases "us = []") (simp_all add: join_Cons_ne)
qed simp

lemma join_split_crlf: "join CRLF (split_crlf s) = s"
proof (induction s rule: split_crlf.induct)
  case (2 c cs)
  show ?case
  proof (cases "c = CR \<and> cs \<noteq> [] \<and> hd cs = LF")
    case True
    with 2 show ?thesis by (cases cs) (auto simp: join_Cons_ne CRLF_def)
  next
    case False
    obtain w ws where ws: "split_crlf cs = w # ws" by (cases "split_crlf cs") auto
    with 2(2) False have "join CRLF (w # ws) = cs" by auto
    moreover have "split_crlf (c # cs) = (c # w) # ws" using False ws by auto
    ultimately show ?thesis by (cases ws) auto
  qed
qed simp

text \<open>The pieces of a text have no line feed.\<close>

lemma split_lines_no_LF: "l \<in> set (split_lines s) \<Longrightarrow> LF \<notin> set l"
proof -
  assume l: "l \<in> set (split_lines s)"
  have piece: "LF \<notin> set p" if "p \<in> set (split_on LF s)" for p
    using split_on_no_sep that by fast
  from l consider p where "p \<in> set (split_on LF s)" "l = drop_return p" | "l = last (split_on LF s)"
    by (auto simp: split_lines_def Let_def dest: in_set_butlastD)
  then show ?thesis
  proof cases
    case 1
    with piece [of p] show ?thesis by (auto simp: drop_return_def dest: in_set_butlastD split: if_splits)
  next
    case 2
    then show ?thesis using piece [OF last_in_set] by simp
  qed
qed

lemma split_lines_not_Nil [simp]: "split_lines s \<noteq> []"
  by (simp add: split_lines_def Let_def)

lemma split_lines_join:
  assumes "ls \<noteq> []" and "\<forall>l \<in> set ls. LF \<notin> set l"
  shows "split_lines (join CRLF ls) = ls"
proof -
  have one: "split_on LF (w @ LF # s) = w # split_on LF s" if "LF \<notin> set w" for w s
    using that by (induction w) auto
  have plain: "split_on LF w = [w]" if "LF \<notin> set w" for w
    using that by (induction w) auto
  have step: "split_lines (w @ CRLF @ s) = w # split_lines s" if "LF \<notin> set w" for w s
    using one [of "w @ [CR]" s] that by (simp add: split_lines_def CRLF_def drop_return_def Let_def)
  show ?thesis using assms
  proof (induction CRLF ls rule: join.induct)
    case (2 w)
    then show ?case by (simp add: split_lines_def plain)
  next
    case (3 w v ws)
    then show ?case by (simp add: step)
  qed simp
qed

end
