(* ===== verification/Leads.thy ===== *)
theory Leads
  imports Request Lines
begin

text \<open>
  The lead store of the sales-workflow harness (\<open>runner/sena-e2e/state.ts\<close>) and the CSV connector's row
  parser (\<open>runner/connectors/csv/src/objects.ts\<close>). A lead is an object with the properties of \<open>COLUMNS\<close>; the
  store keeps the leads as CSV text and the evidence as one JSON text per line. The theorem: what is written is
  read back, cell by cell, by the store and by the connector, with line breaks flattened.
\<close>

section \<open>The CSV text of the leads\<close>

definition COLUMNS :: "string list" where
  "COLUMNS = [''lead_id'', ''full_name'', ''title'', ''company'', ''linkedin_url'', ''email'',
     ''apollo_id'', ''stage'', ''channel'', ''booking_url'', ''last_request_id'']"

definition quote_mark :: char where
  "quote_mark = CHR 0x22"

definition is_break :: "char \<Rightarrow> bool" where
  "is_break c = (code c = 10 \<or> code c = 13)"

text \<open>\<open>v.replace(/[\\r\\n]+/g, " ")\<close>.\<close>

definition break_run :: "char option \<Rightarrow> string \<Rightarrow> nat" where
  "break_run prev s = length (takeWhile is_break s)"

definition flat_text :: "string \<Rightarrow> string" where
  "flat_text v = replace_by break_run '' '' None v"

definition double_quotes :: "string \<Rightarrow> string" where
  "double_quotes s = concat (map (\<lambda>c. if c = quote_mark then [c, c] else [c]) s)"

definition escape :: "string \<Rightarrow> string" where
  "escape v =
     (let flat = flat_text v in
      if contains '','' flat \<or> contains [quote_mark] flat then [quote_mark] @ double_quotes flat @ [quote_mark] else flat)"

text \<open>The loop of \<open>splitCsvLine\<close>: the cells so far, the current cell, and whether it is inside quotes.\<close>

fun split_csv :: "string list \<Rightarrow> string \<Rightarrow> bool \<Rightarrow> string \<Rightarrow> string list" where
  "split_csv out cur inQuotes [] = out @ [cur]"
| "split_csv out cur inQuotes (ch # rest) =
     (if inQuotes
      then (if ch = quote_mark \<and> rest \<noteq> [] \<and> hd rest = quote_mark then split_csv out (cur @ [quote_mark]) True (tl rest)
            else if ch = quote_mark then split_csv out cur False rest
            else split_csv out (cur @ [ch]) True rest)
      else if ch = quote_mark then split_csv out cur True rest
      else if ch = CHR '','' then split_csv (out @ [cur]) [] False rest
      else split_csv out (cur @ [ch]) False rest)"

definition splitCsvLine :: "string \<Rightarrow> string list" where
  "splitCsvLine line = split_csv [] [] False line"

definition cell_text :: "jsval \<Rightarrow> string \<Rightarrow> string" where
  "cell_text lead c = to_str (nullish (get lead c) (JStr []))"

definition newline :: string where
  "newline = [CHR 0x0A]"

definition serializeLeads :: "jsval list \<Rightarrow> string" where
  "serializeLeads leads =
     (let header = join '','' COLUMNS;
          rows = map (\<lambda>l. join '','' (map (\<lambda>c. escape (cell_text l c)) COLUMNS)) leads
      in join newline (header # rows) @ newline)"

definition lead_of_cells :: "string list \<Rightarrow> jsval" where
  "lead_of_cells cells =
     JObj (map (\<lambda>(i, c). (c, JStr (if i < length cells then cells ! i else []))) (enumerate 0 COLUMNS))"

definition parseLeads :: "string \<Rightarrow> jsval list" where
  "parseLeads csv =
     (let lines = filter (\<lambda>l. 0 < length (trim l)) (split_on (CHR 0x0A) csv)
      in if length lines \<le> 1 then [] else map (\<lambda>line. lead_of_cells (splitCsvLine line)) (drop 1 lines))"

section \<open>The store\<close>

record lead_store =
  leads_file :: "string option"
  evidence_file :: "string option"

definition readLeads :: "lead_store \<Rightarrow> jsval list" where
  "readLeads st = (case leads_file st of None \<Rightarrow> [] | Some csv \<Rightarrow> parseLeads csv)"

definition writeLeads :: "jsval list \<Rightarrow> lead_store \<Rightarrow> lead_store" where
  "writeLeads leads st = st\<lparr>leads_file := Some (serializeLeads leads)\<rparr>"

definition appendEvidence :: "jsval \<Rightarrow> lead_store \<Rightarrow> lead_store" where
  "appendEvidence row st =
     st\<lparr>evidence_file := Some ((case evidence_file st of None \<Rightarrow> [] | Some t \<Rightarrow> t) @ stringify row @ newline)\<rparr>"

definition readEvidence :: "lead_store \<Rightarrow> jsval list res" where
  "readEvidence st =
     (case evidence_file st of
        None \<Rightarrow> Inr []
      | Some t \<Rightarrow> map_res (\<lambda>l. case json_parse l of Some v \<Rightarrow> Inr v | None \<Rightarrow> Inl (ErrorInst ''SyntaxError'' ''JSON Parse error'' []))
          (filter (\<lambda>l. trim l \<noteq> []) (split_on (CHR 0x0A) t)))"

definition row_is :: "jsval \<Rightarrow> (string \<times> string) list \<Rightarrow> bool" where
  "row_is r expected = list_all (\<lambda>(k, s). get r k = JStr s) expected"

text \<open>A row that is \<open>null\<close> throws when its stage is read; \<open>some\<close> stops at the first match.\<close>

fun some_row :: "(string \<times> string) list \<Rightarrow> jsval list \<Rightarrow> bool res" where
  "some_row expected [] = Inr False"
| "some_row expected (r # rs) =
     (if r = JNull then Inl (ErrorInst ''TypeError'' ''null and undefined have no properties'' [])
      else if row_is r expected then Inr True else some_row expected rs)"

definition priorEvidenceGreen :: "lead_store \<Rightarrow> bool res" where
  "priorEvidenceGreen st =
     sbind (readEvidence st) (\<lambda>rows.
     sbind (some_row [(''stage'', ''send''), (''status'', ''ok''), (''mode'', ''live_single'')] rows) (\<lambda>sentLive.
     sbind (some_row [(''stage'', ''booking''), (''status'', ''ok'')] rows) (\<lambda>booked.
     Inr (sentLive \<and> booked))))"

section \<open>The CSV connector\<close>

definition splitCsvLines :: "string \<Rightarrow> string list" where
  "splitCsvLines csv = filter (\<lambda>l. 0 < length (trim l)) (split_lines csv)"

fun parse_csv :: "string list \<Rightarrow> string \<Rightarrow> bool \<Rightarrow> string \<Rightarrow> string list" where
  "parse_csv fs current inQuotes [] = fs @ [current]"
| "parse_csv fs current True (ch # rest) =
     (if ch = quote_mark
      then (case rest of
              next_ch # rest' \<Rightarrow> if next_ch = quote_mark then parse_csv fs (current @ [quote_mark]) True rest'
                                 else parse_csv fs current False rest
            | [] \<Rightarrow> parse_csv fs current False rest)
      else parse_csv fs (current @ [ch]) True rest)"
| "parse_csv fs current False (ch # rest) =
     (if ch = quote_mark then parse_csv fs current True rest
      else if ch = CHR '','' then parse_csv (fs @ [current]) [] False rest
      else parse_csv fs (current @ [ch]) False rest)"

definition parseCsvLine :: "string \<Rightarrow> string list" where
  "parseCsvLine line = parse_csv [] [] False line"

definition normalizeRow :: "nat \<Rightarrow> props \<Rightarrow> jsval" where
  "normalizeRow rowIndex row =
     JObj [(''id'', JStr (''csv-row:'' @ show_nat rowIndex)), (''provider'', JStr ''csv''), (''rowIndex'', JInt (int rowIndex)),
       (''values'', JObj (spread [] row)), (''raw'', JObj (spread [] row))]"

definition row_values :: "string list \<Rightarrow> string list \<Rightarrow> props" where
  "row_values headers cells =
     foldl (\<lambda>ps (j, h). obj_put ps h (JStr (if j < length cells then cells ! j else []))) [] (enumerate 0 headers)"

definition parseCsvRows :: "jsval \<Rightarrow> jsval list" where
  "parseCsvRows csv =
     (case csv of
        JStr t \<Rightarrow>
          if trim t = [] then []
          else let lines = splitCsvLines t in
            if length lines < 2 then []
            else let headers = parseCsvLine (hd lines) in
              if length headers = 0 then []
              else map (\<lambda>(i, line). normalizeRow i (row_values headers (parseCsvLine line))) (enumerate 0 (tl lines))
      | _ \<Rightarrow> [])"

section \<open>Reading back what was written\<close>

lemma break_run_iff: "0 < break_run prev s \<and> break_run prev s \<le> length s \<longleftrightarrow> s \<noteq> [] \<and> is_break (hd s)"
  by (cases s) (auto simp: break_run_def length_takeWhile_le)

lemma replace_breaks: "c \<in> set (replace_by break_run '' '' prev v) \<Longrightarrow> \<not> is_break c"
proof (induction prev v rule: replace_by_cases_induct [where m = break_run])
  case (match prev s)
  have "\<not> is_break (CHR '' '')" by (simp add: is_break_def code_def)
  with match show ?case by (auto simp: replace_by_match [of break_run])
next
  case (skip prev d cs)
  then have "\<not> is_break d" using break_run_iff [of prev "d # cs"] by auto
  with skip.prems skip.IH show ?case unfolding replace_by_skip [of break_run, OF skip.hyps] by auto
qed simp

lemma flat_text_breaks: "c \<in> set (flat_text v) \<Longrightarrow> \<not> is_break c"
  unfolding flat_text_def by (rule replace_breaks)

lemma flat_text_id:
  assumes "list_all (\<lambda>c. \<not> is_break c) v"
  shows "flat_text v = v"
proof -
  have "replace_by break_run '' '' prev v = v" for prev
    using assms
  proof (induction v arbitrary: prev)
    case (Cons c v)
    then show ?case using break_run_iff [of prev "c # v"] by (simp add: replace_by_skip [of break_run])
  qed simp
  then show ?thesis by (simp add: flat_text_def)
qed

lemma flat_text_idem [simp]: "flat_text (flat_text v) = flat_text v"
  by (rule flat_text_id) (simp add: list_all_iff flat_text_breaks)

text \<open>The scanner reads one escaped cell.\<close>

lemma split_csv_plain:
  "quote_mark \<notin> set f \<Longrightarrow> CHR '','' \<notin> set f \<Longrightarrow> split_csv out cur False (f @ rest) = split_csv out (cur @ f) False rest"
  by (induction f arbitrary: cur) auto

lemma split_csv_quoted:
  "rest = [] \<or> hd rest \<noteq> quote_mark \<Longrightarrow>
   split_csv out cur True (double_quotes f @ quote_mark # rest) = split_csv out (cur @ f) False rest"
proof (induction f arbitrary: cur)
  case (Cons c f)
  then show ?case
    by (cases "double_quotes f @ quote_mark # rest") (auto simp: double_quotes_def)
qed (auto simp: double_quotes_def)

lemma contains_char: "contains [c] s \<longleftrightarrow> c \<in> set s"
  by (simp add: contains_sublist sublist_def in_set_conv_decomp)

lemma split_csv_escape:
  assumes "rest = [] \<or> hd rest = CHR '',''"
  shows "split_csv out [] False (escape v @ rest) = split_csv out (flat_text v) False rest"
proof -
  have "quote_mark \<noteq> CHR '',''" by (simp add: quote_mark_def)
  with assms show ?thesis
    using split_csv_quoted [of rest out "[]" "flat_text v"] split_csv_plain [of "flat_text v" out "[]" rest]
    by (auto simp: escape_def Let_def contains_char)
qed

lemma split_csv_row: "vs \<noteq> [] \<Longrightarrow> split_csv out [] False (join '','' (map escape vs)) = out @ map flat_text vs"
proof (induction vs arbitrary: out)
  case (Cons v vs)
  show ?case
  proof (cases vs)
    case Nil
    then show ?thesis using split_csv_escape [of "[]" out v] by simp
  next
    case (Cons w ws)
    then have "split_csv out [] False (join '','' (map escape (v # vs)))
        = split_csv (out @ [flat_text v]) [] False (join '','' (map escape vs))"
      using split_csv_escape [of "CHR '','' # join '','' (map escape vs)" out v] by (simp add: quote_mark_def)
    with Cons.IH Cons show ?thesis by simp
  qed
qed simp

lemma parse_csv_split: "parse_csv fs current q line = split_csv fs current q line"
  by (induction fs current q line rule: parse_csv.induct) (auto split: list.split)

lemma set_join_subset: "set (join sep ws) \<subseteq> set sep \<union> \<Union> (set ` set ws)"
  by (induction sep ws rule: join.induct) auto

lemma join_snoc_Nil: "ws \<noteq> [] \<Longrightarrow> join sep (ws @ [[]]) = join sep ws @ sep"
  by (induction sep ws rule: join.induct) auto

definition lead_row :: "jsval \<Rightarrow> string" where
  "lead_row l = join '','' (map (\<lambda>c. escape (cell_text l c)) COLUMNS)"

lemma escape_chars: "c \<in> set (escape v) \<Longrightarrow> c = quote_mark \<or> c \<in> set (flat_text v)"
  by (auto simp: escape_def Let_def double_quotes_def split: if_splits)

lemma lead_row_no_break: "c \<in> set (lead_row l) \<Longrightarrow> \<not> is_break c"
proof -
  assume "c \<in> set (lead_row l)"
  then consider "c = CHR '',''" | v where "c \<in> set (escape v)"
    using set_join_subset [of "'',''" "map (\<lambda>c. escape (cell_text l c)) COLUMNS"] by (auto simp: lead_row_def)
  then show ?thesis
  proof cases
    case 2
    from escape_chars [OF this] flat_text_breaks [of c v] show ?thesis
      by (auto simp: is_break_def quote_mark_def code_def)
  qed (simp add: is_break_def code_def)
qed

lemma trim_not_blank:
  assumes "c \<in> set s" and "\<not> is_ws c"
  shows "trim s \<noteq> []"
proof -
  have "dropWhile is_ws s \<noteq> []" using assms by (auto simp: dropWhile_eq_Nil_conv)
  then have "\<not> is_ws (hd (dropWhile is_ws s))" "hd (dropWhile is_ws s) \<in> set (rev (dropWhile is_ws s))"
    by (simp_all add: hd_dropWhile)
  then show ?thesis unfolding trim_def by (auto simp: dropWhile_eq_Nil_conv simp del: hd_in_set)
qed

lemma comma_in_row: "CHR '','' \<in> set (join '','' (v # w # ws))"
  by simp

lemma lead_row_not_blank: "trim (lead_row l) \<noteq> []"
  by (rule trim_not_blank [of "CHR '',''"]) (simp_all add: lead_row_def COLUMNS_def is_ws_def code_def)

definition csv_lines :: "jsval list \<Rightarrow> string list" where
  "csv_lines leads = join '','' COLUMNS # map lead_row leads"

lemma header_chars: "trim (join '','' COLUMNS) \<noteq> []" "c \<in> set (join '','' COLUMNS) \<Longrightarrow> \<not> is_break c"
proof -
  show "trim (join '','' COLUMNS) \<noteq> []" by code_simp
  have "list_all (\<lambda>c. \<not> is_break c) (join '','' COLUMNS)" by code_simp
  then show "c \<in> set (join '','' COLUMNS) \<Longrightarrow> \<not> is_break c" by (simp add: list_all_iff)
qed

lemma split_serialized: "split_on (CHR 0x0A) (serializeLeads leads) = csv_lines leads @ [[]]"
proof -
  have "is_break (CHR 0x0A)" by (simp add: is_break_def code_def)
  then have "\<forall>w \<in> set (csv_lines leads @ [[]]). CHR 0x0A \<notin> set w"
    using lead_row_no_break header_chars(2) by (fastforce simp: csv_lines_def)
  then have "split_on (CHR 0x0A) (join [CHR 0x0A] (csv_lines leads @ [[]])) = csv_lines leads @ [[]]"
    by (intro split_join) simp_all
  moreover have "serializeLeads leads = join newline (csv_lines leads @ [[]])"
    by (subst join_snoc_Nil) (simp_all add: serializeLeads_def csv_lines_def lead_row_def [abs_def])
  ultimately show ?thesis by (simp add: newline_def)
qed

lemma csv_lines_kept: "filter (\<lambda>l. 0 < length (trim l)) (csv_lines leads @ [[]]) = csv_lines leads"
  using lead_row_not_blank header_chars(1) by (simp add: csv_lines_def trim_def filter_id_conv)

text \<open>What a lead is after a trip through the file.\<close>

definition written_cells :: "jsval \<Rightarrow> props" where
  "written_cells l = map (\<lambda>c. (c, JStr (flat_text (cell_text l c)))) COLUMNS"

lemma cells_of_row: "splitCsvLine (lead_row l) = map (\<lambda>c. flat_text (cell_text l c)) COLUMNS"
proof -
  have "map (cell_text l) COLUMNS \<noteq> []" by (simp add: COLUMNS_def)
  from split_csv_row [OF this, of "[]"] show ?thesis by (simp add: splitCsvLine_def lead_row_def comp_def)
qed

lemma lead_of_written: "lead_of_cells (splitCsvLine (lead_row l)) = JObj (written_cells l)"
  by (auto simp: lead_of_cells_def written_cells_def cells_of_row intro!: nth_equalityI simp: nth_enumerate_eq)

lemma parseLeads_serializeLeads: "parseLeads (serializeLeads leads) = map (\<lambda>l. JObj (written_cells l)) leads"
proof -
  have "parseLeads (serializeLeads leads) = (if length (csv_lines leads) \<le> 1 then []
      else map (\<lambda>line. lead_of_cells (splitCsvLine line)) (drop 1 (csv_lines leads)))"
    by (simp only: parseLeads_def split_serialized csv_lines_kept Let_def)
  then show ?thesis by (simp add: csv_lines_def lead_of_written comp_def)
qed

lemma cell_text_written: "c \<in> set COLUMNS \<Longrightarrow> cell_text (JObj (written_cells l)) c = flat_text (cell_text l c)"
proof -
  assume "c \<in> set COLUMNS"
  then have "map_of (written_cells l) c = Some (JStr (flat_text (cell_text l c)))"
    by (simp add: written_cells_def map_of_map_restrict)
  then show ?thesis by (simp add: cell_text_def [of "JObj _"] prop_get_def nullish_def)
qed

text \<open>The connector's parser on the same text.\<close>

lemma drop_return_id:
  assumes "\<And>c. c \<in> set l \<Longrightarrow> \<not> is_break c"
  shows "drop_return l = l"
proof (cases "l = []")
  case False
  then have "\<not> is_break (last l)" using assms last_in_set by blast
  then show ?thesis by (auto simp: drop_return_def is_break_def CR_def code_def)
qed (simp add: drop_return_def)

lemma splitCsvLines_serialized: "splitCsvLines (serializeLeads leads) = csv_lines leads"
proof -
  have "map drop_return (csv_lines leads) = csv_lines leads"
    by (rule map_idI, rule drop_return_id) (auto simp: csv_lines_def dest: lead_row_no_break header_chars(2))
  then show ?thesis using csv_lines_kept [of leads] by (simp only: splitCsvLines_def split_lines_def LF_def split_serialized Let_def butlast_snoc last_snoc)
qed

lemma header_parsed: "parseCsvLine (join '','' COLUMNS) = COLUMNS"
  by code_simp

lemma row_values_written: "row_values COLUMNS (map (\<lambda>c. flat_text (cell_text l c)) COLUMNS) = written_cells l"
  by (simp add: row_values_def written_cells_def COLUMNS_def obj_put_def obj_def_def has_own_def is_array_index_def is_digit_def)

lemma map_enumerate_map: "map (\<lambda>(i, y). g i y) (enumerate n (map f xs)) = map (\<lambda>(i, x). g i (f x)) (enumerate n xs)"
  by (induction xs arbitrary: n) simp_all

lemma set_join_head: "set w \<subseteq> set (join sep (w # ws))"
  by (cases ws) auto

lemma normalizeRow_cells:
  "normalizeRow i (row_values COLUMNS (parseCsvLine (lead_row l))) = normalizeRow i (written_cells l)"
  using cells_of_row [of l] by (simp add: parseCsvLine_def parse_csv_split splitCsvLine_def row_values_written)

text \<open>C37: The lead file keeps what is stored in it. Whatever leads are written, with commas, quotes and line breaks
  in any cell, reading the file gives one lead for each in the same order, with every cell as it was except that a run
  of line breaks has become a space; a second trip changes nothing. The parser of the CSV connector reads the same
  cells from the file.\<close>

theorem leads_roundtrip:
  "readLeads (writeLeads leads st) = map (\<lambda>l. JObj (map (\<lambda>c. (c, JStr (flat_text (cell_text l c)))) COLUMNS)) leads
   \<and> readLeads (writeLeads (readLeads (writeLeads leads st)) st') = readLeads (writeLeads leads st)
   \<and> parseCsvRows (JStr (serializeLeads leads)) =
       map (\<lambda>(i, l). normalizeRow i (map (\<lambda>c. (c, JStr (flat_text (cell_text l c)))) COLUMNS)) (enumerate 0 leads)"
proof (intro conjI)
  have read: "readLeads (writeLeads ls st'') = map (\<lambda>l. JObj (written_cells l)) ls" for ls st''
    by (simp add: readLeads_def writeLeads_def parseLeads_serializeLeads)
  then show "readLeads (writeLeads leads st) = map (\<lambda>l. JObj (map (\<lambda>c. (c, JStr (flat_text (cell_text l c)))) COLUMNS)) leads"
    by (simp add: written_cells_def)
  have "written_cells (JObj (written_cells l)) = written_cells l" for l
    unfolding written_cells_def [of "JObj _"] by (simp add: cell_text_written cong: map_cong) (simp add: written_cells_def)
  then show "readLeads (writeLeads (readLeads (writeLeads leads st)) st') = readLeads (writeLeads leads st)"
    by (simp add: read)
  have "CHR '','' \<in> set (join '','' COLUMNS)" by (simp add: COLUMNS_def)
  then have "CHR '','' \<in> set (serializeLeads leads)"
    using set_join_head [of "join '','' COLUMNS" newline] by (auto simp: serializeLeads_def Let_def)
  then have "trim (serializeLeads leads) \<noteq> []"
    by (rule trim_not_blank) (simp add: is_ws_def code_def)
  moreover have "parseCsvLine (hd (csv_lines leads)) = COLUMNS" "tl (csv_lines leads) = map lead_row leads"
    by (simp_all add: csv_lines_def header_parsed)
  moreover have "length (csv_lines leads) < 2 \<longleftrightarrow> leads = []" "COLUMNS \<noteq> []"
    by (simp_all add: csv_lines_def COLUMNS_def)
  ultimately show "parseCsvRows (JStr (serializeLeads leads)) =
       map (\<lambda>(i, l). normalizeRow i (map (\<lambda>c. (c, JStr (flat_text (cell_text l c)))) COLUMNS)) (enumerate 0 leads)"
    unfolding written_cells_def [symmetric]
    by (simp add: parseCsvRows_def splitCsvLines_serialized map_enumerate_map normalizeRow_cells Let_def)
qed

end
