(* ===== verification/Harness.thy ===== *)
theory Harness
  imports Leads
begin

text \<open>
  The sales-workflow harness \<open>runner/sena-e2e\<close>: its configuration (\<open>config.ts\<close>), the decision whether a message
  is sent and to whom (\<open>safety.ts\<close>), the client (\<open>client.ts\<close>), the stages (\<open>stages.ts\<close>) and the run (\<open>index.ts\<close>).
  The state is the store of the leads with the list of the calls made; the API that answers them and the clock are
  parameters. The theorem: no run sends a message past the gates of its mode. A lemma shows that a dry run takes every
  reachable lead out of the funnel.
\<close>

section \<open>Configuration\<close>

datatype SendMode = Dry_run | Live_single | Live_bulk

fun mode_text :: "SendMode \<Rightarrow> string" where
  "mode_text Dry_run = ''dry_run''"
| "mode_text Live_single = ''live_single''"
| "mode_text Live_bulk = ''live_bulk''"

record HarnessConfig =
  baseUrl :: string
  apiKey :: string
  externalAccountId :: string
  capabilityProfile :: string
  sendMode :: SendMode
  testRecipientEmail :: string
  testRecipientProfile :: string
  calendlyToken :: string
  calendlyEventType :: string
  maxLeads :: int
  allowBulk :: bool
  stateDir :: string

definition parseMaxLeads :: "string option \<Rightarrow> int res" where
  "parseMaxLeads raw =
     (let n = str_to_num (case raw of Some s \<Rightarrow> s | None \<Rightarrow> ''1'');
          invalid = Error (''invalid MAX_LEADS: '' @ (case raw of Some s \<Rightarrow> s | None \<Rightarrow> ''undefined'') @ '' (must be a finite number >= 1)'')
      in if \<not> is_finite n \<or> num_lt n (Fin 1) then Inl invalid
         else case num_val n of Some r \<Rightarrow> Inr \<lfloor>r\<rfloor> | None \<Rightarrow> Inl invalid)"

definition parseSendMode :: "string option \<Rightarrow> SendMode res" where
  "parseSendMode raw =
     (case raw of
        None \<Rightarrow> Inr Dry_run
      | Some s \<Rightarrow>
          if s = ''live_single'' then Inr Live_single
          else if s = ''live_bulk'' then Inr Live_bulk
          else if s = ''dry_run'' \<or> s = [] then Inr Dry_run
          else Inl (Error (''invalid SEND_MODE: '' @ s)))"

type_synonym environment = "string \<rightharpoonup> string"

definition env_or :: "environment \<Rightarrow> string \<Rightarrow> string \<Rightarrow> string" where
  "env_or env k d = (case env k of Some s \<Rightarrow> s | None \<Rightarrow> d)"

definition mode_argument :: "string list \<Rightarrow> string option" where
  "mode_argument argv =
     (case filter (starts_with ''--mode='') argv of [] \<Rightarrow> None | a # _ \<Rightarrow> Some (split_on (CHR ''='') a ! 1))"

definition loadConfig :: "environment \<Rightarrow> string list \<Rightarrow> HarnessConfig res" where
  "loadConfig env argv =
     sbind (parseSendMode (case mode_argument argv of Some m \<Rightarrow> Some m | None \<Rightarrow> env ''SEND_MODE'')) (\<lambda>mode.
     sbind (parseMaxLeads (env ''MAX_LEADS'')) (\<lambda>leads.
     Inr \<lparr>baseUrl = env_or env ''APPCALL_BASE_URL'' ''http://localhost:5080'',
       apiKey = env_or env ''APPCALL_DEV_API_KEY'' ''ak_dev_local'',
       externalAccountId = env_or env ''SENA_ACCOUNT_ID'' ''sena'',
       capabilityProfile = env_or env ''SENA_CAPABILITY_PROFILE'' ''sena_mvt'',
       sendMode = mode, testRecipientEmail = env_or env ''TEST_RECIPIENT_EMAIL'' [],
       testRecipientProfile = env_or env ''TEST_RECIPIENT_PROFILE'' [],
       calendlyToken = env_or env ''CALENDLY_TOKEN'' [], calendlyEventType = env_or env ''CALENDLY_EVENT_TYPE'' [],
       maxLeads = leads, allowBulk = (''--allow-bulk'' \<in> set argv),
       stateDir = env_or env ''SENA_STATE_DIR'' ''runner/sena-e2e/state''\<rparr>))"

section \<open>The decision to send\<close>

datatype Channel = Email | Dm

fun channel_text :: "Channel \<Rightarrow> string" where
  "channel_text Email = ''email''"
| "channel_text Dm = ''dm''"

record SendContext =
  processedSends :: nat
  evidenceGreen :: bool

record SendDecision =
  shouldSend :: bool
  recipient :: string
  reason :: string

definition resolveSend :: "HarnessConfig \<Rightarrow> Channel \<Rightarrow> string \<Rightarrow> SendContext \<Rightarrow> SendDecision res" where
  "resolveSend cfg channel intendedRecipient ctx =
     (case sendMode cfg of
        Dry_run \<Rightarrow> Inr \<lparr>shouldSend = False, recipient = intendedRecipient, reason = ''dry_run: composed only, not sent''\<rparr>
      | Live_single \<Rightarrow>
          (let target = (case channel of Email \<Rightarrow> testRecipientEmail cfg | Dm \<Rightarrow> testRecipientProfile cfg) in
           if target = []
           then Inl (Error (''live_single requires a test recipient for channel '' @ [quote_mark] @ channel_text channel @ [quote_mark]
                  @ '' (set TEST_RECIPIENT_EMAIL / TEST_RECIPIENT_PROFILE)''))
           else Inr \<lparr>shouldSend = True, recipient = target, reason = ''live_single: recipient overridden to test target''\<rparr>)
      | Live_bulk \<Rightarrow>
          if \<not> allowBulk cfg then Inl (Error ''live_bulk requires the --allow-bulk flag'')
          else if \<not> evidenceGreen ctx
          then Inl (Error ''live_bulk requires prior green evidence (a successful live_single send + booking link)'')
          else if maxLeads cfg \<le> int (processedSends ctx)
          then Inr \<lparr>shouldSend = False, recipient = intendedRecipient,
                 reason = ''live_bulk: maxLeads cap ('' @ to_str (JInt (maxLeads cfg)) @ '') reached''\<rparr>
          else Inr \<lparr>shouldSend = True, recipient = intendedRecipient, reason = ''live_bulk: gated send to real recipient''\<rparr>)"

section \<open>The client\<close>

text \<open>The calls of the harness, and the HTTP request each of them is.\<close>

datatype call =
    Mcp_call string jsval
  | Mcp_list
  | Connections
  | Action_call jsval string jsval string

record outgoing =
  out_url :: string
  out_method :: string
  out_headers :: "(string \<times> string) list"
  out_body :: "string option"

definition baseHeaders :: "HarnessConfig \<Rightarrow> (string \<times> string) list" where
  "baseHeaders cfg = [(''Content-Type'', ''application/json''), (''X-API-Key'', apiKey cfg),
     (''X-External-Account-Id'', externalAccountId cfg), (''X-Capability-Profile'', capabilityProfile cfg)]"

definition wire :: "HarnessConfig \<Rightarrow> nat \<Rightarrow> call \<Rightarrow> outgoing" where
  "wire cfg rpcId c =
     (case c of
        Mcp_call tool args \<Rightarrow>
          \<lparr>out_url = baseUrl cfg @ ''/v1/mcp'', out_method = ''POST'', out_headers = baseHeaders cfg,
           out_body = Some (stringify (JObj [(''jsonrpc'', JStr ''2.0''), (''id'', JInt (int rpcId)), (''method'', JStr ''tools/call''),
             (''params'', JObj [(''name'', JStr tool), (''arguments'', args)])]))\<rparr>
      | Mcp_list \<Rightarrow>
          \<lparr>out_url = baseUrl cfg @ ''/v1/mcp'', out_method = ''POST'', out_headers = baseHeaders cfg,
           out_body = Some (stringify (JObj [(''jsonrpc'', JStr ''2.0''), (''id'', JInt (int rpcId)), (''method'', JStr ''tools/list'')]))\<rparr>
      | Connections \<Rightarrow>
          \<lparr>out_url = baseUrl cfg @ ''/v1/connections'', out_method = ''GET'', out_headers = baseHeaders cfg, out_body = None\<rparr>
      | Action_call connectionId action input connectorToken \<Rightarrow>
          \<lparr>out_url = baseUrl cfg @ ''/v1/connections/'' @ to_str connectionId @ ''/actions/'' @ action, out_method = ''POST'',
           out_headers = baseHeaders cfg @ (if connectorToken \<noteq> [] then [(''X-Connector-Token'', connectorToken)] else []),
           out_body = Some (stringify (JObj [(''input'', input)]))\<rparr>)"

text \<open>
  The answer of the API: status, status text and body, or the exception of \<open>fetch\<close>. The world of a run is the
  store, the counter of the RPC identifiers, the calls made and the number of clock readings.
\<close>

record api =
  api_answer :: "outgoing list \<Rightarrow> outgoing \<Rightarrow> (int \<times> string \<times> string) res"
  api_clock :: "nat \<Rightarrow> string"

record world =
  store :: lead_store
  rpc_count :: nat
  sent_calls :: "call list"
  requests :: "outgoing list"
  ticks :: nat

type_synonym 'a stage = "world \<Rightarrow> world \<times> 'a res"

definition stage_then :: "'a stage \<Rightarrow> ('a \<Rightarrow> 'b stage) \<Rightarrow> 'b stage" where
  "stage_then m k w = (case m w of (w', Inl e) \<Rightarrow> (w', Inl e) | (w', Inr a) \<Rightarrow> k a w')"

definition pure :: "'a res \<Rightarrow> 'a stage" where
  "pure r w = (w, r)"

fun for_all :: "('a \<Rightarrow> 's \<Rightarrow> 's stage) \<Rightarrow> 'a list \<Rightarrow> 's \<Rightarrow> 's stage" where
  "for_all f [] s = pure (Inr s)"
| "for_all f (x # xs) s = stage_then (f x s) (for_all f xs)"

definition readJson :: "int \<times> string \<times> string \<Rightarrow> jsval" where
  "readJson res = (case res of (status, statusText, body) \<Rightarrow>
     case json_parse body of Some v \<Rightarrow> v
     | None \<Rightarrow> JObj [(''__parseError'', JBool True), (''status'', JInt status), (''statusText'', JStr statusText),
         (''body'', JStr (take 2000 body))])"

definition exchange :: "api \<Rightarrow> HarnessConfig \<Rightarrow> call \<Rightarrow> (bool \<times> jsval) stage" where
  "exchange api cfg c w =
     (let rpcId = (case c of Mcp_call _ _ \<Rightarrow> Suc (rpc_count w) | Mcp_list \<Rightarrow> Suc (rpc_count w) | _ \<Rightarrow> rpc_count w);
          request = wire cfg rpcId c
      in (w\<lparr>rpc_count := rpcId, sent_calls := sent_calls w @ [c], requests := requests w @ [request]\<rparr>,
          case api_answer api (requests w) request of
            Inl e \<Rightarrow> Inl e
          | Inr res \<Rightarrow> Inr (200 \<le> fst res \<and> fst res < 300, readJson res)))"

record CallResult =
  call_ok :: bool
  requestId :: jsval
  call_output :: jsval
  errorCode :: jsval

definition mcpCall :: "api \<Rightarrow> HarnessConfig \<Rightarrow> string \<Rightarrow> jsval \<Rightarrow> CallResult stage" where
  "mcpCall api cfg tool args =
     stage_then (exchange api cfg (Mcp_call tool args)) (\<lambda>(ok, json).
       let result = nullish (get json ''result'') (JObj []);
           content = get result ''structuredContent''
       in pure (Inr \<lparr>call_ok = (ok \<and> \<not> truthy (get result ''isError'')),
            requestId = nullish (get content ''requestId'') (JStr []),
            call_output = nullish content (get result ''content''), errorCode = get content ''code''\<rparr>))"

definition type_error :: "string \<Rightarrow> thrown" where
  "type_error m = ErrorInst ''TypeError'' m []"

definition tool_name :: "jsval \<Rightarrow> jsval res" where
  "tool_name t = (if t = JNull \<or> t = JUndef then Inl (type_error ''null and undefined have no properties'') else Inr (get t ''name''))"

definition mcpListTools :: "api \<Rightarrow> HarnessConfig \<Rightarrow> jsval list stage" where
  "mcpListTools api cfg =
     stage_then (exchange api cfg Mcp_list) (\<lambda>(ok, json).
       pure (case nullish (get (get json ''result'') ''tools'') (JArr []) of
               JArr ts \<Rightarrow> map_res tool_name ts
             | _ \<Rightarrow> Inl (type_error ''map is not a function'')))"

text \<open>What \<open>for (const c of conns)\<close> visits; the characters of a text have no status.\<close>

definition listConnections :: "api \<Rightarrow> HarnessConfig \<Rightarrow> jsval list stage" where
  "listConnections api cfg =
     stage_then (exchange api cfg Connections) (\<lambda>(ok, json).
       pure (case json of
               JArr xs \<Rightarrow> Inr xs
             | _ \<Rightarrow> (case nullish (get json ''connections'') (JArr []) of
                       JArr xs \<Rightarrow> Inr xs
                     | JStr s \<Rightarrow> Inr (map (\<lambda>c. JStr [c]) s)
                     | _ \<Rightarrow> Inl (type_error ''conns is not iterable''))))"

definition actionCall :: "api \<Rightarrow> HarnessConfig \<Rightarrow> jsval \<Rightarrow> string \<Rightarrow> jsval \<Rightarrow> string \<Rightarrow> CallResult stage" where
  "actionCall api cfg connectionId action input connectorToken =
     stage_then (exchange api cfg (Action_call connectionId action input connectorToken)) (\<lambda>(ok, json).
       pure (Inr \<lparr>call_ok = (ok \<and> \<not> truthy (get json ''error'')), requestId = nullish (get json ''requestId'') (JStr []),
         call_output = get json ''output'', errorCode = get (get json ''error'') ''code''\<rparr>))"

section \<open>The stages\<close>

definition note_evidence :: "api \<Rightarrow> HarnessConfig \<Rightarrow> string \<Rightarrow> string \<Rightarrow> jsval \<Rightarrow> string \<Rightarrow> unit stage" where
  "note_evidence api cfg stage tool request_id status w =
     (w\<lparr>store := appendEvidence (JObj [(''ts'', JStr (api_clock api (ticks w))), (''stage'', JStr stage), (''tool'', JStr tool),
          (''request_id'', request_id), (''status'', JStr status), (''mode'', JStr (mode_text (sendMode cfg)))]) (store w),
        ticks := Suc (ticks w)\<rparr>, Inr ())"

definition ok_text :: "CallResult \<Rightarrow> string" where
  "ok_text r = (if call_ok r then ''ok'' else ''error'')"

definition write_leads :: "jsval list \<Rightarrow> unit stage" where
  "write_leads leads w = (w\<lparr>store := writeLeads leads (store w)\<rparr>, Inr ())"

text \<open>\<open>t.split("__")[0]\<close>.\<close>

fun before_dunder :: "string \<Rightarrow> string" where
  "before_dunder [] = []"
| "before_dunder (c # cs) = (if starts_with ''__'' (c # cs) then [] else c # before_dunder cs)"

definition connector_of_tool :: "jsval \<Rightarrow> string res" where
  "connector_of_tool t = (case t of JStr s \<Rightarrow> Inr (before_dunder s) | _ \<Rightarrow> Inl (type_error ''t.split is not a function''))"

definition SENA_MVT_CONNECTORS :: "string list" where
  "SENA_MVT_CONNECTORS = [''apollo'', ''brevo'', ''unipile'', ''apify'', ''rb2b'', ''google-workspace'', ''cal-com'', ''calendly'', ''googlemeet'']"

definition add_connection :: "jsval \<Rightarrow> props \<Rightarrow> props res" where
  "add_connection c connections =
     (if c = JNull \<or> c = JUndef then Inl (type_error ''null and undefined have no properties'')
      else Inr (if get c ''status'' = JStr ''active'' then obj_put connections (to_str (get c ''connector'')) (get c ''id'') else connections))"

fun add_connections :: "jsval list \<Rightarrow> props \<Rightarrow> props res" where
  "add_connections [] connections = Inr connections"
| "add_connections (c # cs) connections = sbind (add_connection c connections) (add_connections cs)"

definition preflight :: "api \<Rightarrow> HarnessConfig \<Rightarrow> props stage" where
  "preflight api cfg =
     stage_then (mcpListTools api cfg) (\<lambda>tools.
     stage_then (pure (map_res connector_of_tool tools)) (\<lambda>surface.
     let leaked = filter (\<lambda>c. c \<notin> set SENA_MVT_CONNECTORS) surface in
     if leaked \<noteq> []
     then pure (Inl (Error (''[preflight] capability profile leaked non-sena_mvt connectors: '' @ join '', '' (rev (remdups (rev leaked))))))
     else stage_then (listConnections api cfg) (\<lambda>conns.
          stage_then (pure (add_connections conns [])) (\<lambda>connections.
          stage_then (note_evidence api cfg ''preflight'' ''tools/list'' (JStr []) ''ok'') (\<lambda>_.
          pure (Inr connections))))))"

definition sourced_lead :: "jsval \<Rightarrow> nat \<Rightarrow> jsval \<Rightarrow> jsval res" where
  "sourced_lead request_id i it =
     (if it = JNull \<or> it = JUndef then Inl (type_error ''null and undefined have no properties'')
      else let either = (\<lambda>a b. nullish (get it a) (nullish (get it b) (JStr []))) in
        Inr (JObj [(''lead_id'', JStr (to_str (nullish (get it ''id'') (JInt (int i + 1))))), (''full_name'', either ''name'' ''fullName''),
          (''title'', nullish (get it ''title'') (JStr [])), (''company'', either ''company'' ''organization''),
          (''linkedin_url'', either ''linkedinUrl'' ''profileUrl''), (''email'', nullish (get it ''email'') (JStr [])),
          (''apollo_id'', JStr []), (''stage'', JStr ''sourced''),
          (''channel'', JStr (if truthy (get it ''email'') then ''email'' else ''dm'')), (''booking_url'', JStr []),
          (''last_request_id'', request_id)]))"

definition source_stage :: "api \<Rightarrow> HarnessConfig \<Rightarrow> string \<Rightarrow> jsval \<Rightarrow> jsval list stage" where
  "source_stage api cfg actorId actorInput =
     stage_then (mcpCall api cfg ''apify__actor__run_sync_get_dataset_items'' (JObj [(''actorId'', JStr actorId), (''input'', actorInput)])) (\<lambda>r.
     stage_then (note_evidence api cfg ''source'' ''apify__actor__run_sync_get_dataset_items'' (requestId r) (ok_text r)) (\<lambda>_.
     stage_then (pure (case call_output r of
         JArr xs \<Rightarrow> Inr xs
       | v \<Rightarrow> (case nullish (get v ''items'') (JArr []) of JArr xs \<Rightarrow> Inr xs | _ \<Rightarrow> Inl (type_error ''map is not a function'')))) (\<lambda>items.
     stage_then (pure (map_res (\<lambda>(i, it). sourced_lead (requestId r) i it) (enumerate 0 (take (nat (maxLeads cfg)) items)))) (\<lambda>leads.
     stage_then (write_leads leads) (\<lambda>_. pure (Inr leads))))))"

definition lead_put :: "jsval \<Rightarrow> string \<Rightarrow> jsval \<Rightarrow> jsval" where
  "lead_put lead k v = JObj (obj_put (props_of lead) k v)"

definition enriched_lead :: "jsval \<Rightarrow> CallResult \<Rightarrow> jsval" where
  "enriched_lead lead r =
     (let person = nullish (get (call_output r) ''person'') (JObj []);
          lead1 = (if truthy (get person ''email'') \<and> \<not> truthy (get lead ''email'') then lead_put lead ''email'' (get person ''email'') else lead);
          lead2 = (if truthy (get person ''id'') then lead_put lead1 ''apollo_id'' (get person ''id'') else lead1)
      in lead_put (lead_put lead2 ''stage'' (JStr ''enriched'')) ''last_request_id'' (requestId r))"

definition enrich_one :: "api \<Rightarrow> HarnessConfig \<Rightarrow> jsval \<Rightarrow> jsval list \<Rightarrow> jsval list stage" where
  "enrich_one api cfg lead done_leads =
     (if get lead ''stage'' \<noteq> JStr ''sourced'' then pure (Inr (done_leads @ [lead]))
      else stage_then (mcpCall api cfg ''apollo__people__match''
               (JObj [(''name'', get lead ''full_name''), (''organization_name'', get lead ''company'')])) (\<lambda>r.
           stage_then (note_evidence api cfg ''enrich'' ''apollo__people__match'' (requestId r) (ok_text r)) (\<lambda>_.
           pure (Inr (done_leads @ [enriched_lead lead r])))))"

definition read_leads :: "jsval list stage" where
  "read_leads w = (w, Inr (readLeads (store w)))"

definition enrich :: "api \<Rightarrow> HarnessConfig \<Rightarrow> unit stage" where
  "enrich api cfg =
     stage_then read_leads (\<lambda>leads. stage_then (for_all (enrich_one api cfg) leads []) write_leads)"

text \<open>
  The texts of the messages. A lead read from the file has texts only; the dash of the direct message lies outside the
  alphabet of the model and is written as its UTF-8 bytes.
\<close>

definition first_name :: "jsval \<Rightarrow> string" where
  "first_name v = (case v of JStr s \<Rightarrow> hd (split_on (CHR '' '') s) | _ \<Rightarrow> ''there'')"

definition em_dash :: string where
  "em_dash = [CHR 0xE2, CHR 0x80, CHR 0x94]"

record ComposedMessage =
  subject :: string
  html :: string
  dm :: string

definition composeFor :: "jsval \<Rightarrow> string \<Rightarrow> ComposedMessage" where
  "composeFor lead bookingUrl =
     (let link = (if bookingUrl = [] then ''{{booking_url}}'' else bookingUrl);
          full = to_str (get lead ''full_name'')
      in \<lparr>subject = first_name (get lead ''full_name'') @ '', a quick demo?'',
          html = ''<p>Hi '' @ full @ '',</p><p>Saw your work at '' @ to_str (get lead ''company'')
            @ ''. Worth a quick demo? Grab a slot: <a href='' @ [quote_mark] @ link @ [quote_mark] @ ''>'' @ link @ ''</a></p>'',
          dm = ''Hi '' @ first_name (get lead ''full_name'') @ '' '' @ em_dash
            @ '' would a short demo be useful? You can book here: '' @ link\<rparr>)"

definition booked_lead :: "jsval \<Rightarrow> CallResult \<Rightarrow> jsval" where
  "booked_lead lead r =
     (let url = nullish (get (call_output r) ''booking_url'') (nullish (get (get (call_output r) ''resource'') ''booking_url'') (JStr []))
      in lead_put (lead_put (lead_put lead ''booking_url'' url) ''stage'' (JStr ''booking_ready'')) ''last_request_id'' (requestId r))"

definition book_one :: "api \<Rightarrow> HarnessConfig \<Rightarrow> jsval \<Rightarrow> jsval \<Rightarrow> jsval list \<Rightarrow> jsval list stage" where
  "book_one api cfg calId lead done_leads =
     (if get lead ''stage'' \<noteq> JStr ''enriched'' then pure (Inr (done_leads @ [lead]))
      else stage_then (actionCall api cfg calId ''scheduling_links.create''
               (JObj [(''owner'', JStr (calendlyEventType cfg)), (''max_event_count'', JInt 1)]) (calendlyToken cfg)) (\<lambda>r.
           stage_then (note_evidence api cfg ''booking'' ''calendly:scheduling_links.create'' (requestId r) (ok_text r)) (\<lambda>_.
           pure (Inr (done_leads @ [booked_lead lead r])))))"

definition booking :: "api \<Rightarrow> HarnessConfig \<Rightarrow> props \<Rightarrow> unit stage" where
  "booking api cfg conn =
     (let calId = prop_get conn ''calendly'' in
      if \<not> truthy calId \<or> calendlyToken cfg = [] \<or> calendlyEventType cfg = [] then pure (Inr ())
      else stage_then read_leads (\<lambda>leads. stage_then (for_all (book_one api cfg calId) leads []) write_leads))"

text \<open>One attempt to send: the decision, and then the call or a note that it was skipped.\<close>

definition attempt :: "api \<Rightarrow> HarnessConfig \<Rightarrow> bool \<Rightarrow> nat \<Rightarrow> Channel \<Rightarrow> string \<Rightarrow> string \<Rightarrow> (string \<Rightarrow> jsval) \<Rightarrow> nat stage" where
  "attempt api cfg green sends channel intended tool message =
     stage_then (pure (resolveSend cfg channel intended \<lparr>processedSends = sends, evidenceGreen = green\<rparr>)) (\<lambda>decision.
     if shouldSend decision
     then stage_then (mcpCall api cfg tool (message (recipient decision))) (\<lambda>r.
          stage_then (note_evidence api cfg ''send'' tool (requestId r) (ok_text r)) (\<lambda>_. pure (Inr (Suc sends))))
     else stage_then (note_evidence api cfg ''send'' tool (JStr []) ''skipped'') (\<lambda>_. pure (Inr sends)))"

definition email_message :: "ComposedMessage \<Rightarrow> string \<Rightarrow> jsval" where
  "email_message msg to = JObj [(''to'', JArr [JObj [(''email'', JStr to)]]), (''subject'', JStr (subject msg)), (''htmlContent'', JStr (html msg))]"

definition dm_message :: "ComposedMessage \<Rightarrow> string \<Rightarrow> jsval" where
  "dm_message msg to = JObj [(''profile_url'', JStr to), (''text'', JStr (dm msg))]"

definition send_one :: "api \<Rightarrow> HarnessConfig \<Rightarrow> props \<Rightarrow> bool \<Rightarrow> jsval \<Rightarrow> nat \<times> jsval list \<Rightarrow> (nat \<times> jsval list) stage" where
  "send_one api cfg conn green lead = (\<lambda>(sends, done_leads).
     if get lead ''stage'' \<noteq> JStr ''booking_ready'' then pure (Inr (sends, done_leads @ [lead]))
     else let msg = composeFor lead (str_of (get lead ''booking_url''));
              email = str_of (get lead ''email'');
              profile = str_of (get lead ''linkedin_url'');
              sent_lead = done_leads @ [lead_put lead ''stage'' (JStr ''sent'')]
          in if email \<noteq> []
             then stage_then (attempt api cfg green sends Email email ''brevo__smtp__email__send'' (email_message msg)) (\<lambda>n. pure (Inr (n, sent_lead)))
             else if profile \<noteq> [] \<and> truthy (prop_get conn ''unipile'')
             then stage_then (attempt api cfg green sends Dm profile ''unipile__messages__send'' (dm_message msg)) (\<lambda>n. pure (Inr (n, sent_lead)))
             else stage_then (note_evidence api cfg ''send'' ''send'' (JStr []) ''skipped'') (\<lambda>_. pure (Inr (sends, done_leads @ [lead]))))"

definition send :: "api \<Rightarrow> HarnessConfig \<Rightarrow> props \<Rightarrow> unit stage" where
  "send api cfg conn =
     stage_then read_leads (\<lambda>leads.
     stage_then (\<lambda>w. (w, priorEvidenceGreen (store w))) (\<lambda>green.
     stage_then (for_all (send_one api cfg conn green) leads (0, [])) (\<lambda>(sends, leads'). write_leads leads')))"

definition main :: "api \<Rightarrow> environment \<Rightarrow> string list \<Rightarrow> unit stage" where
  "main api env argv =
     stage_then (pure (loadConfig env argv)) (\<lambda>cfg.
     if sendMode cfg = Live_bulk \<and> \<not> allowBulk cfg then pure (Inl (Error ''refusing live_bulk without --allow-bulk''))
     else stage_then (preflight api cfg) (\<lambda>conn.
          stage_then (if env_or env ''APIFY_ACTOR_ID'' [] \<noteq> []
               then stage_then (pure (case json_parse (env_or env ''APIFY_ACTOR_INPUT'' ''{}'') of Some v \<Rightarrow> Inr v
                      | None \<Rightarrow> Inl (ErrorInst ''SyntaxError'' ''JSON Parse error'' []))) (source_stage api cfg (env_or env ''APIFY_ACTOR_ID'' []))
               else pure (Inr [])) (\<lambda>_.
          stage_then (enrich api cfg) (\<lambda>_.
          stage_then (booking api cfg conn) (\<lambda>_.
          send api cfg conn)))))"

section \<open>Which calls a run makes\<close>

definition send_tools :: "string list" where
  "send_tools = [''brevo__smtp__email__send'', ''unipile__messages__send'']"

fun is_send :: "call \<Rightarrow> bool" where
  "is_send (Mcp_call tool _) = (tool \<in> set send_tools)"
| "is_send _ = False"

text \<open>The address a message goes to.\<close>

fun send_target :: "call \<Rightarrow> Channel \<times> string" where
  "send_target (Mcp_call tool args) =
     (if tool = ''brevo__smtp__email__send'' then (Email, str_of (get (hd (items_of (get args ''to''))) ''email''))
      else (Dm, str_of (get args ''profile_url'')))"
| "send_target _ = (Dm, [])"

definition calls_only :: "(call \<Rightarrow> bool) \<Rightarrow> 'a stage \<Rightarrow> bool" where
  "calls_only P m = (\<forall>w. \<exists>cs. sent_calls (fst (m w)) = sent_calls w @ cs \<and> list_all P cs)"

named_theorems stage_calls \<open>the calls of the stages\<close>

lemma calls_only_pure [stage_calls]: "calls_only P (pure r)"
  by (simp add: calls_only_def pure_def)

lemma calls_only_then [stage_calls]:
  assumes "calls_only P m" and "\<And>a. calls_only P (k a)"
  shows "calls_only P (stage_then m k)"
  unfolding calls_only_def
proof
  fix w
  obtain w1 r where m: "m w = (w1, r)" by fastforce
  obtain cs where cs: "sent_calls w1 = sent_calls w @ cs" "list_all P cs"
    using assms(1) m unfolding calls_only_def by (metis fst_conv)
  show "\<exists>cs. sent_calls (fst (stage_then m k w)) = sent_calls w @ cs \<and> list_all P cs"
  proof (cases r)
    case (Inr a)
    obtain cs' where "sent_calls (fst (k a w1)) = sent_calls w1 @ cs'" "list_all P cs'"
      using assms(2) [of a] unfolding calls_only_def by blast
    with Inr m cs show ?thesis by (intro exI [of _ "cs @ cs'"]) (simp add: stage_then_def)
  qed (use m cs in \<open>auto simp: stage_then_def\<close>)
qed

lemma calls_only_for_all [stage_calls]:
  assumes "\<And>x s. calls_only P (f x s)"
  shows "calls_only P (for_all f xs s)"
  by (induction xs arbitrary: s) (simp_all add: calls_only_pure calls_only_then assms)

lemma calls_only_exchange: "P c \<Longrightarrow> calls_only P (exchange api cfg c)"
  by (simp add: calls_only_def exchange_def Let_def)

lemma calls_only_if [stage_calls]: "calls_only P a \<Longrightarrow> calls_only P b \<Longrightarrow> calls_only P (if q then a else b)"
  by simp

lemma calls_only_case_prod [stage_calls]: "(\<And>a b. calls_only P (f a b)) \<Longrightarrow> calls_only P (case p of (a, b) \<Rightarrow> f a b)"
  by (cases p) simp

lemma calls_only_file [stage_calls]:
  "calls_only P (note_evidence api cfg stage tool request_id status)" "calls_only P (write_leads leads)" "calls_only P read_leads"
  by (simp_all add: calls_only_def note_evidence_def write_leads_def read_leads_def)

lemma calls_only_client [stage_calls]:
  "P (Mcp_call tool args) \<Longrightarrow> calls_only P (mcpCall api cfg tool args)"
  "P Mcp_list \<Longrightarrow> calls_only P (mcpListTools api cfg)"
  "P Connections \<Longrightarrow> calls_only P (listConnections api cfg)"
  "P (Action_call i a v t) \<Longrightarrow> calls_only P (actionCall api cfg i a v t)"
  unfolding mcpCall_def mcpListTools_def listConnections_def actionCall_def Let_def
  by (intro stage_calls calls_only_exchange; assumption)+

lemma other_stages_calls:
  "calls_only (\<lambda>c. \<not> is_send c) (preflight api cfg)"
  "calls_only (\<lambda>c. \<not> is_send c) (source_stage api cfg actorId actorInput)"
  "calls_only (\<lambda>c. \<not> is_send c) (enrich api cfg)"
  "calls_only (\<lambda>c. \<not> is_send c) (booking api cfg conn)"
  unfolding preflight_def source_stage_def enrich_def enrich_one_def booking_def book_one_def Let_def
  by ((intro stage_calls; simp add: send_tools_def)+)

section \<open>The gates of the send stage\<close>

text \<open>What the mode asks of the message that is sent after \<open>n\<close> others.\<close>

definition permitted_send :: "HarnessConfig \<Rightarrow> bool \<Rightarrow> jsval list \<Rightarrow> nat \<Rightarrow> call \<Rightarrow> bool" where
  "permitted_send cfg green leads n c =
     (is_send c \<and>
      (case sendMode cfg of
         Dry_run \<Rightarrow> False
       | Live_single \<Rightarrow> snd (send_target c) \<noteq> []
           \<and> send_target c \<in> {(Email, testRecipientEmail cfg), (Dm, testRecipientProfile cfg)}
       | Live_bulk \<Rightarrow> allowBulk cfg \<and> green \<and> int n < maxLeads cfg
           \<and> (\<exists>lead \<in> set leads. get lead ''stage'' = JStr ''booking_ready'' \<and>
                send_target c \<in> {(Email, str_of (get lead ''email'')), (Dm, str_of (get lead ''linkedin_url''))})))"

fun gated :: "(nat \<Rightarrow> call \<Rightarrow> bool) \<Rightarrow> nat \<Rightarrow> call list \<Rightarrow> bool" where
  "gated P n [] = True"
| "gated P n (c # cs) = (P n c \<and> gated P (Suc n) cs)"

lemma gated_append: "gated P n (cs @ cs') \<longleftrightarrow> gated P n cs \<and> gated P (n + length cs) cs'"
  by (induction cs arbitrary: n) auto

lemma message_targets:
  "send_target (Mcp_call ''brevo__smtp__email__send'' (email_message msg t)) = (Email, t)"
  "send_target (Mcp_call ''unipile__messages__send'' (dm_message msg t)) = (Dm, t)"
  by (simp_all add: email_message_def dm_message_def prop_get_def items_of_def str_of_def)

lemma mcpCall_calls: "sent_calls (fst (mcpCall api cfg tool args w)) = sent_calls w @ [Mcp_call tool args]"
  by (auto simp: mcpCall_def stage_then_def exchange_def pure_def Let_def split: prod.splits sum.splits)

lemma attempt_calls:
  assumes "attempt api cfg green n channel intended tool message w = (w', r)"
  shows "\<exists>cs. sent_calls w' = sent_calls w @ cs \<and> (\<forall>n'. r = Inr n' \<longrightarrow> n' = n + length cs)
     \<and> (cs = [] \<or> (\<exists>d. resolveSend cfg channel intended \<lparr>processedSends = n, evidenceGreen = green\<rparr> = Inr d \<and> shouldSend d
           \<and> cs = [Mcp_call tool (message (recipient d))]))"
proof (cases "resolveSend cfg channel intended \<lparr>processedSends = n, evidenceGreen = green\<rparr>")
  case (Inl e)
  then show ?thesis using assms by (auto simp: attempt_def stage_then_def pure_def)
next
  case (Inr d)
  show ?thesis
  proof (cases "shouldSend d")
    case False
    with Inr assms show ?thesis by (auto simp: attempt_def stage_then_def pure_def note_evidence_def)
  next
    case True
    obtain w1 r1 where call: "mcpCall api cfg tool (message (recipient d)) w = (w1, r1)" by fastforce
    then have "sent_calls w1 = sent_calls w @ [Mcp_call tool (message (recipient d))]"
      using mcpCall_calls [of api cfg tool "message (recipient d)" w] by simp
    with Inr True call assms show ?thesis
      by (cases r1) (auto simp: attempt_def stage_then_def pure_def note_evidence_def)
  qed
qed

lemma resolveSend_permits:
  assumes "resolveSend cfg channel intended \<lparr>processedSends = n, evidenceGreen = green\<rparr> = Inr d" and "shouldSend d"
    and "is_send c" and "send_target c = (channel, recipient d)"
    and "lead \<in> set leads" and "get lead ''stage'' = JStr ''booking_ready''"
    and "(channel, intended) \<in> {(Email, str_of (get lead ''email'')), (Dm, str_of (get lead ''linkedin_url''))}"
  shows "permitted_send cfg green leads n c"
  using assms
  by (auto simp: resolveSend_def permitted_send_def Let_def split: SendMode.splits Channel.splits if_splits)

lemma send_one_calls:
  assumes "send_one api cfg conn green lead (n, ds) w = (w', r)" and "lead \<in> set leads"
  shows "\<exists>cs. sent_calls w' = sent_calls w @ cs \<and> gated (permitted_send cfg green leads) n cs
     \<and> (\<forall>n' ds'. r = Inr (n', ds') \<longrightarrow> n' = n + length cs)"
proof (cases "get lead ''stage'' = JStr ''booking_ready''")
  case False
  then show ?thesis using assms by (auto simp: send_one_def pure_def)
next
  case ready: True
  let ?msg = "composeFor lead (str_of (get lead ''booking_url''))" and ?email = "str_of (get lead ''email'')"
    and ?profile = "str_of (get lead ''linkedin_url'')" and ?ds = "ds @ [lead_put lead ''stage'' (JStr ''sent'')]"
  have attempted: ?thesis
    if run: "stage_then (attempt api cfg green n channel intended tool message) (\<lambda>n. pure (Inr (n, ?ds))) w = (w', r)"
      and target: "\<And>t. is_send (Mcp_call tool (message t)) \<and> send_target (Mcp_call tool (message t)) = (channel, t)"
      and lead: "(channel, intended) \<in> {(Email, ?email), (Dm, ?profile)}"
    for channel intended tool message
  proof -
    obtain w1 r1 where a: "attempt api cfg green n channel intended tool message w = (w1, r1)" by fastforce
    from attempt_calls [OF a] obtain cs where cs: "sent_calls w1 = sent_calls w @ cs" "\<forall>n'. r1 = Inr n' \<longrightarrow> n' = n + length cs"
      and sent: "cs = [] \<or> (\<exists>d. resolveSend cfg channel intended \<lparr>processedSends = n, evidenceGreen = green\<rparr> = Inr d
          \<and> shouldSend d \<and> cs = [Mcp_call tool (message (recipient d))])" by blast
    have "gated (permitted_send cfg green leads) n cs"
      using sent target resolveSend_permits [OF _ _ _ _ assms(2) ready lead, where n = n] by auto
    with cs run a show ?thesis by (cases r1) (auto simp: stage_then_def pure_def)
  qed
  consider (email) "?email \<noteq> []" | (profile) "?email = []" "?profile \<noteq> []" "truthy (prop_get conn ''unipile'')"
    | (none) "?email = []" "\<not> (?profile \<noteq> [] \<and> truthy (prop_get conn ''unipile''))" by blast
  then show ?thesis
  proof cases
    case email
    then have "stage_then (attempt api cfg green n Email ?email ''brevo__smtp__email__send'' (email_message ?msg))
        (\<lambda>n. pure (Inr (n, ?ds))) w = (w', r)"
      using assms(1) ready by (simp add: send_one_def Let_def)
    then show ?thesis by (rule attempted) (simp_all only: message_targets is_send.simps send_tools_def list.set insert_iff simp_thms)
  next
    case profile
    then have "stage_then (attempt api cfg green n Dm ?profile ''unipile__messages__send'' (dm_message ?msg))
        (\<lambda>n. pure (Inr (n, ?ds))) w = (w', r)"
      using assms(1) ready by (simp add: send_one_def Let_def)
    then show ?thesis by (rule attempted) (simp_all only: message_targets is_send.simps send_tools_def list.set insert_iff simp_thms)
  next
    case none
    then show ?thesis using assms(1) ready
      by (auto simp: send_one_def Let_def stage_then_def note_evidence_def pure_def)
  qed
qed

lemma send_loop_calls:
  assumes "for_all (send_one api cfg conn green) ls (n, ds) w = (w', r)" and "set ls \<subseteq> set leads"
  shows "\<exists>cs. sent_calls w' = sent_calls w @ cs \<and> gated (permitted_send cfg green leads) n cs"
  using assms
proof (induction ls arbitrary: n ds w)
  case (Cons l ls)
  obtain w1 r1 where one: "send_one api cfg conn green l (n, ds) w = (w1, r1)" by fastforce
  from Cons.prems(2) send_one_calls [OF one, of leads] obtain cs where cs: "sent_calls w1 = sent_calls w @ cs"
      "gated (permitted_send cfg green leads) n cs" "\<forall>n' ds'. r1 = Inr (n', ds') \<longrightarrow> n' = n + length cs" by auto
  show ?case
  proof (cases r1)
    case (Inl e)
    with Cons.prems(1) one cs show ?thesis by (auto simp: stage_then_def)
  next
    case (Inr p)
    then obtain n' ds' where p: "r1 = Inr (n', ds')" by (cases p) simp
    with Cons.prems(1) one have "for_all (send_one api cfg conn green) ls (n', ds') w1 = (w', r)" by (simp add: stage_then_def)
    from Cons.IH [OF this] Cons.prems(2) obtain cs' where "sent_calls w' = sent_calls w1 @ cs'"
        "gated (permitted_send cfg green leads) n' cs'" by auto
    with cs p show ?thesis by (intro exI [of _ "cs @ cs'"]) (simp add: gated_append)
  qed
qed (auto simp: pure_def)

definition evidence_green :: "world \<Rightarrow> bool" where
  "evidence_green w = (priorEvidenceGreen (store w) = Inr True)"

lemma send_calls:
  assumes "send api cfg conn w = (w', r)"
  shows "\<exists>cs. sent_calls w' = sent_calls w @ cs \<and> gated (permitted_send cfg (evidence_green w) (readLeads (store w))) 0 cs"
proof (cases "priorEvidenceGreen (store w)")
  case (Inl e)
  then show ?thesis using assms by (auto simp: send_def stage_then_def read_leads_def)
next
  case (Inr green)
  obtain w1 r1 where loop: "for_all (send_one api cfg conn green) (readLeads (store w)) (0, []) w = (w1, r1)" by fastforce
  from send_loop_calls [OF this subset_refl] obtain cs where "sent_calls w1 = sent_calls w @ cs"
      "gated (permitted_send cfg green (readLeads (store w))) 0 cs" by blast
  moreover have "evidence_green w = green" by (simp add: evidence_green_def Inr)
  moreover have "sent_calls w' = sent_calls w1"
    using assms Inr loop by (auto simp: send_def stage_then_def read_leads_def write_leads_def split: sum.splits)
  ultimately show ?thesis by auto
qed

text \<open>A stage that makes no send, except that it may end in the given one.\<close>

definition ends_in :: "('c \<Rightarrow> 'a stage) \<Rightarrow> 'a stage \<Rightarrow> bool" where
  "ends_in s m = (\<forall>w w' r. m w = (w', r) \<longrightarrow>
     (\<exists>w1 cs. sent_calls w1 = sent_calls w @ cs \<and> list_all (\<lambda>c. \<not> is_send c) cs \<and> (w' = w1 \<or> (\<exists>c. s c w1 = (w', r)))))"

lemma ends_in_last: "ends_in s (s c)"
  unfolding ends_in_def by (intro allI impI, rule exI, rule exI [of _ "[]"]) auto

lemma ends_in_pure: "ends_in s (pure r)"
  unfolding ends_in_def by (intro allI impI, rule exI, rule exI [of _ "[]"]) (auto simp: pure_def)

lemma ends_in_then:
  assumes "calls_only (\<lambda>c. \<not> is_send c) m" and "\<And>a. ends_in s (k a)"
  shows "ends_in s (stage_then m k)"
  unfolding ends_in_def
proof (intro allI impI)
  fix w w' r
  assume run: "stage_then m k w = (w', r)"
  obtain w1 r1 where m: "m w = (w1, r1)" by fastforce
  obtain cs where cs: "sent_calls w1 = sent_calls w @ cs" "list_all (\<lambda>c. \<not> is_send c) cs"
    using assms(1) m unfolding calls_only_def by (metis fst_conv)
  show "\<exists>w1 cs. sent_calls w1 = sent_calls w @ cs \<and> list_all (\<lambda>c. \<not> is_send c) cs \<and> (w' = w1 \<or> (\<exists>c. s c w1 = (w', r)))"
  proof (cases r1)
    case (Inr a)
    then have "k a w1 = (w', r)" using run m by (simp add: stage_then_def)
    with assms(2) [of a] obtain w2 cs' where "sent_calls w2 = sent_calls w1 @ cs'" "list_all (\<lambda>c. \<not> is_send c) cs'"
        "w' = w2 \<or> (\<exists>c. s c w2 = (w', r))" unfolding ends_in_def by blast
    with cs show ?thesis by (intro exI [of _ w2] exI [of _ "cs @ cs'"]) simp
  qed (use run m cs in \<open>auto simp: stage_then_def\<close>)
qed

lemma main_ends_in_send:
  assumes "loadConfig env argv = Inr cfg"
  shows "ends_in (send api cfg) (main api env argv)"
proof -
  have "main api env argv = (if sendMode cfg = Live_bulk \<and> \<not> allowBulk cfg
      then pure (Inl (Error ''refusing live_bulk without --allow-bulk''))
      else stage_then (preflight api cfg) (\<lambda>conn.
          stage_then (if env_or env ''APIFY_ACTOR_ID'' [] \<noteq> []
               then stage_then (pure (case json_parse (env_or env ''APIFY_ACTOR_INPUT'' ''{}'') of Some v \<Rightarrow> Inr v
                      | None \<Rightarrow> Inl (ErrorInst ''SyntaxError'' ''JSON Parse error'' []))) (source_stage api cfg (env_or env ''APIFY_ACTOR_ID'' []))
               else pure (Inr [])) (\<lambda>_.
          stage_then (enrich api cfg) (\<lambda>_. stage_then (booking api cfg conn) (\<lambda>_. send api cfg conn)))))"
    by (simp add: main_def fun_eq_iff stage_then_def [of "pure _"] assms pure_def)
  moreover have "ends_in (send api cfg) \<dots>"
    by (cases "sendMode cfg = Live_bulk \<and> \<not> allowBulk cfg")
       (simp_all only: if_True if_False ends_in_pure ends_in_then ends_in_last other_stages_calls stage_calls simp_thms)
  ultimately show ?thesis by simp
qed

lemma gated_each: "gated P n cs \<Longrightarrow> c \<in> set cs \<Longrightarrow> \<exists>m. P m c"
  by (induction cs arbitrary: n) auto

lemma gated_bound: "gated P n cs \<Longrightarrow> \<forall>m c. P m c \<longrightarrow> m < b \<Longrightarrow> cs = [] \<or> n + length cs \<le> b"
proof (induction cs arbitrary: n)
  case (Cons c cs)
  then have rest: "gated P (Suc n) cs" and "n < b" by auto
  with Cons.IH [OF rest Cons.prems(2)] show ?case by auto
qed simp

text \<open>C36: No run of the harness sends a message that its mode does not allow. All stages before the last make no send.
  In the last one: a dry run sends nothing; in \<open>live_single\<close> mode every message goes to the configured test recipient
  of its channel; in \<open>live_bulk\<close> mode there is none unless the flag was given and the evidence that the run found is
  green, at most \<open>maxLeads\<close> are sent, and each goes to the address of a lead that was ready for it. This holds for
  whatever the API answers and wherever the run breaks off.\<close>

theorem harness_sends_gated:
  assumes "loadConfig env argv = Inr cfg" and "main api env argv w = (w', r)"
  shows "\<exists>w1 cs1 cs2. sent_calls w' = sent_calls w @ cs1 @ cs2 \<and> sent_calls w1 = sent_calls w @ cs1
    \<and> list_all (\<lambda>c. \<not> is_send c) cs1 \<and> (w' = w1 \<or> (\<exists>conn. send api cfg conn w1 = (w', r)))
    \<and> (sendMode cfg = Dry_run \<longrightarrow> cs2 = [])
    \<and> (sendMode cfg = Live_single \<longrightarrow> (\<forall>c \<in> set cs2. snd (send_target c) \<noteq> []
         \<and> send_target c \<in> {(Email, testRecipientEmail cfg), (Dm, testRecipientProfile cfg)}))
    \<and> (sendMode cfg = Live_bulk \<and> cs2 \<noteq> [] \<longrightarrow> allowBulk cfg \<and> priorEvidenceGreen (store w1) = Inr True
         \<and> int (length cs2) \<le> maxLeads cfg
         \<and> (\<forall>c \<in> set cs2. \<exists>lead \<in> set (readLeads (store w1)). get lead ''stage'' = JStr ''booking_ready''
              \<and> send_target c \<in> {(Email, str_of (get lead ''email'')), (Dm, str_of (get lead ''linkedin_url''))}))"
proof -
  obtain w1 cs1 where cs1: "sent_calls w1 = sent_calls w @ cs1" "list_all (\<lambda>c. \<not> is_send c) cs1"
    and last: "w' = w1 \<or> (\<exists>conn. send api cfg conn w1 = (w', r))"
    using main_ends_in_send [OF assms(1), of api] assms(2) unfolding ends_in_def by blast
  let ?P = "permitted_send cfg (evidence_green w1) (readLeads (store w1))"
  obtain cs2 where cs2: "sent_calls w' = sent_calls w1 @ cs2" "gated ?P 0 cs2"
    using last send_calls by (metis append_Nil2 gated.simps(1))
  have each: "\<exists>m. ?P m c" if "c \<in> set cs2" for c using gated_each [OF cs2(2) that] .
  have "cs2 = []" if "sendMode cfg = Dry_run"
    using each that by (cases cs2) (auto simp: permitted_send_def)
  moreover have "snd (send_target c) \<noteq> [] \<and> send_target c \<in> {(Email, testRecipientEmail cfg), (Dm, testRecipientProfile cfg)}"
    if "sendMode cfg = Live_single" "c \<in> set cs2" for c
    using each [OF that(2)] that(1) by (auto simp: permitted_send_def)
  moreover have "allowBulk cfg \<and> priorEvidenceGreen (store w1) = Inr True" if "sendMode cfg = Live_bulk" "cs2 \<noteq> []"
    using each [of "hd cs2"] that by (auto simp: permitted_send_def evidence_green_def)
  moreover have "\<exists>lead \<in> set (readLeads (store w1)). get lead ''stage'' = JStr ''booking_ready''
      \<and> send_target c \<in> {(Email, str_of (get lead ''email'')), (Dm, str_of (get lead ''linkedin_url''))}"
    if "sendMode cfg = Live_bulk" "c \<in> set cs2" for c
    using each [OF that(2)] that(1) by (auto simp: permitted_send_def)
  moreover have "int (length cs2) \<le> maxLeads cfg" if "sendMode cfg = Live_bulk" "cs2 \<noteq> []"
  proof -
    have "\<forall>m c. ?P m c \<longrightarrow> m < nat (maxLeads cfg)"
      using \<open>sendMode cfg = Live_bulk\<close> by (auto simp: permitted_send_def)
    from gated_bound [OF cs2(2) this] \<open>cs2 \<noteq> []\<close> show ?thesis by (cases cs2) auto
  qed
  ultimately show ?thesis
    by (rule_tac exI [of _ w1], rule_tac exI [of _ cs1], rule_tac exI [of _ cs2]) (use cs1 cs2 last in auto)
qed

text \<open>
  A dry run makes no call in the send stage, and yet every lead that could be contacted is stored as sent: a later live
  run passes it over. The same holds for the leads after the cap of a bulk run.
\<close>

definition marked_sent :: "props \<Rightarrow> jsval \<Rightarrow> jsval" where
  "marked_sent conn lead =
     (if get lead ''stage'' = JStr ''booking_ready''
         \<and> (str_of (get lead ''email'') \<noteq> [] \<or> str_of (get lead ''linkedin_url'') \<noteq> [] \<and> truthy (prop_get conn ''unipile''))
      then lead_put lead ''stage'' (JStr ''sent'') else lead)"

lemma skipped_attempt:
  assumes "\<And>channel intended. \<exists>d. resolveSend cfg channel intended \<lparr>processedSends = n, evidenceGreen = green\<rparr> = Inr d \<and> \<not> shouldSend d"
  obtains w' where "attempt api cfg green n channel intended tool message w = (w', Inr n)" "sent_calls w' = sent_calls w"
    "leads_file (store w') = leads_file (store w)"
  using assms [of channel intended] by (auto simp: attempt_def stage_then_def pure_def note_evidence_def appendEvidence_def)

lemma skipped_one:
  assumes "\<And>channel intended. \<exists>d. resolveSend cfg channel intended \<lparr>processedSends = n, evidenceGreen = green\<rparr> = Inr d \<and> \<not> shouldSend d"
  shows "\<exists>w'. send_one api cfg conn green lead (n, ds) w = (w', Inr (n, ds @ [marked_sent conn lead])) \<and> sent_calls w' = sent_calls w"
proof -
  let ?msg = "composeFor lead (str_of (get lead ''booking_url''))"
  obtain w1 where e: "attempt api cfg green n Email (str_of (get lead ''email'')) ''brevo__smtp__email__send'' (email_message ?msg) w = (w1, Inr n)"
      "sent_calls w1 = sent_calls w" by (rule skipped_attempt [OF assms])
  obtain w2 where d: "attempt api cfg green n Dm (str_of (get lead ''linkedin_url'')) ''unipile__messages__send'' (dm_message ?msg) w = (w2, Inr n)"
      "sent_calls w2 = sent_calls w" by (rule skipped_attempt [OF assms])
  show ?thesis
    using e d by (simp add: send_one_def marked_sent_def Let_def stage_then_def pure_def note_evidence_def)
qed

lemma skipped_loop:
  assumes "\<And>channel intended. \<exists>d. resolveSend cfg channel intended \<lparr>processedSends = n, evidenceGreen = green\<rparr> = Inr d \<and> \<not> shouldSend d"
  shows "\<exists>w'. for_all (send_one api cfg conn green) ls (n, ds) w = (w', Inr (n, ds @ map (marked_sent conn) ls)) \<and> sent_calls w' = sent_calls w"
proof (induction ls arbitrary: ds w)
  case (Cons l ls)
  obtain w1 where "send_one api cfg conn green l (n, ds) w = (w1, Inr (n, ds @ [marked_sent conn l]))" "sent_calls w1 = sent_calls w"
    using skipped_one [OF assms] by blast
  with Cons.IH [of "ds @ [marked_sent conn l]" w1] show ?case by (simp add: stage_then_def)
qed (simp add: pure_def)

lemma dry_run_marks_sent:
  assumes "sendMode cfg = Dry_run" and "priorEvidenceGreen (store w) = Inr green"
  shows "\<exists>w'. send api cfg conn w = (w', Inr ()) \<and> sent_calls w' = sent_calls w
    \<and> leads_file (store w') = Some (serializeLeads (map (marked_sent conn) (readLeads (store w))))"
proof -
  have "\<exists>d. resolveSend cfg channel intended \<lparr>processedSends = 0, evidenceGreen = green\<rparr> = Inr d \<and> \<not> shouldSend d" for channel intended
    by (simp add: resolveSend_def assms(1))
  from skipped_loop [OF this, of api conn "readLeads (store w)" "[]" w] obtain w1 where
      "for_all (send_one api cfg conn green) (readLeads (store w)) (0, []) w = (w1, Inr (0, map (marked_sent conn) (readLeads (store w))))"
      "sent_calls w1 = sent_calls w" by auto
  then show ?thesis using assms(2)
    by (simp add: send_def stage_then_def read_leads_def write_leads_def writeLeads_def)
qed

section \<open>Example\<close>

definition demo_api :: api where
  "demo_api = \<lparr>api_answer = (\<lambda>_ _. Inr (200, ''OK'', ''{}'')), api_clock = (\<lambda>_. ''t'')\<rparr>"

definition demo_env :: environment where
  "demo_env k = (if k = ''TEST_RECIPIENT_EMAIL'' then Some ''qa@x.io'' else None)"

definition demo_world :: world where
  "demo_world = \<lparr>store = \<lparr>leads_file = Some (serializeLeads [JObj [(''full_name'', JStr ''Jane Roe''), (''email'', JStr ''jane@acme.com''),
     (''stage'', JStr ''booking_ready'')]]), evidence_file = None\<rparr>, rpc_count = 0, sent_calls = [], requests = [], ticks = 0\<rparr>"


definition demo_config :: HarnessConfig where
  "demo_config = \<lparr>baseUrl = ''http://localhost:5080'', apiKey = ''ak_dev_local'', externalAccountId = ''sena'',
     capabilityProfile = ''sena_mvt'', sendMode = Live_single, testRecipientEmail = ''qa@x.io'', testRecipientProfile = [],
     calendlyToken = [], calendlyEventType = [], maxLeads = 1, allowBulk = False, stateDir = ''runner/sena-e2e/state''\<rparr>"

lemma demo_one: "str_to_num ''1'' = Fin 1"
proof -
  have "quotient_of 1 = (1, 1)" using quotient_of_int [of 1] by (simp add: of_int_def)
  then have "flog2 1 = 0" by (simp add: flog2_def rat_pow_def bit_len.simps)
  then have "round_double 1 = Fin 1"
    by (simp add: round_double_def rat_pow_def round_half_even_def)
  then show ?thesis
    by (simp add: str_to_num_def trim_def is_ws_def starts_with_def parse_decimal_def parse_exp_def dec_val_def digit_val_def
        is_digit_def code_def rat_pow_def signed_double_def)
qed

lemma demo_loaded: "loadConfig demo_env [''--mode=live_single''] = Inr demo_config"
  by (simp add: loadConfig_def mode_argument_def parseSendMode_def parseMaxLeads_def env_or_def demo_env_def demo_one
      starts_with_def is_finite_def demo_config_def)
theorem harness_sends_gated_witness:
  "loadConfig demo_env [''--mode=live_single''] = Inr demo_config
   \<and> list_all (\<lambda>c. send_target c = (Email, ''qa@x.io''))
       (filter is_send (sent_calls (fst (main demo_api demo_env [''--mode=live_single''] demo_world))))"
proof
  obtain w' r where run: "main demo_api demo_env [''--mode=live_single''] demo_world = (w', r)" by fastforce
  have "sendMode demo_config = Live_single" "testRecipientEmail demo_config = ''qa@x.io''" "testRecipientProfile demo_config = []"
    by (simp_all add: demo_config_def)
  with harness_sends_gated [OF demo_loaded run] obtain cs1 cs2 where "sent_calls w' = sent_calls demo_world @ cs1 @ cs2"
      "list_all (\<lambda>c. \<not> is_send c) cs1" "\<forall>c \<in> set cs2. snd (send_target c) \<noteq> [] \<and> send_target c \<in> {(Email, ''qa@x.io''), (Dm, [])}"
    by auto
  moreover have "sent_calls demo_world = []" by (simp add: demo_world_def)
  ultimately have "list_all (\<lambda>c. send_target c = (Email, ''qa@x.io'')) (filter is_send (sent_calls w'))"
    by (auto simp: list_all_iff)
  with run show "list_all (\<lambda>c. send_target c = (Email, ''qa@x.io''))
       (filter is_send (sent_calls (fst (main demo_api demo_env [''--mode=live_single''] demo_world))))" by simp
qed (rule demo_loaded)

end
