(* ===== verification/MailText.thy ===== *)
theory MailText
  imports Messages Lines "HOL-Library.Word"
begin

text \<open>
  The text side of the shared mail client (\<open>runner/connectors/_shared/smtp.ts\<close>): address lists, reply
  codes, the checks of destination, port and headers, and the message that is written after \<open>DATA\<close>.
  Random texts and the date are parameters. The theorems: what a receiver makes of the written message is
  the header lines and body lines that were meant, so no text of the caller adds a header or ends the
  message; the address check is membership in a fixed set of address blocks.
\<close>

section \<open>Errors\<close>

definition structured :: "string \<Rightarrow> string \<Rightarrow> thrown" where
  "structured c m = ThrownVal (JObj [(''ok'', JBool False), (''code'', JStr c), (''message'', JStr m)])"

definition upstreamError :: thrown where
  "upstreamError = structured ''CONNECTOR_UPSTREAM_ERROR'' ''SMTP relay rejected the message.''"

definition unavailableError :: thrown where
  "unavailableError = structured ''CONNECTOR_UNAVAILABLE'' ''SMTP relay connection failed.''"

definition isSmtpConfigured :: "jsval \<Rightarrow> bool" where
  "isSmtpConfigured input =
     ((is_record input \<or> (case input of JArr _ \<Rightarrow> True | _ \<Rightarrow> False))
      \<and> str_of (get input ''apiKey'') = [] \<and> str_of (get input ''smtpHost'') \<noteq> [])"

section \<open>Addresses\<close>

definition toAddressList :: "jsval \<Rightarrow> string list" where
  "toAddressList v =
     (case v of
        JStr s \<Rightarrow> if trim s \<noteq> [] then [trim s] else []
      | JArr xs \<Rightarrow> map (\<lambda>x. trim (str_of x)) (filter (\<lambda>x. trim (str_of x) \<noteq> []) xs)
      | _ \<Rightarrow> [])"

definition bareAddress :: "string \<Rightarrow> string" where
  "bareAddress addr = trim (case bracketed addr of Some a \<Rightarrow> a | None \<Rightarrow> addr)"

text \<open>The loop of \<open>dedupe\<close>: the keys seen so far and the addresses kept.\<close>

fun dedupe_from :: "string list \<Rightarrow> string list \<Rightarrow> string list \<Rightarrow> string list" where
  "dedupe_from seen out [] = out"
| "dedupe_from seen out (item # rest) =
     (let key = to_lower (bareAddress item) in
      if key \<notin> set seen then dedupe_from (seen @ [key]) (out @ [item]) rest else dedupe_from seen out rest)"

definition dedupe :: "string list \<Rightarrow> string list" where
  "dedupe items = dedupe_from [] [] items"

section \<open>Replies\<close>

definition first_line :: "string \<Rightarrow> string" where
  "first_line s = hd (split_lines s)"

text \<open>\<open>parseInt(s, 10)\<close>, with 0 for NaN.\<close>

definition parse_int_or_0 :: "string \<Rightarrow> int" where
  "parse_int_or_0 s =
     (let t = trim_start s;
          neg = (t \<noteq> [] \<and> hd t = CHR ''-'');
          ds = takeWhile is_digit (if t \<noteq> [] \<and> (hd t = CHR ''-'' \<or> hd t = CHR ''+'') then tl t else t)
      in if ds = [] then 0 else if neg then - int (dec_val ds) else int (dec_val ds))"

definition replyCode :: "string \<Rightarrow> int" where
  "replyCode reply = parse_int_or_0 (take 3 (first_line reply))"

definition isPositive :: "int \<Rightarrow> bool" where
  "isPositive c = (200 \<le> c \<and> c < 400)"

section \<open>Checks of the input\<close>

definition normalizePort :: "jsval \<Rightarrow> int res" where
  "normalizePort v =
     (let n = (case v of
                 JUndef \<Rightarrow> Fin 587
               | JNum x \<Rightarrow> x
               | JStr s \<Rightarrow> if s \<noteq> [] \<and> list_all is_digit s then str_to_num s else NaN
               | _ \<Rightarrow> NaN)
      in case num_val n of
           Some r \<Rightarrow> if is_integer n \<and> \<lfloor>r\<rfloor> \<in> {25, 465, 587, 2525} then Inr \<lfloor>r\<rfloor> else Inl upstreamError
         | None \<Rightarrow> Inl upstreamError)"

definition octet :: "string list \<Rightarrow> nat \<Rightarrow> jsnum" where
  "octet parts i = (if i < length parts then str_to_num (parts ! i) else NaN)"

definition prohibitedAddress :: "string \<Rightarrow> bool" where
  "prohibitedAddress host =
     (let addr = to_lower host in
      if contains '':'' addr then True
      else let parts = split_on (CHR ''.'') addr;
               is = (\<lambda>i n. num_strict_eq (octet parts i) (Fin n));
               from = (\<lambda>i n. num_le (Fin n) (octet parts i));
               upto = (\<lambda>i n. num_le (octet parts i) (Fin n))
           in is 0 0 \<or> is 0 10 \<or> is 0 127 \<or> from 0 224 \<or> (is 0 169 \<and> is 1 254)
              \<or> (is 0 172 \<and> from 1 16 \<and> upto 1 31) \<or> (is 0 192 \<and> is 1 168)
              \<or> (is 0 100 \<and> from 1 64 \<and> upto 1 127) \<or> (is 0 198 \<and> (is 1 18 \<or> is 1 19)))"

text \<open>\<open>isIP\<close> of \<open>node:net\<close> is a parameter.\<close>

definition host_char :: "char \<Rightarrow> bool" where
  "host_char c = (is_alnum c \<or> c = CHR ''.'' \<or> c = CHR ''-'')"

definition validateDestination :: "(string \<Rightarrow> nat) \<Rightarrow> string \<Rightarrow> unit res" where
  "validateDestination isIP host =
     guard (host \<noteq> [] \<and> list_all host_char host \<and> is_alnum (hd host) \<and> is_alnum (last host)
        \<and> contains ''.'' host \<and> \<not> ends_with ''.localhost'' host \<and> \<not> ends_with ''.local'' host
        \<and> \<not> (isIP host \<noteq> 0 \<and> prohibitedAddress host)) upstreamError"

definition header_break :: "char \<Rightarrow> bool" where
  "header_break c = (c = CR \<or> c = LF \<or> code c = 0)"

definition plain_item :: "jsval \<Rightarrow> bool" where
  "plain_item v = list_all (\<lambda>c. \<not> header_break c) (str_of v)"

text \<open>\<open>/^[^<>\\s@]+@[^<>\\s@]+$/\<close>.\<close>

definition addr_char :: "char \<Rightarrow> bool" where
  "addr_char c = (c \<noteq> CHR ''<'' \<and> c \<noteq> CHR ''>'' \<and> \<not> is_ws c \<and> c \<noteq> CHR ''@'')"

definition address_spec :: "string \<Rightarrow> bool" where
  "address_spec s =
     (case split_on (CHR ''@'') s of
        [l, d] \<Rightarrow> l \<noteq> [] \<and> d \<noteq> [] \<and> list_all addr_char l \<and> list_all addr_char d
      | _ \<Rightarrow> False)"

definition header_items :: "jsval \<Rightarrow> jsval list" where
  "header_items v = (case v of JArr xs \<Rightarrow> xs | _ \<Rightarrow> [v])"

definition validateHeaders :: "(string \<Rightarrow> jsval) \<Rightarrow> unit res" where
  "validateHeaders field =
     sbind (guard (list_all (\<lambda>key. list_all plain_item (header_items (field key)))
              [''from'', ''to'', ''cc'', ''bcc'', ''replyTo'', ''subject'', ''messageId'', ''date'']) upstreamError) (\<lambda>_.
     guard (list_all (\<lambda>key. list_all (\<lambda>a. address_spec (bareAddress a)) (toAddressList (field key)))
              [''from'', ''to'', ''cc'', ''bcc'', ''replyTo'']) upstreamError)"

section \<open>The message\<close>

record BuildMessageInput =
  bm_from :: string
  bm_to :: jsval
  bm_cc :: jsval
  bm_subject :: "string option"
  bm_text :: "string option"
  bm_html :: "string option"
  bm_replyTo :: jsval
  bm_messageId :: "string option"
  bm_date :: "string option"

text \<open>The random texts and the date of a message.\<close>

record mail_stamp =
  st_random :: string
  st_date :: string
  st_boundary :: string

definition opt_field :: "string option \<Rightarrow> jsval" where
  "opt_field v = (case v of Some s \<Rightarrow> JStr s | None \<Rightarrow> JUndef)"

definition message_field :: "BuildMessageInput \<Rightarrow> string \<Rightarrow> jsval" where
  "message_field bm key =
     (if key = ''from'' then JStr (bm_from bm) else if key = ''to'' then bm_to bm else if key = ''cc'' then bm_cc bm
      else if key = ''replyTo'' then bm_replyTo bm else if key = ''subject'' then opt_field (bm_subject bm)
      else if key = ''messageId'' then opt_field (bm_messageId bm) else if key = ''date'' then opt_field (bm_date bm)
      else JUndef)"

definition encodeHeaderWord :: "string \<Rightarrow> string" where
  "encodeHeaderWord v = (if list_all (\<lambda>c. code c \<le> 127) v then v else ''=?UTF-8?B?'' @ base64 v @ ''?='')"

definition stuffed :: "string \<Rightarrow> string" where
  "stuffed line = (if starts_with ''.'' line then ''.'' @ line else line)"

definition dotStuff :: "string \<Rightarrow> string" where
  "dotStuff body = join CRLF (map stuffed (split_lines body))"

definition normalizeNewlines :: "string \<Rightarrow> string" where
  "normalizeNewlines s = join CRLF (split_lines s)"

definition defaultMessageId :: "mail_stamp \<Rightarrow> string \<Rightarrow> string" where
  "defaultMessageId stamp from =
     (let parts = split_on (CHR ''@'') (bareAddress from);
          domain = (if 1 < length parts then parts ! 1 else ''appcall.local'')
      in ''<'' @ st_random stamp @ ''@'' @ domain @ ''>'')"

definition quoted_utf8 :: string where
  "quoted_utf8 = [CHR 0x22] @ ''UTF-8'' @ [CHR 0x22]"

definition list_header :: "string \<Rightarrow> string list \<Rightarrow> string list" where
  "list_header name addresses = (if addresses \<noteq> [] then [name @ '': '' @ join '', '' addresses] else [])"

definition message_headers :: "mail_stamp \<Rightarrow> BuildMessageInput \<Rightarrow> string list" where
  "message_headers stamp bm =
     [''From: '' @ bm_from bm] @ list_header ''To'' (toAddressList (bm_to bm)) @ list_header ''Cc'' (toAddressList (bm_cc bm))
     @ list_header ''Reply-To'' (toAddressList (bm_replyTo bm))
     @ [''Subject: '' @ encodeHeaderWord (case bm_subject bm of Some s \<Rightarrow> s | None \<Rightarrow> []),
        ''Date: '' @ (case bm_date bm of Some d \<Rightarrow> d | None \<Rightarrow> st_date stamp),
        ''Message-ID: '' @ (case bm_messageId bm of Some i \<Rightarrow> i | None \<Rightarrow> defaultMessageId stamp (bm_from bm)),
        ''MIME-Version: 1.0'']"

definition plain_type :: string where
  "plain_type = ''Content-Type: text/plain; charset='' @ quoted_utf8"

definition html_type :: string where
  "html_type = ''Content-Type: text/html; charset='' @ quoted_utf8"

definition transfer_encoding :: string where
  "transfer_encoding = ''Content-Transfer-Encoding: 8bit''"

text \<open>The content headers and the body: both texts as alternatives, one of them, or an empty plain text.\<close>

definition message_content :: "mail_stamp \<Rightarrow> BuildMessageInput \<Rightarrow> string list \<times> string" where
  "message_content stamp bm =
     (case (bm_text bm, bm_html bm) of
        (Some (t # ts), Some (h # hs)) \<Rightarrow>
          (let boundary = ''=_appcall_'' @ st_boundary stamp in
           ([''Content-Type: multipart/alternative; boundary='' @ [CHR 0x22] @ boundary @ [CHR 0x22]],
            join CRLF [''--'' @ boundary, plain_type, transfer_encoding, [], normalizeNewlines (t # ts),
              ''--'' @ boundary, html_type, transfer_encoding, [], normalizeNewlines (h # hs), ''--'' @ boundary @ ''--'', []]))
      | (_, Some (h # hs)) \<Rightarrow> ([html_type, transfer_encoding], normalizeNewlines (h # hs))
      | (text_opt, _) \<Rightarrow> ([plain_type, transfer_encoding], normalizeNewlines (case text_opt of Some s \<Rightarrow> s | None \<Rightarrow> [])))"

definition buildMessage :: "mail_stamp \<Rightarrow> BuildMessageInput \<Rightarrow> string res" where
  "buildMessage stamp bm =
     sbind (validateHeaders (message_field bm)) (\<lambda>_.
     case message_content stamp bm of (contentHeaders, body) \<Rightarrow>
       Inr (join CRLF (message_headers stamp bm @ contentHeaders) @ CRLF @ CRLF @ dotStuff body))"

section \<open>What the receiver reads\<close>

text \<open>
  The receiver of the data (RFC 5321, 4.5.2): it reads CRLF-delimited lines up to a line that is one dot, and
  takes a leading dot off every other line. It returns the lines and the bytes after the end.
\<close>

definition unstuffed :: "string \<Rightarrow> string" where
  "unstuffed line = (if starts_with ''.'' line then tl line else line)"

fun data_lines :: "string list \<Rightarrow> (string list \<times> string list) option" where
  "data_lines [] = None"
| "data_lines (l # ls) =
     (if l = ''.'' then Some ([], ls)
      else map_option (\<lambda>(ds, rest). (unstuffed l # ds, rest)) (data_lines ls))"

definition receive_data :: "string \<Rightarrow> (string list \<times> string) option" where
  "receive_data stream = map_option (\<lambda>(ds, rest). (ds, join CRLF rest)) (data_lines (split_crlf stream))"

lemma starts_with_dot: "starts_with ''.'' l \<longleftrightarrow> l \<noteq> [] \<and> hd l = CHR ''.''"
  by (cases l) (auto simp: starts_with_def)

lemma stuffed_lines: "unstuffed (stuffed l) = l" "stuffed l \<noteq> ''.''" "LF \<notin> set l \<Longrightarrow> LF \<notin> set (stuffed l)"
  by (auto simp: unstuffed_def stuffed_def starts_with_dot LF_def)

lemma data_lines_append:
  "\<forall>l \<in> set ls. l \<noteq> ''.'' \<Longrightarrow> data_lines (ls @ ''.'' # rest) = Some (map unstuffed ls, rest)"
  by (induction ls) auto

text \<open>Header lines begin with a letter and hold no line break.\<close>

definition header_line :: "string \<Rightarrow> bool" where
  "header_line l = (l \<noteq> [] \<and> is_alpha (hd l) \<and> list_all (\<lambda>c. c \<noteq> CR \<and> c \<noteq> LF) l)"

lemma header_line_lines:
  assumes "header_line l"
  shows "l \<noteq> ''.'' \<and> unstuffed l = l \<and> LF \<notin> set l"
proof -
  have "\<not> is_alpha (CHR ''.'')" by (simp add: is_alpha_def is_upper_def is_lower_def code_def)
  moreover from assms obtain c cs where l: "l = c # cs" "is_alpha c" by (cases l) (simp_all add: header_line_def)
  ultimately have "c \<noteq> CHR ''.''" by fast
  moreover have "LF \<notin> set l" using assms by (simp only: header_line_def list_all_iff) fast
  ultimately show ?thesis using l(1) by (simp add: unstuffed_def starts_with_dot)
qed

lemma receive_message:
  assumes "hs \<noteq> []" and "\<forall>h \<in> set hs. header_line h"
  shows "receive_data ((join CRLF hs @ CRLF @ CRLF @ dotStuff body) @ CRLF @ ''.'' @ CRLF @ rest)
    = Some (hs @ [] # split_lines body, rest)"
proof -
  let ?body = "map stuffed (split_lines body)"
  have lf: "\<forall>l \<in> set hs. LF \<notin> set l" "\<forall>l \<in> set ?body. LF \<notin> set l"
    using assms(2) header_line_lines split_lines_no_LF stuffed_lines(3) by auto
  have "split_crlf ((join CRLF hs @ CRLF @ CRLF @ dotStuff body) @ CRLF @ ''.'' @ CRLF @ rest)
      = hs @ [] # ?body @ ''.'' # split_crlf rest"
    using split_crlf_lines [OF assms(1) lf(1)] split_crlf_lines [OF _ lf(2)] split_crlf_line [of "''.''" rest]
    by (simp add: dotStuff_def split_crlf_break LF_def)
  moreover have "data_lines ((hs @ [] # ?body) @ ''.'' # split_crlf rest) = Some (map unstuffed (hs @ [] # ?body), split_crlf rest)"
    by (rule data_lines_append) (use assms(2) header_line_lines stuffed_lines(2) in \<open>auto simp: stuffed_lines(2) dest: sym\<close>)
  moreover have "map unstuffed hs = hs" by (rule map_idI) (use assms(2) header_line_lines in blast)
  moreover have "map unstuffed ?body = split_lines body" "unstuffed [] = []"
    by (simp_all add: stuffed_lines(1) comp_def) (simp add: unstuffed_def starts_with_def)
  ultimately show ?thesis by (simp add: receive_data_def join_split_crlf)
qed

section \<open>The headers of a message\<close>

definition unbroken :: "string \<Rightarrow> bool" where
  "unbroken s = list_all (\<lambda>c. c \<noteq> CR \<and> c \<noteq> LF) s"

lemma unbroken_simps [simp]:
  "unbroken []" "unbroken (c # cs) \<longleftrightarrow> c \<noteq> CR \<and> c \<noteq> LF \<and> unbroken cs" "unbroken (a @ b) \<longleftrightarrow> unbroken a \<and> unbroken b"
  by (auto simp: unbroken_def)

lemma unbroken_subset: "set a \<subseteq> set b \<Longrightarrow> unbroken b \<Longrightarrow> unbroken a"
  by (auto simp: unbroken_def list_all_iff)

lemma set_trim: "set (trim s) \<subseteq> set s"
  unfolding trim_def using set_dropWhileD by (metis set_rev subsetI)

lemma plain_item_unbroken: "plain_item v \<Longrightarrow> unbroken (str_of v)"
  by (auto simp: plain_item_def unbroken_def header_break_def list_all_iff)

lemma toAddressList_unbroken:
  assumes "list_all plain_item (header_items v)" and "a \<in> set (toAddressList v)"
  shows "unbroken a"
proof -
  have "unbroken (trim (str_of x))" if "plain_item x" for x
    using unbroken_subset [OF set_trim plain_item_unbroken [OF that]] .
  from this [of v] this show ?thesis using assms
    by (cases v) (auto simp: toAddressList_def header_items_def list_all_iff str_of_def [of "JStr _"] split: if_splits)
qed

lemma bracketed_subset: "bracketed s = Some a \<Longrightarrow> set a \<subseteq> set s"
  by (induction s) (auto split: if_splits dest: set_takeWhileD)

lemma set_bareAddress: "set (bareAddress s) \<subseteq> set s"
  using set_trim bracketed_subset by (fastforce simp: bareAddress_def split: option.splits)

lemma unbroken_join: "unbroken sep \<Longrightarrow> \<forall>w \<in> set ws. unbroken w \<Longrightarrow> unbroken (join sep ws)"
  by (induction sep ws rule: join.induct) auto

lemma unbroken_split: "unbroken s \<Longrightarrow> w \<in> set (split_on c s) \<Longrightarrow> unbroken w"
proof (induction s arbitrary: w)
  case (Cons x s)
  then show ?case by (cases "split_on c s") (auto split: if_splits)
qed simp

lemma b64_unbroken: "unbroken (base64 s)"
proof -
  have digit: "b64_char n \<noteq> CR \<and> b64_char n \<noteq> LF" for n
  proof -
    have "b64_char n \<in> set ''ABCDEFGHIJKLMNOPQRSTUVWXYZabcdefghijklmnopqrstuvwxyz0123456789+/''"
      unfolding b64_char_def by (rule nth_mem) simp
    then show ?thesis by (auto simp: CR_def LF_def)
  qed
  have "unbroken (base64_bytes bs)" for bs
    by (induction bs rule: base64_bytes.induct) (simp_all add: digit, simp_all add: CR_def LF_def)
  then show ?thesis by (simp add: base64_def)
qed

text \<open>The random texts and the date hold no line break.\<close>

definition plain_stamp :: "mail_stamp \<Rightarrow> bool" where
  "plain_stamp stamp = (unbroken (st_random stamp) \<and> unbroken (st_date stamp) \<and> unbroken (st_boundary stamp))"

lemma validated_items:
  "validateHeaders field = Inr () \<Longrightarrow> list_all (\<lambda>key. list_all plain_item (header_items (field key)))
     [''from'', ''to'', ''cc'', ''bcc'', ''replyTo'', ''subject'', ''messageId'', ''date'']"
  by (auto simp: validateHeaders_def res_simps)

lemma field_unbroken:
  assumes "validateHeaders (message_field bm) = Inr ()"
  shows "unbroken (bm_from bm)" "\<forall>a \<in> set (toAddressList (bm_to bm)). unbroken a"
    "\<forall>a \<in> set (toAddressList (bm_cc bm)). unbroken a" "\<forall>a \<in> set (toAddressList (bm_replyTo bm)). unbroken a"
    "bm_subject bm = Some s \<Longrightarrow> unbroken s" "bm_messageId bm = Some i \<Longrightarrow> unbroken i" "bm_date bm = Some d \<Longrightarrow> unbroken d"
proof -
  have item: "plain_item (JStr t) \<Longrightarrow> unbroken t" for t
    using plain_item_unbroken [of "JStr t"] by (simp add: str_of_def)
  have opt: "list_all plain_item (header_items (opt_field v)) \<Longrightarrow> v = Some t \<Longrightarrow> unbroken t" for v t
    by (simp add: opt_field_def header_items_def item)
  have from_items: "list_all plain_item (header_items (JStr t)) \<Longrightarrow> unbroken t" for t by (simp add: header_items_def item)
  note checked = validated_items [OF assms, simplified, unfolded message_field_def, simplified]
  show "unbroken (bm_from bm)" using checked from_items by blast
  show "\<forall>a \<in> set (toAddressList (bm_to bm)). unbroken a" "\<forall>a \<in> set (toAddressList (bm_cc bm)). unbroken a"
      "\<forall>a \<in> set (toAddressList (bm_replyTo bm)). unbroken a"
    using checked toAddressList_unbroken by blast+
  show "bm_subject bm = Some s \<Longrightarrow> unbroken s" "bm_messageId bm = Some i \<Longrightarrow> unbroken i" "bm_date bm = Some d \<Longrightarrow> unbroken d"
    using checked opt by blast+
qed

lemma header_lineI: "is_alpha c \<Longrightarrow> unbroken (c # cs) \<Longrightarrow> header_line (c # cs)"
  by (auto simp: header_line_def unbroken_def)

lemma header_line_text: "is_alpha c \<Longrightarrow> unbroken (c # cs) \<Longrightarrow> unbroken t \<Longrightarrow> header_line ((c # cs) @ t)"
  unfolding append_Cons by (rule header_lineI) simp_all

lemma list_header_lines:
  "\<forall>a \<in> set as. unbroken a \<Longrightarrow> is_alpha c \<Longrightarrow> unbroken (c # cs) \<Longrightarrow> \<forall>h \<in> set (list_header (c # cs) as). header_line h"
  by (auto simp: list_header_def CR_def LF_def intro!: header_lineI unbroken_join)

lemma encodeHeaderWord_unbroken: "unbroken v \<Longrightarrow> unbroken (encodeHeaderWord v)"
  by (simp add: encodeHeaderWord_def b64_unbroken) (simp add: CR_def LF_def)

lemma defaultMessageId_unbroken:
  assumes "unbroken from" and "plain_stamp stamp"
  shows "unbroken (defaultMessageId stamp from)"
proof -
  have "unbroken (bareAddress from)" by (rule unbroken_subset [OF set_bareAddress assms(1)])
  then have "unbroken (split_on (CHR ''@'') (bareAddress from) ! 1)" if "1 < length (split_on (CHR ''@'') (bareAddress from))"
    using unbroken_split that nth_mem by blast
  then show ?thesis using assms(2)
    by (simp add: defaultMessageId_def plain_stamp_def Let_def) (simp add: CR_def LF_def)
qed

lemma message_header_lines:
  assumes "validateHeaders (message_field bm) = Inr ()" and "plain_stamp stamp"
  shows "\<forall>h \<in> set (message_headers stamp bm @ fst (message_content stamp bm)). header_line h"
proof -
  note f = field_unbroken [OF assms(1)]
  have letters: "is_alpha (CHR ''F'')" "is_alpha (CHR ''T'')" "is_alpha (CHR ''C'')" "is_alpha (CHR ''R'')" "is_alpha (CHR ''S'')"
      "is_alpha (CHR ''D'')" "is_alpha (CHR ''M'')"
    by (simp_all add: is_alpha_def is_upper_def is_lower_def code_def)
  have lists: "\<forall>h \<in> set (list_header ''To'' (toAddressList (bm_to bm))). header_line h"
      "\<forall>h \<in> set (list_header ''Cc'' (toAddressList (bm_cc bm))). header_line h"
      "\<forall>h \<in> set (list_header ''Reply-To'' (toAddressList (bm_replyTo bm))). header_line h"
    by (rule list_header_lines; simp add: f letters; simp add: CR_def LF_def)+
  have single: "header_line (''From: '' @ bm_from bm)"
      "header_line (''Subject: '' @ encodeHeaderWord (case bm_subject bm of Some s \<Rightarrow> s | None \<Rightarrow> []))"
      "header_line (''Date: '' @ (case bm_date bm of Some d \<Rightarrow> d | None \<Rightarrow> st_date stamp))"
      "header_line (''Message-ID: '' @ (case bm_messageId bm of Some i \<Rightarrow> i | None \<Rightarrow> defaultMessageId stamp (bm_from bm)))"
      "header_line ''MIME-Version: 1.0''"
    using f(1,5-7) assms(2) encodeHeaderWord_unbroken defaultMessageId_unbroken [OF f(1) assms(2)]
    by (auto simp: plain_stamp_def letters CR_def LF_def intro!: header_lineI split: option.splits)
  have "\<forall>h \<in> set (fst (message_content stamp bm)). header_line h"
    using assms(2) letters
    by (auto simp: message_content_def plain_type_def html_type_def transfer_encoding_def quoted_utf8_def plain_stamp_def
        CR_def LF_def Let_def intro!: header_lineI split: option.splits list.splits)
  with lists single show ?thesis by (auto simp: message_headers_def)
qed

lemma content_lines:
  "bm_html bm = None \<Longrightarrow> bm_text bm = Some t \<Longrightarrow> split_lines (snd (message_content stamp bm)) = split_lines t"
proof -
  have "split_lines (normalizeNewlines t) = split_lines t"
    unfolding normalizeNewlines_def by (rule split_lines_join) (auto dest: split_lines_no_LF)
  then show "bm_html bm = None \<Longrightarrow> bm_text bm = Some t \<Longrightarrow> split_lines (snd (message_content stamp bm)) = split_lines t"
    by (auto simp: message_content_def split: list.split)
qed

lemma built_message_received:
  assumes "buildMessage stamp bm = Inr message" and "plain_stamp stamp"
  shows "receive_data (message @ CRLF @ ''.'' @ CRLF @ rest) =
      Some ((message_headers stamp bm @ fst (message_content stamp bm)) @ [] # split_lines (snd (message_content stamp bm)), rest)"
    and "list_all header_line (message_headers stamp bm @ fst (message_content stamp bm))"
proof -
  let ?hs = "message_headers stamp bm @ fst (message_content stamp bm)"
  obtain hs body where c: "message_content stamp bm = (hs, body)" by fastforce
  from assms(1) c have v: "validateHeaders (message_field bm) = Inr ()"
      and m: "message = join CRLF ?hs @ CRLF @ CRLF @ dotStuff (snd (message_content stamp bm))"
    by (auto simp: buildMessage_def res_simps)
  note lines = message_header_lines [OF v assms(2)]
  have "?hs \<noteq> []" by (simp add: message_headers_def)
  from receive_message [OF this lines] m
  show "receive_data (message @ CRLF @ ''.'' @ CRLF @ rest) =
      Some (?hs @ [] # split_lines (snd (message_content stamp bm)), rest)" by simp
  show "list_all header_line ?hs" using lines by (simp add: list_all_iff)
qed

text \<open>C29: A message arrives as it was meant. Whatever texts a caller puts into subject, addresses, plain and HTML body,
  the receiver of the bytes that follow \<open>DATA\<close> reads exactly the header lines and body lines of the message: none of
  the texts ends the message early, adds a header line or a line of its own, and no dot is lost or added. The bytes
  after the final dot are those that follow. For a plain text the lines are those of the text.\<close>

theorem message_received_intact:
  assumes "buildMessage stamp bm = Inr message" and "plain_stamp stamp"
  shows "receive_data (message @ CRLF @ ''.'' @ CRLF @ rest) =
      Some ((message_headers stamp bm @ fst (message_content stamp bm)) @ [] # split_lines (snd (message_content stamp bm)), rest)
    \<and> list_all (\<lambda>h. h \<noteq> [] \<and> is_alpha (hd h) \<and> CR \<notin> set h \<and> LF \<notin> set h) (message_headers stamp bm @ fst (message_content stamp bm))
    \<and> (bm_html bm = None \<longrightarrow> bm_text bm = Some t \<longrightarrow> split_lines (snd (message_content stamp bm)) = split_lines t)"
  using built_message_received [OF assms] content_lines [of bm t stamp]
  by (auto simp: list_all_iff header_line_def)

section \<open>The address check\<close>

text \<open>A decimal number below \<open>2 ^ 53\<close> is read back exactly.\<close>

lemma show_nat_not_Nil: "show_nat n \<noteq> []"
  by (subst show_nat.simps) simp

lemma dec_val_snoc: "dec_val (s @ [c]) = 10 * dec_val s + digit_val c"
  by (simp add: dec_val_def)

lemma digit_of_dig: "n < 10 \<Longrightarrow> digit_val (dig n) = n \<and> is_digit (dig n)"
  by (simp add: digit_val_def is_digit_def dig_def)

lemma dec_val_show_nat: "dec_val (show_nat n) = n \<and> list_all is_digit (show_nat n)"
proof (induction n rule: less_induct)
  case (less n)
  show ?case
  proof (cases "n < 10")
    case True
    then have "show_nat n = [dig n]" by (subst show_nat.simps) simp
    with True show ?thesis using digit_of_dig [of n] by (simp add: dec_val_def)
  next
    case False
    then have s: "show_nat n = show_nat (n div 10) @ [dig (n mod 10)]" by (subst show_nat.simps) simp
    from False less [of "n div 10"] have "dec_val (show_nat (n div 10)) = n div 10" "list_all is_digit (show_nat (n div 10))" by auto
    with s show ?thesis using digit_of_dig [of "n mod 10"] by (simp add: dec_val_snoc)
  qed
qed

lemma bit_len_bound: "n < 2 ^ k \<Longrightarrow> bit_len n \<le> k"
proof (induction k arbitrary: n)
  case (Suc k)
  show ?case
  proof (cases "n = 0")
    case False
    then have "n div 2 < 2 ^ k" using Suc.prems by auto
    with Suc.IH False show ?thesis by (subst bit_len.simps) simp
  qed (simp add: bit_len.simps)
qed (simp add: bit_len.simps)

lemma round_double_nat:
  assumes "n < 2 ^ 53"
  shows "round_double (of_nat n) = Fin (of_nat n)"
proof (cases "n = 0")
  case False
  have q: "quotient_of (of_nat n :: rat) = (int n, 1)" using quotient_of_int [of "int n"] by (simp add: of_int_def)
  have "bit_len (nat 1) = 1" by (simp add: bit_len.simps [of "Suc 0"] bit_len.simps [of 0])
  then have "flog2 (of_nat n) \<le> 52"
    using bit_len_bound [OF assms] by (simp add: flog2_def q Let_def)
  then obtain k where u: "max (flog2 (of_nat n) - 52) (- 1074) = - int k"
    by (metis diff_le_0_iff_le max.bounded_iff neg_le_0_iff_le nonpos_int_cases of_nat_0_le_iff zle_int zero_le_numeral)
  have pow: "rat_pow 2 (- int k) = 1 / 2 ^ k" by (cases k) (simp_all add: rat_pow_def del: of_nat_Suc)
  have "of_nat n / rat_pow 2 (- int k) = of_int (int n * 2 ^ k)" by (simp add: pow)
  then have "of_int (round_half_even (of_nat n / rat_pow 2 (- int k))) * rat_pow 2 (- int k) = (of_nat n :: rat)"
    by (simp only: round_half_even_def floor_of_int Let_def) (simp add: pow)
  moreover have "(of_nat n :: rat) < 2 ^ 1024"
  proof -
    have "(of_nat n :: rat) < of_nat (2 ^ 53)" using assms by (simp only: of_nat_less_iff)
    also have "\<dots> \<le> 2 ^ 1024" by simp
    finally show ?thesis .
  qed
  ultimately show ?thesis using False u by (simp add: round_double_def Let_def rat_pow_def [of 2 1024])
qed (simp add: round_double_def)

lemma digit_shape: "is_digit c \<Longrightarrow> \<not> is_ws c \<and> c \<noteq> CHR ''-'' \<and> c \<noteq> CHR ''+'' \<and> c \<noteq> CHR ''I'' \<and> c \<noteq> CHR ''x'' \<and> c \<noteq> CHR ''X''
     \<and> c \<noteq> CHR ''o'' \<and> c \<noteq> CHR ''O'' \<and> c \<noteq> CHR ''b'' \<and> c \<noteq> CHR ''B'' \<and> c \<noteq> CHR ''.'' \<and> c \<noteq> CHR '':'' \<and> lower_char c = c"
  by (auto simp: is_digit_def is_ws_def lower_char_def is_upper_def code_def)

lemma trim_ends: "s \<noteq> [] \<Longrightarrow> \<not> is_ws (hd s) \<Longrightarrow> \<not> is_ws (last s) \<Longrightarrow> trim s = s"
proof -
  assume s: "s \<noteq> []" "\<not> is_ws (hd s)" "\<not> is_ws (last s)"
  then have "dropWhile is_ws s = s" by (cases s) auto
  moreover from s have "dropWhile is_ws (rev s) = rev s" by (cases s rule: rev_cases) auto
  ultimately show "trim s = s" by (simp add: trim_def)
qed

lemma str_to_num_show_nat:
  assumes "n < 2 ^ 53"
  shows "str_to_num (show_nat n) = Fin (of_nat n)"
proof -
  let ?s = "show_nat n"
  have digits: "list_all is_digit ?s" and val: "dec_val ?s = n" using dec_val_show_nat [of n] by blast+
  obtain c cs where s: "?s = c # cs" using show_nat_not_Nil by (cases ?s) auto
  have c: "is_digit c" "\<forall>d \<in> set cs. is_digit d" using digits s by (auto simp: list_all_iff)
  have "trim ?s = ?s"
    by (rule trim_ends) (use digits s digit_shape in \<open>auto simp: list_all_iff\<close>)
  moreover have "\<not> starts_with [CHR ''0'', x] ?s" if "\<not> is_digit x" for x
    using c that by (auto simp: s starts_with_def take_Suc split: list.splits)
      (cases cs; auto)
  moreover have "parse_decimal ?s = Some (of_nat n, [])"
  proof -
    have t: "takeWhile is_digit ?s = ?s" and d: "dropWhile is_digit ?s = []"
      using digits unfolding list_all_iff takeWhile_eq_all_conv dropWhile_eq_Nil_conv by simp_all
    show ?thesis unfolding parse_decimal_def Let_def t d by (simp add: parse_exp_def rat_pow_def val show_nat_not_Nil)
  qed
  moreover have "hd ?s \<noteq> CHR ''-''" "hd ?s \<noteq> CHR ''+''" "?s \<noteq> ''Infinity''"
    using c(1) digit_shape [of c] by (auto simp: s)
  moreover have "\<not> is_digit (CHR ''x'')" "\<not> is_digit (CHR ''X'')" "\<not> is_digit (CHR ''o'')" "\<not> is_digit (CHR ''O'')"
      "\<not> is_digit (CHR ''b'')" "\<not> is_digit (CHR ''B'')" by (simp_all add: is_digit_def)
  ultimately show ?thesis
    by (simp add: str_to_num_def Let_def show_nat_not_Nil signed_double_def round_double_nat [OF assms])
qed

text \<open>An IPv4 address is a 32-bit word; a block is the words that share a prefix.\<close>

definition dotted :: "nat \<Rightarrow> nat \<Rightarrow> nat \<Rightarrow> nat \<Rightarrow> string" where
  "dotted a b c d = join ''.'' [show_nat a, show_nat b, show_nat c, show_nat d]"

definition ipv4 :: "nat \<Rightarrow> nat \<Rightarrow> nat \<Rightarrow> nat \<Rightarrow> 32 word" where
  "ipv4 a b c d = word_of_nat (((a * 256 + b) * 256 + c) * 256 + d)"

definition in_block :: "32 word \<Rightarrow> 32 word \<times> nat \<Rightarrow> bool" where
  "in_block addr blk = (drop_bit (32 - snd blk) addr = drop_bit (32 - snd blk) (fst blk))"

definition blocked_blocks :: "(32 word \<times> nat) list" where
  "blocked_blocks = [(ipv4 0 0 0 0, 8), (ipv4 10 0 0 0, 8), (ipv4 127 0 0 0, 8), (ipv4 224 0 0 0, 3), (ipv4 169 254 0 0, 16),
     (ipv4 172 16 0 0, 12), (ipv4 192 168 0 0, 16), (ipv4 100 64 0 0, 10), (ipv4 198 18 0 0, 15)]"

lemma split_dotted: "split_on (CHR ''.'') (dotted a b c d) = [show_nat a, show_nat b, show_nat c, show_nat d]"
proof -
  have "CHR ''.'' \<notin> set (show_nat n)" for n
    using dec_val_show_nat [of n] digit_shape by (auto simp: list_all_iff)
  then show ?thesis unfolding dotted_def by (intro split_join) auto
qed

lemma dotted_plain: "to_lower (dotted a b c d) = dotted a b c d" "\<not> contains '':'' (dotted a b c d)"
proof -
  have digits: "x \<in> set (show_nat n) \<Longrightarrow> is_digit x" for x n
    using dec_val_show_nat [of n] by (auto simp: list_all_iff)
  have "x \<in> set (dotted a b c d) \<Longrightarrow> is_digit x \<or> x = CHR ''.''" for x
    using digits by (auto simp: dotted_def)
  moreover have "lower_char (CHR ''.'') = CHR ''.''" by (simp add: lower_char_def is_upper_def code_def)
  ultimately show "to_lower (dotted a b c d) = dotted a b c d" "\<not> contains '':'' (dotted a b c d)"
    using digit_shape by (auto simp: to_lower_def contains_sublist sublist_def intro!: map_idI) force+
qed

lemma octets:
  assumes "a < 256" "b < 256"
  shows "prohibitedAddress (dotted a b c d) \<longleftrightarrow>
     a = 0 \<or> a = 10 \<or> a = 127 \<or> 224 \<le> a \<or> a = 169 \<and> b = 254 \<or> a = 172 \<and> 16 \<le> b \<and> b \<le> 31 \<or> a = 192 \<and> b = 168
     \<or> a = 100 \<and> 64 \<le> b \<and> b \<le> 127 \<or> a = 198 \<and> (b = 18 \<or> b = 19)"
proof -
  have "octet [show_nat a, show_nat b, show_nat c, show_nat d] 0 = Fin (of_nat a)"
      "octet [show_nat a, show_nat b, show_nat c, show_nat d] 1 = Fin (of_nat b)"
    using assms by (simp_all add: octet_def str_to_num_show_nat)
  moreover have "num_strict_eq (Fin x) (Fin y) \<longleftrightarrow> x = y" for x y by (auto simp: num_strict_eq_def)
  ultimately show ?thesis
    unfolding prohibitedAddress_def dotted_plain(1) split_dotted Let_def
    by (simp add: dotted_plain(2))
qed

lemma ipv4_value: "((a * 256 + b) * 256 + c) * 256 + d = (a * 256 + b) * 2 ^ 16 + (c * 256 + d)" for a b c d :: nat
  by simp

lemma unat_ipv4:
  assumes "a < 256" "b < 256" "c < 256" "d < 256"
  shows "unat (ipv4 a b c d) = (a * 256 + b) * 2 ^ 16 + (c * 256 + d)"
proof -
  have small: "v < 2 ^ 32 \<Longrightarrow> unat (word_of_nat v :: 32 word) = v" for v by (simp add: unat_of_nat take_bit_nat_eq_self)
  have "(a * 256 + b) * 2 ^ 16 + (c * 256 + d) < 2 ^ 32" using assms by simp
  from small [OF this] show ?thesis unfolding ipv4_def ipv4_value .
qed

lemma in_block_div: "in_block w blk \<longleftrightarrow> unat w div 2 ^ (32 - snd blk) = unat (fst blk) div 2 ^ (32 - snd blk)"
  by (simp only: in_block_def word_unat_eq_iff unat_drop_bit_eq) (simp only: drop_bit_eq_div)

text \<open>Whether an address lies in a block of at most 16 prefix bits depends on its first two octets.\<close>

lemma prefix_quotient: "r < 2 ^ 16 \<Longrightarrow> (q * 2 ^ 16 + r) div 2 ^ (16 + k) = q div 2 ^ k" for q r k :: nat
proof -
  assume "r < 2 ^ 16"
  then have "(q * 2 ^ 16 + r) div 2 ^ 16 = q" by simp
  then show ?thesis by (simp only: power_add div_mult2_eq)
qed

lemma in_block_octets:
  assumes "a < 256" "b < 256" "c < 256" "d < 256" and "x < 256" "y < 256" and "k \<le> 16"
  shows "in_block (ipv4 a b c d) (ipv4 x y 0 0, 16 - k) \<longleftrightarrow> (a * 256 + b) div 2 ^ k = (x * 256 + y) div 2 ^ k"
proof -
  have "c * 256 + d < 2 ^ 16" "0 * 256 + 0 < (2 :: nat) ^ 16" using assms by simp_all
  moreover have "32 - (16 - k) = 16 + k" using assms(7) by simp
  moreover have "unat (ipv4 x y 0 0) = (x * 256 + y) * 2 ^ 16 + (0 * 256 + 0)" using assms by (intro unat_ipv4) simp_all
  ultimately show ?thesis
    unfolding in_block_div fst_conv snd_conv unat_ipv4 [OF assms(1-4)] by (simp only: prefix_quotient)
qed

lemma mixed_digits: "q < m \<Longrightarrow> v < m \<Longrightarrow> a * m + q = u * m + v \<longleftrightarrow> a = u \<and> q = v" for a m q u v :: nat
proof -
  assume "q < m" "v < m"
  then have "(a * m + q) div m = a" "(a * m + q) mod m = q" "(u * m + v) div m = u" "(u * m + v) mod m = v" by simp_all
  then show ?thesis by metis
qed

lemma high_block:
  assumes "a < 256" "b < 256" "c < 256" "d < 256" and "x < 256" and "k \<le> 8"
  shows "in_block (ipv4 a b c d) (ipv4 x 0 0 0, 8 - k) \<longleftrightarrow> a div 2 ^ k = x div 2 ^ k"
proof -
  have "(u * 256 + v) div 2 ^ (8 + k) = u div 2 ^ k" if "v < 256" for u v :: nat
    using that by (simp only: power_add div_mult2_eq) simp
  from this [of b a] this [of 0 x] in_block_octets [OF assms(1-5), of 0 "8 + k"] show ?thesis using assms(2,6) by simp
qed

lemma low_block:
  assumes "a < 256" "b < 256" "c < 256" "d < 256" and "x < 256" "y < 256" and "k \<le> 8"
  shows "in_block (ipv4 a b c d) (ipv4 x y 0 0, 16 - k) \<longleftrightarrow> a = x \<and> b div 2 ^ k = y div 2 ^ k"
proof -
  have m: "(256 :: nat) = 2 ^ (8 - k) * 2 ^ k" using assms(7) by (simp flip: power_add)
  then have quot: "(u * 256 + v) div 2 ^ k = u * 2 ^ (8 - k) + v div 2 ^ k" for u v :: nat
    by (simp only: mult.assoc [symmetric]) simp
  have "v div 2 ^ k < 2 ^ (8 - k)" if "v < 256" for v :: nat
    using that m by (simp add: less_mult_imp_div_less)
  then show ?thesis
    using in_block_octets [OF assms(1-6), of k] assms(2,6,7) by (simp only: quot mixed_digits)
qed

text \<open>C31: The address check is a firewall over address blocks. A dotted IPv4 address is refused exactly when the 32-bit
  address lies in one of nine blocks: the unspecified, private, loopback, link-local, shared (carrier-grade) and benchmark
  networks, and everything from the multicast range upwards.\<close>

theorem prohibited_iff_blocked:
  assumes "a < 256" "b < 256" "c < 256" "d < 256"
  shows "prohibitedAddress (dotted a b c d) \<longleftrightarrow> (\<exists>blk \<in> set blocked_blocks. in_block (ipv4 a b c d) blk)"
proof -
  note high = high_block [OF assms] and low = low_block [OF assms]
  have "in_block (ipv4 a b c d) (ipv4 0 0 0 0, 8) \<longleftrightarrow> a = 0" "in_block (ipv4 a b c d) (ipv4 10 0 0 0, 8) \<longleftrightarrow> a = 10"
      "in_block (ipv4 a b c d) (ipv4 127 0 0 0, 8) \<longleftrightarrow> a = 127"
    using high [of 0 0] high [of 10 0] high [of 127 0] by simp_all
  moreover have "in_block (ipv4 a b c d) (ipv4 224 0 0 0, 3) \<longleftrightarrow> a div 32 = 7" using high [of 224 5] by simp
  moreover have "in_block (ipv4 a b c d) (ipv4 169 254 0 0, 16) \<longleftrightarrow> a = 169 \<and> b = 254"
      "in_block (ipv4 a b c d) (ipv4 192 168 0 0, 16) \<longleftrightarrow> a = 192 \<and> b = 168"
    using low [of 169 254 0] low [of 192 168 0] by simp_all
  moreover have "in_block (ipv4 a b c d) (ipv4 172 16 0 0, 12) \<longleftrightarrow> a = 172 \<and> b div 16 = 1"
      "in_block (ipv4 a b c d) (ipv4 100 64 0 0, 10) \<longleftrightarrow> a = 100 \<and> b div 64 = 1"
      "in_block (ipv4 a b c d) (ipv4 198 18 0 0, 15) \<longleftrightarrow> a = 198 \<and> b div 2 = 9"
    using low [of 172 16 4] low [of 100 64 6] low [of 198 18 1] by simp_all
  moreover have "a div 32 = 7 \<longleftrightarrow> 224 \<le> a" "b div 16 = 1 \<longleftrightarrow> 16 \<le> b \<and> b \<le> 31" "b div 64 = 1 \<longleftrightarrow> 64 \<le> b \<and> b \<le> 127"
      "b div 2 = 9 \<longleftrightarrow> b = 18 \<or> b = 19"
    using assms(1) by linarith+
  ultimately show ?thesis unfolding octets [OF assms(1,2)] blocked_blocks_def list.set bex_simps by simp
qed

section \<open>Examples\<close>

definition example_stamp :: mail_stamp where
  "example_stamp = \<lparr>st_random = ''r1'', st_date = ''Thu, 01 Jan 1970 00:00:00 GMT'', st_boundary = ''b1''\<rparr>"

definition example_mail :: BuildMessageInput where
  "example_mail = \<lparr>bm_from = ''a@b'', bm_to = JStr ''c@d'', bm_cc = JUndef, bm_subject = Some ''Hi'', bm_text = Some ''.'', bm_html = None,
     bm_replyTo = JUndef, bm_messageId = None, bm_date = None\<rparr>"

lemma example_address: "trim ''a@b'' = ''a@b''" "trim ''c@d'' = ''c@d''" "address_spec (bareAddress ''a@b'')" "address_spec (bareAddress ''c@d'')"
  by (simp_all add: trim_def is_ws_def address_spec_def bareAddress_def addr_char_def code_def)

lemma example_valid: "validateHeaders (message_field example_mail) = Inr ()"
  using example_address
  by (simp add: validateHeaders_def message_field_def example_mail_def header_items_def plain_item_def header_break_def
      toAddressList_def opt_field_def CR_def LF_def code_def guard_def str_of_def)

theorem message_received_intact_witness:
  "\<exists>message. buildMessage example_stamp example_mail = Inr message \<and> receive_data (message @ CRLF @ ''.'' @ CRLF) =
     Some ((message_headers example_stamp example_mail @ fst (message_content example_stamp example_mail)) @ [] # [''.''], [])"
proof -
  obtain message where m: "buildMessage example_stamp example_mail = Inr message"
    unfolding buildMessage_def example_valid by (cases "message_content example_stamp example_mail") simp
  have "plain_stamp example_stamp" by (simp add: plain_stamp_def example_stamp_def CR_def LF_def)
  moreover have "split_lines ''.'' = [''.'']" by (simp add: split_lines_def LF_def)
  ultimately show ?thesis using m message_received_intact [OF m, of "[]" "''.''"] by (auto simp: example_mail_def)
qed

theorem prohibited_iff_blocked_witness:
  "prohibitedAddress (dotted 169 254 169 254) \<longleftrightarrow> (\<exists>blk \<in> set blocked_blocks. in_block (ipv4 169 254 169 254) blk)"
  by (rule prohibited_iff_blocked) simp_all

end
