(* ===== verification/MailSocket.thy ===== *)
theory MailSocket
  imports MailText Machine "HOL-Library.Sublist"
begin

text \<open>
  The reply buffer of the mail client: \<open>defaultConnect\<close> in \<open>runner/connectors/_shared/smtp.ts\<close> turns the callbacks of a
  socket into \<open>read()\<close> promises. The variables the callbacks share are the state; a run is any interleaving of
  incoming chunks, errors, the end of the connection, reads and the TLS upgrade. The theorem: the replies that reads get are the
  replies of the received text in order, however the text was cut into chunks; the buffer is bounded; no read is answered twice.
\<close>

section \<open>The reply buffer\<close>

text \<open>\<open>/^\\d{3} /\<close>: the last line of a reply.\<close>

definition final_line :: "string \<Rightarrow> bool" where
  "final_line l = (4 \<le> length l \<and> list_all is_digit (take 3 l) \<and> l ! 3 = CHR '' '')"

text \<open>The search of \<open>tryDeliver\<close> over the complete lines: the length of the text up to the final line.\<close>

fun consumed :: "nat \<Rightarrow> string list \<Rightarrow> nat option" where
  "consumed acc [] = None"
| "consumed acc (l # ls) = (if final_line l then Some (acc + length l + 2) else consumed (acc + length l + 2) ls)"

text \<open>A reply and the bytes that stay in the buffer; the CRLF at the end of the reply is dropped.\<close>

definition deliver :: "string \<Rightarrow> (string \<times> string) option" where
  "deliver buffer =
     (case consumed 0 (butlast (split_crlf buffer)) of
        None \<Rightarrow> None
      | Some n \<Rightarrow> Some (take (n - 2) buffer, drop n buffer))"


text \<open>The pending read: its resolve function is set; \<open>False\<close> when the promise was rejected and the function is still there.\<close>

record adapter =
  ad_buffer :: string
  ad_pending :: "bool option"
  ad_closed :: bool
  ad_error :: "thrown option"

datatype answer = Replied string | Rejected thrown | Ended

definition live :: "adapter \<Rightarrow> bool" where
  "live a = (ad_pending a = Some True)"

definition fresh_adapter :: adapter where
  "fresh_adapter = \<lparr>ad_buffer = [], ad_pending = None, ad_closed = False, ad_error = None\<rparr>"

definition reject_pending :: "adapter \<Rightarrow> thrown \<Rightarrow> answer list" where
  "reject_pending a e = (if live a then [Rejected e] else [])"

definition tryDeliver :: "adapter \<Rightarrow> adapter \<times> answer list" where
  "tryDeliver a =
     (if ad_pending a = None then (a, [])
      else case deliver (ad_buffer a) of
             None \<Rightarrow> (a, [])
           | Some (reply, rest) \<Rightarrow> (a\<lparr>ad_buffer := rest, ad_pending := None\<rparr>, if live a then [Replied reply] else []))"

text \<open>The handlers; \<open>decode\<close> is \<open>TextDecoder.decode\<close> of one chunk.\<close>

definition handler_data :: "(nat list \<Rightarrow> string) \<Rightarrow> nat list \<Rightarrow> adapter \<Rightarrow> adapter \<times> answer list" where
  "handler_data decode chunk a =
     (if 65536 < byte_length (ad_buffer a) + length chunk
      then (a\<lparr>ad_error := Some upstreamError, ad_pending := map_option (\<lambda>_. False) (ad_pending a)\<rparr>,
            reject_pending a upstreamError @ [Ended])
      else tryDeliver (a\<lparr>ad_buffer := ad_buffer a @ decode chunk\<rparr>))"

definition handler_error :: "thrown \<Rightarrow> adapter \<Rightarrow> adapter \<times> answer list" where
  "handler_error e a = (a\<lparr>ad_error := Some e, ad_pending := None\<rparr>, reject_pending a e)"

definition handler_close :: "adapter \<Rightarrow> adapter \<times> answer list" where
  "handler_close a =
     (a\<lparr>ad_closed := True, ad_pending := None\<rparr>,
      reject_pending a (case ad_error a of Some e \<Rightarrow> e | None \<Rightarrow> Error ''socket closed''))"

definition adapter_read :: "adapter \<Rightarrow> adapter \<times> answer list" where
  "adapter_read a =
     (case ad_error a of
        Some e \<Rightarrow> (a, [Rejected e])
      | None \<Rightarrow>
          if ad_closed a \<and> ad_buffer a = [] then (a, [Rejected (Error ''socket closed'')])
          else tryDeliver (a\<lparr>ad_pending := Some True\<rparr>))"

text \<open>Callbacks and calls; the upgrade replaces the socket below and keeps the variables.\<close>

datatype socket_event = Data "nat list" | Failed thrown | Hangup | Read | Upgrade

fun adapter_step :: "(nat list \<Rightarrow> string) \<Rightarrow> socket_event \<Rightarrow> adapter \<Rightarrow> adapter \<times> answer list" where
  "adapter_step decode (Data chunk) a = handler_data decode chunk a"
| "adapter_step decode (Failed e) a = handler_error e a"
| "adapter_step decode Hangup a = handler_close a"
| "adapter_step decode Read a = adapter_read a"
| "adapter_step decode Upgrade a = (a, [])"

section \<open>Replies of a text\<close>

lemma consumed_prefix:
  "consumed acc ls = Some n \<Longrightarrow> \<exists>us l vs. ls = us @ l # vs \<and> n = acc + length (concat (map (\<lambda>x. x @ CRLF) (us @ [l])))"
proof (induction acc ls rule: consumed.induct)
  case (2 acc l ls)
  show ?case
  proof (cases "final_line l")
    case True
    with 2 show ?thesis by (intro exI [of _ "[]"] exI [of _ l] exI [of _ ls]) (auto simp: CRLF_def)
  next
    case False
    with 2 obtain us m vs where "ls = us @ m # vs" "n = acc + length l + 2 + length (concat (map (\<lambda>x. x @ CRLF) (us @ [m])))" by auto
    then show ?thesis by (intro exI [of _ "l # us"] exI [of _ m] exI [of _ vs]) (auto simp: CRLF_def)
  qed
qed simp

lemma consumed_append: "consumed acc ls = Some n \<Longrightarrow> consumed acc (ls @ ms) = Some n"
  by (induction acc ls rule: consumed.induct) (auto split: if_splits)

lemma join_lines: "join CRLF (ls @ [l]) = concat (map (\<lambda>x. x @ CRLF) ls) @ l"
  by (induction ls) (simp_all add: join_Cons_ne)

lemma split_crlf_append: "\<exists>ls. ls \<noteq> [] \<and> split_crlf (s @ t) = butlast (split_crlf s) @ ls"
proof (induction s rule: split_crlf.induct)
  case (2 c cs)
  show ?case
  proof (cases "c = CR \<and> cs \<noteq> [] \<and> hd cs = LF")
    case True
    then obtain ds where "cs = LF # ds" by (cases cs) auto
    with 2(1) True show ?thesis by auto
  next
    case False
    obtain w ws where w: "split_crlf cs = w # ws" by (cases "split_crlf cs") auto
    show ?thesis
    proof (cases "ws = []")
      case True
      with False w show ?thesis by (intro exI [of _ "split_crlf (c # cs @ t)"]) (auto simp del: split_crlf.simps(2) simp: split_crlf.simps(2) [of c cs])
    next
      case ws: False
      with w 2(2) False obtain ls where ls: "ls \<noteq> []" "split_crlf (cs @ t) = w # butlast ws @ ls" by (auto split: if_splits)
      from ws w have "cs \<noteq> []" by auto
      then have "split_crlf (c # cs @ t) = (c # w) # butlast ws @ ls" "split_crlf (c # cs) = (c # w) # ws"
        using False ls(2) w by auto
      with ls(1) ws show ?thesis by auto
    qed
  qed
qed simp

lemma deliver_split: "deliver b = Some (r, rest) \<Longrightarrow> b = r @ CRLF @ rest"
proof -
  assume "deliver b = Some (r, rest)"
  then obtain n where n: "consumed 0 (butlast (split_crlf b)) = Some n" and r: "r = take (n - 2) b" "rest = drop n b"
    by (auto simp: deliver_def split: option.splits)
  from consumed_prefix [OF n] obtain us l vs where ls: "butlast (split_crlf b) = us @ l # vs"
      and len: "n = length (concat (map (\<lambda>x. x @ CRLF) (us @ [l])))" by auto
  have "b = join CRLF (butlast (split_crlf b) @ [last (split_crlf b)])" by (simp add: join_split_crlf)
  also have "\<dots> = (concat (map (\<lambda>x. x @ CRLF) us) @ l) @ CRLF @ concat (map (\<lambda>x. x @ CRLF) vs) @ last (split_crlf b)"
    unfolding join_lines ls by simp
  finally have b: "b = (concat (map (\<lambda>x. x @ CRLF) us) @ l) @ CRLF @ concat (map (\<lambda>x. x @ CRLF) vs) @ last (split_crlf b)" .
  let ?u = "concat (map (\<lambda>x. x @ CRLF) us) @ l" and ?v = "concat (map (\<lambda>x. x @ CRLF) vs) @ last (split_crlf b)"
  have n: "n = length ?u + 2" using len by (simp add: CRLF_def)
  have "take (n - 2) (?u @ CRLF @ ?v) = ?u" "drop n (?u @ CRLF @ ?v) = ?v" unfolding n by (simp_all add: CRLF_def)
  with r b show ?thesis by metis
qed

lemma deliver_append: "deliver b = Some (r, rest) \<Longrightarrow> deliver (b @ extra) = Some (r, rest @ extra)"
proof -
  assume d: "deliver b = Some (r, rest)"
  then obtain n where n: "consumed 0 (butlast (split_crlf b)) = Some n" and r: "r = take (n - 2) b" "rest = drop n b"
    by (auto simp: deliver_def split: option.splits)
  obtain ls where "ls \<noteq> []" "split_crlf (b @ extra) = butlast (split_crlf b) @ ls" using split_crlf_append by blast
  then have "consumed 0 (butlast (split_crlf (b @ extra))) = Some n" using consumed_append [OF n] by (simp add: butlast_append)
  moreover have "n \<le> length b"
  proof (rule ccontr)
    assume "\<not> n \<le> length b"
    with r have "length r = min (n - 2) (length b)" "length rest = 0" by simp_all
    moreover from deliver_split [OF d] have "length b = length r + 2 + length rest" by (simp add: CRLF_def)
    ultimately show False using \<open>\<not> n \<le> length b\<close> by linarith
  qed
  ultimately show ?thesis using r by (simp add: deliver_def)
qed

text \<open>The replies of a text: the specification of what reads get.\<close>

function replies :: "string \<Rightarrow> string list" where
  "replies s = (case deliver s of None \<Rightarrow> [] | Some (r, rest) \<Rightarrow> r # replies rest)"
  by auto
termination
  by (relation "measure length") (auto dest!: deliver_split simp: CRLF_def)

declare replies.simps [simp del]

text \<open>Replies taken off the front of a text, and what is left.\<close>

inductive taken :: "string list \<Rightarrow> string \<Rightarrow> string \<Rightarrow> bool" where
  none: "taken [] s s"
| some: "deliver s = Some (r, s') \<Longrightarrow> taken rs s' b \<Longrightarrow> taken (r # rs) s b"

lemma taken_append: "taken rs s b \<Longrightarrow> taken rs (s @ extra) (b @ extra)"
  by (induction rule: taken.induct) (auto intro: taken.intros deliver_append)

lemma taken_snoc: "taken rs s b \<Longrightarrow> deliver b = Some (r, b') \<Longrightarrow> taken (rs @ [r]) s b'"
  by (induction rule: taken.induct) (auto intro: taken.intros)

lemma taken_replies: "taken rs s b \<Longrightarrow> replies s = rs @ replies b"
  by (induction rule: taken.induct) (simp_all add: replies.simps [of s for s])

section \<open>Interleavings\<close>

text \<open>
  The state of a run: the variables, the text received and accepted so far, the answers given and the number of reads.
\<close>

record connection =
  cn_adapter :: adapter
  cn_received :: string
  cn_answers :: "answer list"
  cn_reads :: nat

fun accepted_text :: "(nat list \<Rightarrow> string) \<Rightarrow> adapter \<Rightarrow> socket_event \<Rightarrow> string" where
  "accepted_text decode a (Data chunk) = (if 65536 < byte_length (ad_buffer a) + length chunk then [] else decode chunk)"
| "accepted_text decode a _ = []"

text \<open>
  \<open>TextDecoder\<close> replaces a byte it cannot decode by a character of three bytes: a decoded chunk is at most three times as long.
\<close>

fun decodable :: "(nat list \<Rightarrow> string) \<Rightarrow> socket_event \<Rightarrow> bool" where
  "decodable decode (Data chunk) = (byte_length (decode chunk) \<le> 3 * length chunk)"
| "decodable decode _ = True"

inductive connection_step :: "(nat list \<Rightarrow> string) \<Rightarrow> connection \<Rightarrow> socket_event \<Rightarrow> connection \<Rightarrow> bool" for decode where
  callback: "adapter_step decode e (cn_adapter c) = (a, out) \<Longrightarrow> decodable decode e \<Longrightarrow>
     connection_step decode c e
       \<lparr>cn_adapter = a, cn_received = cn_received c @ accepted_text decode (cn_adapter c) e,
        cn_answers = cn_answers c @ out, cn_reads = cn_reads c + (if e = Read then 1 else 0)\<rparr>"

inductive_cases connection_stepE: "connection_step decode c e c'"

definition new_connection :: "connection \<Rightarrow> bool" where
  "new_connection c = (c = \<lparr>cn_adapter = fresh_adapter, cn_received = [], cn_answers = [], cn_reads = 0\<rparr>)"

fun replied :: "answer list \<Rightarrow> string list" where
  "replied [] = []"
| "replied (Replied r # as) = r # replied as"
| "replied (_ # as) = replied as"

definition settling :: "answer list \<Rightarrow> answer list" where
  "settling as = filter (\<lambda>x. x \<noteq> Ended) as"

lemma replied_append [simp]: "replied (as @ bs) = replied as @ replied bs"
  by (induction as rule: replied.induct) simp_all

text \<open>
  The invariant. The replies taken off the received text leave the buffer; the reads got the first of them, and all of them
  as long as there was no error; the buffer is bounded; every settled or waiting read was asked for.
\<close>

definition connection_ok :: "connection \<Rightarrow> bool" where
  "connection_ok c =
     ((\<exists>rs. taken rs (cn_received c) (ad_buffer (cn_adapter c)) \<and> prefix (replied (cn_answers c)) rs
         \<and> (ad_error (cn_adapter c) = None \<longrightarrow> replied (cn_answers c) = rs))
      \<and> (ad_error (cn_adapter c) = None \<longrightarrow> ad_pending (cn_adapter c) \<noteq> Some False)
      \<and> (ad_error (cn_adapter c) \<noteq> None \<longrightarrow> \<not> live (cn_adapter c))
      \<and> byte_length (ad_buffer (cn_adapter c)) \<le> 3 * 65536
      \<and> length (settling (cn_answers c)) + (if live (cn_adapter c) then 1 else 0) \<le> cn_reads c)"

lemma tryDeliverE:
  assumes "tryDeliver a = (a', out)"
  obtains "a' = a" and "out = []"
  | r rest where "deliver (ad_buffer a) = Some (r, rest)" and "ad_pending a \<noteq> None"
      and "a' = a\<lparr>ad_buffer := rest, ad_pending := None\<rparr>" and "out = (if live a then [Replied r] else [])"
  using assms by (auto simp: tryDeliver_def split: if_splits option.splits)

lemma deliver_keeps:
  assumes ok: "connection_ok \<lparr>cn_adapter = a, cn_received = s, cn_answers = as, cn_reads = n\<rparr>" and "tryDeliver a = (a', out)"
  shows "connection_ok \<lparr>cn_adapter = a', cn_received = s, cn_answers = as @ out, cn_reads = n\<rparr>"
  using assms(2)
proof (cases rule: tryDeliverE)
  case 1
  with ok show ?thesis by simp
next
  case (2 r rest)
  from ok obtain rs where rs: "taken rs s (ad_buffer a)" "prefix (replied as) rs" "ad_error a = None \<longrightarrow> replied as = rs"
      and small: "byte_length (ad_buffer a) \<le> 3 * 65536" by (auto simp: connection_ok_def)
  from ok 2(2) have waiting: "ad_error a = None \<longrightarrow> live a" "ad_error a \<noteq> None \<longrightarrow> \<not> live a"
      and count: "length (settling as) + (if live a then 1 else 0) \<le> n" by (auto simp: connection_ok_def live_def)
  have "byte_length rest \<le> byte_length (ad_buffer a)" using deliver_split [OF 2(1)] by simp
  with small have "byte_length rest \<le> 3 * 65536" by linarith
  moreover from rs waiting have "prefix (replied (as @ out)) (rs @ [r])" "ad_error a = None \<longrightarrow> replied (as @ out) = rs @ [r]"
    by (auto simp: 2(4))
  ultimately show ?thesis
    using taken_snoc [OF rs(1) 2(1)] waiting count unfolding connection_ok_def 2(3,4)
    by (auto simp: live_def settling_def intro!: exI [of _ "rs @ [r]"])
qed

lemma data_keeps:
  assumes decode: "decodable decode (Data chunk)"
    and ok: "connection_ok c" and "handler_data decode chunk (cn_adapter c) = (a, out)"
  shows "connection_ok \<lparr>cn_adapter = a, cn_received = cn_received c @ accepted_text decode (cn_adapter c) (Data chunk),
           cn_answers = cn_answers c @ out, cn_reads = cn_reads c\<rparr>"
proof (cases "65536 < byte_length (ad_buffer (cn_adapter c)) + length chunk")
  case True
  with ok assms(3) show ?thesis
    by (cases "ad_pending (cn_adapter c)") (auto simp: handler_data_def connection_ok_def live_def reject_pending_def settling_def)
next
  case False
  let ?a = "(cn_adapter c)\<lparr>ad_buffer := ad_buffer (cn_adapter c) @ decode chunk\<rparr>"
  have "byte_length (ad_buffer ?a) \<le> 3 * 65536" using False decode by simp
  moreover obtain rs where "taken rs (cn_received c) (ad_buffer (cn_adapter c))" "prefix (replied (cn_answers c)) rs"
      "ad_error (cn_adapter c) = None \<longrightarrow> replied (cn_answers c) = rs" using ok by (auto simp: connection_ok_def)
  ultimately have "connection_ok \<lparr>cn_adapter = ?a, cn_received = cn_received c @ decode chunk, cn_answers = cn_answers c, cn_reads = cn_reads c\<rparr>"
    using ok taken_append [of rs] unfolding connection_ok_def by (intro conjI exI [of _ rs]) (simp_all add: live_def)
  from deliver_keeps [OF this] assms(3) False show ?thesis by (simp add: handler_data_def)
qed

lemma read_keeps:
  assumes ok: "connection_ok c" and "adapter_read (cn_adapter c) = (a, out)"
  shows "connection_ok \<lparr>cn_adapter = a, cn_received = cn_received c, cn_answers = cn_answers c @ out, cn_reads = Suc (cn_reads c)\<rparr>"
proof (cases "ad_error (cn_adapter c) = None \<and> \<not> (ad_closed (cn_adapter c) \<and> ad_buffer (cn_adapter c) = [])")
  case True
  let ?a = "(cn_adapter c)\<lparr>ad_pending := Some True\<rparr>"
  have "connection_ok \<lparr>cn_adapter = ?a, cn_received = cn_received c, cn_answers = cn_answers c, cn_reads = Suc (cn_reads c)\<rparr>"
    using ok True by (auto simp: connection_ok_def live_def)
  from deliver_keeps [OF this] assms(2) True show ?thesis by (auto simp: adapter_read_def)
next
  case False
  then obtain e where "a = cn_adapter c" "out = [Rejected e]" using assms(2) by (auto simp: adapter_read_def split: option.splits)
  with ok show ?thesis by (auto simp: connection_ok_def settling_def)
qed

lemma connection_step_keeps:
  assumes "connection_step decode c e c'" and "connection_ok c"
  shows "connection_ok c'"
proof -
  from assms(1) obtain a out where call: "adapter_step decode e (cn_adapter c) = (a, out)" "decodable decode e"
      and c': "c' = \<lparr>cn_adapter = a, cn_received = cn_received c @ accepted_text decode (cn_adapter c) e,
        cn_answers = cn_answers c @ out, cn_reads = cn_reads c + (if e = Read then 1 else 0)\<rparr>" by (rule connection_stepE)
  show ?thesis
  proof (cases e)
    case (Data chunk)
    with call c' data_keeps [of decode chunk, OF _ assms(2)] show ?thesis by simp
  next
    case Read
    with call c' read_keeps [OF assms(2)] show ?thesis by simp
  next
    case (Failed x)
    with call c' assms(2) show ?thesis by (auto simp: handler_error_def connection_ok_def live_def reject_pending_def settling_def)
  next
    case Hangup
    with call c' assms(2) show ?thesis by (auto simp: handler_close_def connection_ok_def live_def reject_pending_def settling_def)
  next
    case Upgrade
    with call c' assms(2) show ?thesis by (auto simp: connection_ok_def)
  qed
qed

lemma new_connection_ok: "new_connection c \<Longrightarrow> connection_ok c"
  by (auto simp: new_connection_def connection_ok_def fresh_adapter_def live_def settling_def byte_length_def utf8_def intro: taken.none)

interpretation mail_buffer: guarded_machine new_connection "connection_step decode" connection_ok for decode
  by unfold_locales (auto intro: new_connection_ok connection_step_keeps)

text \<open>C30: Reads get the replies of the relay, however the bytes arrive. In every interleaving of chunks, errors, hang-ups, reads
  and TLS upgrades, the replies that were answered are the first replies of the received text in order; as long as there was
  no error, nothing but these replies has left the buffer. The buffer never holds more than three times 64 KiB, and
  there are no more answers than reads.\<close>

theorem reads_get_replies:
  assumes "new_connection c0" and "run (connection_step decode) c0 es c"
  shows "prefix (replied (cn_answers c)) (replies (cn_received c))
    \<and> (ad_error (cn_adapter c) = None \<longrightarrow> replies (cn_received c) = replied (cn_answers c) @ replies (ad_buffer (cn_adapter c)))
    \<and> byte_length (ad_buffer (cn_adapter c)) \<le> 3 * 65536
    \<and> length (settling (cn_answers c)) \<le> cn_reads c"
proof -
  have "connection_ok c" using mail_buffer.run_inv [OF assms(2)] new_connection_ok [OF assms(1)] .
  then obtain rs where "taken rs (cn_received c) (ad_buffer (cn_adapter c))" "prefix (replied (cn_answers c)) rs"
      "ad_error (cn_adapter c) = None \<longrightarrow> replied (cn_answers c) = rs"
      "byte_length (ad_buffer (cn_adapter c)) \<le> 3 * 65536" "length (settling (cn_answers c)) \<le> cn_reads c"
    by (auto simp: connection_ok_def)
  then show ?thesis using taken_replies by (auto simp: prefix_def)
qed

text \<open>A run from a list of events, and an example in which one reply arrives in two chunks together with the next one.\<close>

fun drive :: "(nat list \<Rightarrow> string) \<Rightarrow> connection \<Rightarrow> socket_event list \<Rightarrow> connection" where
  "drive decode c [] = c"
| "drive decode c (e # es) =
     drive decode \<lparr>cn_adapter = fst (adapter_step decode e (cn_adapter c)),
        cn_received = cn_received c @ accepted_text decode (cn_adapter c) e,
        cn_answers = cn_answers c @ snd (adapter_step decode e (cn_adapter c)), cn_reads = cn_reads c + (if e = Read then 1 else 0)\<rparr> es"

lemma drive_run: "list_all (decodable decode) es \<Longrightarrow> run (connection_step decode) c es (drive decode c es)"
proof (induction es arbitrary: c)
  case (Cons e es)
  have "connection_step decode c e
      \<lparr>cn_adapter = fst (adapter_step decode e (cn_adapter c)), cn_received = cn_received c @ accepted_text decode (cn_adapter c) e,
       cn_answers = cn_answers c @ snd (adapter_step decode e (cn_adapter c)), cn_reads = cn_reads c + (if e = Read then 1 else 0)\<rparr>"
    by (rule connection_step.callback) (use Cons in simp_all)
  with Cons show ?case by (auto intro: run_Cons)
qed (simp add: run.empty)

definition ascii_decode :: "nat list \<Rightarrow> string" where
  "ascii_decode = map char_of"

definition example_events :: "socket_event list" where
  "example_events = [Read, Data [50, 50], Data [48, 32, 103, 111, 13, 10, 50, 53, 48, 32, 111, 107, 13, 10], Upgrade, Read]"

definition example_start :: connection where
  "example_start = \<lparr>cn_adapter = fresh_adapter, cn_received = [], cn_answers = [], cn_reads = 0\<rparr>"

lemma ascii_decodable: "decodable ascii_decode e"
proof (cases e)
  case (Data chunk)
  have "byte_length (map char_of bs) \<le> 3 * length bs" for bs :: "nat list"
    by (induction bs) (auto simp: byte_length_def utf8_def)
  with Data show ?thesis by (simp add: ascii_decode_def)
qed simp_all

lemma example_text:
  "ascii_decode [50, 50] = ''22''"
  "ascii_decode [48, 32, 103, 111, 13, 10, 50, 53, 48, 32, 111, 107, 13, 10] = ''0 go'' @ CRLF @ ''250 ok'' @ CRLF"
  by (simp_all add: ascii_decode_def CRLF_def CR_def LF_def char_of_def bit_Suc_0_iff)

lemma example_deliver:
  "deliver [] = None" "deliver ''22'' = None" "deliver (''220 go'' @ CRLF @ ''250 ok'' @ CRLF) = Some (''220 go'', ''250 ok'' @ CRLF)"
  "deliver (''250 ok'' @ CRLF) = Some (''250 ok'', [])" "byte_length ''22'' = 2"
  by (simp_all add: deliver_def CRLF_def CR_def LF_def final_line_def is_digit_def byte_length_def utf8_def code_def)

lemma example_answers: "replied (cn_answers (drive ascii_decode example_start example_events)) = [''220 go'', ''250 ok'']"
  unfolding example_events_def example_start_def fresh_adapter_def
  using example_deliver(3,4)
  by (simp add: handler_data_def adapter_read_def tryDeliver_def live_def example_text example_deliver(1,2,5))
   (simp add: CRLF_def byte_length_def utf8_def)

text \<open>
  The upgrade keeps the buffer. A reply that an attacker appends in plain text to the answer to \<open>STARTTLS\<close> is still there
  after the handshake and answers the first read of the encrypted connection.
\<close>

lemma plaintext_reply_survives_upgrade:
  "deliver (ad_buffer a) = Some (r, rest) \<Longrightarrow> ad_error a = None \<Longrightarrow>
     snd (adapter_read (fst (adapter_step decode Upgrade a))) = [Replied r]"
  using deliver_split by (fastforce simp: adapter_read_def tryDeliver_def live_def CRLF_def)

text \<open>A read of a closed connection whose buffer holds the beginning of a reply is not answered.\<close>

lemma partial_reply_unanswered:
  "ad_buffer a \<noteq> [] \<Longrightarrow> deliver (ad_buffer a) = None \<Longrightarrow> ad_error a = None \<Longrightarrow> snd (adapter_read a) = []"
  by (simp add: adapter_read_def tryDeliver_def)

theorem reads_get_replies_witness:
  "prefix [''220 go'', ''250 ok''] (replies (cn_received (drive ascii_decode example_start example_events)))"
proof -
  have "new_connection example_start" by (simp add: new_connection_def example_start_def)
  moreover have "list_all (decodable ascii_decode) example_events" by (simp add: list_all_iff ascii_decodable)
  ultimately show ?thesis
    using reads_get_replies [OF _ drive_run, of example_start ascii_decode example_events] unfolding example_answers by blast
qed

end
