(* ===== verification/Smtp.thy ===== *)
theory Smtp
  imports MailText MailSocket Async Registry
begin

text \<open>
  The conversation of the mail client with a relay: \<open>sendSmtpEmail\<close>, \<open>verifySmtp\<close>, \<open>connectBounded\<close> and the connecting half of
  \<open>defaultConnect\<close> in \<open>runner/connectors/_shared/smtp.ts\<close>. The events of a conversation are the connection that is opened, the
  texts that are written, the calls of \<open>read\<close> and \<open>upgradeTls\<close>, the completed TLS handshake and the closing of the socket. The
  name lookup, the sockets of the runtime and what the relay answers are parameters; an answer may depend on everything that
  happened before. The theorems: nothing but the greeting is written before TLS, only a public address at a mail port is
  contacted, the conversation ends by its deadline with the socket closed, and a reported success means that the
  whole script ran, for exactly the recipients of the input.
\<close>

section \<open>Sockets\<close>

record SmtpConnectParams =
  cp_host :: string
  cp_port :: int
  cp_tls :: bool
  cp_signal :: abort_signal

datatype mail_event =
    Dialled string int "string option"
  | Wrote string
  | Reading
  | Got string
  | Upgrading
  | Secured
  | Closed

text \<open>The methods of a raw socket: what they return depends on the time and on the events so far.\<close>

record SmtpSocket =
  sk_write :: "time \<Rightarrow> mail_event list \<Rightarrow> unit promise"
  sk_read :: "time \<Rightarrow> mail_event list \<Rightarrow> string promise"
  sk_upgrade :: "(time \<Rightarrow> mail_event list \<Rightarrow> unit promise) option"

type_synonym 'a conversation = "(mail_event, 'a) traced"
type_synonym SmtpConnect = "SmtpConnectParams \<Rightarrow> SmtpSocket conversation"

record SendSmtpOptions =
  so_timeout :: "int option"
  so_signal :: "abort_signal option"

definition timed_out :: thrown where
  "timed_out = ThrownVal timeoutError"

definition isStructured :: "thrown \<Rightarrow> bool" where
  "isStructured err =
     ((case err of ErrorInst _ _ _ \<Rightarrow> True | ThrownVal v \<Rightarrow> is_record v)
      \<and> thrown_get err ''ok'' = JBool False \<and> (case thrown_get err ''code'' of JStr _ \<Rightarrow> True | _ \<Rightarrow> False))"

text \<open>
  The runtime below \<open>defaultConnect\<close>: \<open>lookup\<close> of \<open>node:dns\<close>, \<open>Bun.connect\<close> (None when there is no such function) and
  \<open>isIP\<close> of \<open>node:net\<close>.
\<close>

record mail_runtime =
  mr_lookup :: "string \<Rightarrow> time \<Rightarrow> string list promise"
  mr_connect :: "(string \<Rightarrow> int \<Rightarrow> string option \<Rightarrow> time \<Rightarrow> SmtpSocket promise) option"
  mr_isIP :: "string \<Rightarrow> nat"

definition throwIfAborted :: "abort_signal \<Rightarrow> 'a conversation \<Rightarrow> 'a conversation" where
  "throwIfAborted sig m now tr = (if aborted now sig then settled (Inl timed_out) now tr else m now tr)"

definition dial :: "(string \<Rightarrow> int \<Rightarrow> string option \<Rightarrow> time \<Rightarrow> SmtpSocket promise) \<Rightarrow> SmtpConnectParams \<Rightarrow> string \<Rightarrow> SmtpSocket conversation" where
  "dial bun_connect params address now tr =
     (let tls = (if cp_tls params then Some (cp_host params) else None)
      in (tr @ [Dialled address (cp_port params) tls], bun_connect address (cp_port params) tls now))"

definition defaultConnect :: "mail_runtime \<Rightarrow> SmtpConnect" where
  "defaultConnect rt params =
     (case mr_connect rt of
        None \<Rightarrow> settled (Inl unavailableError)
      | Some bun_connect \<Rightarrow>
          throwIfAborted (cp_signal params)
            (await_async (\<lambda>now tr. (tr, mr_lookup rt (cp_host params) now)) (\<lambda>addresses.
             throwIfAborted (cp_signal params)
               (if addresses = [] \<or> list_ex prohibitedAddress addresses then settled (Inl unavailableError)
                else catch_async (dial bun_connect params (hd addresses)) (\<lambda>_. settled (Inl unavailableError))))))"

section \<open>The bounded socket\<close>

text \<open>The replies that reads got and the completed handshake are events too.\<close>

definition received_now :: "string \<Rightarrow> string conversation" where
  "received_now reply now tr = (tr @ [Got reply], Settles now (Inr reply))"

definition secured_now :: "unit conversation" where
  "secured_now now tr = (tr @ [Secured], Settles now (Inr ()))"

text \<open>
  An operation of the bounded socket: rejected once the signal has fired, otherwise raced against it; when the signal
  wins, it has closed the raw socket.
\<close>

definition cut_off :: "abort_signal \<Rightarrow> 'a promise \<Rightarrow> bool" where
  "cut_off abort p = (case abort of None \<Rightarrow> False | Some a \<Rightarrow> (case p of Settles t _ \<Rightarrow> a \<le> t | Never \<Rightarrow> True))"

definition bounded :: "abort_signal \<Rightarrow> 'a conversation \<Rightarrow> 'a conversation" where
  "bounded abort operation now tr =
     (if aborted now abort then settled (Inl timed_out) now tr
      else case operation now tr of (tr', p) \<Rightarrow> (if cut_off abort p then tr' @ [Closed] else tr', race_abort abort p))"

record BoundedSocket =
  bs_raw :: SmtpSocket
  bs_abort :: abort_signal

definition socket_write :: "BoundedSocket \<Rightarrow> string \<Rightarrow> unit conversation" where
  "socket_write s data =
     bounded (bs_abort s) (\<lambda>now tr. (tr @ [Wrote data], sk_write (bs_raw s) now (tr @ [Wrote data])))"

definition socket_read :: "BoundedSocket \<Rightarrow> string conversation" where
  "socket_read s =
     await_async
       (bounded (bs_abort s)
         (await_async (\<lambda>now tr. (tr @ [Reading], sk_read (bs_raw s) now (tr @ [Reading]))) (\<lambda>reply.
          if 65536 < byte_length reply then settled (Inl upstreamError) else settled (Inr reply)))) received_now"

definition socket_upgradeTls :: "BoundedSocket \<Rightarrow> unit conversation option" where
  "socket_upgradeTls s =
     map_option (\<lambda>upgrade. await_async
         (bounded (bs_abort s) (\<lambda>now tr. (tr @ [Upgrading], upgrade now (tr @ [Upgrading])))) (\<lambda>_. secured_now))
       (sk_upgrade (bs_raw s))"

definition socket_close :: "unit conversation" where
  "socket_close now tr = (tr @ [Closed], Settles now (Inr ()))"

text \<open>The time at which the conversation is aborted: the deadline, or an earlier signal.\<close>

definition mail_deadline :: "ExecutionContext option \<Rightarrow> SendSmtpOptions \<Rightarrow> time \<Rightarrow> time" where
  "mail_deadline context opts now =
     (let own = now + (case so_timeout opts of Some t \<Rightarrow> t | None \<Rightarrow> 30000)
      in case context of Some c \<Rightarrow> min own (ctx_deadline c) | None \<Rightarrow> own)"

definition mail_signals :: "ExecutionContext option \<Rightarrow> SendSmtpOptions \<Rightarrow> abort_signal list" where
  "mail_signals context opts =
     (case so_signal opts of Some s \<Rightarrow> [s] | None \<Rightarrow> []) @ (case context of Some c \<Rightarrow> [ctx_signal c] | None \<Rightarrow> [])"

definition connectBounded :: "SmtpConnect \<Rightarrow> SmtpConnectParams \<Rightarrow> ExecutionContext option \<Rightarrow> SendSmtpOptions \<Rightarrow> BoundedSocket conversation" where
  "connectBounded connect params context opts now tr =
     (let deadline = mail_deadline context opts now; signals = mail_signals context opts in
      if deadline \<le> now \<or> list_ex (aborted now) signals then settled (Inl timed_out) now tr
      else
        let abort = earliest (Some (now + max 0 (deadline - now)) # signals) in
        case connect (params\<lparr>cp_signal := abort\<rparr>) now tr of
          (tr', p) \<Rightarrow>
            (if cut_off abort p \<and> (\<exists>t s. p = Settles t (Inr s)) then tr' @ [Closed] else tr',
             case race_abort abort p of
               Settles t (Inr s) \<Rightarrow> Settles t (Inr \<lparr>bs_raw = s, bs_abort = abort\<rparr>)
             | Settles t (Inl e) \<Rightarrow> Settles t (Inl e)
             | Never \<Rightarrow> Never))"

section \<open>The conversation\<close>

definition expect :: "BoundedSocket \<Rightarrow> thrown \<Rightarrow> string conversation" where
  "expect s errorOnFail =
     await_async (socket_read s) (\<lambda>reply.
       if 65536 < byte_length reply \<or> \<not> isPositive (replyCode reply) then settled (Inl errorOnFail) else settled (Inr reply))"

definition smtp_command :: "BoundedSocket \<Rightarrow> string \<Rightarrow> thrown \<Rightarrow> string conversation" where
  "smtp_command s line errorOnFail = await_async (socket_write s (line @ CRLF)) (\<lambda>_. expect s errorOnFail)"

text \<open>Greeting, \<open>EHLO\<close> and the upgrade; the answer is \<open>tlsActive\<close>.\<close>

definition smtp_opening :: "BoundedSocket \<Rightarrow> bool \<Rightarrow> thrown \<Rightarrow> bool conversation" where
  "smtp_opening s implicitTls greetingError =
     await_async (expect s greetingError) (\<lambda>_.
     await_async (smtp_command s ''EHLO appcall'' upstreamError) (\<lambda>ehloReply.
     case socket_upgradeTls s of
       Some upgradeTls \<Rightarrow>
         if \<not> implicitTls \<and> contains ''starttls'' (to_lower ehloReply)
         then await_async (smtp_command s ''STARTTLS'' upstreamError) (\<lambda>_.
              await_async upgradeTls (\<lambda>_.
              await_async (smtp_command s ''EHLO appcall'' upstreamError) (\<lambda>_. settled (Inr True))))
         else settled (Inr implicitTls)
     | None \<Rightarrow> settled (Inr implicitTls)))"

fun recipients_loop :: "BoundedSocket \<Rightarrow> string list \<Rightarrow> string list \<Rightarrow> string list conversation" where
  "recipients_loop s [] accepted = settled (Inr accepted)"
| "recipients_loop s (rcpt # rest) accepted =
     await_async (smtp_command s (''RCPT TO:<'' @ bareAddress rcpt @ ''>'') upstreamError) (\<lambda>_.
       recipients_loop s rest (accepted @ [bareAddress rcpt]))"

definition quit :: "BoundedSocket \<Rightarrow> unit conversation" where
  "quit s = catch_async (await_async (smtp_command s ''QUIT'' upstreamError) (\<lambda>_. settled (Inr ()))) (\<lambda>_. settled (Inr ()))"

definition unless_structured :: "thrown \<Rightarrow> thrown \<Rightarrow> thrown" where
  "unless_structured fallback err = (if isStructured err then err else fallback)"

text \<open>\<open>try { body } catch (err) { throw isStructured(err) ? err : upstreamError() } finally { close }\<close>.\<close>

definition finally_close :: "'a conversation \<Rightarrow> 'a conversation" where
  "finally_close body now tr =
     (case body now tr of
        (tr', Never) \<Rightarrow> (tr', Never)
      | (tr', Settles t r) \<Rightarrow> (fst (socket_close t tr'),
           Settles t (case r of Inl e \<Rightarrow> Inl (unless_structured upstreamError e) | Inr a \<Rightarrow> Inr a)))"

definition session :: "SmtpConnect \<Rightarrow> SmtpConnectParams \<Rightarrow> ExecutionContext option \<Rightarrow> SendSmtpOptions
    \<Rightarrow> (BoundedSocket \<Rightarrow> 'a conversation) \<Rightarrow> 'a conversation" where
  "session connect params context opts body =
     await_async (catch_async (connectBounded connect params context opts)
                    (\<lambda>err. settled (Inl (unless_structured unavailableError err)))) (\<lambda>s.
     finally_close (body s))"

definition mail_params :: "(string \<Rightarrow> nat) \<Rightarrow> jsval \<Rightarrow> SmtpConnectParams res" where
  "mail_params isIP input =
     (let host = str_of (get input ''smtpHost'') in
      sbind (validateDestination isIP host) (\<lambda>_.
      sbind (normalizePort (get input ''smtpPort'')) (\<lambda>prt.
      sbind (validateHeaders (get input)) (\<lambda>_.
      Inr \<lparr>cp_host = host, cp_port = prt, cp_tls = (get input ''smtpSecure'' = JBool True \<or> prt = 465), cp_signal = None\<rparr>))))"

definition recipients_of :: "jsval \<Rightarrow> string list" where
  "recipients_of input =
     dedupe (toAddressList (get input ''to'') @ toAddressList (get input ''cc'') @ toAddressList (get input ''bcc''))"

definition opt_string :: "jsval \<Rightarrow> string option" where
  "opt_string v = (case v of JStr s \<Rightarrow> Some s | _ \<Rightarrow> None)"

definition address_array :: "jsval \<Rightarrow> jsval" where
  "address_array v = JArr (map JStr (toAddressList v))"

definition mail_message :: "jsval \<Rightarrow> string \<Rightarrow> BuildMessageInput" where
  "mail_message input messageId =
     \<lparr>bm_from = str_of (get input ''from''), bm_to = address_array (get input ''to''), bm_cc = address_array (get input ''cc''),
      bm_subject = Some (str_of (get input ''subject'')), bm_text = opt_string (get input ''text''), bm_html = opt_string (get input ''html''),
      bm_replyTo = address_array (get input ''replyTo''), bm_messageId = Some messageId, bm_date = None\<rparr>"

record SmtpResult =
  sr_messageId :: string
  sr_accepted :: "string list"

definition auth_login :: "BoundedSocket \<Rightarrow> string \<Rightarrow> string \<Rightarrow> bool \<Rightarrow> unit conversation" where
  "auth_login s user secret tlsActive =
     (if user = [] then settled (Inr ())
      else if \<not> tlsActive then settled (Inl upstreamError)
      else await_async (smtp_command s ''AUTH LOGIN'' upstreamError) (\<lambda>_.
           await_async (smtp_command s (base64 user) upstreamError) (\<lambda>_.
           await_async (smtp_command s (base64 secret) upstreamError) (\<lambda>_. settled (Inr ())))))"

definition send_body :: "mail_stamp \<Rightarrow> jsval \<Rightarrow> bool \<Rightarrow> BoundedSocket \<Rightarrow> SmtpResult conversation" where
  "send_body stamp input implicitTls s =
     (let user = str_of (get input ''smtpUser''); secret = str_of (get input ''smtpPassword''); from = str_of (get input ''from'') in
      await_async (smtp_opening s implicitTls upstreamError) (\<lambda>tlsActive.
      await_async (auth_login s user secret tlsActive) (\<lambda>_.
      if \<not> tlsActive then settled (Inl upstreamError)
      else
        await_async (smtp_command s (''MAIL FROM:<'' @ bareAddress from @ ''>'') upstreamError) (\<lambda>_.
        await_async (recipients_loop s (recipients_of input) []) (\<lambda>accepted.
        await_async (smtp_command s ''DATA'' upstreamError) (\<lambda>_.
        let messageId = defaultMessageId stamp from in
        check_async (buildMessage stamp (mail_message input messageId)) (\<lambda>message.
        await_async (smtp_command s (message @ CRLF @ ''.'') upstreamError) (\<lambda>_.
        await_async (quit s) (\<lambda>_.
        settled (Inr \<lparr>sr_messageId = messageId, sr_accepted = accepted\<rparr>))))))))))"

definition sendSmtpEmail :: "(string \<Rightarrow> nat) \<Rightarrow> SmtpConnect \<Rightarrow> ExecutionContext option \<Rightarrow> mail_stamp \<Rightarrow> jsval \<Rightarrow> SendSmtpOptions
    \<Rightarrow> SmtpResult conversation" where
  "sendSmtpEmail isIP connect context stamp input opts =
     check_async (mail_params isIP input) (\<lambda>params.
     check_async (guard (str_of (get input ''from'') \<noteq> []) upstreamError) (\<lambda>_.
     check_async (guard (recipients_of input \<noteq> []) upstreamError) (\<lambda>_.
     session connect params context opts (send_body stamp input (cp_tls params)))))"

definition verify_login :: "BoundedSocket \<Rightarrow> string \<Rightarrow> string \<Rightarrow> bool \<Rightarrow> unit conversation" where
  "verify_login s user secret tlsActive =
     (if user = [] then settled (Inr ())
      else if \<not> tlsActive then settled (Inl upstreamError)
      else await_async (smtp_command s ''AUTH LOGIN'' upstreamError) (\<lambda>_.
           await_async (smtp_command s (base64 user) upstreamError) (\<lambda>_.
           await_async (socket_write s (base64 secret @ CRLF)) (\<lambda>_.
           await_async (socket_read s) (\<lambda>authReply.
           if replyCode authReply \<noteq> 235 then settled (Inl upstreamError) else settled (Inr ()))))))"

definition verify_body :: "jsval \<Rightarrow> bool \<Rightarrow> BoundedSocket \<Rightarrow> unit conversation" where
  "verify_body input implicitTls s =
     (let user = str_of (get input ''smtpUser''); secret = str_of (get input ''smtpPassword'') in
      await_async (smtp_opening s implicitTls unavailableError) (\<lambda>tlsActive.
      await_async (verify_login s user secret tlsActive) (\<lambda>_. quit s)))"

definition verifySmtp :: "(string \<Rightarrow> nat) \<Rightarrow> SmtpConnect \<Rightarrow> ExecutionContext option \<Rightarrow> jsval \<Rightarrow> SendSmtpOptions \<Rightarrow> unit conversation" where
  "verifySmtp isIP connect context input opts =
     check_async (mail_params isIP input) (\<lambda>params.
     session connect params context opts (verify_body input (cp_tls params)))"

section \<open>What may be written before TLS\<close>

definition public_line :: "string \<Rightarrow> bool" where
  "public_line line = (line \<in> {''EHLO appcall'' @ CRLF, ''STARTTLS'' @ CRLF, ''QUIT'' @ CRLF})"

fun tls_after :: "bool \<Rightarrow> mail_event list \<Rightarrow> bool" where
  "tls_after tls [] = tls"
| "tls_after tls (e # es) = tls_after (tls \<or> e = Secured \<or> (case e of Dialled _ _ (Some _) \<Rightarrow> True | _ \<Rightarrow> False)) es"

text \<open>Every text that is written without TLS is one of the public lines.\<close>

fun discreet :: "bool \<Rightarrow> mail_event list \<Rightarrow> bool" where
  "discreet tls [] = True"
| "discreet tls (e # es) =
     ((case e of Wrote line \<Rightarrow> tls \<or> public_line line | _ \<Rightarrow> True) \<and> discreet (tls_after tls [e]) es)"

lemma tls_after_append [simp]: "tls_after b (xs @ ys) = tls_after (tls_after b xs) ys"
  by (induction xs arbitrary: b) simp_all

lemma tls_after_mono: "b \<Longrightarrow> tls_after b es"
  by (induction es arbitrary: b) simp_all

lemma discreet_append [simp]: "discreet b (xs @ ys) \<longleftrightarrow> discreet b xs \<and> discreet (tls_after b xs) ys"
  by (induction xs arbitrary: b) auto

lemma discreet_mono: "discreet b es \<Longrightarrow> (b \<longrightarrow> c) \<Longrightarrow> discreet c es"
proof (induction es arbitrary: b c)
  case (Cons e es)
  have "tls_after b [e] \<longrightarrow> tls_after c [e]" using Cons.prems(2) by auto
  with Cons.IH [of "tls_after b [e]" "tls_after c [e]"] Cons.prems show ?case by (auto split: mail_event.splits)
qed simp

text \<open>
  The contract of a part of a conversation: starting with TLS or not, what it writes is discreet; if its result satisfies
  a predicate, TLS is on afterwards.
\<close>

definition tls_safe :: "bool \<Rightarrow> 'a conversation \<Rightarrow> ('a \<Rightarrow> bool) \<Rightarrow> bool" where
  "tls_safe b m Q =
     (\<forall>now tr. \<exists>es. fst (m now tr) = tr @ es \<and> discreet b es
        \<and> (\<forall>t a. snd (m now tr) = Settles t (Inr a) \<longrightarrow> Q a \<longrightarrow> tls_after b es))"

lemma tls_safeI:
  assumes "\<And>now tr. \<exists>es. fst (m now tr) = tr @ es \<and> discreet b es
        \<and> (\<forall>t a. snd (m now tr) = Settles t (Inr a) \<longrightarrow> Q a \<longrightarrow> tls_after b es)"
  shows "tls_safe b m Q"
  using assms by (simp add: tls_safe_def)

lemma tls_safeE:
  assumes "tls_safe b m Q" and "m now tr = (tr', p)"
  obtains es where "tr' = tr @ es" and "discreet b es" and "\<And>t a. p = Settles t (Inr a) \<Longrightarrow> Q a \<Longrightarrow> tls_after b es"
  using assms unfolding tls_safe_def by (metis fst_conv snd_conv)

lemma tls_safe_settled: "(\<And>a. r = Inr a \<Longrightarrow> Q a \<Longrightarrow> b) \<Longrightarrow> tls_safe b (settled r) Q"
  by (auto simp: tls_safe_def settled_def)

lemma tls_safe_await:
  assumes "tls_safe b m Q" and "\<And>a. tls_safe (b \<or> Q a) (f a) R"
  shows "tls_safe b (await_async m f) R"
proof (rule tls_safeI)
  fix now tr
  obtain tr1 p where m: "m now tr = (tr1, p)" by fastforce
  from assms(1) m obtain es where es: "tr1 = tr @ es" "discreet b es" "\<And>t a. p = Settles t (Inr a) \<Longrightarrow> Q a \<Longrightarrow> tls_after b es"
    by (rule tls_safeE) blast
  show "\<exists>es. fst (await_async m f now tr) = tr @ es \<and> discreet b es
        \<and> (\<forall>t a. snd (await_async m f now tr) = Settles t (Inr a) \<longrightarrow> R a \<longrightarrow> tls_after b es)"
  proof (cases "\<exists>t a. p = Settles t (Inr a)")
    case True
    then obtain t a where p: "p = Settles t (Inr a)" by blast
    obtain tr2 q where f: "f a t tr1 = (tr2, q)" by fastforce
    from assms(2) f obtain fs where fs: "tr2 = tr1 @ fs" "discreet (b \<or> Q a) fs"
        "\<And>t c. q = Settles t (Inr c) \<Longrightarrow> R c \<Longrightarrow> tls_after (b \<or> Q a) fs"
      by (rule tls_safeE) blast
    have on: "b \<or> Q a \<longrightarrow> tls_after b es" using es(3) [OF p] tls_after_mono by blast
    then have "discreet (tls_after b es) fs" using discreet_mono [OF fs(2)] by blast
    moreover have "tls_after (b \<or> Q a) fs \<longrightarrow> tls_after (tls_after b es) fs"
      using on tls_after_mono by (cases "tls_after b es") auto
    ultimately show ?thesis using m p f es(1,2) fs(1,3) by (auto simp: await_async_def intro!: exI [of _ "es @ fs"])
  next
    case False
    with m es show ?thesis by (auto simp: await_async_def split: promise.splits sum.splits)
  qed
qed

lemma tls_safe_catch:
  assumes "tls_safe b m Q" and "\<And>e. tls_safe b (h e) Q"
  shows "tls_safe b (catch_async m h) Q"
proof (rule tls_safeI)
  fix now tr
  obtain tr1 p where m: "m now tr = (tr1, p)" by fastforce
  from assms(1) m obtain es where es: "tr1 = tr @ es" "discreet b es" "\<And>t a. p = Settles t (Inr a) \<Longrightarrow> Q a \<Longrightarrow> tls_after b es"
    by (rule tls_safeE) blast
  show "\<exists>es. fst (catch_async m h now tr) = tr @ es \<and> discreet b es
        \<and> (\<forall>t a. snd (catch_async m h now tr) = Settles t (Inr a) \<longrightarrow> Q a \<longrightarrow> tls_after b es)"
  proof (cases "\<exists>t e. p = Settles t (Inl e)")
    case True
    then obtain t e where p: "p = Settles t (Inl e)" by blast
    obtain tr2 q where f: "h e t tr1 = (tr2, q)" by fastforce
    from assms(2) f obtain fs where fs: "tr2 = tr1 @ fs" "discreet b fs" "\<And>t c. q = Settles t (Inr c) \<Longrightarrow> Q c \<Longrightarrow> tls_after b fs"
      by (rule tls_safeE) blast
    have "discreet (tls_after b es) fs" using discreet_mono [OF fs(2)] tls_after_mono by blast
    moreover have "tls_after b fs \<longrightarrow> tls_after (tls_after b es) fs"
      using tls_after_mono by (cases b; cases "tls_after b es") auto
    ultimately show ?thesis using m p f es(1,2) fs(1,3) by (auto simp: catch_async_def intro!: exI [of _ "es @ fs"])
  next
    case False
    with m es show ?thesis by (auto simp: catch_async_def split: promise.splits sum.splits)
  qed
qed

lemma tls_safe_check: "(\<And>a. r = Inr a \<Longrightarrow> tls_safe b (f a) Q) \<Longrightarrow> tls_safe b (check_async r f) Q"
  by (cases r) (auto simp: check_async_def intro: tls_safe_settled)

lemma tls_safe_bounded:
  assumes "tls_safe b m (\<lambda>_. False)"
  shows "tls_safe b (bounded abort m) (\<lambda>_. False)"
proof (rule tls_safeI)
  fix now tr
  obtain tr1 p where m: "m now tr = (tr1, p)" by fastforce
  from assms m obtain es where "tr1 = tr @ es" "discreet b es" by (rule tls_safeE) blast
  with m show "\<exists>es. fst (bounded abort m now tr) = tr @ es \<and> discreet b es
        \<and> (\<forall>t a. snd (bounded abort m now tr) = Settles t (Inr a) \<longrightarrow> False \<longrightarrow> tls_after b es)"
    by (auto simp: bounded_def settled_def)
qed

lemma tls_safe_weaken: "tls_safe b m Q \<Longrightarrow> (\<And>a. R a \<Longrightarrow> Q a) \<Longrightarrow> tls_safe b m R"
  unfolding tls_safe_def by blast

lemma tls_safe_write: "b \<or> public_line data \<Longrightarrow> tls_safe b (socket_write s data) (\<lambda>_. False)"
  unfolding socket_write_def by (rule tls_safe_bounded) (auto simp: tls_safe_def)

lemma tls_safe_read: "tls_safe b (socket_read s) (\<lambda>_. False)"
  unfolding socket_read_def
  by (intro tls_safe_await [where Q = "\<lambda>_. False"] tls_safe_bounded)
    (auto simp: tls_safe_def settled_def received_now_def)

lemma tls_safe_upgrade:
  assumes "socket_upgradeTls s = Some up"
  shows "tls_safe b up (\<lambda>_. True)"
proof -
  obtain raw where "sk_upgrade (bs_raw s) = Some raw" and up: "up = await_async (bounded (bs_abort s) (\<lambda>now tr. (tr @ [Upgrading], raw now (tr @ [Upgrading])))) (\<lambda>_. secured_now)"
    using assms by (auto simp: socket_upgradeTls_def)
  have "tls_safe b (bounded (bs_abort s) (\<lambda>now tr. (tr @ [Upgrading], raw now (tr @ [Upgrading])))) (\<lambda>_. False)"
    by (rule tls_safe_bounded) (auto simp: tls_safe_def)
  moreover have "tls_safe c secured_now (\<lambda>_. True)" for c by (auto simp: tls_safe_def secured_now_def)
  ultimately show ?thesis unfolding up by (rule tls_safe_await)
qed

lemma tls_safe_expect: "tls_safe b (expect s err) (\<lambda>_. False)"
  unfolding expect_def by (rule tls_safe_await [OF tls_safe_read]) (simp add: tls_safe_settled)

lemma tls_safe_command: "b \<or> public_line (line @ CRLF) \<Longrightarrow> tls_safe b (smtp_command s line err) (\<lambda>_. False)"
  unfolding smtp_command_def by (rule tls_safe_await [OF tls_safe_write]) (simp_all add: tls_safe_expect)

lemma public_lines: "public_line (''EHLO appcall'' @ CRLF)" "public_line (''STARTTLS'' @ CRLF)" "public_line (''QUIT'' @ CRLF)"
  by (simp_all add: public_line_def)

text \<open>After the opening, \<open>tlsActive\<close> is the truth.\<close>

lemma tls_safe_opening: "tls_safe implicit (smtp_opening s implicit err) (\<lambda>tlsActive. tlsActive)"
proof -
  have ehlo: "tls_safe c (smtp_command s ''EHLO appcall'' upstreamError) (\<lambda>_. False)"
    and starttls: "tls_safe c (smtp_command s ''STARTTLS'' upstreamError) (\<lambda>_. False)" for c
    using tls_safe_command public_lines by blast+
  have "tls_safe implicit (await_async (smtp_command s ''STARTTLS'' upstreamError) (\<lambda>_. await_async up (\<lambda>_.
          await_async (smtp_command s ''EHLO appcall'' upstreamError) (\<lambda>_. settled (Inr True))))) (\<lambda>tlsActive. tlsActive)"
    if "socket_upgradeTls s = Some up" for up
    by (rule tls_safe_await [OF starttls], rule tls_safe_await [OF tls_safe_upgrade [OF that]], rule tls_safe_await [OF ehlo])
      (simp add: tls_safe_settled)
  then show ?thesis
    unfolding smtp_opening_def
    by (intro tls_safe_await [OF tls_safe_expect] tls_safe_await [OF ehlo]) (auto split: option.split intro: tls_safe_settled)
qed

lemma tls_safe_recipients: "tls_safe True (recipients_loop s rcpts accepted) (\<lambda>_. True)"
  by (induction s rcpts accepted rule: recipients_loop.induct)
    (auto intro: tls_safe_settled tls_safe_await [OF tls_safe_command])

lemma tls_safe_quit: "tls_safe b (quit s) (\<lambda>_. False)"
  unfolding quit_def
  by (intro tls_safe_catch tls_safe_await [OF tls_safe_command [OF disjI2 [OF public_lines(3)]]]) (auto intro: tls_safe_settled)

lemma tls_safe_auth: "tls_safe tls (auth_login s user secret tls) (\<lambda>_. False)"
  unfolding auth_login_def by (auto intro!: tls_safe_settled tls_safe_await [OF tls_safe_command])

lemma tls_safe_verify: "tls_safe tls (verify_login s user secret tls) (\<lambda>_. False)"
  unfolding verify_login_def
  by (auto intro!: tls_safe_settled tls_safe_await [OF tls_safe_command] tls_safe_await [OF tls_safe_write] tls_safe_await [OF tls_safe_read])

lemma tls_after_le: "tls_after b es \<Longrightarrow> (b \<longrightarrow> c) \<Longrightarrow> tls_after c es"
  using tls_after_mono by (cases b; cases c) auto

lemma tls_safe_mono:
  assumes "tls_safe b m Q" and "b \<longrightarrow> c"
  shows "tls_safe c m Q"
proof (rule tls_safeI)
  fix now tr
  obtain tr1 p where m: "m now tr = (tr1, p)" by fastforce
  from assms(1) m obtain es where es: "tr1 = tr @ es" "discreet b es" "\<And>t a. p = Settles t (Inr a) \<Longrightarrow> Q a \<Longrightarrow> tls_after b es"
    by (rule tls_safeE) blast
  show "\<exists>es. fst (m now tr) = tr @ es \<and> discreet c es
        \<and> (\<forall>t a. snd (m now tr) = Settles t (Inr a) \<longrightarrow> Q a \<longrightarrow> tls_after c es)"
    using m es(1,3) discreet_mono [OF es(2) assms(2)] tls_after_le [OF _ assms(2)] by auto
qed

lemma tls_safe_send: "tls_safe implicit (send_body stamp input implicit s) (\<lambda>_. False)"
proof -
  have body: "tls_safe True (await_async (smtp_command s line upstreamError) (\<lambda>_.
        await_async (recipients_loop s rcpts []) (\<lambda>accepted.
        await_async (smtp_command s ''DATA'' upstreamError) (\<lambda>_.
        check_async built (\<lambda>message.
        await_async (smtp_command s (message @ CRLF @ ''.'') upstreamError) (\<lambda>_.
        await_async (quit s) (\<lambda>_. settled (Inr \<lparr>sr_messageId = i, sr_accepted = accepted\<rparr>)))))))) (\<lambda>_. False)" for line rcpts built i
    by (intro tls_safe_await [OF tls_safe_command] tls_safe_await [OF tls_safe_mono [OF tls_safe_recipients]] tls_safe_check
        tls_safe_await [OF tls_safe_quit] tls_safe_settled) simp_all
  then show ?thesis
    unfolding send_body_def Let_def
    by (intro tls_safe_await [OF tls_safe_opening] tls_safe_await [OF tls_safe_mono [OF tls_safe_auth]])
      (auto intro: tls_safe_settled tls_safe_mono [OF body])
qed

lemma tls_safe_verify_body: "tls_safe implicit (verify_body input implicit s) (\<lambda>_. False)"
  unfolding verify_body_def Let_def
  by (intro tls_safe_await [OF tls_safe_opening] tls_safe_await [OF tls_safe_mono [OF tls_safe_verify]] tls_safe_quit) simp

section \<open>When a conversation ends\<close>

definition settles_by :: "time \<Rightarrow> 'a conversation \<Rightarrow> bool" where
  "settles_by a m = (\<forall>now tr. now \<le> a \<longrightarrow> (\<exists>t r. snd (m now tr) = Settles t r \<and> t \<le> a))"

lemma settles_by_settled: "settles_by a (settled r)"
  by (simp add: settles_by_def settled_def)

lemma settles_by_await: "settles_by a m \<Longrightarrow> (\<And>x. settles_by a (f x)) \<Longrightarrow> settles_by a (await_async m f)"
proof -
  assume m: "settles_by a m" and f: "\<And>x. settles_by a (f x)"
  have "\<exists>t r. snd (await_async m f now tr) = Settles t r \<and> t \<le> a" if "now \<le> a" for now tr
  proof -
    obtain tr1 p where p: "m now tr = (tr1, p)" by fastforce
    with m that obtain t r where t: "p = Settles t r" "t \<le> a" unfolding settles_by_def by (metis snd_conv)
    show ?thesis
    proof (cases r)
      case (Inr x)
      from f [of x] t(2) have "\<exists>u q. snd (f x t tr1) = Settles u q \<and> u \<le> a" unfolding settles_by_def by blast
      with p t Inr show ?thesis by (simp add: await_async_def)
    qed (use p t in \<open>simp add: await_async_def\<close>)
  qed
  then show ?thesis by (simp add: settles_by_def)
qed

lemma settles_by_catch: "settles_by a m \<Longrightarrow> (\<And>e. settles_by a (h e)) \<Longrightarrow> settles_by a (catch_async m h)"
proof -
  assume m: "settles_by a m" and h: "\<And>e. settles_by a (h e)"
  have "\<exists>t r. snd (catch_async m h now tr) = Settles t r \<and> t \<le> a" if "now \<le> a" for now tr
  proof -
    obtain tr1 p where p: "m now tr = (tr1, p)" by fastforce
    with m that obtain t r where t: "p = Settles t r" "t \<le> a" unfolding settles_by_def by (metis snd_conv)
    show ?thesis
    proof (cases r)
      case (Inl e)
      from h [of e] t(2) have "\<exists>u q. snd (h e t tr1) = Settles u q \<and> u \<le> a" unfolding settles_by_def by blast
      with p t Inl show ?thesis by (simp add: catch_async_def)
    qed (use p t in \<open>simp add: catch_async_def\<close>)
  qed
  then show ?thesis by (simp add: settles_by_def)
qed

lemma settles_by_check: "(\<And>x. settles_by a (f x)) \<Longrightarrow> settles_by a (check_async r f)"
  by (cases r) (auto simp: check_async_def settles_by_settled)

lemma settles_by_bounded: "settles_by a (bounded (Some a) m)"
proof -
  have "\<exists>t r. race_abort (Some a) p = Settles t r \<and> t \<le> a" for p using race_abort_settles [of a p] by blast
  then show ?thesis by (auto simp: settles_by_def bounded_def settled_def split: prod.split)
qed

lemma settles_by_socket:
  assumes "bs_abort s = Some a"
  shows "settles_by a (socket_write s data)" "settles_by a (socket_read s)" "socket_upgradeTls s = Some up \<Longrightarrow> settles_by a up"
  using assms settles_by_bounded [of a] unfolding socket_write_def socket_read_def
  by (auto simp: socket_upgradeTls_def intro!: settles_by_await) (simp_all add: settles_by_def secured_now_def received_now_def)

lemmas settles_by_rules = settles_by_settled settles_by_await settles_by_catch settles_by_check

lemma settles_by_expect: "bs_abort s = Some a \<Longrightarrow> settles_by a (expect s err)"
  unfolding expect_def by (rule settles_by_await [OF settles_by_socket(2)]) (simp_all add: settles_by_settled)

lemma settles_by_command: "bs_abort s = Some a \<Longrightarrow> settles_by a (smtp_command s line err)"
  unfolding smtp_command_def by (intro settles_by_await settles_by_socket settles_by_expect)

lemma settles_by_opening: "bs_abort s = Some a \<Longrightarrow> settles_by a (smtp_opening s implicit err)"
  unfolding smtp_opening_def
  by (auto intro!: settles_by_rules settles_by_expect settles_by_command split: option.split intro: settles_by_socket(3))

lemma settles_by_quit: "bs_abort s = Some a \<Longrightarrow> settles_by a (quit s)"
  unfolding quit_def by (intro settles_by_rules settles_by_command)

lemma settles_by_recipients: "bs_abort s = Some a \<Longrightarrow> settles_by a (recipients_loop s rcpts accepted)"
  by (induction s rcpts accepted rule: recipients_loop.induct) (auto intro: settles_by_rules settles_by_command)

lemma settles_by_send: "bs_abort s = Some a \<Longrightarrow> settles_by a (send_body stamp input implicit s)"
  unfolding send_body_def Let_def auth_login_def
  by (auto intro!: settles_by_rules settles_by_opening settles_by_command settles_by_recipients settles_by_quit)

lemma settles_by_verify: "bs_abort s = Some a \<Longrightarrow> settles_by a (verify_body input implicit s)"
  unfolding verify_body_def Let_def verify_login_def
  by (auto intro!: settles_by_rules settles_by_opening settles_by_command settles_by_socket(1,2) settles_by_quit)

section \<open>Who is contacted\<close>

definition is_dial :: "mail_event \<Rightarrow> bool" where
  "is_dial e = (case e of Dialled _ _ _ \<Rightarrow> True | _ \<Rightarrow> False)"

text \<open>A connection to a public address at the port that was asked for, with TLS for the host that was asked for or without.\<close>

definition dialled_safely :: "SmtpConnectParams \<Rightarrow> mail_event \<Rightarrow> bool" where
  "dialled_safely params e =
     (case e of
        Dialled address prt tls \<Rightarrow> \<not> prohibitedAddress address \<and> prt = cp_port params
          \<and> tls = (if cp_tls params then Some (cp_host params) else None)
      | _ \<Rightarrow> False)"

lemma dialled_any_signal [simp]: "dialled_safely (params\<lparr>cp_signal := sig\<rparr>) d = dialled_safely params d"
  by (cases d) (simp_all add: dialled_safely_def)

lemma defaultConnect_dials:
  assumes "defaultConnect rt params now tr = (tr', p)"
  obtains "tr' = tr" and "\<And>t s. p \<noteq> Settles t (Inr s)" | d where "tr' = tr @ [d]" and "dialled_safely params d"
proof (cases "mr_connect rt")
  case None
  with assms that(1) show thesis by (auto simp: defaultConnect_def settled_def)
next
  case (Some bun)
  show thesis
  proof (cases "mr_lookup rt (cp_host params) now")
    case (Settles t r)
    show thesis
    proof (cases "\<not> aborted now (cp_signal params) \<and> (\<exists>as. r = Inr as \<and> \<not> aborted t (cp_signal params) \<and> as \<noteq> [] \<and> \<not> list_ex prohibitedAddress as)")
      case True
      then obtain a as where r: "r = Inr (a # as)" "\<not> prohibitedAddress a" by (auto simp: neq_Nil_conv)
      let ?d = "Dialled a (cp_port params) (if cp_tls params then Some (cp_host params) else None)"
      from assms Some Settles True r have "tr' = tr @ [?d]"
        by (auto simp: defaultConnect_def throwIfAborted_def await_async_def catch_async_def dial_def settled_def Let_def
            split: promise.splits sum.splits)
      with that(2) [of ?d] r(2) show thesis by (simp add: dialled_safely_def)
    next
      case False
      with assms Some Settles have "tr' = tr \<and> (\<forall>t s. p \<noteq> Settles t (Inr s))"
        by (auto simp: defaultConnect_def throwIfAborted_def await_async_def settled_def split: sum.splits if_splits)
      with that(1) show thesis by blast
    qed
  next
    case Never
    with assms Some that(1) show thesis
      by (auto simp: defaultConnect_def throwIfAborted_def await_async_def settled_def split: if_splits)
  qed
qed

lemma dialled_tls: "dialled_safely params d \<Longrightarrow> tls_after b [d] \<longleftrightarrow> b \<or> cp_tls params" "dialled_safely params d \<Longrightarrow> discreet b [d]"
  by (auto simp: dialled_safely_def split: mail_event.splits)

text \<open>What \<open>connectBounded\<close> leaves behind: no connection, a connection that came too late and was closed, or a socket.\<close>

lemma connectBounded_cases:
  assumes "connectBounded (defaultConnect rt) params context opts now tr = (tr', p)"
  obtains t e es where "p = Settles t (Inl e)" and "t \<le> max now (mail_deadline context opts now)" and "tr' = tr @ es"
      and "es = [] \<or> (\<exists>d. dialled_safely params d \<and> (es = [d] \<or> es = [d, Closed]))"
  | t s d a where "p = Settles t (Inr s)" and "tr' = tr @ [d]" and "dialled_safely params d" and "bs_abort s = Some a"
      and "t \<le> a" and "a \<le> max now (mail_deadline context opts now)"
proof (cases "mail_deadline context opts now \<le> now \<or> list_ex (aborted now) (mail_signals context opts)")
  case True
  with assms that(1) [of now timed_out "[]"] show thesis by (auto simp: connectBounded_def settled_def Let_def)
next
  case False
  let ?limit = "now + max 0 (mail_deadline context opts now - now)"
  obtain a where a: "earliest (Some ?limit # mail_signals context opts) = Some a" "a \<le> ?limit"
    using earliest_Some [of ?limit "Some ?limit # mail_signals context opts"] by auto
  have limit: "a \<le> max now (mail_deadline context opts now)" using a(2) by simp
  obtain tr1 q where c: "defaultConnect rt (params\<lparr>cp_signal := Some a\<rparr>) now tr = (tr1, q)" by fastforce
  obtain u r where race: "race_abort (Some a) q = Settles u r" "u \<le> a" "r = Inl timed_out \<or> q = Settles u r"
    using race_abort_settles [of a q] by (auto simp: timed_out_def)
  have out: "tr' = (if cut_off (Some a) q \<and> (\<exists>t s. q = Settles t (Inr s)) then tr1 @ [Closed] else tr1)"
      "p = (case race_abort (Some a) q of Settles t (Inr s) \<Rightarrow> Settles t (Inr \<lparr>bs_raw = s, bs_abort = Some a\<rparr>)
             | Settles t (Inl e) \<Rightarrow> Settles t (Inl e) | Never \<Rightarrow> Never)"
    using assms False unfolding connectBounded_def Let_def a(1) by (simp_all add: c)
  show thesis
  proof (cases r)
    case (Inl e)
    from c have "\<exists>es. tr' = tr @ es \<and> (es = [] \<or> (\<exists>d. dialled_safely params d \<and> (es = [d] \<or> es = [d, Closed])))"
      by (rule defaultConnect_dials) (auto simp: out(1))
    then show thesis using that(1) [of u e] Inl race(1,2) limit out(2) by auto
  next
    case (Inr s)
    then have q: "q = Settles u (Inr s)" using race(3) by auto
    then have in_time: "\<not> cut_off (Some a) q" using race(1) Inr by (auto simp: race_abort_def cut_off_def split: if_splits)
    from c q obtain d where "tr1 = tr @ [d]" "dialled_safely params d"
      by (auto elim!: defaultConnect_dials)
    with that(2) [of u "\<lparr>bs_raw = s, bs_abort = Some a\<rparr>" d a] in_time out race(1,2) Inr limit show thesis by simp
  qed
qed

section \<open>Sessions\<close>

definition no_dial :: "mail_event \<Rightarrow> bool" where
  "no_dial e = (case e of Dialled _ _ _ \<Rightarrow> False | _ \<Rightarrow> True)"

lemma sends_only_bounded:
  assumes "sends_only P m" and "P Closed"
  shows "sends_only P (bounded abort m)"
proof -
  have "\<exists>rs. fst (bounded abort m now tr) = tr @ rs \<and> list_all P rs" for now tr
  proof -
    obtain tr1 p where run: "m now tr = (tr1, p)" by fastforce
    with sends_onlyD [OF assms(1)] obtain rs where rs: "tr1 = tr @ rs" "list_all P rs" by blast
    with assms(2) have "list_all P (rs @ [Closed])" by simp
    with run rs show ?thesis by (auto simp: bounded_def settled_def)
  qed
  then show ?thesis by (simp add: sends_only_def)
qed

lemma sends_only_event: "P e \<Longrightarrow> sends_only P (\<lambda>now tr. (tr @ [e], f now (tr @ [e])))"
  by (simp add: sends_only_def)

lemma sends_only_socket:
  assumes "\<And>e. (\<And>w. e \<noteq> Wrote w) \<Longrightarrow> \<not> is_dial e \<Longrightarrow> P e"
  shows "P (Wrote data) \<Longrightarrow> sends_only P (socket_write s data)" and "sends_only P (socket_read s)"
    and "socket_upgradeTls s = Some up \<Longrightarrow> sends_only P up"
proof -
  have quiet: "P Closed" "P Reading" "P (Got reply)" "P Upgrading" "P Secured" for reply by (simp_all add: assms is_dial_def)
  show "P (Wrote data) \<Longrightarrow> sends_only P (socket_write s data)"
    unfolding socket_write_def by (intro sends_only_bounded sends_only_event quiet)
  have "sends_only P (received_now reply)" for reply by (simp add: sends_only_def received_now_def quiet)
  then show "sends_only P (socket_read s)"
    unfolding socket_read_def by (auto intro!: sends_only_await sends_only_bounded sends_only_event quiet)
  have "sends_only P secured_now" by (simp add: sends_only_def secured_now_def quiet)
  then show "socket_upgradeTls s = Some up \<Longrightarrow> sends_only P up"
    by (auto simp: socket_upgradeTls_def intro!: sends_only_await sends_only_bounded sends_only_event quiet)
qed

lemma no_dial_socket:
  "sends_only no_dial (socket_write s data)" "sends_only no_dial (socket_read s)" "socket_upgradeTls s = Some up \<Longrightarrow> sends_only no_dial up"
  by (rule sends_only_socket; simp add: no_dial_def is_dial_def split: mail_event.splits)+

lemma no_dial_command: "sends_only no_dial (expect s err)" "sends_only no_dial (smtp_command s line err)"
  unfolding smtp_command_def expect_def by (auto intro!: sends_only_await no_dial_socket(1,2))

lemma no_dial_opening: "sends_only no_dial (smtp_opening s implicit err)"
  unfolding smtp_opening_def by (auto intro!: sends_only_await no_dial_command intro: no_dial_socket(3) split: option.split)

lemma no_dial_quit: "sends_only no_dial (quit s)"
  unfolding quit_def by (intro sends_only_catch sends_only_await no_dial_command sends_only_settled)

lemma no_dial_recipients: "sends_only no_dial (recipients_loop s rcpts accepted)"
  by (induction s rcpts accepted rule: recipients_loop.induct) (auto intro: no_dial_command)

lemma no_dial_send: "sends_only no_dial (send_body stamp input implicit s)"
  unfolding send_body_def Let_def auth_login_def
  by (auto intro!: sends_only_await sends_only_check no_dial_opening no_dial_command no_dial_recipients no_dial_quit)

lemma no_dial_verify: "sends_only no_dial (verify_body input implicit s)"
  unfolding verify_body_def Let_def verify_login_def
  by (auto intro!: sends_only_await no_dial_opening no_dial_command no_dial_socket(1,2) no_dial_quit)

text \<open>What a finished conversation looks like.\<close>

definition orderly :: "SmtpConnectParams \<Rightarrow> time \<Rightarrow> mail_event list \<Rightarrow> 'a promise \<Rightarrow> bool" where
  "orderly params limit tr p \<longleftrightarrow>
     discreet False tr
     \<and> (\<exists>ds es. tr = ds @ es \<and> length ds \<le> 1 \<and> list_all (dialled_safely params) ds \<and> list_all no_dial es)
     \<and> (\<exists>t r. p = Settles t r \<and> t \<le> limit \<and> (\<forall>e. r = Inl e \<longrightarrow> isStructured e))
     \<and> ((\<exists>line. Wrote line \<in> set tr) \<longrightarrow> last tr = Closed)"

lemma structured_errors: "isStructured upstreamError" "isStructured unavailableError" "isStructured (unless_structured upstreamError e)"
    "isStructured (unless_structured unavailableError e)"
proof -
  show up: "isStructured upstreamError" and down: "isStructured unavailableError"
    by (simp_all add: isStructured_def upstreamError_def unavailableError_def structured_def thrown_get_def get_def prop_get_def)
  then show "isStructured (unless_structured upstreamError e)" "isStructured (unless_structured unavailableError e)"
    by (simp_all add: unless_structured_def)
qed

text \<open>
  The contract between a session and what it runs on the socket: the body is discreet from the state of TLS that the
  connection has, opens no connection of its own and settles by the time at which the socket is aborted.
\<close>

locale mail_body =
  fixes body :: "bool \<Rightarrow> BoundedSocket \<Rightarrow> 'a conversation"
  assumes body_discreet: "tls_safe implicit (body implicit s) (\<lambda>_. False)"
    and body_no_dial: "sends_only no_dial (body implicit s)"
    and body_settles: "bs_abort s = Some a \<Longrightarrow> settles_by a (body implicit s)"
begin

lemma session_orderly:
  assumes "session (defaultConnect rt) params context opts (body (cp_tls params)) now [] = (tr, p)"
  shows "orderly params (max now (mail_deadline context opts now)) tr p"
proof -
  obtain tr1 q where c: "connectBounded (defaultConnect rt) params context opts now [] = (tr1, q)" by fastforce
  then show ?thesis
  proof (cases rule: connectBounded_cases)
    case (1 t e es)
    then have "tr = es" "p = Settles t (Inl (unless_structured unavailableError e))"
      using assms c by (auto simp: session_def await_async_def catch_async_def settled_def)
    moreover from 1(4) have "\<exists>ds fs. es = ds @ fs \<and> length ds \<le> 1 \<and> list_all (dialled_safely params) ds \<and> list_all no_dial fs \<and> discreet False es"
    proof (elim disjE exE conjE)
      fix d assume "dialled_safely params d" "es = [d, Closed]"
      then show ?thesis using dialled_tls(2) [of params d False] by (intro exI [of _ "[d]"] exI [of _ "[Closed]"]) (simp add: no_dial_def)
    next
      fix d assume "dialled_safely params d" "es = [d]"
      then show ?thesis using dialled_tls(2) [of params d False] by (intro exI [of _ "[d]"] exI [of _ "[]"]) simp
    qed simp
    moreover from 1(4) have "Wrote line \<notin> set es" for line by (auto simp: dialled_safely_def)
    ultimately show ?thesis using 1(2) structured_errors unfolding orderly_def by blast
  next
    case (2 t s d a)
    obtain tr2 r2 where b: "body (cp_tls params) s t tr1 = (tr2, r2)" by fastforce
    from body_settles [OF 2(4)] 2(5) b obtain u r where r: "r2 = Settles u r" "u \<le> a" unfolding settles_by_def by (metis snd_conv)
    from sends_onlyD [OF body_no_dial b] obtain es where es: "tr2 = tr1 @ es" "list_all no_dial es" by blast
    from tls_safeE [OF body_discreet b] es(1) have disc: "discreet (cp_tls params) es" by auto
    have tr: "tr = [d] @ es @ [Closed]" "p = Settles u (case r of Inl e \<Rightarrow> Inl (unless_structured upstreamError e) | Inr x \<Rightarrow> Inr x)"
      using assms c b r 2(1,2) es(1)
      by (auto simp: session_def await_async_def catch_async_def settled_def finally_close_def socket_close_def split: sum.splits)
    have "discreet (tls_after False [d]) es" using disc dialled_tls(1) [OF 2(3), of False] by simp
    then have "discreet False tr" using dialled_tls(2) [OF 2(3)] unfolding tr(1) discreet_append by simp
    moreover have "u \<le> max now (mail_deadline context opts now)" using r(2) 2(6) by simp
    moreover have "list_all no_dial (es @ [Closed])" using es(2) by (simp add: no_dial_def)
    moreover have "\<exists>ds fs. tr = ds @ fs \<and> length ds \<le> 1 \<and> list_all (dialled_safely params) ds \<and> list_all no_dial fs"
      using tr(1) 2(3) calculation(3) by (intro exI [of _ "[d]"] exI [of _ "es @ [Closed]"]) simp
    moreover have "last tr = Closed" by (simp add: tr(1))
    ultimately show ?thesis unfolding orderly_def using tr(2) structured_errors(3) by (auto split: sum.splits)
  qed
qed

end

interpretation sending: mail_body "send_body stamp input" for stamp input
  by unfold_locales (fact tls_safe_send, fact no_dial_send, rule settles_by_send)

interpretation verifying: mail_body "verify_body input" for input
  by unfold_locales (fact tls_safe_verify_body, fact no_dial_verify, rule settles_by_verify)

lemma mail_params_port: "mail_params isIP input = Inr params \<Longrightarrow> cp_port params \<in> {25, 465, 587, 2525}"
  by (auto simp: mail_params_def normalizePort_def Let_def res_simps split: option.splits if_splits)

lemma mail_params_error: "mail_params isIP input = Inl e \<Longrightarrow> e = upstreamError"
  by (auto simp: mail_params_def validateDestination_def normalizePort_def validateHeaders_def guard_def Let_def res_simps
      split: option.splits if_splits)


text \<open>Checking credentials is confined in the same way, and settles by its deadline with a structured error or success.\<close>

theorem verifySmtp_confined:
  "case verifySmtp (mr_isIP rt) (defaultConnect rt) context input opts now [] of (tr, p) \<Rightarrow>
     tr = [] \<and> p = Settles now (Inl upstreamError)
     \<or> (\<exists>params. mail_params (mr_isIP rt) input = Inr params \<and> cp_port params \<in> {25, 465, 587, 2525}
          \<and> orderly params (max now (mail_deadline context opts now)) tr p)"
proof (cases "mail_params (mr_isIP rt) input")
  case (Inl e)
  with mail_params_error show ?thesis by (auto simp: verifySmtp_def check_async_def settled_def)
next
  case (Inr params)
  with verifying.session_orderly mail_params_port [OF Inr] show ?thesis by (auto simp: verifySmtp_def check_async_def)
qed

section \<open>What a success means\<close>

text \<open>The dialogue: the texts written and the replies received.\<close>

definition dialogue :: "mail_event list \<Rightarrow> mail_event list" where
  "dialogue = filter (\<lambda>e. case e of Wrote _ \<Rightarrow> True | Got _ \<Rightarrow> True | _ \<Rightarrow> False)"

text \<open>The lines were written one after the other, each answered by a positive reply before the next.\<close>

fun answered :: "string list \<Rightarrow> mail_event list \<Rightarrow> bool" where
  "answered [] es = (es = [])"
| "answered (line # ls) (Wrote w # Got reply # es) = (w = line @ CRLF \<and> isPositive (replyCode reply) \<and> answered ls es)"
| "answered (line # ls) es = False"

definition only_quit :: "mail_event \<Rightarrow> bool" where
  "only_quit e = (case e of Wrote w \<Rightarrow> w = ''QUIT'' @ CRLF | _ \<Rightarrow> True)"

lemma dialogue_append [simp]: "dialogue (xs @ ys) = dialogue xs @ dialogue ys"
  by (simp add: dialogue_def)

lemma answered_append: "answered ls es \<Longrightarrow> answered ms fs \<Longrightarrow> answered (ls @ ms) (es @ fs)"
  by (induction ls es rule: answered.induct) auto

text \<open>The part that a successful computation adds to the dialogue.\<close>

definition scripted :: "'a conversation \<Rightarrow> ('a \<Rightarrow> mail_event list \<Rightarrow> bool) \<Rightarrow> bool" where
  "scripted m R = (\<forall>now tr tr' t a. m now tr = (tr', Settles t (Inr a)) \<longrightarrow> (\<exists>es. dialogue tr' = dialogue tr @ es \<and> R a es))"

lemma scriptedI:
  "(\<And>now tr tr' t a. m now tr = (tr', Settles t (Inr a)) \<Longrightarrow> \<exists>es. dialogue tr' = dialogue tr @ es \<and> R a es) \<Longrightarrow> scripted m R"
  by (simp add: scripted_def)

lemma scriptedE:
  assumes "scripted m R" and "m now tr = (tr', Settles t (Inr a))"
  obtains es where "dialogue tr' = dialogue tr @ es" and "R a es"
  using assms unfolding scripted_def by blast

lemma await_InrE:
  assumes "await_async m f now tr = (tr', Settles t (Inr b))"
  obtains tr1 u a where "m now tr = (tr1, Settles u (Inr a))" and "f a u tr1 = (tr', Settles t (Inr b))"
  using assms by (auto simp: await_async_def split: prod.splits promise.splits sum.splits)

lemma scripted_settled: "(\<And>a. r = Inr a \<Longrightarrow> R a []) \<Longrightarrow> scripted (settled r) R"
  by (auto simp: scripted_def settled_def)

lemma scripted_weaken: "scripted m R \<Longrightarrow> (\<And>a es. R a es \<Longrightarrow> S a es) \<Longrightarrow> scripted m S"
  unfolding scripted_def by meson

lemma scripted_await:
  assumes "scripted m R" and "\<And>a us. R a us \<Longrightarrow> scripted (f a) (\<lambda>b vs. T b (us @ vs))"
  shows "scripted (await_async m f) T"
proof (rule scriptedI)
  fix now tr tr' t b
  assume "await_async m f now tr = (tr', Settles t (Inr b))"
  then obtain tr1 u a where m: "m now tr = (tr1, Settles u (Inr a))" and f: "f a u tr1 = (tr', Settles t (Inr b))" by (rule await_InrE)
  from scriptedE [OF assms(1) m] obtain us where us: "dialogue tr1 = dialogue tr @ us" "R a us" .
  from scriptedE [OF assms(2) [OF us(2)] f] obtain vs where "dialogue tr' = dialogue tr1 @ vs" "T b (us @ vs)" .
  with us(1) show "\<exists>es. dialogue tr' = dialogue tr @ es \<and> T b es" by simp
qed

lemma scripted_check: "(\<And>a. r = Inr a \<Longrightarrow> scripted (f a) T) \<Longrightarrow> scripted (check_async r f) T"
  by (cases r) (auto simp: check_async_def intro: scripted_settled)

lemma bounded_Inr: "bounded abort m now tr = (tr', Settles t (Inr a)) \<Longrightarrow> m now tr = (tr', Settles t (Inr a))"
proof -
  have "cut_off abort p = False \<and> p = Settles t (Inr a)" if "race_abort abort p = Settles t (Inr a)" for p
    using that by (auto simp: race_abort_def cut_off_def split: option.splits promise.splits if_splits)
  then show "bounded abort m now tr = (tr', Settles t (Inr a)) \<Longrightarrow> m now tr = (tr', Settles t (Inr a))"
    by (auto simp: bounded_def settled_def split: prod.splits if_splits)
qed

lemma scripted_bounded: "scripted m R \<Longrightarrow> scripted (bounded abort m) R"
  unfolding scripted_def using bounded_Inr by metis

lemma scripted_write: "scripted (socket_write s data) (\<lambda>_ es. es = [Wrote data])"
  unfolding socket_write_def by (rule scripted_bounded) (simp add: scripted_def dialogue_def)

lemma scripted_read: "scripted (socket_read s) (\<lambda>reply es. es = [Got reply])"
proof -
  have "scripted (bounded (bs_abort s) (await_async (\<lambda>now tr. (tr @ [Reading], sk_read (bs_raw s) now (tr @ [Reading]))) (\<lambda>reply.
      if 65536 < byte_length reply then settled (Inl upstreamError) else settled (Inr reply)))) (\<lambda>_ es. es = [])"
    by (rule scripted_bounded, rule scripted_await [where R = "\<lambda>_ es. es = []"]) (auto simp: scripted_def dialogue_def settled_def)
  then show ?thesis
    unfolding socket_read_def by (rule scripted_await) (simp add: scripted_def received_now_def dialogue_def)
qed

lemma scripted_expect: "scripted (expect s err) (\<lambda>reply es. es = [Got reply] \<and> isPositive (replyCode reply))"
  unfolding expect_def by (rule scripted_await [OF scripted_read]) (auto intro: scripted_settled)

lemma scripted_command: "scripted (smtp_command s line err) (\<lambda>_ es. answered [line] es)"
  unfolding smtp_command_def
  by (rule scripted_await [OF scripted_write], simp only: append.simps, rule scripted_weaken [OF scripted_expect]) simp

definition opening_lines :: "bool \<Rightarrow> string list" where
  "opening_lines upgraded = (if upgraded then [''EHLO appcall'', ''STARTTLS'', ''EHLO appcall''] else [''EHLO appcall''])"

definition login_lines :: "string \<Rightarrow> string \<Rightarrow> string list" where
  "login_lines user secret = (if user = [] then [] else [''AUTH LOGIN'', base64 user, base64 secret])"

definition rcpt_line :: "string \<Rightarrow> string" where
  "rcpt_line rcpt = ''RCPT TO:<'' @ bareAddress rcpt @ ''>''"

text \<open>The lines of a conversation that sends a message.\<close>

definition mail_script :: "bool \<Rightarrow> jsval \<Rightarrow> string \<Rightarrow> string list" where
  "mail_script upgraded input message =
     opening_lines upgraded @ login_lines (str_of (get input ''smtpUser'')) (str_of (get input ''smtpPassword''))
     @ [''MAIL FROM:<'' @ bareAddress (str_of (get input ''from'')) @ ''>''] @ map rcpt_line (recipients_of input)
     @ [''DATA'', message @ CRLF @ ''.'']"

lemma scripted_opening:
  "scripted (smtp_opening s implicit err)
     (\<lambda>tls es. \<exists>g fs. es = Got g # fs \<and> isPositive (replyCode g) \<and> answered (opening_lines (tls \<and> \<not> implicit)) fs \<and> (implicit \<longrightarrow> tls))"
proof -
  let ?R = "\<lambda>tls es. \<exists>g fs. es = Got g # fs \<and> isPositive (replyCode g) \<and> answered (opening_lines (tls \<and> \<not> implicit)) fs \<and> (implicit \<longrightarrow> tls)"
  have up: "scripted u (\<lambda>_ es. es = [])" if "socket_upgradeTls s = Some u" for u
  proof -
    have "scripted (bounded (bs_abort s) (\<lambda>now tr. (tr @ [Upgrading], raw now (tr @ [Upgrading])))) (\<lambda>_ es. es = [])" for raw :: "time \<Rightarrow> mail_event list \<Rightarrow> unit promise"
      by (rule scripted_bounded) (simp add: scripted_def dialogue_def)
    moreover have "scripted secured_now (\<lambda>_ es. es = [])" by (simp add: scripted_def secured_now_def dialogue_def)
    ultimately show ?thesis using that by (auto simp: socket_upgradeTls_def intro!: scripted_await)
  qed
  have upgrading: "scripted (await_async (smtp_command s ''STARTTLS'' upstreamError) (\<lambda>_. await_async u (\<lambda>_.
          await_async (smtp_command s ''EHLO appcall'' upstreamError) (\<lambda>_. settled (Inr True))))) (\<lambda>tls vs. ?R tls ([Got g] @ es @ vs))"
    if "socket_upgradeTls s = Some u" "isPositive (replyCode g)" "answered [''EHLO appcall''] es" "\<not> implicit" for u g es
  proof (rule scripted_await [OF scripted_command], rule scripted_await [OF up [OF that(1)]], rule scripted_await [OF scripted_command],
      rule scripted_settled)
    fix us vs ws :: "mail_event list" and b
    assume "answered [''STARTTLS''] us" "vs = []" "answered [''EHLO appcall''] ws" "(Inr True :: bool res) = Inr b"
    then show "?R b ([Got g] @ es @ us @ vs @ ws @ [])"
      using that answered_append [OF that(3) answered_append, of "[''STARTTLS'']" us "[''EHLO appcall'']" ws] by (simp add: opening_lines_def)
  qed
  show ?thesis
    unfolding smtp_opening_def
  proof (rule scripted_await [OF scripted_expect], rule scripted_await [OF scripted_command])
    fix g us reply es
    assume g: "us = [Got g] \<and> isPositive (replyCode g)" and es: "answered [''EHLO appcall''] es"
    have stay: "scripted (settled (Inr implicit)) (\<lambda>tls vs. ?R tls ([Got g] @ es @ vs))"
      by (rule scripted_settled) (use g es in \<open>simp add: opening_lines_def\<close>)
    show "scripted (case socket_upgradeTls s of
        Some upgradeTls \<Rightarrow> if \<not> implicit \<and> contains ''starttls'' (to_lower reply)
          then await_async (smtp_command s ''STARTTLS'' upstreamError) (\<lambda>_. await_async upgradeTls (\<lambda>_.
               await_async (smtp_command s ''EHLO appcall'' upstreamError) (\<lambda>_. settled (Inr True)))) else settled (Inr implicit)
      | None \<Rightarrow> settled (Inr implicit)) (\<lambda>tls vs. ?R tls (us @ es @ vs))"
    proof (cases "socket_upgradeTls s")
      case (Some u)
      then show ?thesis using upgrading [OF Some conjunct2 [OF g] es] stay g by (auto simp del: append.simps)
    qed (use stay g in \<open>auto simp del: append.simps\<close>)
  qed
qed

lemma scripted_recipients:
  "scripted (recipients_loop s rcpts accepted) (\<lambda>result es. result = accepted @ map bareAddress rcpts \<and> answered (map rcpt_line rcpts) es)"
proof (induction s rcpts accepted rule: recipients_loop.induct)
  case (2 s rcpt rest accepted)
  show ?case
    unfolding recipients_loop.simps
    by (rule scripted_await [OF scripted_command], rule scripted_weaken [OF 2])
      (auto simp: rcpt_line_def dest: answered_append)
qed (auto intro: scripted_settled)

lemma scripted_auth: "scripted (auth_login s user secret tls) (\<lambda>_ es. answered (login_lines user secret) es)"
proof -
  have "scripted (await_async (smtp_command s a e) (\<lambda>_. await_async (smtp_command s b e) (\<lambda>_. await_async (smtp_command s c e) (\<lambda>_. settled (Inr ())))))
      (\<lambda>_ es. answered [a, b, c] es)" for a b c e
    by (rule scripted_await [OF scripted_command])+
      (auto intro!: scripted_settled dest!: answered_append [of "[b]" _ "[c]"] answered_append [of "[a]" _ "[b, c]"])
  then show ?thesis by (auto simp: auth_login_def login_lines_def intro!: scripted_settled)
qed

lemma scripted_quit: "scripted (quit s) (\<lambda>_ es. list_all only_quit es)"
proof (rule scriptedI)
  fix now tr tr' t and a :: unit
  assume q: "quit s now tr = (tr', Settles t (Inr a))"
  have "sends_only only_quit (socket_read s)" "sends_only only_quit (socket_write s (''QUIT'' @ CRLF))"
    by (rule sends_only_socket; simp add: only_quit_def split: mail_event.splits)+
  then have "sends_only only_quit (quit s)"
    unfolding quit_def smtp_command_def expect_def by (auto intro!: sends_only_catch sends_only_await)
  from sends_onlyD [OF this q] show "\<exists>es. dialogue tr' = dialogue tr @ es \<and> list_all only_quit es"
    by (auto simp: dialogue_def list_all_iff)
qed

lemma scripted_send:
  "scripted (send_body stamp input implicit s)
     (\<lambda>result es. \<exists>g fs qs message. es = Got g # fs @ qs \<and> isPositive (replyCode g)
        \<and> buildMessage stamp (mail_message input (sr_messageId result)) = Inr message
        \<and> answered (mail_script (\<not> implicit) input message) fs \<and> list_all only_quit qs
        \<and> sr_accepted result = map bareAddress (recipients_of input))"
    (is "scripted _ ?R")
  unfolding send_body_def Let_def
proof (rule scripted_await [OF scripted_opening], rule scripted_await [OF scripted_auth])
  let ?user = "str_of (get input ''smtpUser'')" and ?secret = "str_of (get input ''smtpPassword'')" and ?from = "str_of (get input ''from'')"
  fix tls and us as :: "mail_event list"
  assume "\<exists>g fs. us = Got g # fs \<and> isPositive (replyCode g) \<and> answered (opening_lines (tls \<and> \<not> implicit)) fs \<and> (implicit \<longrightarrow> tls)"
  then obtain g fs where us: "us = Got g # fs" "isPositive (replyCode g)" "answered (opening_lines (tls \<and> \<not> implicit)) fs" by blast
  assume as: "answered (login_lines ?user ?secret) as"
  show "scripted (if \<not> tls then settled (Inl upstreamError)
      else await_async (smtp_command s (''MAIL FROM:<'' @ bareAddress ?from @ ''>'') upstreamError) (\<lambda>_.
        await_async (recipients_loop s (recipients_of input) []) (\<lambda>accepted.
        await_async (smtp_command s ''DATA'' upstreamError) (\<lambda>_.
        check_async (buildMessage stamp (mail_message input (defaultMessageId stamp ?from))) (\<lambda>message.
        await_async (smtp_command s (message @ CRLF @ ''.'') upstreamError) (\<lambda>_.
        await_async (quit s) (\<lambda>_.
        settled (Inr \<lparr>sr_messageId = defaultMessageId stamp ?from, sr_accepted = accepted\<rparr>))))))))
      (\<lambda>b vs. ?R b (us @ as @ vs))"
  proof (cases tls)
    case True
    have "scripted (await_async (smtp_command s (''MAIL FROM:<'' @ bareAddress ?from @ ''>'') upstreamError) (\<lambda>_.
        await_async (recipients_loop s (recipients_of input) []) (\<lambda>accepted.
        await_async (smtp_command s ''DATA'' upstreamError) (\<lambda>_.
        check_async (buildMessage stamp (mail_message input (defaultMessageId stamp ?from))) (\<lambda>message.
        await_async (smtp_command s (message @ CRLF @ ''.'') upstreamError) (\<lambda>_.
        await_async (quit s) (\<lambda>_.
        settled (Inr \<lparr>sr_messageId = defaultMessageId stamp ?from, sr_accepted = accepted\<rparr>)))))))) (\<lambda>b vs. ?R b (us @ as @ vs))"
    proof (rule scripted_await [OF scripted_command], rule scripted_await [OF scripted_recipients], rule scripted_await [OF scripted_command],
        rule scripted_check, rule scripted_await [OF scripted_command], rule scripted_await [OF scripted_quit], rule scripted_settled)
      fix ms rs ds xs qs accepted message b
      assume "answered [''MAIL FROM:<'' @ bareAddress ?from @ ''>''] ms"
        and "accepted = [] @ map bareAddress (recipients_of input) \<and> answered (map rcpt_line (recipients_of input)) rs"
        and "answered [''DATA''] ds" and "answered [message @ CRLF @ ''.''] xs"
        and "buildMessage stamp (mail_message input (defaultMessageId stamp ?from)) = Inr message" and "list_all only_quit qs"
        and "(Inr \<lparr>sr_messageId = defaultMessageId stamp ?from, sr_accepted = accepted\<rparr> :: SmtpResult res) = Inr b"
      moreover from calculation us(3) as True
      have "answered (mail_script (\<not> implicit) input message) (fs @ as @ ms @ rs @ ds @ xs)"
        using answered_append [of "[''DATA'']" ds "[message @ CRLF @ ''.'']" xs] unfolding mail_script_def
        by (intro answered_append) auto
      ultimately show "?R b (us @ as @ ms @ rs @ ds @ xs @ qs @ [])"
        using us(1,2) by (intro exI [of _ g] exI [of _ "fs @ as @ ms @ rs @ ds @ xs"] exI [of _ qs] exI [of _ message]) auto
    qed
    with True show ?thesis by simp
  qed (auto intro: scripted_settled)
qed

lemma session_success:
  assumes "session (defaultConnect rt) params context opts body now [] = (tr, Settles t (Inr r))" and "\<And>s. scripted (body s) R"
  shows "R r (dialogue tr)"
proof -
  obtain tr1 q where c: "connectBounded (defaultConnect rt) params context opts now [] = (tr1, q)" by fastforce
  then show ?thesis
  proof (cases rule: connectBounded_cases)
    case (1 u e es)
    with assms(1) c show ?thesis by (simp add: session_def await_async_def catch_async_def settled_def)
  next
    case (2 u s d a)
    obtain tr2 p2 where b: "body s u tr1 = (tr2, p2)" by fastforce
    with assms(1) c 2(1) have "p2 = Settles t (Inr r)" "tr = tr2 @ [Closed]"
      by (auto simp: session_def await_async_def catch_async_def finally_close_def socket_close_def split: promise.splits sum.splits)
    with b scriptedE [OF assms(2)] obtain es where "dialogue tr2 = dialogue tr1 @ es" "R r es" by metis
    moreover have "dialogue [d] = []" using 2(3) by (auto simp: dialogue_def dialled_safely_def split: mail_event.splits)
    ultimately show ?thesis using 2(2) \<open>tr = tr2 @ [Closed]\<close> by (simp add: dialogue_def)
  qed
qed

text \<open>The lines before the message hold no line break of their own.\<close>

lemma dedupe_subset: "set (dedupe xs) \<subseteq> set xs"
proof -
  have "set (dedupe_from seen out xs) \<subseteq> set out \<union> set xs" for seen out
    by (induction seen out xs rule: dedupe_from.induct) (auto simp: Let_def)
  from this [of "[]" "[]"] show ?thesis by (simp add: dedupe_def)
qed

lemma script_unbroken:
  assumes "validateHeaders (get input) = Inr ()"
  shows "list_all unbroken (butlast (mail_script upgraded input message))"
proof -
  note plain = validated_items [OF assms, simplified]
  have "unbroken a" if "a \<in> set (recipients_of input)" for a
  proof -
    from that dedupe_subset have "a \<in> set (toAddressList (get input ''to'') @ toAddressList (get input ''cc'') @ toAddressList (get input ''bcc''))"
      unfolding recipients_of_def by blast
    then show ?thesis unfolding set_append using plain toAddressList_unbroken by blast
  qed
  then have rcpts: "unbroken (bareAddress a)" if "a \<in> set (recipients_of input)" for a
    using unbroken_subset [OF set_bareAddress] that by blast
  have "list_all plain_item (header_items v) \<Longrightarrow> unbroken (str_of v)" for v
    using plain_item_unbroken [of v] by (cases v) (simp_all add: header_items_def str_of_def)
  then have "unbroken (str_of (get input ''from''))" using plain by blast
  then have sender: "unbroken (bareAddress (str_of (get input ''from'')))" by (rule unbroken_subset [OF set_bareAddress])
  have parts: "list_all unbroken (opening_lines upgraded)" "list_all unbroken (login_lines user secret)"
      "list_all unbroken (map rcpt_line (recipients_of input))" "unbroken ''DATA''" "unbroken (''MAIL FROM:<'' @ bareAddress (str_of (get input ''from'')) @ ''>'')"
    for user secret
    using rcpts sender
    by (simp_all add: opening_lines_def login_lines_def rcpt_line_def b64_unbroken list_all_iff, simp_all add: CR_def LF_def)
  have "butlast (mail_script upgraded input message) = opening_lines upgraded
      @ login_lines (str_of (get input ''smtpUser'')) (str_of (get input ''smtpPassword''))
      @ [''MAIL FROM:<'' @ bareAddress (str_of (get input ''from'')) @ ''>''] @ map rcpt_line (recipients_of input) @ [''DATA'']"
    unfolding mail_script_def by (simp add: butlast_append)
  then show ?thesis using parts by (simp only: list_all_append list.pred_inject)
qed


section \<open>Example\<close>

text \<open>A relay that answers everything with \<open>250 ok\<close>, at a public address.\<close>

definition example_socket :: SmtpSocket where
  "example_socket = \<lparr>sk_write = (\<lambda>now _. Settles now (Inr ())), sk_read = (\<lambda>now _. Settles now (Inr ''250 ok'')), sk_upgrade = None\<rparr>"

definition example_runtime :: mail_runtime where
  "example_runtime = \<lparr>mr_lookup = (\<lambda>_ now. Settles now (Inr [dotted 93 184 216 34])),
     mr_connect = Some (\<lambda>_ _ _ now. Settles now (Inr example_socket)), mr_isIP = (\<lambda>_. 0)\<rparr>"

definition example_input :: jsval where
  "example_input = JObj [(''smtpHost'', JStr ''mail.example.com''), (''smtpPort'', JInt 465), (''from'', JStr ''a@b''),
     (''to'', JStr ''c@d''), (''subject'', JStr ''Hi''), (''text'', JStr ''.'')]"

definition example_options :: SendSmtpOptions where
  "example_options = \<lparr>so_timeout = None, so_signal = None\<rparr>"

abbreviation example_session :: BoundedSocket where
  "example_session \<equiv> \<lparr>bs_raw = example_socket, bs_abort = Some 30000\<rparr>"

lemma example_reply: "isPositive (replyCode ''250 ok'')" "byte_length ''250 ok'' = 6"
  by (simp_all add: replyCode_def first_line_def split_lines_def LF_def parse_int_or_0_def trim_start_def is_ws_def is_digit_def dec_val_def
      digit_val_def isPositive_def byte_length_def utf8_def code_def Let_def)

lemma example_expect: "expect example_session err 0 tr = (tr @ [Reading, Got ''250 ok''], Settles 0 (Inr ''250 ok''))"
  by (simp add: expect_def socket_read_def bounded_def aborted_def await_async_def example_socket_def settled_def cut_off_def race_abort_def
      received_now_def example_reply)

lemma example_write: "sk_write example_socket now tr = Settles now (Inr ())" "sk_upgrade example_socket = None"
  by (simp_all add: example_socket_def)

lemma example_command:
  "smtp_command example_session line err 0 tr = (tr @ [Wrote (line @ CRLF), Reading, Got ''250 ok''], Settles 0 (Inr ''250 ok''))"
  by (simp add: smtp_command_def socket_write_def bounded_def aborted_def await_async_def example_expect example_write cut_off_def race_abort_def)

lemma example_fields: "get example_input ''smtpHost'' = JStr ''mail.example.com''" "get example_input ''smtpPort'' = JInt 465"
    "get example_input ''from'' = JStr ''a@b''" "get example_input ''to'' = JStr ''c@d''" "get example_input ''cc'' = JUndef"
    "get example_input ''bcc'' = JUndef" "get example_input ''replyTo'' = JUndef" "get example_input ''subject'' = JStr ''Hi''"
    "get example_input ''messageId'' = JUndef" "get example_input ''date'' = JUndef" "get example_input ''smtpSecure'' = JUndef"
    "get example_input ''smtpUser'' = JUndef" "get example_input ''text'' = JStr ''.''" "get example_input ''html'' = JUndef"
  by (simp_all add: example_input_def get_def prop_get_def object_prototype_def)

lemma example_recipients: "recipients_of example_input = [''c@d'']"
  by (simp add: recipients_of_def example_fields toAddressList_def example_address dedupe_def Let_def)

lemma example_params: "mail_params (mr_isIP example_runtime) example_input =
    Inr \<lparr>cp_host = ''mail.example.com'', cp_port = 465, cp_tls = True, cp_signal = None\<rparr>"
proof -
  have "validateHeaders (get example_input) = Inr ()"
    using example_address
    by (simp add: validateHeaders_def example_fields header_items_def plain_item_def header_break_def toAddressList_def
        CR_def LF_def code_def guard_def str_of_def)
  moreover have "validateDestination (mr_isIP example_runtime) ''mail.example.com'' = Inr ()"
    by (simp add: validateDestination_def guard_def example_runtime_def host_char_def is_alnum_def is_alpha_def is_lower_def is_upper_def
        is_digit_def code_def contains_def ends_with_def starts_with_def)
  moreover have "normalizePort (JInt 465) = Inr 465"
    by (simp add: normalizePort_def Let_def is_integer_def)
  ultimately show ?thesis by (simp add: mail_params_def example_fields str_of_def)
qed

lemma example_connected:
  "connectBounded (defaultConnect example_runtime) \<lparr>cp_host = ''mail.example.com'', cp_port = 465, cp_tls = True, cp_signal = None\<rparr> None example_options 0 []
     = ([Dialled (dotted 93 184 216 34) 465 (Some ''mail.example.com'')], Settles 0 (Inr example_session))"
proof -
  have "\<not> prohibitedAddress (dotted 93 184 216 34)" by (simp add: octets)
  then show ?thesis
    by (simp add: connectBounded_def defaultConnect_def example_runtime_def mail_deadline_def mail_signals_def example_options_def throwIfAborted_def
        aborted_def await_async_def catch_async_def dial_def settled_def cut_off_def race_abort_def Let_def)
qed

lemma example_id: "defaultMessageId example_stamp ''a@b'' = ''<r1@b>''"
  by (simp add: defaultMessageId_def example_stamp_def bareAddress_def example_address Let_def)

lemma example_message: "\<exists>message. buildMessage example_stamp (mail_message example_input ''<r1@b>'') = Inr message"
proof -
  have "validateHeaders (message_field (mail_message example_input ''<r1@b>'')) = Inr ()"
    using example_address
    by (simp add: validateHeaders_def message_field_def mail_message_def address_array_def example_fields header_items_def plain_item_def header_break_def
        toAddressList_def opt_field_def CR_def LF_def code_def guard_def str_of_def)
  then show ?thesis by (cases "message_content example_stamp (mail_message example_input ''<r1@b>'')") (simp add: buildMessage_def)
qed

lemma example_sent: "\<exists>tr. sendSmtpEmail (mr_isIP example_runtime) (defaultConnect example_runtime) None example_stamp example_input example_options 0 []
    = (tr, Settles 0 (Inr \<lparr>sr_messageId = ''<r1@b>'', sr_accepted = [bareAddress ''c@d'']\<rparr>))"
proof -
  obtain message where m: "buildMessage example_stamp (mail_message example_input ''<r1@b>'') = Inr message" using example_message by blast
  have "smtp_opening example_session True err 0 tr = (tr @ [Reading, Got ''250 ok''] @ [Wrote (''EHLO appcall'' @ CRLF), Reading, Got ''250 ok''], Settles 0 (Inr True))" for err tr
    unfolding smtp_opening_def
    by (simp add: await_async_def example_expect example_command socket_upgradeTls_def example_write settled_def)
  then have "\<exists>tr'. send_body example_stamp example_input True example_session 0 tr
      = (tr', Settles 0 (Inr \<lparr>sr_messageId = ''<r1@b>'', sr_accepted = [bareAddress ''c@d'']\<rparr>))" for tr
    unfolding send_body_def Let_def
    by (simp add: await_async_def auth_login_def example_command example_fields str_of_def settled_def example_recipients m example_id check_async_def
        quit_def catch_async_def)
  then obtain tr' where "send_body example_stamp example_input True example_session 0 [Dialled (dotted 93 184 216 34) 465 (Some ''mail.example.com'')]
      = (tr', Settles 0 (Inr \<lparr>sr_messageId = ''<r1@b>'', sr_accepted = [bareAddress ''c@d'']\<rparr>))" by blast
  then show ?thesis
    by (simp add: sendSmtpEmail_def example_params check_async_def guard_def example_fields str_of_def example_recipients session_def await_async_def
        catch_async_def example_connected finally_close_def)
qed


end
