(* ===== verification/JobBoard.thy ===== *)
theory JobBoard
  imports Async Operations Request
begin

text \<open>
  The client that the recruiting connectors share (\<open>runner/connectors/_shared/jobboard.ts\<close>), the probe of the
  healthchecks (\<open>healthcheck_probe.ts\<close>) and the HTTP clients of Ashby, Lever, Recruitee, SmartRecruiters, Workable and
  Zoho Recruit (\<open>src/http.ts\<close> of each, and \<open>datacenter.ts\<close>). A manifest is an argument: its hosts and its operations.
  The theorems: an identifier that is put into a path stays one segment of it; every request of these clients goes to an
  allowed host, once, with the credential in its header only.
\<close>

section \<open>Path segments\<close>

definition segment_char :: "char \<Rightarrow> bool" where
  "segment_char c = (is_alnum c \<or> c = CHR ''.'' \<or> c = CHR ''_'' \<or> c = CHR ''-'')"

definition all_dots :: "string \<Rightarrow> bool" where
  "all_dots s = (s \<noteq> [] \<and> list_all (\<lambda>c. c = CHR ''.'') s)"

definition assertSafePathSegment :: "string \<Rightarrow> string \<Rightarrow> string res" where
  "assertSafePathSegment v field =
     (let trimmed = trim v in
      sbind (guard (trimmed \<noteq> []) (Error (field @ '' is required''))) (\<lambda>_.
      sbind (guard (list_all segment_char trimmed)
               (Error (field @ '' may only contain letters, digits, dots, underscores and hyphens''))) (\<lambda>_.
      sbind (guard (\<not> all_dots trimmed) (Error (field @ '' must not be a dot segment''))) (\<lambda>_.
      Inr trimmed))))"

definition control_char :: "char \<Rightarrow> bool" where
  "control_char c = (code c \<le> 31 \<or> (127 \<le> code c \<and> code c \<le> 159))"

definition segment_text :: "jsval \<Rightarrow> string option" where
  "segment_text v =
     (case v of JStr s \<Rightarrow> Some s | JNum n \<Rightarrow> if is_finite n then Some (num_to_string n) else None | _ \<Rightarrow> None)"

definition assertNoTraversalSegment :: "jsval \<Rightarrow> string \<Rightarrow> string res" where
  "assertNoTraversalSegment v field =
     (case segment_text v of
        None \<Rightarrow> Inl (Error (field @ '' is required''))
      | Some s \<Rightarrow>
          sbind (guard (trim s \<noteq> []) (Error (field @ '' is required''))) (\<lambda>_.
          sbind (guard (\<not> all_dots (trim s)) (Error (field @ '' must not be a dot segment''))) (\<lambda>_.
          sbind (guard (CHR ''/'' \<notin> set s \<and> CHR 0x5C \<notin> set s) (Error (field @ '' must not contain path separators''))) (\<lambda>_.
          sbind (guard (list_all (\<lambda>c. \<not> control_char c) s) (Error (field @ '' must not contain control characters''))) (\<lambda>_.
          Inr s)))))"

definition encodePathSegment :: "jsval \<Rightarrow> string \<Rightarrow> string res" where
  "encodePathSegment v field = sbind (assertNoTraversalSegment v field) (\<lambda>s. Inr (encode_uri s))"

section \<open>The shared client\<close>

definition positive_delay :: "(string \<times> string) list \<Rightarrow> jsnum \<Rightarrow> jsnum" where
  "positive_delay headers fallback =
     (let raw = str_to_num (case map_of headers ''retry-after'' of Some v \<Rightarrow> v | None \<Rightarrow> [])
      in if is_finite raw \<and> num_lt (Fin 0) raw then raw else fallback)"

definition failed_with :: "string \<Rightarrow> string \<Rightarrow> props \<Rightarrow> thrown" where
  "failed_with c m extra = ThrownVal (JObj ([(''ok'', JBool False), (''code'', JStr c), (''message'', JStr m)] @ extra))"

definition upstreamErrorFor :: "string \<Rightarrow> int \<Rightarrow> (string \<times> string) list \<Rightarrow> string \<Rightarrow> thrown" where
  "upstreamErrorFor provider status headers body =
     (if status = 429
      then failed_with ''CONNECTOR_RATE_LIMITED'' (provider @ '' rate limit exceeded.'')
             [(''retryAfterSeconds'', JNum (positive_delay headers (Fin 10)))]
      else failed_with ''CONNECTOR_UPSTREAM_ERROR''
             (provider @ '' API returned '' @ show_int status @ '': '' @ take 200 body) [])"

definition non_json :: "string \<Rightarrow> thrown" where
  "non_json provider = failed_with ''CONNECTOR_UPSTREAM_ERROR'' (provider @ '' returned a non-JSON body.'') []"

definition success_status :: "int \<Rightarrow> bool" where
  "success_status status = (200 \<le> status \<and> status < 300)"

definition parsed_body :: "string \<Rightarrow> string \<Rightarrow> jsval res" where
  "parsed_body provider body = (case json_parse body of Some v \<Rightarrow> Inr v | None \<Rightarrow> Inl (non_json provider))"

record JobBoardClientOptions =
  jb_baseUrl :: string
  jb_allowedHosts :: "string list"
  jb_maxResponseBytes :: jsval
  jb_timeoutMs :: jsval
  jb_headers :: "(string \<times> string) list"
  jb_provider :: string

record JobBoardClient =
  jc_options :: JobBoardClientOptions
  jc_http :: http_options

definition createJobBoardClient :: "JobBoardClientOptions \<Rightarrow> JobBoardClient res" where
  "createJobBoardClient options =
     sbind (createConnectorHttpClient (jb_allowedHosts options) (jb_maxResponseBytes options) (jb_timeoutMs options)) (\<lambda>http.
     Inr \<lparr>jc_options = options, jc_http = http\<rparr>)"

definition spread_headers :: "(string \<times> string) list \<Rightarrow> (string \<times> string) list \<Rightarrow> (string \<times> string) list" where
  "spread_headers base extra = foldl (\<lambda>hs (k, v). table_put k v hs) base extra"

definition board_getJSON :: "http_platform \<Rightarrow> ExecutionContext option \<Rightarrow> JobBoardClient \<Rightarrow> string \<Rightarrow> jsval async" where
  "board_getJSON pf context client path =
     (let options = jc_options client in
      await_async (fetch_async pf (jc_http client) context (Text (jb_baseUrl options @ path))
          \<lparr>req_method = ''GET'', req_headers = spread_headers [(''Accept'', ''application/json'')] (jb_headers options),
           req_body = None, req_signal = None\<rparr>) (\<lambda>response.
      settled (if \<not> success_status (rs_status response)
               then Inl (upstreamErrorFor (jb_provider options) (rs_status response) (rs_headers response) (rs_body response))
               else parsed_body (jb_provider options) (rs_body response))))"

section \<open>The probe\<close>

definition healthFail :: "string \<Rightarrow> string \<Rightarrow> jsnum option \<Rightarrow> thrown" where
  "healthFail c m retryAfter =
     failed_with c m (case retryAfter of None \<Rightarrow> [] | Some n \<Rightarrow> [(''retryAfterSeconds'', JNum n)])"

definition stringField :: "jsval \<Rightarrow> string \<Rightarrow> string" where
  "stringField input key = (if is_record input then (case get input key of JStr s \<Rightarrow> trim s | _ \<Rightarrow> []) else [])"

record ProbeOptions =
  pr_provider :: string
  pr_url :: string
  pr_headers :: "(string \<times> string) list"
  pr_allowedHosts :: "string list"
  pr_timeoutMs :: jsval
  pr_maxResponseBytes :: jsval
  pr_defaultRetry :: "jsnum option"

definition probeProvider :: "http_platform \<Rightarrow> ExecutionContext option \<Rightarrow> ProbeOptions \<Rightarrow> jsval async" where
  "probeProvider pf context options =
     (let provider = pr_provider options in
      check_async (createConnectorHttpClient (pr_allowedHosts options) (pr_maxResponseBytes options) (pr_timeoutMs options)) (\<lambda>http.
      await_async
        (catch_async
          (fetch_async pf http context (Text (pr_url options))
            \<lparr>req_method = ''GET'', req_headers = pr_headers options, req_body = None, req_signal = None\<rparr>)
          (\<lambda>err. settled (Inl (if is_http_error err then err
             else healthFail ''CONNECTOR_UNAVAILABLE'' (provider @ '' could not be reached: '' @ error_text err) None)))) (\<lambda>response.
      let status = rs_status response in
      settled
        (if status = 401 \<or> status = 403
         then Inl (healthFail ''CONNECTOR_UPSTREAM_ERROR'' (provider @ '' rejected the credentials (HTTP '' @ show_int status @ '').'') None)
         else if status = 429
         then Inl (healthFail ''CONNECTOR_RATE_LIMITED'' (provider @ '' rate limit exceeded.'')
                    (Some (positive_delay (rs_headers response) (case pr_defaultRetry options of Some n \<Rightarrow> n | None \<Rightarrow> Fin 10))))
         else if \<not> success_status status
         then Inl (healthFail ''CONNECTOR_UPSTREAM_ERROR'' (provider @ '' healthcheck failed (HTTP '' @ show_int status @ '').'') None)
         else case json_parse (rs_body response) of
                Some v \<Rightarrow> Inr v
              | None \<Rightarrow> Inl (healthFail ''CONNECTOR_RESPONSE_INVALID'' (provider @ '' returned a non-JSON healthcheck body.'') None)))))"

section \<open>The clients of the connectors\<close>

record job_manifest =
  jm_allowedHosts :: "string list"
  jm_operations :: jsval

record OperationBounds =
  ob_maxResponseBytes :: jsval
  ob_timeoutMs :: jsval

definition operationBounds :: "jsval \<Rightarrow> string option \<Rightarrow> string \<Rightarrow> OperationBounds" where
  "operationBounds ops operation fallback =
     (let primary = (case operation of Some (c # cs) \<Rightarrow> get ops (c # cs) | _ \<Rightarrow> JUndef); secondary = get ops fallback in
      \<lparr>ob_maxResponseBytes = nullish (get primary ''maxResponseBytes'') (nullish (get secondary ''maxResponseBytes'') (JInt 5242880)),
       ob_timeoutMs = nullish (get primary ''timeoutMs'') (nullish (get secondary ''timeoutMs'') (JInt 30000))\<rparr>)"

definition jobs_list_bounds :: "job_manifest \<Rightarrow> OperationBounds" where
  "jobs_list_bounds m =
     \<lparr>ob_maxResponseBytes = get (get (jm_operations m) ''jobs.list'') ''maxResponseBytes'',
      ob_timeoutMs = get (get (jm_operations m) ''jobs.list'') ''timeoutMs''\<rparr>"

definition board_options :: "string \<Rightarrow> string \<Rightarrow> string list \<Rightarrow> OperationBounds \<Rightarrow> (string \<times> string) list \<Rightarrow> JobBoardClientOptions" where
  "board_options provider base hosts bounds headers =
     \<lparr>jb_baseUrl = base, jb_allowedHosts = hosts, jb_maxResponseBytes = ob_maxResponseBytes bounds,
      jb_timeoutMs = ob_timeoutMs bounds, jb_headers = headers, jb_provider = provider\<rparr>"

definition basicAuthHeader :: "string \<Rightarrow> string" where
  "basicAuthHeader apiKey = ''Basic '' @ base64 (apiKey @ '':'')"

definition bearer_json :: "string \<Rightarrow> (string \<times> string) list" where
  "bearer_json accessToken = [(''Authorization'', ''Bearer '' @ accessToken), (''Content-Type'', ''application/json'')]"

definition ashby_createClient :: "job_manifest \<Rightarrow> string \<Rightarrow> JobBoardClient res" where
  "ashby_createClient m boardName =
     sbind (assertSafePathSegment boardName ''boardName'') (\<lambda>board.
     createJobBoardClient (board_options ''Ashby'' (''https://api.ashbyhq.com/posting-api/job-board/'' @ board)
       (jm_allowedHosts m) (jobs_list_bounds m) []))"

definition greenhouse_createClient :: "job_manifest \<Rightarrow> string \<Rightarrow> JobBoardClient res" where
  "greenhouse_createClient m boardToken =
     sbind (assertSafePathSegment boardToken ''boardToken'') (\<lambda>board.
     createJobBoardClient (board_options ''Greenhouse'' (''https://boards-api.greenhouse.io/v1/boards/'' @ board)
       (jm_allowedHosts m) (jobs_list_bounds m) []))"

definition lever_createClient :: "job_manifest \<Rightarrow> string \<Rightarrow> JobBoardClient res" where
  "lever_createClient m site =
     sbind (assertSafePathSegment site ''site'') (\<lambda>safe.
     createJobBoardClient (board_options ''Lever'' (''https://api.lever.co/v0/postings/'' @ safe)
       (jm_allowedHosts m) (operationBounds (jm_operations m) (Some ''jobs.list'') ''jobs.list'') []))"

definition recruitee_createClient :: "job_manifest \<Rightarrow> string \<Rightarrow> string \<Rightarrow> string option \<Rightarrow> JobBoardClient res" where
  "recruitee_createClient m company accessToken operation =
     sbind (assertSafePathSegment company ''company'') (\<lambda>safe.
     createJobBoardClient (board_options ''Recruitee'' (''https://'' @ safe @ ''.recruitee.com/api'')
       (jm_allowedHosts m) (operationBounds (jm_operations m) operation ''jobs.list'') (bearer_json accessToken)))"

definition recruitee_createAtsClient :: "job_manifest \<Rightarrow> string \<Rightarrow> string \<Rightarrow> string option \<Rightarrow> JobBoardClient res" where
  "recruitee_createAtsClient m company accessToken operation =
     sbind (assertSafePathSegment company ''company'') (\<lambda>safe.
     createJobBoardClient (board_options ''Recruitee'' (''https://api.recruitee.com/c/'' @ safe)
       (jm_allowedHosts m) (operationBounds (jm_operations m) operation ''candidates.list'') (bearer_json accessToken)))"

definition smartrecruiters_createClient :: "job_manifest \<Rightarrow> string \<Rightarrow> JobBoardClient res" where
  "smartrecruiters_createClient m company =
     sbind (assertSafePathSegment company ''company'') (\<lambda>safe.
     createJobBoardClient (board_options ''SmartRecruiters'' (''https://api.smartrecruiters.com/v1/companies/'' @ safe)
       (jm_allowedHosts m) (jobs_list_bounds m) []))"

definition smartrecruiters_createAuthClient :: "job_manifest \<Rightarrow> string \<Rightarrow> string option \<Rightarrow> JobBoardClient res" where
  "smartrecruiters_createAuthClient m apiKey operation =
     sbind (guard (apiKey \<noteq> []) (Error ''apiKey is required'')) (\<lambda>_.
     createJobBoardClient (board_options ''SmartRecruiters'' ''https://api.smartrecruiters.com''
       (jm_allowedHosts m) (operationBounds (jm_operations m) operation ''candidates.list'')
       [(''X-SmartToken'', apiKey), (''Accept'', ''application/json'')]))"

definition workable_createClient :: "job_manifest \<Rightarrow> string \<Rightarrow> string \<Rightarrow> string option \<Rightarrow> JobBoardClient res" where
  "workable_createClient m account accessToken operation =
     sbind (assertSafePathSegment account ''account'') (\<lambda>safe.
     createJobBoardClient (board_options ''Workable'' (''https://'' @ safe @ ''.workable.com/spi/v3'')
       (jm_allowedHosts m) (operationBounds (jm_operations m) operation ''jobs.list'')
       [(''Authorization'', ''Bearer '' @ accessToken)]))"

section \<open>The data centres of Zoho Recruit\<close>

record ZohoRecruitDataCenterConfig =
  zc_accountsUrl :: string
  zc_apiBaseUrl :: string
  zc_apiDomains :: "string list"

definition zoho_centre :: "string \<Rightarrow> string \<Rightarrow> string \<Rightarrow> ZohoRecruitDataCenterConfig" where
  "zoho_centre domain apis api =
     \<lparr>zc_accountsUrl = ''https://accounts.'' @ domain, zc_apiBaseUrl = ''https://recruit.'' @ domain @ ''/recruit/v2'',
      zc_apiDomains = [''https://www.zohoapis.'' @ apis, ''https://api.'' @ api, ''https://recruit.'' @ domain]\<rparr>"

definition ZOHO_RECRUIT_DATA_CENTERS :: "(string \<times> ZohoRecruitDataCenterConfig) list" where
  "ZOHO_RECRUIT_DATA_CENTERS =
     [(''com'', zoho_centre ''zoho.com'' ''com'' ''zoho.com''), (''eu'', zoho_centre ''zoho.eu'' ''eu'' ''zoho.eu''),
      (''in'', zoho_centre ''zoho.in'' ''in'' ''zoho.in''), (''com.au'', zoho_centre ''zoho.com.au'' ''com.au'' ''zoho.com.au''),
      (''jp'', zoho_centre ''zoho.jp'' ''jp'' ''zoho.jp''), (''ca'', zoho_centre ''zohocloud.ca'' ''ca'' ''zohocloud.ca''),
      (''sa'', zoho_centre ''zoho.sa'' ''sa'' ''zoho.sa''), (''com.cn'', zoho_centre ''zoho.com.cn'' ''com.cn'' ''zoho.com.cn'')]"

definition resolveDataCenter :: "jsval \<Rightarrow> (string \<times> ZohoRecruitDataCenterConfig) res" where
  "resolveDataCenter v =
     (let key = (case v of JUndef \<Rightarrow> Some ''com'' | JNull \<Rightarrow> Some ''com'' | JStr s \<Rightarrow> Some s | _ \<Rightarrow> None);
          unknown = Inl (failed_with ''INVALID_ACTION_INPUT''
            (''dataCenter must be exactly one of: '' @ join '', '' (map fst ZOHO_RECRUIT_DATA_CENTERS)) [])
      in case key of
           None \<Rightarrow> unknown
         | Some k \<Rightarrow> (case map_of ZOHO_RECRUIT_DATA_CENTERS k of None \<Rightarrow> unknown | Some c \<Rightarrow> Inr (k, c)))"

definition normalizedOrigin :: "(string \<Rightarrow> URL option) \<Rightarrow> string \<Rightarrow> string option" where
  "normalizedOrigin parse v =
     (case parse v of
        None \<Rightarrow> None
      | Some url \<Rightarrow>
          if username url \<noteq> [] \<or> password url \<noteq> [] \<or> (pathname url \<noteq> ''/'' \<and> pathname url \<noteq> [])
             \<or> search url \<noteq> [] \<or> hash url \<noteq> [] \<or> protocol url \<noteq> ''https:'' \<or> (port url \<noteq> [] \<and> port url \<noteq> ''443'')
          then None
          else Some (protocol url @ ''//'' @ to_lower (hostname url)))"

definition assertApiDomainMatches :: "(string \<Rightarrow> URL option) \<Rightarrow> string \<times> ZohoRecruitDataCenterConfig \<Rightarrow> jsval \<Rightarrow> unit res" where
  "assertApiDomainMatches parse dc apiDomain =
     (if apiDomain = JUndef \<or> apiDomain = JNull then Inr ()
      else let allowed = zc_apiDomains (snd dc);
               origin = (case apiDomain of JStr s \<Rightarrow> normalizedOrigin parse (trim s) | _ \<Rightarrow> None)
           in guard (case origin of Some x \<Rightarrow> x \<in> set allowed | None \<Rightarrow> False) (failed_with ''CONNECTOR_DATA_CENTER_MISMATCH''
                (''Zoho returned an api_domain that does not belong to data centre '' @ [CHR 0x22] @ fst dc @ [CHR 0x22]
                 @ '' (expected '' @ join '' or '' allowed @ ''). Reconnect with the matching dataCenter.'') []))"

definition apiHostFor :: "(string \<Rightarrow> URL option) \<Rightarrow> ZohoRecruitDataCenterConfig \<Rightarrow> string res" where
  "apiHostFor parse c =
     (case parse (zc_apiBaseUrl c) of Some u \<Rightarrow> Inr (hostname u) | None \<Rightarrow> Inl (ErrorInst ''TypeError'' ''Invalid URL'' []))"

definition zoho_createClient :: "(string \<Rightarrow> URL option) \<Rightarrow> job_manifest \<Rightarrow> string \<Rightarrow> string option \<Rightarrow> jsval \<Rightarrow> jsval list \<Rightarrow> JobBoardClient res" where
  "zoho_createClient parse m accessToken operation dataCenter apiDomains =
     sbind (resolveDataCenter dataCenter) (\<lambda>dc.
     sbind (for_each (assertApiDomainMatches parse dc) apiDomains) (\<lambda>_.
     sbind (apiHostFor parse (snd dc)) (\<lambda>host.
     createJobBoardClient (board_options ''Zoho Recruit'' (zc_apiBaseUrl (snd dc)) [host]
       (operationBounds (jm_operations m) operation ''jobs.list'')
       [(''Authorization'', ''Zoho-oauthtoken '' @ accessToken), (''Content-Type'', ''application/json'')]))))"

section \<open>The authenticated clients of Ashby, Lever and SmartRecruiters\<close>

record api_client =
  ac_base :: string
  ac_key :: string
  ac_http :: http_options

definition create_api :: "job_manifest \<Rightarrow> string \<Rightarrow> string \<Rightarrow> string option \<Rightarrow> string \<Rightarrow> api_client res" where
  "create_api m base apiKey operation fallback =
     sbind (guard (apiKey \<noteq> []) (Error ''apiKey is required'')) (\<lambda>_.
     let bounds = operationBounds (jm_operations m) operation fallback in
     sbind (createConnectorHttpClient (jm_allowedHosts m) (ob_maxResponseBytes bounds) (ob_timeoutMs bounds)) (\<lambda>http.
     Inr \<lparr>ac_base = base, ac_key = apiKey, ac_http = http\<rparr>))"

definition api_fetch :: "http_platform \<Rightarrow> ExecutionContext option \<Rightarrow> api_client \<Rightarrow> string \<Rightarrow> string \<Rightarrow> (string \<times> string) list \<Rightarrow> string option
    \<Rightarrow> ConnectorHttpResponse async" where
  "api_fetch pf context client verb path headers body =
     fetch_async pf (ac_http client) context (Text (ac_base client @ path))
       \<lparr>req_method = verb, req_headers = headers, req_body = body, req_signal = None\<rparr>"

definition ashby_createAuthClient :: "job_manifest \<Rightarrow> string \<Rightarrow> string option \<Rightarrow> api_client res" where
  "ashby_createAuthClient m apiKey operation = create_api m ''https://api.ashbyhq.com'' apiKey operation ''candidates.list''"

definition ashby_failure :: "jsval \<Rightarrow> thrown" where
  "ashby_failure parsed =
     (let first = (case get parsed ''errors'' of JArr (e # _) \<Rightarrow> get e ''message'' | _ \<Rightarrow> JUndef)
      in failed_with ''CONNECTOR_UPSTREAM_ERROR''
           (''Ashby API error: '' @ (if truthy first then to_str first else ''Ashby API returned success=false.'')) [])"

definition ashby_postJSON :: "http_platform \<Rightarrow> ExecutionContext option \<Rightarrow> api_client \<Rightarrow> string \<Rightarrow> jsval \<Rightarrow> jsval async" where
  "ashby_postJSON pf context client path body =
     await_async (api_fetch pf context client ''POST'' path
         [(''Accept'', ''application/json; version=1''), (''Content-Type'', ''application/json''),
          (''Authorization'', basicAuthHeader (ac_key client))] (json_text body)) (\<lambda>response.
     settled (if \<not> success_status (rs_status response)
              then Inl (upstreamErrorFor ''Ashby'' (rs_status response) (rs_headers response) (rs_body response))
              else sbind (parsed_body ''Ashby'' (rs_body response)) (\<lambda>parsed.
                if get parsed ''success'' = JBool False then Inl (ashby_failure parsed) else Inr parsed)))"

definition lever_createAuthClient :: "job_manifest \<Rightarrow> string \<Rightarrow> string \<Rightarrow> string option \<Rightarrow> api_client res" where
  "lever_createAuthClient m apiKey region operation =
     sbind (assertSafePathSegment region ''region'') (\<lambda>r.
     sbind (guard (r = ''co'' \<or> r = ''eu'') (Error (''region must be '' @ [CHR 0x22] @ ''co'' @ [CHR 0x22] @ '' or '' @ [CHR 0x22] @ ''eu'' @ [CHR 0x22]))) (\<lambda>_.
     create_api m (''https://api.lever.'' @ r @ ''/v1'') apiKey operation ''opportunities.list''))"

definition lever_sendJSON :: "http_platform \<Rightarrow> ExecutionContext option \<Rightarrow> api_client \<Rightarrow> string \<Rightarrow> string \<Rightarrow> jsval \<Rightarrow> jsval async" where
  "lever_sendJSON pf context client verb path body =
     (let plain = [(''Authorization'', basicAuthHeader (ac_key client)), (''Accept'', ''application/json'')];
          with_body = (body \<noteq> JUndef \<or> verb = ''PUT'')
      in await_async (api_fetch pf context client verb path
           (if with_body then plain @ [(''Content-Type'', ''application/json'')] else plain)
           (if with_body then json_text (nullish body (JObj [])) else None)) (\<lambda>response.
         settled (if \<not> success_status (rs_status response)
                  then Inl (upstreamErrorFor ''Lever'' (rs_status response) (rs_headers response) (rs_body response))
                  else if rs_status response = 204 \<or> rs_body response = [] then Inr JUndef
                  else parsed_body ''Lever'' (rs_body response))))"

definition lever_requestRaw :: "http_platform \<Rightarrow> ExecutionContext option \<Rightarrow> api_client \<Rightarrow> string \<Rightarrow> string \<Rightarrow> (string \<times> string) list \<Rightarrow> string option
    \<Rightarrow> ConnectorHttpResponse async" where
  "lever_requestRaw pf context client verb path headers body =
     api_fetch pf context client verb path
       (spread_headers [(''Authorization'', basicAuthHeader (ac_key client)), (''Accept'', ''application/json'')] headers) body"

definition smartrecruiters_createApiClient :: "job_manifest \<Rightarrow> string \<Rightarrow> string option \<Rightarrow> api_client res" where
  "smartrecruiters_createApiClient m apiKey operation = create_api m ''https://api.smartrecruiters.com'' apiKey operation ''candidates.get''"

definition smartrecruiters_send :: "http_platform \<Rightarrow> ExecutionContext option \<Rightarrow> api_client \<Rightarrow> string \<Rightarrow> string \<Rightarrow> jsval \<Rightarrow> string
    \<Rightarrow> (jsval \<times> (string \<times> string) list) async" where
  "smartrecruiters_send pf context client verb path body contentType =
     await_async (api_fetch pf context client verb path
         ([(''X-SmartToken'', ac_key client), (''Accept'', ''application/json'')]
          @ (if body \<noteq> JUndef then [(''Content-Type'', contentType)] else []))
         (if body = JUndef then None else json_text body)) (\<lambda>response.
     settled (if \<not> success_status (rs_status response)
              then Inl (upstreamErrorFor ''SmartRecruiters'' (rs_status response) (rs_headers response) (rs_body response))
              else if rs_status response = 204 \<or> trim (rs_body response) = [] then Inr (JUndef, rs_headers response)
              else sbind (parsed_body ''SmartRecruiters'' (rs_body response)) (\<lambda>v. Inr (v, rs_headers response))))"

section \<open>Identifiers in paths\<close>

text \<open>What a URL parser takes for a step in the path instead of a name (WHATWG URL, single- and double-dot segments).\<close>

definition url_dot_segment :: "string \<Rightarrow> bool" where
  "url_dot_segment s = (to_lower s \<in> {''.'', ''..'', ''%2e'', ''.%2e'', ''%2e.'', ''%2e%2e''})"

lemma lower_char_inverse:
  "lower_char x = CHR ''.'' \<Longrightarrow> x = CHR ''.''" "lower_char x = CHR ''%'' \<Longrightarrow> x = CHR ''%''" "lower_char x = CHR ''2'' \<Longrightarrow> x = CHR ''2''"
  "lower_char x = CHR ''e'' \<Longrightarrow> x = CHR ''e'' \<or> x = CHR ''E''"
proof -
  have c: "code (lower_char x) = (if is_upper x \<or> (192 \<le> code x \<and> code x \<le> 222 \<and> code x \<noteq> 215) then code x + 32 else code x)"
    using code_less [of x] by (auto simp: lower_char_def is_upper_def)
  have e: "code (CHR ''e'') = 101" "code (CHR ''E'') = 69" "code (CHR ''.'') = 46" "code (CHR ''%'') = 37" "code (CHR ''2'') = 50"
    by (simp_all add: code_def)
  show "lower_char x = CHR ''.'' \<Longrightarrow> x = CHR ''.''" "lower_char x = CHR ''%'' \<Longrightarrow> x = CHR ''%''" "lower_char x = CHR ''2'' \<Longrightarrow> x = CHR ''2''"
    "lower_char x = CHR ''e'' \<Longrightarrow> x = CHR ''e'' \<or> x = CHR ''E''"
    using c unfolding is_upper_def by (auto simp: e code_eq_iff [symmetric] split: if_splits)
qed

lemma dot_segment_decodes: "url_dot_segment s \<Longrightarrow> \<exists>t. decode_uri s = Some t \<and> all_dots t"
proof -
  have pct: "decode_uri (CHR ''%'' # CHR ''2'' # e # r) = map_option ((#) (CHR ''.'')) (decode_uri r)" if "e = CHR ''e'' \<or> e = CHR ''E''" for e r
    using that decode_uri_byte [of "CHR ''%'' # CHR ''2'' # e # r" 46 r]
    by (auto simp: pct_byte_def hex_val_def is_digit_def digit_val_def code_def char_of_def bit_Suc_0_iff)
  have dot: "decode_uri (CHR ''.'' # r) = map_option ((#) (CHR ''.'')) (decode_uri r)" for r by (simp add: decode_uri_plain)
  assume "url_dot_segment s"
  then show ?thesis
    unfolding url_dot_segment_def to_lower_def
    by (auto simp: map_eq_Cons_conv pct dot all_dots_def dest!: lower_char_inverse)
qed

lemma all_dots_trim:
  assumes "all_dots s"
  shows "trim s = s"
proof -
  have dot: "\<not> is_ws (CHR ''.'')" by (simp add: is_ws_def code_def)
  from assms have "s \<noteq> []" and all: "\<And>c. c \<in> set s \<Longrightarrow> c = CHR ''.''" by (simp_all add: all_dots_def list_all_iff)
  then have "hd s = CHR ''.''" "last s = CHR ''.''" using hd_in_set last_in_set by blast+
  then have "\<not> is_ws (hd s)" "\<not> is_ws (hd (rev s))" "rev s \<noteq> []" using dot \<open>s \<noteq> []\<close> by (simp_all add: hd_rev)
  with \<open>s \<noteq> []\<close> have "dropWhile is_ws s = s" "dropWhile is_ws (rev s) = rev s" by (simp_all only: dropWhile_eq_self_iff) simp_all
  then show ?thesis by (simp add: trim_def)
qed

lemma traversal_free:
  assumes "assertNoTraversalSegment v field = Inr s"
  shows "segment_text v = Some s" "s \<noteq> []" "\<not> all_dots s"
proof -
  from assms show t: "segment_text v = Some s"
    by (auto simp: assertNoTraversalSegment_def res_simps split: option.splits)
  from assms have "trim s \<noteq> []" "\<not> all_dots (trim s)"
    by (auto simp: assertNoTraversalSegment_def res_simps split: option.splits)
  then show "s \<noteq> []" "\<not> all_dots s" using all_dots_trim by (auto simp: trim_def)
qed

text \<open>An identifier put into a path stays one segment. If an identifier of the caller passes, its encoded form is not empty,
  holds no character that separates or ends a path, is not one that a URL parser takes for a step upwards (also not in percent
  form), and decodes to the identifier.\<close>

theorem encodePathSegment_stays_segment:
  assumes "encodePathSegment v field = Inr s"
  shows "s \<noteq> [] \<and> list_all (\<lambda>c. c \<notin> set ''/?#:@'' \<and> c \<noteq> CHR 0x5C) s \<and> \<not> url_dot_segment s
    \<and> (\<exists>t. segment_text v = Some t \<and> decode_uri s = Some t)"
proof -
  from assms obtain t where t: "assertNoTraversalSegment v field = Inr t" and s: "s = encode_uri t"
    by (auto simp: encodePathSegment_def res_simps)
  note ok = traversal_free [OF t]
  have "\<not> url_dot_segment s"
    using dot_segment_decodes [of s] uri.dec_enc [of t] ok(3) by (auto simp: s)
  moreover have "c \<notin> set ''/?#:@'' \<and> c \<noteq> CHR 0x5C" if "c \<in> set s" for c
  proof -
    have "c \<notin> set ''/?#&=:@;,+$[]''" using that encode_uri_no_delims s by blast
    moreover have "\<not> is_hex_upper (CHR 0x5C)" "\<not> is_uri_unreserved (CHR 0x5C)"
      by (simp_all add: is_hex_upper_def is_uri_unreserved_def is_digit_def is_alnum_def is_alpha_def is_upper_def is_lower_def code_def)
    then have "c \<noteq> CHR 0x5C" using that set_encode_uri [of t] s by auto
    ultimately show ?thesis by auto
  qed
  ultimately show ?thesis using ok s uri.dec_enc [of t] by (simp add: list_all_iff)
qed

theorem encodePathSegment_stays_segment_witness:
  "encodePathSegment (JStr ''a/../b'') ''id'' = Inl (Error ''id must not contain path separators'')
   \<and> \<not> url_dot_segment ''%252e'' \<and> decode_uri ''%252e'' = Some ''%2e''"
proof -
  have e: "encodePathSegment (JStr ''%2e'') ''id'' = Inr ''%252e''"
    by (simp add: encodePathSegment_def assertNoTraversalSegment_def segment_text_def guard_def trim_def is_ws_def all_dots_def control_char_def
        encode_uri_def enc_char_def is_uri_unreserved_def is_alnum_def is_alpha_def is_upper_def is_lower_def is_digit_def code_def pct_def hex_digit_def char_of_def bit_Suc_0_iff)
  have "encodePathSegment (JStr ''a/../b'') ''id'' = Inl (Error ''id must not contain path separators'')"
    by (simp add: encodePathSegment_def assertNoTraversalSegment_def segment_text_def guard_def trim_def is_ws_def all_dots_def code_def)
  with encodePathSegment_stays_segment [OF e] show ?thesis by (simp add: segment_text_def)
qed

section \<open>The requests of the clients\<close>

text \<open>All clients for public boards and for tokens, for a tenant, a credential and an operation.\<close>

definition board_clients :: "(string \<Rightarrow> URL option) \<Rightarrow> job_manifest \<Rightarrow> string \<Rightarrow> string \<Rightarrow> string option \<Rightarrow> jsval \<Rightarrow> jsval list
    \<Rightarrow> JobBoardClient res list" where
  "board_clients parse m tenant token operation dataCenter apiDomains =
     [ashby_createClient m tenant, greenhouse_createClient m tenant, lever_createClient m tenant,
      recruitee_createClient m tenant token operation, recruitee_createAtsClient m tenant token operation,
      smartrecruiters_createClient m tenant, smartrecruiters_createAuthClient m token operation,
      workable_createClient m tenant token operation, zoho_createClient parse m token operation dataCenter apiDomains]"

lemma createConnectorHttpClient_hosts: "createConnectorHttpClient hosts maxBytes timeout = Inr h \<Longrightarrow> opt_hosts h = hosts"
  by (auto simp: createConnectorHttpClient_def Let_def split: if_splits)

lemma createJobBoardClient_Inr:
  "createJobBoardClient options = Inr client \<Longrightarrow> jc_options client = options \<and> opt_hosts (jc_http client) = jb_allowedHosts options"
  by (auto simp: createJobBoardClient_def res_simps createConnectorHttpClient_hosts)

text \<open>The hosts a client may reach: those of the manifest, or the one host of its data centre.\<close>

definition reachable_hosts :: "(string \<Rightarrow> URL option) \<Rightarrow> job_manifest \<Rightarrow> string list \<Rightarrow> bool" where
  "reachable_hosts parse m hosts \<longleftrightarrow>
     hosts = jm_allowedHosts m \<or> (\<exists>k c u. (k, c) \<in> set ZOHO_RECRUIT_DATA_CENTERS \<and> parse (zc_apiBaseUrl c) = Some u \<and> hosts = [hostname u])"

lemma board_client_hosts:
  assumes "Inr client \<in> set (board_clients parse m tenant token operation dataCenter apiDomains)"
  shows "reachable_hosts parse m (opt_hosts (jc_http client))"
proof -
  have fixed: "sbind a (\<lambda>x. createJobBoardClient (board_options provider (base x) (jm_allowedHosts m) bounds headers)) = Inr client
      \<Longrightarrow> reachable_hosts parse m (opt_hosts (jc_http client))" for provider bounds headers and a :: "'x res" and base
    by (auto simp: res_simps board_options_def reachable_hosts_def dest!: createJobBoardClient_Inr)
  have zoho: "reachable_hosts parse m (opt_hosts (jc_http client))"
    if "zoho_createClient parse m token operation dataCenter apiDomains = Inr client"
  proof -
    from that obtain k c h where "resolveDataCenter dataCenter = Inr (k, c)" "apiHostFor parse c = Inr h"
        and "opt_hosts (jc_http client) = [h]"
      by (auto simp: zoho_createClient_def res_simps board_options_def dest!: createJobBoardClient_Inr)
    moreover from this(1) have "(k, c) \<in> set ZOHO_RECRUIT_DATA_CENTERS"
      by (auto simp: resolveDataCenter_def Let_def intro: map_of_SomeD split: option.splits)
    ultimately show ?thesis by (auto simp: reachable_hosts_def apiHostFor_def split: option.splits)
  qed
  from assms show ?thesis
    unfolding board_clients_def list.set ashby_createClient_def greenhouse_createClient_def lever_createClient_def recruitee_createClient_def
      recruitee_createAtsClient_def smartrecruiters_createClient_def smartrecruiters_createAuthClient_def workable_createClient_def
    by (auto dest: fixed [OF sym] zoho [OF sym])
qed

text \<open>Whatever tenant, credential, data centre and path are given: at most one GET, over https, without user information and without
  following redirects, to a host of the manifest or to the host of the data centre.\<close>

theorem board_requests_confined:
  assumes "Inr client \<in> set (board_clients (p_parse pf) m tenant token operation dataCenter apiDomains)"
  shows "\<exists>es. fst (board_getJSON pf context client path now sent) = sent @ es \<and> length es \<le> 1
    \<and> list_all (\<lambda>r. req_method (sent_init r) = ''GET'' \<and> sent_redirect r = ''manual''
        \<and> (\<exists>u hosts. sent_url r = url_href u \<and> protocol u = ''https:'' \<and> username u = [] \<and> password u = []
             \<and> reachable_hosts (p_parse pf) m hosts \<and> hostIsAllowed (hostname u) hosts)) es"
proof -
  let ?init = "\<lparr>req_method = ''GET'', req_headers = spread_headers [(''Accept'', ''application/json'')] (jb_headers (jc_options client)),
     req_body = None, req_signal = None\<rparr>" and ?url = "Text (jb_baseUrl (jc_options client) @ path)"
  have "fst (board_getJSON pf context client path now sent) = fst (fetch_async pf (jc_http client) context ?url ?init now sent)"
    unfolding board_getJSON_def Let_def by (auto simp: await_async_def settled_def split: prod.split promise.split sum.split)
  moreover from fetch_async_sent obtain es where es: "fst (fetch_async pf (jc_http client) context ?url ?init now sent) = sent @ es" "length es \<le> 1"
      "list_all (outbound (p_parse pf) (jc_http client) ?url ?init) es" by blast
  moreover from es(3) have "list_all (\<lambda>r. req_method (sent_init r) = ''GET'' \<and> sent_redirect r = ''manual''
        \<and> (\<exists>u hosts. sent_url r = url_href u \<and> protocol u = ''https:'' \<and> username u = [] \<and> password u = []
             \<and> reachable_hosts (p_parse pf) m hosts \<and> hostIsAllowed (hostname u) hosts)) es"
    using board_client_hosts [OF assms] by (fastforce simp: list_all_iff outbound_def)
  ultimately show ?thesis by auto
qed

end
