(* ===== verification/GreenhouseObjects.thy ===== *)
theory GreenhouseObjects
  imports JobBoard Messages
begin

text \<open>
  The object models of the Greenhouse connector (\<open>runner/connectors/greenhouse/src/objects.ts\<close>): provider rows are turned into
  normalized objects. A row is any JSON value; reading a property of \<open>null\<close> throws \<open>no_properties\<close>, calling something that is
  not a function throws \<open>not_a_function\<close> (the texts are those of the engine).
\<close>

definition not_a_function :: thrown where
  "not_a_function = ErrorInst ''TypeError'' ''not a function'' []"

section \<open>Fields\<close>

definition asStringId :: "jsval \<Rightarrow> jsval" where
  "asStringId v =
     (case v of JNum n \<Rightarrow> if is_finite n then JStr (num_to_string n) else JNull
      | JStr (c # cs) \<Rightarrow> JStr (c # cs) | _ \<Rightarrow> JNull)"

definition asIso :: "jsval \<Rightarrow> jsval" where
  "asIso v = (case v of JStr (c # cs) \<Rightarrow> JStr (c # cs) | _ \<Rightarrow> JNull)"

definition contactValues :: "jsval \<Rightarrow> jsval" where
  "contactValues v =
     (case v of JArr items \<Rightarrow> JArr (filter (\<lambda>x. asIso x \<noteq> JNull) (map (\<lambda>item. get item ''value'') items)) | _ \<Rightarrow> JArr [])"

definition asStringArray :: "jsval \<Rightarrow> jsval" where
  "asStringArray v =
     (case v of JArr items \<Rightarrow> JArr (filter (\<lambda>x. asIso x \<noteq> JNull) (map (\<lambda>x. case x of JStr s \<Rightarrow> JStr s | _ \<Rightarrow> asStringId x) items))
      | _ \<Rightarrow> JArr [])"

text \<open>The identifier of a row with the prefix of its kind, and \<open>v?.[0]\<close>.\<close>

definition prefixed :: "string \<Rightarrow> jsval \<Rightarrow> string \<times> jsval" where
  "prefixed label row = (''id'', JStr (''gh-'' @ label @ '':'' @ str_of (asStringId (get row ''id''))))"

abbreviation greenhouse_row :: "string \<times> jsval" where
  "greenhouse_row \<equiv> (''provider'', JStr ''greenhouse'')"

definition element0 :: "jsval \<Rightarrow> jsval" where
  "element0 v = (case v of JArr (x # _) \<Rightarrow> x | JStr (c # _) \<Rightarrow> JStr [c] | JObj _ \<Rightarrow> get v ''0'' | _ \<Rightarrow> JUndef)"

definition array0 :: "jsval \<Rightarrow> jsval" where
  "array0 v = (case v of JArr (x # _) \<Rightarrow> x | _ \<Rightarrow> JUndef)"

definition or_null :: "jsval \<Rightarrow> jsval" where
  "or_null v = nullish v JNull"

definition full_name :: "jsval \<Rightarrow> jsval \<Rightarrow> string" where
  "full_name firstName lastName = join '' '' (map str_of (filter (\<lambda>x. asIso x \<noteq> JNull) [firstName, lastName]))"

section \<open>Rows\<close>

fun find_named :: "string \<Rightarrow> jsval list \<Rightarrow> jsval res" where
  "find_named name [] = Inr JUndef"
| "find_named name (m # ms) =
     (if is_nullish m then Inl no_properties else if get m ''name'' = JStr name then Inr m else find_named name ms)"

definition jobType :: "jsval \<Rightarrow> jsval res" where
  "jobType job =
     sbind (if truthy (get job ''metadata'')
            then (case get job ''metadata'' of JArr ms \<Rightarrow> find_named ''Employment Type'' ms | _ \<Rightarrow> Inl not_a_function)
            else Inr JUndef) (\<lambda>typeMeta.
     let fromMeta = get typeMeta ''value'';
         emp = get (get (get job ''keyed_custom_fields'') ''employment_type'') ''value''
     in Inr (if truthy fromMeta then fromMeta else if truthy emp then emp else JNull))"

definition normalizeJob :: "jsval \<Rightarrow> jsval res" where
  "normalizeJob job =
     (if is_nullish job then Inl no_properties
      else let office = array0 (get job ''offices'') in
        sbind (jobType job) (\<lambda>employment.
        Inr (JObj [prefixed ''job'' job, greenhouse_row,
          (''title'', if asIso (get job ''title'') \<noteq> JNull then get job ''title'' else JStr (str_of (get job ''name''))),
          (''location'', nullish (get (get job ''location'') ''name'') (nullish (get (get office ''location'') ''name'') (asIso (get office ''name'')))),
          (''department'', or_null (get (element0 (get job ''departments'')) ''name'')),
          (''jobType'', employment), (''updatedAt'', or_null (get job ''updated_at'')), (''url'', or_null (get job ''absolute_url''))])))"

text \<open>The other rows have no field that can throw, once the row is not \<open>null\<close>.\<close>

definition normalized :: "(jsval \<Rightarrow> props) \<Rightarrow> jsval \<Rightarrow> jsval res" where
  "normalized f row = (if is_nullish row then Inl no_properties else Inr (JObj (f row)))"

definition normalizeCandidate :: "jsval \<Rightarrow> jsval res" where
  "normalizeCandidate = normalized (\<lambda>row.
     let firstName = or_null (get row ''first_name''); lastName = or_null (get row ''last_name'') in
     [prefixed ''candidate'' row, greenhouse_row, (''firstName'', firstName), (''lastName'', lastName),
      (''name'', JStr (full_name firstName lastName)), (''company'', or_null (get row ''company'')), (''title'', or_null (get row ''title'')),
      (''emails'', contactValues (get row ''email_addresses'')), (''phones'', contactValues (get row ''phone_numbers'')),
      (''applicationIds'', asStringArray (get row ''application_ids'')), (''tags'', asStringArray (get row ''tags'')),
      (''recruiterId'', asStringId (nullish (get (get row ''recruiter'') ''id'') (get row ''recruiter_id''))),
      (''coordinatorId'', asStringId (nullish (get (get row ''coordinator'') ''id'') (get row ''coordinator_id''))),
      (''createdAt'', asIso (get row ''created_at'')), (''updatedAt'', asIso (get row ''updated_at'')),
      (''lastActivityAt'', asIso (nullish (get row ''last_activity_at'') (get row ''last_activity'')))])"

definition normalizeApplication :: "jsval \<Rightarrow> jsval res" where
  "normalizeApplication = normalized (\<lambda>row.
     let firstJob = array0 (get row ''jobs''); stage = get row ''current_stage''; sourceId = get row ''source_id'' in
     [prefixed ''application'' row, greenhouse_row, (''candidateId'', asStringId (get row ''candidate_id'')),
      (''prospect'', JBool (get row ''prospect'' = JBool True)), (''status'', or_null (get row ''status'')),
      (''jobId'', asStringId (nullish (get row ''job_id'') (get firstJob ''id''))), (''jobName'', or_null (get firstJob ''name'')),
      (''stageId'', asStringId (nullish (get row ''stage_id'') (get stage ''id''))),
      (''stageName'', nullish (get row ''stage_name'') (or_null (get stage ''name''))),
      (''source'', nullish (get (get row ''source'') ''public_name'') (if is_nullish sourceId then JNull else JStr (to_str sourceId))),
      (''appliedAt'', asIso (nullish (get row ''applied_at'') (get row ''created_at''))), (''rejectedAt'', asIso (get row ''rejected_at'')),
      (''lastActivityAt'', asIso (get row ''last_activity_at''))])"

definition normalizeUser :: "jsval \<Rightarrow> jsval res" where
  "normalizeUser = normalized (\<lambda>row.
     let firstName = or_null (get row ''first_name''); lastName = or_null (get row ''last_name'');
         primary = nullish (asIso (get row ''primary_email_address'')) (asIso (get row ''primary_email''));
         emails = items_of (asStringArray (get row ''emails'')) in
     [prefixed ''user'' row, greenhouse_row,
      (''name'', if asIso (get row ''name'') \<noteq> JNull then get row ''name'' else JStr (full_name firstName lastName)),
      (''firstName'', firstName), (''lastName'', lastName), (''primaryEmail'', primary),
      (''emails'', JArr (if emails = [] \<and> truthy primary then [primary] else emails)),
      (''employeeId'', or_null (get row ''employee_id'')), (''disabled'', JBool (get row ''disabled'' = JBool True)),
      (''siteAdmin'', JBool (get row ''site_admin'' = JBool True)), (''createdAt'', asIso (get row ''created_at'')),
      (''updatedAt'', asIso (get row ''updated_at''))])"

definition interviewTimestamp :: "jsval \<Rightarrow> jsval" where
  "interviewTimestamp slot = nullish (asIso (get slot ''date_time'')) (asIso (get slot ''date''))"

definition normalizeInterview :: "jsval \<Rightarrow> jsval res" where
  "normalizeInterview = normalized (\<lambda>row.
     let ids = map (\<lambda>r. asStringId (nullish (get r ''user_id'') (get r ''id''))) (items_of (get row ''interviewers'')) in
     [prefixed ''interview'' row, greenhouse_row, (''applicationId'', asStringId (get row ''application_id'')),
      (''externalEventId'', asIso (get row ''external_event_id'')), (''status'', or_null (get row ''status'')),
      (''interviewId'', asStringId (get (get row ''interview'') ''id'')), (''interviewName'', or_null (get (get row ''interview'') ''name'')),
      (''startsAt'', interviewTimestamp (get row ''start'')), (''endsAt'', interviewTimestamp (get row ''end'')),
      (''location'', or_null (get row ''location'')), (''videoConferencingUrl'', or_null (get row ''video_conferencing_url'')),
      (''organizerId'', asStringId (get (get row ''organizer'') ''id'')), (''interviewerIds'', JArr (filter truthy ids)),
      (''createdAt'', asIso (get row ''created_at'')), (''updatedAt'', asIso (get row ''updated_at''))])"

definition finite_or_null :: "jsval \<Rightarrow> jsval" where
  "finite_or_null v = (case v of JNum n \<Rightarrow> if is_finite n then v else JNull | _ \<Rightarrow> JNull)"

definition normalizeJobInterviewStage :: "jsval \<Rightarrow> jsval res" where
  "normalizeJobInterviewStage = normalized (\<lambda>row.
     [prefixed ''job-interview-stage'' row, greenhouse_row, (''name'', JStr (str_of (get row ''name''))),
      (''jobId'', asStringId (get row ''job_id'')), (''sortOrder'', finite_or_null (get row ''sort_order'')),
      (''active'', JBool (get row ''active'' = JBool True)), (''createdAt'', asIso (get row ''created_at'')),
      (''updatedAt'', asIso (get row ''updated_at''))])"

definition normalizeOffer :: "jsval \<Rightarrow> jsval res" where
  "normalizeOffer = normalized (\<lambda>row.
     [prefixed ''offer'' row, greenhouse_row, (''applicationId'', asStringId (get row ''application_id'')),
      (''jobId'', asStringId (get row ''job_id'')), (''candidateId'', asStringId (get row ''candidate_id'')),
      (''status'', or_null (get row ''status'')), (''version'', finite_or_null (get row ''version'')),
      (''startsAt'', asIso (get row ''starts_at'')), (''sentAt'', asIso (get row ''sent_at'')), (''resolvedAt'', asIso (get row ''resolved_at'')),
      (''createdAt'', asIso (get row ''created_at'')), (''updatedAt'', asIso (get row ''updated_at''))])"

definition normalizeScorecard :: "jsval \<Rightarrow> jsval res" where
  "normalizeScorecard = normalized (\<lambda>row.
     [prefixed ''scorecard'' row, greenhouse_row, (''applicationId'', asStringId (get row ''application_id'')),
      (''candidateId'', asStringId (get row ''candidate_id'')),
      (''interviewName'', nullish (get row ''interview'') (or_null (get (get row ''interview_step'') ''name''))),
      (''interviewStepId'', asStringId (get (get row ''interview_step'') ''id'')),
      (''interviewerId'', asStringId (get (get row ''interviewer'') ''id'')),
      (''overallRecommendation'', or_null (get row ''overall_recommendation'')), (''status'', or_null (get row ''status'')),
      (''interviewedAt'', asIso (get row ''interviewed_at'')), (''submittedAt'', asIso (get row ''submitted_at'')),
      (''createdAt'', asIso (get row ''created_at'')), (''updatedAt'', asIso (get row ''updated_at''))])"

definition normalizeDepartment :: "jsval \<Rightarrow> jsval res" where
  "normalizeDepartment = normalized (\<lambda>row.
     [prefixed ''department'' row, greenhouse_row, (''name'', nullish (get row ''name'') (JStr [])),
      (''parentId'', asStringId (get row ''parent_id'')), (''externalId'', or_null (get row ''external_id''))])"

definition normalizeOffice :: "jsval \<Rightarrow> jsval res" where
  "normalizeOffice = normalized (\<lambda>row.
     [prefixed ''office'' row, greenhouse_row, (''name'', nullish (get row ''name'') (JStr [])),
      (''location'', or_null (get (get row ''location'') ''name'')), (''parentId'', asStringId (get row ''parent_id'')),
      (''externalId'', or_null (get row ''external_id''))])"

definition normalizeSource :: "jsval \<Rightarrow> jsval res" where
  "normalizeSource = normalized (\<lambda>row.
     [prefixed ''source'' row, greenhouse_row, (''name'', nullish (get row ''public_name'') (nullish (get row ''name'') (JStr []))),
      (''type'', or_null (get (get row ''type'') ''name''))])"

definition normalizeCloseReason :: "jsval \<Rightarrow> jsval res" where
  "normalizeCloseReason = normalized (\<lambda>row. [prefixed ''close-reason'' row, greenhouse_row, (''name'', nullish (get row ''name'') (JStr []))])"

section \<open>Answers\<close>

definition parseJobsResponse :: "jsval \<Rightarrow> jsval res" where
  "parseJobsResponse raw =
     (if is_nullish raw then Inl no_properties
      else sbind (case nullish (get raw ''jobs'') (JArr []) of JArr xs \<Rightarrow> map_res normalizeJob xs | _ \<Rightarrow> Inl not_a_function) (\<lambda>jobs.
           Inr (JObj [(''jobs'', JArr jobs), (''total'', or_null (get (get raw ''meta'') ''total''))])))"

text \<open>The list parsers \<open>parseCandidatesResponse\<close> to \<open>parseCloseReasonsResponse\<close>, for the name of their list.\<close>

definition parse_rows :: "(jsval \<Rightarrow> jsval res) \<Rightarrow> string \<Rightarrow> jsval \<Rightarrow> props res" where
  "parse_rows f key raw = sbind (map_res f (items_of raw)) (\<lambda>xs. Inr [(key, JArr xs)])"

text \<open>The parsers of a single row, \<open>parseCandidateGetResponse\<close> and its like.\<close>

definition parse_row :: "(jsval \<Rightarrow> jsval res) \<Rightarrow> string \<Rightarrow> jsval \<Rightarrow> jsval res" where
  "parse_row f key raw =
     (let row = (case raw of JArr xs \<Rightarrow> array0 raw | _ \<Rightarrow> raw) in
      if \<not> is_record row \<or> asStringId (get row ''id'') = JNull then Inr (JObj [(key, JNull)])
      else sbind (f row) (\<lambda>x. Inr (JObj [(key, x)])))"

section \<open>Identity of rows\<close>

definition normalizers :: "(string \<times> (jsval \<Rightarrow> jsval res)) list" where
  "normalizers =
     [(''job'', normalizeJob), (''candidate'', normalizeCandidate), (''application'', normalizeApplication), (''user'', normalizeUser),
      (''interview'', normalizeInterview), (''job-interview-stage'', normalizeJobInterviewStage), (''offer'', normalizeOffer),
      (''scorecard'', normalizeScorecard), (''department'', normalizeDepartment), (''office'', normalizeOffice),
      (''source'', normalizeSource), (''close-reason'', normalizeCloseReason)]"

text \<open>A normalized row is an object of its kind with the identifier of the row.\<close>

definition keeps_identity :: "string \<Rightarrow> (jsval \<Rightarrow> jsval res) \<Rightarrow> bool" where
  "keeps_identity label f \<longleftrightarrow>
     (\<forall>row x. f row = Inr x \<longrightarrow> (\<exists>ps. x = JObj (prefixed label row # greenhouse_row # ps)))"

lemma normalized_identity: "(\<And>row. \<exists>ps. f row = prefixed label row # greenhouse_row # ps) \<Longrightarrow> keeps_identity label (normalized f)"
  by (auto simp: keeps_identity_def normalized_def)

lemma rows_keep_identity: "list_all (\<lambda>(label, f). keeps_identity label f) normalizers"
  unfolding normalizers_def list.pred_inject prod.case normalizeCandidate_def normalizeApplication_def normalizeUser_def normalizeInterview_def
    normalizeJobInterviewStage_def normalizeOffer_def normalizeScorecard_def normalizeDepartment_def normalizeOffice_def normalizeSource_def
    normalizeCloseReason_def Let_def
  by (intro conjI TrueI normalized_identity) (auto simp: keeps_identity_def normalizeJob_def Let_def res_simps split: if_splits)

text \<open>A page of rows is answered with one object per row, in order, or not at all; a single row only if it has an identifier.\<close>

lemma parse_rows_identity:
  assumes "(label, f) \<in> set normalizers" and "parse_rows f key (JArr rows) = Inr out"
  shows "\<exists>xs. out = [(key, JArr xs)] \<and> list_all2 (\<lambda>row x. get x ''id'' = snd (prefixed label row)) rows xs"
proof -
  from assms(1) rows_keep_identity have k: "keeps_identity label f" by (auto simp: list_all_iff)
  from assms(2) obtain xs where "list_all2 (\<lambda>row x. f row = Inr x) rows xs" "out = [(key, JArr xs)]"
    by (auto simp: parse_rows_def items_of_def res_simps)
  moreover have "get x ''id'' = snd (prefixed label row)" if "f row = Inr x" for row x
  proof -
    from k that obtain ps where "x = JObj (prefixed label row # greenhouse_row # ps)" unfolding keeps_identity_def by blast
    then show ?thesis by (simp add: get_def [of x] prop_get_def [of "_ # _"] prefixed_def)
  qed
  ultimately show ?thesis by (auto intro: list_all2_mono)
qed

lemma parse_row_identified:
  assumes "(label, f) \<in> set normalizers" and "parse_row f key raw = Inr (JObj [(key, JObj ps)])"
  shows "\<exists>row. is_record row \<and> (row = raw \<or> raw = JArr (row # tl (items_of raw))) \<and> ps \<noteq> [] \<and> hd ps = prefixed label row
    \<and> asStringId (get row ''id'') \<noteq> JNull"
proof -
  from assms(1) rows_keep_identity have k: "keeps_identity label f" by (auto simp: list_all_iff)
  let ?row = "case raw of JArr xs \<Rightarrow> array0 raw | _ \<Rightarrow> raw"
  from assms(2) have r: "is_record ?row" "asStringId (get ?row ''id'') \<noteq> JNull" "f ?row = Inr (JObj ps)"
    by (auto simp: parse_row_def Let_def res_simps split: if_splits)
  have "?row = raw \<or> raw = JArr (?row # tl (items_of raw))"
    using r(1) by (auto simp: array0_def items_of_def split: jsval.splits list.splits)
  moreover from k r(3) have "ps \<noteq> [] \<and> hd ps = prefixed label ?row" by (fastforce simp: keeps_identity_def)
  ultimately show ?thesis using r(1,2) by blast
qed

end
