(* ===== verification/GreenhouseOps.thy ===== *)
theory GreenhouseOps
  imports Greenhouse GreenhouseObjects
begin

text \<open>
  The operations of the Greenhouse connector in \<open>sync.ts\<close> and \<open>healthcheck.ts\<close> of \<open>runner/connectors/greenhouse/src\<close>, and the
  helpers that \<open>g1.ts\<close> and \<open>g2.ts\<close> repeat. An operation checks its input, creates a client, makes one call and maps the answer;
  the input is the object that the registry passes. The second half is the contract of an operation: its requests stay
  at one endpoint, a method and a path template (\<open>stays_at\<close>).
\<close>

record gh_env =
  ge_manifest :: job_manifest
  ge_platform :: http_platform
  ge_context :: "ExecutionContext option"
  ge_cursor_of :: "string \<Rightarrow> string option"

type_synonym gh_operation = "gh_env \<Rightarrow> jsval \<Rightarrow> jsval gh"

section \<open>Reading the input\<close>

definition buildQuery :: "props \<Rightarrow> string" where
  "buildQuery params =
     (let encoded = form_serialize (map (\<lambda>(k, v). (k, to_str v)) (filter (\<lambda>(k, v). \<not> is_nullish v \<and> v \<noteq> JStr []) params))
      in if encoded \<noteq> [] then CHR ''?'' # encoded else [])"

definition shown :: "jsval \<Rightarrow> jsval" where
  "shown v = (if is_nullish v then JUndef else JStr (to_str v))"

definition per_page :: "jsval \<Rightarrow> string \<times> jsval" where
  "per_page input = (''per_page'', shown (get input ''perPage''))"

definition requireCursorNotPage :: "jsval \<Rightarrow> string \<Rightarrow> unit res" where
  "requireCursorNotPage input label =
     guard (is_nullish (get input ''page'')) (Error (label @ '': page is not supported on Harvest v3; pass cursor instead''))"

definition range_filter :: "jsval \<Rightarrow> string \<Rightarrow> string \<Rightarrow> jsval res" where
  "range_filter input before after =
     (let a = get input after; b = get input before in
      if truthy a \<and> truthy b then Inl (Error (after @ '' and '' @ before @ '' cannot both be set on Harvest v3''))
      else Inr (if truthy a then JStr (''gte|'' @ to_str a) else if truthy b then JStr (''lt|'' @ to_str b) else JUndef))"

definition createdAtFilter :: "jsval \<Rightarrow> jsval res" where
  "createdAtFilter input = range_filter input ''createdBefore'' ''createdAfter''"

definition updatedAtFilter :: "jsval \<Rightarrow> jsval res" where
  "updatedAtFilter input = range_filter input ''updatedBefore'' ''updatedAfter''"

definition authClientOpts :: "gh_env \<Rightarrow> jsval \<Rightarrow> string \<Rightarrow> gh_client res" where
  "authClientOpts env input operation =
     gh_createAuthClient (ge_manifest env) (str_of (get input ''clientId'')) (str_of (get input ''clientSecret''))
       (case get input ''userId'' of JStr u \<Rightarrow> Some u | _ \<Rightarrow> None) (Some operation)"

text \<open>\<open>Math.trunc\<close> on a finite number, and \<open>/^-?\d+$/\<close>.\<close>

definition num_trunc :: "jsnum \<Rightarrow> jsnum" where
  "num_trunc n =
     (case n of Fin r \<Rightarrow> if r < 0 then (if \<lceil>r\<rceil> = 0 then NegZero else Fin (of_int \<lceil>r\<rceil>)) else Fin (of_int \<lfloor>r\<rfloor>) | _ \<Rightarrow> n)"

definition integer_text :: "string \<Rightarrow> bool" where
  "integer_text s = (let ds = (if starts_with ''-'' s then drop 1 s else s) in ds \<noteq> [] \<and> list_all is_digit ds)"

definition integer_id :: "jsval \<Rightarrow> jsval option" where
  "integer_id v =
     (case v of JNum n \<Rightarrow> if is_finite n then Some (JNum (num_trunc n)) else None
      | JStr s \<Rightarrow> if integer_text s then Some (JNum (str_to_num s)) else None
      | _ \<Rightarrow> None)"

definition asId :: "jsval \<Rightarrow> string \<Rightarrow> jsval res" where
  "asId v field = (case integer_id v of Some i \<Rightarrow> Inr i | None \<Rightarrow> Inl (Error (field @ '' is required'')))"

definition optionalId :: "string \<Rightarrow> jsval \<Rightarrow> jsval res" where
  "optionalId label v =
     (if is_nullish v \<or> v = JStr [] then Inr JUndef
      else case integer_id v of Some i \<Rightarrow> Inr i | None \<Rightarrow> Inl (Error (label @ '' must be an integer'')))"

definition optionalString :: "jsval \<Rightarrow> jsval" where
  "optionalString v = (case v of JStr (c # cs) \<Rightarrow> v | _ \<Rightarrow> JUndef)"

definition requiredString :: "jsval \<Rightarrow> string \<Rightarrow> jsval res" where
  "requiredString v field = (case optionalString v of JUndef \<Rightarrow> Inl (Error (field @ '' is required'')) | s \<Rightarrow> Inr s)"

definition joinIds :: "jsval \<Rightarrow> jsval" where
  "joinIds v =
     (if is_nullish v \<or> v = JStr [] then JUndef
      else case v of
          JArr xs \<Rightarrow> (case filter (\<lambda>s. s \<noteq> []) (map to_str xs) of [] \<Rightarrow> JUndef | parts \<Rightarrow> JStr (join '','' parts))
        | _ \<Rightarrow> JStr (to_str v))"

definition boolParam :: "jsval \<Rightarrow> jsval" where
  "boolParam v = (case v of JBool b \<Rightarrow> JStr (to_str v) | _ \<Rightarrow> JUndef)"

definition perPageParam :: "jsval \<Rightarrow> jsval" where
  "perPageParam v = (case v of JNum n \<Rightarrow> if is_finite n then JStr (num_to_string (num_trunc n)) else JUndef | _ \<Rightarrow> JUndef)"

definition optionalBoundedInt :: "jsval \<Rightarrow> string \<Rightarrow> int \<Rightarrow> int \<Rightarrow> jsval res" where
  "optionalBoundedInt v field lo hi =
     (if is_nullish v \<or> v = JStr [] then Inr JUndef
      else let n = (case v of JNum n \<Rightarrow> n | JStr s \<Rightarrow> if list_all is_digit s then str_to_num s else NaN | _ \<Rightarrow> NaN) in
        if \<not> is_integer n \<or> num_lt n (Fin (of_int lo)) \<or> num_lt (Fin (of_int hi)) n
        then Inl (Error (field @ '' must be an integer between '' @ show_int lo @ '' and '' @ show_int hi))
        else Inr (JNum n))"

text \<open>Optional members of a body: identifiers, and texts copied under another name.\<close>

definition id_fields :: "(string \<Rightarrow> string) \<Rightarrow> jsval \<Rightarrow> (string \<times> string) list \<Rightarrow> props res" where
  "id_fields label input names =
     sbind (map_res (\<lambda>(camel, snake). sbind (optionalId (label camel) (get input camel)) (\<lambda>v. Inr (snake, v))) names) (\<lambda>fields.
     Inr (filter (\<lambda>(k, v). v \<noteq> JUndef) fields))"

definition text_fields :: "jsval \<Rightarrow> (string \<times> string) list \<Rightarrow> props" where
  "text_fields input names =
     filter (\<lambda>(k, v). optionalString v \<noteq> JUndef) (map (\<lambda>(camel, snake). (snake, get input camel)) names)"

text \<open>An object or array that is copied as it is.\<close>

definition object_field :: "jsval \<Rightarrow> string \<Rightarrow> string \<Rightarrow> props" where
  "object_field input camel snake =
     (case get input camel of JObj ps \<Rightarrow> [(snake, JObj ps)] | JArr xs \<Rightarrow> [(snake, JArr xs)] | _ \<Rightarrow> [])"

text \<open>\<open>assertSafePathSegment\<close> on a value of any type.\<close>

definition path_id :: "jsval \<Rightarrow> string \<Rightarrow> string res" where
  "path_id v field =
     (case v of JStr s \<Rightarrow> JobBoard.assertSafePathSegment s field
      | _ \<Rightarrow> Inl (if is_nullish v then no_properties else not_a_function))"

section \<open>Calls\<close>

text \<open>A client is created for each call; its secrets begin with the client secret.\<close>

definition with_client :: "gh_env \<Rightarrow> jsval \<Rightarrow> string \<Rightarrow> (gh_client \<Rightarrow> 'a gh) \<Rightarrow> 'a gh" where
  "with_client env input operation f now st =
     check_async (authClientOpts env input operation) (\<lambda>c now st. f c now (st\<lparr>gh_secrets := [gc_clientSecret c]\<rparr>)) now st"

definition cursor_value :: "string option \<Rightarrow> jsval" where
  "cursor_value nextCursor = (case nextCursor of Some n \<Rightarrow> JStr n | None \<Rightarrow> JNull)"

definition list_call :: "gh_env \<Rightarrow> jsval \<Rightarrow> string \<Rightarrow> string \<Rightarrow> props res \<Rightarrow> (jsval \<Rightarrow> props res) \<Rightarrow> jsval gh" where
  "list_call env input operation path params parse =
     with_client env input operation (\<lambda>c.
     check_async params (\<lambda>ps.
     await_async (getJSONWithMeta (ge_cursor_of env) (ge_platform env) (ge_context env) c (path @ buildQuery ps)) (\<lambda>(body, _, nextCursor).
     settled (sbind (parse body) (\<lambda>out. Inr (JObj (out @ [(''nextCursor'', cursor_value nextCursor)])))))))"

definition read_call :: "gh_env \<Rightarrow> jsval \<Rightarrow> string \<Rightarrow> string \<Rightarrow> (jsval \<Rightarrow> jsval res) \<Rightarrow> jsval gh" where
  "read_call env input operation path parse =
     with_client env input operation (\<lambda>c.
     await_async (gh_getJSON (ge_platform env) (ge_context env) c path) (\<lambda>raw. settled (parse raw)))"

definition get_call :: "gh_env \<Rightarrow> jsval \<Rightarrow> string \<Rightarrow> string \<Rightarrow> (jsval \<Rightarrow> jsval res) \<Rightarrow> jsval gh" where
  "get_call env input operation path parse =
     check_async (path_id (get input ''id'') ''id'') (\<lambda>i.
     read_call env input operation (path @ ''?ids='' @ encode_uri i @ ''&per_page=1'') parse)"

definition write_call :: "gh_env \<Rightarrow> jsval \<Rightarrow> string \<Rightarrow> string \<Rightarrow> string \<Rightarrow> props res \<Rightarrow> (jsval \<Rightarrow> jsval) \<Rightarrow> jsval gh" where
  "write_call env input operation verb path body out =
     check_async body (\<lambda>ps.
     with_client env input operation (\<lambda>c.
     await_async (gh_writeJSON (ge_platform env) (ge_context env) c verb path (JObj ps) []) (\<lambda>raw. settled (Inr (out raw)))))"

definition id_write_call :: "gh_env \<Rightarrow> jsval \<Rightarrow> string \<Rightarrow> string \<Rightarrow> string \<Rightarrow> string \<Rightarrow> props res \<Rightarrow> (jsval \<Rightarrow> jsval) \<Rightarrow> jsval gh" where
  "id_write_call env input operation verb before after body out =
     check_async (path_id (get input ''id'') ''id'') (\<lambda>i. write_call env input operation verb (before @ i @ after) body out)"

definition deleteById :: "gh_env \<Rightarrow> jsval \<Rightarrow> string \<Rightarrow> string \<Rightarrow> jsval gh" where
  "deleteById env input path operation =
     check_async (path_id (get input ''id'') ''id'') (\<lambda>i.
     with_client env input operation (\<lambda>c.
     await_async (gh_deleteJSON (ge_platform env) (ge_context env) c (path @ i) JUndef []) (\<lambda>_.
     settled (Inr (JObj [(''ok'', JBool True)])))))"

section \<open>sync.ts\<close>

definition executeJobsListSync :: gh_operation where
  "executeJobsListSync env input now st =
     (case check_async (sbind (case get input ''boardToken'' of JStr s \<Rightarrow> Inr s
                            | v \<Rightarrow> Inl (if is_nullish v then no_properties else not_a_function)) (greenhouse_createClient (ge_manifest env)))
             (\<lambda>client. await_async (board_getJSON (ge_platform env) (ge_context env) client ''/jobs'') (\<lambda>raw. settled (parseJobsResponse raw)))
             now (gh_sent st) of
        (sent, p) \<Rightarrow> (st\<lparr>gh_sent := sent\<rparr>, p))"

definition executeCandidatesListSync :: gh_operation where
  "executeCandidatesListSync env input =
     check_async (requireCursorNotPage input ''candidates.list'') (\<lambda>_.
     list_call env input ''candidates.list'' ''/candidates''
       (sbind (createdAtFilter input) (\<lambda>created. sbind (updatedAtFilter input) (\<lambda>updated. Inr
          [per_page input, (''cursor'', get input ''cursor''), (''created_at'', created), (''updated_at'', updated),
           (''job_ids'', shown (get input ''jobId'')), (''email'', get input ''email''), (''candidate_ids'', get input ''candidateIds'')])))
       (parse_rows normalizeCandidate ''candidates''))"

definition executeCandidatesGetSync :: gh_operation where
  "executeCandidatesGetSync env input = get_call env input ''candidates.get'' ''/candidates'' (parse_row normalizeCandidate ''candidate'')"

definition executeApplicationsListSync :: gh_operation where
  "executeApplicationsListSync env input =
     check_async (requireCursorNotPage input ''applications.list'') (\<lambda>_.
     list_call env input ''applications.list'' ''/applications''
       (sbind (createdAtFilter input) (\<lambda>created. let last = get input ''lastActivityAfter'' in Inr
          [per_page input, (''cursor'', get input ''cursor''), (''created_at'', created),
           (''last_activity_at'', if truthy last then JStr (''gte|'' @ to_str last) else JUndef),
           (''job_ids'', shown (get input ''jobId'')), (''status'', get input ''status'')]))
       (parse_rows normalizeApplication ''applications''))"

definition executeApplicationsGetSync :: gh_operation where
  "executeApplicationsGetSync env input = get_call env input ''applications.get'' ''/applications'' (parse_row normalizeApplication ''application'')"

definition stage_label :: "string \<Rightarrow> string" where
  "stage_label field = ''stage/job id''"

definition executeApplicationsMoveSync :: gh_operation where
  "executeApplicationsMoveSync env input =
     id_write_call env input ''applications.move'' ''POST'' ''/applications/'' ''/move''
       (sbind (asId (get input ''fromStageId'') ''fromStageId'') (\<lambda>from.
        sbind (id_fields stage_label input [(''toStageId'', ''to_stage_id''), (''toJobId'', ''to_job_id''),
            (''emailFromUserId'', ''email_from_user_id'')]) (\<lambda>rest. Inr ((''from_stage_id'', from) # rest))))
       (\<lambda>_. JObj [(''application'', JNull)])"

definition executeApplicationsCreateSync :: gh_operation where
  "executeApplicationsCreateSync env input =
     write_call env input ''applications.create'' ''POST'' ''/applications''
       (sbind (asId (get input ''candidateId'') ''candidateId'') (\<lambda>candidateId.
        sbind (asId (get input ''jobId'') ''jobId'') (\<lambda>jobId.
        sbind (id_fields stage_label input [(''initialStageId'', ''initial_stage_id''), (''sourceId'', ''source_id''),
            (''recruiterId'', ''recruiter_id''), (''coordinatorId'', ''coordinator_id''), (''referrerId'', ''referrer_id'')]) (\<lambda>rest.
        Inr ([(''candidate_id'', candidateId), (''job_id'', jobId)] @ rest)))))
       (\<lambda>raw. raw)"

definition executeUsersListSync :: gh_operation where
  "executeUsersListSync env input =
     check_async (requireCursorNotPage input ''users.list'') (\<lambda>_.
     list_call env input ''users.list'' ''/users''
       (sbind (createdAtFilter input) (\<lambda>created. sbind (updatedAtFilter input) (\<lambda>updated. Inr
          [per_page input, (''cursor'', get input ''cursor''), (''created_at'', created), (''updated_at'', updated),
           (''email'', get input ''email''), (''employee_id'', get input ''employeeId'')])))
       (parse_rows normalizeUser ''users''))"

definition executeJobsGetSync :: gh_operation where
  "executeJobsGetSync env input = get_call env input ''jobs.get'' ''/jobs'' (parse_row normalizeJob ''job'')"

definition executeInterviewsListSync :: gh_operation where
  "executeInterviewsListSync env input =
     check_async (requireCursorNotPage input ''interviews.list'') (\<lambda>_.
     list_call env input ''interviews.list'' ''/interviews''
       (sbind (createdAtFilter input) (\<lambda>created. sbind (updatedAtFilter input) (\<lambda>updated. Inr
          [per_page input, (''cursor'', get input ''cursor''), (''application_ids'', shown (get input ''applicationId'')),
           (''job_ids'', shown (get input ''jobId'')), (''created_at'', created), (''updated_at'', updated)])))
       (parse_rows normalizeInterview ''interviews''))"

definition executeJobInterviewStagesListSync :: gh_operation where
  "executeJobInterviewStagesListSync env input =
     read_call env input ''job_interview_stages.list''
       (''/job_interview_stages'' @ buildQuery
          [per_page input, (''job_ids'', get input ''jobIds''), (''ids'', get input ''ids''),
           (''active'', let a = get input ''active'' in if is_nullish a then JUndef else JStr (if truthy a then ''true'' else ''false''))])
       (\<lambda>raw. sbind (parse_rows normalizeJobInterviewStage ''stages'' raw) (\<lambda>out. Inr (JObj out)))"

definition requireNonEmptyString :: "jsval \<Rightarrow> string \<Rightarrow> jsval res" where
  "requireNonEmptyString v field = requiredString v field"

definition contact :: "jsval \<Rightarrow> string \<Rightarrow> string \<Rightarrow> string \<Rightarrow> props" where
  "contact input camel snake label =
     (if optionalString (get input camel) = JUndef then []
      else [(snake, JArr [JObj [(''value'', get input camel), (''type'', JStr label)]])])"

definition executeCandidatesCreateSync :: gh_operation where
  "executeCandidatesCreateSync env input =
     write_call env input ''candidates.create'' ''POST'' ''/candidates''
       (sbind (requireNonEmptyString (get input ''firstName'') ''firstName'') (\<lambda>firstName.
        sbind (requireNonEmptyString (get input ''lastName'') ''lastName'') (\<lambda>lastName.
        sbind (optionalId (stage_label []) (get input ''jobId'')) (\<lambda>jobId.
        Inr ([(''first_name'', firstName), (''last_name'', lastName)]
          @ text_fields input [(''company'', ''company''), (''title'', ''title'')]
          @ contact input ''email'' ''email_addresses'' ''personal'' @ contact input ''phone'' ''phone_numbers'' ''mobile''
          @ (if jobId = JUndef then [] else [(''applications'', JArr [JObj [(''job_id'', jobId)]])]))))))
       (\<lambda>raw. raw)"

definition executeCandidatesUpdateSync :: gh_operation where
  "executeCandidatesUpdateSync env input =
     id_write_call env input ''candidates.update'' ''PATCH'' ''/candidates/'' []
       (Inr (text_fields input [(''firstName'', ''first_name''), (''lastName'', ''last_name''), (''company'', ''company''), (''title'', ''title'')]))
       (\<lambda>_. JObj [(''candidate'', JNull)])"

definition executeOffersListSync :: gh_operation where
  "executeOffersListSync env input =
     check_async (requireCursorNotPage input ''offers.list'') (\<lambda>_.
     list_call env input ''offers.list'' ''/offers''
       (sbind (createdAtFilter input) (\<lambda>created. sbind (updatedAtFilter input) (\<lambda>updated. Inr
          [per_page input, (''cursor'', get input ''cursor''), (''created_at'', created), (''updated_at'', updated),
           (''application_ids'', shown (get input ''applicationId'')), (''job_ids'', shown (get input ''jobId''))])))
       (parse_rows normalizeOffer ''offers''))"

definition executeOffersGetSync :: gh_operation where
  "executeOffersGetSync env input = get_call env input ''offers.get'' ''/offers'' (parse_row normalizeOffer ''offer'')"

definition executeScorecardsListSync :: gh_operation where
  "executeScorecardsListSync env input =
     check_async (requireCursorNotPage input ''scorecards.list'') (\<lambda>_.
     list_call env input ''scorecards.list'' ''/scorecards''
       (sbind (createdAtFilter input) (\<lambda>created. sbind (updatedAtFilter input) (\<lambda>updated. Inr
          [per_page input, (''cursor'', get input ''cursor''), (''created_at'', created), (''updated_at'', updated),
           (''application_ids'', shown (get input ''applicationId''))])))
       (parse_rows normalizeScorecard ''scorecards''))"

definition executeScorecardsGetSync :: gh_operation where
  "executeScorecardsGetSync env input = get_call env input ''scorecards.get'' ''/scorecards'' (parse_row normalizeScorecard ''scorecard'')"

text \<open>\<open>departments.list\<close>, \<open>offices.list\<close>, \<open>sources.list\<close> and \<open>close_reasons.list\<close> take a page size only.\<close>

definition paged_list :: "string \<Rightarrow> string \<Rightarrow> (jsval \<Rightarrow> jsval res) \<Rightarrow> string \<Rightarrow> gh_operation" where
  "paged_list operation path f key env input =
     read_call env input operation (path @ buildQuery [per_page input])
       (\<lambda>raw. sbind (parse_rows f key raw) (\<lambda>out. Inr (JObj out)))"

definition executeDepartmentsListSync :: gh_operation where
  "executeDepartmentsListSync = paged_list ''departments.list'' ''/departments'' normalizeDepartment ''departments''"

definition executeOfficesListSync :: gh_operation where
  "executeOfficesListSync = paged_list ''offices.list'' ''/offices'' normalizeOffice ''offices''"

definition executeSourcesListSync :: gh_operation where
  "executeSourcesListSync = paged_list ''sources.list'' ''/sources'' normalizeSource ''sources''"

definition executeCloseReasonsListSync :: gh_operation where
  "executeCloseReasonsListSync = paged_list ''close_reasons.list'' ''/close_reasons'' normalizeCloseReason ''closeReasons''"

definition executeUsersGetSync :: gh_operation where
  "executeUsersGetSync env input = get_call env input ''users.get'' ''/users'' (parse_row normalizeUser ''user'')"

definition executeApplicationsRejectSync :: gh_operation where
  "executeApplicationsRejectSync env input =
     id_write_call env input ''applications.reject'' ''POST'' ''/applications/'' ''/reject''
       (sbind (optionalId (stage_label []) (get input ''rejectionReasonId'')) (\<lambda>reason.
        sbind (guard (reason \<noteq> JUndef) (Error ''rejectionReasonId is required'')) (\<lambda>_.
        Inr ([(''rejection_reason_id'', reason)] @ text_fields input [(''notes'', ''notes'')]
             @ object_field input ''rejectionEmail'' ''rejection_email''))))
       (\<lambda>_. JObj [(''application'', JNull)])"

definition greenhouse_healthcheck :: gh_operation where
  "greenhouse_healthcheck env input =
     read_call env input ''healthcheck'' ''/users?per_page=1'' (\<lambda>data.
       case data of
         JObj _ \<Rightarrow> Inr (JObj [(''status'', JStr ''ok''), (''source'', JStr ''provider''), (''data'', data)])
       | JArr _ \<Rightarrow> Inr (JObj [(''status'', JStr ''ok''), (''source'', JStr ''provider''), (''data'', data)])
       | _ \<Rightarrow> Inl (failed_with ''CONNECTOR_RESPONSE_INVALID'' ''Greenhouse healthcheck returned no users payload.'' []))"

section \<open>Endpoints\<close>

text \<open>A path template with placeholders \<open>{name}\<close>.\<close>

datatype path_part = Fixed char | Placeholder string

definition name_char :: "char \<Rightarrow> bool" where
  "name_char c = (is_lower c \<or> is_digit c \<or> c = CHR ''_'')"

function path_parts :: "string \<Rightarrow> path_part list" where
  "path_parts [] = []"
| "path_parts (c # cs) =
     (if c = CHR ''{'' \<and> takeWhile name_char cs \<noteq> [] \<and> starts_with ''}'' (dropWhile name_char cs)
      then Placeholder (takeWhile name_char cs) # path_parts (drop 1 (dropWhile name_char cs))
      else Fixed c # path_parts cs)"
  by pat_completeness auto
termination
  by (relation "measure length") (auto simp: less_Suc_eq_le intro: order_trans [OF diff_le_self length_dropWhile_le])

declare path_parts.simps(2) [simp del]

text \<open>An identifier that stays one segment of a path, and the paths (with or without a query) that fill a template with such.\<close>

definition safe_id :: "string \<Rightarrow> bool" where
  "safe_id i = (i \<noteq> [] \<and> list_all (\<lambda>c. c \<notin> set ''/?#%'' \<and> c \<noteq> CHR 0x5C) i \<and> \<not> all_dots i)"

fun fills :: "path_part list \<Rightarrow> string \<Rightarrow> bool" where
  "fills [] p = (p = [] \<or> hd p = CHR ''?'')"
| "fills (Fixed c # ts) p = (p \<noteq> [] \<and> hd p = c \<and> fills ts (tl p))"
| "fills (Placeholder name # ts) p = (\<exists>i r. p = i @ r \<and> safe_id i \<and> fills ts r)"

definition endpoint_calls :: "string \<Rightarrow> string \<Rightarrow> (string \<times> (string \<Rightarrow> request_init)) set" where
  "endpoint_calls verb template = {harvest_call call |call. gk_method call = verb \<and> fills (path_parts template) (gk_path call)}"

text \<open>What an operation may send: at most \<open>n\<close> requests, with the credentials of its own input, each a token request or one of the
  given calls with a token that is among the secrets of its client.\<close>

definition stays_at :: "gh_env \<Rightarrow> jsval \<Rightarrow> string \<Rightarrow> nat \<Rightarrow> (gh_client \<Rightarrow> (string \<times> (string \<Rightarrow> request_init)) set) \<Rightarrow> 'a gh \<Rightarrow> bool" where
  "stays_at env input operation n calls m \<longleftrightarrow>
     (\<forall>now st. gh_sent (fst (m now st)) = gh_sent st
        \<or> (\<exists>c es. authClientOpts env input operation = Inr c \<and> gh_sent (fst (m now st)) = gh_sent st @ es \<and> length es \<le> n
             \<and> list_all (permitted_request (ge_platform env) c (calls c) (gh_secrets (fst (m now st)))) es))"

lemma stays_check: "(\<And>a. r = Inr a \<Longrightarrow> stays_at env input operation n calls (f a)) \<Longrightarrow> stays_at env input operation n calls (check_async r f)"
  by (cases r) (simp_all add: check_async_def stays_at_def settled_def)

lemma stays_client:
  assumes "\<And>c. gh.moves (ge_platform env) c (calls c) n (f c)"
  shows "stays_at env input operation n calls (with_client env input operation f)"
proof (cases "authClientOpts env input operation")
  case (Inr c)
  have "gh_step (ge_platform env) c (calls c) n (st\<lparr>gh_secrets := s\<rparr>) (fst (f c now (st\<lparr>gh_secrets := s\<rparr>)))" for now st s
    using assms [of c] by (simp add: gh.moves_def)
  with Inr show ?thesis by (force simp: stays_at_def with_client_def check_async_def gh_step_def)
qed (simp add: stays_at_def with_client_def check_async_def settled_def)

section \<open>Paths\<close>

lemma path_parts_plain: "CHR ''{'' \<notin> set p \<Longrightarrow> path_parts (p @ q) = map Fixed p @ path_parts q"
  by (induction p) (auto simp: path_parts.simps(2))

lemma path_parts_id: "path_parts (''{id}'' @ q) = Placeholder ''id'' # path_parts q"
  by (simp add: path_parts.simps(2) [of "CHR ''{''"] name_char_def is_lower_def is_digit_def code_def starts_with_def)

lemma fills_fixed: "fills (map Fixed p @ ts) (p @ r) = fills ts r"
  by (induction p) simp_all

lemma fills_plain:
  assumes "CHR ''{'' \<notin> set p" and "q = [] \<or> hd q = CHR ''?''"
  shows "fills (path_parts p) (p @ q)"
  using path_parts_plain [OF assms(1), of "[]"] fills_fixed [of p "[]" q] assms(2) by simp

lemma fills_id:
  assumes "CHR ''{'' \<notin> set before" and "CHR ''{'' \<notin> set after" and "safe_id i"
  shows "fills (path_parts (before @ ''{id}'' @ after)) (before @ i @ after)"
proof -
  have "fills (path_parts after) after" using fills_plain [OF assms(2), of "[]"] by simp
  with assms(3) show ?thesis
    unfolding path_parts_plain [OF assms(1)] path_parts_id fills_fixed by auto
qed

lemma buildQuery_query: "buildQuery ps = [] \<or> hd (buildQuery ps) = CHR ''?''"
  by (simp add: buildQuery_def Let_def)

lemma path_id_safe:
  assumes "path_id v field = Inr i"
  shows "safe_id i"
proof -
  from assms obtain s where "JobBoard.assertSafePathSegment s field = Inr i"
    by (auto simp: path_id_def split: jsval.splits)
  then have "i \<noteq> []" "list_all segment_char i" "\<not> all_dots i"
    by (auto simp: JobBoard.assertSafePathSegment_def Let_def res_simps)
  moreover have "c \<notin> set ''/?#%'' \<and> c \<noteq> CHR 0x5C" if "segment_char c" for c
    using that by (auto simp: segment_char_def is_alnum_def is_alpha_def is_upper_def is_lower_def is_digit_def code_def)
  ultimately show ?thesis by (simp add: safe_id_def list_all_iff)
qed

section \<open>The kinds of calls\<close>

lemma moves_writeJSON:
  "fills (path_parts template) path \<Longrightarrow> gh.moves pf c (endpoint_calls verb template) 4 (gh_writeJSON pf context c verb path body extra)"
  unfolding gh_writeJSON_def by (rule moves_harvestJSON) (auto simp: endpoint_calls_def)

lemma moves_requestJSON:
  "fills (path_parts template) path \<Longrightarrow> gh.moves pf c (endpoint_calls verb template) 4 (requestJSON pf context c verb path body extra)"
  unfolding requestJSON_def by (rule moves_harvestJSON) (auto simp: endpoint_calls_def)

lemma moves_getJSON:
  "fills (path_parts template) path \<Longrightarrow> gh.moves pf c (endpoint_calls ''GET'' template) 4 (gh_getJSON pf context c path)"
  unfolding gh_getJSON_def by (rule moves_harvestJSON) (auto simp: endpoint_calls_def)

lemma moves_getMeta:
  "fills (path_parts template) path \<Longrightarrow> gh.moves pf c (endpoint_calls ''GET'' template) 4 (getJSONWithMeta cursor_of pf context c path)"
  by (rule moves_withMeta) (auto simp: endpoint_calls_def)

lemma moves_then_settled: "gh.moves pf c calls n m \<Longrightarrow> gh.moves pf c calls n (await_async m (\<lambda>a. settled (f a)))"
  using gh.moves_await [where n = 0, OF _ gh.moves_settled] by fastforce

lemma stays_list:
  assumes "CHR ''{'' \<notin> set path"
  shows "stays_at env input operation 4 (\<lambda>c. endpoint_calls ''GET'' path) (list_call env input operation path params parse)"
  unfolding list_call_def case_prod_unfold
  by (intro stays_client gh.moves_check moves_then_settled moves_getMeta fills_plain assms buildQuery_query)

lemma stays_read:
  assumes "CHR ''{'' \<notin> set path" and "q = [] \<or> hd q = CHR ''?''"
  shows "stays_at env input operation 4 (\<lambda>c. endpoint_calls ''GET'' path) (read_call env input operation (path @ q) parse)"
  unfolding read_call_def by (intro stays_client moves_then_settled moves_getJSON fills_plain assms)

lemma stays_get:
  "CHR ''{'' \<notin> set path \<Longrightarrow> stays_at env input operation 4 (\<lambda>c. endpoint_calls ''GET'' path) (get_call env input operation path parse)"
  unfolding get_call_def by (rule stays_check, rule stays_read) simp_all

lemma stays_write_at:
  "fills (path_parts template) path
   \<Longrightarrow> stays_at env input operation 4 (\<lambda>c. endpoint_calls verb template) (write_call env input operation verb path body out)"
  unfolding write_call_def by (intro stays_check stays_client moves_then_settled moves_writeJSON)

lemma stays_write:
  "CHR ''{'' \<notin> set path \<Longrightarrow> stays_at env input operation 4 (\<lambda>c. endpoint_calls verb path) (write_call env input operation verb path body out)"
  using stays_write_at [OF fills_plain [of path "[]"]] by simp

lemma stays_id_write:
  assumes "CHR ''{'' \<notin> set before" and "CHR ''{'' \<notin> set after"
  shows "stays_at env input operation 4 (\<lambda>c. endpoint_calls verb (before @ ''{id}'' @ after))
    (id_write_call env input operation verb before after body out)"
  unfolding id_write_call_def by (rule stays_check, rule stays_write_at, rule fills_id [OF assms path_id_safe])

lemma stays_delete:
  assumes "CHR ''{'' \<notin> set path"
  shows "stays_at env input operation 4 (\<lambda>c. endpoint_calls ''DELETE'' (path @ ''{id}'')) (deleteById env input path operation)"
proof -
  have "fills (path_parts (path @ ''{id}'')) (path @ i)" if "path_id (get input ''id'') ''id'' = Inr i" for i
    using fills_id [OF assms _ path_id_safe [OF that], of "[]"] by simp
  then show ?thesis
    unfolding deleteById_def gh_deleteJSON_def by (intro stays_check stays_client moves_then_settled moves_requestJSON)
qed

lemma stays_id_at:
  assumes "CHR ''{'' \<notin> set before" and "CHR ''{'' \<notin> set after" and "template = before @ ''{id}'' @ after"
  shows "stays_at env input operation 4 (\<lambda>c. endpoint_calls verb template) (id_write_call env input operation verb before after body out)"
  using stays_id_write [OF assms(1,2)] assms(3) by simp

lemma stays_delete_at:
  assumes "CHR ''{'' \<notin> set path" and "template = path @ ''{id}''"
  shows "stays_at env input operation 4 (\<lambda>c. endpoint_calls ''DELETE'' template) (deleteById env input path operation)"
  using stays_delete [OF assms(1)] assms(2) by simp

end
