(* ===== verification/GreenhouseActions.thy ===== *)
theory GreenhouseActions
  imports GreenhouseOps
begin

text \<open>
  The actions of the Greenhouse connector in \<open>g1.ts\<close> (pipeline reads and writes) and \<open>g2.ts\<close> (profile depth, merges,
  attachments) of \<open>runner/connectors/greenhouse/src\<close>, on the calls of \<open>GreenhouseOps\<close>.
\<close>

section \<open>g1.ts\<close>

definition plain_label :: "string \<Rightarrow> string" where
  "plain_label field = ''id''"

definition listMeta :: "string \<Rightarrow> jsval \<Rightarrow> props res" where
  "listMeta key body = Inr [(key, JArr (items_of body))]"

definition nothing_for :: "string \<Rightarrow> jsval \<Rightarrow> jsval" where
  "nothing_for key _ = JObj [(key, JNull)]"

definition executeApplicationsHire :: gh_operation where
  "executeApplicationsHire env input =
     id_write_call env input ''applications.hire'' ''POST'' ''/applications/'' ''/hire''
       (sbind (id_fields plain_label input [(''openingId'', ''opening_id''), (''closeReasonId'', ''close_reason_id'')]) (\<lambda>ids.
        Inr (text_fields input [(''startDate'', ''start_date'')] @ ids)))
       (nothing_for ''application'')"

definition executeApplicationsUpdate :: gh_operation where
  "executeApplicationsUpdate env input =
     id_write_call env input ''applications.update'' ''PATCH'' ''/applications/'' []
       (sbind (id_fields plain_label input [(''sourceId'', ''source_id''), (''referrerId'', ''referrer_id''), (''recruiterId'', ''recruiter_id''),
            (''coordinatorId'', ''coordinator_id''), (''prospectPoolId'', ''prospect_pool_id''), (''prospectStageId'', ''prospect_stage_id'')]) (\<lambda>ids.
        Inr (ids @ object_field input ''customFields'' ''custom_fields'')))
       (nothing_for ''application'')"

text \<open>The parameters that the list actions of \<open>g1.ts\<close> share.\<close>

definition ids_of :: "jsval \<Rightarrow> string \<Rightarrow> string \<Rightarrow> string \<times> jsval" where
  "ids_of input camel snake = (snake, joinIds (get input camel))"

definition page_params :: "jsval \<Rightarrow> props" where
  "page_params input = [ids_of input ''ids'' ''ids'', per_page input, (''cursor'', get input ''cursor'')]"

definition executeApplicationStagesList :: gh_operation where
  "executeApplicationStagesList env input =
     list_call env input ''application_stages.list'' ''/application_stages''
       (Inr ([ids_of input ''applicationIds'' ''application_ids'', ids_of input ''jobInterviewStageIds'' ''job_interview_stage_ids'',
          (''current'', shown (get input ''current''))] @ page_params input))
       (listMeta ''applicationStages'')"

definition executeRejectionReasonsList :: gh_operation where
  "executeRejectionReasonsList env input =
     list_call env input ''rejection_reasons.list'' ''/rejection_reasons''
       (Inr ((''include_defaults'', shown (get input ''includeDefaults'')) # page_params input)) (listMeta ''rejectionReasons'')"

definition executeRejectionDetailsList :: gh_operation where
  "executeRejectionDetailsList env input =
     list_call env input ''rejection_details.list'' ''/rejection_details''
       (Inr ([ids_of input ''applicationIds'' ''application_ids'', ids_of input ''rejectionReasonIds'' ''rejection_reason_ids'']
          @ page_params input)) (listMeta ''rejectionDetails'')"

definition executeCandidateTagsList :: gh_operation where
  "executeCandidateTagsList env input =
     list_call env input ''candidate_tags.list'' ''/candidate_tags'' (Inr (page_params input)) (listMeta ''candidateTags'')"

definition executeJobsListInternal :: gh_operation where
  "executeJobsListInternal env input =
     list_call env input ''jobs.list_internal'' ''/jobs''
       (sbind (optionalId (plain_label []) (get input ''departmentId'')) (\<lambda>departmentId.
        sbind (optionalId (plain_label []) (get input ''officeId'')) (\<lambda>officeId.
        Inr ([(''status'', optionalString (get input ''status'')), (''department_id'', shown departmentId), (''office_id'', shown officeId),
          (''requisition_id'', optionalString (get input ''requisitionId'')), (''opened_at'', optionalString (get input ''openedAt'')),
          (''closed_at'', optionalString (get input ''closedAt'')), (''confidential'', shown (get input ''confidential''))]
          @ page_params input))))
       (listMeta ''jobs'')"

definition CREATE_VISIBILITY :: "string list" where
  "CREATE_VISIBILITY = [''admin_only'', ''private'', ''public'']"

definition LIST_VISIBILITY :: "string list" where
  "LIST_VISIBILITY = [''admin_only_visible'', ''privately_visible'', ''publicly_visible'']"

definition NOTE_TYPES :: "string list" where
  "NOTE_TYPES = [''NOTE'', ''EMAIL'', ''ACTIVITY'']"

definition RESPONSE_STATUSES :: "string list" where
  "RESPONSE_STATUSES = [''accepted'', ''declined'', ''tentative'', ''needs_action'']"

definition address_list :: "jsval \<Rightarrow> jsval list option" where
  "address_list v = (case v of JArr xs \<Rightarrow> Some xs | _ \<Rightarrow> if is_nullish v then None else Some [v])"

definition email_note :: "jsval \<Rightarrow> props res" where
  "email_note input =
     (let from = address_list (get input ''emailFrom''); to = address_list (get input ''emailTo''); cc = address_list (get input ''emailCc'') in
      sbind (guard (optionalString (get input ''subject'') \<noteq> JUndef) (Error ''subject is required when noteType is EMAIL'')) (\<lambda>_.
      sbind (guard (from \<noteq> None \<and> from \<noteq> Some []) (Error ''emailFrom is required when noteType is EMAIL'')) (\<lambda>_.
      sbind (guard (to \<noteq> None \<and> to \<noteq> Some []) (Error ''emailTo is required when noteType is EMAIL'')) (\<lambda>_.
      sbind (guard (cc \<noteq> None) (Error ''emailCc is required when noteType is EMAIL'')) (\<lambda>_.
      Inr [(''subject'', get input ''subject''), (''email_from'', JArr (the from)), (''email_to'', JArr (the to)), (''email_cc'', JArr (the cc))])))))"

definition other_note :: "jsval \<Rightarrow> props res" where
  "other_note input =
     sbind (guard (is_nullish (get input ''emailFrom'') \<and> is_nullish (get input ''emailTo'') \<and> is_nullish (get input ''emailCc''))
       (Error ''emailFrom/emailTo/emailCc are only allowed when noteType is EMAIL'')) (\<lambda>_.
     Inr (text_fields input [(''subject'', ''subject'')]))"

definition executeNotesCreate :: gh_operation where
  "executeNotesCreate env input =
     write_call env input ''notes.create'' ''POST'' ''/notes''
       (sbind (guard (optionalString (get input ''body'') \<noteq> JUndef) (Error ''body is required'')) (\<lambda>_.
        sbind (guard (to_str (get input ''visibility'') \<in> set CREATE_VISIBILITY) (Error ''visibility must be admin_only, private, or public'')) (\<lambda>_.
        sbind (guard (to_str (get input ''noteType'') \<in> set NOTE_TYPES) (Error ''noteType must be NOTE, EMAIL, or ACTIVITY'')) (\<lambda>_.
        sbind (asId (get input ''candidateId'') ''candidateId'') (\<lambda>candidateId.
        sbind (id_fields plain_label input [(''applicationId'', ''application_id''), (''userId'', ''user_id'')]) (\<lambda>ids.
        sbind (if get input ''noteType'' = JStr ''EMAIL'' then email_note input else other_note input) (\<lambda>rest.
        Inr ([(''candidate_id'', candidateId), (''body'', get input ''body''), (''visibility'', get input ''visibility''),
          (''note_type'', get input ''noteType'')] @ ids @ rest)))))))) (\<lambda>raw. raw)"

definition executeNotesList :: gh_operation where
  "executeNotesList env input =
     check_async (guard (is_nullish (get input ''visibility'') \<or> to_str (get input ''visibility'') \<in> set LIST_VISIBILITY)
       (Error ''visibility filter must be admin_only_visible, privately_visible, or publicly_visible'')) (\<lambda>_.
     list_call env input ''notes.list'' ''/notes''
       (Inr ([ids_of input ''candidateIds'' ''candidate_ids'', ids_of input ''applicationIds'' ''application_ids'',
          ids_of input ''userIds'' ''user_ids'', (''type'', optionalString (get input ''type'')),
          (''visibility'', optionalString (get input ''visibility''))] @ page_params input))
       (listMeta ''notes''))"

definition executeCandidatesApplyTag :: gh_operation where
  "executeCandidatesApplyTag env input =
     write_call env input ''candidates.apply_tag'' ''POST'' ''/applied_candidate_tags''
       (sbind (asId (get input ''id'') ''id'') (\<lambda>candidateId.
        sbind (asId (get input ''candidateTagId'') ''candidateTagId'') (\<lambda>tagId.
        Inr [(''candidate_id'', candidateId), (''candidate_tag_id'', tagId)]))) (\<lambda>raw. raw)"

definition executeCandidatesRemoveTag :: gh_operation where
  "executeCandidatesRemoveTag env input = deleteById env input ''/applied_candidate_tags/'' ''candidates.remove_tag''"

definition map_interviewer :: "nat \<times> jsval \<Rightarrow> jsval res" where
  "map_interviewer indexed = (case indexed of (index, row) \<Rightarrow>
     let place = ''interviewers['' @ show_nat index @ '']'';
         responseStatus = nullish (get row ''responseStatus'') (get row ''response_status'');
         email = optionalString (get row ''email'');
         employeeId = optionalString (nullish (get row ''employeeId'') (get row ''employee_id'')) in
     sbind (guard (is_record row) (Error (place @ '' must be an object''))) (\<lambda>_.
     sbind (guard (to_str responseStatus \<in> set RESPONSE_STATUSES)
       (Error (place @ ''.responseStatus must be accepted|declined|tentative|needs_action''))) (\<lambda>_.
     sbind (optionalId (plain_label []) (nullish (get row ''userId'') (get row ''user_id''))) (\<lambda>userId.
     let named = filter (\<lambda>(k, v). v \<noteq> JUndef) [(''user_id'', userId), (''email'', email), (''employee_id'', employeeId)] in
     sbind (guard (length named = 1) (Error (place @ '' must include exactly one of userId, email, or employeeId''))) (\<lambda>_.
     Inr (JObj ((''response_status'', responseStatus) # named)))))))"

definition mapInterviewers :: "jsval \<Rightarrow> jsval res" where
  "mapInterviewers v =
     (case v of
        JArr (x # xs) \<Rightarrow> sbind (map_res map_interviewer (enumerate 0 (x # xs))) (\<lambda>ys. Inr (JArr ys))
      | _ \<Rightarrow> Inl (Error ''interviewers is required''))"

definition executeInterviewsCreate :: gh_operation where
  "executeInterviewsCreate env input =
     write_call env input ''interviews.create'' ''POST'' ''/interviews''
       (sbind (asId (get input ''applicationId'') ''applicationId'') (\<lambda>applicationId.
        sbind (asId (get input ''jobInterviewId'') ''jobInterviewId'') (\<lambda>jobInterviewId.
        sbind (mapInterviewers (get input ''interviewers'')) (\<lambda>interviewers.
        sbind (requiredString (get input ''startsAt'') ''startsAt'') (\<lambda>startsAt.
        sbind (requiredString (get input ''endsAt'') ''endsAt'') (\<lambda>endsAt.
        sbind (requiredString (get input ''externalEventId'') ''externalEventId'') (\<lambda>externalEventId.
        Inr ([(''application_id'', applicationId), (''job_interview_id'', jobInterviewId), (''interviewers'', interviewers),
          (''starts_at'', startsAt), (''ends_at'', endsAt), (''external_event_id'', externalEventId)]
          @ text_fields input [(''location'', ''location''), (''videoConferencingUrl'', ''video_conferencing_url'')])))))))) (\<lambda>raw. raw)"

definition executeInterviewsUpdate :: gh_operation where
  "executeInterviewsUpdate env input =
     id_write_call env input ''interviews.update'' ''PATCH'' ''/interviews/'' []
       (sbind (if is_nullish (get input ''interviewers'') then Inr []
               else sbind (mapInterviewers (get input ''interviewers'')) (\<lambda>xs. Inr [(''interviewers'', xs)])) (\<lambda>interviewers.
        Inr (text_fields input [(''startsAt'', ''starts_at''), (''endsAt'', ''ends_at''), (''location'', ''location''),
            (''videoConferencingUrl'', ''video_conferencing_url''), (''externalEventId'', ''external_event_id'')] @ interviewers)))
       (nothing_for ''interview'')"

definition executeInterviewsDelete :: gh_operation where
  "executeInterviewsDelete env input = deleteById env input ''/interviews/'' ''interviews.delete''"

definition executeOffersCreate :: gh_operation where
  "executeOffersCreate env input =
     write_call env input ''offers.create'' ''POST'' ''/offers''
       (sbind (asId (get input ''applicationId'') ''applicationId'') (\<lambda>applicationId.
        Inr ([(''application_id'', applicationId)] @ text_fields input [(''startsOn'', ''starts_on'')]
             @ object_field input ''customFields'' ''custom_fields''))) (\<lambda>raw. raw)"

section \<open>g2.ts\<close>

definition executeCandidatesMerge :: gh_operation where
  "executeCandidatesMerge env input =
     check_async (path_id (get input ''id'') ''id'') (\<lambda>i.
     write_call env input ''candidates.merge'' ''POST'' (''/candidates/'' @ i @ ''/merge'')
       (sbind (asId (get input ''secondaryCandidateId'') ''secondaryCandidateId'') (\<lambda>secondary.
        sbind (guard (to_str secondary \<noteq> i) (Error ''secondaryCandidateId must differ from id'')) (\<lambda>_.
        Inr [(''secondary_candidate_id'', secondary)]))) (\<lambda>raw. raw))"

definition executeCandidatesDelete :: gh_operation where
  "executeCandidatesDelete env input = deleteById env input ''/candidates/'' ''candidates.delete''"

definition executeApplicationsDelete :: gh_operation where
  "executeApplicationsDelete env input = deleteById env input ''/applications/'' ''applications.delete''"

definition ATTACHMENT_TYPES :: "string list" where
  "ATTACHMENT_TYPES = [''resume'', ''cover_letter'', ''take_home_test'', ''offer_packet'', ''offer_letter'', ''signed_offer_letter'',
     ''other'', ''form_attachment'', ''midfunnel_agreement'', ''automated_agreement'']"

definition attachment_type_ok :: "jsval \<Rightarrow> unit res" where
  "attachment_type_ok v =
     guard (str_of v \<in> set ATTACHMENT_TYPES) (Error (''type must be one of '' @ join ''|'' ATTACHMENT_TYPES))"

definition page_params2 :: "jsval \<Rightarrow> props" where
  "page_params2 input = [ids_of input ''ids'' ''ids'', (''per_page'', perPageParam (get input ''perPage'')),
     (''cursor'', optionalString (get input ''cursor''))]"

definition executeAttachmentsList :: gh_operation where
  "executeAttachmentsList env input =
     (let type_in = optionalString (get input ''type'') in
      check_async (if type_in = JUndef then Inr () else attachment_type_ok type_in) (\<lambda>_.
      list_call env input ''attachments.list'' ''/attachments''
        (Inr ([ids_of input ''applicationIds'' ''application_ids'', ids_of input ''candidateIds'' ''candidate_ids'', (''type'', type_in)]
           @ page_params2 input)) (listMeta ''attachments'')))"

definition executeAttachmentsCreate :: gh_operation where
  "executeAttachmentsCreate env input =
     (let content = optionalString (get input ''content''); url = optionalString (get input ''url'');
          visibility = optionalString (get input ''visibility'') in
      write_call env input ''attachments.create'' ''POST'' ''/attachments''
       (sbind (asId (get input ''applicationId'') ''applicationId'') (\<lambda>applicationId.
        sbind (requiredString (get input ''filename'') ''filename'') (\<lambda>filename.
        sbind (requiredString (get input ''type'') ''type'') (\<lambda>type_in.
        sbind (attachment_type_ok type_in) (\<lambda>_.
        sbind (guard ((content = JUndef) \<noteq> (url = JUndef)) (Error ''Provide exactly one of content (base64) or url'')) (\<lambda>_.
        sbind (guard (visibility = JUndef \<or> str_of visibility \<in> set CREATE_VISIBILITY)
          (Error ''visibility must be admin_only|private|public'')) (\<lambda>_.
        Inr ([(''application_id'', applicationId), (''filename'', filename), (''type'', type_in)]
          @ filter (\<lambda>(k, v). v \<noteq> JUndef) [(''content'', content), (''url'', url), (''visibility'', visibility)])))))))) (\<lambda>raw. raw))"

definition executeAttachmentsDelete :: gh_operation where
  "executeAttachmentsDelete env input = deleteById env input ''/attachments/'' ''attachments.delete''"

definition profile_list :: "string \<Rightarrow> string \<Rightarrow> string \<Rightarrow> gh_operation" where
  "profile_list operation path key env input =
     list_call env input operation path
       (Inr ([ids_of input ''candidateIds'' ''candidate_ids'', (''latest'', boolParam (get input ''latest''))] @ page_params2 input))
       (listMeta key)"

definition executeCandidateEducationsList :: gh_operation where
  "executeCandidateEducationsList = profile_list ''candidate_educations.list'' ''/candidate_educations'' ''candidateEducations''"

definition education_side :: "jsval \<Rightarrow> string \<Rightarrow> props res" where
  "education_side input side =
     (let date = optionalString (get input (side @ ''Date'')) in
      sbind (optionalBoundedInt (get input (side @ ''DateMonth'')) (side @ ''DateMonth'') 1 12) (\<lambda>month.
      sbind (optionalBoundedInt (get input (side @ ''DateYear'')) (side @ ''DateYear'') 1900 2100) (\<lambda>year.
      sbind (guard (date = JUndef \<or> (month = JUndef \<and> year = JUndef))
        (Error (''Use either '' @ side @ ''Date or '' @ side @ ''DateMonth/'' @ side @ ''DateYear, not both''))) (\<lambda>_.
      Inr (filter (\<lambda>(k, v). v \<noteq> JUndef) [(side @ ''_date'', date), (side @ ''_date_month'', month), (side @ ''_date_year'', year)])))))"

definition executeCandidateEducationsCreate :: gh_operation where
  "executeCandidateEducationsCreate env input =
     write_call env input ''candidate_educations.create'' ''POST'' ''/candidate_educations''
       (sbind (asId (get input ''candidateId'') ''candidateId'') (\<lambda>candidateId.
        sbind (id_fields (\<lambda>field. field) input
          [(''schoolNameCustomFieldOptionId'', ''school_name_custom_field_option_id''),
           (''degreeCustomFieldOptionId'', ''degree_custom_field_option_id''),
           (''disciplineCustomFieldOptionId'', ''discipline_custom_field_option_id'')]) (\<lambda>ids.
        sbind (map_res (education_side input) [''start'', ''end'']) (\<lambda>sides.
        Inr ([(''candidate_id'', candidateId)] @ ids @ concat sides))))) (\<lambda>raw. raw)"

definition executeCandidateEducationsDelete :: gh_operation where
  "executeCandidateEducationsDelete env input = deleteById env input ''/candidate_educations/'' ''candidate_educations.delete''"

definition executeCandidateEmploymentsList :: gh_operation where
  "executeCandidateEmploymentsList = profile_list ''candidate_employments.list'' ''/candidate_employments'' ''candidateEmployments''"

definition executeCandidateEmploymentsCreate :: gh_operation where
  "executeCandidateEmploymentsCreate env input =
     write_call env input ''candidate_employments.create'' ''POST'' ''/candidate_employments''
       (sbind (asId (get input ''candidateId'') ''candidateId'') (\<lambda>candidateId.
        sbind (requiredString (get input ''companyName'') ''companyName'') (\<lambda>companyName.
        sbind (requiredString (get input ''title'') ''title'') (\<lambda>title_in.
        sbind (requiredString (get input ''startDate'') ''startDate'') (\<lambda>startDate.
        Inr ([(''candidate_id'', candidateId), (''company_name'', companyName), (''title'', title_in), (''start_date'', startDate)]
          @ text_fields input [(''endDate'', ''end_date'')])))))) (\<lambda>raw. raw)"

definition executeCandidateEmploymentsDelete :: gh_operation where
  "executeCandidateEmploymentsDelete env input = deleteById env input ''/candidate_employments/'' ''candidate_employments.delete''"

definition executeCandidateTagsCreate :: gh_operation where
  "executeCandidateTagsCreate env input =
     write_call env input ''candidate_tags.create'' ''POST'' ''/candidate_tags''
       (sbind (requiredString (get input ''name'') ''name'') (\<lambda>name. Inr [(''name'', name)])) (\<lambda>raw. raw)"

definition executeCandidateTagsDelete :: gh_operation where
  "executeCandidateTagsDelete env input = deleteById env input ''/candidate_tags/'' ''candidate_tags.delete''"

definition executeRejectionDetailsUpdate :: gh_operation where
  "executeRejectionDetailsUpdate env input =
     id_write_call env input ''rejection_details.update'' ''PATCH'' ''/rejection_details/'' []
       (sbind (id_fields (\<lambda>field. field) input [(''rejectionReasonId'', ''rejection_reason_id'')]) (\<lambda>ids.
        sbind (let custom = get input ''customFields'' in if is_nullish custom then Inr []
               else (case custom of JArr xs \<Rightarrow> Inr [(''custom_fields'', custom)]
                     | _ \<Rightarrow> Inl (Error ''customFields must be an array of { name_key | custom_field_id, value }''))) (\<lambda>fields.
        sbind (guard (ids @ fields \<noteq> []) (Error ''Provide rejectionReasonId and/or customFields'')) (\<lambda>_.
        Inr (ids @ fields))))) (\<lambda>raw. raw)"

end
