(* ===== verification/GreenhouseG3.thy ===== *)
theory GreenhouseG3
  imports GreenhouseActions
begin

text \<open>
  The table-driven actions of the Greenhouse connector (\<open>runner/connectors/greenhouse/src/g3.ts\<close>): 88 endpoints, each with its
  method, path template, required fields, query and body keys, and one interpreter. \<open>G3_SPECS\<close> is the table of the source without
  the column \<open>slug\<close>, which nothing reads. The input is a record. The last section lists the operations of the whole connector with the
  endpoint of each.
\<close>

record G3Spec =
  g3_method :: string
  g3_path :: string
  g3_required :: "string list"
  g3_queryKeys :: "string list"
  g3_bodyKeys :: "string list"
  g3_listKey :: "string option"
  g3_emptyOk :: bool

definition g3_spec :: "string \<Rightarrow> string \<Rightarrow> string list \<Rightarrow> string list \<Rightarrow> string list \<Rightarrow> string option \<Rightarrow> bool \<Rightarrow> G3Spec" where
  "g3_spec verb path required queryKeys bodyKeys listKey emptyOk =
     \<lparr>g3_method = verb, g3_path = path, g3_required = required, g3_queryKeys = queryKeys, g3_bodyKeys = bodyKeys,
      g3_listKey = listKey, g3_emptyOk = emptyOk\<rparr>"

definition AUTH_KEYS :: "string list" where
  "AUTH_KEYS = [''clientId'', ''clientSecret'', ''userId'', ''fetch'', ''accessToken'', ''on_behalf_of'', ''onBehalfOf'']"

definition G3_SPECS :: "(string \<times> G3Spec) list" where
  "G3_SPECS =
     [(''users.activate'', g3_spec ''POST'' ''/users/{id}/activate'' [''id''] [] [] (None) True),
      (''candidates.anonymize'', g3_spec ''PATCH'' ''/candidates/{id}/anonymize'' [''id'', ''fields''] [] [''fields''] (None) False),
      (''blocked_spam_sources.bulk_create'', g3_spec ''POST'' ''/blocked_spam_sources/bulk'' [''data''] [] [''data'', ''callback_url''] (None)
        False),
      (''custom_field_options.bulk_create'', g3_spec ''POST'' ''/custom_field_options/bulk'' [''data''] [] [''data''] (None) False),
      (''openings.bulk_create'', g3_spec ''POST'' ''/openings/bulk'' [''data''] [] [''data'', ''callback_url''] (None) False),
      (''users.bulk_deactivate'', g3_spec ''POST'' ''/users/deactivate/bulk'' [''data''] [] [''data'', ''callback_url''] (None) False),
      (''custom_field_options.bulk_delete'', g3_spec ''DELETE'' ''/custom_field_options/bulk'' [''data''] [] [''data''] (None) False),
      (''blocked_spam_sources.bulk_update'', g3_spec ''PATCH'' ''/blocked_spam_sources/bulk'' [''data''] [] [''data'', ''callback_url''] (None)
        False),
      (''custom_field_options.bulk_update'', g3_spec ''PATCH'' ''/custom_field_options/bulk'' [''data''] [] [''data'', ''callback_url''] (None)
        False),
      (''departments.bulk_update'', g3_spec ''PATCH'' ''/departments/bulk'' [''data''] [] [''data'', ''callback_url''] (None) False),
      (''offices.bulk_update'', g3_spec ''PATCH'' ''/offices/bulk'' [''data''] [] [''data'', ''callback_url''] (None) False),
      (''openings.bulk_update'', g3_spec ''PATCH'' ''/openings/bulk'' [''data''] [] [''data'', ''callback_url''] (None) False),
      (''users.bulk_update'', g3_spec ''PATCH'' ''/users/bulk'' [''data''] [] [''data'', ''callback_url''] (None) False),
      (''approval_flows.create'', g3_spec ''POST'' ''/approval_flows'' [''job_id'', ''sequential'', ''approver_groups'', ''approval_type''] []
        [''job_id'', ''offer_id'', ''sequential'', ''approval_type'', ''approver_groups''] (None) False),
      (''blocked_spam_sources.create'', g3_spec ''POST'' ''/blocked_spam_sources'' [''value'', ''source_type''] [] [''note'', ''value'',
        ''source_type''] (None) False),
      (''custom_fields.create'', g3_spec ''POST'' ''/custom_fields'' [''name'', ''field_type'', ''value_type''] [] [''name'', ''private'',
        ''api_only'', ''required'', ''field_type'', ''office_ids'', ''value_type'', ''description'', ''department_ids'', ''require_approval'',
        ''trigger_new_version'', ''custom_field_options'', ''generate_email_token'', ''expose_in_job_board_api''] (None) False),
      (''custom_field_departments.create'', g3_spec ''POST'' ''/custom_field_departments'' [''department_id'', ''custom_field_id''] []
        [''department_id'', ''custom_field_id''] (None) False),
      (''custom_field_offices.create'', g3_spec ''POST'' ''/custom_field_offices'' [''office_id'', ''custom_field_id''] [] [''office_id'',
        ''custom_field_id''] (None) False),
      (''custom_field_options.create'', g3_spec ''POST'' ''/custom_field_options'' [''name'', ''sort_order'', ''custom_field_id''] [] [''name'',
        ''sort_order'', ''external_id'', ''custom_field_id''] (None) False),
      (''departments.create'', g3_spec ''POST'' ''/departments'' [''name''] [] [''name'', ''parent_id'', ''external_id'', ''external_parent_id'']
        (None) False),
      (''jobs.create'', g3_spec ''POST'' ''/jobs'' [''template_job_id'', ''number_of_openings''] [] [''notes'', ''job_name'', ''office_ids'',
        ''opening_ids'', ''custom_fields'', ''department_id'', ''job_post_name'', ''requisition_id'', ''template_job_id'', ''number_of_openings'',
        ''external_office_ids'', ''external_department_id''] (None) False),
      (''job_hiring_managers.create'', g3_spec ''POST'' ''/job_hiring_managers'' [''job_id'', ''user_id''] [] [''job_id'', ''user_id''] (None)
        False),
      (''job_notes.create'', g3_spec ''POST'' ''/job_notes'' [''body'', ''job_id'', ''user_id''] [] [''body'', ''job_id'', ''user_id'',
        ''visibility''] (None) False),
      (''job_owners.create'', g3_spec ''POST'' ''/job_owners'' [''job_id'', ''user_id'', ''type''] [] [''type'', ''job_id'', ''user_id''] (None)
        False),
      (''offices.create'', g3_spec ''POST'' ''/offices'' [''name''] [] [''name'', ''location'', ''parent_id'', ''external_id'',
        ''external_parent_id''] (None) False),
      (''openings.create'', g3_spec ''POST'' ''/openings'' [''job_id''] [] [''job_id'', ''opening_id'', ''custom_fields''] (None) False),
      (''users.create'', g3_spec ''POST'' ''/users'' [''last_name'', ''first_name'', ''primary_email''] [] [''last_name'', ''first_name'',
        ''office_ids'', ''employee_id'', ''custom_fields'', ''primary_email'', ''department_ids'', ''send_email_invite'', ''external_office_ids'',
        ''external_department_ids''] (None) False),
      (''user_emails.create'', g3_spec ''POST'' ''/user_emails'' [''email'', ''user_id''] [] [''email'', ''user_id'', ''send_verification'']
        (None) False),
      (''user_job_permissions.create'', g3_spec ''POST'' ''/user_job_permissions'' [''job_id'', ''role_id'', ''user_id''] [] [''job_id'',
        ''role_id'', ''user_id''] (None) False),
      (''users.deactivate'', g3_spec ''POST'' ''/users/{id}/deactivate'' [''id''] [] [] (None) True),
      (''blocked_spam_sources.delete'', g3_spec ''DELETE'' ''/blocked_spam_sources/{id}'' [''id''] [] [] (None) True),
      (''custom_field_offices.delete'', g3_spec ''DELETE'' ''/custom_field_offices/{id}'' [''id''] [] [] (None) True),
      (''custom_field_options.delete'', g3_spec ''DELETE'' ''/custom_field_options/{id}'' [''id''] [] [] (None) True),
      (''job_hiring_managers.delete'', g3_spec ''DELETE'' ''/job_hiring_managers/{id}'' [''id''] [] [] (None) True),
      (''job_notes.delete'', g3_spec ''DELETE'' ''/job_notes/{id}'' [''id''] [] [] (None) True),
      (''job_owners.delete'', g3_spec ''DELETE'' ''/job_owners/{id}'' [''id''] [] [] (None) True),
      (''user_job_permissions.delete'', g3_spec ''DELETE'' ''/user_job_permissions/{id}'' [''id''] [] [] (None) True),
      (''users.me'', g3_spec ''GET'' ''/users'' [] [] [] (None) False),
      (''approval_flows.list'', g3_spec ''GET'' ''/approval_flows'' [] [''ids'', ''cursor'', ''fields'', ''job_ids'', ''per_page'', ''offer_ids'',
        ''created_at'', ''updated_at'', ''approval_type''] [] (Some ''approvalFlows'') False),
      (''approver_groups.list'', g3_spec ''GET'' ''/approver_groups'' [] [''ids'', ''cursor'', ''fields'', ''per_page'', ''created_at'',
        ''updated_at'', ''approval_flow_ids''] [] (Some ''approverGroups'') False),
      (''approvers.list'', g3_spec ''GET'' ''/approvers'' [] [''ids'', ''cursor'', ''fields'', ''status'', ''per_page'', ''user_ids'',
        ''created_at'', ''updated_at'', ''approver_group_ids''] [] (Some ''approvers'') False),
      (''bulk_requests.list'', g3_spec ''GET'' ''/bulk_requests'' [] [''cursor'', ''per_page''] [] (Some ''bulkRequests'') False),
      (''custom_field_departments.list'', g3_spec ''GET'' ''/custom_field_departments'' [] [''ids'', ''cursor'', ''fields'', ''per_page'',
        ''created_at'', ''updated_at'', ''department_ids'', ''custom_field_ids''] [] (Some ''customFieldDepartments'') False),
      (''custom_field_offices.list'', g3_spec ''GET'' ''/custom_field_offices'' [] [''ids'', ''cursor'', ''fields'', ''per_page'', ''created_at'',
        ''office_ids'', ''updated_at'', ''custom_field_ids''] [] (Some ''customFieldOffices'') False),
      (''custom_field_options.list'', g3_spec ''GET'' ''/custom_field_options'' [] [''ids'', ''active'', ''cursor'', ''fields'', ''per_page'',
        ''created_at'', ''updated_at'', ''custom_field_ids'', ''custom_field_key''] [] (Some ''customFieldOptions'') False),
      (''custom_fields.list'', g3_spec ''GET'' ''/custom_fields'' [] [''ids'', ''name'', ''active'', ''cursor'', ''fields'', ''name_key'',
        ''per_page'', ''created_at'', ''field_type'', ''updated_at''] [] (Some ''customFields'') False),
      (''default_interviewers.list'', g3_spec ''GET'' ''/default_interviewers'' [] [''ids'', ''cursor'', ''fields'', ''per_page'', ''user_ids'',
        ''created_at'', ''updated_at'', ''interview_kit_ids''] [] (Some ''defaultInterviewers'') False),
      (''demographic_answer_options.list'', g3_spec ''GET'' ''/demographic_answer_options'' [] [''cursor'', ''per_page''] [] (Some
        ''demographicAnswerOptions'') False),
      (''demographic_answers.list'', g3_spec ''GET'' ''/demographic_answers'' [] [''cursor'', ''per_page'', ''created_after'', ''updated_after'',
        ''created_before'', ''updated_before''] [] (Some ''demographicAnswers'') False),
      (''demographic_questions.list'', g3_spec ''GET'' ''/demographic_questions'' [] [''cursor'', ''per_page''] [] (Some ''demographicQuestions'')
        False),
      (''demographic_question_sets.list'', g3_spec ''GET'' ''/demographic_question_sets'' [] [''cursor'', ''per_page''] [] (Some
        ''demographicQuestionSets'') False),
      (''eeoc.list'', g3_spec ''GET'' ''/eeoc'' [] [''cursor'', ''per_page'', ''submitted_at''] [] (Some ''eeoc'') False),
      (''email_templates.list'', g3_spec ''GET'' ''/email_templates'' [] [''cursor'', ''fields'', ''per_page'', ''created_at'', ''updated_at''] []
        (Some ''emailTemplates'') False),
      (''focus_candidate_attributes.list'', g3_spec ''GET'' ''/focus_candidate_attributes'' [] [''ids'', ''cursor'', ''fields'', ''per_page'',
        ''created_after'', ''updated_after'', ''created_before'', ''updated_before'', ''interview_kit_ids'', ''job_candidate_attribute_ids''] []
        (Some ''focusCandidateAttributes'') False),
      (''interviewer_tags.list'', g3_spec ''GET'' ''/interviewer_tags'' [] [''ids'', ''cursor'', ''fields'', ''per_page'', ''created_at_gt'',
        ''created_at_lt'', ''updated_at_gt'', ''updated_at_lt'', ''created_at_gte'', ''created_at_lte'', ''updated_at_gte'', ''updated_at_lte''] []
        (Some ''interviewerTags'') False),
      (''interview_kits.list'', g3_spec ''GET'' ''/interview_kits'' [] [''ids'', ''cursor'', ''fields'', ''job_ids'', ''per_page'',
        ''created_at'', ''updated_at'', ''job_interview_ids''] [] (Some ''interviewKits'') False),
      (''job_board_custom_locations.list'', g3_spec ''GET'' ''/job_board_custom_locations'' [] [''ids'', ''active'', ''cursor'', ''fields'',
        ''per_page'', ''created_at'', ''updated_at'', ''greenhouse_job_board_ids''] [] (Some ''jobBoardCustomLocations'') False),
      (''job_boards.list'', g3_spec ''GET'' ''/job_boards'' [] [''ids'', ''live'', ''cursor'', ''fields'', ''internal'', ''per_page'',
        ''created_at'', ''updated_at''] [] (Some ''jobBoards'') False),
      (''job_candidate_attributes.list'', g3_spec ''GET'' ''/job_candidate_attributes'' [] [''ids'', ''active'', ''cursor'', ''fields'',
        ''job_ids'', ''per_page'', ''created_at'', ''updated_at'', ''candidate_attribute_type_ids''] [] (Some ''jobCandidateAttributes'') False),
      (''job_hiring_managers.list'', g3_spec ''GET'' ''/job_hiring_managers'' [] [''ids'', ''cursor'', ''fields'', ''job_ids'', ''per_page'',
        ''user_ids'', ''created_at'', ''updated_at''] [] (Some ''jobHiringManagers'') False),
      (''job_interviews.list'', g3_spec ''GET'' ''/job_interviews'' [] [''ids'', ''active'', ''cursor'', ''job_ids'', ''per_page'',
        ''created_at'', ''updated_at'', ''scheduling_type'', ''job_interview_stage_ids''] [] (Some ''jobInterviews'') False),
      (''job_notes.list'', g3_spec ''GET'' ''/job_notes'' [] [''ids'', ''cursor'', ''job_ids'', ''per_page'', ''user_ids'', ''created_after'',
        ''updated_after'', ''created_before'', ''updated_before''] [] (Some ''jobNotes'') False),
      (''job_owners.list'', g3_spec ''GET'' ''/job_owners'' [] [''ids'', ''type'', ''cursor'', ''job_ids'', ''per_page'', ''user_ids'',
        ''created_after'', ''updated_after'', ''created_before'', ''updated_before''] [] (Some ''jobOwners'') False),
      (''job_posts.list'', g3_spec ''GET'' ''/job_posts'' [] [''ids'', ''live'', ''active'', ''cursor'', ''fields'', ''job_ids'', ''featured'',
        ''internal'', ''per_page'', ''created_after'', ''job_board_ids'', ''updated_after'', ''created_before'', ''updated_before''] [] (Some
        ''jobPosts'') False),
      (''job_post_searchable_locations.list'', g3_spec ''GET'' ''/job_post_searchable_locations'' [] [''ids'', ''cursor'', ''fields'',
        ''per_page'', ''job_post_ids'', ''created_after'', ''updated_after'', ''created_before'', ''updated_before''] [] (Some
        ''jobPostSearchableLocations'') False),
      (''openings.list'', g3_spec ''GET'' ''/openings'' [] [''ids'', ''open'', ''cursor'', ''job_ids'', ''per_page'', ''opening_id'',
        ''closed_after'', ''opened_after'', ''closed_before'', ''created_after'', ''opened_before'', ''updated_after'', ''created_before'',
        ''updated_before'', ''application_ids'', ''close_reason_ids'', ''custom_field_option_id''] [] (Some ''openings'') False),
      (''pay_input_ranges.list'', g3_spec ''GET'' ''/pay_input_ranges'' [] [''ids'', ''cursor'', ''fields'', ''per_page'', ''created_at'',
        ''updated_at'', ''job_post_ids'', ''pay_input_ids''] [] (Some ''payInputRanges'') False),
      (''pay_inputs.list'', g3_spec ''GET'' ''/pay_inputs'' [] [''ids'', ''cursor'', ''fields'', ''per_page'', ''created_at'', ''updated_at'',
        ''linked_custom_field_ids''] [] (Some ''payInputs'') False),
      (''prospect_pools.list'', g3_spec ''GET'' ''/prospect_pools'' [] [''ids'', ''active'', ''cursor'', ''fields'', ''job_ids'', ''per_page'',
        ''created_at'', ''office_ids'', ''updated_at'', ''department_ids''] [] (Some ''prospectPools'') False),
      (''prospect_pool_stages.list'', g3_spec ''GET'' ''/prospect_pool_stages'' [] [''ids'', ''cursor'', ''fields'', ''per_page'', ''created_at'',
        ''updated_at'', ''prospect_pool_ids''] [] (Some ''prospectPoolStages'') False),
      (''referrers.list'', g3_spec ''GET'' ''/referrers'' [] [''ids'', ''cursor'', ''fields'', ''per_page'', ''user_ids'', ''created_after'',
        ''updated_after'', ''created_before'', ''updated_before''] [] (Some ''referrers'') False),
      (''scorecard_question_options.list'', g3_spec ''GET'' ''/scorecard_question_options'' [] [''ids'', ''active'', ''cursor'', ''fields'',
        ''per_page'', ''created_at'', ''updated_at'', ''scorecard_question_ids''] [] (Some ''scorecardQuestionOptions'') False),
      (''tracking_links.list'', g3_spec ''GET'' ''/tracking_links'' [] [''ids'', ''token'', ''cursor'', ''fields'', ''job_ids'', ''per_page'',
        ''created_at'', ''source_ids'', ''updated_at'', ''job_post_ids'', ''referrer_ids'', ''job_board_ids'', ''related_post_ids'',
        ''related_post_type''] [] (Some ''trackingLinks'') False),
      (''user_job_permissions.list'', g3_spec ''GET'' ''/user_job_permissions'' [] [''cursor'', ''per_page''] [] (Some ''userJobPermissions'')
        False),
      (''approver_groups.replace_approver'', g3_spec ''PUT'' ''/approver_groups/{id}/replace_approver'' [''id'', ''add_user_id'',
        ''remove_user_id''] [] [''add_user_id'', ''remove_user_id''] (None) False),
      (''approval_flows.request_approvals'', g3_spec ''POST'' ''/approval_flows/{id}/request_approvals'' [''id''] [] [] (None) True),
      (''users.revoke_permissions'', g3_spec ''POST'' ''/users/{id}/revoke_permissions'' [''id''] [] [] (None) True),
      (''applications.search'', g3_spec ''GET'' ''/applications'' [] [''cursor'', ''fields'', ''search'', ''job_ids'', ''per_page'', ''prospect'',
        ''office_id'', ''stage_ids'', ''job_status'', ''source_ids'', ''stage_name'', ''job_post_ids'', ''recruiter_id'', ''referrer_ids'',
        ''stage_status'', ''candidate_ids'', ''department_id'', ''coordinator_id'', ''candidate_tag_id'', ''prospect_pool_id'',
        ''hiring_manager_id''] [] (Some ''applications'') False),
      (''approval_flows.update'', g3_spec ''PATCH'' ''/approval_flows/{id}'' [''id'', ''sequential''] [] [''sequential''] (None) False),
      (''blocked_spam_sources.update'', g3_spec ''PATCH'' ''/blocked_spam_sources/{id}'' [''id'', ''note''] [] [''note''] (None) False),
      (''custom_fields.update'', g3_spec ''PATCH'' ''/custom_fields/{id}'' [''id''] [] [''name'', ''private'', ''api_only'', ''required'',
        ''description'', ''require_approval'', ''template_token_string'', ''expose_in_job_board_api''] (None) False),
      (''custom_field_options.update'', g3_spec ''PATCH'' ''/custom_field_options/{id}'' [''id''] [] [''name'', ''sort_order'', ''external_id'']
        (None) False),
      (''departments.update'', g3_spec ''PATCH'' ''/departments/{id}'' [''id'', ''name''] [] [''name'', ''parent_id'', ''external_id''] (None)
        False),
      (''jobs.update'', g3_spec ''PATCH'' ''/jobs/{id}'' [''id''] [] [''name'', ''notes'', ''anywhere'', ''office_ids'', ''custom_fields'',
        ''department_id'', ''requisition_id'', ''external_office_ids'', ''how_to_sell_this_job'', ''external_department_id'',
        ''team_and_responsibilities''] (None) False),
      (''job_notes.update'', g3_spec ''PATCH'' ''/job_notes/{id}'' [''id''] [] [''body'', ''visibility''] (None) False),
      (''offices.update'', g3_spec ''PATCH'' ''/offices/{id}'' [''id'', ''name''] [] [''name'', ''location'', ''parent_id'', ''external_id'',
        ''external_parent_id'', ''primary_in_house_contact_user_id''] (None) False),
      (''openings.update'', g3_spec ''PATCH'' ''/openings/{id}'' [''id''] [] [''status'', ''opening_id'', ''custom_fields'', ''close_reason_id'',
        ''target_start_on''] (None) False),
      (''users.update'', g3_spec ''PATCH'' ''/users/{id}'' [''id''] [] [''last_name'', ''first_name'', ''office_ids'', ''employee_id'',
        ''custom_fields'', ''department_ids'', ''external_office_ids'', ''external_department_ids''] (None) False)]"

section \<open>Reading the input\<close>

definition toSnake :: "string \<Rightarrow> string" where
  "toSnake key =
     (if CHR ''_'' \<in> set key then key else concat (map (\<lambda>c. if is_upper c then CHR ''_'' # to_lower [c] else [c]) key))"

fun toCamel :: "string \<Rightarrow> string" where
  "toCamel (a # c # cs) = (if a = CHR ''_'' \<and> is_lower c then char_of (code c - 32) # toCamel cs else a # toCamel (c # cs))"
| "toCamel cs = cs"

definition pick :: "jsval \<Rightarrow> string \<Rightarrow> jsval" where
  "pick input name =
     (if get input name \<noteq> JUndef then get input name
      else if get input (toCamel name) \<noteq> JUndef then get input (toCamel name)
      else get input (toSnake name))"

definition present :: "jsval \<Rightarrow> bool" where
  "present v = (v \<noteq> JUndef \<and> v \<noteq> JNull \<and> v \<noteq> JStr [])"

definition formatQueryValue :: "jsval \<Rightarrow> jsval" where
  "formatQueryValue v =
     (if \<not> present v then JUndef
      else case v of
          JArr xs \<Rightarrow> (case filter (\<lambda>s. s \<noteq> []) (map to_str xs) of [] \<Rightarrow> JUndef | parts \<Rightarrow> JStr (join '','' parts))
        | JObj _ \<Rightarrow> (case find (\<lambda>op. present (get v op)) [''gte'', ''lte'', ''gt'', ''lt''] of
                      Some op \<Rightarrow> JStr (op @ ''|'' @ to_str (get v op)) | None \<Rightarrow> JUndef)
        | JFun _ \<Rightarrow> JUndef
        | _ \<Rightarrow> JStr (to_str v))"

definition asPathId :: "jsval \<Rightarrow> string \<Rightarrow> string res" where
  "asPathId v field =
     (case v of
        JNum n \<Rightarrow> if is_finite n then Inr (num_to_string (num_trunc n)) else Inl (Error (field @ '' is required''))
      | JStr (c # cs) \<Rightarrow> JobBoard.assertSafePathSegment (c # cs) field
      | _ \<Rightarrow> Inl (Error (field @ '' is required'')))"

fun fill_parts :: "jsval \<Rightarrow> path_part list \<Rightarrow> string res" where
  "fill_parts input [] = Inr []"
| "fill_parts input (Fixed c # ts) = sbind (fill_parts input ts) (\<lambda>rest. Inr (c # rest))"
| "fill_parts input (Placeholder name # ts) =
     sbind (asPathId (pick input name) name) (\<lambda>i. sbind (fill_parts input ts) (\<lambda>rest. Inr (i @ rest)))"

definition interpolatePath :: "string \<Rightarrow> jsval \<Rightarrow> string res" where
  "interpolatePath template input = fill_parts input (path_parts template)"

definition extraHeaders :: "jsval \<Rightarrow> (string \<times> string) list" where
  "extraHeaders input =
     (let raw = pick input ''on_behalf_of'' in if present raw then [(''On-Behalf-Of'', to_str raw)] else [])"

definition requireFields :: "jsval \<Rightarrow> string list \<Rightarrow> unit res" where
  "requireFields input names = for_each (\<lambda>name. guard (present (pick input name)) (Error (toCamel name @ '' is required''))) names"

text \<open>The body: the listed keys, then every other member of the input. An assignment to \<open>__proto__\<close> adds no member.\<close>

definition pathKeys :: "string \<Rightarrow> string list" where
  "pathKeys path = concat (map (\<lambda>p. case p of Placeholder name \<Rightarrow> [name] | Fixed _ \<Rightarrow> []) (path_parts path))"

definition excluded_key :: "string \<Rightarrow> string \<Rightarrow> bool" where
  "excluded_key path key = (key \<in> set AUTH_KEYS \<or> key \<in> set (pathKeys path) \<or> toSnake key \<in> set (pathKeys path))"

definition absent_value :: "jsval \<Rightarrow> bool" where
  "absent_value v = (\<not> present v \<and> v \<noteq> JBool False \<and> (case v of JNum n \<Rightarrow> \<not> num_strict_eq n (Fin 0) | _ \<Rightarrow> True))"

definition in_object :: "string \<Rightarrow> props \<Rightarrow> bool" where
  "in_object key body = (has_own body key \<or> object_prototype key \<noteq> JUndef)"

definition listed_body :: "jsval \<Rightarrow> string list \<Rightarrow> string \<Rightarrow> props" where
  "listed_body input bodyKeys path =
     foldl (\<lambda>body key. if excluded_key path key \<or> absent_value (pick input key) then body
                       else obj_put body (toSnake key) (pick input key)) []
       (if bodyKeys \<noteq> [] then bodyKeys else map fst (props_of input))"

definition g3_buildBody :: "jsval \<Rightarrow> string list \<Rightarrow> string \<Rightarrow> jsval" where
  "g3_buildBody input bodyKeys path =
     (let body = foldl (\<lambda>body (key, v).
            if excluded_key path key \<or> in_object key body \<or> in_object (toSnake key) body \<or> absent_value v
               \<or> key \<in> set [''perPage'', ''per_page'', ''cursor'']
            then body else obj_put body (toSnake key) v) (listed_body input bodyKeys path) (props_of input)
      in if body = [] then JUndef else JObj body)"

section \<open>The interpreter\<close>

definition listMetaG3 :: "string \<Rightarrow> jsval \<Rightarrow> string option \<Rightarrow> jsval" where
  "listMetaG3 listKey body nextCursor =
     JObj [(listKey, JArr (case body of JArr xs \<Rightarrow> xs | _ \<Rightarrow> if is_nullish body then [] else [body])),
       (''nextCursor'', cursor_value nextCursor)]"

definition ok_value :: jsval where
  "ok_value = JObj [(''ok'', JBool True)]"

definition me_id :: "jsval \<Rightarrow> jsval \<Rightarrow> string" where
  "me_id sub userId =
     (case sub of JNum n \<Rightarrow> if is_finite n then num_to_string (num_trunc n) else str_of userId
      | JStr (c # cs) \<Rightarrow> c # cs | _ \<Rightarrow> str_of userId)"

definition me_lookup :: "gh_env \<Rightarrow> jsval \<Rightarrow> gh_client \<Rightarrow> jsval \<Rightarrow> jsval gh" where
  "me_lookup env input c introspect =
     (let userId = me_id (get introspect ''sub'') (get input ''userId'') in
      if userId = [] then settled (Inr (JObj [(''user'', JNull), (''introspect'', introspect)]))
      else check_async (JobBoard.assertSafePathSegment userId ''sub'') (\<lambda>safeId.
      await_async (gh_getJSON (ge_platform env) (ge_context env) c (''/users?ids='' @ encode_uri safeId)) (\<lambda>listed.
      settled (let users = (case listed of JArr xs \<Rightarrow> xs | _ \<Rightarrow> if is_nullish listed then [] else [listed])
               in Inr (JObj [(''user'', nullish (array0 (JArr users)) JNull), (''users'', JArr users), (''introspect'', introspect)])))))"

definition executeUsersMe :: gh_operation where
  "executeUsersMe env input =
     with_client env input ''users.me'' (\<lambda>c.
     await_async (introspectToken (ge_platform env) (ge_context env) c) (me_lookup env input c))"

definition query_of :: "jsval \<Rightarrow> string list \<Rightarrow> props" where
  "query_of input queryKeys =
     (let query = foldl (\<lambda>q key. obj_put q key (formatQueryValue (pick input key))) [] queryKeys;
          fill = (\<lambda>q key. if is_nullish (prop_get q key) then obj_put q key (formatQueryValue (pick input key)) else q)
      in fill (fill query ''per_page'') ''cursor'')"

definition executeSpec :: "string \<Rightarrow> G3Spec \<Rightarrow> gh_operation" where
  "executeSpec operation spec env input =
     check_async (requireFields input (g3_required spec)) (\<lambda>_.
     check_async (interpolatePath (g3_path spec) input) (\<lambda>path.
     with_client env input operation (\<lambda>c.
       if g3_method spec = ''GET''
       then await_async (getJSONWithMeta (ge_cursor_of env) (ge_platform env) (ge_context env) c
                (path @ buildQuery (query_of input (g3_queryKeys spec)))) (\<lambda>(body, _, nextCursor).
              settled (Inr (case g3_listKey spec of
                              Some (k # ks) \<Rightarrow> listMetaG3 (k # ks) body nextCursor
                            | _ \<Rightarrow> nullish body ok_value)))
       else await_async (requestJSON (ge_platform env) (ge_context env) c (g3_method spec) path
                (g3_buildBody input (g3_bodyKeys spec) (g3_path spec)) (extraHeaders input)) (\<lambda>raw.
              settled (Inr (if raw = JUndef then ok_value else raw))))))"

definition executeGreenhouseG3Action :: "string \<Rightarrow> gh_operation" where
  "executeGreenhouseG3Action operation env input =
     (if operation = ''users.me'' then executeUsersMe env input
      else case map_of G3_SPECS operation of
          None \<Rightarrow> settled (Inl (Error (''Unknown greenhouse G3 operation: '' @ operation)))
        | Some spec \<Rightarrow> executeSpec operation spec env input)"

definition createGreenhouseG3ActionHandlers :: "(string \<times> gh_operation) list" where
  "createGreenhouseG3ActionHandlers = map (\<lambda>(key, _). (key, executeGreenhouseG3Action key)) G3_SPECS"

section \<open>Numbers as path segments\<close>

definition numeral_char :: "char \<Rightarrow> bool" where
  "numeral_char c = (is_digit c \<or> c \<in> set ''.e+-'')"

lemma dig_digit: "n < 10 \<Longrightarrow> is_digit (dig n)"
  by (auto simp: dig_def is_digit_def of_char_mod_256)

lemma show_nat_decimal: "show_nat n \<noteq> [] \<and> list_all is_digit (show_nat n)"
proof (induction n rule: less_induct)
  case (less n)
  show ?case
  proof (cases "n < 10")
    case True
    then have "show_nat n = [dig n]" by (subst show_nat.simps) simp
    with True show ?thesis by (simp add: dig_digit)
  next
    case False
    then have "show_nat n = show_nat (n div 10) @ [dig (n mod 10)]" by (subst show_nat.simps) simp
    moreover from False less have "list_all is_digit (show_nat (n div 10))" by simp
    ultimately show ?thesis by (simp add: dig_digit)
  qed
qed

lemma numeral_safe:
  assumes "list_all numeral_char s" and "list_ex is_digit s"
  shows "safe_id s"
proof -
  have "\<not> numeral_char (CHR ''/'')" "\<not> numeral_char (CHR ''?'')" "\<not> numeral_char (CHR ''#'')" "\<not> numeral_char (CHR ''%'')"
      "\<not> numeral_char (CHR 0x5C)" "\<not> is_digit (CHR ''.'')"
    by (simp_all add: numeral_char_def is_digit_def)
  moreover from this assms(2) have "s \<noteq> []" "\<not> all_dots s"
    unfolding all_dots_def list_ex_iff list_all_iff by (force, metis)
  ultimately show ?thesis
    using assms(1) unfolding safe_id_def list_all_iff by auto
qed

lemma digits_numeral: "list_all is_digit s \<Longrightarrow> list_all numeral_char s"
  by (auto simp: list_all_iff numeral_char_def)

lemma pos_to_string_numeral: "list_all numeral_char (pos_to_string r) \<and> list_ex is_digit (pos_to_string r)"
proof -
  obtain s n where sn: "shortest 17 1 r (dec_len r) = (s, n)" by fastforce
  have ds: "list_all is_digit (show_nat m)" "show_nat m \<noteq> []" for m using show_nat_decimal by auto
  have zero: "list_all is_digit (zeros m)" for m by (auto simp: zeros_def is_digit_def list_all_iff)
  have sub: "list_all is_digit (take m (show_nat s))" "list_all is_digit (drop m (show_nat s))" for m
    using ds(1) [of s] by (auto simp: list_all_iff dest: in_set_takeD in_set_dropD)
  have front: "list_ex is_digit (take m (show_nat s))" if "0 < m" for m
    using ds [of s] that by (cases "show_nat s"; cases m) auto
  have whole: "list_ex is_digit (show_nat s)" using ds [of s] by (cases "show_nat s") auto
  note chars = ds(1) zero sub
  show ?thesis
    unfolding pos_to_string_def Let_def sn prod.case
    by (simp add: chars [THEN digits_numeral] front whole numeral_char_def is_digit_def [of "CHR ''0''"])
qed

lemma num_to_string_safe: "is_finite n \<Longrightarrow> safe_id (num_to_string n)"
proof (rule numeral_safe)
  assume "is_finite n"
  have int: "list_all numeral_char (show_int k) \<and> list_ex is_digit (show_int k)" for k
  proof -
    have "list_all numeral_char (show_nat m) \<and> list_ex is_digit (show_nat m)" for m
      using show_nat_decimal [of m] digits_numeral by (cases "show_nat m") (auto simp: numeral_char_def list_all_iff)
    then show ?thesis by (simp add: show_int_def numeral_char_def)
  qed
  have "list_all numeral_char (num_to_string (Fin q)) \<and> list_ex is_digit (num_to_string (Fin q))" for q
    unfolding num_to_string.simps using int pos_to_string_numeral by (simp add: numeral_char_def)
  with \<open>is_finite n\<close> show "list_all numeral_char (num_to_string n)" "list_ex is_digit (num_to_string n)"
    by (cases n; simp add: is_finite_def numeral_char_def is_digit_def del: num_to_string.simps(5))+
qed

lemma num_trunc_finite: "is_finite n \<Longrightarrow> is_finite (num_trunc n)"
  by (cases n) (auto simp: is_finite_def num_trunc_def)

lemma segment_safe: "JobBoard.assertSafePathSegment s field = Inr i \<Longrightarrow> safe_id i"
  using path_id_safe [of "JStr s" field i] by (simp add: path_id_def)

lemma asPathId_safe: "asPathId v field = Inr i \<Longrightarrow> safe_id i"
  by (auto simp: asPathId_def num_to_string_safe num_trunc_finite intro: segment_safe split: jsval.splits if_splits list.splits)

lemma fill_parts_fills: "fill_parts input parts = Inr p \<Longrightarrow> q = [] \<or> hd q = CHR ''?'' \<Longrightarrow> fills parts (p @ q)"
proof (induction input parts arbitrary: p rule: fill_parts.induct)
  case (3 input name ts)
  then obtain i rest where "asPathId (pick input name) name = Inr i" "fill_parts input ts = Inr rest" "p = i @ rest"
    by (auto simp: res_simps)
  with 3 asPathId_safe show ?case by fastforce
qed (auto simp: res_simps)

section \<open>The requests of the actions\<close>

lemma stays_spec: "stays_at env input operation 4 (\<lambda>c. endpoint_calls (g3_method spec) (g3_path spec)) (executeSpec operation spec env input)"
proof -
  have path: "fills (path_parts (g3_path spec)) (p @ buildQuery ps)" "fills (path_parts (g3_path spec)) p"
    if "interpolatePath (g3_path spec) input = Inr p" for p ps
    using fill_parts_fills [OF that [unfolded interpolatePath_def]] buildQuery_query [of ps] by (auto dest: meta_spec [of _ "[]"])
  show ?thesis
    unfolding executeSpec_def case_prod_unfold
  proof (rule stays_check, rule stays_check, rule stays_client)
    fix c p
    assume p: "interpolatePath (g3_path spec) input = Inr p"
    show "gh.moves (ge_platform env) c (endpoint_calls (g3_method spec) (g3_path spec)) 4
      (if g3_method spec = ''GET''
       then await_async (getJSONWithMeta (ge_cursor_of env) (ge_platform env) (ge_context env) c
                (p @ buildQuery (query_of input (g3_queryKeys spec)))) (\<lambda>r. settled (Inr (case g3_listKey spec of
                              Some (k # ks) \<Rightarrow> listMetaG3 (k # ks) (fst r) (snd (snd r))
                            | _ \<Rightarrow> nullish (fst r) ok_value)))
       else await_async (requestJSON (ge_platform env) (ge_context env) c (g3_method spec) p
                (g3_buildBody input (g3_bodyKeys spec) (g3_path spec)) (extraHeaders input)) (\<lambda>raw.
              settled (Inr (if raw = JUndef then ok_value else raw))))"
    proof (cases "g3_method spec = ''GET''")
      case True
      show ?thesis unfolding True if_P [OF refl] by (rule moves_then_settled [OF moves_getMeta [OF path(1) [OF p]]])
    next
      case False
      show ?thesis unfolding if_not_P [OF False] by (intro moves_then_settled moves_requestJSON path(2) [OF p])
    qed
  qed
qed

lemma gh_moves_if: "gh.moves pf c calls n m \<Longrightarrow> gh.moves pf c calls n m' \<Longrightarrow> gh.moves pf c calls n (if b then m else m')"
  by simp

lemma stays_users_me:
  "stays_at env input ''users.me'' 6 (\<lambda>c. insert (introspect_call c) (endpoint_calls ''GET'' ''/users'')) (executeUsersMe env input)"
proof -
  let ?calls = "\<lambda>c. insert (introspect_call c) (endpoint_calls ''GET'' ''/users'')"
  have fills: "fills (path_parts ''/users'') (''/users?ids='' @ encode_uri i)" for i
    using fills_plain [of "''/users''" "''?ids='' @ encode_uri i"] by simp
  have get: "gh.moves (ge_platform env) c (?calls c) 4 (gh_getJSON (ge_platform env) (ge_context env) c (''/users?ids='' @ encode_uri i))" for c i
    unfolding gh_getJSON_def by (rule moves_harvestJSON) (use fills in \<open>auto simp: endpoint_calls_def\<close>)
  have "gh.moves (ge_platform env) c (?calls c) 4 (me_lookup env input c introspect)" for c introspect
    unfolding me_lookup_def Let_def by (intro gh_moves_if gh.moves_settled gh.moves_check moves_then_settled get)
  then have "gh.moves (ge_platform env) c (?calls c) (2 + 4)
      (await_async (introspectToken (ge_platform env) (ge_context env) c) (me_lookup env input c))" for c
    by (intro gh.moves_await moves_introspect insertI1)
  then have "gh.moves (ge_platform env) c (?calls c) 6
      (await_async (introspectToken (ge_platform env) (ge_context env) c) (me_lookup env input c))" for c
    by simp
  then show ?thesis unfolding executeUsersMe_def by (rule stays_client)
qed

section \<open>The operations of the connector\<close>

text \<open>Every operation with its documented endpoint: \<open>sync.ts\<close> and \<open>healthcheck.ts\<close>, \<open>g1.ts\<close> and \<open>g2.ts\<close>, and the table of \<open>g3.ts\<close>. Apart from these
  there are \<open>jobs.list\<close>, which uses the public board, and \<open>users.me\<close>, which also introspects its token.\<close>

definition sync_endpoints :: "(string \<times> string \<times> string \<times> gh_operation) list" where
  "sync_endpoints =
     [(''candidates.list'', ''GET'', ''/candidates'', executeCandidatesListSync),
      (''candidates.get'', ''GET'', ''/candidates'', executeCandidatesGetSync),
      (''applications.list'', ''GET'', ''/applications'', executeApplicationsListSync),
      (''applications.get'', ''GET'', ''/applications'', executeApplicationsGetSync),
      (''applications.move'', ''POST'', ''/applications/{id}/move'', executeApplicationsMoveSync),
      (''applications.create'', ''POST'', ''/applications'', executeApplicationsCreateSync),
      (''users.list'', ''GET'', ''/users'', executeUsersListSync),
      (''jobs.get'', ''GET'', ''/jobs'', executeJobsGetSync),
      (''interviews.list'', ''GET'', ''/interviews'', executeInterviewsListSync),
      (''job_interview_stages.list'', ''GET'', ''/job_interview_stages'', executeJobInterviewStagesListSync),
      (''candidates.create'', ''POST'', ''/candidates'', executeCandidatesCreateSync),
      (''candidates.update'', ''PATCH'', ''/candidates/{id}'', executeCandidatesUpdateSync),
      (''offers.list'', ''GET'', ''/offers'', executeOffersListSync),
      (''offers.get'', ''GET'', ''/offers'', executeOffersGetSync),
      (''scorecards.list'', ''GET'', ''/scorecards'', executeScorecardsListSync),
      (''scorecards.get'', ''GET'', ''/scorecards'', executeScorecardsGetSync),
      (''departments.list'', ''GET'', ''/departments'', executeDepartmentsListSync),
      (''offices.list'', ''GET'', ''/offices'', executeOfficesListSync),
      (''sources.list'', ''GET'', ''/sources'', executeSourcesListSync),
      (''close_reasons.list'', ''GET'', ''/close_reasons'', executeCloseReasonsListSync),
      (''users.get'', ''GET'', ''/users'', executeUsersGetSync),
      (''applications.reject'', ''POST'', ''/applications/{id}/reject'', executeApplicationsRejectSync),
      (''healthcheck'', ''GET'', ''/users'', greenhouse_healthcheck)]"

definition action_endpoints :: "(string \<times> string \<times> string \<times> gh_operation) list" where
  "action_endpoints =
     [(''applications.hire'', ''POST'', ''/applications/{id}/hire'', executeApplicationsHire),
      (''applications.update'', ''PATCH'', ''/applications/{id}'', executeApplicationsUpdate),
      (''application_stages.list'', ''GET'', ''/application_stages'', executeApplicationStagesList),
      (''rejection_reasons.list'', ''GET'', ''/rejection_reasons'', executeRejectionReasonsList),
      (''rejection_details.list'', ''GET'', ''/rejection_details'', executeRejectionDetailsList),
      (''candidate_tags.list'', ''GET'', ''/candidate_tags'', executeCandidateTagsList),
      (''jobs.list_internal'', ''GET'', ''/jobs'', executeJobsListInternal),
      (''notes.create'', ''POST'', ''/notes'', executeNotesCreate),
      (''notes.list'', ''GET'', ''/notes'', executeNotesList),
      (''candidates.apply_tag'', ''POST'', ''/applied_candidate_tags'', executeCandidatesApplyTag),
      (''candidates.remove_tag'', ''DELETE'', ''/applied_candidate_tags/{id}'', executeCandidatesRemoveTag),
      (''interviews.create'', ''POST'', ''/interviews'', executeInterviewsCreate),
      (''interviews.update'', ''PATCH'', ''/interviews/{id}'', executeInterviewsUpdate),
      (''interviews.delete'', ''DELETE'', ''/interviews/{id}'', executeInterviewsDelete),
      (''offers.create'', ''POST'', ''/offers'', executeOffersCreate),
      (''candidates.merge'', ''POST'', ''/candidates/{id}/merge'', executeCandidatesMerge),
      (''candidates.delete'', ''DELETE'', ''/candidates/{id}'', executeCandidatesDelete),
      (''applications.delete'', ''DELETE'', ''/applications/{id}'', executeApplicationsDelete),
      (''attachments.list'', ''GET'', ''/attachments'', executeAttachmentsList),
      (''attachments.create'', ''POST'', ''/attachments'', executeAttachmentsCreate),
      (''attachments.delete'', ''DELETE'', ''/attachments/{id}'', executeAttachmentsDelete),
      (''candidate_educations.list'', ''GET'', ''/candidate_educations'', executeCandidateEducationsList),
      (''candidate_educations.create'', ''POST'', ''/candidate_educations'', executeCandidateEducationsCreate),
      (''candidate_educations.delete'', ''DELETE'', ''/candidate_educations/{id}'', executeCandidateEducationsDelete),
      (''candidate_employments.list'', ''GET'', ''/candidate_employments'', executeCandidateEmploymentsList),
      (''candidate_employments.create'', ''POST'', ''/candidate_employments'', executeCandidateEmploymentsCreate),
      (''candidate_employments.delete'', ''DELETE'', ''/candidate_employments/{id}'', executeCandidateEmploymentsDelete),
      (''candidate_tags.create'', ''POST'', ''/candidate_tags'', executeCandidateTagsCreate),
      (''candidate_tags.delete'', ''DELETE'', ''/candidate_tags/{id}'', executeCandidateTagsDelete),
      (''rejection_details.update'', ''PATCH'', ''/rejection_details/{id}'', executeRejectionDetailsUpdate)]"

definition g3_endpoints :: "(string \<times> string \<times> string \<times> gh_operation) list" where
  "g3_endpoints =
     concat (map (\<lambda>(key, _). case map_of G3_SPECS key of
         Some spec \<Rightarrow> if key = ''users.me'' then [] else [(key, g3_method spec, g3_path spec, executeGreenhouseG3Action key)]
       | None \<Rightarrow> []) G3_SPECS)"

definition at_endpoint :: "gh_env \<Rightarrow> string \<times> string \<times> string \<times> gh_operation \<Rightarrow> bool" where
  "at_endpoint env operation =
     (case operation of (name, verb, template, run) \<Rightarrow>
        \<forall>input. stays_at env input name 4 (\<lambda>c. endpoint_calls verb template) (run env input))"

lemma sync_at_endpoint: "list_all (at_endpoint env) sync_endpoints"
proof -
  have read0: "stays_at env input operation 4 (\<lambda>c. endpoint_calls ''GET'' ''/users'') (read_call env input operation ''/users?per_page=1'' parse)" for input operation parse
    using stays_read [of "''/users''" "''?per_page=1''"] by simp
  show ?thesis
    unfolding sync_endpoints_def list.pred_inject at_endpoint_def prod.case
      executeCandidatesListSync_def executeCandidatesGetSync_def executeApplicationsListSync_def executeApplicationsGetSync_def
      executeApplicationsMoveSync_def executeApplicationsCreateSync_def executeUsersListSync_def executeJobsGetSync_def
      executeInterviewsListSync_def executeJobInterviewStagesListSync_def executeCandidatesCreateSync_def executeCandidatesUpdateSync_def
      executeOffersListSync_def executeOffersGetSync_def executeScorecardsListSync_def executeScorecardsGetSync_def
      executeDepartmentsListSync_def executeOfficesListSync_def executeSourcesListSync_def executeCloseReasonsListSync_def
      executeUsersGetSync_def executeApplicationsRejectSync_def greenhouse_healthcheck_def paged_list_def
    by (intro conjI allI TrueI stays_check stays_list stays_get stays_read stays_write stays_id_at read0 buildQuery_query) simp_all
qed

lemma stays_merge:
  "stays_at env input ''candidates.merge'' 4 (\<lambda>c. endpoint_calls ''POST'' ''/candidates/{id}/merge'') (executeCandidatesMerge env input)"
  unfolding executeCandidatesMerge_def
proof (rule stays_check, rule stays_write_at)
  fix i
  assume "path_id (get input ''id'') ''id'' = Inr i"
  then show "fills (path_parts ''/candidates/{id}/merge'') (''/candidates/'' @ i @ ''/merge'')"
    using fills_id [OF _ _ path_id_safe, of "''/candidates/''" "''/merge''"] by simp
qed

lemma action_at_endpoint: "list_all (at_endpoint env) action_endpoints"
  unfolding action_endpoints_def list.pred_inject at_endpoint_def prod.case
      executeApplicationsHire_def executeApplicationsUpdate_def executeApplicationStagesList_def executeRejectionReasonsList_def
      executeRejectionDetailsList_def executeCandidateTagsList_def executeJobsListInternal_def executeNotesCreate_def executeNotesList_def
      executeCandidatesApplyTag_def executeCandidatesRemoveTag_def executeInterviewsCreate_def executeInterviewsUpdate_def
      executeInterviewsDelete_def executeOffersCreate_def executeCandidatesDelete_def executeApplicationsDelete_def
      executeAttachmentsList_def executeAttachmentsCreate_def executeAttachmentsDelete_def executeCandidateEducationsList_def
      executeCandidateEducationsCreate_def executeCandidateEducationsDelete_def executeCandidateEmploymentsList_def
      executeCandidateEmploymentsCreate_def executeCandidateEmploymentsDelete_def executeCandidateTagsCreate_def
      executeCandidateTagsDelete_def executeRejectionDetailsUpdate_def profile_list_def Let_def
  by (intro conjI allI TrueI stays_merge stays_check stays_list stays_write stays_id_at stays_delete_at) simp_all

lemma g3_at_endpoint: "list_all (at_endpoint env) g3_endpoints"
  by (auto simp: g3_endpoints_def list_all_iff at_endpoint_def executeGreenhouseG3Action_def stays_spec split: option.splits if_splits)


section \<open>The body of an action\<close>

text \<open>The aliases of a name: only two names read the client secret.\<close>

lemma toCamel_lower:
  assumes "toCamel k = c # cs" and "\<not> is_upper c"
  obtains k' where "k = c # k'" and "toCamel k' = cs"
proof (cases k rule: toCamel.cases)
  case (1 a d ds)
  have "is_upper (char_of (code d - 32))" if "is_lower d"
    using that by (auto simp: is_lower_def is_upper_def)
  with 1 assms that show thesis by (auto split: if_splits)
qed (use assms that in auto)

lemma toCamel_upper:
  assumes "toCamel k = c # cs" and "is_upper c"
  obtains k' where "k = c # k'" and "toCamel k' = cs" | d k' where "k = CHR ''_'' # d # k'" and "is_lower d" and "char_of (code d - 32) = c" and "toCamel k' = cs"
  using assms by (cases k rule: toCamel.cases) (auto split: if_splits)

lemma toCamel_Nil: "toCamel k = [] \<longleftrightarrow> k = []"
  by (cases k rule: toCamel.cases) auto

lemma not_upper_secret: "list_all (\<lambda>c. \<not> is_upper c) ''client'' \<and> list_all (\<lambda>c. \<not> is_upper c) ''ecret''"
  by (simp add: is_upper_def code_def)

lemma toCamel_plain: "list_all (\<lambda>c. \<not> is_upper c) p \<Longrightarrow> toCamel k = p @ q \<Longrightarrow> \<exists>r. k = p @ r \<and> toCamel r = q"
proof (induction p arbitrary: k)
  case (Cons c p)
  from Cons.prems obtain r where "k = c # r" "toCamel r = p @ q" by (auto elim: toCamel_lower)
  with Cons show ?case by auto
qed simp

lemma toCamel_secret:
  assumes "toCamel k = ''clientSecret''"
  shows "k = ''clientSecret'' \<or> k = ''client_secret''"
proof -
  obtain r where r: "k = ''client'' @ r" "toCamel r = ''Secret''"
    using toCamel_plain [of "''client''" k "''Secret''"] not_upper_secret assms by auto
  have up: "is_upper (CHR ''S'')" by (simp add: is_upper_def code_def)
  have tail: "k' = ''ecret''" if "toCamel k' = ''ecret''" for k'
    using toCamel_plain [of "''ecret''" k' "[]"] not_upper_secret that by (auto simp: toCamel_Nil)
  from r(2) up show ?thesis
  proof (cases rule: toCamel_upper)
    case (1 k')
    with tail r show ?thesis by simp
  next
    case (2 d k')
    have "code d = 115"
    proof -
      from 2(2) have "97 \<le> code d" "code d \<le> 122" by (auto simp: is_lower_def)
      moreover from this 2(3) have "code (CHR ''S'') = code d - 32" using code_char_of [of "code d - 32"] by simp
      then have "code d - 32 = 83" by (simp add: code_def)
      ultimately show ?thesis by simp
    qed
    then have "code d = code (CHR ''s'')" by (simp add: code_def)
    then have "d = CHR ''s''" by (simp add: code_eq_iff)
    with 2 tail r show ?thesis by simp
  qed
qed

lemma toSnake_secret: "toSnake k \<noteq> ''clientSecret''"
proof
  assume k: "toSnake k = ''clientSecret''"
  show False
  proof (cases "CHR ''_'' \<in> set k")
    case False
    have "\<not> is_upper (lower_char d)" for d
    proof (cases "is_upper d \<or> (192 \<le> code d \<and> code d \<le> 222 \<and> code d \<noteq> 215)")
      case True
      then have "code d + 32 < 256" "code d + 32 \<noteq> 32" "97 \<le> code d + 32" by (auto simp: is_upper_def)
      with True show ?thesis unfolding lower_char_def if_P [OF True] is_upper_def by simp
    next
      case False
      then show ?thesis unfolding lower_char_def if_not_P [OF False] by blast
    qed
    moreover have "\<not> is_upper (CHR ''_'')" by (simp add: is_upper_def code_def)
    ultimately have "\<not> is_upper c" if "c \<in> set (toSnake k)" for c
      using that False by (auto simp: toSnake_def to_lower_def split: if_splits)
    moreover have "CHR ''S'' \<in> set (toSnake k)" "is_upper (CHR ''S'')" unfolding k by (simp_all add: is_upper_def code_def)
    ultimately show False by blast
  qed (use k in \<open>auto simp: toSnake_def\<close>)
qed

lemma prop_get_upd_prop: "k \<noteq> j \<Longrightarrow> prop_get (upd_prop j v ps) k = prop_get ps k"
  by (induction j v ps rule: upd_prop.induct) (auto simp: prop_get_def)

text \<open>Another client secret does not change what is read under a name, unless the name is an alias that the input lacks.\<close>

lemma pick_ignores_secret:
  assumes "key \<noteq> ''clientSecret''" and "key \<noteq> ''client_secret'' \<or> get (JObj ps) key \<noteq> JUndef"
  shows "pick (JObj (upd_prop ''clientSecret'' v ps)) key = pick (JObj ps) key"
proof -
  have "toCamel key \<noteq> ''clientSecret'' \<or> get (JObj ps) key \<noteq> JUndef" using toCamel_secret assms by blast
  then show ?thesis using toSnake_secret assms(1) by (auto simp: pick_def get_def prop_get_upd_prop)
qed

lemma foldl_upd_prop: "(\<And>b w. f b (k, w) = b) \<Longrightarrow> foldl f b (upd_prop k v ps) = foldl f b ps"
  by (induction k v ps arbitrary: b rule: upd_prop.induct) auto

lemma foldl_same: "(\<And>b x. x \<in> set xs \<Longrightarrow> f b x = g b x) \<Longrightarrow> foldl f b xs = foldl g b xs"
  by (induction xs arbitrary: b) auto

lemma no_secret_key: "list_all (\<lambda>(_, spec). ''client_secret'' \<notin> set (g3_bodyKeys spec)) G3_SPECS"
  unfolding G3_SPECS_def by (simp add: g3_spec_def)

text \<open>C33: The body of a table-driven action does not depend on the client secret. For every entry of the table and every input, another
  client secret gives the same body, although the body takes over every member of the input that is not reserved and
  reads names under their aliases. (The members of a JSON input are not undefined.)\<close>

theorem g3_body_ignores_secret:
  assumes "map_of G3_SPECS operation = Some spec" and "list_all (\<lambda>(_, w). w \<noteq> JUndef) ps"
  shows "g3_buildBody (JObj (upd_prop ''clientSecret'' v ps)) (g3_bodyKeys spec) (g3_path spec) = g3_buildBody (JObj ps) (g3_bodyKeys spec) (g3_path spec)"
proof -
  let ?keys = "if g3_bodyKeys spec \<noteq> [] then g3_bodyKeys spec else map fst ps"
  have own: "get (JObj ps) key \<noteq> JUndef" if "key \<in> set (map fst ps)" for key
  proof -
    from that obtain w where "map_of ps key = Some w" by (metis map_of_eq_None_iff not_None_eq set_map)
    with assms(2) show ?thesis by (auto simp: get_def prop_get_def list_all_iff dest: map_of_SomeD)
  qed
  have "''client_secret'' \<notin> set (g3_bodyKeys spec)"
    using no_secret_key map_of_SomeD [OF assms(1)] by (auto simp: list_all_iff)
  with own have aliased: "key \<noteq> ''client_secret'' \<or> get (JObj ps) key \<noteq> JUndef" if "key \<in> set ?keys" for key
    using that by (cases "g3_bodyKeys spec = []") auto
  have reserved: "excluded_key path ''clientSecret''" for path by (simp add: excluded_key_def AUTH_KEYS_def)
  have "listed_body (JObj (upd_prop ''clientSecret'' v ps)) (g3_bodyKeys spec) (g3_path spec) = listed_body (JObj ps) (g3_bodyKeys spec) (g3_path spec)"
    unfolding listed_body_def props_of.simps fst_upd_prop
  proof (rule foldl_same)
    fix b key
    assume "key \<in> set ?keys"
    then show "(if excluded_key (g3_path spec) key \<or> absent_value (pick (JObj (upd_prop ''clientSecret'' v ps)) key) then b
          else obj_put b (toSnake key) (pick (JObj (upd_prop ''clientSecret'' v ps)) key))
        = (if excluded_key (g3_path spec) key \<or> absent_value (pick (JObj ps) key) then b else obj_put b (toSnake key) (pick (JObj ps) key))"
      using pick_ignores_secret [OF _ aliased] reserved by (cases "key = ''clientSecret''") simp_all
  qed
  then show ?thesis
    unfolding g3_buildBody_def props_of.simps by (simp add: foldl_upd_prop reserved)
qed

theorem g3_body_ignores_secret_witness:
  "g3_buildBody (JObj (upd_prop ''clientSecret'' (JStr ''two'') [(''name'', JStr ''Ops''), (''clientSecret'', JStr ''one'')])) [''name'', ''parent_id'', ''external_id'', ''external_parent_id''] ''/departments''
   = g3_buildBody (JObj [(''name'', JStr ''Ops''), (''clientSecret'', JStr ''one'')]) [''name'', ''parent_id'', ''external_id'', ''external_parent_id''] ''/departments''"
proof -
  have "map_of G3_SPECS ''departments.create''
      = Some (g3_spec ''POST'' ''/departments'' [''name''] [] [''name'', ''parent_id'', ''external_id'', ''external_parent_id''] None False)"
    by (simp add: G3_SPECS_def)
  from g3_body_ignores_secret [OF this, of "[(''name'', JStr ''Ops''), (''clientSecret'', JStr ''one'')]" "JStr ''two''"]
  show ?thesis by (simp add: g3_spec_def)
qed

text \<open>The OAuth user of the client stands in for a missing field \<open>user_id\<close>, since \<open>userId\<close> is its alias.\<close>

lemma oauth_user_is_user_id:
  assumes "get input ''user_id'' = JUndef" and "get input ''userId'' \<noteq> JUndef"
  shows "pick input ''user_id'' = get input ''userId''"
proof -
  have "toCamel ''user_id'' = ''userId''" by (simp add: is_lower_def code_def char_of_def bit_Suc_0_iff)
  with assms show ?thesis by (simp add: pick_def)
qed

end
