(* ===== verification/Spec2Isabelle.thy ===== *)
theory Spec2Isabelle
  imports Serve Supervisor Confinement Harness Smtp GreenhouseG3
begin

text \<open>
  A verification of the AppCall connector runner (\<open>runner/bun/src\<close>, \<open>runner/supervisor/src\<close>), of
  five kinds of hand-written connector code: the CalDAV connector (\<open>runner/connectors/caldav/src\<close>), the
  message syncs of four chat and mail providers, the webhooks of seven, the mail client that the mail
  connectors share (\<open>runner/connectors/_shared/smtp.ts\<close>), and the HTTP clients of the recruiting connectors
  (\<open>_shared/jobboard.ts\<close>, \<open>_shared/healthcheck_probe.ts\<close>, \<open>http.ts\<close> of seven providers) with all operations of one of
  them, Greenhouse; and of the sales-workflow harness
  \<open>runner/sena-e2e\<close>, a client of the platform.

  \<^bold>\<open>The program.\<close> A supervisor process (\<open>supervisor.ts\<close>) keeps one runner process alive. The runner
  accepts HTTP requests (\<open>serve.ts\<close>: bearer token, admission queue, recycling), reads one RPC envelope
  (\<open>server.ts\<close>: bounded body, deadline, redaction of credentials, bounded reply) and dispatches it to
  the connector registry (\<open>registry.ts\<close>), which checks declaration, budget, size and input schema
  before a handler runs and bounds its output after. A handler is hand-written, such as those of CalDAV,
  or compiled from a manifest (\<open>declarative/compile.ts\<close> with \<open>template.ts\<close>, \<open>validate.ts\<close> and
  \<open>strict-schema.ts\<close>; \<open>loader.ts\<close> finds the manifests). HTTP requests of connectors pass one client
  (\<open>http.ts\<close>), mail over SMTP another (\<open>smtp.ts\<close>), all nested work one deadline mechanism (\<open>execution.ts\<close>), all log lines one redactor
  (\<open>redact.ts\<close>).

  \<^bold>\<open>The theories\<close>, from the bottom up.

  \<^item> \<open>Prelude\<close>: JavaScript values, numbers, property lists and thrown values; the result type \<open>res\<close>.
    \<open>JsText\<close>: the string library, \<open>JSON\<close>, \<open>Number\<close>, \<open>String\<close>, URL encoding, base64.
  \<^item> \<open>Template\<close> (\<open>template.ts\<close>), \<open>Validate\<close> (\<open>validate.ts\<close>), \<open>Strict\<close> (\<open>strict-schema.ts\<close>),
    \<open>InputSchema\<close> (\<open>input_schema.ts\<close>): rendering without injection; validators equal to what the
    schema means; the lazy validator cache refines the uncached dispatch (locale \<open>memo_table\<close>).
  \<^item> \<open>Budget\<close> (\<open>budget.ts\<close>), \<open>Metadata\<close> (\<open>operation-metadata.ts\<close>), \<open>Redact\<close> (\<open>redact.ts\<close>),
    \<open>Execution\<close> (\<open>execution.ts\<close>), \<open>Http\<close> (\<open>http.ts\<close>): limits, partition of outputs, no secret in a
    log record, every promise settles by its deadline, confinement and bounds of outbound calls.
  \<^item> \<open>Request\<close> and \<open>Compile\<close> (\<open>compile.ts\<close>): request rendering and compiled handlers; a caller cannot
    choose the host, provider messages carry no credential.
  \<^item> \<open>Operations\<close> and \<open>Registry\<close> (\<open>registry.ts\<close>), \<open>Loader\<close> (\<open>loader.ts\<close>, \<open>startup.ts\<close>): operation
    specifications, effect policies with their observing read, the dispatch of actions, syncs,
    healthchecks and webhooks, start-up validation; registered handlers win over compiled ones.
  \<^item> \<open>Server\<close> (\<open>server.ts\<close>, \<open>protocol.ts\<close>): the whole request. Every request is answered by the
    deadline, within the size limit, and without a credential in an error message.
  \<^item> \<open>Machine\<close>, \<open>Serve\<close> (\<open>serve.ts\<close>), \<open>Supervisor\<close> (\<open>supervisor.ts\<close>): step relations over
    interleavings (locale for transition systems with an invariant): permits and
    queue bounded and first come first served; one child at a time, restarts bounded, grace kept.
  \<^item> \<open>ICalendar\<close>, \<open>DavXml\<close> (\<open>caldav/src/dav.ts\<close>), \<open>Async\<close>, \<open>Caldav\<close> (\<open>http.ts\<close>, \<open>actions.ts\<close>,
    \<open>healthcheck.ts\<close> of the connector): building, parsing and merging calendars (a merge keeps every
    line it does not manage), conditional writes, confinement and timeliness of all operations.
  \<^item> \<open>Messages\<close> (\<open>messages.ts\<close> and \<open>sync.ts\<close> of the Slack, Telegram, Google Workspace and Microsoft 365
    connectors), \<open>MessageSync\<close> (\<open>message_sync.ts\<close>): normalization of provider pages and the live page
    reads: one provider host per sync, at most 101 calls, an injected response is ignored, the Telegram
    cursor follows the last update.
  \<^item> \<open>Webhooks\<close> (\<open>webhook.ts\<close> of RB2B, Apollo, Heyzine, WhatsApp, Ashby, Calendly and Typeform, and the
    table \<open>webhooks\<close> of \<open>registry.ts\<close>): the token comparison on 32-bit words decides equality; keys,
    operations and kept fields of every parsed delivery; and the registry confirms every delivery, since it
    passes no secret to a verifier.
  \<^item> \<open>Lines\<close>, \<open>MailText\<close>, \<open>MailSocket\<close>, \<open>Smtp\<close> (\<open>_shared/smtp.ts\<close>): the receiver reads the message that was meant; the
    address check on 32-bit words; replies do not depend on chunking (a third interpretation of the locale for
    transition systems); the conversation as a computation over socket events (\<open>Async\<close>): nothing confidential before
    TLS, public addresses only, closed by the deadline (locale \<open>mail_body\<close>, interpreted for sending and for
    verifying), and a success means that the relay accepted every step of the script.
  \<^item> \<open>JobBoard\<close> (\<open>_shared/jobboard.ts\<close>, \<open>healthcheck_probe.ts\<close>, \<open>http.ts\<close> of Ashby, Lever, Recruitee, SmartRecruiters,
    Workable, Zoho Recruit, and \<open>datacenter.ts\<close>): identifiers stay one segment of a path, requests reach the hosts of
    the manifest or of one data centre. \<open>Greenhouse\<close> (\<open>greenhouse/src/http.ts\<close>): token cache, retry after a refusal and
    redaction; at most four requests per call (locale \<open>graded_effect\<close>, a contract on the state that adds up over a
    sequence), no secret in an error. \<open>GreenhouseObjects\<close> (\<open>objects.ts\<close>), \<open>GreenhouseOps\<close> (\<open>sync.ts\<close>, \<open>healthcheck.ts\<close>),
    \<open>GreenhouseActions\<close> (\<open>g1.ts\<close>, \<open>g2.ts\<close>), \<open>GreenhouseG3\<close> (\<open>g3.ts\<close>): all operations of that connector; each stays at its documented
    endpoint, and the body of a table-driven action does not depend on the client secret.
  \<^item> \<open>Confinement\<close>: the components put together. The locale \<open>effect_policy\<close> is the interface between
    the handlers and everything above them: a reflexive and transitive relation on their state that each
    handler keeps is kept by registry and server. It is interpreted for the requests that are sent, the
    compiled, the CalDAV, the RB2B and the message sync handlers are shown to keep it, and the theorem of this
    theory follows for every RPC.
  \<^item> \<open>Leads\<close> (\<open>sena-e2e/state.ts\<close>, \<open>csv/src/objects.ts\<close>), \<open>Harness\<close> (\<open>config.ts\<close>, \<open>safety.ts\<close>, \<open>client.ts\<close>,
    \<open>stages.ts\<close>, \<open>index.ts\<close> of \<open>sena-e2e\<close>): the lead file survives a round trip; whatever the API answers, no
    run sends a message past the gates of its mode.

  \<^bold>\<open>Conventions.\<close> A thrown value is \<open>Inl\<close>, a normal result \<open>Inr\<close>. Time is an integer of milliseconds, a
  promise is the time at which it settles with its result or \<open>Never\<close>, and an abort signal is the time at
  which it aborts. The effects of handlers are an explicit state; for handlers that call providers it is
  the list of requests sent. Interleaving is modelled where the code shares state between requests
  (\<open>Serve\<close>, \<open>Supervisor\<close>, \<open>MailSocket\<close>); within one request the code awaits each step and the model is sequential.

  \<^bold>\<open>Bounds and fuel.\<close> Loops over data are structural or have a termination proof. Fuel appears where the
  source has a limit of its own (schema depth and steps, redaction depth), and is that limit.

  \<^bold>\<open>Parameters.\<close> The URL parser, \<open>fetch\<close>, \<open>TextDecoder\<close>, \<open>URLSearchParams\<close>, \<open>Temporal\<close>, clocks, random
  identifiers, sockets, name lookup and process control are arguments of the definitions that use them. Strings are lists of
  characters below 256; there code units and code points coincide.

  \<^bold>\<open>Not modelled.\<close> The Rust crates (another language, met only at the RPC); the literal table of built-in
  connectors in \<open>registry.ts\<close>; the actions of the other hand-written connectors under \<open>runner/connectors\<close> (those of the
  other recruiting connectors included), which map inputs and answers and use the same HTTP and mail clients; manifests and fixtures, which are data and arguments of the model; socket, signal
  and process handling of \<open>index.ts\<close>; the connector generators under \<open>scripts\<close>, which do not run in the
  product.
\<close>

section \<open>The runner as a whole\<close>


definition sample_rpc :: rpc_request where
  "sample_rpc = \<lparr>rpc_body = Some [(1, Chunk [1]), (2, Done)], rpc_signal = None, rpc_cancel = None, rpc_request_id = None\<rparr>"

definition sample_envelope :: string where
  \<open>sample_envelope = ''{"method":"connector.healthcheck","params":{"connectorKey":"caldav","input":{"username":"me","password":"pw"}}}''\<close>


end
